(* ===== verification/Mu_Prelude.thy ===== *)
theory Mu_Prelude
  imports Complex_Main "HOL-Library.Word"
begin

text \<open>
  Shared vocabulary of the development: the machine types the C++ sources use, the outcome type of
  the request validators, the model of IEEE values, unsigned size arithmetic with its wrap-around,
  and the generic list and map lemmas the component theories rely on.
\<close>

named_theorems limits \<open>values of the protocol constants\<close>
named_theorems verdict_simps \<open>rewriting of validator outcomes\<close>

section \<open>Machine types\<close>

type_synonym u8 = "8 word"
type_synonym u16 = "16 word"
type_synonym u32 = "32 word"
type_synonym u64 = "64 word"

text \<open>
  Signed integers are \<open>int\<close>; where the code computes with them, the range is stated. A
  \<open>std::string\<close> is a list of bytes, written as a \<open>string\<close>; \<open>std::vector<std::uint8_t>\<close> is a list
  of \<open>u8\<close>.
\<close>

definition INT_MAX :: int where
  [limits]: "INT_MAX = 2147483647"

definition INT_MIN :: int where
  [limits]: "INT_MIN = - 2147483648"

definition i32_range :: "int \<Rightarrow> bool" where
  "i32_range n \<longleftrightarrow> INT_MIN \<le> n \<and> n \<le> INT_MAX"

definition byte_of :: "char \<Rightarrow> u8" where
  "byte_of c = of_char c"

section \<open>Unsigned size arithmetic\<close>

text \<open>
  \<open>std::size_t\<close> and \<open>std::uint64_t\<close> counters that the code compares against limits are naturals;
  addition and subtraction wrap at \<open>2 ^ 64\<close>, as in C++.
\<close>

definition size_add :: "nat \<Rightarrow> nat \<Rightarrow> nat" where
  "size_add a b = (a + b) mod 2 ^ 64"

definition size_sub :: "nat \<Rightarrow> nat \<Rightarrow> nat" where
  "size_sub a b = (if b \<le> a then a - b else 2 ^ 64 + a - b)"

lemma size_add_exact: "a + b < 2 ^ 64 \<Longrightarrow> size_add a b = a + b"
  by (simp add: size_add_def)

lemma size_sub_exact [simp]: "b \<le> a \<Longrightarrow> size_sub a b = a - b"
  by (simp add: size_sub_def)

lemma unat_inc_u64: "unat (w :: u64) + 1 < 2 ^ 64 \<Longrightarrow> unat (w + 1) = unat w + 1"
  using unat_add_lem [of w 1] by simp

lemma inc_u64_nonzero: "unat (w :: u64) + 1 < 2 ^ 64 \<Longrightarrow> w + 1 \<noteq> 0"
  using unat_inc_u64 by (metis add_is_0 one_neq_zero unat_0)

section \<open>IEEE values\<close>

text \<open>
  A floating-point value is a real number, an infinity or not a number. Comparisons with a NaN are
  false, as in C++. Values that the code only stores or compares are modelled exactly.
\<close>

datatype fp = Fin real | PosInf | NegInf | NaN

fun fp_le :: "fp \<Rightarrow> fp \<Rightarrow> bool" where
  "fp_le NaN _ = False"
| "fp_le _ NaN = False"
| "fp_le NegInf _ = True"
| "fp_le _ PosInf = True"
| "fp_le (Fin a) (Fin b) = (a \<le> b)"
| "fp_le _ _ = False"

fun fp_lt :: "fp \<Rightarrow> fp \<Rightarrow> bool" where
  "fp_lt NaN _ = False"
| "fp_lt _ NaN = False"
| "fp_lt NegInf b = (b \<noteq> NegInf)"
| "fp_lt a PosInf = (a \<noteq> PosInf)"
| "fp_lt (Fin a) (Fin b) = (a < b)"
| "fp_lt _ _ = False"

fun isfinite :: "fp \<Rightarrow> bool" where
  "isfinite (Fin _) = True"
| "isfinite _ = False"

lemma fp_le_Fin_lower: "fp_le (Fin a) x \<longleftrightarrow> x = PosInf \<or> (\<exists>r. x = Fin r \<and> a \<le> r)"
  by (cases x) auto

lemma fp_le_Fin_upper: "fp_le x (Fin b) \<longleftrightarrow> x = NegInf \<or> (\<exists>r. x = Fin r \<and> r \<le> b)"
  by (cases x) auto

lemma fp_lt_Fin_lower: "fp_lt (Fin a) x \<longleftrightarrow> x = PosInf \<or> (\<exists>r. x = Fin r \<and> a < r)"
  by (cases x) auto

lemma fp_between: "fp_le (Fin a) x \<and> fp_le x (Fin b) \<longleftrightarrow> (\<exists>r. x = Fin r \<and> a \<le> r \<and> r \<le> b)"
  by (cases x) auto

text \<open>
  The conversion of a 32-bit integer to \<open>float\<close>: 24 bits of significand, round to nearest, ties to
  even. Integers up to \<open>2 ^ 24\<close> in magnitude are exact.
\<close>

fun significand_shift :: "nat \<Rightarrow> nat \<Rightarrow> nat" where
  "significand_shift 0 m = 0"
| "significand_shift (Suc k) m = (if m < 16777216 then 0 else Suc (significand_shift k (m div 2)))"

definition float_of_i32 :: "int \<Rightarrow> int" where
  "float_of_i32 n =
     (let m = nat \<bar>n\<bar>; k = significand_shift 32 m; q = m div 2 ^ k; r = m mod 2 ^ k;
          q' = (if 2 * r > 2 ^ k \<or> (2 * r = 2 ^ k \<and> odd q) then q + 1 else q)
      in sgn n * int (q' * 2 ^ k))"

lemma significand_shift_small [simp]: "m < 16777216 \<Longrightarrow> significand_shift k m = 0"
  by (cases k) simp_all

lemma float_of_i32_exact: "\<bar>n\<bar> < 16777216 \<Longrightarrow> float_of_i32 n = n"
  by (auto simp: float_of_i32_def Let_def sgn_if nat_less_iff)

section \<open>Validator outcomes\<close>

text \<open>
  The validators return a \<open>bool\<close> and, when it is false, store a diagnostic through an optional
  \<open>reason\<close> pointer. Both are one value here.
\<close>

datatype verdict = Valid | Invalid string

definition require :: "bool \<Rightarrow> string \<Rightarrow> verdict \<Rightarrow> verdict" where
  "require b reason rest = (if b then rest else Invalid reason)"

fun and_then :: "verdict \<Rightarrow> verdict \<Rightarrow> verdict" where
  "and_then Valid v = v"
| "and_then (Invalid r) v = Invalid r"

lemma require_Valid [verdict_simps]: "require b r v = Valid \<longleftrightarrow> b \<and> v = Valid"
  by (simp add: require_def)

lemma and_then_Valid [verdict_simps]: "and_then v w = Valid \<longleftrightarrow> v = Valid \<and> w = Valid"
  by (cases v) auto

section \<open>Lists\<close>

lemma sum_list_map_le_elem: "x \<in> set xs \<Longrightarrow> (f x :: nat) \<le> sum_list (map f xs)"
  by (induction xs) auto

end
