(* ===== verification/Mu_Limits.thy ===== *)
theory Mu_Limits
  imports Mu_Prelude
begin

text \<open>
  The protocol constants: resource limits of \<^verbatim>\<open>src/shared/protocol/limits.hpp\<close> and the
  deadlines of \<^verbatim>\<open>src/shared/transport/common.hpp\<close>. Sizes and counts are naturals, signed
  limits integers, resolutions real numbers. The collection \<open>limits\<close> unfolds them.
\<close>

section \<open>Resource limits\<close>

subsection \<open>Control-Channel Serialized Message Limits\<close>

definition MaxControlMessageBytes :: nat where
  [limits]: "MaxControlMessageBytes = 64 * 1024 * 1024"

subsection \<open>Shared-Memory Render Frame Limits\<close>

definition MaxSharedFrameBytes :: nat where
  [limits]: "MaxSharedFrameBytes = 128 * 1024 * 1024"

definition MaxFrameSlotCount :: nat where
  [limits]: "MaxFrameSlotCount = 8"

subsection \<open>Serialization & Protocol Decoding Limits\<close>

definition MaxString :: nat where
  [limits]: "MaxString = 1024 * 1024"

definition MaxDepth :: nat where
  [limits]: "MaxDepth = 32"

definition MaxContainerAllocationBytes :: nat where
  [limits]: "MaxContainerAllocationBytes = 32 * 1024 * 1024"

definition MaxExportPages :: nat where
  [limits]: "MaxExportPages = MaxContainerAllocationBytes div 4"

subsection \<open>Rendering & Geometry Limits\<close>

definition MaxRenderDimension :: int where
  [limits]: "MaxRenderDimension = 16384"

definition MaxTiledRenderDimension :: int where
  [limits]: "MaxTiledRenderDimension = 65534"

subsection \<open>Resolution Limits\<close>

definition MinDpi :: real where
  [limits]: "MinDpi = 72"

definition MaxDpi :: real where
  [limits]: "MaxDpi = 600"

subsection \<open>Worker Settings Limits\<close>

definition MaxDocumentAntialiasing :: int where
  [limits]: "MaxDocumentAntialiasing = 8"

definition MaxDocumentImageQuality :: int where
  [limits]: "MaxDocumentImageQuality = 2"

definition MinDocumentMemoryCacheBytes :: int where
  [limits]: "MinDocumentMemoryCacheBytes = 32 * 1024 * 1024"

definition MaxDocumentMemoryCacheBytes :: int where
  [limits]: "MaxDocumentMemoryCacheBytes = 256 * 1024 * 1024"

subsection \<open>Signature Emblem Limits\<close>

definition MaxSignatureEmblemBytes :: nat where
  [limits]: "MaxSignatureEmblemBytes = 1024 * 1024"

definition MaxSignatureEmblemDimension :: nat where
  [limits]: "MaxSignatureEmblemDimension = 1024"

subsection \<open>EPUB / Content Limits\<close>

definition MinEpubFontSize :: int where
  [limits]: "MinEpubFontSize = 10"

definition MaxEpubFontSize :: int where
  [limits]: "MaxEpubFontSize = 20"

definition MaxEpubCustomCssCharacters :: nat where
  [limits]: "MaxEpubCustomCssCharacters = 1000"

definition MaxEpubCustomCssBase64Bytes :: nat where
  [limits]: "MaxEpubCustomCssBase64Bytes = 8192"

subsection \<open>Extracted Document Metadata Limits\<close>

definition MaxAggregateMetadataBytes :: nat where
  [limits]: "MaxAggregateMetadataBytes = 32 * 1024 * 1024"

definition MaxPageLinks :: nat where
  [limits]: "MaxPageLinks = 100000"

definition MaxLinkStringBytes :: nat where
  [limits]: "MaxLinkStringBytes = 64 * 1024"

subsection \<open>Annotation Geometry & Extras Limits\<close>

definition MaxAnnotationsPerPage :: nat where
  [limits]: "MaxAnnotationsPerPage = 2048"

definition MaxAnnotationsPerDocument :: nat where
  [limits]: "MaxAnnotationsPerDocument = 32768"

definition MaxAnnotationPoints :: nat where
  [limits]: "MaxAnnotationPoints = 4096"

definition MaxAnnotationQuads :: nat where
  [limits]: "MaxAnnotationQuads = 4096"

definition MaxAnnotationInkPaths :: nat where
  [limits]: "MaxAnnotationInkPaths = 1024"

definition MaxAnnotationCalloutPoints :: nat where
  [limits]: "MaxAnnotationCalloutPoints = 3"

definition MaxAnnotationInkPoints :: nat where
  [limits]: "MaxAnnotationInkPoints = 32768"

definition MaxStampImageBytes :: nat where
  [limits]: "MaxStampImageBytes = 4 * 1024 * 1024"

definition MaxStampImageDimension :: nat where
  [limits]: "MaxStampImageDimension = 1024"

subsection \<open>Annotation Metadata Extension Limits\<close>

definition MaxAnnotationExtensionDepth :: nat where
  [limits]: "MaxAnnotationExtensionDepth = 8"

definition MaxAnnotationExtensionEntries :: nat where
  [limits]: "MaxAnnotationExtensionEntries = 2048"

subsection \<open>PDF Layer UI Limits\<close>

definition MaxLayerEntries :: nat where
  [limits]: "MaxLayerEntries = 8192"

definition MaxLayerDepth :: int where
  [limits]: "MaxLayerDepth = 32"

definition MaxLayerNameBytes :: nat where
  [limits]: "MaxLayerNameBytes = 2048"

definition MaxLayerTextBytes :: nat where
  [limits]: "MaxLayerTextBytes = 256 * 1024"

subsection \<open>Form Fields Limits\<close>

definition MaxPageFormFields :: nat where
  [limits]: "MaxPageFormFields = 512"

definition MaxOpenFormFields :: nat where
  [limits]: "MaxOpenFormFields = 32768"

definition MaxFormFieldStringBytes :: nat where
  [limits]: "MaxFormFieldStringBytes = 64 * 1024"

definition MaxFormFormatHintBytes :: nat where
  [limits]: "MaxFormFormatHintBytes = 128"

definition MaxAggregateFormTextBytes :: nat where
  [limits]: "MaxAggregateFormTextBytes = 4 * 1024 * 1024"

definition MaxFormChoices :: nat where
  [limits]: "MaxFormChoices = 2048"

definition MaxFormSelectedIndices :: nat where
  [limits]: "MaxFormSelectedIndices = 256"

definition MaxHandleBytes :: nat where
  [limits]: "MaxHandleBytes = 128"

definition MaxFormFieldHandleBytes :: nat where
  [limits]: "MaxFormFieldHandleBytes = MaxHandleBytes"

definition MaxFormNameBytes :: nat where
  [limits]: "MaxFormNameBytes = 1024"

section \<open>Protocol version and deadlines\<close>

definition PROTOCOL_VERSION :: int where
  [limits]: "PROTOCOL_VERSION = 20"

definition RenderCookieBytes :: nat where
  [limits]: "RenderCookieBytes = 64"

definition ControlReadMs :: int where
  [limits]: "ControlReadMs = 30000"

definition ControlWriteMs :: int where
  [limits]: "ControlWriteMs = 30000"

definition GenericOpMs :: int where
  [limits]: "GenericOpMs = 5000"

definition PdfConversionMs :: int where
  [limits]: "PdfConversionMs = 30000"

definition HandshakeMs :: int where
  [limits]: "HandshakeMs = 30000"

definition RenderMs :: int where
  [limits]: "RenderMs = 15000"

definition OcrMs :: int where
  [limits]: "OcrMs = 45000"

definition SignMs :: int where
  [limits]: "SignMs = 45000"

definition SignRoundTripMs :: int where
  [limits]: "SignRoundTripMs = 30000"

definition FdChannelTimeoutMs :: int where
  [limits]: "FdChannelTimeoutMs = 5000"

definition ExportMs :: int where
  [limits]: "ExportMs = 60000"

end
