(* ===== verification/Model_Types.thy ===== *)
theory Model_Types
  imports Mu_Limits
begin

text \<open>
  The data contract between host and worker (\<^verbatim>\<open>src/shared/model/types.hpp\<close>): one record per
  structure and one datatype per enumeration, with the source's fields in order under a prefix per
  structure. The enumerations \<open>DocumentTheme\<close>, \<open>EpubPageSize\<close>, \<open>EpubFontFamily\<close>, \<open>LayerType\<close>,
  \<open>ExportProfileId\<close> and \<open>DocumentType\<close> arrive from the wire as an underlying byte that the code
  range-checks, so a field of such a type keeps that byte; \<open>..._value\<close> gives the byte of an enumerator. A
  \<open>std::map\<close> is an association list in key order, a \<open>std::variant\<close> a datatype.
\<close>

section \<open>Values, text and errors\<close>

datatype Value =
  VNull
  | VBool bool
  | VInt int
  | VDouble fp
  | VString string
  | VBytes "u8 list"
  | VArray "Value list"
  | VObject "(string \<times> Value) list"

definition isNull :: "Value \<Rightarrow> bool" where
  "isNull v \<longleftrightarrow> v = VNull"

record Timestamp =
  ts_valid :: bool
  ts_unixMilliseconds :: int

record TextBox =
  tb_text :: string
  tb_left :: fp
  tb_top :: fp
  tb_right :: fp
  tb_bottom :: fp
  tb_endOfLine :: bool

datatype OcrStatus =
  Ocr_Success
  | Ocr_Cancelled
  | Ocr_Failed
  | Ocr_Unavailable

record OcrResult =
  or_status :: OcrStatus
  or_boxes :: "TextBox list"

datatype ErrorCode =
  EC_InvalidRequest
  | EC_NotOpen
  | EC_PermissionDenied
  | EC_NotFound
  | EC_ResourceLimit
  | EC_Cancelled
  | EC_Unavailable
  | EC_Internal

datatype OpenStatus =
  Open_Success
  | Open_NeedsPassword
  | Open_Failed

record Error =
  err_code :: ErrorCode
  err_operation :: string
  err_message :: string

definition PixelFormatRgba8888 :: u32 where
  "PixelFormatRgba8888 = 1"

section \<open>Annotations\<close>

record Point =
  pt_x :: fp
  pt_y :: fp

record Quad =
  qd_upperLeft :: Point
  qd_upperRight :: Point
  qd_lowerRight :: Point
  qd_lowerLeft :: Point

datatype AnnotationType =
  AT_Text
  | AT_Link
  | AT_FreeText
  | AT_Line
  | AT_Square
  | AT_Circle
  | AT_Polygon
  | AT_PolyLine
  | AT_Highlight
  | AT_Underline
  | AT_Squiggly
  | AT_StrikeOut
  | AT_Redact
  | AT_Stamp
  | AT_Caret
  | AT_Ink
  | AT_Popup
  | AT_FileAttachment
  | AT_Sound
  | AT_Movie
  | AT_RichMedia
  | AT_Widget
  | AT_Screen
  | AT_PrinterMark
  | AT_TrapNet
  | AT_Watermark
  | AT_ThreeD
  | AT_Projection
  | AT_Unknown

fun AnnotationType_value :: "AnnotationType \<Rightarrow> int" where
  "AnnotationType_value AT_Text = 0"
| "AnnotationType_value AT_Link = 1"
| "AnnotationType_value AT_FreeText = 2"
| "AnnotationType_value AT_Line = 3"
| "AnnotationType_value AT_Square = 4"
| "AnnotationType_value AT_Circle = 5"
| "AnnotationType_value AT_Polygon = 6"
| "AnnotationType_value AT_PolyLine = 7"
| "AnnotationType_value AT_Highlight = 8"
| "AnnotationType_value AT_Underline = 9"
| "AnnotationType_value AT_Squiggly = 10"
| "AnnotationType_value AT_StrikeOut = 11"
| "AnnotationType_value AT_Redact = 12"
| "AnnotationType_value AT_Stamp = 13"
| "AnnotationType_value AT_Caret = 14"
| "AnnotationType_value AT_Ink = 15"
| "AnnotationType_value AT_Popup = 16"
| "AnnotationType_value AT_FileAttachment = 17"
| "AnnotationType_value AT_Sound = 18"
| "AnnotationType_value AT_Movie = 19"
| "AnnotationType_value AT_RichMedia = 20"
| "AnnotationType_value AT_Widget = 21"
| "AnnotationType_value AT_Screen = 22"
| "AnnotationType_value AT_PrinterMark = 23"
| "AnnotationType_value AT_TrapNet = 24"
| "AnnotationType_value AT_Watermark = 25"
| "AnnotationType_value AT_ThreeD = 26"
| "AnnotationType_value AT_Projection = 27"
| "AnnotationType_value AT_Unknown = -1"

fun isEditableAnnotationType :: "AnnotationType \<Rightarrow> bool" where
  "isEditableAnnotationType AT_Text = True"
| "isEditableAnnotationType AT_FreeText = True"
| "isEditableAnnotationType AT_Line = True"
| "isEditableAnnotationType AT_Square = True"
| "isEditableAnnotationType AT_Circle = True"
| "isEditableAnnotationType AT_Polygon = True"
| "isEditableAnnotationType AT_PolyLine = True"
| "isEditableAnnotationType AT_Highlight = True"
| "isEditableAnnotationType AT_Underline = True"
| "isEditableAnnotationType AT_Squiggly = True"
| "isEditableAnnotationType AT_StrikeOut = True"
| "isEditableAnnotationType AT_Stamp = True"
| "isEditableAnnotationType AT_Caret = True"
| "isEditableAnnotationType AT_Ink = True"
| "isEditableAnnotationType _ = False"

datatype AnnotationFlag =
  AF_Invisible
  | AF_Hidden
  | AF_Print
  | AF_NoZoom
  | AF_NoRotate
  | AF_NoView
  | AF_ReadOnly
  | AF_Locked
  | AF_ToggleNoView
  | AF_LockedContents

fun AnnotationFlag_value :: "AnnotationFlag \<Rightarrow> int" where
  "AnnotationFlag_value AF_Invisible = 1"
| "AnnotationFlag_value AF_Hidden = 2"
| "AnnotationFlag_value AF_Print = 4"
| "AnnotationFlag_value AF_NoZoom = 8"
| "AnnotationFlag_value AF_NoRotate = 16"
| "AnnotationFlag_value AF_NoView = 32"
| "AnnotationFlag_value AF_ReadOnly = 64"
| "AnnotationFlag_value AF_Locked = 128"
| "AnnotationFlag_value AF_ToggleNoView = 256"
| "AnnotationFlag_value AF_LockedContents = 512"

definition annotationFlagValue :: "AnnotationFlag \<Rightarrow> int" where
  "annotationFlagValue flag = AnnotationFlag_value flag"

record AnnotationAppearance =
  aa_icon :: string
  aa_fontName :: string
  aa_fontSize :: fp
  aa_textColor :: u32
  aa_borderWidth :: fp
  aa_alignment :: int

datatype AnnotationLineEnding =
  ALE_None
  | ALE_Square
  | ALE_Circle
  | ALE_Diamond
  | ALE_OpenArrow
  | ALE_ClosedArrow
  | ALE_Butt
  | ALE_ROpenArrow
  | ALE_RClosedArrow
  | ALE_Slash

fun AnnotationLineEnding_value :: "AnnotationLineEnding \<Rightarrow> int" where
  "AnnotationLineEnding_value ALE_None = 0"
| "AnnotationLineEnding_value ALE_Square = 1"
| "AnnotationLineEnding_value ALE_Circle = 2"
| "AnnotationLineEnding_value ALE_Diamond = 3"
| "AnnotationLineEnding_value ALE_OpenArrow = 4"
| "AnnotationLineEnding_value ALE_ClosedArrow = 5"
| "AnnotationLineEnding_value ALE_Butt = 6"
| "AnnotationLineEnding_value ALE_ROpenArrow = 7"
| "AnnotationLineEnding_value ALE_RClosedArrow = 8"
| "AnnotationLineEnding_value ALE_Slash = 9"

datatype AnnotationIntent =
  AI_Default
  | AI_FreeTextCallout
  | AI_FreeTextTypewriter
  | AI_LineArrow
  | AI_LineDimension
  | AI_PolyLineDimension
  | AI_PolygonCloud
  | AI_PolygonDimension
  | AI_StampImage
  | AI_StampSnapshot
  | AI_Unknown

fun AnnotationIntent_value :: "AnnotationIntent \<Rightarrow> int" where
  "AnnotationIntent_value AI_Default = 0"
| "AnnotationIntent_value AI_FreeTextCallout = 1"
| "AnnotationIntent_value AI_FreeTextTypewriter = 2"
| "AnnotationIntent_value AI_LineArrow = 3"
| "AnnotationIntent_value AI_LineDimension = 4"
| "AnnotationIntent_value AI_PolyLineDimension = 5"
| "AnnotationIntent_value AI_PolygonCloud = 6"
| "AnnotationIntent_value AI_PolygonDimension = 7"
| "AnnotationIntent_value AI_StampImage = 8"
| "AnnotationIntent_value AI_StampSnapshot = 9"
| "AnnotationIntent_value AI_Unknown = 255"

record AnnotationStyle =
  as_appearance :: "AnnotationAppearance option"
  as_borderWidth :: "fp option"
  as_interiorColor :: "u32 option"
  as_intent :: "AnnotationIntent option"
  as_firstLineEnding :: "AnnotationLineEnding option"
  as_lastLineEnding :: "AnnotationLineEnding option"
  as_closed :: "bool option"

record AnnotationExtras =
  ax_points :: "Point list"
  ax_quads :: "Quad list"
  ax_inkPaths :: "Point list list"
  ax_callout :: "Point list"
  ax_style :: AnnotationStyle
  ax_caretSymbolP :: bool
  ax_extension :: "(string \<times> Value) list"
  ax_stampImage :: "u8 list option"

record Annotation =
  an_subtype :: AnnotationType
  an_uuid :: string
  an_x0 :: fp
  an_y0 :: fp
  an_x1 :: fp
  an_y1 :: fp
  an_contents :: string
  an_author :: string
  an_creationDate :: Timestamp
  an_modificationDate :: Timestamp
  an_color :: u32
  an_flags :: int
  an_extras :: AnnotationExtras
  an_nativeIndex :: int
  an_pdfObjectNumber :: int
  an_handle :: string

section \<open>Destinations, fonts and pages\<close>

record Viewport =
  vp_page :: int
  vp_normalizedX :: fp
  vp_normalizedY :: fp
  vp_coordinateMask :: u8

record ResolvedLink =
  rl_external :: bool
  rl_uri :: string
  rl_viewport :: Viewport
  rl_valid :: bool

definition no_link :: ResolvedLink where
  "no_link = \<lparr>rl_external = False, rl_uri = [],
     rl_viewport = \<lparr>vp_page = - 1, vp_normalizedX = Fin 0, vp_normalizedY = Fin 0, vp_coordinateMask = 0\<rparr>, rl_valid = False\<rparr>"

record Link =
  lk_left :: fp
  lk_top :: fp
  lk_right :: fp
  lk_bottom :: fp
  lk_target :: ResolvedLink

definition Viewport_CoordinateX :: u8 where
  "Viewport_CoordinateX = 1"

definition Viewport_CoordinateY :: u8 where
  "Viewport_CoordinateY = 2"

datatype FontType =
  FT_Unknown
  | FT_Type1
  | FT_Type1C
  | FT_Type1COT
  | FT_Type3
  | FT_TrueType
  | FT_TrueTypeOT
  | FT_CIDType0
  | FT_CIDType0C
  | FT_CIDType0COT
  | FT_CIDTrueType
  | FT_CIDTrueTypeOT

datatype FontEmbedType =
  FE_NotEmbedded
  | FE_EmbeddedSubset
  | FE_FullyEmbedded

record Font =
  fo_name :: string
  fo_file :: string
  fo_type :: FontType
  fo_embedType :: FontEmbedType

record EmbeddedFile =
  ef_name :: string
  ef_description :: string
  ef_size :: int
  ef_creationDate :: Timestamp
  ef_modificationDate :: Timestamp
  ef_data :: "u8 list"
  ef_contentTooLarge :: bool

record PageGeometry =
  pg_widthPoints :: fp
  pg_heightPoints :: fp
  pg_duration :: fp
  pg_label :: string

section \<open>Settings\<close>

datatype EpubPageSize =
  EPS_B5
  | EPS_A5
  | EPS_SixByNine
  | EPS_Letter

fun EpubPageSize_value :: "EpubPageSize \<Rightarrow> u8" where
  "EpubPageSize_value EPS_B5 = 0"
| "EpubPageSize_value EPS_A5 = 1"
| "EpubPageSize_value EPS_SixByNine = 2"
| "EpubPageSize_value EPS_Letter = 3"

datatype EpubFontFamily =
  EFF_Default
  | EFF_Serif
  | EFF_SansSerif
  | EFF_Monospace

fun EpubFontFamily_value :: "EpubFontFamily \<Rightarrow> u8" where
  "EpubFontFamily_value EFF_Default = 0"
| "EpubFontFamily_value EFF_Serif = 1"
| "EpubFontFamily_value EFF_SansSerif = 2"
| "EpubFontFamily_value EFF_Monospace = 3"

record EpubLayoutSettings =
  el_fontSize :: int
  el_pageSize :: u8
  el_fontFamily :: u8
  el_customCssBase64 :: string

definition IdleTrimLevel_Off :: int where
  [limits]: "IdleTrimLevel_Off = 0"

definition IdleTrimLevel_Conservative :: int where
  [limits]: "IdleTrimLevel_Conservative = 1"

definition IdleTrimLevel_Balanced :: int where
  [limits]: "IdleTrimLevel_Balanced = 2"

definition IdleTrimLevel_Aggressive :: int where
  [limits]: "IdleTrimLevel_Aggressive = 3"

datatype DocumentTheme =
  DT_Default
  | DT_Twilight
  | DT_Dusk
  | DT_Dark

fun DocumentTheme_value :: "DocumentTheme \<Rightarrow> u8" where
  "DocumentTheme_value DT_Default = 0"
| "DocumentTheme_value DT_Twilight = 1"
| "DocumentTheme_value DT_Dusk = 2"
| "DocumentTheme_value DT_Dark = 3"

record DocumentSettings =
  ds_graphicsAntialiasing :: int
  ds_textAntialiasing :: int
  ds_imageQuality :: int
  ds_interpolateImages :: bool
  ds_memoryCacheBytes :: int
  ds_idleTrimAggressiveness :: int
  ds_paperColorRgb :: u32
  ds_epub :: EpubLayoutSettings
  ds_formJavaScriptEnabled :: bool
  ds_overprintSimulation :: bool
  ds_documentTheme :: u8

definition DocumentSettings_default :: DocumentSettings where
  "DocumentSettings_default = \<lparr>ds_graphicsAntialiasing = 8, ds_textAntialiasing = 8, ds_imageQuality = 0, ds_interpolateImages = True,
     ds_memoryCacheBytes = 64 * 1024 * 1024, ds_idleTrimAggressiveness = IdleTrimLevel_Balanced, ds_paperColorRgb = 0xFFFFFF,
     ds_epub = \<lparr>el_fontSize = 11, el_pageSize = EpubPageSize_value EPS_B5, el_fontFamily = EpubFontFamily_value EFF_Default,
       el_customCssBase64 = []\<rparr>,
     ds_formJavaScriptEnabled = False, ds_overprintSimulation = False, ds_documentTheme = DocumentTheme_value DT_Default\<rparr>"

record DocumentMetadata =
  dm_values :: "(string \<times> string) list"
  dm_pageCount :: int
  dm_mimeType :: string

datatype OutlineNode = OutlineNode
  (on_title: string)
  (on_open: bool)
  (on_link: ResolvedLink)
  (on_children: "OutlineNode list")

section \<open>Certificates and signature fields\<close>

datatype PublicKeyAlgorithm =
  PKA_Rsa
  | PKA_Dsa
  | PKA_Ec
  | PKA_Unknown

fun PublicKeyAlgorithm_value :: "PublicKeyAlgorithm \<Rightarrow> int" where
  "PublicKeyAlgorithm_value PKA_Rsa = 0"
| "PublicKeyAlgorithm_value PKA_Dsa = 1"
| "PublicKeyAlgorithm_value PKA_Ec = 2"
| "PublicKeyAlgorithm_value PKA_Unknown = 3"

record Certificate =
  ct_null :: bool
  ct_version :: int
  ct_serialNumber :: "u8 list"
  ct_issuerCommonName :: string
  ct_issuerDistinguishedName :: string
  ct_issuerEmail :: string
  ct_issuerOrganization :: string
  ct_subjectCommonName :: string
  ct_subjectDistinguishedName :: string
  ct_subjectEmail :: string
  ct_subjectOrganization :: string
  ct_nickname :: string
  ct_validityStart :: Timestamp
  ct_validityEnd :: Timestamp
  ct_keyUsage :: u32
  ct_publicKey :: "u8 list"
  ct_publicKeyType :: int
  ct_publicKeyStrength :: int
  ct_selfSigned :: bool
  ct_der :: "u8 list"

datatype SignatureStatus =
  SS_Unknown
  | SS_Valid
  | SS_Invalid
  | SS_DigestMismatch
  | SS_DecodingError
  | SS_GenericError
  | SS_NotFound
  | SS_NotVerified

datatype CertificateStatus =
  CS_Unknown
  | CS_Trusted
  | CS_UntrustedIssuer
  | CS_UnknownIssuer
  | CS_Revoked
  | CS_Expired
  | CS_GenericError
  | CS_NotVerified
  | CS_VerificationInProgress

datatype HashAlgorithm =
  HA_Unknown
  | HA_Md2
  | HA_Md5
  | HA_Sha1
  | HA_Sha256
  | HA_Sha384
  | HA_Sha512
  | HA_Sha224

datatype SigningResult =
  SR_Success
  | SR_GenericError
  | SR_FieldAlreadySigned
  | SR_KeyMissing
  | SR_WriteFailed
  | SR_UserCancelled
  | SR_BadPassphrase

fun SigningResult_value :: "SigningResult \<Rightarrow> int" where
  "SigningResult_value SR_Success = 0"
| "SigningResult_value SR_GenericError = 1"
| "SigningResult_value SR_FieldAlreadySigned = 2"
| "SigningResult_value SR_KeyMissing = 3"
| "SigningResult_value SR_WriteFailed = 4"
| "SigningResult_value SR_UserCancelled = 5"
| "SigningResult_value SR_BadPassphrase = 6"

record SignatureField =
  sf_page :: int
  sf_objectNumber :: int
  sf_partialName :: string
  sf_fullyQualifiedName :: string
  sf_readOnly :: bool
  sf_visible :: bool
  sf_signerName :: string
  sf_signerSubjectDn :: string
  sf_reason :: string
  sf_location :: string
  sf_signingTime :: Timestamp
  sf_subFilter :: string
  sf_left :: fp
  sf_top :: fp
  sf_right :: fp
  sf_bottom :: fp
  sf_signatureStatus :: SignatureStatus
  sf_certificateStatus :: CertificateStatus
  sf_certificateStatusAtSigningTime :: CertificateStatus
  sf_certificateStatusCurrent :: CertificateStatus
  sf_certificateValidationTime :: Timestamp
  sf_hasTrustedTimestamp :: bool
  sf_hashAlgorithm :: HashAlgorithm
  sf_certificate :: Certificate
  sf_byteRange :: "int list"
  sf_cmsSignature :: "u8 list"
  sf_signsTotalDocument :: bool
  sf_signedField :: bool

record NormalizedRect =
  nr_left :: fp
  nr_top :: fp
  nr_right :: fp
  nr_bottom :: fp

section \<open>Form fields\<close>

datatype FormFieldType =
  FFT_Text
  | FFT_CheckBox
  | FFT_RadioButton
  | FFT_ComboBox
  | FFT_ListBox
  | FFT_PushButton

datatype FormPushButtonAction =
  FPA_None
  | FPA_Reset
  | FPA_JavaScript

record FormField =
  ff_handle :: string
  ff_page :: int
  ff_pdfObjectNumber :: int
  ff_fieldObjectNumber :: int
  ff_type :: FormFieldType
  ff_partialName :: string
  ff_uiName :: string
  ff_fullyQualifiedName :: string
  ff_groupName :: string
  ff_rectangle :: NormalizedRect
  ff_readOnly :: bool
  ff_visible :: bool
  ff_printable :: bool
  ff_text :: string
  ff_maximumLength :: int
  ff_multiline :: bool
  ff_password :: bool
  ff_formatHint :: string
  ff_checked :: bool
  ff_onState :: string
  ff_noToggleToOff :: bool
  ff_radiosInUnison :: bool
  ff_buttonCaption :: string
  ff_pushButtonAction :: FormPushButtonAction
  ff_choices :: "string list"
  ff_exportValues :: "string list"
  ff_currentChoices :: "int list"
  ff_editableCombo :: bool
  ff_multiSelect :: bool

datatype FormValue =
  FormTextValue string
  | FormCheckValue bool
  | FormChoiceSelection "int list"
  | FormChoiceCustomText string

record FormUpdateRequest =
  fu_handle :: string
  fu_value :: FormValue

record FormResetRequest =
  fr_handle :: string

record FormButtonClickRequest =
  fb_handle :: string

record FormFieldState =
  fs_handle :: string
  fs_value :: FormValue

record FormUpdateResponse =
  fur_affectedFields :: "FormFieldState list"
  fur_affectedPages :: "int list"

section \<open>Pages, frames and transfers\<close>

record PageInfo =
  pi_number :: int
  pi_geometry :: PageGeometry
  pi_annotations :: "Annotation list"
  pi_signatureFields :: "SignatureField list"
  pi_links :: "Link list"
  pi_formFields :: "FormField list"

record PageLinks =
  pl_page :: int
  pl_links :: "Link list"

record RenderFrame =
  rf_transferId :: u64
  rf_slotId :: u64
  rf_leaseId :: u64
  rf_width :: int
  rf_height :: int
  rf_stride :: int
  rf_format :: u32

record AnnotationHandle =
  ah_value :: string

record AnnotationMutation =
  am_page :: int
  am_handle :: AnnotationHandle
  am_annotation :: Annotation
  am_appearanceChanged :: bool

record FileTransfer =
  ft_transferId :: u64

record SignInput =
  si_jobId :: u64
  si_nonce :: string
  si_certificateNickname :: string
  si_digest :: "u8 list"

record SignReply =
  sr_jobId :: u64
  sr_nonce :: string
  sr_result :: SigningResult
  sr_details :: string
  sr_cmsSignature :: "u8 list"

section \<open>Document formats\<close>

datatype DocumentType =
  Doc_Pdf
  | Doc_Epub
  | Doc_Mobi
  | Doc_Kindle
  | Doc_Xps
  | Doc_Unknown

fun DocumentType_value :: "DocumentType \<Rightarrow> u8" where
  "DocumentType_value Doc_Pdf = 0"
| "DocumentType_value Doc_Epub = 1"
| "DocumentType_value Doc_Mobi = 2"
| "DocumentType_value Doc_Kindle = 3"
| "DocumentType_value Doc_Xps = 4"
| "DocumentType_value Doc_Unknown = 255"

definition isReflowableDocument :: "u8 \<Rightarrow> bool" where
  "isReflowableDocument type \<longleftrightarrow> type = DocumentType_value Doc_Epub
     \<or> type = DocumentType_value Doc_Mobi \<or> type = DocumentType_value Doc_Kindle"

definition documentTypeToMime :: "u8 \<Rightarrow> string" where
  "documentTypeToMime type =
     (if type = DocumentType_value Doc_Epub then ''application/epub+zip''
      else if type = DocumentType_value Doc_Mobi then ''application/x-mobipocket-ebook''
      else if type = DocumentType_value Doc_Kindle then ''application/vnd.amazon.mobi8-ebook''
      else if type = DocumentType_value Doc_Pdf then ''application/pdf''
      else if type = DocumentType_value Doc_Xps then ''application/vnd.ms-xpsdocument''
      else ''application/octet-stream'')"

definition documentTypeFromMime :: "string \<Rightarrow> u8" where
  "documentTypeFromMime mime =
     (if mime = ''application/epub+zip'' then DocumentType_value Doc_Epub
      else if mime = ''application/x-mobipocket-ebook'' then DocumentType_value Doc_Mobi
      else if mime = ''application/vnd.amazon.mobi8-ebook'' \<or> mime = ''application/x-mobi8-ebook''
        then DocumentType_value Doc_Kindle
      else if mime = ''application/pdf'' \<or> mime = ''application/x-pdf'' then DocumentType_value Doc_Pdf
      else if mime = ''application/vnd.ms-xpsdocument'' \<or> mime = ''application/xps''
          \<or> mime = ''application/oxps'' then DocumentType_value Doc_Xps
      else DocumentType_value Doc_Unknown)"

end
