(* ===== verification/Sandbox_Status.thy ===== *)
theory Sandbox_Status
  imports Mu_Prelude
begin

text \<open>
  The worker's sandbox report (\<^verbatim>\<open>src/shared/model/sandbox_status.hpp\<close>): the protections a
  platform profile requires and the isolation level derived from them. The host's strict policy opens
  documents only when \<open>isFullyHardened\<close> holds.
\<close>

datatype ProtectionCategory =
  PC_Filesystem
  | PC_Network
  | PC_Syscall
  | PC_Process
  | PC_Resources
  | PC_Memory
  | PC_Transport
  | PC_Other

datatype ProtectionState =
  PS_Unknown
  | PS_Enforced
  | PS_Unavailable
  | PS_Disabled
  | PS_Failed

datatype IsolationLevel =
  IL_Unknown
  | IL_Full
  | IL_Degraded
  | IL_None

fun protectionStateName :: "ProtectionState \<Rightarrow> string" where
  "protectionStateName PS_Unknown = ''unknown''"
| "protectionStateName PS_Enforced = ''enforced''"
| "protectionStateName PS_Unavailable = ''unavailable''"
| "protectionStateName PS_Disabled = ''disabled''"
| "protectionStateName PS_Failed = ''failed''"

fun protectionCategoryName :: "ProtectionCategory \<Rightarrow> string" where
  "protectionCategoryName PC_Filesystem = ''filesystem''"
| "protectionCategoryName PC_Network = ''network''"
| "protectionCategoryName PC_Syscall = ''syscall''"
| "protectionCategoryName PC_Process = ''process''"
| "protectionCategoryName PC_Resources = ''resources''"
| "protectionCategoryName PC_Memory = ''memory''"
| "protectionCategoryName PC_Transport = ''transport''"
| "protectionCategoryName PC_Other = ''other''"

fun isolationLevelName :: "IsolationLevel \<Rightarrow> string" where
  "isolationLevelName IL_Unknown = ''unknown''"
| "isolationLevelName IL_Full = ''full''"
| "isolationLevelName IL_Degraded = ''degraded''"
| "isolationLevelName IL_None = ''none''"

record ProtectionStatus =
  ps_id :: string
  ps_category :: ProtectionCategory
  ps_state :: ProtectionState
  ps_required :: bool
  ps_version :: string
  ps_diagnostic :: string

record SandboxStatus =
  ss_platform :: string
  ss_profile :: string
  ss_protections :: "ProtectionStatus list"
  ss_diagnostics :: "string list"

definition isFullyHardened :: "SandboxStatus \<Rightarrow> bool" where
  "isFullyHardened s \<longleftrightarrow> ss_platform s \<noteq> [] \<and> ss_profile s \<noteq> []
     \<and> list_ex ps_required (ss_protections s)
     \<and> list_all (\<lambda>p. \<not> ps_required p \<or> (ps_id p \<noteq> [] \<and> ps_state p = PS_Enforced)) (ss_protections s)"

definition isPartiallyActive :: "SandboxStatus \<Rightarrow> bool" where
  "isPartiallyActive s \<longleftrightarrow> \<not> isFullyHardened s
     \<and> list_ex (\<lambda>p. ps_required p \<and> ps_state p = PS_Enforced) (ss_protections s)"

definition isolation :: "SandboxStatus \<Rightarrow> IsolationLevel" where
  "isolation s =
     (if ss_platform s = [] \<or> ss_profile s = [] then IL_Unknown
      else if isFullyHardened s then IL_Full
      else if isPartiallyActive s then IL_Degraded
      else if ss_protections s = []
           \<or> list_ex (\<lambda>p. ps_required p \<and> ps_state p = PS_Unknown) (ss_protections s) then IL_Unknown
      else IL_None)"

lemma protectionStateName_inj: "inj protectionStateName"
  by (rule injI) (case_tac x; case_tac y; simp)

text \<open>Full isolation is reported exactly for a fully hardened worker.\<close>

lemma isolation_Full_iff: "isolation s = IL_Full \<longleftrightarrow> isFullyHardened s"
  by (auto simp: isolation_def isFullyHardened_def)

lemma isFullyHardened_required:
  "isFullyHardened s \<Longrightarrow> p \<in> set (ss_protections s) \<Longrightarrow> ps_required p
    \<Longrightarrow> ps_id p \<noteq> [] \<and> ps_state p = PS_Enforced"
  by (auto simp: isFullyHardened_def list_all_iff)

lemma isolation_Degraded_iff: "isolation s = IL_Degraded \<longleftrightarrow>
    ss_platform s \<noteq> [] \<and> ss_profile s \<noteq> [] \<and> isPartiallyActive s"
  by (auto simp: isolation_def isPartiallyActive_def)

text \<open>A failed required protection never leaves the sandbox fully hardened.\<close>

lemma failed_required_not_full:
  "p \<in> set (ss_protections s) \<Longrightarrow> ps_required p \<Longrightarrow> ps_state p \<noteq> PS_Enforced
    \<Longrightarrow> isolation s \<noteq> IL_Full"
  by (auto simp: isolation_Full_iff dest: isFullyHardened_required)

end
