(* ===== verification/Messages.thy ===== *)
theory Messages
  imports Model_Types Sandbox_Status
begin

text \<open>
  The three message families of the control channel (\<^verbatim>\<open>src/shared/model/types.hpp\<close>): request,
  response and notification bodies, each family a datatype with one constructor per alternative of the
  source's variant, and the envelopes that carry them.
\<close>

unbundle bit_operations_syntax

section \<open>Request bodies\<close>

record PingRequest =
  png_compat :: string

record OpenRequest =
  opn_file :: FileTransfer
  opn_displayName :: string
  opn_password :: string
  opn_documentType :: u8
  opn_epubAccelerator :: "u8 list"

definition MaxEpubAcceleratorBytes :: nat where
  [limits]: "MaxEpubAcceleratorBytes = 512 * 1024"

record RenderTile =
  rt_x :: int
  rt_y :: int
  rt_width :: int
  rt_height :: int

record RenderRequest =
  rr_page :: int
  rr_width :: int
  rr_height :: int
  rr_tile :: "RenderTile option"
  rr_cancelTransferId :: u64
  rr_includeLinks :: bool
  rr_generation :: u64

record ResolveLinkRequest =
  rlq_uri :: string
  rlq_generation :: u64

record ResolveLinkResponse =
  rlr_target :: ResolvedLink

record ReleaseFrameSlotRequest =
  rel_slotId :: u64
  rel_leaseId :: u64

record TextBoxesRequest =
  tbq_page :: int
  tbq_dpiX :: fp
  tbq_dpiY :: fp
  tbq_skipAnnots :: bool

record OcrPageRequest =
  ocp_file :: FileTransfer
  ocp_page :: int
  ocp_dpi :: int
  ocp_language :: string

record OcrResultRequest =
  orq_jobId :: u64

record MetadataRequest =
  mdq_keys :: "string list"

record SynopsisRequest =
  syn_generateFallback :: bool

datatype LayerType =
  LT_Label
  | LT_CheckBox
  | LT_RadioButton

fun LayerType_value :: "LayerType \<Rightarrow> u8" where
  "LayerType_value LT_Label = 0"
| "LayerType_value LT_CheckBox = 1"
| "LayerType_value LT_RadioButton = 2"

record LayerEntry =
  le_id :: int
  le_depth :: int
  le_name :: string
  le_type :: u8
  le_selected :: bool
  le_locked :: bool

record SetLayerRequest =
  sl_generation :: u64
  sl_id :: int
  sl_selected :: bool

record LayersResponse =
  lys_generation :: u64
  lys_entries :: "LayerEntry list"

record FontsRequest =
  foq_page :: int

record AnnotationAddRequest =
  aar_page :: int
  aar_annotation :: Annotation

record AnnotationModifyRequest =
  amr_mutation :: AnnotationMutation

record AnnotationRemoveRequest =
  arr_page :: int
  arr_handle :: AnnotationHandle

record SettingsRequest =
  stq_settings :: DocumentSettings

datatype ExportRepresentation =
  ER_Native
  | ER_Vector
  | ER_Raster
  | ER_Text
  | ER_OriginalSource

datatype ExportContent =
  EXC_LiveDocument
  | EXC_OriginalSource

datatype ExportCancellation =
  ECN_QueuedOnly
  | ECN_ActiveCooperative
  | ECN_DrainAndDiscard

datatype ExportFlag =
  EF_PageSelection
  | EF_IncludeAnnotations
  | EF_FlattenAnnotations
  | EF_IncludeReferences

fun ExportFlag_value :: "ExportFlag \<Rightarrow> u32" where
  "ExportFlag_value EF_PageSelection = 1"
| "ExportFlag_value EF_IncludeAnnotations = 2"
| "ExportFlag_value EF_FlattenAnnotations = 4"
| "ExportFlag_value EF_IncludeReferences = 8"

datatype ExportProfileId =
  EPI_Invalid
  | EPI_Native
  | EPI_Print
  | EPI_Flattened
  | EPI_WithReferences
  | EPI_SourceWithReferences
  | EPI_Converted

fun ExportProfileId_value :: "ExportProfileId \<Rightarrow> u8" where
  "ExportProfileId_value EPI_Invalid = 0"
| "ExportProfileId_value EPI_Native = 1"
| "ExportProfileId_value EPI_Print = 2"
| "ExportProfileId_value EPI_Flattened = 3"
| "ExportProfileId_value EPI_WithReferences = 4"
| "ExportProfileId_value EPI_SourceWithReferences = 5"
| "ExportProfileId_value EPI_Converted = 6"

record ExportProfile =
  ep_id :: u8
  ep_representation :: ExportRepresentation
  ep_content :: ExportContent
  ep_supportedFlags :: u32
  ep_includesUnsavedChanges :: bool
  ep_synchronous :: bool
  ep_asynchronous :: bool
  ep_cancellation :: ExportCancellation

record OutputFormatInfo =
  ofi_id :: string
  ofi_mimeType :: string
  ofi_extensions :: "string list"
  ofi_profiles :: "ExportProfile list"

record ExportOptions =
  eo_formatId :: string
  eo_profileId :: u8
  eo_pages :: "int list"
  eo_flags :: u32

record ExportRequest =
  exq_output :: FileTransfer
  exq_input :: FileTransfer
  exq_options :: ExportOptions
  exq_asynchronous :: bool

datatype SignatureElement =
  SE_Labels
  | SE_DistinguishedName
  | SE_Date
  | SE_TextName
  | SE_GraphicName
  | SE_Logo
  | SE_Location

fun SignatureElement_value :: "SignatureElement \<Rightarrow> u8" where
  "SignatureElement_value SE_Labels = 1"
| "SignatureElement_value SE_DistinguishedName = 2"
| "SignatureElement_value SE_Date = 4"
| "SignatureElement_value SE_TextName = 8"
| "SignatureElement_value SE_GraphicName = 16"
| "SignatureElement_value SE_Logo = 32"
| "SignatureElement_value SE_Location = 64"

definition SignatureElementDefault :: u8 where
  "SignatureElementDefault = SignatureElement_value SE_Labels
     OR SignatureElement_value SE_DistinguishedName OR SignatureElement_value SE_Date
     OR SignatureElement_value SE_TextName OR SignatureElement_value SE_GraphicName
     OR SignatureElement_value SE_Logo OR SignatureElement_value SE_Location"

definition SignatureElementSimple :: u8 where
  "SignatureElementSimple = SignatureElement_value SE_TextName OR SignatureElement_value SE_Date"

record SignatureAppearance =
  sa_elements :: u8
  sa_reason :: string
  sa_location :: string
  sa_signingEpochSeconds :: int
  sa_signingDisplayDate :: string
  sa_backgroundImage :: "u8 list"
  sa_drawBorder :: bool
  sa_emblemImage :: "u8 list"

record SignRequest =
  sg_file :: FileTransfer
  sg_page :: int
  sg_rectangle :: NormalizedRect
  sg_certificateNickname :: string
  sg_certificateSubjectCommonName :: string
  sg_existingFieldObjectNumber :: int
  sg_appearance :: SignatureAppearance

datatype RequestPayload =
  RqPing PingRequest
  | RqOutputFormats
  | RqExport ExportRequest
  | RqOpen OpenRequest
  | RqClose
  | RqRender RenderRequest
  | RqReleaseFrameSlot ReleaseFrameSlotRequest
  | RqTextBoxes TextBoxesRequest
  | RqOcrPage OcrPageRequest
  | RqOcrResult OcrResultRequest
  | RqCancelOcrJobs
  | RqMetadata MetadataRequest
  | RqSynopsis SynopsisRequest
  | RqFonts FontsRequest
  | RqEmbeddedFiles
  | RqAnnotationAdd AnnotationAddRequest
  | RqAnnotationModify AnnotationModifyRequest
  | RqAnnotationRemove AnnotationRemoveRequest
  | RqSettings SettingsRequest
  | RqSign SignRequest
  | RqSignReply SignReply
  | RqFormUpdate FormUpdateRequest
  | RqFormReset FormResetRequest
  | RqFormButtonClick FormButtonClickRequest
  | RqLayers
  | RqSetLayer SetLayerRequest
  | RqResolveLink ResolveLinkRequest

record RequestMessage =
  rqm_id :: u64
  rqm_payload :: RequestPayload

section \<open>Response bodies\<close>

record OpenResponse =
  opr_pages :: "PageInfo list"
  opr_linkGeneration :: u64
  opr_epubAccelerator :: "u8 list"

record PageLinksNotification =
  pln_generation :: u64
  pln_pages :: "PageLinks list"
  pln_resourceLimited :: bool
  pln_error :: string

record RenderLinks =
  rls_generation :: u64
  rls_links :: "Link list"
  rls_error :: string

record RenderResponse =
  rrs_frame :: RenderFrame
  rrs_links :: "RenderLinks option"

record OutputFormatsResponse =
  ofr_formats :: "OutputFormatInfo list"

record JobResponse =
  jr_jobId :: u64

record TextBoxesResponse =
  tbr_boxes :: "TextBox list"

record OcrResponse =
  ocr_result :: OcrResult

record MetadataResponse =
  mdr_metadata :: DocumentMetadata

record OutlineResponse =
  olr_nodes :: "OutlineNode list"

record FontsResponse =
  for_fonts :: "Font list"

record EmbeddedFilesResponse =
  efr_files :: "EmbeddedFile list"

record AnnotationResponse =
  anr_handle :: AnnotationHandle

record PingResponse =
  pgr_compat :: string
  pgr_pid :: int
  pgr_sandbox :: SandboxStatus
  pgr_engineVersion :: string
  pgr_systemMuPdf :: bool

record SignResponse =
  sgr_result :: SigningResult
  sgr_details :: string

datatype ResponsePayload =
  RsEmpty
  | RsOutputFormats OutputFormatsResponse
  | RsOpen OpenResponse
  | RsRender RenderResponse
  | RsJob JobResponse
  | RsTextBoxes TextBoxesResponse
  | RsOcr OcrResponse
  | RsMetadata MetadataResponse
  | RsOutline OutlineResponse
  | RsFonts FontsResponse
  | RsEmbeddedFiles EmbeddedFilesResponse
  | RsAnnotation AnnotationResponse
  | RsPing PingResponse
  | RsSign SignResponse
  | RsFormUpdate FormUpdateResponse
  | RsLayers LayersResponse
  | RsResolveLink ResolveLinkResponse

record ResponseMessage =
  rsm_id :: u64
  rsm_payload :: ResponsePayload
  rsm_error :: "Error option"

section \<open>Notifications\<close>

record OcrDoneNotification =
  odn_jobId :: u64
  odn_page :: int

datatype ExportPhase =
  EPH_CreatingPages
  | EPH_Finalizing
  | EPH_Succeeded
  | EPH_Failed

record ExportProgressNotification =
  epn_jobId :: u64
  epn_completed :: int
  epn_total :: int
  epn_phase :: ExportPhase
  epn_error :: string

definition export_done :: "ExportProgressNotification \<Rightarrow> bool" where
  "export_done n \<longleftrightarrow> epn_phase n = EPH_Succeeded \<or> epn_phase n = EPH_Failed"

datatype NotificationPayload =
  NtOcrDone OcrDoneNotification
  | NtPageLinks PageLinksNotification
  | NtSignInput SignInput
  | NtExportProgress ExportProgressNotification

record NotificationMessage =
  ntm_payload :: NotificationPayload

end
