(* ===== verification/Text_Encoding.thy ===== *)
theory Text_Encoding
  imports Mu_Limits
begin

text \<open>
  Text checks of \<^verbatim>\<open>src/shared/model/validation.cpp\<close>: UTF-8 well-formedness, code point
  counting, base64 syntax and embedded NUL bytes. The UTF-8 loop is shown equivalent to a reference
  encoder of Unicode scalar values.
\<close>

unbundle bit_operations_syntax

section \<open>The loops of the source\<close>

text \<open>The loop of \<open>isValidUtf8\<close> from position \<open>i\<close>, one sequence per turn.\<close>

function utf8_loop :: "u8 list \<Rightarrow> nat \<Rightarrow> bool" where
  "utf8_loop s i =
     (if i < length s then
        if s ! i \<le> 0x7F then utf8_loop s (i + 1)
        else if s ! i AND 0xE0 = 0xC0 then
          (if i + 1 \<ge> length s \<or> s ! (i + 1) AND 0xC0 \<noteq> 0x80 \<or> s ! i < 0xC2 then False
           else utf8_loop s (i + 2))
        else if s ! i AND 0xF0 = 0xE0 then
          (if i + 2 \<ge> length s \<or> s ! (i + 1) AND 0xC0 \<noteq> 0x80 \<or> s ! (i + 2) AND 0xC0 \<noteq> 0x80 then False
           else if s ! i = 0xE0 \<and> s ! (i + 1) < 0xA0 then False
           else if s ! i = 0xED \<and> s ! (i + 1) \<ge> 0xA0 then False
           else utf8_loop s (i + 3))
        else if s ! i AND 0xF8 = 0xF0 then
          (if i + 3 \<ge> length s \<or> s ! (i + 1) AND 0xC0 \<noteq> 0x80 \<or> s ! (i + 2) AND 0xC0 \<noteq> 0x80
              \<or> s ! (i + 3) AND 0xC0 \<noteq> 0x80 then False
           else if s ! i = 0xF0 \<and> s ! (i + 1) < 0x90 then False
           else if s ! i = 0xF4 \<and> s ! (i + 1) > 0x8F then False
           else if s ! i > 0xF4 then False
           else utf8_loop s (i + 4))
        else False
      else True)"
  by pat_completeness auto
termination
  by (relation "measure (\<lambda>(s, i). length s - i)") auto

declare utf8_loop.simps [simp del]

definition isValidUtf8 :: "string \<Rightarrow> bool" where
  "isValidUtf8 str = utf8_loop (map byte_of str) 0"

fun codepoint_loop :: "u8 list \<Rightarrow> nat \<Rightarrow> nat" where
  "codepoint_loop [] count = count"
| "codepoint_loop (b # bs) count =
     codepoint_loop bs (if b AND 0xC0 \<noteq> 0x80 then count + 1 else count)"

definition utf8CodepointCount :: "string \<Rightarrow> nat" where
  "utf8CodepointCount str = codepoint_loop (map byte_of str) 0"

definition isBase64 :: "char \<Rightarrow> bool" where
  "isBase64 c \<longleftrightarrow> (of_char c \<ge> (65::nat) \<and> of_char c \<le> (90::nat))
     \<or> (of_char c \<ge> (97::nat) \<and> of_char c \<le> (122::nat))
     \<or> (of_char c \<ge> (48::nat) \<and> of_char c \<le> (57::nat)) \<or> c = CHR ''+'' \<or> c = CHR ''/''"

text \<open>The loop of \<open>isValidBase64\<close> over the remaining characters, at position \<open>i\<close> of \<open>n\<close>.\<close>

fun base64_loop :: "nat \<Rightarrow> nat \<Rightarrow> nat \<Rightarrow> string \<Rightarrow> bool" where
  "base64_loop n i padding [] = True"
| "base64_loop n i padding (c # cs) =
     (if c = CHR ''='' then
        (if i < size_sub n 2 \<or> padding + 1 > 2 then False
         else base64_loop n (i + 1) (padding + 1) cs)
      else if \<not> isBase64 c \<or> padding \<noteq> 0 then False
      else base64_loop n (i + 1) padding cs)"

definition isValidBase64 :: "string \<Rightarrow> bool" where
  "isValidBase64 encoded \<longleftrightarrow>
     length encoded mod 4 = 0 \<and> base64_loop (length encoded) 0 0 encoded"

definition isValidEpubCustomCssBase64 :: "string \<Rightarrow> bool" where
  "isValidEpubCustomCssBase64 encoded \<longleftrightarrow>
     length encoded \<le> MaxEpubCustomCssBase64Bytes \<and> isValidBase64 encoded"

definition hasNoEmbeddedNul :: "string \<Rightarrow> bool" where
  "hasNoEmbeddedNul str \<longleftrightarrow> CHR 0x00 \<notin> set str"

section \<open>Byte classes\<close>

lemma unat_u8_lt [simp]: "unat (b :: u8) < 256"
  using unsigned_less [of b, where 'a = nat] by simp

lemma and_not_mask_u8: "unat ((b :: u8) AND NOT (mask k)) = unat b div 2 ^ k * 2 ^ k"
proof -
  have "b AND NOT (mask k) = push_bit k (drop_bit k b)"
    by (rule bit_eqI) (auto simp: bit_simps)
  moreover have "drop_bit k b = of_nat (unat b div 2 ^ k)"
    by (metis drop_bit_eq_div of_nat_unat ucast_id unat_drop_bit_eq)
  ultimately have "b AND NOT (mask k) = of_nat (unat b div 2 ^ k * 2 ^ k)"
    by (simp add: push_bit_eq_mult)
  moreover have "unat b div 2 ^ k * 2 ^ k < 256"
    using div_times_less_eq_dividend [of "unat b" "2 ^ k"] unat_u8_lt [of b] by linarith
  ultimately show ?thesis by (simp only: unat_of_nat) simp
qed

lemma not_mask_u8:
  "NOT (mask 6) = (0xC0 :: u8)" "NOT (mask 5) = (0xE0 :: u8)"
  "NOT (mask 4) = (0xF0 :: u8)" "NOT (mask 3) = (0xF8 :: u8)"
  by (simp_all add: mask_eq_exp_minus_1)

lemma class_C0: "(b :: u8) AND 0xC0 = 0x80 \<longleftrightarrow> unat b div 64 = 2"
  using and_not_mask_u8 [of b 6, unfolded not_mask_u8] by (simp add: word_unat_eq_iff)

lemma class_E0: "(b :: u8) AND 0xE0 = 0xC0 \<longleftrightarrow> unat b div 32 = 6"
  using and_not_mask_u8 [of b 5, unfolded not_mask_u8] by (simp add: word_unat_eq_iff)

lemma class_F0: "(b :: u8) AND 0xF0 = 0xE0 \<longleftrightarrow> unat b div 16 = 14"
  using and_not_mask_u8 [of b 4, unfolded not_mask_u8] by (simp add: word_unat_eq_iff)

lemma class_F8: "(b :: u8) AND 0xF8 = 0xF0 \<longleftrightarrow> unat b div 8 = 30"
  using and_not_mask_u8 [of b 3, unfolded not_mask_u8] by (simp add: word_unat_eq_iff)

lemmas byte_class = class_C0 class_E0 class_F0 class_F8

section \<open>Reference encoder\<close>

definition is_scalar :: "nat \<Rightarrow> bool" where
  "is_scalar c \<longleftrightarrow> c < 0x110000 \<and> \<not> (0xD800 \<le> c \<and> c \<le> 0xDFFF)"

definition utf8_encode :: "nat \<Rightarrow> nat list" where
  "utf8_encode c =
     (if c < 0x80 then [c]
      else if c < 0x800 then [0xC0 + c div 64, 0x80 + c mod 64]
      else if c < 0x10000 then [0xE0 + c div 4096, 0x80 + c div 64 mod 64, 0x80 + c mod 64]
      else [0xF0 + c div 262144, 0x80 + c div 4096 mod 64, 0x80 + c div 64 mod 64, 0x80 + c mod 64])"

definition utf8_of :: "nat list \<Rightarrow> nat list \<Rightarrow> bool" where
  "utf8_of cps ns \<longleftrightarrow> (\<forall>c\<in>set cps. is_scalar c) \<and> ns = concat (map utf8_encode cps)"

lemma utf8_encode_nonempty [simp]: "utf8_encode c \<noteq> []"
  by (simp add: utf8_encode_def)

text \<open>Every scalar value is one to four base-64 digits, and its encoding shows them.\<close>

lemma digit64: "r < 64 \<Longrightarrow> (q * 64 + r) div 64 = q" "r < 64 \<Longrightarrow> (q * 64 + r) mod 64 = (r :: nat)"
  by simp_all

lemma div_64_64: "x div 4096 = x div 64 div 64" "x div 262144 = x div 64 div 64 div (64 :: nat)"
  by (simp_all add: div_mult2_eq [symmetric])

lemma encode_digits:
  "a < 128 \<Longrightarrow> utf8_encode a = [a]"
  "2 \<le> a \<Longrightarrow> a < 32 \<Longrightarrow> b < 64 \<Longrightarrow> utf8_encode (a * 64 + b) = [192 + a, 128 + b]"
  "a < 16 \<Longrightarrow> b < 64 \<Longrightarrow> d < 64 \<Longrightarrow> 32 \<le> a * 64 + b \<Longrightarrow>
     utf8_encode ((a * 64 + b) * 64 + d) = [224 + a, 128 + b, 128 + d]"
  "a < 5 \<Longrightarrow> b < 64 \<Longrightarrow> d < 64 \<Longrightarrow> e < 64 \<Longrightarrow> 16 \<le> a * 64 + b \<Longrightarrow>
     utf8_encode (((a * 64 + b) * 64 + d) * 64 + e) = [240 + a, 128 + b, 128 + d, 128 + e]"
  unfolding utf8_encode_def div_64_64 by (simp_all only: digit64) simp_all

lemma digits_exist: "\<exists>q r. c = q * 64 + r \<and> r < (64 :: nat)"
  by (rule exI [of _ "c div 64"], rule exI [of _ "c mod 64"]) simp

lemma scalar_shapes:
  assumes "is_scalar c"
  shows "(\<exists>a < 128. utf8_encode c = [a])
    \<or> (\<exists>a b. 2 \<le> a \<and> a < 32 \<and> b < 64 \<and> utf8_encode c = [192 + a, 128 + b])
    \<or> (\<exists>a b d. a < 16 \<and> b < 64 \<and> d < 64 \<and> (a = 0 \<longrightarrow> 32 \<le> b) \<and> (a = 13 \<longrightarrow> b < 32)
         \<and> utf8_encode c = [224 + a, 128 + b, 128 + d])
    \<or> (\<exists>a b d e. a < 5 \<and> b < 64 \<and> d < 64 \<and> e < 64 \<and> (a = 0 \<longrightarrow> 16 \<le> b) \<and> (a = 4 \<longrightarrow> b < 16)
         \<and> utf8_encode c = [240 + a, 128 + b, 128 + d, 128 + e])"
proof -
  obtain q r where c: "c = q * 64 + r" "r < 64" using digits_exist by blast
  obtain q' r' where q: "q = q' * 64 + r'" "r' < 64" using digits_exist by blast
  obtain q'' r'' where q': "q' = q'' * 64 + r''" "r'' < 64" using digits_exist by blast
  consider "c < 128" | "128 \<le> c" "c < 2048" | "2048 \<le> c" "c < 65536" | "65536 \<le> c"
    by linarith
  then show ?thesis
  proof cases
    case 1
    then show ?thesis using encode_digits(1) by blast
  next
    case 2
    with c have "2 \<le> q" "q < 32" by linarith+
    with c show ?thesis using encode_digits(2) by blast
  next
    case 3
    with c q have q'16: "q' < 16" "32 \<le> q' * 64 + r'" by linarith+
    moreover have "q' = 0 \<longrightarrow> 32 \<le> r'" "q' = 13 \<longrightarrow> r' < 32"
      using q'16 assms c q unfolding is_scalar_def by auto
    moreover have "utf8_encode c = [224 + q', 128 + r', 128 + r]"
      unfolding c q using q'16(1) q(2) c(2) q'16(2) by (rule encode_digits(3))
    ultimately show ?thesis using q(2) c(2) by blast
  next
    case 4
    with c q q' assms have q''5: "q'' < 5" "16 \<le> q'' * 64 + r''"
      unfolding is_scalar_def by linarith+
    moreover have "q'' = 0 \<longrightarrow> 16 \<le> r''" "q'' = 4 \<longrightarrow> r'' < 16"
      using q''5 assms c q q' unfolding is_scalar_def by auto
    moreover have "utf8_encode c = [240 + q'', 128 + r'', 128 + r', 128 + r]"
      unfolding c q q' using q''5(1) q'(2) q(2) c(2) q''5(2) by (rule encode_digits(4))
    ultimately show ?thesis using q'(2) q(2) c(2) by blast
  qed
qed

text \<open>The encodings that start with a given byte, by the class of that byte.\<close>

lemma cont_digit: "x div 64 = 2 \<longleftrightarrow> (\<exists>d < 64. x = 128 + (d :: nat))"
  by (rule iffI) (rule exI [of _ "x - 128"], auto)

lemma lead1: "n \<le> 127 \<Longrightarrow> (\<exists>c. is_scalar c \<and> n # r = utf8_encode c @ rest) \<longleftrightarrow> r = rest"
proof
  assume n: "n \<le> 127" and "\<exists>c. is_scalar c \<and> n # r = utf8_encode c @ rest"
  then obtain c where "is_scalar c" and eq: "n # r = utf8_encode c @ rest" by blast
  from scalar_shapes [OF this(1)] eq n show "r = rest" by auto
next
  assume "n \<le> 127" and "r = rest"
  then show "\<exists>c. is_scalar c \<and> n # r = utf8_encode c @ rest"
    by (intro exI [of _ n]) (simp add: is_scalar_def encode_digits(1))
qed

lemma lead2: "n div 32 = 6 \<Longrightarrow> (\<exists>c. is_scalar c \<and> n # r = utf8_encode c @ rest) \<longleftrightarrow>
    (\<exists>x. r = x # rest \<and> x div 64 = 2 \<and> 194 \<le> n)" (is "_ \<Longrightarrow> ?L \<longleftrightarrow> ?R")
proof
  assume n: "n div 32 = 6" and ?L
  then obtain c where "is_scalar c" and eq: "n # r = utf8_encode c @ rest" by blast
  from scalar_shapes [OF this(1)] eq n show ?R by auto
next
  assume n: "n div 32 = 6" and ?R
  then obtain b where b: "r = (128 + b) # rest" "b < 64" and "194 \<le> n" by (auto simp: cont_digit)
  moreover have "n < 224" using n by linarith
  ultimately have "utf8_encode ((n - 192) * 64 + b) = [n, 128 + b]" "(n - 192) * 64 + b < 2048"
    using encode_digits(2) [of "n - 192" b] by auto
  with b show ?L by (intro exI [of _ "(n - 192) * 64 + b"]) (simp add: is_scalar_def)
qed

lemma lead3: "n div 16 = 14 \<Longrightarrow> (\<exists>c. is_scalar c \<and> n # r = utf8_encode c @ rest) \<longleftrightarrow>
    (\<exists>x y. r = x # y # rest \<and> x div 64 = 2 \<and> y div 64 = 2
       \<and> (n = 224 \<longrightarrow> 160 \<le> x) \<and> (n = 237 \<longrightarrow> x < 160))" (is "_ \<Longrightarrow> ?L \<longleftrightarrow> ?R")
proof
  assume n: "n div 16 = 14" and ?L
  then obtain c where "is_scalar c" and eq: "n # r = utf8_encode c @ rest" by blast
  from scalar_shapes [OF this(1)] eq n show ?R by auto
next
  assume n: "n div 16 = 14" and ?R
  then obtain b d where bd: "r = (128 + b) # (128 + d) # rest" "b < 64" "d < 64"
    "n = 224 \<longrightarrow> 32 \<le> b" "n = 237 \<longrightarrow> b < 32" by (auto simp: cont_digit)
  obtain a where a: "n = 224 + a" "a < 16" using n by (intro that [of "n - 224"]) auto
  let ?c = "(a * 64 + b) * 64 + d"
  have "utf8_encode ?c = [n, 128 + b, 128 + d]"
    using encode_digits(3) [of a b d] a bd by (cases "a = 0") auto
  moreover have "is_scalar ?c"
    using a bd unfolding is_scalar_def by (cases "a = 13") auto
  ultimately show ?L using bd(1) by (intro exI [of _ ?c]) simp
qed

lemma lead4: "n div 8 = 30 \<Longrightarrow> (\<exists>c. is_scalar c \<and> n # r = utf8_encode c @ rest) \<longleftrightarrow>
    (\<exists>x y z. r = x # y # z # rest \<and> x div 64 = 2 \<and> y div 64 = 2 \<and> z div 64 = 2
       \<and> (n = 240 \<longrightarrow> 144 \<le> x) \<and> (n = 244 \<longrightarrow> x \<le> 143) \<and> n \<le> 244)" (is "_ \<Longrightarrow> ?L \<longleftrightarrow> ?R")
proof
  assume n: "n div 8 = 30" and ?L
  then obtain c where "is_scalar c" and eq: "n # r = utf8_encode c @ rest" by blast
  from scalar_shapes [OF this(1)] eq n show ?R by auto
next
  assume n: "n div 8 = 30" and ?R
  then obtain b d e where bd: "r = (128 + b) # (128 + d) # (128 + e) # rest" "b < 64" "d < 64" "e < 64"
    "n = 240 \<longrightarrow> 16 \<le> b" "n = 244 \<longrightarrow> b \<le> 15" "n \<le> 244" by (auto simp: cont_digit)
  obtain a where a: "n = 240 + a" "a < 5" using n bd by (intro that [of "n - 240"]) auto
  let ?c = "((a * 64 + b) * 64 + d) * 64 + e"
  have "utf8_encode ?c = [n, 128 + b, 128 + d, 128 + e]"
    using encode_digits(4) [of a b d e] a bd by (cases "a = 0") auto
  moreover have "is_scalar ?c"
    using a bd unfolding is_scalar_def by (cases "a = 0"; cases "a = 4") auto
  ultimately show ?L using bd(1) by (intro exI [of _ ?c]) simp
qed

lemma lead_none:
  "127 < n \<Longrightarrow> n div 32 \<noteq> 6 \<Longrightarrow> n div 16 \<noteq> 14 \<Longrightarrow> n div 8 \<noteq> 30 \<Longrightarrow>
     \<not> (\<exists>c. is_scalar c \<and> n # r = utf8_encode c @ rest)"
  by (auto dest!: scalar_shapes)

section \<open>The loop accepts exactly the encodings\<close>

definition utf8_bytes :: "nat list \<Rightarrow> bool" where
  "utf8_bytes ns \<longleftrightarrow> (\<exists>cps. utf8_of cps ns)"

lemma utf8_bytes_Nil [simp]: "utf8_bytes []"
  unfolding utf8_bytes_def utf8_of_def by (rule exI [of _ "[]"]) simp

lemma utf8_bytes_Cons:
  "utf8_bytes (n # r) \<longleftrightarrow>
     (\<exists>rest. (\<exists>c. is_scalar c \<and> n # r = utf8_encode c @ rest) \<and> utf8_bytes rest)"
proof
  assume "utf8_bytes (n # r)"
  then obtain cps where "utf8_of cps (n # r)" by (auto simp: utf8_bytes_def)
  then show "\<exists>rest. (\<exists>c. is_scalar c \<and> n # r = utf8_encode c @ rest) \<and> utf8_bytes rest"
    by (cases cps) (auto simp: utf8_of_def utf8_bytes_def)
next
  assume "\<exists>rest. (\<exists>c. is_scalar c \<and> n # r = utf8_encode c @ rest) \<and> utf8_bytes rest"
  then obtain c cps rest where "is_scalar c" "n # r = utf8_encode c @ rest" "utf8_of cps rest"
    by (auto simp: utf8_bytes_def)
  then have "utf8_of (c # cps) (n # r)" by (simp add: utf8_of_def)
  then show "utf8_bytes (n # r)" by (auto simp: utf8_bytes_def)
qed

lemma map_drop_Cons_iff:
  "map f (drop i s) = x # r \<longleftrightarrow> i < length s \<and> x = f (s ! i) \<and> r = map f (drop (Suc i) s)"
  by (cases "i < length s") (auto simp: Cons_nth_drop_Suc [symmetric])

lemmas Cons_map_drop_iff = map_drop_Cons_iff map_drop_Cons_iff [unfolded eq_commute [of "map _ _"]]

lemma plus_Suc: "i + 2 = Suc (Suc i)" "i + 3 = Suc (Suc (Suc i))" "i + 4 = Suc (Suc (Suc (Suc i)))"
  by simp_all

text \<open>One turn of the loop, by the class of the byte at \<open>i\<close>, against one step of the encodings.\<close>

lemma nth_byte_eq:
  "(s ! i :: u8) = 0xE0 \<longleftrightarrow> unat (s ! i) = 224" "(s ! i :: u8) = 0xED \<longleftrightarrow> unat (s ! i) = 237"
  "(s ! i :: u8) = 0xF0 \<longleftrightarrow> unat (s ! i) = 240" "(s ! i :: u8) = 0xF4 \<longleftrightarrow> unat (s ! i) = 244"
  by (simp_all add: word_unat_eq_iff)

lemmas word_nat = word_le_nat_alt word_less_nat_alt nth_byte_eq byte_class not_le not_less

lemma turn1:
  assumes "i < length s" "unat (s ! i) \<le> 127"
  shows "utf8_loop s i \<longleftrightarrow> utf8_loop s (i + 1)"
    and "utf8_bytes (map unat (drop i s)) \<longleftrightarrow> utf8_bytes (map unat (drop (i + 1) s))"
  using assms by (simp_all add: utf8_loop.simps [of s i] word_nat Cons_nth_drop_Suc [symmetric]
      utf8_bytes_Cons lead1)

lemma turn2:
  assumes "i < length s" "unat (s ! i) div 32 = 6"
  shows "utf8_loop s i \<longleftrightarrow> i + 1 < length s \<and> unat (s ! (i + 1)) div 64 = 2 \<and> 194 \<le> unat (s ! i)
           \<and> utf8_loop s (i + 2)"
    and "utf8_bytes (map unat (drop i s)) \<longleftrightarrow> i + 1 < length s \<and> unat (s ! (i + 1)) div 64 = 2
           \<and> 194 \<le> unat (s ! i) \<and> utf8_bytes (map unat (drop (i + 2) s))"
proof -
  have "127 < unat (s ! i)" using assms by linarith
  with assms show "utf8_loop s i \<longleftrightarrow> i + 1 < length s \<and> unat (s ! (i + 1)) div 64 = 2
      \<and> 194 \<le> unat (s ! i) \<and> utf8_loop s (i + 2)"
    by (simp add: utf8_loop.simps [of s i] word_nat) auto
  show "utf8_bytes (map unat (drop i s)) \<longleftrightarrow> i + 1 < length s \<and> unat (s ! (i + 1)) div 64 = 2
      \<and> 194 \<le> unat (s ! i) \<and> utf8_bytes (map unat (drop (i + 2) s))"
    using assms by (auto simp: Cons_nth_drop_Suc [symmetric] utf8_bytes_Cons lead2 Cons_map_drop_iff)
qed

lemma turn3:
  assumes "i < length s" "unat (s ! i) div 16 = 14"
  shows "utf8_loop s i \<longleftrightarrow> i + 2 < length s \<and> unat (s ! (i + 1)) div 64 = 2 \<and> unat (s ! (i + 2)) div 64 = 2
           \<and> (unat (s ! i) = 224 \<longrightarrow> 160 \<le> unat (s ! (i + 1))) \<and> (unat (s ! i) = 237 \<longrightarrow> unat (s ! (i + 1)) < 160)
           \<and> utf8_loop s (i + 3)"
    and "utf8_bytes (map unat (drop i s)) \<longleftrightarrow> i + 2 < length s \<and> unat (s ! (i + 1)) div 64 = 2
           \<and> unat (s ! (i + 2)) div 64 = 2
           \<and> (unat (s ! i) = 224 \<longrightarrow> 160 \<le> unat (s ! (i + 1))) \<and> (unat (s ! i) = 237 \<longrightarrow> unat (s ! (i + 1)) < 160)
           \<and> utf8_bytes (map unat (drop (i + 3) s))" (is "?B")
proof -
  have "127 < unat (s ! i)" "unat (s ! i) div 32 \<noteq> 6" using assms by linarith+
  with assms show "utf8_loop s i \<longleftrightarrow> i + 2 < length s \<and> unat (s ! (i + 1)) div 64 = 2
      \<and> unat (s ! (i + 2)) div 64 = 2
      \<and> (unat (s ! i) = 224 \<longrightarrow> 160 \<le> unat (s ! (i + 1))) \<and> (unat (s ! i) = 237 \<longrightarrow> unat (s ! (i + 1)) < 160)
      \<and> utf8_loop s (i + 3)"
    by (simp add: utf8_loop.simps [of s i] word_nat) blast
  show ?B
    using assms by (simp add: Cons_nth_drop_Suc [symmetric] utf8_bytes_Cons lead3 Cons_map_drop_iff plus_Suc)
      (blast dest: Suc_lessD)
qed

lemma turn4:
  assumes "i < length s" "unat (s ! i) div 8 = 30"
  shows "utf8_loop s i \<longleftrightarrow> i + 3 < length s \<and> unat (s ! (i + 1)) div 64 = 2 \<and> unat (s ! (i + 2)) div 64 = 2
           \<and> unat (s ! (i + 3)) div 64 = 2 \<and> (unat (s ! i) = 240 \<longrightarrow> 144 \<le> unat (s ! (i + 1)))
           \<and> (unat (s ! i) = 244 \<longrightarrow> unat (s ! (i + 1)) \<le> 143) \<and> unat (s ! i) \<le> 244
           \<and> utf8_loop s (i + 4)" (is "?A")
    and "utf8_bytes (map unat (drop i s)) \<longleftrightarrow> i + 3 < length s \<and> unat (s ! (i + 1)) div 64 = 2
           \<and> unat (s ! (i + 2)) div 64 = 2
           \<and> unat (s ! (i + 3)) div 64 = 2 \<and> (unat (s ! i) = 240 \<longrightarrow> 144 \<le> unat (s ! (i + 1)))
           \<and> (unat (s ! i) = 244 \<longrightarrow> unat (s ! (i + 1)) \<le> 143) \<and> unat (s ! i) \<le> 244
           \<and> utf8_bytes (map unat (drop (i + 4) s))" (is "?B")
proof -
  have "127 < unat (s ! i)" "unat (s ! i) div 32 \<noteq> 6" "unat (s ! i) div 16 \<noteq> 14"
    using assms by linarith+
  with assms show ?A
    by (simp add: utf8_loop.simps [of s i] word_nat) blast
  show ?B
    using assms by (simp add: Cons_nth_drop_Suc [symmetric] utf8_bytes_Cons lead4 Cons_map_drop_iff plus_Suc)
      (blast dest: Suc_lessD)
qed

lemma turn_none:
  assumes "i < length s" "127 < unat (s ! i)" "unat (s ! i) div 32 \<noteq> 6" "unat (s ! i) div 16 \<noteq> 14"
    "unat (s ! i) div 8 \<noteq> 30"
  shows "\<not> utf8_loop s i" and "\<not> utf8_bytes (map unat (drop i s))"
  using assms lead_none [OF assms(2-5)]
  by (simp_all add: utf8_loop.simps [of s i] word_nat Cons_nth_drop_Suc [symmetric] utf8_bytes_Cons)

lemma utf8_loop_iff: "utf8_loop s i \<longleftrightarrow> utf8_bytes (map unat (drop i s))"
proof (induction "length s - i" arbitrary: i rule: less_induct)
  case less
  show ?case
  proof (cases "i < length s")
    case False
    then show ?thesis by (simp add: utf8_loop.simps [of s i])
  next
    case True
    have IH: "utf8_loop s (i + k) \<longleftrightarrow> utf8_bytes (map unat (drop (i + k) s))" if "0 < k" for k
      using that True by (intro less) simp
    let ?n = "unat (s ! i)"
    consider "?n \<le> 127" | "?n div 32 = 6" | "?n div 16 = 14" | "?n div 8 = 30"
      | "127 < ?n" "?n div 32 \<noteq> 6" "?n div 16 \<noteq> 14" "?n div 8 \<noteq> 30" by linarith
    then show ?thesis
    proof cases
      case 1
      then show ?thesis using turn1 [OF True] IH [of 1] by simp
    next
      case 2
      then show ?thesis using turn2 [OF True] IH [of 2] by simp
    next
      case 3
      then show ?thesis using turn3 [OF True] IH [of 3] by simp
    next
      case 4
      then show ?thesis using turn4 [OF True] IH [of 4] by simp
    next
      case 5
      then show ?thesis using turn_none [OF True] by simp
    qed
  qed
qed

lemma isValidUtf8_iff: "isValidUtf8 str \<longleftrightarrow> (\<exists>cps. utf8_of cps (map unat (map byte_of str)))"
  by (simp add: isValidUtf8_def utf8_loop_iff utf8_bytes_def)

section \<open>Code points are counted once\<close>

lemma codepoint_loop_filter:
  "codepoint_loop bs k = k + length (filter (\<lambda>b. unat b div 64 \<noteq> 2) bs)"
  by (induction bs k rule: codepoint_loop.induct) (auto simp: class_C0)

lemma encode_one_lead:
  "is_scalar c \<Longrightarrow> length (filter (\<lambda>n. n div 64 \<noteq> 2) (utf8_encode c)) = 1"
  by (drule scalar_shapes) auto

lemma utf8_of_leads: "utf8_of cps ns \<Longrightarrow> length (filter (\<lambda>n. n div 64 \<noteq> 2) ns) = length cps"
proof (induction cps arbitrary: ns)
  case Nil
  then show ?case by (simp add: utf8_of_def)
next
  case (Cons c cps)
  then have "utf8_of cps (concat (map utf8_encode cps))" by (simp add: utf8_of_def)
  from Cons.IH [OF this] Cons.prems show ?case
    by (simp add: utf8_of_def encode_one_lead)
qed

lemma utf8CodepointCount_of:
  "utf8_of cps (map unat (map byte_of str)) \<Longrightarrow> utf8CodepointCount str = length cps"
  using utf8_of_leads [of cps "map unat (map byte_of str)"]
  by (simp add: utf8CodepointCount_def codepoint_loop_filter filter_map comp_def)

section \<open>Base64 syntax\<close>

text \<open>Reference syntax: characters of the alphabet followed by at most two padding characters.\<close>

definition base64_form :: "string \<Rightarrow> bool" where
  "base64_form cs \<longleftrightarrow> (\<exists>body k. k \<le> 2 \<and> cs = body @ replicate k CHR ''='' \<and> (\<forall>c\<in>set body. isBase64 c))"

lemma pad_not_base64 [simp]: "\<not> isBase64 CHR ''=''"
  by (simp add: isBase64_def)

lemma base64_form_Nil [simp]: "base64_form []"
  unfolding base64_form_def by (rule exI [of _ "[]"]) simp

lemma base64_form_pad:
  "base64_form (CHR ''='' # cs) \<longleftrightarrow> (\<forall>x\<in>set cs. x = CHR ''='') \<and> length cs \<le> 1" (is "?L \<longleftrightarrow> ?R")
proof
  assume ?L
  then obtain body k where k: "k \<le> 2" "CHR ''='' # cs = body @ replicate k CHR ''=''"
      "\<forall>c\<in>set body. isBase64 c"
    by (auto simp: base64_form_def)
  then have "body = []" by (cases body) auto
  with k show ?R by (cases k) auto
next
  assume R: ?R
  then have "cs = replicate (length cs) CHR ''=''" by (simp add: replicate_eqI)
  with R have "Suc (length cs) \<le> 2" "CHR ''='' # cs = [] @ replicate (Suc (length cs)) CHR ''=''"
    by auto
  then show ?L unfolding base64_form_def by (metis empty_iff empty_set)
qed

lemma base64_form_body:
  assumes "c \<noteq> CHR ''=''"
  shows "base64_form (c # cs) \<longleftrightarrow> isBase64 c \<and> base64_form cs" (is "?L \<longleftrightarrow> ?R")
proof
  assume ?L
  then obtain body k where k: "k \<le> 2" "c # cs = body @ replicate k CHR ''=''" "\<forall>c\<in>set body. isBase64 c"
    by (auto simp: base64_form_def)
  with assms obtain b where b: "body = c # b" by (cases body; cases k) auto
  with k have "isBase64 c" "cs = b @ replicate k CHR ''=''" "\<forall>c\<in>set b. isBase64 c" by auto
  with k(1) show ?R unfolding base64_form_def by blast
next
  assume ?R
  then obtain body k where "k \<le> 2" "c # cs = (c # body) @ replicate k CHR ''=''"
      "\<forall>x\<in>set (c # body). isBase64 x"
    by (auto simp: base64_form_def)
  then show ?L unfolding base64_form_def by blast
qed

lemma base64_loop_padded:
  "0 < p \<Longrightarrow> n + p \<le> i + 2 \<Longrightarrow> i + length cs = n \<Longrightarrow> 2 \<le> n \<Longrightarrow>
     base64_loop n i p cs \<longleftrightarrow> (\<forall>x\<in>set cs. x = CHR ''='')"
proof (induction cs arbitrary: i p)
  case Nil
  then show ?case by simp
next
  case (Cons c cs)
  have "\<not> i < n - 2" "p + 1 \<le> 2" using Cons.prems by simp_all
  moreover have "base64_loop n (i + 1) (p + 1) cs \<longleftrightarrow> (\<forall>x\<in>set cs. x = CHR ''='')"
    using Cons.prems by (intro Cons.IH) simp_all
  ultimately show ?case using Cons.prems(1,4) by simp
qed

lemma base64_loop_start:
  "i + length cs = n \<Longrightarrow> 2 \<le> n \<Longrightarrow> base64_loop n i 0 cs \<longleftrightarrow> base64_form cs"
proof (induction cs arbitrary: i)
  case Nil
  then show ?case by simp
next
  case (Cons c cs)
  show ?case
  proof (cases "c = CHR ''=''")
    case True
    have "i < n - 2 \<longleftrightarrow> \<not> length cs \<le> 1" using Cons.prems by auto
    moreover have "length cs \<le> 1 \<Longrightarrow> base64_loop n (i + 1) 1 cs \<longleftrightarrow> (\<forall>x\<in>set cs. x = CHR ''='')"
      using Cons.prems by (intro base64_loop_padded) simp_all
    ultimately show ?thesis using True Cons.prems(2) by (auto simp: base64_form_pad)
  next
    case False
    with Cons.IH [of "i + 1"] Cons.prems show ?thesis by (simp add: base64_form_body)
  qed
qed

lemma isValidBase64_iff: "isValidBase64 s \<longleftrightarrow> length s mod 4 = 0 \<and> base64_form s"
proof (cases "s = []")
  case True
  then show ?thesis by (simp add: isValidBase64_def)
next
  case False
  have "2 \<le> length s" if "length s mod 4 = 0"
  proof -
    have "0 < length s" using False by simp
    with that show ?thesis by presburger
  qed
  then show ?thesis
    by (auto simp: isValidBase64_def base64_loop_start)
qed

end
