(* ===== verification/Export_Options.thy ===== *)
theory Export_Options
  imports Messages Text_Encoding
begin

text \<open>
  Export options and profile selection (\<^verbatim>\<open>src/shared/model/export.cpp\<close>). A request names a
  format, a profile, a page selection and required flags; \<open>findExportProfile\<close> returns the profile
  only if it supports exactly that operation.
\<close>

unbundle bit_operations_syntax

definition knownFlags :: u32 where
  "knownFlags = ExportFlag_value EF_PageSelection OR ExportFlag_value EF_IncludeAnnotations
     OR ExportFlag_value EF_FlattenAnnotations OR ExportFlag_value EF_IncludeReferences"

definition isValidIdentifier :: "string \<Rightarrow> bool" where
  "isValidIdentifier identifier \<longleftrightarrow>
     identifier \<noteq> [] \<and> length identifier \<le> 128 \<and> hasNoEmbeddedNul identifier"

definition isValidExportOptions :: "ExportOptions \<Rightarrow> verdict" where
  "isValidExportOptions options =
     require (isValidIdentifier (eo_formatId options)) ''invalid export format identifier''
    (require (\<not> (eo_profileId options = ExportProfileId_value EPI_Invalid
                \<or> eo_profileId options > ExportProfileId_value EPI_Converted)) ''invalid export profile''
    (require (eo_flags options AND NOT knownFlags = 0) ''unknown export flags''
    (require (\<not> length (eo_pages options) > MaxExportPages) ''too many export pages''
    (require (\<not> list_ex (\<lambda>page. page < 0) (eo_pages options)) ''negative export page''
     Valid))))"

definition requiredFlags :: "ExportOptions \<Rightarrow> u32" where
  "requiredFlags options =
     eo_flags options OR (if eo_pages options = [] then 0 else ExportFlag_value EF_PageSelection)"

text \<open>The result is the error text or the borrowed profile.\<close>

definition findExportProfile ::
  "OutputFormatInfo list \<Rightarrow> ExportOptions \<Rightarrow> bool \<Rightarrow> int \<Rightarrow> string + ExportProfile" where
  "findExportProfile formats options asynchronous pageCount =
     (case isValidExportOptions options of
        Invalid reason \<Rightarrow> Inl reason
      | Valid \<Rightarrow>
        if pageCount < 0 \<or> length (eo_pages options) > nat pageCount
           \<or> list_ex (\<lambda>page. page \<ge> pageCount) (eo_pages options)
        then Inl ''export page selection is out of range''
        else (case find (\<lambda>f. ofi_id f = eo_formatId options) formats of
          None \<Rightarrow> Inl ''unsupported export format''
        | Some format \<Rightarrow>
          (case find (\<lambda>p. ep_id p = eo_profileId options) (ofi_profiles format) of
            None \<Rightarrow> Inl ''unsupported export profile''
          | Some profile \<Rightarrow>
            if \<not> (if asynchronous then ep_asynchronous profile else ep_synchronous profile)
            then Inl ''unsupported export execution mode''
            else if requiredFlags options AND NOT (ep_supportedFlags profile) \<noteq> 0
            then Inl ''unsupported export options''
            else Inr profile)))"

section \<open>What a returned profile guarantees\<close>

lemma isValidExportOptions_pages:
  "isValidExportOptions options = Valid \<Longrightarrow> page \<in> set (eo_pages options) \<Longrightarrow> 0 \<le> page"
  by (auto simp: isValidExportOptions_def verdict_simps list_ex_iff)

lemma and_not_zero_subset: "(a :: u32) AND NOT b = 0 \<longleftrightarrow> (\<forall>k. bit a k \<longrightarrow> bit b k)"
proof
  assume eq: "a AND NOT b = 0"
  show "\<forall>k. bit a k \<longrightarrow> bit b k"
  proof (intro allI impI)
    fix k assume a: "bit a k"
    then have "k < 32" using bit_imp_le_length [of a k] by simp
    moreover have "\<not> bit (a AND NOT b) k" by (simp add: eq)
    ultimately show "bit b k" using a by (simp add: bit_simps)
  qed
next
  assume "\<forall>k. bit a k \<longrightarrow> bit b k"
  then show "a AND NOT b = 0" by - (rule bit_eqI, auto simp: bit_simps)
qed

lemma findExportProfile_sound:
  assumes "findExportProfile formats options asynchronous pageCount = Inr profile"
  shows "isValidExportOptions options = Valid"
    and "\<forall>page\<in>set (eo_pages options). 0 \<le> page \<and> page < pageCount"
    and "\<exists>format\<in>set formats. ofi_id format = eo_formatId options \<and> profile \<in> set (ofi_profiles format)"
    and "ep_id profile = eo_profileId options"
    and "if asynchronous then ep_asynchronous profile else ep_synchronous profile"
    and "\<forall>k. bit (requiredFlags options) k \<longrightarrow> bit (ep_supportedFlags profile) k"
  using assms unfolding findExportProfile_def
  by (auto split: verdict.splits if_splits option.splits simp: list_ex_iff find_Some_iff not_le
      isValidExportOptions_pages and_not_zero_subset intro: nth_mem)

lemma findExportProfile_complete:
  assumes "isValidExportOptions options = Valid"
    and "length (eo_pages options) \<le> nat pageCount" "0 \<le> pageCount"
    and "\<forall>page\<in>set (eo_pages options). page < pageCount"
    and "find (\<lambda>f. ofi_id f = eo_formatId options) formats = Some format"
    and "find (\<lambda>p. ep_id p = eo_profileId options) (ofi_profiles format) = Some profile"
    and "if asynchronous then ep_asynchronous profile else ep_synchronous profile"
    and "\<forall>k. bit (requiredFlags options) k \<longrightarrow> bit (ep_supportedFlags profile) k"
  shows "findExportProfile formats options asynchronous pageCount = Inr profile"
  using assms by (auto simp: findExportProfile_def and_not_zero_subset list_ex_iff)

end
