(* ===== verification/Export_Jobs.thy ===== *)
theory Export_Jobs
  imports Export_Options
begin

text \<open>
  The background export runner (\<^verbatim>\<open>src/worker/engine/export/jobs.cpp\<close>), its latest-only progress mailbox
  (\<^verbatim>\<open>progress.hpp\<close>) and the inventory of writers (\<^verbatim>\<open>formats.hpp\<close>). One mutex guards the shared state; the
  export thread enters it from the engine's progress callback and once at its end. The outcome of opening
  and exporting the private document is an argument. The theory proves that the callback always finds its
  mailbox, that one export runs at a time, and that the notifications of a job reach the host in lifecycle
  order, the completion last and once.
\<close>

section \<open>Writers\<close>

definition profile_default :: ExportProfile where
  "profile_default = \<lparr>ep_id = ExportProfileId_value EPI_Invalid, ep_representation = ER_Native,
     ep_content = EXC_LiveDocument, ep_supportedFlags = 0, ep_includesUnsavedChanges = False, ep_synchronous = True,
     ep_asynchronous = False, ep_cancellation = ECN_QueuedOnly\<rparr>"

fun pdf_profiles :: "DocumentType \<Rightarrow> ExportProfile list option" where
  "pdf_profiles Doc_Pdf = Some
     [profile_default\<lparr>ep_id := ExportProfileId_value EPI_Native,
        ep_supportedFlags := ExportFlag_value EF_IncludeAnnotations, ep_includesUnsavedChanges := True\<rparr>,
      profile_default\<lparr>ep_id := ExportProfileId_value EPI_Print, ep_representation := ER_Vector,
        ep_supportedFlags := ExportFlag_value EF_PageSelection, ep_includesUnsavedChanges := True\<rparr>,
      profile_default\<lparr>ep_id := ExportProfileId_value EPI_Flattened, ep_representation := ER_Vector,
        ep_supportedFlags := ExportFlag_value EF_PageSelection OR ExportFlag_value EF_IncludeAnnotations
          OR ExportFlag_value EF_FlattenAnnotations, ep_includesUnsavedChanges := True\<rparr>]"
| "pdf_profiles Doc_Xps = Some
     [profile_default\<lparr>ep_id := ExportProfileId_value EPI_Print, ep_representation := ER_Vector,
        ep_supportedFlags := ExportFlag_value EF_PageSelection\<rparr>]"
| "pdf_profiles Doc_Unknown = None"
| "pdf_profiles _ = Some
     [profile_default\<lparr>ep_id := ExportProfileId_value EPI_Print, ep_representation := ER_Vector,
        ep_supportedFlags := ExportFlag_value EF_PageSelection\<rparr>,
      profile_default\<lparr>ep_id := ExportProfileId_value EPI_WithReferences, ep_representation := ER_Vector,
        ep_supportedFlags := ExportFlag_value EF_PageSelection OR ExportFlag_value EF_IncludeReferences\<rparr>,
      profile_default\<lparr>ep_id := ExportProfileId_value EPI_SourceWithReferences, ep_representation := ER_Vector,
        ep_content := EXC_OriginalSource,
        ep_supportedFlags := ExportFlag_value EF_PageSelection OR ExportFlag_value EF_IncludeReferences,
        ep_synchronous := False, ep_asynchronous := True, ep_cancellation := ECN_DrainAndDiscard\<rparr>]"

definition converted_profile :: ExportProfile where
  "converted_profile = profile_default\<lparr>ep_id := ExportProfileId_value EPI_Converted, ep_content := EXC_OriginalSource\<rparr>"

definition outputFormatsFor :: "DocumentType \<Rightarrow> OutputFormatInfo list" where
  "outputFormatsFor type =
     (case pdf_profiles type of
        None \<Rightarrow> []
      | Some profiles \<Rightarrow>
        \<lparr>ofi_id = ''pdf'', ofi_mimeType = ''application/pdf'', ofi_extensions = [''pdf''], ofi_profiles = profiles\<rparr>
        # (case type of
             Doc_Epub \<Rightarrow> [\<lparr>ofi_id = ''azw3'', ofi_mimeType = ''application/vnd.amazon.mobi8-ebook'',
               ofi_extensions = [''azw3''], ofi_profiles = [converted_profile]\<rparr>]
           | Doc_Kindle \<Rightarrow> [\<lparr>ofi_id = ''epub'', ofi_mimeType = ''application/epub+zip'',
               ofi_extensions = [''epub''], ofi_profiles = [converted_profile]\<rparr>]
           | _ \<Rightarrow> []))"

section \<open>The progress mailbox\<close>

text \<open>Time points and durations of the steady clock, in milliseconds.\<close>

record ExportProgress =
  xp_id :: u64
  xp_nextProbe :: int
  xp_pending :: "ExportProgressNotification option"

definition ExportProgress_new :: "u64 \<Rightarrow> int \<Rightarrow> ExportProgress" where
  "ExportProgress_new i now = \<lparr>xp_id = i, xp_nextProbe = now + 2000, xp_pending = None\<rparr>"

definition progress_update :: "int \<Rightarrow> int \<Rightarrow> ExportProgress \<Rightarrow> ExportProgress" where
  "progress_update completed totalPages p =
     p\<lparr>xp_pending := Some \<lparr>epn_jobId = xp_id p, epn_completed = completed, epn_total = totalPages,
         epn_phase = (if completed = totalPages then EPH_Finalizing else EPH_CreatingPages), epn_error = []\<rparr>\<rparr>"

definition progress_take :: "int \<Rightarrow> ExportProgress \<Rightarrow> ExportProgress \<times> ExportProgressNotification option" where
  "progress_take now p =
     (case xp_pending p of
        None \<Rightarrow> (p, None)
      | Some pending \<Rightarrow>
        if epn_phase pending \<noteq> EPH_Finalizing \<and> now < xp_nextProbe p then (p, None)
        else (p\<lparr>xp_nextProbe := now + 2000, xp_pending := None\<rparr>, Some pending))"

section \<open>The runner\<close>

text \<open>
  \<open>SharedState\<close>; \<open>xs_wakes\<close> counts threads that have left their last critical section and not yet
  written to the eventfd, \<open>xs_reserved\<close> is the job whose thread \<open>submit\<close> is about to create, \<open>xs_thread\<close> the live export
  thread, each with its two descriptors.
\<close>

record ExportState =
  xs_completion :: "ExportProgressNotification option"
  xs_event :: int
  xs_eventCounter :: nat
  xs_wakes :: nat
  xs_nextId :: u64
  xs_active :: bool
  xs_progress :: "ExportProgress option"
  xs_reserved :: "(u64 \<times> int \<times> int) option"
  xs_thread :: "(u64 \<times> int \<times> int) option"

definition ExportJobs_init :: "int \<Rightarrow> ExportState" where
  "ExportJobs_init event = \<lparr>xs_completion = None, xs_event = event, xs_eventCounter = 0, xs_wakes = 0, xs_nextId = 1,
     xs_active = False, xs_progress = None, xs_reserved = None, xs_thread = None\<rparr>"

definition owned_fds :: "int list \<Rightarrow> int list" where
  "owned_fds = filter (\<lambda>fd. fd \<ge> 0)"

definition export_reserve ::
  "int \<Rightarrow> int \<Rightarrow> int \<Rightarrow> ExportOptions \<Rightarrow> DocumentType \<Rightarrow> ExportState \<Rightarrow> ExportState \<times> int list \<times> u64 option" where
  "export_reserve now inputFd outputFd options type s =
     (case findExportProfile (outputFormatsFor type) options True INT_MAX of
        Inl reason \<Rightarrow> (s, owned_fds [inputFd, outputFd], None)
      | Inr profile \<Rightarrow>
        if xs_active s \<or> xs_completion s \<noteq> None \<or> xs_event s < 0
        then (s, owned_fds [inputFd, outputFd], None)
        else
          let i = xs_nextId s in
          (s\<lparr>xs_nextId := i + 1, xs_active := True, xs_progress := Some (ExportProgress_new i now),
             xs_reserved := Some (i, inputFd, outputFd)\<rparr>, [], Some i))"

definition export_spawn :: "bool \<Rightarrow> ExportState \<Rightarrow> ExportState \<times> int list \<times> u64 option" where
  "export_spawn threadStarts s =
     (case xs_reserved s of
        None \<Rightarrow> (s, [], None)
      | Some (i, inputFd, outputFd) \<Rightarrow>
        if threadStarts
        then (s\<lparr>xs_reserved := None, xs_thread := Some (i, inputFd, outputFd)\<rparr>, [], Some i)
        else (s\<lparr>xs_reserved := None, xs_active := False, xs_progress := None\<rparr>, owned_fds [inputFd, outputFd], None))"

text \<open>The callback passed to \<open>exportFd\<close>; an empty mailbox would be dereferenced, which is \<open>None\<close> here.\<close>

definition export_callback :: "int \<Rightarrow> int \<Rightarrow> ExportState \<Rightarrow> ExportState option" where
  "export_callback completed totalPages s =
     (case xs_progress s of
        None \<Rightarrow> None
      | Some p \<Rightarrow> Some (s\<lparr>xs_progress := Some (progress_update completed totalPages p),
          xs_eventCounter := (if completed = totalPages then xs_eventCounter s + 1 else xs_eventCounter s)\<rparr>))"

text \<open>
  What the thread does around the callbacks: the engine reports whether it created a document for the
  type, opened the input (\<open>None\<close>, or an error text) and exported it (success and error text). Opening
  consumes the input descriptor and exporting the output descriptor; the third component lists the
  descriptors that the thread closes itself.
\<close>

record EngineOutcome =
  eng_created :: bool
  eng_openError :: "string option"
  eng_exported :: "bool \<times> string"

definition export_body :: "EngineOutcome \<Rightarrow> int \<Rightarrow> int \<Rightarrow> bool \<times> string \<times> int list" where
  "export_body engine inputFd outputFd =
     (if \<not> eng_created engine then (False, ''unsupported ebook type'', [inputFd, outputFd])
      else case eng_openError engine of
        None \<Rightarrow> (fst (eng_exported engine), snd (eng_exported engine), [])
      | Some reason \<Rightarrow>
        (False, (if reason = [] then ''could not open document for PDF export'' else reason), [outputFd]))"

definition export_complete :: "bool \<Rightarrow> string \<Rightarrow> ExportState \<Rightarrow> ExportState" where
  "export_complete success reason s =
     (case xs_thread s of
        None \<Rightarrow> s
      | Some (i, fds) \<Rightarrow>
        s\<lparr>xs_thread := None, xs_active := False,
          xs_completion := Some \<lparr>epn_jobId = i, epn_completed = 0, epn_total = 0,
            epn_phase = (if success then EPH_Succeeded else EPH_Failed), epn_error = reason\<rparr>,
          xs_wakes := xs_wakes s + 1\<rparr>)"

text \<open>The write to the eventfd after the critical section, which ends the thread.\<close>

definition export_wake :: "ExportState \<Rightarrow> ExportState" where
  "export_wake s =
     s\<lparr>xs_wakes := xs_wakes s - 1,
       xs_eventCounter := (if xs_event s \<ge> 0 then xs_eventCounter s + 1 else xs_eventCounter s)\<rparr>"

definition drain_progress :: "int \<Rightarrow> ExportState \<Rightarrow> ExportState \<times> ExportProgressNotification list" where
  "drain_progress now s =
     (case xs_progress s of
        None \<Rightarrow> (s, [])
      | Some p \<Rightarrow>
        (case progress_take now p of
           (p', None) \<Rightarrow> (s\<lparr>xs_progress := Some p'\<rparr>, [])
         | (p', Some n) \<Rightarrow> (s\<lparr>xs_progress := Some p'\<rparr>, [n])))"

definition export_drainNotifications :: "int \<Rightarrow> ExportState \<Rightarrow> ExportState \<times> ExportProgressNotification list" where
  "export_drainNotifications now s0 =
     (case drain_progress now (s0\<lparr>xs_eventCounter := (if xs_event s0 \<ge> 0 then 0 else xs_eventCounter s0)\<rparr>) of
        (s, result) \<Rightarrow>
        (case xs_completion s of
           None \<Rightarrow> (s, result)
         | Some c \<Rightarrow> (s\<lparr>xs_completion := None, xs_progress := None\<rparr>, result @ [c])))"

section \<open>Interleavings\<close>

text \<open>
  \<open>export_run n s delivered\<close>: after \<open>n\<close> steps of the event loop and the export threads, \<open>delivered\<close> are all
  notifications that draining has returned, in order.
\<close>

inductive export_run :: "nat \<Rightarrow> ExportState \<Rightarrow> ExportProgressNotification list \<Rightarrow> bool" where
  start: "export_run 0 (ExportJobs_init event) []"
| reserve: "export_run n s delivered \<Longrightarrow> xs_reserved s = None \<Longrightarrow>
    export_reserve now inputFd outputFd options type s = (s', shut, r) \<Longrightarrow> export_run (Suc n) s' delivered"
| spawn: "export_run n s delivered \<Longrightarrow> export_spawn threadStarts s = (s', shut, r) \<Longrightarrow> export_run (Suc n) s' delivered"
| callback: "export_run n s delivered \<Longrightarrow> xs_thread s = Some t \<Longrightarrow> export_callback finished totalPages s = Some s' \<Longrightarrow>
    export_run (Suc n) s' delivered"
| complete: "export_run n s delivered \<Longrightarrow> export_run (Suc n) (export_complete success reason s) delivered"
| wake: "export_run n s delivered \<Longrightarrow> 0 < xs_wakes s \<Longrightarrow> export_run (Suc n) (export_wake s) delivered"
| drain: "export_run n s delivered \<Longrightarrow> xs_reserved s = None \<Longrightarrow> export_drainNotifications now s = (s', ns) \<Longrightarrow>
    export_run (Suc n) s' (delivered @ ns)"

text \<open>The job whose notifications are not yet complete.\<close>

definition current_job :: "ExportState \<Rightarrow> u64 option" where
  "current_job s =
     (case xs_reserved s of
        Some (i, fds) \<Rightarrow> Some i
      | None \<Rightarrow> (case xs_thread s of Some (i, fds) \<Rightarrow> Some i | None \<Rightarrow> map_option epn_jobId (xs_completion s)))"

lemma current_job_cong:
  "xs_reserved s' = xs_reserved s \<Longrightarrow> xs_thread s' = xs_thread s \<Longrightarrow> xs_completion s' = xs_completion s \<Longrightarrow>
     current_job s' = current_job s"
  unfolding current_job_def by (simp only:)

definition slot_inv :: "ExportState \<Rightarrow> bool" where
  "slot_inv s \<longleftrightarrow> (xs_active s \<longleftrightarrow> xs_reserved s \<noteq> None \<or> xs_thread s \<noteq> None)
     \<and> \<not> (xs_reserved s \<noteq> None \<and> xs_thread s \<noteq> None) \<and> (xs_active s \<longrightarrow> xs_completion s = None)
     \<and> (xs_progress s \<noteq> None \<longleftrightarrow> current_job s \<noteq> None)
     \<and> (\<forall>p. xs_progress s = Some p \<longrightarrow> Some (xp_id p) = current_job s
          \<and> (\<forall>m. xp_pending p = Some m \<longrightarrow> epn_jobId m = xp_id p \<and> \<not> export_done m))
     \<and> (\<forall>c. xs_completion s = Some c \<longrightarrow> export_done c)"

definition before :: "ExportProgressNotification \<Rightarrow> u64 \<Rightarrow> bool" where
  "before m i \<longleftrightarrow> (if export_done m then unat (epn_jobId m) < unat i else unat (epn_jobId m) \<le> unat i)"

definition order_inv :: "nat \<Rightarrow> ExportState \<Rightarrow> ExportProgressNotification list \<Rightarrow> bool" where
  "order_inv n s delivered \<longleftrightarrow> unat (xs_nextId s) \<le> n + 1
     \<and> sorted_wrt (\<lambda>a b. before a (epn_jobId b)) delivered
     \<and> (\<forall>m\<in>set delivered. unat (epn_jobId m) < unat (xs_nextId s) \<and> (\<forall>i. current_job s = Some i \<longrightarrow> before m i))
     \<and> (\<forall>i. current_job s = Some i \<longrightarrow> unat i < unat (xs_nextId s))"

lemma before_next: "unat (epn_jobId m) < unat i \<Longrightarrow> before m i"
  by (simp add: before_def)

lemma export_reserve_inv:
  assumes inv: "slot_inv s" "order_inv n s delivered" and n: "n < 2 ^ 64 - 2" and none: "xs_reserved s = None"
    and res: "export_reserve now inputFd outputFd options type s = (s', shut, r)"
  shows "slot_inv s' \<and> order_inv (Suc n) s' delivered"
proof (cases r)
  case None
  with res have "s' = s" by (auto simp: export_reserve_def Let_def split: sum.splits if_splits)
  with inv show ?thesis by (simp add: order_inv_def)
next
  case (Some i)
  with res have s': "s' = s\<lparr>xs_nextId := xs_nextId s + 1, xs_active := True,
      xs_progress := Some (ExportProgress_new (xs_nextId s) now), xs_reserved := Some (xs_nextId s, inputFd, outputFd)\<rparr>"
    and free: "\<not> xs_active s" "xs_completion s = None"
    by (auto simp: export_reserve_def Let_def split: sum.splits if_splits)
  have inc: "unat (xs_nextId s + 1) = unat (xs_nextId s) + 1"
    using inv(2) n by (intro unat_inc_u64) (simp add: order_inv_def)
  have cur: "current_job s' = Some (xs_nextId s)" by (simp add: s' current_job_def)
  have "slot_inv s'"
    using inv(1) free none unfolding slot_inv_def cur by (auto simp: s' ExportProgress_new_def)
  moreover have "order_inv (Suc n) s' delivered"
    using inv(2) unfolding order_inv_def cur by (auto simp: s' inc intro: before_next less_SucI)
  ultimately show ?thesis ..
qed

lemma export_spawn_inv:
  assumes inv: "slot_inv s" "order_inv n s delivered" and sp: "export_spawn threadStarts s = (s', shut, r)"
  shows "slot_inv s' \<and> order_inv (Suc n) s' delivered"
proof (cases "xs_reserved s")
  case None
  with sp have "s' = s" by (auto simp: export_spawn_def)
  with inv show ?thesis by (simp add: order_inv_def)
next
  case (Some p)
  obtain i fds where p: "p = (i, fds)" by (cases p)
  have act: "xs_active s" "xs_thread s = None" "xs_completion s = None"
    using inv(1) Some unfolding slot_inv_def by blast+
  have cur: "current_job s = Some i" using Some p by (simp add: current_job_def)
  show ?thesis
  proof (cases threadStarts)
    case True
    with sp Some p have s': "s' = s\<lparr>xs_reserved := None, xs_thread := Some (i, fds)\<rparr>"
      by (auto simp: export_spawn_def split: prod.splits)
    then have "current_job s' = Some i" by (simp add: current_job_def)
    with inv act cur show ?thesis by (auto simp: slot_inv_def order_inv_def s')
  next
    case False
    with sp Some p have s': "s' = s\<lparr>xs_reserved := None, xs_active := False, xs_progress := None\<rparr>"
      by (auto simp: export_spawn_def split: prod.splits)
    then have "current_job s' = None" using act by (simp add: current_job_def)
    with inv act show ?thesis by (auto simp: slot_inv_def order_inv_def s')
  qed
qed

lemma callback_ready:
  assumes "slot_inv s" "xs_thread s = Some (i, fds)"
  shows "\<exists>p. xs_progress s = Some p \<and> xp_id p = i"
proof -
  have "xs_reserved s = None" using assms unfolding slot_inv_def by blast
  then have "current_job s = Some i" using assms(2) by (simp add: current_job_def)
  then show ?thesis using assms(1) unfolding slot_inv_def by (metis option.distinct(1) option.exhaust option.inject)
qed

lemma export_callback_inv:
  assumes inv: "slot_inv s" "order_inv n s delivered" and cb: "export_callback finished totalPages s = Some s'"
  shows "slot_inv s' \<and> order_inv (Suc n) s' delivered"
proof -
  obtain p where p: "xs_progress s = Some p"
    and s': "s' = s\<lparr>xs_progress := Some (progress_update finished totalPages p),
      xs_eventCounter := (if finished = totalPages then xs_eventCounter s + 1 else xs_eventCounter s)\<rparr>"
    using cb by (auto simp: export_callback_def split: option.splits)
  have cur: "current_job s' = current_job s" by (rule current_job_cong) (simp_all add: s')
  have "slot_inv s'"
    using inv(1) p unfolding slot_inv_def cur by (auto simp: s' progress_update_def export_done_def)
  moreover have "order_inv (Suc n) s' delivered" using inv(2) unfolding order_inv_def cur by (auto simp: s')
  ultimately show ?thesis ..
qed

lemma export_complete_inv:
  assumes inv: "slot_inv s" "order_inv n s delivered"
  shows "slot_inv (export_complete success reason s) \<and> order_inv (Suc n) (export_complete success reason s) delivered"
proof (cases "xs_thread s")
  case None
  with inv show ?thesis by (simp add: export_complete_def order_inv_def)
next
  case (Some t)
  obtain i fds where t: "t = (i, fds)" by (cases t)
  let ?s = "export_complete success reason s"
  have act: "xs_active s" "xs_reserved s = None" "xs_completion s = None"
    using inv(1) Some unfolding slot_inv_def by blast+
  have cur: "current_job s = Some i" "current_job ?s = Some i"
    using Some t act by (simp_all add: current_job_def export_complete_def)
  have "slot_inv ?s"
    using inv(1) act Some t unfolding slot_inv_def cur by (auto simp: export_complete_def export_done_def)
  moreover have "order_inv (Suc n) ?s delivered"
    using inv(2) Some t unfolding order_inv_def cur by (auto simp: export_complete_def)
  ultimately show ?thesis ..
qed

lemma progress_take_cases:
  "progress_take now p = (p', r) \<Longrightarrow>
     xp_id p' = xp_id p \<and> (r = None \<and> xp_pending p' = xp_pending p \<or> r = xp_pending p \<and> r \<noteq> None \<and> xp_pending p' = None)"
  by (auto simp: progress_take_def split: option.splits if_splits)

lemma drain_progress_inv:
  assumes inv: "slot_inv s" "order_inv n s delivered" and d: "drain_progress now s = (s', ns)"
  shows "slot_inv s' \<and> order_inv n s' (delivered @ ns) \<and> current_job s' = current_job s
    \<and> xs_completion s' = xs_completion s \<and> xs_reserved s' = xs_reserved s \<and> xs_thread s' = xs_thread s"
proof (cases "xs_progress s")
  case None
  with d inv show ?thesis by (simp add: drain_progress_def)
next
  case (Some p)
  obtain p' r where tk: "progress_take now p = (p', r)" by fastforce
  have s': "s' = s\<lparr>xs_progress := Some p'\<rparr>" and ns: "ns = (case r of None \<Rightarrow> [] | Some m \<Rightarrow> [m])"
    using d Some tk by (auto simp: drain_progress_def split: option.splits)
  have cur: "current_job s' = current_job s" "current_job s = Some (xp_id p)"
    using inv(1) Some by (auto simp: s' slot_inv_def intro!: current_job_cong)
  have pend: "epn_jobId m = xp_id p \<and> \<not> export_done m" if "xp_pending p = Some m" for m
    using inv(1) Some that by (auto simp: slot_inv_def)
  have "slot_inv s'"
    using inv(1) Some progress_take_cases [OF tk] unfolding slot_inv_def cur by (auto simp: s')
  moreover have "order_inv n s' (delivered @ ns)"
  proof (cases r)
    case None
    with inv(2) ns show ?thesis unfolding order_inv_def cur by (simp add: s')
  next
    case (Some m)
    with progress_take_cases [OF tk] pend have m: "epn_jobId m = xp_id p" "\<not> export_done m" by auto
    with inv(2) ns Some show ?thesis
      unfolding order_inv_def cur by (auto simp: s' sorted_wrt_append before_def)
  qed
  ultimately show ?thesis using cur by (simp add: s')
qed

lemma export_drain_inv:
  assumes inv: "slot_inv s" "order_inv n s delivered" and dr: "export_drainNotifications now s = (s', ns)"
  shows "slot_inv s' \<and> order_inv (Suc n) s' (delivered @ ns)"
proof -
  let ?s0 = "s\<lparr>xs_eventCounter := (if xs_event s \<ge> 0 then 0 else xs_eventCounter s)\<rparr>"
  obtain s1 r where d: "drain_progress now ?s0 = (s1, r)" by fastforce
  have cur0: "current_job ?s0 = current_job s" by (rule current_job_cong) simp_all
  have "slot_inv ?s0" "order_inv n ?s0 delivered"
    using inv unfolding slot_inv_def order_inv_def cur0 by simp_all
  from drain_progress_inv [OF this d] have inv1: "slot_inv s1" "order_inv n s1 (delivered @ r)" by auto
  show ?thesis
  proof (cases "xs_completion s1")
    case None
    with dr d inv1 show ?thesis by (auto simp: export_drainNotifications_def order_inv_def)
  next
    case (Some c)
    with dr d have s': "s' = s1\<lparr>xs_completion := None, xs_progress := None\<rparr>" and ns: "ns = r @ [c]"
      by (auto simp: export_drainNotifications_def)
    have act: "\<not> xs_active s1" "export_done c" using inv1(1) Some by (auto simp: slot_inv_def)
    then have idle: "xs_reserved s1 = None" "xs_thread s1 = None"
      using inv1(1) unfolding slot_inv_def by blast+
    have cur: "current_job s1 = Some (epn_jobId c)" "current_job s' = None"
      using idle Some by (simp_all add: current_job_def s')
    have "slot_inv s'" using inv1(1) idle act unfolding slot_inv_def cur by (simp add: s')
    moreover have "order_inv (Suc n) s' (delivered @ ns)"
      using inv1(2) unfolding order_inv_def cur ns append_assoc [symmetric]
      by (auto simp: s' sorted_wrt_append)
    ultimately show ?thesis ..
  qed
qed

lemma export_run_inv:
  "export_run n s delivered \<Longrightarrow> n < 2 ^ 64 - 1 \<Longrightarrow> slot_inv s \<and> order_inv n s delivered"
proof (induction n s delivered rule: export_run.induct)
  case (start event)
  show ?case by (simp add: slot_inv_def order_inv_def ExportJobs_init_def current_job_def)
next
  case (reserve n s delivered now inputFd outputFd options type s' shut r)
  then have "slot_inv s" "order_inv n s delivered" by simp_all
  from export_reserve_inv [OF this] reserve show ?case by simp
next
  case (spawn n s delivered threadStarts s' shut r)
  then have "slot_inv s" "order_inv n s delivered" by simp_all
  from export_spawn_inv [OF this] spawn show ?case by simp
next
  case (callback n s delivered t finished totalPages s')
  then have "slot_inv s" "order_inv n s delivered" by simp_all
  from export_callback_inv [OF this] callback show ?case by simp
next
  case (complete n s delivered success reason)
  then have "slot_inv s" "order_inv n s delivered" by simp_all
  from export_complete_inv [OF this] complete show ?case by simp
next
  case (wake n s delivered)
  have "current_job (export_wake s) = current_job s" by (rule current_job_cong) (simp_all add: export_wake_def)
  with wake show ?case by (simp add: export_wake_def slot_inv_def order_inv_def)
next
  case (drain n s delivered now s' ns)
  then have "slot_inv s" "order_inv n s delivered" by simp_all
  from export_drain_inv [OF this] drain show ?case by simp
qed

section \<open>Properties\<close>

text \<open>
  While an export thread runs, its progress callback never dereferences an empty mailbox, whatever the
  event loop drains, and the notification it stores carries the id of the running job; no second export is
  accepted until the completion of the first has been drained.
\<close>

lemma export_callback_safe:
  assumes "export_run n s delivered" "n < 2 ^ 64 - 1" "xs_thread s = Some (i, inputFd, outputFd)"
  shows "(\<exists>s' p m. export_callback finished totalPages s = Some s' \<and> xs_progress s' = Some p
       \<and> xp_pending p = Some m \<and> epn_jobId m = i)
    \<and> snd (snd (export_reserve now inputFd' outputFd' options type s)) = None
    \<and> snd (snd (export_reserve now inputFd' outputFd' options type (export_complete success reason s))) = None"
proof -
  have inv: "slot_inv s" using export_run_inv [OF assms(1,2)] by simp
  then have "xs_active s" using assms(3) unfolding slot_inv_def by blast
  with callback_ready [OF inv assms(3)] assms(3) show ?thesis
    by (auto simp: export_callback_def progress_update_def export_reserve_def export_complete_def split: sum.splits)
qed

definition source_export :: ExportOptions where
  "source_export = \<lparr>eo_formatId = ''pdf'', eo_profileId = ExportProfileId_value EPI_SourceWithReferences, eo_pages = [],
     eo_flags = ExportFlag_value EF_IncludeReferences\<rparr>"

definition exporting :: ExportState where
  "exporting = \<lparr>xs_completion = None, xs_event = 3, xs_eventCounter = 0, xs_wakes = 0, xs_nextId = 2, xs_active = True,
     xs_progress = Some \<lparr>xp_id = 1, xp_nextProbe = 2500, xp_pending = None\<rparr>, xs_reserved = None, xs_thread = Some (1, 7, 8)\<rparr>"

lemma source_export_profile: "\<exists>p. findExportProfile (outputFormatsFor Doc_Epub) source_export True INT_MAX = Inr p"
  by (simp add: findExportProfile_def isValidExportOptions_def verdict_simps require_def source_export_def isValidIdentifier_def
      hasNoEmbeddedNul_def knownFlags_def outputFormatsFor_def limits requiredFlags_def profile_default_def)

lemma exporting_run: "export_run 2 exporting []"
proof -
  obtain s shut r where res: "export_reserve 500 7 8 source_export Doc_Epub (ExportJobs_init 3) = (s, shut, r)"
    by (metis prod_cases3)
  have "export_spawn True s = (exporting, [], Some 1)"
    using res source_export_profile
    by (auto simp: export_reserve_def export_spawn_def ExportJobs_init_def exporting_def ExportProgress_new_def Let_def)
  from export_run.spawn [OF export_run.reserve [OF export_run.start _ res] this] show ?thesis
    by (simp add: ExportJobs_init_def numeral_2_eq_2)
qed

text \<open>
  C32. Lifecycle order: in everything the host receives from one worker, job ids never decrease, and after the
  completion of a job no further notification of that job, and no second completion, is delivered.
\<close>

theorem export_lifecycle_order:
  assumes "export_run n s delivered" "n < 2 ^ 64 - 1" "k < l" "l < length delivered"
  shows "if export_done (delivered ! k) then unat (epn_jobId (delivered ! k)) < unat (epn_jobId (delivered ! l))
    else unat (epn_jobId (delivered ! k)) \<le> unat (epn_jobId (delivered ! l))"
proof -
  have "sorted_wrt (\<lambda>a b. before a (epn_jobId b)) delivered"
    using export_run_inv [OF assms(1,2)] by (simp add: order_inv_def)
  then have "before (delivered ! k) (epn_jobId (delivered ! l))" using assms(3,4) by (simp add: sorted_wrt_iff_nth_less)
  then show ?thesis by (simp add: before_def)
qed

lemma export_delivered_run:
  "\<exists>s. export_run 5 s
     [\<lparr>epn_jobId = 1, epn_completed = 9, epn_total = 9, epn_phase = EPH_Finalizing, epn_error = []\<rparr>,
      \<lparr>epn_jobId = 1, epn_completed = 0, epn_total = 0, epn_phase = EPH_Succeeded, epn_error = []\<rparr>]"
proof -
  define s1 where "s1 = the (export_callback 9 9 exporting)"
  have "export_callback 9 9 exporting = Some s1" by (simp add: s1_def export_callback_def exporting_def)
  from export_run.callback [OF exporting_run _ this] have r3: "export_run 3 s1 []"
    by (simp add: exporting_def eval_nat_numeral)
  define s2 where "s2 = export_complete True [] s1"
  have r4: "export_run (Suc 3) s2 []" unfolding s2_def by (rule export_run.complete [OF r3])
  obtain s3 ns where dr: "export_drainNotifications 600 s2 = (s3, ns)" by fastforce
  have "xs_reserved s2 = None"
    by (simp add: s1_def s2_def export_callback_def exporting_def export_complete_def)
  from export_run.drain [OF r4 this dr] have "export_run (Suc (Suc 3)) s3 ns" by simp
  moreover have "ns = [\<lparr>epn_jobId = 1, epn_completed = 9, epn_total = 9, epn_phase = EPH_Finalizing, epn_error = []\<rparr>,
      \<lparr>epn_jobId = 1, epn_completed = 0, epn_total = 0, epn_phase = EPH_Succeeded, epn_error = []\<rparr>]"
    using dr by (auto simp: s1_def s2_def export_callback_def exporting_def export_complete_def progress_update_def
        export_drainNotifications_def drain_progress_def progress_take_def)
  ultimately show ?thesis by (auto simp: eval_nat_numeral)
qed

theorem export_lifecycle_order_witness:
  "\<exists>s. export_run 5 s
     [\<lparr>epn_jobId = 1, epn_completed = 9, epn_total = 9, epn_phase = EPH_Finalizing, epn_error = []\<rparr>,
      \<lparr>epn_jobId = 1, epn_completed = 0, epn_total = 0, epn_phase = EPH_Succeeded, epn_error = []\<rparr>]
   \<and> unat (1 :: u64) \<le> unat (1 :: u64)"
proof -
  obtain s where "export_run 5 s
     [\<lparr>epn_jobId = 1, epn_completed = 9, epn_total = 9, epn_phase = EPH_Finalizing, epn_error = []\<rparr>,
      \<lparr>epn_jobId = 1, epn_completed = 0, epn_total = 0, epn_phase = EPH_Succeeded, epn_error = []\<rparr>]"
    using export_delivered_run by blast
  from this export_lifecycle_order [OF this, of 0 1] show ?thesis by (auto simp: export_done_def)
qed

lemma find_profile_async:
  "(\<exists>profile. findExportProfile formats options True pageCount = Inr profile) \<longleftrightarrow>
     isValidExportOptions options = Valid \<and> 0 \<le> pageCount \<and> length (eo_pages options) \<le> nat pageCount
     \<and> list_all (\<lambda>page. page < pageCount) (eo_pages options)
     \<and> (\<exists>format profile. find (\<lambda>f. ofi_id f = eo_formatId options) formats = Some format
          \<and> find (\<lambda>p. ep_id p = eo_profileId options) (ofi_profiles format) = Some profile
          \<and> ep_asynchronous profile \<and> requiredFlags options AND NOT (ep_supportedFlags profile) = 0)"
  by (auto simp: findExportProfile_def list_ex_iff list_all_iff not_le split: verdict.splits option.splits) force+

lemma async_profile:
  "(\<exists>format profile. find (\<lambda>f. ofi_id f = formatId) (outputFormatsFor type) = Some format
      \<and> find (\<lambda>p. ep_id p = profileId) (ofi_profiles format) = Some profile
      \<and> ep_asynchronous profile \<and> flags AND NOT (ep_supportedFlags profile) = 0) \<longleftrightarrow>
   (type = Doc_Epub \<or> type = Doc_Mobi \<or> type = Doc_Kindle) \<and> formatId = ''pdf''
     \<and> profileId = ExportProfileId_value EPI_SourceWithReferences \<and> flags AND NOT (1 OR 8) = 0"
  by (cases type) (auto simp: outputFormatsFor_def profile_default_def converted_profile_def)

text \<open>
  Background export is accepted exactly for valid options that ask an ebook writer (EPUB, MOBI or Kindle) for
  PDF with the source-with-references profile, with pages in range and no flag beyond page selection and
  references; every other combination of document type, format, profile and flags is rejected.
\<close>

lemma export_inventory:
  "(\<exists>profile. findExportProfile (outputFormatsFor type) options True pageCount = Inr profile) \<longleftrightarrow>
     isValidExportOptions options = Valid \<and> 0 \<le> pageCount \<and> length (eo_pages options) \<le> nat pageCount
     \<and> list_all (\<lambda>page. page < pageCount) (eo_pages options)
     \<and> (type = Doc_Epub \<or> type = Doc_Mobi \<or> type = Doc_Kindle) \<and> eo_formatId options = ''pdf''
     \<and> eo_profileId options = ExportProfileId_value EPI_SourceWithReferences
     \<and> requiredFlags options AND NOT (1 OR 8) = 0"
  unfolding find_profile_async async_profile by (rule refl)

end
