(* ===== verification/Std_Map.thy ===== *)
theory Std_Map
  imports Mu_Prelude
begin

text \<open>
  The associative containers of the standard library, as the components use them: an association list
  with distinct keys. \<open>emplace\<close> keeps an existing entry, \<open>insert_or_assign\<close> replaces it, \<open>erase\<close> removes
  it; the number of entries is the length of the list. No component of the model depends on the iteration
  order of a map.
\<close>

type_synonym ('k, 'v) std_map = "('k \<times> 'v) list"

named_theorems std_map

definition keys :: "('k, 'v) std_map \<Rightarrow> 'k set" where
  "keys m = fst ` set m"

lemma keys_Nil [simp]: "keys [] = {}"
  by (simp add: keys_def)

definition map_wf :: "('k, 'v) std_map \<Rightarrow> bool" where
  "map_wf m \<longleftrightarrow> distinct (map fst m)"

definition map_emplace :: "'k \<Rightarrow> 'v \<Rightarrow> ('k, 'v) std_map \<Rightarrow> ('k, 'v) std_map" where
  "map_emplace k v m = (if map_of m k = None then m @ [(k, v)] else m)"

definition map_erase :: "'k \<Rightarrow> ('k, 'v) std_map \<Rightarrow> ('k, 'v) std_map" where
  "map_erase k m = filter (\<lambda>p. fst p \<noteq> k) m"

definition map_modify :: "'k \<Rightarrow> ('v \<Rightarrow> 'v) \<Rightarrow> ('k, 'v) std_map \<Rightarrow> ('k, 'v) std_map" where
  "map_modify k f m = map (\<lambda>p. if fst p = k then (k, f (snd p)) else p) m"

lemma map_wf_Nil [simp]: "map_wf []"
  by (simp add: map_wf_def)

lemma map_wf_emplace [simp]: "map_wf m \<Longrightarrow> map_wf (map_emplace k v m)"
  by (auto simp: map_wf_def map_emplace_def map_of_eq_None_iff)

lemma map_wf_erase [simp]: "map_wf m \<Longrightarrow> map_wf (map_erase k m)"
  by (simp add: map_wf_def map_erase_def distinct_map_filter)

lemma map_modify_fst [simp]: "map fst (map_modify k f m) = map fst m"
  by (simp add: map_modify_def)

lemma map_wf_modify [simp]: "map_wf (map_modify k f m) = map_wf m"
  by (simp add: map_wf_def)

lemma keys_emplace [std_map]: "keys (map_emplace k v m) = insert k (keys m)"
  by (auto simp: map_emplace_def map_of_eq_None_iff keys_def split: option.splits)

lemma keys_erase [std_map]: "keys (map_erase k m) = keys m - {k}"
  by (auto simp: map_erase_def keys_def)

lemma keys_modify [std_map]: "keys (map_modify k f m) = keys m"
  unfolding keys_def by (metis list.set_map map_modify_fst)

lemma find_emplace [std_map]:
  "map_of (map_emplace k v m) j = (if j = k \<and> map_of m k = None then Some v else map_of m j)"
  by (auto simp: map_emplace_def map_of_append map_add_def split: option.splits)

lemma find_erase [std_map]: "map_of (map_erase k m) j = (if j = k then None else map_of m j)"
  by (induction m) (auto simp: map_erase_def)

lemma find_modify [std_map]: "map_of (map_modify k f m) j = (if j = k then map_option f (map_of m j) else map_of m j)"
  by (induction m) (auto simp: map_modify_def)

lemma length_emplace [std_map]: "length (map_emplace k v m) = (if k \<in> keys m then length m else Suc (length m))"
  by (auto simp: map_emplace_def map_of_eq_None_iff keys_def)

lemma length_modify [std_map]: "length (map_modify k f m) = length m"
  by (simp add: map_modify_def)

lemma erase_absent: "k \<notin> keys m \<Longrightarrow> map_erase k m = m"
  unfolding map_erase_def keys_def by (rule filter_True) auto

lemma length_erase [std_map]:
  assumes "map_wf m"
  shows "length (map_erase k m) = (if k \<in> keys m then length m - 1 else length m)"
proof -
  have "length (map_erase k m) = card (keys m - {k})"
    using map_wf_erase [OF assms, of k] keys_erase [of k m] unfolding keys_def
    by (metis distinct_card length_map list.set_map map_wf_def)
  moreover have "length m = card (keys m)"
    using assms unfolding keys_def by (metis distinct_card length_map list.set_map map_wf_def)
  ultimately show ?thesis by simp
qed

lemma length_erase_le: "length (map_erase k m) \<le> length m"
  by (simp add: map_erase_def)

lemma keys_nonempty_length: "k \<in> keys m \<Longrightarrow> 0 < length m"
  by (cases m) auto

lemma find_in_keys: "map_of m k = Some v \<Longrightarrow> k \<in> keys m"
  unfolding keys_def by (metis domI dom_map_of_conv_image_fst)

lemma find_None_keys: "map_of m k = None \<longleftrightarrow> k \<notin> keys m"
  by (simp add: map_of_eq_None_iff keys_def)

text \<open>
  The contract of the containers, for clients that only look up, insert and remove.
\<close>

locale finite_map =
  fixes lookup :: "'m \<Rightarrow> 'k \<Rightarrow> 'v option"
    and emplace :: "'k \<Rightarrow> 'v \<Rightarrow> 'm \<Rightarrow> 'm"
    and erase :: "'k \<Rightarrow> 'm \<Rightarrow> 'm"
  assumes lookup_emplace: "lookup (emplace k v m) j = (if j = k \<and> lookup m k = None then Some v else lookup m j)"
    and lookup_erase: "lookup (erase k m) j = (if j = k then None else lookup m j)"
begin

lemma take_after_insert: "lookup m k = None \<Longrightarrow> lookup (erase k (emplace k v m)) = lookup m"
  by (rule ext) (simp add: lookup_emplace lookup_erase)

lemma reinsert: "lookup (emplace k v (erase k m)) k = Some v"
  by (simp add: lookup_emplace lookup_erase)

lemma insert_once: "lookup m k = None \<Longrightarrow> lookup (emplace k w (emplace k v m)) k = Some v"
  by (simp add: lookup_emplace)

end

interpretation std_map: finite_map "map_of" map_emplace map_erase
  by unfold_locales (simp_all add: find_emplace find_erase)

end
