(* ===== verification/Ocr_Jobs.thy ===== *)
theory Ocr_Jobs
  imports Model_Types Std_Map
begin

text \<open>
  The asynchronous OCR pool (\<^verbatim>\<open>src/worker/engine/ocr/jobs.hpp\<close> and \<^verbatim>\<open>jobs.cpp\<close>). One mutex guards
  the shared state, so every critical section is one atomic step; between them a job thread has local
  progress: it has been created, its runner executes while a watchdog may cancel its cookie, the runner
  has returned, the watchdog has been joined and the result classified. The theory models each critical
  section as a function on the shared state and the interleavings of the event loop, the job threads and
  the watchdogs as a step relation; it proves the capacity bound, that cancelled documents never publish a
  result, and that every completion is announced once and can be taken.
\<close>

section \<open>State\<close>

datatype JobStatus = JS_Queued | JS_Running | JS_Cancelled

record JobEntry =
  je_id :: u64
  je_page :: int
  je_status :: JobStatus

record OcrNotification =
  on_id :: u64
  on_page :: int

text \<open>
  The local progress of a detached thread: its closure holds the job id, the page and the input
  descriptor; after the runner has returned it holds a result.
\<close>

datatype ThreadPhase = TP_Created | TP_Running | TP_Returned OcrResult | TP_Joined OcrResult

record JobThread =
  jt_fd :: int
  jt_phase :: ThreadPhase

text \<open>
  \<open>SharedState\<close>, with the heap cells that entries, threads and watchdogs share: \<open>os_cookies\<close> holds the
  cancellation flag of the cookie that was created for a job id, \<open>os_threads\<close> the live detached threads,
  \<open>os_reserved\<close> the job for which \<open>submit\<close> has taken a slot and not yet created its thread. The eventfd is
  its descriptor and its counter.
\<close>

record OcrState =
  os_activeJobs :: "(u64, JobEntry) std_map"
  os_executingJobs :: nat
  os_completedResults :: "(u64, OcrResult) std_map"
  os_notifications :: "OcrNotification list"
  os_event :: int
  os_eventCounter :: nat
  os_nextId :: u64
  os_cookies :: "(u64, bool) std_map"
  os_threads :: "(u64, JobThread) std_map"
  os_reserved :: "(u64 \<times> int) option"

text \<open>The constructor; \<open>event\<close> is negative when the eventfd could not be created.\<close>

definition OcrJobs_init :: "int \<Rightarrow> OcrState" where
  "OcrJobs_init event = \<lparr>os_activeJobs = [], os_executingJobs = 0, os_completedResults = [], os_notifications = [],
     os_event = event, os_eventCounter = 0, os_nextId = 1, os_cookies = [], os_threads = [], os_reserved = None\<rparr>"

abbreviation isCancelled :: "OcrState \<Rightarrow> u64 \<Rightarrow> bool" where
  "isCancelled s i \<equiv> map_of (os_cookies s) i = Some True"

section \<open>Submission\<close>

text \<open>
  The first critical section of \<open>submit\<close>: a rejected descriptor is closed by its owner (the second
  component), an accepted one is held until the thread exists.
\<close>

definition submit_reserve :: "nat \<Rightarrow> int \<Rightarrow> int \<Rightarrow> OcrState \<Rightarrow> OcrState \<times> int list \<times> u64 option" where
  "submit_reserve limit inputFd page s =
     (if inputFd < 0 then (s, [], None)
      else if os_event s < 0 \<or> size_add (os_executingJobs s) (length (os_completedResults s)) \<ge> limit
      then (s, [inputFd], None)
      else
        let i = os_nextId s in
        (s\<lparr>os_nextId := i + 1,
           os_cookies := map_emplace i False (os_cookies s),
           os_activeJobs := map_emplace i \<lparr>je_id = i, je_page = page, je_status = JS_Queued\<rparr> (os_activeJobs s),
           os_executingJobs := size_add (os_executingJobs s) 1,
           os_reserved := Some (i, inputFd)\<rparr>, [], Some i))"

text \<open>Creating the thread either succeeds or throws; then the slot is given back and the descriptor closed.\<close>

definition submit_spawn :: "bool \<Rightarrow> OcrState \<Rightarrow> OcrState \<times> int list \<times> u64 option" where
  "submit_spawn threadStarts s =
     (case os_reserved s of
        None \<Rightarrow> (s, [], None)
      | Some (i, inputFd) \<Rightarrow>
        if threadStarts
        then (s\<lparr>os_reserved := None, os_threads := map_emplace i \<lparr>jt_fd = inputFd, jt_phase = TP_Created\<rparr> (os_threads s)\<rparr>,
              [], Some i)
        else (s\<lparr>os_reserved := None, os_activeJobs := map_erase i (os_activeJobs s),
                os_executingJobs := size_sub (os_executingJobs s) 1\<rparr>, [inputFd], None))"

definition submit :: "nat \<Rightarrow> bool \<Rightarrow> int \<Rightarrow> int \<Rightarrow> OcrState \<Rightarrow> OcrState \<times> int list \<times> u64 option" where
  "submit limit threadStarts inputFd page s =
     (case submit_reserve limit inputFd page s of
        (s', shut, None) \<Rightarrow> (s', shut, None)
      | (s', shut, Some i) \<Rightarrow> submit_spawn threadStarts s')"

section \<open>The job thread\<close>

definition set_phase :: "u64 \<Rightarrow> ThreadPhase \<Rightarrow> OcrState \<Rightarrow> OcrState" where
  "set_phase i phase s = s\<lparr>os_threads := map_modify i (\<lambda>t. t\<lparr>jt_phase := phase\<rparr>) (os_threads s)\<rparr>"

text \<open>The start of the closure; a job cancelled before its thread ran gives its slot back and ends.\<close>

definition thread_start :: "u64 \<Rightarrow> OcrState \<Rightarrow> OcrState" where
  "thread_start i s =
     (let it = map_of (os_activeJobs s) i in
      if it = None \<or> map_option je_status it = Some JS_Cancelled \<or> isCancelled s i
      then s\<lparr>os_activeJobs := map_erase i (os_activeJobs s),
             os_executingJobs := size_sub (os_executingJobs s) 1,
             os_threads := map_erase i (os_threads s)\<rparr>
      else set_phase i TP_Running
        (s\<lparr>os_activeJobs := map_modify i (\<lambda>e. e\<lparr>je_status := JS_Running\<rparr>) (os_activeJobs s)\<rparr>))"

text \<open>The watchdog's \<open>cookie->cancel()\<close>; it may run until it is joined.\<close>

definition watchdog_fire :: "u64 \<Rightarrow> OcrState \<Rightarrow> OcrState" where
  "watchdog_fire i s = s\<lparr>os_cookies := map_modify i (\<lambda>_. True) (os_cookies s)\<rparr>"

definition runner_return :: "u64 \<Rightarrow> OcrResult \<Rightarrow> OcrState \<Rightarrow> OcrState" where
  "runner_return i result s = set_phase i (TP_Returned result) s"

definition classify :: "bool \<Rightarrow> OcrResult \<Rightarrow> OcrResult" where
  "classify cancelled result =
     (if cancelled \<or> or_status result = Ocr_Cancelled
      then result\<lparr>or_status := Ocr_Cancelled, or_boxes := []\<rparr> else result)"

definition join_watchdog :: "u64 \<Rightarrow> OcrResult \<Rightarrow> OcrState \<Rightarrow> OcrState" where
  "join_watchdog i result s = set_phase i (TP_Joined (classify (isCancelled s i) result)) s"

text \<open>The last critical section: publish unless the entry is gone, and wake the event loop.\<close>

definition thread_complete :: "u64 \<Rightarrow> OcrResult \<Rightarrow> OcrState \<Rightarrow> OcrState" where
  "thread_complete i result s0 =
     (let s = s0\<lparr>os_executingJobs := size_sub (os_executingJobs s0) 1, os_threads := map_erase i (os_threads s0)\<rparr> in
      case map_of (os_activeJobs s) i of
        None \<Rightarrow> s
      | Some entry \<Rightarrow>
        s\<lparr>os_activeJobs := map_erase i (os_activeJobs s),
          os_completedResults := map_emplace i result (os_completedResults s),
          os_notifications := os_notifications s @ [\<lparr>on_id = i, on_page = je_page entry\<rparr>],
          os_eventCounter := (if os_event s \<ge> 0 then os_eventCounter s + 1 else os_eventCounter s)\<rparr>)"

section \<open>The event loop\<close>

definition drainNotifications :: "OcrState \<Rightarrow> OcrState \<times> OcrNotification list" where
  "drainNotifications s =
     (s\<lparr>os_eventCounter := (if os_event s \<ge> 0 then 0 else os_eventCounter s), os_notifications := []\<rparr>, os_notifications s)"

definition take_result :: "u64 \<Rightarrow> OcrState \<Rightarrow> OcrState \<times> OcrResult option" where
  "take_result i s =
     (case map_of (os_completedResults s) i of
        None \<Rightarrow> (s, None)
      | Some v \<Rightarrow> (s\<lparr>os_completedResults := map_erase i (os_completedResults s)\<rparr>, Some v))"

text \<open>Every registered entry has its cookie cancelled before the containers are cleared.\<close>

definition cancelAll :: "OcrState \<Rightarrow> OcrState" where
  "cancelAll s =
     s\<lparr>os_cookies := map (\<lambda>(i, c). (i, c \<or> map_of (os_activeJobs s) i \<noteq> None)) (os_cookies s),
       os_activeJobs := [], os_completedResults := [], os_notifications := []\<rparr>"

definition OcrJobs_destroy :: "OcrState \<Rightarrow> OcrState" where
  "OcrJobs_destroy s = (cancelAll s)\<lparr>os_event := - 1\<rparr>"

section \<open>Interleavings\<close>

text \<open>
  \<open>ocr_run limit n s epoch announced\<close>: after \<open>n\<close> steps the pool is in state \<open>s\<close>; \<open>epoch\<close> is the next job id at
  the last cancellation, \<open>announced\<close> the ids of all completions ever queued. The event loop is one thread,
  so it neither submits nor cancels while a submission is in progress; job threads and watchdogs interleave
  with it freely.
\<close>

abbreviation phase_of :: "OcrState \<Rightarrow> u64 \<Rightarrow> ThreadPhase option" where
  "phase_of s i \<equiv> map_option jt_phase (map_of (os_threads s) i)"

inductive ocr_run :: "nat \<Rightarrow> nat \<Rightarrow> OcrState \<Rightarrow> nat \<Rightarrow> u64 list \<Rightarrow> bool" for limit where
  start: "ocr_run limit 0 (OcrJobs_init event) 1 []"
| reserve: "ocr_run limit n s epoch announced \<Longrightarrow> os_reserved s = None \<Longrightarrow>
    submit_reserve limit inputFd page s = (s', shut, r) \<Longrightarrow> ocr_run limit (Suc n) s' epoch announced"
| spawn: "ocr_run limit n s epoch announced \<Longrightarrow> submit_spawn threadStarts s = (s', shut, r) \<Longrightarrow>
    ocr_run limit (Suc n) s' epoch announced"
| begun: "ocr_run limit n s epoch announced \<Longrightarrow> phase_of s i = Some TP_Created \<Longrightarrow>
    ocr_run limit (Suc n) (thread_start i s) epoch announced"
| watchdog: "ocr_run limit n s epoch announced \<Longrightarrow>
    phase_of s i = Some TP_Running \<or> phase_of s i = Some (TP_Returned result) \<Longrightarrow>
    ocr_run limit (Suc n) (watchdog_fire i s) epoch announced"
| returned: "ocr_run limit n s epoch announced \<Longrightarrow> phase_of s i = Some TP_Running \<Longrightarrow>
    ocr_run limit (Suc n) (runner_return i result s) epoch announced"
| joined: "ocr_run limit n s epoch announced \<Longrightarrow> phase_of s i = Some (TP_Returned result) \<Longrightarrow>
    ocr_run limit (Suc n) (join_watchdog i result s) epoch announced"
| completed: "ocr_run limit n s epoch announced \<Longrightarrow> phase_of s i = Some (TP_Joined result) \<Longrightarrow>
    ocr_run limit (Suc n) (thread_complete i result s) epoch
      (if map_of (os_activeJobs s) i = None then announced else announced @ [i])"
| drained: "ocr_run limit n s epoch announced \<Longrightarrow> os_reserved s = None \<Longrightarrow>
    ocr_run limit (Suc n) (fst (drainNotifications s)) epoch announced"
| taken: "ocr_run limit n s epoch announced \<Longrightarrow> os_reserved s = None \<Longrightarrow>
    ocr_run limit (Suc n) (fst (take_result i s)) epoch announced"
| cancelled: "ocr_run limit n s epoch announced \<Longrightarrow> os_reserved s = None \<Longrightarrow>
    ocr_run limit (Suc n) (cancelAll s) (unat (os_nextId s)) announced"
| destroyed: "ocr_run limit n s epoch announced \<Longrightarrow> os_reserved s = None \<Longrightarrow>
    ocr_run limit (Suc n) (OcrJobs_destroy s) (unat (os_nextId s)) announced"

section \<open>Invariants\<close>

abbreviation reserved_ids :: "OcrState \<Rightarrow> u64 set" where
  "reserved_ids s \<equiv> (case os_reserved s of None \<Rightarrow> {} | Some (i, fd) \<Rightarrow> {i})"

definition maps_inv :: "OcrState \<Rightarrow> bool" where
  "maps_inv s \<longleftrightarrow> map_wf (os_activeJobs s) \<and> map_wf (os_completedResults s) \<and> map_wf (os_threads s)
     \<and> map_wf (os_cookies s)"

definition capacity_inv :: "nat \<Rightarrow> OcrState \<Rightarrow> bool" where
  "capacity_inv limit s \<longleftrightarrow>
     os_executingJobs s = length (os_threads s) + (if os_reserved s = None then 0 else 1)
     \<and> os_executingJobs s + length (os_completedResults s) \<le> limit"

definition jobs_inv :: "nat \<Rightarrow> OcrState \<Rightarrow> bool" where
  "jobs_inv n s \<longleftrightarrow> os_nextId s \<noteq> 0 \<and> unat (os_nextId s) \<le> n + 1
     \<and> keys (os_activeJobs s) \<subseteq> keys (os_threads s) \<union> reserved_ids s
     \<and> keys (os_threads s) \<inter> reserved_ids s = {}
     \<and> keys (os_threads s) \<union> reserved_ids s \<subseteq> keys (os_cookies s)
     \<and> (\<forall>i\<in>keys (os_cookies s). unat i < unat (os_nextId s))"

definition history_inv :: "OcrState \<Rightarrow> nat \<Rightarrow> u64 list \<Rightarrow> bool" where
  "history_inv s epoch announced \<longleftrightarrow> epoch \<le> unat (os_nextId s) \<and> distinct announced
     \<and> (\<forall>i\<in>set announced. unat i < unat (os_nextId s) \<and> i \<notin> keys (os_activeJobs s) \<and> i \<notin> reserved_ids s)
     \<and> keys (os_completedResults s) \<subseteq> set announced \<and> set (map on_id (os_notifications s)) \<subseteq> set announced
     \<and> distinct (map on_id (os_notifications s))
     \<and> (\<forall>i\<in>keys (os_activeJobs s) \<union> keys (os_completedResults s) \<union> on_id ` set (os_notifications s). epoch \<le> unat i)"

definition ocr_inv :: "nat \<Rightarrow> nat \<Rightarrow> OcrState \<Rightarrow> nat \<Rightarrow> u64 list \<Rightarrow> bool" where
  "ocr_inv limit n s epoch announced \<longleftrightarrow>
     maps_inv s \<and> capacity_inv limit s \<and> jobs_inv n s \<and> history_inv s epoch announced"

lemmas ocr_inv_defs = ocr_inv_def maps_inv_def capacity_inv_def jobs_inv_def history_inv_def

lemma jobs_inv_Suc: "jobs_inv n s \<Longrightarrow> jobs_inv (Suc n) s"
  by (auto simp: jobs_inv_def)

lemma phase_of_keys: "phase_of s i = Some p \<Longrightarrow> i \<in> keys (os_threads s)"
  by (auto dest: find_in_keys)

lemma reserve_inv:
  assumes inv: "ocr_inv limit n s epoch announced" and n: "n < 2 ^ 64 - 2" and limit: "limit < 2 ^ 64"
    and none: "os_reserved s = None" and res: "submit_reserve limit inputFd page s = (s', shut, r)"
  shows "ocr_inv limit (Suc n) s' epoch announced"
proof (cases "r = None")
  case True
  with res have "s' = s" by (auto simp: submit_reserve_def Let_def split: if_splits)
  with inv show ?thesis by (auto simp: ocr_inv_def jobs_inv_Suc)
next
  case False
  have m: "maps_inv s" and c: "capacity_inv limit s" and j: "jobs_inv n s" and h: "history_inv s epoch announced"
    using inv by (auto simp: ocr_inv_def)
  let ?i = "os_nextId s"
  have fresh: "?i \<notin> keys (os_cookies s)" using j by (auto simp: jobs_inv_def)
  then have new: "?i \<notin> keys (os_threads s)" "?i \<notin> keys (os_activeJobs s)" "?i \<notin> set announced"
    using j h none by (auto simp: jobs_inv_def history_inv_def subset_iff)
  have inc: "unat (?i + 1) = unat ?i + 1" "?i + 1 \<noteq> 0"
    using unat_inc_u64 [of ?i] inc_u64_nonzero [of ?i] j n by (auto simp: jobs_inv_def)
  have total: "os_executingJobs s + length (os_completedResults s) \<le> limit" using c by (simp add: capacity_inv_def)
  then have add: "size_add (os_executingJobs s) (length (os_completedResults s)) = os_executingJobs s + length (os_completedResults s)"
    using limit by (intro size_add_exact) simp
  from False res have s': "s' = s\<lparr>os_nextId := ?i + 1, os_cookies := map_emplace ?i False (os_cookies s),
      os_activeJobs := map_emplace ?i \<lparr>je_id = ?i, je_page = page, je_status = JS_Queued\<rparr> (os_activeJobs s),
      os_executingJobs := size_add (os_executingJobs s) 1, os_reserved := Some (?i, inputFd)\<rparr>"
    and room: "os_executingJobs s + length (os_completedResults s) < limit"
    by (auto simp: submit_reserve_def Let_def add split: if_splits)
  have one: "size_add (os_executingJobs s) 1 = os_executingJobs s + 1"
    using room limit by (intro size_add_exact) simp
  have "maps_inv s'" using m by (simp add: maps_inv_def s')
  moreover have "capacity_inv limit s'" using c room none by (simp add: capacity_inv_def s' [unfolded one])
  moreover have "jobs_inv (Suc n) s'"
    using j inc none new by (auto simp: jobs_inv_def s' std_map less_Suc_eq)
  moreover have "history_inv s' epoch announced"
    using h inc none new by (auto simp: history_inv_def s' std_map less_Suc_eq)
  ultimately show ?thesis by (simp add: ocr_inv_def)
qed

lemma spawn_inv:
  assumes inv: "ocr_inv limit n s epoch announced" and sp: "submit_spawn threadStarts s = (s', shut, r)"
  shows "ocr_inv limit (Suc n) s' epoch announced"
proof (cases "os_reserved s")
  case None
  with sp have "s' = s" by (auto simp: submit_spawn_def)
  with inv show ?thesis by (auto simp: ocr_inv_def jobs_inv_Suc)
next
  case (Some p)
  obtain i fd where p: "p = (i, fd)" by (cases p)
  have m: "maps_inv s" and c: "capacity_inv limit s" and j: "jobs_inv n s" and h: "history_inv s epoch announced"
    using inv by (auto simp: ocr_inv_def)
  have i: "i \<notin> keys (os_threads s)" using j Some p by (auto simp: jobs_inv_def)
  show ?thesis
  proof (cases threadStarts)
    case True
    with sp Some p have s': "s' = s\<lparr>os_reserved := None,
        os_threads := map_emplace i \<lparr>jt_fd = fd, jt_phase = TP_Created\<rparr> (os_threads s)\<rparr>"
      by (auto simp: submit_spawn_def)
    have "maps_inv s'" using m by (simp add: maps_inv_def s')
    moreover have "capacity_inv limit s'" using c i Some by (simp add: capacity_inv_def s' std_map)
    moreover have "jobs_inv (Suc n) s'" using j Some p by (auto simp: jobs_inv_def s' std_map)
    moreover have "history_inv s' epoch announced" using h Some p by (auto simp: history_inv_def s' std_map)
    ultimately show ?thesis by (simp add: ocr_inv_def)
  next
    case False
    with sp Some p have s': "s' = s\<lparr>os_reserved := None, os_activeJobs := map_erase i (os_activeJobs s),
        os_executingJobs := size_sub (os_executingJobs s) 1\<rparr>"
      by (auto simp: submit_spawn_def)
    have "maps_inv s'" using m by (simp add: maps_inv_def s')
    moreover have "capacity_inv limit s'" using c Some by (simp add: capacity_inv_def s')
    moreover have "jobs_inv (Suc n) s'" using j Some p by (auto simp: jobs_inv_def s' std_map)
    moreover have "history_inv s' epoch announced" using h Some p by (auto simp: history_inv_def s' std_map)
    ultimately show ?thesis by (simp add: ocr_inv_def)
  qed
qed

text \<open>Steps that touch neither the containers of jobs nor the counters.\<close>

lemma set_phase_inv: "ocr_inv limit n s epoch announced \<Longrightarrow> ocr_inv limit (Suc n) (set_phase i p s) epoch announced"
  by (auto simp: ocr_inv_defs set_phase_def std_map)

lemma watchdog_inv: "ocr_inv limit n s epoch announced \<Longrightarrow> ocr_inv limit (Suc n) (watchdog_fire i s) epoch announced"
  by (auto simp: ocr_inv_defs watchdog_fire_def std_map)

text \<open>A thread that ends gives its slot back.\<close>

lemma thread_ends:
  assumes inv: "ocr_inv limit n s epoch announced" and i: "i \<in> keys (os_threads s)"
    and s': "s' = s\<lparr>os_activeJobs := map_erase i (os_activeJobs s), os_executingJobs := size_sub (os_executingJobs s) 1,
      os_threads := map_erase i (os_threads s)\<rparr>"
  shows "ocr_inv limit (Suc n) s' epoch announced \<and> i \<notin> reserved_ids s' \<and> unat i < unat (os_nextId s')
    \<and> os_executingJobs s' + 1 + length (os_completedResults s') \<le> limit"
proof -
  have m: "maps_inv s" and c: "capacity_inv limit s" and j: "jobs_inv n s" and h: "history_inv s epoch announced"
    using inv by (auto simp: ocr_inv_def)
  have "length (map_erase i (os_threads s)) = length (os_threads s) - 1" "0 < length (os_threads s)"
    using m i keys_nonempty_length [OF i] by (simp_all add: length_erase maps_inv_def)
  moreover from this c have "1 \<le> os_executingJobs s" by (simp add: capacity_inv_def Suc_le_eq)
  then have "size_sub (os_executingJobs s) 1 = os_executingJobs s - 1" by simp
  ultimately have "capacity_inv limit s'" "os_executingJobs s' + 1 + length (os_completedResults s') \<le> limit"
    using c unfolding capacity_inv_def s' by auto
  moreover have "maps_inv s'" using m by (simp add: maps_inv_def s')
  moreover have "jobs_inv (Suc n) s'" "i \<notin> reserved_ids s'" "unat i < unat (os_nextId s')"
    using j i by (auto simp: jobs_inv_def s' std_map split: option.splits)
  moreover have "history_inv s' epoch announced" using h by (auto simp: history_inv_def s' std_map)
  ultimately show ?thesis by (simp add: ocr_inv_def)
qed

lemma begun_inv:
  assumes inv: "ocr_inv limit n s epoch announced" and i: "i \<in> keys (os_threads s)"
  shows "ocr_inv limit (Suc n) (thread_start i s) epoch announced"
proof (cases "map_of (os_activeJobs s) i = None \<or> map_option je_status (map_of (os_activeJobs s) i) = Some JS_Cancelled
    \<or> isCancelled s i")
  case True
  then show ?thesis unfolding thread_start_def Let_def using thread_ends [OF inv i refl] by simp
next
  case False
  have "ocr_inv limit n (s\<lparr>os_activeJobs := map_modify i f (os_activeJobs s)\<rparr>) epoch announced" for f
    using inv by (auto simp: ocr_inv_defs std_map)
  then show ?thesis unfolding thread_start_def Let_def if_not_P [OF False] by (rule set_phase_inv)
qed

lemma thread_complete_alt:
  "thread_complete i result s =
     (let s' = s\<lparr>os_activeJobs := map_erase i (os_activeJobs s), os_executingJobs := size_sub (os_executingJobs s) 1,
        os_threads := map_erase i (os_threads s)\<rparr>
      in case map_of (os_activeJobs s) i of
           None \<Rightarrow> s'
         | Some entry \<Rightarrow>
           s'\<lparr>os_completedResults := map_emplace i result (os_completedResults s'),
              os_notifications := os_notifications s' @ [\<lparr>on_id = i, on_page = je_page entry\<rparr>],
              os_eventCounter := (if os_event s' \<ge> 0 then os_eventCounter s' + 1 else os_eventCounter s')\<rparr>)"
proof (cases "map_of (os_activeJobs s) i")
  case None
  then have "map_erase i (os_activeJobs s) = os_activeJobs s" by (intro erase_absent) (simp add: find_None_keys)
  with None show ?thesis by (simp add: thread_complete_def)
next
  case (Some entry)
  then show ?thesis by (simp add: thread_complete_def Let_def)
qed

lemma complete_inv:
  assumes inv: "ocr_inv limit n s epoch announced" and i: "i \<in> keys (os_threads s)"
  shows "ocr_inv limit (Suc n) (thread_complete i result s) epoch
    (if map_of (os_activeJobs s) i = None then announced else announced @ [i])"
proof -
  define s' where "s' = s\<lparr>os_activeJobs := map_erase i (os_activeJobs s), os_executingJobs := size_sub (os_executingJobs s) 1,
    os_threads := map_erase i (os_threads s)\<rparr>"
  from thread_ends [OF inv i s'_def] have inv': "ocr_inv limit (Suc n) s' epoch announced" and fresh: "i \<notin> reserved_ids s'"
      "unat i < unat (os_nextId s')" and room: "os_executingJobs s' + 1 + length (os_completedResults s') \<le> limit" by auto
  show ?thesis
  proof (cases "map_of (os_activeJobs s) i")
    case None
    with inv' show ?thesis by (simp add: thread_complete_alt Let_def s'_def)
  next
    case (Some entry)
    let ?s = "thread_complete i result s"
    have s: "?s = s'\<lparr>os_completedResults := map_emplace i result (os_completedResults s'),
        os_notifications := os_notifications s' @ [\<lparr>on_id = i, on_page = je_page entry\<rparr>],
        os_eventCounter := (if os_event s' \<ge> 0 then os_eventCounter s' + 1 else os_eventCounter s')\<rparr>"
      using Some by (simp add: thread_complete_alt Let_def s'_def)
    have "i \<in> keys (os_activeJobs s)" using Some by (rule find_in_keys)
    then have old: "i \<notin> set announced" "epoch \<le> unat i" using inv by (auto simp: ocr_inv_def history_inv_def)
    have "i \<notin> keys (os_activeJobs s')" by (simp add: s'_def std_map)
    then have "history_inv ?s epoch (announced @ [i])"
      using inv' old fresh unfolding ocr_inv_def history_inv_def s by (auto simp: std_map)
    moreover have "maps_inv ?s" "jobs_inv (Suc n) ?s" using inv' unfolding ocr_inv_def maps_inv_def jobs_inv_def s by simp_all
    moreover have "capacity_inv limit ?s" using inv' room unfolding ocr_inv_def capacity_inv_def s by (simp add: std_map)
    ultimately show ?thesis using Some by (simp add: ocr_inv_def)
  qed
qed

lemma drained_inv: "ocr_inv limit n s epoch announced \<Longrightarrow> ocr_inv limit (Suc n) (fst (drainNotifications s)) epoch announced"
  by (auto simp: ocr_inv_defs drainNotifications_def)

lemma taken_inv:
  assumes "ocr_inv limit n s epoch announced"
  shows "ocr_inv limit (Suc n) (fst (take_result i s)) epoch announced"
proof (cases "map_of (os_completedResults s) i")
  case None
  with assms show ?thesis by (simp add: take_result_def ocr_inv_def jobs_inv_Suc)
next
  case (Some v)
  then have s: "fst (take_result i s) = s\<lparr>os_completedResults := map_erase i (os_completedResults s)\<rparr>"
    by (simp add: take_result_def)
  have "length (map_erase i (os_completedResults s)) \<le> length (os_completedResults s)" by (rule length_erase_le)
  with assms show ?thesis unfolding s by (auto simp: ocr_inv_defs std_map simp del: length_erase)
qed

lemma keys_map_values [simp]: "keys (map (\<lambda>(k, v). (k, f k v)) m) = keys m"
  by (force simp: keys_def)

lemma map_wf_map_values [simp]: "map_wf (map (\<lambda>(k, v). (k, f k v)) m) = map_wf m"
proof -
  have "map fst (map (\<lambda>(k, v). (k, f k v)) m) = map fst m" by (induction m) auto
  then show ?thesis unfolding map_wf_def by (simp only:)
qed

lemma cancelled_inv:
  assumes "ocr_inv limit n s epoch announced"
  shows "ocr_inv limit (Suc n) (cancelAll s) (unat (os_nextId s)) announced"
  using assms by (auto simp: ocr_inv_defs cancelAll_def)

lemma ocr_run_inv:
  "ocr_run limit n s epoch announced \<Longrightarrow> limit < 2 ^ 64 \<Longrightarrow> n < 2 ^ 64 - 1 \<Longrightarrow> ocr_inv limit n s epoch announced"
proof (induction n s epoch announced rule: ocr_run.induct)
  case (start event)
  show ?case by (simp add: ocr_inv_defs OcrJobs_init_def)
next
  case (reserve n s epoch announced inputFd page s' shut r)
  then show ?case by (auto intro: reserve_inv)
next
  case (spawn n s epoch announced threadStarts s' shut r)
  then show ?case by (auto intro: spawn_inv)
next
  case (begun n s epoch announced i)
  then have "i \<in> keys (os_threads s)" by (intro phase_of_keys)
  with begun show ?case by (intro begun_inv) auto
next
  case (watchdog n s epoch announced i result)
  then show ?case by (auto intro: watchdog_inv)
next
  case (returned n s epoch announced i result)
  then show ?case by (auto simp: runner_return_def intro: set_phase_inv)
next
  case (joined n s epoch announced i result)
  then show ?case by (auto simp: join_watchdog_def intro: set_phase_inv)
next
  case (completed n s epoch announced i result)
  then have "i \<in> keys (os_threads s)" by (intro phase_of_keys)
  with completed show ?case by (intro complete_inv) auto
next
  case (drained n s epoch announced)
  then show ?case by (auto intro: drained_inv)
next
  case (taken n s epoch announced i)
  then show ?case by (auto intro: taken_inv)
next
  case (cancelled n s epoch announced)
  then show ?case by (auto intro: cancelled_inv)
next
  case (destroyed n s epoch announced)
  then have "ocr_inv limit (Suc n) (cancelAll s) (unat (os_nextId s)) announced" by (auto intro: cancelled_inv)
  then show ?case by (simp add: ocr_inv_defs OcrJobs_destroy_def)
qed

section \<open>Published results\<close>

definition whole_result :: "OcrResult \<Rightarrow> bool" where
  "whole_result r \<longleftrightarrow> (or_status r = Ocr_Cancelled \<longrightarrow> or_boxes r = [])"

definition results_inv :: "OcrState \<Rightarrow> bool" where
  "results_inv s \<longleftrightarrow> (\<forall>i r. map_of (os_completedResults s) i = Some r \<longrightarrow> whole_result r)
     \<and> (\<forall>i r. phase_of s i = Some (TP_Joined r) \<longrightarrow> whole_result r)"

lemma whole_classify: "whole_result (classify c r)"
  by (auto simp: whole_result_def classify_def)

lemma results_inv_set_phase:
  "results_inv s \<Longrightarrow> (\<And>r. p = TP_Joined r \<Longrightarrow> whole_result r) \<Longrightarrow> results_inv (set_phase i p s)"
  by (auto simp: results_inv_def set_phase_def find_modify split: if_splits)

lemma results_inv_complete:
  assumes "results_inv s" "phase_of s i = Some (TP_Joined r)"
  shows "results_inv (thread_complete i r s)"
proof -
  have "whole_result r" using assms by (auto simp: results_inv_def)
  with assms(1) show ?thesis
    by (auto simp: results_inv_def thread_complete_def Let_def find_erase find_emplace split: option.splits if_splits)
qed

lemma ocr_run_results: "ocr_run limit n s epoch announced \<Longrightarrow> results_inv s"
proof (induction n s epoch announced rule: ocr_run.induct)
  case (reserve n s epoch announced inputFd page s' shut r)
  then have "os_completedResults s' = os_completedResults s" "os_threads s' = os_threads s"
    by (auto simp: submit_reserve_def Let_def split: if_splits)
  with reserve.IH show ?case by (simp add: results_inv_def)
next
  case (spawn n s epoch announced threadStarts s' shut r)
  then have "os_completedResults s' = os_completedResults s"
    by (auto simp: submit_spawn_def split: if_splits option.splits)
  moreover have "phase_of s i = Some (TP_Joined p)" if "phase_of s' i = Some (TP_Joined p)" for i p
    using that spawn.hyps(2) by (auto simp: submit_spawn_def find_emplace split: if_splits option.splits)
  ultimately show ?case using spawn.IH by (simp add: results_inv_def) blast
next
  case (begun n s epoch announced i)
  then have "results_inv (s\<lparr>os_activeJobs := m, os_executingJobs := e\<rparr>)"
    "results_inv (s\<lparr>os_activeJobs := m\<rparr>)"
    "results_inv (s\<lparr>os_activeJobs := m, os_executingJobs := e, os_threads := map_erase i (os_threads s)\<rparr>)" for m e
    by (auto simp: results_inv_def find_erase split: if_splits)
  then show ?case by (auto simp: thread_start_def Let_def intro!: results_inv_set_phase)
next
  case (returned n s epoch announced i result)
  then show ?case by (auto simp: runner_return_def intro: results_inv_set_phase)
next
  case (joined n s epoch announced i result)
  then show ?case by (auto simp: join_watchdog_def whole_classify intro: results_inv_set_phase)
next
  case (completed n s epoch announced i result)
  then show ?case by (auto intro: results_inv_complete)
next
  case (taken n s epoch announced i)
  then show ?case by (auto simp: take_result_def results_inv_def find_erase split: option.splits if_splits)
qed (auto simp: results_inv_def OcrJobs_init_def watchdog_fire_def drainNotifications_def cancelAll_def OcrJobs_destroy_def)

section \<open>Properties\<close>

text \<open>
  Capacity: in every interleaving of submissions, job threads, watchdogs and cancellations, the executing-job
  counter is exactly the number of live threads (plus the submission in progress), and executing jobs
  together with results that wait to be taken never exceed the limit of the pool. Cancelled jobs keep their
  capacity until their thread ends.
\<close>

lemma ocr_capacity:
  assumes "ocr_run limit n s epoch announced" "limit < 2 ^ 64" "n < 2 ^ 64 - 1"
  shows "os_executingJobs s = length (os_threads s) + (if os_reserved s = None then 0 else 1)
    \<and> length (os_threads s) + length (os_completedResults s) \<le> limit"
  using ocr_run_inv [OF assms] by (auto simp: ocr_inv_def capacity_inv_def)

definition ocr_one :: OcrState where
  "ocr_one = \<lparr>os_activeJobs = [(1, \<lparr>je_id = 1, je_page = 4, je_status = JS_Queued\<rparr>)], os_executingJobs = 1,
     os_completedResults = [], os_notifications = [], os_event = 3, os_eventCounter = 0, os_nextId = 2,
     os_cookies = [(1, False)], os_threads = [(1, \<lparr>jt_fd = 9, jt_phase = TP_Created\<rparr>)], os_reserved = None\<rparr>"

lemma ocr_one_run: "ocr_run 8 2 ocr_one 1 []"
proof -
  obtain s shut r where res: "submit_reserve 8 9 4 (OcrJobs_init 3) = (s, shut, r)" by (metis prod_cases3)
  then have "submit_spawn True s = (ocr_one, [], Some 1)"
    by (auto simp: submit_reserve_def submit_spawn_def OcrJobs_init_def ocr_one_def Let_def map_emplace_def size_add_def)
  from ocr_run.spawn [OF ocr_run.reserve [OF ocr_run.start _ res] this] show ?thesis
    by (simp add: OcrJobs_init_def numeral_2_eq_2)
qed

text \<open>
  C29. No stale results: whatever the schedule, every registered job, stored result and queued notification
  belongs to a job that was submitted after the last cancellation; a job of a cancelled document can
  finish, and its result is dropped.
\<close>

theorem ocr_no_stale_results:
  assumes "ocr_run limit n s epoch announced" "limit < 2 ^ 64" "n < 2 ^ 64 - 1"
    and "i \<in> keys (os_activeJobs s) \<union> keys (os_completedResults s) \<union> on_id ` set (os_notifications s)"
  shows "epoch \<le> unat i \<and> unat i < unat (os_nextId s)"
proof -
  have h: "history_inv s epoch announced" and j: "jobs_inv n s"
    using ocr_run_inv [OF assms(1-3)] by (auto simp: ocr_inv_def)
  have "unat i < unat (os_nextId s)" if "i \<in> keys (os_activeJobs s)"
    using that j unfolding jobs_inv_def by blast
  with h assms(4) show ?thesis by (auto simp: history_inv_def)
qed

theorem ocr_no_stale_results_witness: "1 \<le> unat (1 :: u64) \<and> (1 :: u64) \<in> keys (os_activeJobs ocr_one)"
proof -
  have "(1 :: u64) \<in> keys (os_activeJobs ocr_one)" by (simp add: ocr_one_def keys_def)
  then show ?thesis using ocr_no_stale_results [OF ocr_one_run, of 1] by simp
qed

text \<open>
  Every completion is announced at most once over the life of the pool, an announced job is no longer
  registered, every stored result has been announced, and a result that can be taken never carries partial
  text of a cancelled recognition.
\<close>

lemma ocr_announced_once:
  assumes "ocr_run limit n s epoch announced" "limit < 2 ^ 64" "n < 2 ^ 64 - 1"
  shows "distinct announced \<and> set announced \<inter> keys (os_activeJobs s) = {}
    \<and> (case take_result i s of
         (s', Some r) \<Rightarrow> i \<in> set announced \<and> (or_status r = Ocr_Cancelled \<longrightarrow> or_boxes r = [])
           \<and> snd (take_result i s') = None
       | (s', None) \<Rightarrow> s' = s)"
proof -
  have h: "history_inv s epoch announced" using ocr_run_inv [OF assms] by (auto simp: ocr_inv_def)
  moreover have "results_inv s" using assms(1) by (rule ocr_run_results)
  ultimately show ?thesis
    by (auto simp: history_inv_def results_inv_def take_result_def whole_result_def find_erase
        split: option.splits dest: find_in_keys)
qed


definition ocr_returned :: OcrState where
  "ocr_returned = runner_return 1 \<lparr>or_status = Ocr_Success, or_boxes = []\<rparr> (watchdog_fire 1 (thread_start 1 ocr_one))"

lemma ocr_returned_run: "ocr_run 8 5 ocr_returned 1 []"
proof -
  have "phase_of ocr_one 1 = Some TP_Created" by (simp add: ocr_one_def)
  from ocr_run.begun [OF ocr_one_run this] have run3: "ocr_run 8 3 (thread_start 1 ocr_one) 1 []"
    by (simp add: eval_nat_numeral)
  have ph: "phase_of (thread_start 1 ocr_one) 1 = Some TP_Running"
    by (simp add: ocr_one_def thread_start_def set_phase_def map_modify_def)
  then have run4: "ocr_run 8 (Suc 3) (watchdog_fire 1 (thread_start 1 ocr_one)) 1 []"
    by (intro ocr_run.watchdog [OF run3] disjI1)
  have "phase_of (watchdog_fire 1 (thread_start 1 ocr_one)) 1 = Some TP_Running"
    using ph by (simp add: watchdog_fire_def)
  from ocr_run.returned [OF run4 this] show ?thesis by (simp add: ocr_returned_def)
qed


end
