(* ===== verification/Validation.thy ===== *)
theory Validation
  imports Export_Options
begin

text \<open>
  Request and response validation (\<^verbatim>\<open>src/shared/model/validation.cpp\<close>), in the source's order.
  Every validator that takes a \<open>reason\<close> pointer returns a verdict; the others return a bool.
  \<open>sizeof(Link)\<close>, which the charge of a link uses and which the compiler fixes, is an argument.
\<close>

unbundle bit_operations_syntax

section \<open>Helpers\<close>

definition readUint32 :: "u8 list \<Rightarrow> nat \<Rightarrow> u32" where
  "readUint32 png offset = push_bit 24 (ucast (png ! offset)) OR push_bit 16 (ucast (png ! (offset + 1)))
     OR push_bit 8 (ucast (png ! (offset + 2))) OR ucast (png ! (offset + 3))"

definition pngHeader :: "u8 list" where
  "pngHeader = [137, 80, 78, 71, 13, 10, 26, 10, 0, 0, 0, 13, 73, 72, 68, 82]"

definition isValidPngImage :: "u8 list \<Rightarrow> nat \<Rightarrow> nat \<Rightarrow> verdict" where
  "isValidPngImage png maxBytes maxDimension =
     (if png = [] then Valid
      else require (\<not> length png > maxBytes) ''PNG image exceeds byte limit''
          (require (\<not> (length png < 33 \<or> take 16 png \<noteq> pngHeader)) ''image is not a PNG with an IHDR header''
          (let width = readUint32 png 16; height = readUint32 png 20
           in require (\<not> (width = 0 \<or> height = 0 \<or> unat width > maxDimension \<or> unat height > maxDimension))
                ''PNG image dimensions exceed limit'' Valid)))"

definition isValidText :: "string \<Rightarrow> string \<Rightarrow> string \<Rightarrow> string \<Rightarrow> verdict" where
  "isValidText value tooLargeMessage invalidUtf8Message embeddedNulMessage =
     require (\<not> length value > MaxString) tooLargeMessage
    (require (isValidUtf8 value) invalidUtf8Message
    (require (hasNoEmbeddedNul value) embeddedNulMessage Valid))"

definition isValidHandle :: "string \<Rightarrow> string \<Rightarrow> string \<Rightarrow> verdict" where
  "isValidHandle handle field encodingMessage =
     require (\<not> (handle = [] \<or> length handle > MaxHandleBytes)) field
    (isValidText handle ''handle exceeds limit''
       (if encodingMessage = [] then ''handle contains invalid UTF-8'' else encodingMessage)
       (if encodingMessage = [] then ''handle contains embedded NUL'' else encodingMessage))"

section \<open>Geometry, transfers and settings\<close>

definition isValidNormalizedRect :: "NormalizedRect \<Rightarrow> bool" where
  "isValidNormalizedRect rect \<longleftrightarrow> fp_le (Fin 0) (nr_left rect) \<and> fp_le (Fin 0) (nr_top rect)
     \<and> fp_le (nr_right rect) (Fin 1) \<and> fp_le (nr_bottom rect) (Fin 1)
     \<and> fp_le (nr_left rect) (nr_right rect) \<and> fp_le (nr_top rect) (nr_bottom rect)"

definition isValidFileTransfer :: "FileTransfer \<Rightarrow> verdict" where
  "isValidFileTransfer transfer =
     require (ft_transferId transfer \<noteq> 0) ''file transfer identifier is zero'' Valid"

definition isValidExportRequest :: "ExportRequest \<Rightarrow> verdict" where
  "isValidExportRequest request =
     and_then (isValidFileTransfer (exq_output request))
    (and_then (isValidExportOptions (exq_options request))
    (require (if exq_asynchronous request
              then ft_transferId (exq_input request) \<noteq> 0
                \<and> ft_transferId (exq_input request) \<noteq> ft_transferId (exq_output request)
              else ft_transferId (exq_input request) = 0)
       ''invalid export descriptor transfers'' Valid))"

definition isValidDocumentSettings :: "DocumentSettings \<Rightarrow> verdict" where
  "isValidDocumentSettings settings =
     require (\<not> (ds_graphicsAntialiasing settings < 0
                \<or> ds_graphicsAntialiasing settings > MaxDocumentAntialiasing
                \<or> ds_textAntialiasing settings < 0 \<or> ds_textAntialiasing settings > MaxDocumentAntialiasing))
       ''antialiasing level is invalid''
    (require (\<not> ds_documentTheme settings > DocumentTheme_value DT_Dark) ''document theme is invalid''
    (require (\<not> (ds_imageQuality settings < 0 \<or> ds_imageQuality settings > MaxDocumentImageQuality))
       ''image quality is invalid''
    (require (\<not> (ds_memoryCacheBytes settings < MinDocumentMemoryCacheBytes
                \<or> ds_memoryCacheBytes settings > MaxDocumentMemoryCacheBytes)) ''memory cache size is invalid''
    (require (\<not> (ds_idleTrimAggressiveness settings < IdleTrimLevel_Off
                \<or> ds_idleTrimAggressiveness settings > IdleTrimLevel_Aggressive)) ''idle trim level is invalid''
    (require (\<not> (el_fontSize (ds_epub settings) < MinEpubFontSize
                \<or> el_fontSize (ds_epub settings) > MaxEpubFontSize)) ''EPUB font size is invalid''
    (require (\<not> el_pageSize (ds_epub settings) > EpubPageSize_value EPS_Letter) ''EPUB page size is invalid''
    (require (\<not> el_fontFamily (ds_epub settings) > EpubFontFamily_value EFF_Monospace)
       ''EPUB font family is invalid''
    (require (isValidEpubCustomCssBase64 (el_customCssBase64 (ds_epub settings)))
       ''EPUB custom CSS encoding is invalid'' Valid))))))))"

section \<open>Rendering, text extraction and OCR\<close>

definition isValidRenderDimensions :: "int \<Rightarrow> int \<Rightarrow> bool \<Rightarrow> bool" where
  "isValidRenderDimensions width height tiled \<longleftrightarrow>
     (let maximum = (if tiled then MaxTiledRenderDimension else MaxRenderDimension)
      in width > 0 \<and> height > 0 \<and> width \<le> maximum \<and> height \<le> maximum)"

definition isValidRenderTile :: "int \<Rightarrow> int \<Rightarrow> int \<Rightarrow> int \<Rightarrow> int \<Rightarrow> int \<Rightarrow> bool" where
  "isValidRenderTile imageWidth imageHeight tileX tileY tileWidth tileHeight \<longleftrightarrow>
     tileX \<ge> 0 \<and> tileY \<ge> 0 \<and> tileWidth > 0 \<and> tileHeight > 0 \<and> tileX \<le> imageWidth \<and> tileY \<le> imageHeight
     \<and> tileWidth \<le> imageWidth - tileX \<and> tileHeight \<le> imageHeight - tileY"

definition isValidDpi :: "fp \<Rightarrow> fp \<Rightarrow> bool" where
  "isValidDpi dpiX dpiY \<longleftrightarrow> fp_lt (Fin 0) dpiX \<and> fp_lt (Fin 0) dpiY
     \<and> fp_le dpiX (Fin MaxDpi) \<and> fp_le dpiY (Fin MaxDpi)"

definition isValidOcrDpi :: "fp \<Rightarrow> bool" where
  "isValidOcrDpi dpi \<longleftrightarrow> fp_le (Fin MinDpi) dpi \<and> fp_le dpi (Fin MaxDpi)"

definition link_ok :: "Link \<Rightarrow> bool" where
  "link_ok link \<longleftrightarrow> \<not> (\<not> isfinite (lk_left link) \<or> \<not> isfinite (lk_top link) \<or> \<not> isfinite (lk_right link)
     \<or> \<not> isfinite (lk_bottom link) \<or> fp_lt (lk_right link) (lk_left link) \<or> fp_lt (lk_bottom link) (lk_top link)
     \<or> length (rl_uri (lk_target link)) > MaxLinkStringBytes \<or> \<not> hasNoEmbeddedNul (rl_uri (lk_target link)))"

text \<open>The loop of \<open>isValidRenderLinks\<close>; \<open>bytes\<close> is the running charge.\<close>

fun render_links_loop :: "nat \<Rightarrow> nat \<Rightarrow> Link list \<Rightarrow> bool" where
  "render_links_loop sizeofLink bytes [] = True"
| "render_links_loop sizeofLink bytes (link # links) =
     (if \<not> link_ok link then False
      else let charge = size_add sizeofLink (length (rl_uri (lk_target link)))
           in if charge > size_sub MaxAggregateMetadataBytes bytes then False
              else render_links_loop sizeofLink (size_add bytes charge) links)"

definition isValidRenderLinks :: "nat \<Rightarrow> RenderLinks \<Rightarrow> bool" where
  "isValidRenderLinks sizeofLink metadata \<longleftrightarrow>
     \<not> (rls_generation metadata = 0 \<or> length (rls_links metadata) > MaxPageLinks
        \<or> length (rls_error metadata) > MaxLinkStringBytes)
     \<and> render_links_loop sizeofLink 0 (rls_links metadata)"

definition isValidResolveLinkRequest :: "ResolveLinkRequest \<Rightarrow> verdict" where
  "isValidResolveLinkRequest request =
     require (\<not> (rlq_generation request = 0 \<or> rlq_uri request = [] \<or> length (rlq_uri request) > MaxLinkStringBytes
        \<or> \<not> hasNoEmbeddedNul (rlq_uri request))) ''invalid named destination'' Valid"

definition isValidRenderRequest :: "RenderRequest \<Rightarrow> verdict" where
  "isValidRenderRequest request =
     require (\<not> (rr_includeLinks request \<and> rr_generation request = 0)) ''render link generation is zero''
    (require (\<not> rr_page request < 0) ''render page index is negative''
    (require (case rr_tile request of
                Some _ \<Rightarrow> rr_width request > 0 \<and> rr_height request > 0
                  \<and> rr_width request < INT_MAX \<and> rr_height request < INT_MAX
              | None \<Rightarrow> isValidRenderDimensions (rr_width request) (rr_height request) False)
       ''render dimensions are invalid''
    (case rr_tile request of
       None \<Rightarrow> Valid
     | Some tile \<Rightarrow>
         require (\<not> (rt_x tile \<ge> rr_width request \<or> rt_y tile \<ge> rr_height request
            \<or> \<not> isValidRenderTile (rr_width request + 1) (rr_height request + 1) (rt_x tile) (rt_y tile)
                  (rt_width tile) (rt_height tile))) ''render tile is outside the image'' Valid)))"

definition isValidTextBoxesRequest :: "TextBoxesRequest \<Rightarrow> verdict" where
  "isValidTextBoxesRequest request =
     require (\<not> tbq_page request < 0) ''text-box page index is negative''
    (require (isValidDpi (tbq_dpiX request) (tbq_dpiY request)) ''text-box DPI is invalid'' Valid)"

definition isValidOcrPageRequest :: "OcrPageRequest \<Rightarrow> verdict" where
  "isValidOcrPageRequest request =
     and_then (isValidFileTransfer (ocp_file request))
    (require (\<not> ocp_page request < 0) ''OCR page index is negative''
    (require (isValidOcrDpi (Fin (of_int (float_of_i32 (ocp_dpi request))))) ''OCR DPI is invalid''
    (isValidText (ocp_language request) ''OCR language exceeds limit''
       ''OCR language contains invalid UTF-8'' ''OCR language contains embedded NUL'')))"

section \<open>Annotations\<close>

text \<open>
  \<open>isValidAnnotationExtensionValue\<close> threads the entry counter by reference: the result is the verdict
  and the counter after the call. The three functions are the source function and its two loops.
\<close>

fun isValidAnnotationExtensionValue :: "Value \<Rightarrow> nat \<Rightarrow> nat \<Rightarrow> bool \<times> nat"
  and extension_array_loop :: "Value list \<Rightarrow> nat \<Rightarrow> nat \<Rightarrow> bool \<times> nat"
  and extension_object_loop :: "(string \<times> Value) list \<Rightarrow> nat \<Rightarrow> nat \<Rightarrow> bool \<times> nat" where
  "isValidAnnotationExtensionValue value depth entries =
     (if depth > MaxAnnotationExtensionDepth then (False, entries)
      else if entries + 1 > MaxAnnotationExtensionEntries then (False, entries + 1)
      else case value of
          VDouble number \<Rightarrow> (isfinite number, entries + 1)
        | VArray items \<Rightarrow> extension_array_loop items (depth + 1) (entries + 1)
        | VObject object \<Rightarrow> extension_object_loop object (depth + 1) (entries + 1)
        | _ \<Rightarrow> (True, entries + 1))"
| "extension_array_loop [] depth entries = (True, entries)"
| "extension_array_loop (item # items) depth entries =
     (case isValidAnnotationExtensionValue item depth entries of
        (False, entries') \<Rightarrow> (False, entries')
      | (True, entries') \<Rightarrow> extension_array_loop items depth entries')"
| "extension_object_loop [] depth entries = (True, entries)"
| "extension_object_loop ((key, item) # object) depth entries =
     (if key = [] then (False, entries)
      else case isValidAnnotationExtensionValue item depth entries of
        (False, entries') \<Rightarrow> (False, entries')
      | (True, entries') \<Rightarrow> extension_object_loop object depth entries')"

declare isValidAnnotationExtensionValue.simps [simp del]

definition isValidAnnotationExtension :: "(string \<times> Value) list \<Rightarrow> bool" where
  "isValidAnnotationExtension extension = fst (extension_object_loop extension 1 1)"

text \<open>The ink-point loop of \<open>isValidAnnotation\<close>: \<open>None\<close> when the point budget is exceeded.\<close>

fun ink_points_loop :: "nat \<Rightarrow> Point list list \<Rightarrow> nat option" where
  "ink_points_loop inkPoints [] = Some inkPoints"
| "ink_points_loop inkPoints (path # paths) =
     (if length path > size_sub MaxAnnotationInkPoints inkPoints then None
      else ink_points_loop (size_add inkPoints (length path)) paths)"

definition isValidAnnotation :: "Annotation \<Rightarrow> verdict" where
  "isValidAnnotation annotation =
     and_then
       (case ax_stampImage (an_extras annotation) of
          None \<Rightarrow> Valid
        | Some stampImage \<Rightarrow>
            require (an_subtype annotation = AT_Stamp) ''bitmap payload is only valid for stamp annotations''
              (isValidPngImage stampImage MaxStampImageBytes MaxStampImageDimension))
    (require (isValidUtf8 (an_contents annotation) \<and> isValidUtf8 (an_author annotation)
         \<and> isValidUtf8 (an_uuid annotation)) ''annotation contains invalid UTF-8 string''
    (require (hasNoEmbeddedNul (an_contents annotation) \<and> hasNoEmbeddedNul (an_author annotation)
         \<and> hasNoEmbeddedNul (an_uuid annotation) \<and> hasNoEmbeddedNul (an_handle annotation))
       ''annotation string contains embedded NUL''
    (require (\<not> length (ax_points (an_extras annotation)) > MaxAnnotationPoints)
       ''annotation points count exceeds limit''
    (require (\<not> length (ax_quads (an_extras annotation)) > MaxAnnotationQuads)
       ''annotation quads count exceeds limit''
    (require (\<not> length (ax_inkPaths (an_extras annotation)) > MaxAnnotationInkPaths)
       ''annotation ink paths count exceeds limit''
    (require (ink_points_loop 0 (ax_inkPaths (an_extras annotation)) \<noteq> None)
       ''annotation ink points count exceeds limit''
    (require (\<not> length (ax_callout (an_extras annotation)) > MaxAnnotationCalloutPoints)
       ''annotation callout points count exceeds limit''
    (require (isValidAnnotationExtension (ax_extension (an_extras annotation)))
       ''annotation extension is invalid''
     Valid))))))))"

definition isValidAnnotationAddRequest :: "AnnotationAddRequest \<Rightarrow> verdict" where
  "isValidAnnotationAddRequest request =
     require (\<not> aar_page request < 0) ''annotation page index is negative''
       (isValidAnnotation (aar_annotation request))"

definition isValidAnnotationModifyRequest :: "AnnotationModifyRequest \<Rightarrow> verdict" where
  "isValidAnnotationModifyRequest request =
     require (\<not> am_page (amr_mutation request) < 0) ''annotation page index is negative''
    (and_then (isValidHandle (ah_value (am_handle (amr_mutation request)))
                 ''annotation handle is empty or too large'' [])
       (isValidAnnotation (am_annotation (amr_mutation request))))"

definition isValidAnnotationRemoveRequest :: "AnnotationRemoveRequest \<Rightarrow> verdict" where
  "isValidAnnotationRemoveRequest request =
     require (\<not> arr_page request < 0) ''annotation page index is negative''
       (isValidHandle (ah_value (arr_handle request)) ''annotation handle is empty or too large'' [])"

section \<open>Forms\<close>

text \<open>The loop over the strings of a field: the first string that fails decides the diagnostic.\<close>

fun form_strings_loop :: "string list \<Rightarrow> verdict" where
  "form_strings_loop [] = Valid"
| "form_strings_loop (s # ss) =
     require (isValidUtf8 s) ''form field contains invalid UTF-8 string''
    (require (hasNoEmbeddedNul s) ''form field contains string with embedded NUL byte''
    (form_strings_loop ss))"

definition form_string_ok :: "string \<Rightarrow> bool" where
  "form_string_ok s \<longleftrightarrow> isValidUtf8 s \<and> hasNoEmbeddedNul s \<and> length s \<le> MaxFormFieldStringBytes"

definition isValidFormField :: "FormField \<Rightarrow> verdict" where
  "isValidFormField field =
     require (\<not> ff_page field < 0) ''form field page index is negative''
    (require (ff_handle field \<noteq> []) ''form field handle is empty''
    (require (\<not> length (ff_handle field) > MaxFormFieldHandleBytes) ''form field handle exceeds limit''
    (require (isValidUtf8 (ff_handle field) \<and> hasNoEmbeddedNul (ff_handle field))
       ''form field handle contains invalid UTF-8 or embedded NUL''
    (require (isValidNormalizedRect (ff_rectangle field)) ''form field rectangle is invalid''
    (and_then (form_strings_loop [ff_partialName field, ff_uiName field, ff_fullyQualifiedName field,
         ff_groupName field, ff_text field, ff_onState field, ff_formatHint field])
    (require (\<not> (length (ff_partialName field) > MaxFormNameBytes
         \<or> length (ff_fullyQualifiedName field) > MaxFormNameBytes
         \<or> length (ff_groupName field) > MaxFormNameBytes)) ''form field name exceeds limit''
    (require (\<not> length (ff_uiName field) > MaxFormFieldStringBytes) ''form field label exceeds limit''
    (require (\<not> length (ff_text field) > MaxFormFieldStringBytes) ''form field text exceeds limit''
    (require (\<not> length (ff_formatHint field) > MaxFormFormatHintBytes) ''form field format hint exceeds limit''
    (require (\<not> length (ff_choices field) > MaxFormChoices) ''form field choices count exceeds limit''
    (require (\<not> (ff_exportValues field \<noteq> [] \<and> length (ff_exportValues field) \<noteq> length (ff_choices field)))
       ''form field export values count does not match choices count''
    (require (list_all form_string_ok (ff_choices field)) ''form field choice string is invalid''
    (require (list_all form_string_ok (ff_exportValues field)) ''form field export value string is invalid''
    (require (\<not> length (ff_currentChoices field) > MaxFormSelectedIndices)
       ''form field selected choices count exceeds limit''
    (require (\<not> list_ex (\<lambda>idx. idx < 0 \<or> (ff_choices field \<noteq> [] \<and> nat idx \<ge> length (ff_choices field)))
         (ff_currentChoices field)) ''form field choice index out of bounds''
    (require (\<not> (\<not> ff_multiSelect field \<and> length (ff_currentChoices field) > 1))
       ''multiple choices selected on single-select field''
    (require (\<not> (ff_type field = FFT_Text \<and> ff_maximumLength field < 0)) ''negative text maximum length''
     Valid)))))))))))))))))"

fun isValidFormValue :: "FormValue \<Rightarrow> verdict" where
  "isValidFormValue (FormTextValue text) = require (form_string_ok text) ''invalid form text value'' Valid"
| "isValidFormValue (FormCheckValue checked) = Valid"
| "isValidFormValue (FormChoiceSelection selectedIndices) =
     require (\<not> length selectedIndices > MaxFormSelectedIndices) ''selected indices count exceeds limit''
    (require (\<not> list_ex (\<lambda>idx. idx < 0) selectedIndices) ''negative choice index'' Valid)"
| "isValidFormValue (FormChoiceCustomText text) =
     require (form_string_ok text) ''invalid form choice custom text'' Valid"

definition isValidFormUpdateRequest :: "FormUpdateRequest \<Rightarrow> verdict" where
  "isValidFormUpdateRequest request =
     and_then (isValidHandle (fu_handle request) ''invalid form update handle length''
                 ''invalid form update handle encoding'')
       (isValidFormValue (fu_value request))"

definition isValidFormResetRequest :: "FormResetRequest \<Rightarrow> verdict" where
  "isValidFormResetRequest request =
     isValidHandle (fr_handle request) ''invalid form reset handle length''
       ''invalid form reset handle encoding''"

definition isValidFormButtonClickRequest :: "FormButtonClickRequest \<Rightarrow> verdict" where
  "isValidFormButtonClickRequest request =
     isValidHandle (fb_handle request) ''invalid form button handle length''
       ''invalid form button handle encoding''"

section \<open>Layers and signatures\<close>

text \<open>The loop of \<open>isValidLayersResponse\<close> at index \<open>i\<close>.\<close>

fun layers_loop :: "nat \<Rightarrow> nat \<Rightarrow> int \<Rightarrow> LayerEntry list \<Rightarrow> bool" where
  "layers_loop i textBytes previousDepth [] = True"
| "layers_loop i textBytes previousDepth (entry # entries) =
     (if le_id entry \<noteq> int i \<or> le_depth entry < 0 \<or> le_depth entry > MaxLayerDepth
         \<or> le_depth entry > previousDepth + 1 \<or> length (le_name entry) > MaxLayerNameBytes
         \<or> \<not> hasNoEmbeddedNul (le_name entry)
         \<or> (le_type entry \<noteq> LayerType_value LT_Label \<and> le_type entry \<noteq> LayerType_value LT_CheckBox
            \<and> le_type entry \<noteq> LayerType_value LT_RadioButton)
      then False
      else let textBytes' = size_add textBytes (length (le_name entry))
           in if textBytes' > MaxLayerTextBytes then False
              else layers_loop (i + 1) textBytes' (le_depth entry) entries)"

definition isValidLayersResponse :: "LayersResponse \<Rightarrow> bool" where
  "isValidLayersResponse response \<longleftrightarrow>
     \<not> (lys_generation response = 0 \<or> length (lys_entries response) > MaxLayerEntries)
     \<and> layers_loop 0 0 (- 1) (lys_entries response)"

definition isValidSignatureEmblemImage :: "u8 list \<Rightarrow> verdict" where
  "isValidSignatureEmblemImage png =
     isValidPngImage png MaxSignatureEmblemBytes MaxSignatureEmblemDimension"

definition isValidSignRequest :: "SignRequest \<Rightarrow> verdict" where
  "isValidSignRequest request =
     and_then (isValidFileTransfer (sg_file request))
    (require (\<not> sg_page request < 0) ''signing page index is negative''
    (require (\<not> (sg_existingFieldObjectNumber request < 0 \<and> \<not> isValidNormalizedRect (sg_rectangle request)))
       ''signing rectangle is invalid''
    (and_then (isValidSignatureEmblemImage (sa_emblemImage (sg_appearance request)))
    (require (\<not> (sa_emblemImage (sg_appearance request) \<noteq> []
         \<and> sa_elements (sg_appearance request) AND SignatureElement_value SE_Logo \<noteq> 0))
       ''signature appearance contains both native and custom emblems''
    (require (sa_elements (sg_appearance request) AND NOT SignatureElementDefault = 0)
       ''signing appearance contains unknown elements''
    (and_then (isValidText (sg_certificateNickname request) ''certificate nickname exceeds limit''
         ''certificate nickname contains invalid UTF-8'' ''certificate nickname contains embedded NUL'')
    (and_then (isValidText (sg_certificateSubjectCommonName request) ''certificate subject exceeds limit''
         ''certificate subject contains invalid UTF-8'' ''certificate subject contains embedded NUL'')
    (and_then (isValidText (sa_reason (sg_appearance request)) ''signature reason exceeds limit''
         ''signature reason contains invalid UTF-8'' ''signature reason contains embedded NUL'')
    (and_then (isValidText (sa_location (sg_appearance request)) ''signature location exceeds limit''
         ''signature location contains invalid UTF-8'' ''signature location contains embedded NUL'')
    (isValidText (sa_signingDisplayDate (sg_appearance request)) ''signature date exceeds limit''
         ''signature date contains invalid UTF-8'' ''signature date contains embedded NUL''))))))))))"

end
