(* ===== verification/Validation_Laws.thy ===== *)
theory Validation_Laws
  imports Validation
begin

text \<open>
  What the validators guarantee. Each loop of \<^verbatim>\<open>src/shared/model/validation.cpp\<close> that carries
  a running budget is shown equivalent to a statement about the whole input, and each accepted request is
  shown to satisfy the bounds its consumers rely on.
\<close>

unbundle bit_operations_syntax

section \<open>Recursive extension values\<close>

fun value_count :: "Value \<Rightarrow> nat" where
  "value_count (VArray items) = Suc (sum_list (map value_count items))"
| "value_count (VObject object) = Suc (sum_list (map (\<lambda>(k, v). value_count v) object))"
| "value_count _ = 1"

fun value_height :: "Value \<Rightarrow> nat" where
  "value_height (VArray items) = foldr (\<lambda>v m. max (Suc (value_height v)) m) items 0"
| "value_height (VObject object) = foldr (\<lambda>(k, v) m. max (Suc (value_height v)) m) object 0"
| "value_height _ = 0"

fun value_wf :: "Value \<Rightarrow> bool" where
  "value_wf (VDouble d) = isfinite d"
| "value_wf (VArray items) = list_all value_wf items"
| "value_wf (VObject object) = list_all (\<lambda>(k, v). k \<noteq> [] \<and> value_wf v) object"
| "value_wf _ = True"

definition ext_accepts :: "Value \<Rightarrow> nat \<Rightarrow> nat \<Rightarrow> bool" where
  "ext_accepts v d e \<longleftrightarrow> d + value_height v \<le> MaxAnnotationExtensionDepth
     \<and> e + value_count v \<le> MaxAnnotationExtensionEntries \<and> value_wf v"

lemma foldr_max_le:
  "d + foldr (\<lambda>v m. max (Suc (h v)) m) xs 0 \<le> M \<longleftrightarrow> d \<le> M \<and> (\<forall>v\<in>set xs. Suc d + h v \<le> (M :: nat))"
  by (induction xs) (auto simp: max_def)

lemma value_height_object:
  "value_height (VObject object) = foldr (\<lambda>kv m. max (Suc (value_height (snd kv))) m) object 0"
  by (simp add: case_prod_beta')

lemma extension_loops:
  "isValidAnnotationExtensionValue v d e = (b, e') \<Longrightarrow>
     b = ext_accepts v d e \<and> (b \<longrightarrow> e' = e + value_count v)"
  "extension_array_loop vs d e = (b, e') \<Longrightarrow> e \<le> MaxAnnotationExtensionEntries \<Longrightarrow>
     b = ((\<forall>v\<in>set vs. d + value_height v \<le> MaxAnnotationExtensionDepth \<and> value_wf v)
          \<and> e + sum_list (map value_count vs) \<le> MaxAnnotationExtensionEntries)
     \<and> (b \<longrightarrow> e' = e + sum_list (map value_count vs))"
  "extension_object_loop kvs d e = (b, e') \<Longrightarrow> e \<le> MaxAnnotationExtensionEntries \<Longrightarrow>
     b = ((\<forall>kv\<in>set kvs. fst kv \<noteq> [] \<and> d + value_height (snd kv) \<le> MaxAnnotationExtensionDepth
             \<and> value_wf (snd kv))
          \<and> e + sum_list (map (\<lambda>kv. value_count (snd kv)) kvs) \<le> MaxAnnotationExtensionEntries)
     \<and> (b \<longrightarrow> e' = e + sum_list (map (\<lambda>kv. value_count (snd kv)) kvs))"
proof (induction v d e and vs d e and kvs d e arbitrary: b e' and b e' and b e'
    rule: isValidAnnotationExtensionValue_extension_array_loop_extension_object_loop.induct)
  case (1 v depth entries)
  show ?case
  proof (cases "depth \<le> MaxAnnotationExtensionDepth \<and> entries + 1 \<le> MaxAnnotationExtensionEntries")
    case False
    moreover have "0 < value_count v" by (cases v) simp_all
    ultimately show ?thesis
      using "1.prems" by (auto simp: ext_accepts_def isValidAnnotationExtensionValue.simps split: if_splits)
  next
    case True
    with "1.prems" have eq: "(case v of
          VDouble number \<Rightarrow> (isfinite number, entries + 1)
        | VArray items \<Rightarrow> extension_array_loop items (depth + 1) (entries + 1)
        | VObject object \<Rightarrow> extension_object_loop object (depth + 1) (entries + 1)
        | _ \<Rightarrow> (True, entries + 1)) = (b, e')"
      by (simp add: isValidAnnotationExtensionValue.simps)
    show ?thesis
    proof (cases v)
      case (VArray items)
      with eq True "1.IH"(1) [of items b e'] show ?thesis
        by (simp add: ext_accepts_def foldr_max_le list_all_iff del: foldr.simps) blast
    next
      case (VObject object)
      with eq True "1.IH"(2) [of object b e'] show ?thesis
        by (simp add: ext_accepts_def value_height_object foldr_max_le list_all_iff case_prod_beta'
            del: foldr.simps value_height.simps) blast
    qed (use eq True in \<open>auto simp: ext_accepts_def\<close>)
  qed
next
  case (2 depth entries)
  then show ?case by auto
next
  case (3 item items depth entries)
  show ?case
  proof (cases "isValidAnnotationExtensionValue item depth entries")
    case (Pair b1 e1)
    from "3.IH"(1) [OF Pair] have item: "b1 = ext_accepts item depth entries"
      "b1 \<longrightarrow> e1 = entries + value_count item" by auto
    show ?thesis
    proof (cases b1)
      case False
      with Pair "3.prems" item show ?thesis by (auto simp: ext_accepts_def)
    next
      case True
      with Pair "3.prems" item "3.IH"(2) [OF Pair [symmetric], of b e'] show ?thesis
        by (auto simp: ext_accepts_def)
    qed
  qed
next
  case (4 depth entries)
  then show ?case by auto
next
  case (5 key item object depth entries)
  show ?case
  proof (cases "key = []")
    case True
    with "5.prems" show ?thesis by auto
  next
    case key: False
    show ?thesis
    proof (cases "isValidAnnotationExtensionValue item depth entries")
      case (Pair b1 e1)
      from "5.IH"(1) [OF key Pair] have item: "b1 = ext_accepts item depth entries"
        "b1 \<longrightarrow> e1 = entries + value_count item" by auto
      show ?thesis
      proof (cases b1)
        case False
        with key Pair "5.prems" item show ?thesis by (auto simp: ext_accepts_def)
      next
        case True
        with key Pair "5.prems" item "5.IH"(2) [OF key Pair [symmetric], of b e'] show ?thesis
          by (auto simp: ext_accepts_def)
      qed
    qed
  qed
qed

lemma isValidAnnotationExtension_iff:
  "isValidAnnotationExtension ext \<longleftrightarrow>
     value_wf (VObject ext) \<and> value_height (VObject ext) \<le> MaxAnnotationExtensionDepth
     \<and> value_count (VObject ext) \<le> MaxAnnotationExtensionEntries"
proof -
  obtain b e' where eq: "extension_object_loop ext 1 1 = (b, e')" by fastforce
  from extension_loops(3) [OF this] have "b \<longleftrightarrow>
      (\<forall>kv\<in>set ext. fst kv \<noteq> [] \<and> 1 + value_height (snd kv) \<le> MaxAnnotationExtensionDepth \<and> value_wf (snd kv))
      \<and> 1 + sum_list (map (\<lambda>kv. value_count (snd kv)) ext) \<le> MaxAnnotationExtensionEntries"
    by (simp add: limits)
  then show ?thesis
    using foldr_max_le [of 0 "\<lambda>kv. value_height (snd kv)" ext MaxAnnotationExtensionDepth]
    unfolding isValidAnnotationExtension_def eq value_height_object
    by (auto simp: list_all_iff case_prod_beta')
qed

section \<open>Running budgets\<close>

lemma render_links_loop_iff:
  "bytes \<le> MaxAggregateMetadataBytes \<Longrightarrow> sizeofLink < 2 ^ 32 \<Longrightarrow>
     render_links_loop sizeofLink bytes links \<longleftrightarrow> (\<forall>link\<in>set links. link_ok link)
       \<and> bytes + sum_list (map (\<lambda>link. sizeofLink + length (rl_uri (lk_target link))) links)
         \<le> MaxAggregateMetadataBytes"
proof (induction links arbitrary: bytes)
  case Nil
  then show ?case by simp
next
  case (Cons link links)
  let ?charge = "sizeofLink + length (rl_uri (lk_target link))"
  show ?case
  proof (cases "link_ok link")
    case True
    then have "length (rl_uri (lk_target link)) \<le> MaxLinkStringBytes" by (simp add: link_ok_def)
    then have charge: "size_add sizeofLink (length (rl_uri (lk_target link))) = ?charge"
      using Cons.prems(2) by (intro size_add_exact) (simp add: limits)
    show ?thesis
    proof (cases "?charge \<le> MaxAggregateMetadataBytes - bytes")
      case fits: True
      have "size_add bytes ?charge = bytes + ?charge"
        using fits Cons.prems by (intro size_add_exact) (simp add: limits)
      moreover have "bytes + ?charge \<le> MaxAggregateMetadataBytes" using fits Cons.prems by simp
      ultimately show ?thesis
        using True charge fits Cons.prems Cons.IH [of "bytes + ?charge"] by (simp add: add.assoc)
    next
      case False
      then have "MaxAggregateMetadataBytes < bytes + ?charge" using Cons.prems by linarith
      with False True charge Cons.prems show ?thesis by simp
    qed
  next
    case False
    then show ?thesis by simp
  qed
qed

lemma ink_points_loop_iff:
  "n \<le> MaxAnnotationInkPoints \<Longrightarrow>
     ink_points_loop n paths =
       (if n + sum_list (map length paths) \<le> MaxAnnotationInkPoints
        then Some (n + sum_list (map length paths)) else None)"
proof (induction paths arbitrary: n)
  case Nil
  then show ?case by simp
next
  case (Cons path paths)
  show ?case
  proof (cases "length path \<le> MaxAnnotationInkPoints - n")
    case True
    then have "size_add n (length path) = n + length path"
      using Cons.prems by (intro size_add_exact) (simp add: limits)
    with True Cons show ?thesis by (simp add: add.assoc)
  next
    case False
    with Cons.prems show ?thesis by simp
  qed
qed

definition layer_ok :: "nat \<Rightarrow> LayerEntry \<Rightarrow> bool" where
  "layer_ok i entry \<longleftrightarrow> le_id entry = int i \<and> 0 \<le> le_depth entry \<and> le_depth entry \<le> MaxLayerDepth
     \<and> length (le_name entry) \<le> MaxLayerNameBytes \<and> hasNoEmbeddedNul (le_name entry)
     \<and> (\<exists>t. le_type entry = LayerType_value t)"

text \<open>The depths form a pre-order walk of a forest: a step goes down at most one level.\<close>

fun depth_walk :: "int \<Rightarrow> LayerEntry list \<Rightarrow> bool" where
  "depth_walk previous [] = True"
| "depth_walk previous (entry # entries) = (le_depth entry \<le> previous + 1 \<and> depth_walk (le_depth entry) entries)"

lemma layer_type_iff: "(\<exists>t. x = LayerType_value t) \<longleftrightarrow>
    x = LayerType_value LT_Label \<or> x = LayerType_value LT_CheckBox \<or> x = LayerType_value LT_RadioButton"
  by (metis LayerType.exhaust)

lemma layers_loop_Cons:
  "layers_loop i textBytes previous (entry # entries) \<longleftrightarrow> layer_ok i entry \<and> le_depth entry \<le> previous + 1
     \<and> size_add textBytes (length (le_name entry)) \<le> MaxLayerTextBytes
     \<and> layers_loop (i + 1) (size_add textBytes (length (le_name entry))) (le_depth entry) entries"
  by (auto simp: layer_ok_def layer_type_iff Let_def not_le)

lemma layers_loop_iff:
  "textBytes \<le> MaxLayerTextBytes \<Longrightarrow>
     layers_loop i textBytes previous entries \<longleftrightarrow>
       (\<forall>k < length entries. layer_ok (i + k) (entries ! k)) \<and> depth_walk previous entries
       \<and> textBytes + sum_list (map (\<lambda>entry. length (le_name entry)) entries) \<le> MaxLayerTextBytes"
proof (induction entries arbitrary: i textBytes previous)
  case Nil
  then show ?case by simp
next
  case (Cons entry entries)
  let ?n = "length (le_name entry)"
  have split: "(\<forall>k < length (entry # entries). layer_ok (i + k) ((entry # entries) ! k)) \<longleftrightarrow>
      layer_ok i entry \<and> (\<forall>k < length entries. layer_ok (Suc i + k) (entries ! k))"
    by (auto simp: less_Suc_eq_0_disj)
  show ?case
  proof (cases "layer_ok i entry \<and> le_depth entry \<le> previous + 1")
    case True
    then have n: "?n \<le> MaxLayerNameBytes" by (simp add: layer_ok_def)
    then have "size_add textBytes ?n = textBytes + ?n"
      using Cons.prems by (intro size_add_exact) (simp add: limits)
    with True Cons.IH [of "textBytes + ?n" "Suc i" "le_depth entry"] show ?thesis
      unfolding split layers_loop_Cons by (cases "textBytes + ?n \<le> MaxLayerTextBytes") auto
  next
    case False
    then show ?thesis unfolding split layers_loop_Cons by auto
  qed
qed

section \<open>Images\<close>

lemma readUint32_value:
  "unat (readUint32 p k) = 16777216 * unat (p ! k) + 65536 * unat (p ! (k + 1)) + 256 * unat (p ! (k + 2))
     + unat (p ! (k + 3))" (is "_ = ?v")
proof -
  let ?a = "push_bit 24 (ucast (p ! k)) :: u32" and ?b = "push_bit 16 (ucast (p ! (k + 1))) :: u32"
    and ?c = "push_bit 8 (ucast (p ! (k + 2))) :: u32" and ?d = "ucast (p ! (k + 3)) :: u32"
  have byte: "n < 8" if "bit (b :: u8) n" for b n
    using bit_imp_le_length [OF that] by simp
  have "?c + ?d = ?c OR ?d"
    by (rule disjunctive_add_eq_or) (auto simp: bit_eq_iff bit_simps dest!: byte)
  moreover have "?b + (?c OR ?d) = ?b OR (?c OR ?d)"
    by (rule disjunctive_add_eq_or) (auto simp: bit_eq_iff bit_simps dest!: byte)
  moreover have "?a + (?b OR (?c OR ?d)) = ?a OR (?b OR (?c OR ?d))"
    by (rule disjunctive_add_eq_or) (auto simp: bit_eq_iff bit_simps dest!: byte)
  ultimately have "readUint32 p k = ?a + (?b + (?c + ?d))"
    unfolding readUint32_def or.assoc by simp
  also have "\<dots> = of_nat ?v"
    by (simp add: push_bit_eq_mult)
  finally have "readUint32 p k = of_nat ?v" .
  moreover have "?v < 2 ^ 32"
    using unat_u8_lt [of "p ! k"] unat_u8_lt [of "p ! (k + 1)"] unat_u8_lt [of "p ! (k + 2)"]
      unat_u8_lt [of "p ! (k + 3)"] by (simp del: unat_u8_lt)
  ultimately show ?thesis by (simp only: unat_of_nat) simp
qed

lemma isValidPngImage_iff:
  "isValidPngImage png maxBytes maxDimension = Valid \<longleftrightarrow> png = [] \<or>
     (length png \<le> maxBytes \<and> 33 \<le> length png \<and> take 16 png = pngHeader
      \<and> readUint32 png 16 \<noteq> 0 \<and> unat (readUint32 png 16) \<le> maxDimension
      \<and> readUint32 png 20 \<noteq> 0 \<and> unat (readUint32 png 20) \<le> maxDimension)"
  by (auto simp: isValidPngImage_def verdict_simps Let_def)

section \<open>Accepted values\<close>

lemma isValidText_iff:
  "isValidText s a b c = Valid \<longleftrightarrow> length s \<le> MaxString \<and> isValidUtf8 s \<and> hasNoEmbeddedNul s"
  by (auto simp: isValidText_def verdict_simps)

lemma isValidHandle_iff:
  "isValidHandle s a b = Valid \<longleftrightarrow>
     s \<noteq> [] \<and> length s \<le> MaxHandleBytes \<and> isValidUtf8 s \<and> hasNoEmbeddedNul s"
  by (auto simp: isValidHandle_def isValidText_iff verdict_simps limits)

lemma isValidFileTransfer_iff: "isValidFileTransfer t = Valid \<longleftrightarrow> ft_transferId t \<noteq> 0"
  by (simp add: isValidFileTransfer_def verdict_simps)

lemma isValidNormalizedRect_iff:
  "isValidNormalizedRect rect \<longleftrightarrow>
     (\<exists>l t r b. nr_left rect = Fin l \<and> nr_top rect = Fin t \<and> nr_right rect = Fin r \<and> nr_bottom rect = Fin b
        \<and> 0 \<le> l \<and> l \<le> r \<and> r \<le> 1 \<and> 0 \<le> t \<and> t \<le> b \<and> b \<le> 1)"
  unfolding isValidNormalizedRect_def
  by (cases "nr_left rect"; cases "nr_top rect"; cases "nr_right rect"; cases "nr_bottom rect") auto

lemma isValidDpi_iff:
  "isValidDpi x y \<longleftrightarrow> (\<exists>a b. x = Fin a \<and> y = Fin b \<and> 0 < a \<and> a \<le> 600 \<and> 0 < b \<and> b \<le> 600)"
  unfolding isValidDpi_def by (cases x; cases y) (auto simp: limits)

lemma float_of_i32_between:
  "72 \<le> float_of_i32 n \<and> float_of_i32 n \<le> 600 \<longleftrightarrow> 72 \<le> n \<and> n \<le> 600"
proof (cases "\<bar>n\<bar> < 16777216")
  case True
  then show ?thesis by (simp add: float_of_i32_exact)
next
  case False
  let ?m = "nat \<bar>n\<bar>"
  let ?k = "significand_shift 32 ?m"
  have shift: "significand_shift k m = 0 \<or> 8388608 \<le> m div 2 ^ significand_shift k m" for k m
  proof (induction k arbitrary: m)
    case (Suc k)
    show ?case
      using Suc [of "m div 2"] by (auto simp: div_mult2_eq)
  qed simp
  have large: "8388608 \<le> ?m div 2 ^ ?k" using shift [of 32 ?m] False by auto
  have "8388608 \<le> \<bar>float_of_i32 n\<bar> \<and> sgn (float_of_i32 n) = sgn n"
  proof -
    define q where "q = ?m div 2 ^ ?k"
    define q' where "q' = (if 2 * (?m mod 2 ^ ?k) > 2 ^ ?k \<or> (2 * (?m mod 2 ^ ?k) = 2 ^ ?k \<and> odd q) then q + 1 else q)"
    have f: "float_of_i32 n = sgn n * int (q' * 2 ^ ?k)"
      unfolding float_of_i32_def q'_def q_def Let_def by simp
    have "8388608 \<le> q'" using large by (auto simp: q'_def q_def)
    then have "8388608 \<le> q' * 2 ^ ?k"
      using mult_le_mono [of 8388608 q' 1 "2 ^ ?k"] by simp
    then obtain z where "float_of_i32 n = sgn n * int z" "8388608 \<le> z" using f by blast
    moreover have "n \<noteq> 0" using False by auto
    ultimately show ?thesis by (auto simp: abs_mult sgn_mult)
  qed
  with False show ?thesis by (auto simp: sgn_if split: if_splits)
qed

lemma isValidOcrDpi_iff: "isValidOcrDpi (Fin (of_int (float_of_i32 n))) \<longleftrightarrow> 72 \<le> n \<and> n \<le> 600"
proof -
  have "isValidOcrDpi (Fin (of_int (float_of_i32 n))) \<longleftrightarrow> 72 \<le> float_of_i32 n \<and> float_of_i32 n \<le> 600"
    unfolding isValidOcrDpi_def by (simp add: limits)
  then show ?thesis by (simp add: float_of_i32_between)
qed

lemma isValidRenderTile_iff:
  "isValidRenderTile w h x y tw th \<longleftrightarrow> 0 \<le> x \<and> 0 \<le> y \<and> 0 < tw \<and> 0 < th \<and> x + tw \<le> w \<and> y + th \<le> h"
  by (auto simp: isValidRenderTile_def)

lemma isValidRenderRequest_iff:
  "isValidRenderRequest r = Valid \<longleftrightarrow>
     (rr_includeLinks r \<longrightarrow> rr_generation r \<noteq> 0) \<and> 0 \<le> rr_page r \<and> 0 < rr_width r \<and> 0 < rr_height r
     \<and> (case rr_tile r of
          None \<Rightarrow> rr_width r \<le> MaxRenderDimension \<and> rr_height r \<le> MaxRenderDimension
        | Some t \<Rightarrow> rr_width r < INT_MAX \<and> rr_height r < INT_MAX
            \<and> 0 \<le> rt_x t \<and> rt_x t < rr_width r \<and> 0 \<le> rt_y t \<and> rt_y t < rr_height r
            \<and> 0 < rt_width t \<and> 0 < rt_height t
            \<and> rt_x t + rt_width t \<le> rr_width r + 1 \<and> rt_y t + rt_height t \<le> rr_height r + 1)"
  unfolding isValidRenderRequest_def
  by (auto simp: verdict_simps isValidRenderTile_iff isValidRenderDimensions_def Let_def split: option.splits)

lemma u8_below_4: "(t :: u8) \<le> 3 \<longleftrightarrow> t = 0 \<or> t = 1 \<or> t = 2 \<or> t = 3"
proof
  assume "t \<le> 3"
  then have "unat t = 0 \<or> unat t = 1 \<or> unat t = 2 \<or> unat t = 3" by (auto simp: word_le_nat_alt)
  then show "t = 0 \<or> t = 1 \<or> t = 2 \<or> t = 3" by (simp add: word_unat_eq_iff)
qed auto

lemma theme_enumerator: "t \<le> DocumentTheme_value DT_Dark \<longleftrightarrow> (\<exists>theme. t = DocumentTheme_value theme)"
  unfolding DocumentTheme_value.simps u8_below_4
  by (metis DocumentTheme.exhaust DocumentTheme_value.simps)

lemma page_size_enumerator: "t \<le> EpubPageSize_value EPS_Letter \<longleftrightarrow> (\<exists>size. t = EpubPageSize_value size)"
  unfolding EpubPageSize_value.simps u8_below_4
  by (metis EpubPageSize.exhaust EpubPageSize_value.simps)

lemma font_family_enumerator:
  "t \<le> EpubFontFamily_value EFF_Monospace \<longleftrightarrow> (\<exists>family. t = EpubFontFamily_value family)"
  unfolding EpubFontFamily_value.simps u8_below_4
  by (metis EpubFontFamily.exhaust EpubFontFamily_value.simps)

lemma form_strings_loop_iff:
  "form_strings_loop ss = Valid \<longleftrightarrow> (\<forall>s\<in>set ss. isValidUtf8 s \<and> hasNoEmbeddedNul s)"
  by (induction ss) (auto simp: verdict_simps)

section \<open>Properties\<close>

text \<open>
  C36. The UTF-8 validator accepts exactly the byte strings that encode a sequence of Unicode scalar values
  (no overlong form, no surrogate, nothing above U+10FFFF), and the code point counter then returns the
  length of that sequence.
\<close>

theorem utf8_accepts_encodings:
  "isValidUtf8 str \<longleftrightarrow>
     (\<exists>cps. utf8_of cps (map unat (map byte_of str)) \<and> utf8CodepointCount str = length cps)"
  using isValidUtf8_iff utf8CodepointCount_of by blast

text \<open>
  The base64 validator accepts exactly the strings of a length divisible by four that consist of
  alphabet characters followed by at most two padding characters.
\<close>

lemma base64_syntax: "isValidBase64 s \<longleftrightarrow> length s mod 4 = 0 \<and> base64_form s"
  by (rule isValidBase64_iff)

text \<open>
  The recursive annotation-extension check, which threads one entry counter through the whole tree and
  stops early, accepts an extension exactly when the tree is at most eight levels deep, holds at most
  2048 values including its root, has only finite numbers and no empty key.
\<close>

lemma extension_budget:
  "isValidAnnotationExtension ext \<longleftrightarrow>
     value_wf (VObject ext) \<and> value_height (VObject ext) \<le> MaxAnnotationExtensionDepth
     \<and> value_count (VObject ext) \<le> MaxAnnotationExtensionEntries"
  by (rule isValidAnnotationExtension_iff)

text \<open>
  The link loop never wraps its unsigned counters: link metadata is accepted exactly when generation,
  count and error text are in bounds, every link is well-formed and the charges of all links together
  stay within the metadata budget.
\<close>

lemma render_links_budget:
  assumes "sizeofLink < 2 ^ 32"
  shows "isValidRenderLinks sizeofLink m \<longleftrightarrow>
     rls_generation m \<noteq> 0 \<and> length (rls_links m) \<le> MaxPageLinks \<and> length (rls_error m) \<le> MaxLinkStringBytes
     \<and> list_all link_ok (rls_links m)
     \<and> sum_list (map (\<lambda>link. sizeofLink + length (rl_uri (lk_target link))) (rls_links m))
       \<le> MaxAggregateMetadataBytes"
  using render_links_loop_iff [OF _ assms, of 0 "rls_links m"]
  by (auto simp: isValidRenderLinks_def list_all_iff)


definition two_layers :: LayersResponse where
  "two_layers = \<lparr>lys_generation = 1, lys_entries =
     [\<lparr>le_id = 0, le_depth = 0, le_name = ''Map'', le_type = 0, le_selected = False, le_locked = False\<rparr>,
      \<lparr>le_id = 1, le_depth = 1, le_name = ''Roads'', le_type = 1, le_selected = True, le_locked = False\<rparr>]\<rparr>"


text \<open>
  An accepted render request has room for the inclusive edge (adding one to a dimension does not
  overflow), and clipping its tile to the canvas leaves a non-empty tile inside the canvas.
\<close>

lemma render_request_safe:
  assumes "isValidRenderRequest r = Valid"
  shows "rr_width r + 1 \<le> INT_MAX \<and> rr_height r + 1 \<le> INT_MAX
    \<and> (case rr_tile r of
         None \<Rightarrow> isValidRenderDimensions (rr_width r) (rr_height r) False
       | Some t \<Rightarrow> isValidRenderTile (rr_width r) (rr_height r) (rt_x t) (rt_y t)
           (min (rt_width t) (rr_width r - rt_x t)) (min (rt_height t) (rr_height r - rt_y t)))"
  using assms unfolding isValidRenderRequest_iff
  by (auto simp: isValidRenderTile_iff isValidRenderDimensions_def limits split: option.splits)

text \<open>
  A non-empty image that passes the PNG check starts with the PNG signature and an IHDR chunk, and the
  width and height the chunk stores in big-endian order are positive and within the dimension limit.
\<close>

lemma png_image_bounds:
  assumes "isValidPngImage png maxBytes maxDimension = Valid" and "png \<noteq> []"
  shows "length png \<le> maxBytes \<and> take 16 png = pngHeader
    \<and> (\<exists>w h. 0 < w \<and> w \<le> maxDimension \<and> 0 < h \<and> h \<le> maxDimension
         \<and> w = 16777216 * unat (png ! 16) + 65536 * unat (png ! 17) + 256 * unat (png ! 18) + unat (png ! 19)
         \<and> h = 16777216 * unat (png ! 20) + 65536 * unat (png ! 21) + 256 * unat (png ! 22) + unat (png ! 23))"
proof -
  from assms have "0 < unat (readUint32 png 16)" "0 < unat (readUint32 png 20)"
    by (auto simp: isValidPngImage_iff unat_gt_0)
  with assms show ?thesis
    using readUint32_value [of png 16] readUint32_value [of png 20] by (simp add: isValidPngImage_iff)
qed

text \<open>
  Settings are accepted exactly when every level is in its documented range, the three enumeration bytes
  name an enumerator, and the custom style sheet is base64 within its byte cap.
\<close>

lemma settings_in_range:
  "isValidDocumentSettings s = Valid \<longleftrightarrow>
     ds_graphicsAntialiasing s \<in> {0..8} \<and> ds_textAntialiasing s \<in> {0..8} \<and> ds_imageQuality s \<in> {0..2}
     \<and> ds_memoryCacheBytes s \<in> {33554432..268435456} \<and> ds_idleTrimAggressiveness s \<in> {0..3}
     \<and> (\<exists>theme. ds_documentTheme s = DocumentTheme_value theme)
     \<and> el_fontSize (ds_epub s) \<in> {10..20}
     \<and> (\<exists>size. el_pageSize (ds_epub s) = EpubPageSize_value size)
     \<and> (\<exists>family. el_fontFamily (ds_epub s) = EpubFontFamily_value family)
     \<and> length (el_customCssBase64 (ds_epub s)) \<le> 8192 \<and> isValidBase64 (el_customCssBase64 (ds_epub s))"
  by (auto simp: isValidDocumentSettings_def verdict_simps limits isValidEpubCustomCssBase64_def not_less
      theme_enumerator [symmetric] page_size_enumerator [symmetric] font_family_enumerator [symmetric])

text \<open>
  An accepted OCR request asks for an integral resolution between 72 and 600 dots per inch, whatever the
  rounding of its conversion to float, and for a non-negative page with a transferred descriptor.
\<close>

lemma ocr_request_bounds:
  "isValidOcrPageRequest r = Valid \<longleftrightarrow>
     ft_transferId (ocp_file r) \<noteq> 0 \<and> 0 \<le> ocp_page r \<and> 72 \<le> ocp_dpi r \<and> ocp_dpi r \<le> 600
     \<and> length (ocp_language r) \<le> MaxString \<and> isValidUtf8 (ocp_language r) \<and> hasNoEmbeddedNul (ocp_language r)"
  by (auto simp: isValidOcrPageRequest_def verdict_simps isValidFileTransfer_iff isValidText_iff isValidOcrDpi_iff)

text \<open>
  A form field that passes validation selects only existing choices (at most one unless it is a
  multi-select field), has a rectangle of finite normalized coordinates, and a bounded non-empty handle.
\<close>

lemma form_field_selection:
  assumes "isValidFormField f = Valid"
  shows "(\<forall>idx\<in>set (ff_currentChoices f). 0 \<le> idx \<and> (ff_choices f = [] \<or> nat idx < length (ff_choices f)))
    \<and> (ff_multiSelect f \<or> length (ff_currentChoices f) \<le> 1)
    \<and> isValidNormalizedRect (ff_rectangle f) \<and> ff_handle f \<noteq> [] \<and> length (ff_handle f) \<le> 128"
  using assms unfolding isValidFormField_def
  by (simp only: verdict_simps) (auto simp: list_ex_iff limits not_le)

end
