(* ===== verification/Frame_Buffer.thy ===== *)
theory Frame_Buffer
  imports Messages
begin

text \<open>
  The shared-memory frame segment (\<^verbatim>\<open>src/shared/transport/frame_buffer.hpp\<close>): a 64-byte header
  followed by the pixels. Worker and plugin validate a mapped segment with the same functions; the laws
  below say what a validated segment guarantees to a reader of its pixels.
\<close>

definition FRAME_SHM_MAGIC :: u32 where
  "FRAME_SHM_MAGIC = 0x4D554650"

definition FRAME_SHM_VERSION :: u32 where
  "FRAME_SHM_VERSION = 1"

record FrameBufferHeader =
  fh_magic :: u32
  fh_version :: u32
  fh_requestId :: u64
  fh_width :: u32
  fh_height :: u32
  fh_stride :: u32
  fh_format :: u32

definition sizeof_FrameBufferHeader :: nat where
  [limits]: "sizeof_FrameBufferHeader = 64"

text \<open>On a 64-bit host every \<open>std::uint64_t\<close> fits \<open>std::size_t\<close>.\<close>

definition checkedFrameMappingSize :: "u64 \<Rightarrow> nat option" where
  "checkedFrameMappingSize mappedSize =
     (if unat mappedSize < sizeof_FrameBufferHeader \<or> unat mappedSize > MaxSharedFrameBytes
         \<or> unat mappedSize > 2 ^ 64 - 1 then None else Some (unat mappedSize))"

definition framePixelData :: "nat \<Rightarrow> nat" where
  "framePixelData base = base + sizeof_FrameBufferHeader"

text \<open>\<open>None\<close> is the null header pointer. The products are 64-bit products of 32-bit values.\<close>

definition validateFrameHeader ::
  "FrameBufferHeader option \<Rightarrow> u32 \<Rightarrow> u32 \<Rightarrow> u32 \<Rightarrow> u32 \<Rightarrow> u64 \<Rightarrow> u64 \<Rightarrow> bool" where
  "validateFrameHeader hdr width height stride format requestId mappedSize =
     (case hdr of
        None \<Rightarrow> False
      | Some h \<Rightarrow>
        if unat mappedSize < sizeof_FrameBufferHeader then False
        else
          let rowBytes = (ucast width :: u64) * 4;
              pixelBytes = (ucast height :: u64) * ucast stride;
              pixelBudget = mappedSize - of_nat sizeof_FrameBufferHeader;
              hasValidLayout = (width > 0 \<and> height > 0 \<and> rowBytes \<le> ucast stride);
              matchesExpectedFrame = (fh_magic h = FRAME_SHM_MAGIC \<and> fh_version h = FRAME_SHM_VERSION
                \<and> fh_requestId h = requestId \<and> fh_width h = width \<and> fh_height h = height
                \<and> fh_stride h = stride \<and> fh_format h = format);
              fitsMapping = (unat mappedSize \<le> MaxSharedFrameBytes \<and> pixelBytes \<le> pixelBudget)
          in hasValidLayout \<and> matchesExpectedFrame \<and> fitsMapping)"

definition validateRenderFrame :: "FrameBufferHeader option \<Rightarrow> RenderFrame \<Rightarrow> u64 \<Rightarrow> u64 \<Rightarrow> bool" where
  "validateRenderFrame header frame requestId mappedSize \<longleftrightarrow>
     rf_width frame > 0 \<and> rf_height frame > 0 \<and> rf_stride frame > 0 \<and> rf_format frame = PixelFormatRgba8888
     \<and> validateFrameHeader header (of_int (rf_width frame)) (of_int (rf_height frame)) (of_int (rf_stride frame))
          (rf_format frame) requestId mappedSize"

section \<open>The 64-bit products do not wrap\<close>

lemma unat_u32_lt [simp]: "unat (a :: u32) < 4294967296"
  using unsigned_less [of a, where 'a = nat] by simp

lemma unat_u32_to_u64 [simp]: "unat (ucast (a :: u32) :: u64) = unat a"
  by (simp add: unsigned_ucast_eq take_bit_nat_eq_self_iff order_less_trans [OF unat_u32_lt])

lemma unat_mult_u32_as_u64: "unat ((ucast (a :: u32) :: u64) * ucast (b :: u32)) = unat a * unat b"
proof -
  have "unat a * unat b < 2 ^ 64"
    using mult_strict_mono' [of "unat a" "2 ^ 32" "unat b" "2 ^ 32"] by simp
  then show ?thesis by (simp add: unat_word_ariths)
qed

lemma unat_times_4_u64: "unat ((ucast (a :: u32) :: u64) * 4) = unat a * 4"
  using unat_mult_u32_as_u64 [of a 4] by simp

lemma validateFrameHeader_iff:
  "validateFrameHeader hdr width height stride format requestId mappedSize \<longleftrightarrow>
     (\<exists>h. hdr = Some h \<and> fh_magic h = FRAME_SHM_MAGIC \<and> fh_version h = FRAME_SHM_VERSION
        \<and> fh_requestId h = requestId \<and> fh_width h = width \<and> fh_height h = height \<and> fh_stride h = stride
        \<and> fh_format h = format)
     \<and> 0 < unat width \<and> 0 < unat height \<and> unat width * 4 \<le> unat stride
     \<and> unat mappedSize \<le> MaxSharedFrameBytes
     \<and> sizeof_FrameBufferHeader + unat height * unat stride \<le> unat mappedSize"
proof (cases "unat mappedSize < sizeof_FrameBufferHeader")
  case True
  then show ?thesis by (auto simp: validateFrameHeader_def split: option.splits)
next
  case False
  then have "unat (mappedSize - of_nat sizeof_FrameBufferHeader) = unat mappedSize - sizeof_FrameBufferHeader"
    by (simp add: limits unat_sub word_le_nat_alt)
  with False show ?thesis
    by (auto simp: validateFrameHeader_def Let_def word_le_nat_alt unat_mult_u32_as_u64 unat_times_4_u64 word_gt_0
        unat_gt_0 split: option.splits)
qed

lemma unat_of_int_u32: "0 \<le> n \<Longrightarrow> i32_range n \<Longrightarrow> unat (of_int n :: u32) = nat n"
  by (auto simp: i32_range_def limits unat_eq_nat_uint uint_word_of_int)

lemma pixel_offset_bound:
  assumes "row < h" "col < w" "w * 4 \<le> stride"
  shows "row * stride + col * 4 + 4 \<le> h * (stride :: nat)"
proof -
  have "col * 4 + 4 \<le> stride" using assms(2,3) by linarith
  then have "row * stride + col * 4 + 4 \<le> Suc row * stride" by simp
  also have "\<dots> \<le> h * stride" using assms(1) by (intro mult_le_mono1) simp
  finally show ?thesis .
qed

text \<open>
  C35. Zero-copy safety of a validated frame: when the shared header check accepts a mapped segment, every
  pixel of every row the frame announces lies inside the mapping, behind the header, and the mapping is
  within the 128 MiB transfer limit.
\<close>

theorem frame_pixels_in_mapping:
  assumes "validateRenderFrame header frame requestId mappedSize"
    and "i32_range (rf_width frame)" "i32_range (rf_height frame)" "i32_range (rf_stride frame)"
    and "row < nat (rf_height frame)" "col < nat (rf_width frame)"
  shows "framePixelData base + row * nat (rf_stride frame) + col * 4 + 4 \<le> base + unat mappedSize
    \<and> unat mappedSize \<le> MaxSharedFrameBytes"
proof -
  have valid: "nat (rf_width frame) * 4 \<le> nat (rf_stride frame)" "unat mappedSize \<le> MaxSharedFrameBytes"
    "sizeof_FrameBufferHeader + nat (rf_height frame) * nat (rf_stride frame) \<le> unat mappedSize"
    using assms(1-4) unfolding validateRenderFrame_def validateFrameHeader_iff by (auto simp: unat_of_int_u32)
  from pixel_offset_bound [OF assms(5,6) valid(1)] valid(2,3) show ?thesis
    unfolding framePixelData_def by linarith
qed

definition sample_frame :: RenderFrame where
  "sample_frame = \<lparr>rf_transferId = 1, rf_slotId = 1, rf_leaseId = 1, rf_width = 2, rf_height = 3,
     rf_stride = 12, rf_format = PixelFormatRgba8888\<rparr>"

definition sample_header :: FrameBufferHeader where
  "sample_header = \<lparr>fh_magic = FRAME_SHM_MAGIC, fh_version = FRAME_SHM_VERSION, fh_requestId = 9,
     fh_width = 2, fh_height = 3, fh_stride = 12, fh_format = 1\<rparr>"

theorem frame_pixels_in_mapping_witness:
  "validateRenderFrame (Some sample_header) sample_frame 9 100
    \<and> framePixelData 0 + 2 * nat (rf_stride sample_frame) + 1 * 4 + 4 \<le> 0 + unat (100 :: u64)"
proof -
  have v: "validateRenderFrame (Some sample_header) sample_frame 9 100"
    by (simp add: validateRenderFrame_def validateFrameHeader_iff sample_frame_def sample_header_def
        PixelFormatRgba8888_def limits)
  have "2 < nat (rf_height sample_frame)" "1 < nat (rf_width sample_frame)"
    "i32_range (rf_width sample_frame)" "i32_range (rf_height sample_frame)" "i32_range (rf_stride sample_frame)"
    by (simp_all add: sample_frame_def i32_range_def limits)
  then show ?thesis using frame_pixels_in_mapping [OF v, of 2 1 0] v by blast
qed

text \<open>
  The header check is exact: it accepts a non-null header iff magic, version and every announced field
  match the expected frame, the row stride holds a row of RGBA pixels, and header plus pixels fit the mapping;
  the 64-bit products it computes never wrap.
\<close>

lemma frame_header_exact:
  "validateFrameHeader hdr width height stride format requestId mappedSize \<longleftrightarrow>
     (\<exists>h. hdr = Some h \<and> fh_magic h = FRAME_SHM_MAGIC \<and> fh_version h = FRAME_SHM_VERSION
        \<and> fh_requestId h = requestId \<and> fh_width h = width \<and> fh_height h = height \<and> fh_stride h = stride
        \<and> fh_format h = format)
     \<and> 0 < unat width \<and> 0 < unat height \<and> unat width * 4 \<le> unat stride
     \<and> unat mappedSize \<le> MaxSharedFrameBytes
     \<and> sizeof_FrameBufferHeader + unat height * unat stride \<le> unat mappedSize"
  by (rule validateFrameHeader_iff)

end
