(* ===== verification/Render_Budget.thy ===== *)
theory Render_Budget
  imports Validation_Laws Frame_Buffer
begin

text \<open>
  The worker's resource decisions: fitting a render request to one shared-memory frame
  (\<^verbatim>\<open>src/worker/runtime/render_budget.hpp\<close>) and the idle-trim policy
  (\<^verbatim>\<open>src/worker/runtime/memory_pressure.hpp\<close>).

  The precision of \<open>long double\<close> is implementation-defined: 64 bits of significand on x86-64, 113 on
  aarch64, 53 elsewhere. The definitions take the rounding to nearest, \<open>rnd\<close>, as an argument; every
  arithmetic operation rounds its exact result, as IEEE 754 requires of \<open>*\<close>, \<open>/\<close> and \<open>sqrt\<close>.
\<close>

definition ld_rounding :: "(real \<Rightarrow> real) \<Rightarrow> bool" where
  "ld_rounding rnd \<longleftrightarrow> mono rnd \<and> (\<forall>n. \<bar>n\<bar> \<le> 2 ^ 53 \<longrightarrow> rnd (of_int n) = of_int n)
     \<and> (\<forall>x. 1 / 2 ^ 100 \<le> x \<and> x \<le> 2 ^ 100 \<longrightarrow> \<bar>rnd x - x\<bar> \<le> x / 2 ^ 53)"

section \<open>Fitting a request\<close>

record FittedRenderRequest =
  fit_request :: RenderRequest
  fit_frameWidth :: u32
  fit_frameHeight :: u32
  fit_frameStride :: u32
  fit_frameDataBytes :: u64

definition rgbaDataBytes :: "int \<Rightarrow> int \<Rightarrow> u64" where
  "rgbaDataBytes width height = of_int width * of_int height * 4"

definition scaledDimension :: "(real \<Rightarrow> real) \<Rightarrow> int \<Rightarrow> real \<Rightarrow> int" where
  "scaledDimension rnd dimension scale =
     (let scaled = \<lfloor>rnd (of_int dimension * scale)\<rfloor> in if scaled > 0 then scaled else 1)"

definition scaledCoordinate :: "(real \<Rightarrow> real) \<Rightarrow> int \<Rightarrow> real \<Rightarrow> int" where
  "scaledCoordinate rnd coordinate scale = \<lfloor>rnd (of_int coordinate * scale)\<rfloor>"

definition maxFrameDataBytes :: u64 where
  "maxFrameDataBytes = of_nat MaxSharedFrameBytes - of_nat sizeof_FrameBufferHeader"

partial_function (option) shrink_loop :: "int \<Rightarrow> int \<Rightarrow> (int \<times> int) option" where
  "shrink_loop frameWidth frameHeight =
     (if rgbaDataBytes frameWidth frameHeight > maxFrameDataBytes
      then (if frameWidth \<ge> frameHeight \<and> frameWidth > 1 then shrink_loop (frameWidth - 1) frameHeight
            else shrink_loop frameWidth (frameHeight - 1))
      else Some (frameWidth, frameHeight))"

definition canvas_scale :: "(real \<Rightarrow> real) \<Rightarrow> RenderRequest \<Rightarrow> real" where
  "canvas_scale rnd request =
     (let canvasLimit = (if rr_tile request \<noteq> None then MaxTiledRenderDimension else MaxRenderDimension)
      in min 1 (rnd (of_int canvasLimit / of_int (max (rr_width request) (rr_height request)))))"

definition fit_scale :: "(real \<Rightarrow> real) \<Rightarrow> real \<Rightarrow> int \<Rightarrow> int \<Rightarrow> real" where
  "fit_scale rnd canvasScale sourceWidth sourceHeight =
     (let maxPixels = real (unat (maxFrameDataBytes div 4));
          sourcePixels = rnd (of_int sourceWidth * of_int sourceHeight)
      in min canvasScale (rnd (sqrt (rnd (maxPixels / sourcePixels)))))"

definition source_width :: "RenderRequest \<Rightarrow> int" where
  "source_width request = (case rr_tile request of Some tile \<Rightarrow> rt_width tile | None \<Rightarrow> rr_width request)"

definition source_height :: "RenderRequest \<Rightarrow> int" where
  "source_height request = (case rr_tile request of Some tile \<Rightarrow> rt_height tile | None \<Rightarrow> rr_height request)"

definition scaled_request :: "(real \<Rightarrow> real) \<Rightarrow> RenderRequest \<Rightarrow> real \<Rightarrow> int \<Rightarrow> int \<Rightarrow> RenderRequest" where
  "scaled_request rnd request scale frameWidth frameHeight =
     (case rr_tile request of
        Some tile \<Rightarrow>
          let fittedWidth = scaledDimension rnd (rr_width request) scale;
              fittedHeight = scaledDimension rnd (rr_height request) scale;
              tileX = min (scaledCoordinate rnd (rt_x tile) scale) (fittedWidth - 1);
              tileY = min (scaledCoordinate rnd (rt_y tile) scale) (fittedHeight - 1)
          in request\<lparr>rr_width := fittedWidth, rr_height := fittedHeight,
               rr_tile := Some \<lparr>rt_x = tileX, rt_y = tileY, rt_width = frameWidth, rt_height = frameHeight\<rparr>\<rparr>
      | None \<Rightarrow> request\<lparr>rr_width := frameWidth, rr_height := frameHeight\<rparr>)"

definition fitRenderRequestToFrameBudget :: "(real \<Rightarrow> real) \<Rightarrow> RenderRequest \<Rightarrow> FittedRenderRequest option" where
  "fitRenderRequestToFrameBudget rnd request =
     (let sourceWidth = source_width request;
          sourceHeight = source_height request;
          sourceDataBytes = rgbaDataBytes sourceWidth sourceHeight;
          canvasScale = canvas_scale rnd request
      in
      if sourceDataBytes \<le> maxFrameDataBytes \<and> canvasScale = 1
      then Some \<lparr>fit_request = request, fit_frameWidth = of_int sourceWidth, fit_frameHeight = of_int sourceHeight,
                 fit_frameStride = of_int sourceWidth * 4, fit_frameDataBytes = sourceDataBytes\<rparr>
      else
        let scale = fit_scale rnd canvasScale sourceWidth sourceHeight in
        case shrink_loop (scaledDimension rnd sourceWidth scale) (scaledDimension rnd sourceHeight scale) of
          None \<Rightarrow> None
        | Some (frameWidth, frameHeight) \<Rightarrow>
          let fitted = scaled_request rnd request scale frameWidth frameHeight
          in Some \<lparr>fit_request = fitted, fit_frameWidth = of_int frameWidth, fit_frameHeight = of_int frameHeight,
                   fit_frameStride = of_int frameWidth * 4, fit_frameDataBytes = rgbaDataBytes frameWidth frameHeight\<rparr>)"

section \<open>Idle trimming\<close>

record IdleTrimThresholds =
  it_idleMinMs :: int
  it_sinceTrimMinMs :: int
  it_minRendersSinceTrim :: nat
  it_minBytesSinceTrim :: nat
  it_largeFrameBytes :: nat
  it_largeRendersSinceTrim :: nat
  it_storePercent :: nat

definition IdleTrimThresholds_default :: IdleTrimThresholds where
  "IdleTrimThresholds_default = \<lparr>it_idleMinMs = 2000, it_sinceTrimMinMs = 2000, it_minRendersSinceTrim = 20,
     it_minBytesSinceTrim = 128 * 1024 * 1024, it_largeFrameBytes = 32 * 1024 * 1024, it_largeRendersSinceTrim = 4,
     it_storePercent = 50\<rparr>"

definition normalizeIdleTrim :: "int \<Rightarrow> int" where
  "normalizeIdleTrim idleTrim =
     (if idleTrim = IdleTrimLevel_Off \<or> idleTrim = IdleTrimLevel_Conservative \<or> idleTrim = IdleTrimLevel_Balanced
         \<or> idleTrim = IdleTrimLevel_Aggressive
      then idleTrim else IdleTrimLevel_Balanced)"

definition idleTrimThresholdsForLevel :: "int \<Rightarrow> IdleTrimThresholds" where
  "idleTrimThresholdsForLevel idleTrim =
     (if idleTrim = IdleTrimLevel_Conservative
      then \<lparr>it_idleMinMs = 4000, it_sinceTrimMinMs = 4000, it_minRendersSinceTrim = 40,
            it_minBytesSinceTrim = 256 * 1024 * 1024, it_largeFrameBytes = 64 * 1024 * 1024,
            it_largeRendersSinceTrim = 8, it_storePercent = 75\<rparr>
      else if idleTrim = IdleTrimLevel_Aggressive
      then \<lparr>it_idleMinMs = 1000, it_sinceTrimMinMs = 1000, it_minRendersSinceTrim = 10,
            it_minBytesSinceTrim = 64 * 1024 * 1024, it_largeFrameBytes = 16 * 1024 * 1024,
            it_largeRendersSinceTrim = 2, it_storePercent = 25\<rparr>
      else IdleTrimThresholds_default)"

definition idleTrimPollMsForLevel :: "int \<Rightarrow> int" where
  "idleTrimPollMsForLevel idleTrim =
     (if idleTrim = IdleTrimLevel_Off then 2000 else it_idleMinMs (idleTrimThresholdsForLevel idleTrim))"

definition shouldIdleTrim :: "nat \<Rightarrow> nat \<Rightarrow> int \<Rightarrow> int \<Rightarrow> IdleTrimThresholds \<Rightarrow> bool" where
  "shouldIdleTrim rendersSinceTrim bytesSinceTrim idleMs sinceTrimMs thresholds =
     (if idleMs < it_idleMinMs thresholds \<or> sinceTrimMs < it_sinceTrimMinMs thresholds then False
      else if bytesSinceTrim \<ge> it_minBytesSinceTrim thresholds \<or> rendersSinceTrim \<ge> it_minRendersSinceTrim thresholds
      then True
      else bytesSinceTrim \<ge> it_largeFrameBytes thresholds \<and> rendersSinceTrim \<ge> it_largeRendersSinceTrim thresholds)"

section \<open>Arithmetic of the frame budget\<close>

lemma maxFrameDataBytes_value: "unat maxFrameDataBytes = 134217664"
  by (simp add: maxFrameDataBytes_def limits)

lemma unat_of_int_u64: "0 \<le> n \<Longrightarrow> n < 2 ^ 64 \<Longrightarrow> unat (of_int n :: u64) = nat n"
  by (simp add: unat_eq_nat_uint uint_word_of_int)

lemma area_bound: "0 \<le> w \<Longrightarrow> w \<le> INT_MAX \<Longrightarrow> 0 \<le> h \<Longrightarrow> h \<le> INT_MAX \<Longrightarrow> w * h * 4 < 2 ^ 64"
  using mult_mono [of w 2147483647 h 2147483647] by (simp add: limits mult.commute)

lemma rgbaDataBytes_exact:
  assumes "0 \<le> w" "w \<le> INT_MAX" "0 \<le> h" "h \<le> INT_MAX"
  shows "unat (rgbaDataBytes w h) = nat (w * h * 4)"
proof -
  have "rgbaDataBytes w h = of_int (w * h * 4)" by (simp add: rgbaDataBytes_def)
  then show ?thesis using area_bound [OF assms] assms by (simp only: unat_of_int_u64 mult_nonneg_nonneg zero_le_numeral)
qed

lemma rgba_over_budget:
  assumes "0 \<le> w" "w \<le> INT_MAX" "0 \<le> h" "h \<le> INT_MAX"
  shows "rgbaDataBytes w h > maxFrameDataBytes \<longleftrightarrow> w * h * 4 > 134217664"
  unfolding word_less_nat_alt maxFrameDataBytes_value rgbaDataBytes_exact [OF assms] by linarith

lemma shrink_loop_returns:
  assumes "1 \<le> w" "w \<le> INT_MAX" "1 \<le> h" "h \<le> INT_MAX"
  shows "\<exists>w' h'. shrink_loop w h = Some (w', h') \<and> 1 \<le> w' \<and> w' \<le> w \<and> 1 \<le> h' \<and> h' \<le> h \<and> w' * h' * 4 \<le> 134217664"
  using assms
proof (induction "nat (w + h)" arbitrary: w h rule: less_induct)
  case less
  have over: "rgbaDataBytes w h > maxFrameDataBytes \<longleftrightarrow> w * h * 4 > 134217664"
    using less.prems by (intro rgba_over_budget) auto
  consider "\<not> rgbaDataBytes w h > maxFrameDataBytes"
    | "rgbaDataBytes w h > maxFrameDataBytes" "w \<ge> h \<and> w > 1"
    | "rgbaDataBytes w h > maxFrameDataBytes" "\<not> (w \<ge> h \<and> w > 1)" by blast
  then show ?case
  proof cases
    case 1
    then have "shrink_loop w h = Some (w, h)" by (subst shrink_loop.simps) simp
    with 1 less.prems over show ?thesis by (auto simp only: not_less order_refl prod.inject option.inject)
  next
    case 2
    then have "shrink_loop w h = shrink_loop (w - 1) h" by (subst shrink_loop.simps) simp
    moreover have "nat (w - 1 + h) < nat (w + h)" using less.prems by simp
    ultimately show ?thesis using less.hyps [of "w - 1" h] less.prems 2(2) by force
  next
    case 3
    have "1 < h"
    proof (rule ccontr)
      assume "\<not> 1 < h"
      with 3(2) less.prems have "w = 1" "h = 1" by auto
      with 3(1) over show False by simp
    qed
    moreover have "shrink_loop w h = shrink_loop w (h - 1)" using 3 by (subst shrink_loop.simps) (simp only: if_True if_False)
    moreover have "nat (w + (h - 1)) < nat (w + h)" using less.prems by simp
    ultimately show ?thesis using less.hyps [of w "h - 1"] less.prems by force
  qed
qed

section \<open>Scaling\<close>

lemma rnd_int: "ld_rounding rnd \<Longrightarrow> \<bar>n\<bar> \<le> 2 ^ 53 \<Longrightarrow> rnd (of_int n) = of_int n"
  by (simp add: ld_rounding_def)

lemma rnd_0 [simp]: "ld_rounding rnd \<Longrightarrow> rnd 0 = 0"
  using rnd_int [of rnd 0] by simp

lemma rnd_1 [simp]: "ld_rounding rnd \<Longrightarrow> rnd 1 = 1"
  using rnd_int [of rnd 1] by simp

lemma rnd_mono: "ld_rounding rnd \<Longrightarrow> x \<le> y \<Longrightarrow> rnd x \<le> rnd y"
  by (auto simp: ld_rounding_def dest: monoD)

lemma rnd_nonneg: "ld_rounding rnd \<Longrightarrow> 0 \<le> x \<Longrightarrow> 0 \<le> rnd x"
  using rnd_mono [of rnd 0 x] by simp

lemma rnd_upper: "ld_rounding rnd \<Longrightarrow> 1 / 2 ^ 100 \<le> x \<Longrightarrow> x \<le> 2 ^ 100 \<Longrightarrow> rnd x \<le> x + x / 2 ^ 53"
  unfolding ld_rounding_def by (smt (verit))

lemma scaledDimension_bounds:
  assumes "ld_rounding rnd" "0 \<le> scale" "scale \<le> 1" "1 \<le> d" "d \<le> 2 ^ 53"
  shows "1 \<le> scaledDimension rnd d scale \<and> scaledDimension rnd d scale \<le> d"
proof -
  have "of_int d * scale \<le> of_int d" using assms by (simp add: mult_left_le)
  then have "rnd (of_int d * scale) \<le> of_int d" using rnd_mono rnd_int assms by (metis abs_of_pos less_le_trans zero_less_one)
  then have "\<lfloor>rnd (of_int d * scale)\<rfloor> \<le> d" by (simp add: floor_le_iff)
  with assms(4) show ?thesis by (auto simp: scaledDimension_def Let_def)
qed

lemma scaledCoordinate_nonneg:
  "ld_rounding rnd \<Longrightarrow> 0 \<le> scale \<Longrightarrow> 0 \<le> c \<Longrightarrow> 0 \<le> scaledCoordinate rnd c scale"
  by (simp add: scaledCoordinate_def rnd_nonneg)

lemma canvas_ratio:
  assumes rnd: "ld_rounding rnd" and L: "1 \<le> L" "L \<le> 65534" and M: "1 \<le> M" "M \<le> INT_MAX"
  shows "rnd (of_int L / of_int M) \<le> of_int L / of_int M * (1 + 1 / 2 ^ 53)"
proof -
  have "(1 :: real) / 2 ^ 100 \<le> 1 / 2 ^ 31" by (intro divide_left_mono) simp_all
  also have "\<dots> \<le> of_int L / of_int M"
    using L M by (intro frac_le) (simp_all add: limits)
  finally have "1 / 2 ^ 100 \<le> (of_int L / of_int M :: real)" .
  moreover have "of_int L / of_int M \<le> (2 ^ 100 :: real)"
  proof -
    have "of_int L / of_int M \<le> (of_int L :: real)" using L M by (simp add: divide_le_eq)
    also have "\<dots> \<le> 2 ^ 16" using L by simp
    also have "\<dots> \<le> 2 ^ 100" by (intro power_increasing) simp_all
    finally show ?thesis .
  qed
  ultimately show ?thesis using rnd_upper [OF rnd, of "of_int L / of_int M"] by (simp add: distrib_left mult.commute)
qed

lemma scaledDimension_canvas:
  assumes rnd: "ld_rounding rnd" and L: "1 \<le> L" "L \<le> 65534" and M: "1 \<le> d" "d \<le> M" "M \<le> INT_MAX"
    and s: "0 \<le> scale" "scale \<le> rnd (of_int L / of_int M)"
  shows "scaledDimension rnd d scale \<le> L"
proof -
  let ?e = "1 / 2 ^ 53 :: real"
  have "of_int d * scale \<le> of_int M * (of_int L / of_int M * (1 + ?e))"
    using canvas_ratio [OF rnd L _ M(3)] s M by (intro mult_mono) auto
  also have "\<dots> = of_int L * (1 + ?e)" using M by simp
  finally have "rnd (of_int d * scale) \<le> rnd (of_int L * (1 + ?e))" by (rule rnd_mono [OF rnd])
  also have "\<dots> \<le> of_int L * (1 + ?e) + of_int L * (1 + ?e) / 2 ^ 53"
  proof (rule rnd_upper [OF rnd])
    have "(1 :: real) / 2 ^ 100 \<le> 1" by simp
    also have "\<dots> \<le> of_int L * (1 + ?e)" using L mult_mono [of 1 "of_int L" 1 "1 + ?e"] by simp
    finally show "1 / 2 ^ 100 \<le> of_int L * (1 + ?e)" .
    have "of_int L * (1 + ?e) \<le> 2 ^ 16 * 2" using L by (intro mult_mono) simp_all
    also have "\<dots> \<le> 2 ^ 100" using power_increasing [of 17 100 "2 :: real"] by simp
    finally show "of_int L * (1 + ?e) \<le> 2 ^ 100" .
  qed
  also have "\<dots> < of_int L + 1" using L by (simp add: field_simps)
  finally have "\<lfloor>rnd (of_int d * scale)\<rfloor> \<le> L" by (simp add: floor_le_iff)
  with L show ?thesis by (simp add: scaledDimension_def Let_def)
qed

lemma canvas_ratio_one:
  assumes rnd: "ld_rounding rnd" and L: "1 \<le> L" "L \<le> 65534" and M: "1 \<le> M" "M \<le> INT_MAX"
  shows "1 \<le> rnd (of_int L / of_int M) \<longleftrightarrow> M \<le> L"
proof
  assume "M \<le> L"
  then have "1 \<le> (of_int L / of_int M :: real)" using M by simp
  from rnd_mono [OF rnd this] rnd show "1 \<le> rnd (of_int L / of_int M)" by simp
next
  assume ge: "1 \<le> rnd (of_int L / of_int M)"
  show "M \<le> L"
  proof (rule ccontr)
    assume "\<not> M \<le> L"
    then have "of_int L * (1 + 1 / 2 ^ 53 :: real) < of_int M" using L by (simp add: field_simps)
    moreover have "of_int M \<le> of_int L * (1 + 1 / 2 ^ 53 :: real)"
      using order_trans [OF ge canvas_ratio [OF rnd L M]] M by (simp add: le_divide_eq)
    ultimately show False by simp
  qed
qed

lemma fit_scale_bounds:
  assumes rnd: "ld_rounding rnd" and c: "0 \<le> c" "c \<le> 1" and "1 \<le> w" "1 \<le> h"
  shows "0 \<le> fit_scale rnd c w h \<and> fit_scale rnd c w h \<le> c"
proof -
  have "0 \<le> rnd (of_int w * of_int h)" using assms by (intro rnd_nonneg [OF rnd]) auto
  then have "0 \<le> rnd (sqrt (rnd (real (unat (maxFrameDataBytes div 4)) / rnd (of_int w * of_int h))))"
    by (intro rnd_nonneg [OF rnd] real_sqrt_ge_zero divide_nonneg_nonneg of_nat_0_le_iff mult_nonneg_nonneg)
      (use assms in auto)
  then show ?thesis using c by (simp add: fit_scale_def)
qed

lemma canvas_scale_bounds: "ld_rounding rnd \<Longrightarrow> 1 \<le> rr_width r \<Longrightarrow> 0 \<le> canvas_scale rnd r \<and> canvas_scale rnd r \<le> 1"
  using rnd_nonneg [of rnd "of_int (if rr_tile r \<noteq> None then MaxTiledRenderDimension else MaxRenderDimension)
    / of_int (max (rr_width r) (rr_height r))"]
  by (simp add: canvas_scale_def limits)

definition frame_layout :: "int \<Rightarrow> int \<Rightarrow> FittedRenderRequest \<Rightarrow> bool" where
  "frame_layout w h f \<longleftrightarrow> 0 < w \<and> 0 < h
     \<and> int (unat (fit_frameWidth f)) = w \<and> int (unat (fit_frameHeight f)) = h
     \<and> int (unat (fit_frameStride f)) = 4 * w \<and> int (unat (fit_frameDataBytes f)) = h * (4 * w)
     \<and> unat (fit_frameDataBytes f) + sizeof_FrameBufferHeader \<le> MaxSharedFrameBytes"

lemma frame_layoutI:
  assumes "1 \<le> w" "w \<le> INT_MAX" "1 \<le> h" "h \<le> INT_MAX" "w * h * 4 \<le> 134217664"
    and f: "fit_frameWidth f = of_int w" "fit_frameHeight f = of_int h" "fit_frameStride f = of_int w * 4"
      "fit_frameDataBytes f = rgbaDataBytes w h"
  shows "frame_layout w h f"
proof -
  have "w * 1 \<le> w * h" using assms(1,3) by (intro mult_left_mono) auto
  with assms(5) have w4: "w * 4 \<le> 134217664" by linarith
  have "unat (of_int (w * 4) :: u32) = nat (w * 4)"
    using w4 assms(1) by (intro unat_of_int_u32) (auto simp: i32_range_def limits)
  then have "unat (fit_frameStride f) = nat (4 * w)" by (simp add: f(3) mult.commute)
  moreover have "unat (fit_frameDataBytes f) = nat (w * h * 4)" unfolding f(4) using assms(1-4) by (intro rgbaDataBytes_exact) auto
  moreover have "unat (of_int w :: u32) = nat w" "unat (of_int h :: u32) = nat h"
    using assms(1-4) by (auto intro!: unat_of_int_u32 simp: i32_range_def limits)
  ultimately show ?thesis
    using assms(1,3,5) by (simp add: frame_layout_def f(1,2) limits algebra_simps)
qed

lemma canvas_scale_one:
  assumes rnd: "ld_rounding rnd" and "1 \<le> rr_width r" "rr_width r \<le> INT_MAX" "1 \<le> rr_height r" "rr_height r \<le> INT_MAX"
  shows "canvas_scale rnd r = 1 \<longleftrightarrow> isValidRenderDimensions (rr_width r) (rr_height r) (rr_tile r \<noteq> None)"
proof -
  let ?L = "if rr_tile r \<noteq> None then MaxTiledRenderDimension else MaxRenderDimension"
  have "1 \<le> rnd (of_int ?L / of_int (max (rr_width r) (rr_height r))) \<longleftrightarrow> max (rr_width r) (rr_height r) \<le> ?L"
    by (rule canvas_ratio_one [OF rnd]) (use assms in \<open>auto simp: limits\<close>)
  then show ?thesis
    using assms by (auto simp: canvas_scale_def isValidRenderDimensions_def Let_def min_def)
qed

lemma fitted_canvas:
  assumes rnd: "ld_rounding rnd" and r: "1 \<le> rr_width r" "rr_width r \<le> INT_MAX" "1 \<le> rr_height r" "rr_height r \<le> INT_MAX"
    and s: "0 \<le> scale" "scale \<le> canvas_scale rnd r"
  shows "isValidRenderDimensions (scaledDimension rnd (rr_width r) scale) (scaledDimension rnd (rr_height r) scale)
    (rr_tile r \<noteq> None)"
proof -
  let ?L = "if rr_tile r \<noteq> None then MaxTiledRenderDimension else MaxRenderDimension"
  let ?M = "max (rr_width r) (rr_height r)"
  have L: "1 \<le> ?L" "?L \<le> 65534" by (simp_all add: limits)
  have "scale \<le> rnd (of_int ?L / of_int ?M)" using s(2) by (simp add: canvas_scale_def Let_def)
  then have "scaledDimension rnd d scale \<le> ?L" if "1 \<le> d" "d \<le> ?M" for d
    using scaledDimension_canvas [OF rnd L that _ s(1)] r by simp
  moreover have "1 \<le> scaledDimension rnd d scale" if "1 \<le> d" "d \<le> INT_MAX" for d
    using that canvas_scale_bounds [OF rnd r(1)] s by (intro scaledDimension_bounds [OF rnd, THEN conjunct1]) (auto simp: limits)
  ultimately show ?thesis using r by (force simp: isValidRenderDimensions_def Let_def)
qed

text \<open>What the rest of the worker relies on for the fitted request \<open>f\<close> of a request \<open>r\<close>.\<close>

definition fit_ok :: "RenderRequest \<Rightarrow> FittedRenderRequest \<Rightarrow> bool" where
  "fit_ok r f \<longleftrightarrow>
     isValidRenderDimensions (rr_width (fit_request f)) (rr_height (fit_request f)) (rr_tile r \<noteq> None)
     \<and> (case rr_tile (fit_request f) of
          None \<Rightarrow> rr_tile r = None \<and> frame_layout (rr_width (fit_request f)) (rr_height (fit_request f)) f
        | Some t \<Rightarrow> rr_tile r \<noteq> None \<and> frame_layout (rt_width t) (rt_height t) f
            \<and> 0 \<le> rt_x t \<and> rt_x t < rr_width (fit_request f) \<and> 0 \<le> rt_y t \<and> rt_y t < rr_height (fit_request f))"

lemma valid_request_range:
  assumes "isValidRenderRequest r = Valid"
  shows "1 \<le> rr_width r" "rr_width r \<le> INT_MAX" "1 \<le> rr_height r" "rr_height r \<le> INT_MAX"
    and "1 \<le> source_width r" "source_width r \<le> INT_MAX" "1 \<le> source_height r" "source_height r \<le> INT_MAX"
    and "rr_tile r = Some t \<Longrightarrow> 0 \<le> rt_x t" "rr_tile r = Some t \<Longrightarrow> rt_x t < rr_width r"
    and "rr_tile r = Some t \<Longrightarrow> 0 \<le> rt_y t" "rr_tile r = Some t \<Longrightarrow> rt_y t < rr_height r"
  using assms unfolding isValidRenderRequest_iff source_width_def source_height_def
  by (auto simp: limits split: option.splits)

lemma fit_ok_unscaled:
  assumes valid: "isValidRenderRequest r = Valid"
    and bytes: "source_width r * source_height r * 4 \<le> 134217664"
    and canvas: "isValidRenderDimensions (rr_width r) (rr_height r) (rr_tile r \<noteq> None)"
  shows "fit_ok r \<lparr>fit_request = r, fit_frameWidth = of_int (source_width r), fit_frameHeight = of_int (source_height r),
    fit_frameStride = of_int (source_width r) * 4, fit_frameDataBytes = rgbaDataBytes (source_width r) (source_height r)\<rparr>"
    (is "fit_ok r ?f")
proof -
  have "frame_layout (source_width r) (source_height r) ?f"
    using valid_request_range [OF valid] bytes by (intro frame_layoutI) simp_all
  with canvas valid_request_range [OF valid] show ?thesis
    by (auto simp: fit_ok_def source_width_def source_height_def split: option.splits)
qed

lemma fit_ok_scaled:
  assumes rnd: "ld_rounding rnd" and valid: "isValidRenderRequest r = Valid"
    and s: "0 \<le> scale" "scale \<le> canvas_scale rnd r"
    and w: "1 \<le> w" "w \<le> scaledDimension rnd (source_width r) scale"
    and h: "1 \<le> h" "h \<le> scaledDimension rnd (source_height r) scale"
    and bytes: "w * h * 4 \<le> 134217664"
  shows "fit_ok r \<lparr>fit_request = scaled_request rnd r scale w h, fit_frameWidth = of_int w, fit_frameHeight = of_int h,
    fit_frameStride = of_int w * 4, fit_frameDataBytes = rgbaDataBytes w h\<rparr>" (is "fit_ok r ?f")
proof -
  note range = valid_request_range [OF valid]
  have s1: "scale \<le> 1" using s canvas_scale_bounds [OF rnd range(1)] by linarith
  have dim: "1 \<le> scaledDimension rnd d scale" "scaledDimension rnd d scale \<le> d" if "1 \<le> d" "d \<le> INT_MAX" for d
    using scaledDimension_bounds [OF rnd s(1) s1 that(1)] that by (auto simp: limits)
  note canvas = fitted_canvas [OF rnd range(1-4) s]
  have layout: "frame_layout w h ?f"
    by (rule frame_layoutI) (use w h bytes dim range(5-8) in force)+
  show ?thesis
  proof (cases "rr_tile r")
    case None
    with layout canvas w h show ?thesis
      by (auto simp: fit_ok_def isValidRenderDimensions_def Let_def scaled_request_def source_width_def source_height_def)
  next
    case (Some t)
    from dim [OF range(1,2)] dim [OF range(3,4)] layout canvas Some range scaledCoordinate_nonneg [OF rnd s(1)]
    show ?thesis by (simp add: fit_ok_def scaled_request_def Let_def min_less_iff_disj)
  qed
qed

lemma fit_returns:
  assumes rnd: "ld_rounding rnd" and valid: "isValidRenderRequest r = Valid"
  shows "\<exists>f. fitRenderRequestToFrameBudget rnd r = Some f \<and> fit_ok r f"
proof -
  define scale where "scale = fit_scale rnd (canvas_scale rnd r) (source_width r) (source_height r)"
  note range = valid_request_range [OF valid]
  have s: "0 \<le> scale" "scale \<le> canvas_scale rnd r" "scale \<le> 1"
    using fit_scale_bounds [OF rnd _ _ range(5,7)] canvas_scale_bounds [OF rnd range(1)] unfolding scale_def by force+
  show ?thesis
  proof (cases "rgbaDataBytes (source_width r) (source_height r) \<le> maxFrameDataBytes \<and> canvas_scale rnd r = 1")
    case True
    then have "source_width r * source_height r * 4 \<le> 134217664"
      using rgba_over_budget [of "source_width r" "source_height r"] range by auto
    from fit_ok_unscaled [OF valid this] True canvas_scale_one [OF rnd range(1-4)] show ?thesis
      by (simp add: fitRenderRequestToFrameBudget_def Let_def)
  next
    case False
    have sd: "1 \<le> scaledDimension rnd d scale" "scaledDimension rnd d scale \<le> INT_MAX" if "1 \<le> d" "d \<le> INT_MAX" for d
      using scaledDimension_bounds [OF rnd s(1,3) that(1)] that by (auto simp: limits)
    obtain w h where shrink: "shrink_loop (scaledDimension rnd (source_width r) scale) (scaledDimension rnd (source_height r) scale) = Some (w, h)"
      and wh: "1 \<le> w" "w \<le> scaledDimension rnd (source_width r) scale" "1 \<le> h" "h \<le> scaledDimension rnd (source_height r) scale"
        "w * h * 4 \<le> 134217664"
      using shrink_loop_returns [of "scaledDimension rnd (source_width r) scale" "scaledDimension rnd (source_height r) scale"]
        sd range by auto
    with False fit_ok_scaled [OF rnd valid s(1,2) wh] show ?thesis
      by (simp add: fitRenderRequestToFrameBudget_def Let_def scale_def del: not_le de_Morgan_conj)
  qed
qed

section \<open>Properties\<close>

text \<open>
  C34. Every valid render request can be fitted: the shrinking loop ends, the frame is non-empty, its stride
  and byte count are exact in their 32- and 64-bit types, it fits one shared segment together with the
  header, the request that reaches the engine has canvas dimensions within the engine limit, and a tile
  starts inside the scaled canvas and has the size of the frame.
\<close>

theorem fit_within_budget:
  assumes "ld_rounding rnd" and "isValidRenderRequest r = Valid"
  shows "\<exists>f. fitRenderRequestToFrameBudget rnd r = Some f \<and> fit_ok r f"
  using assms by (rule fit_returns)

definition wide_request :: RenderRequest where
  "wide_request = \<lparr>rr_page = 0, rr_width = 16384, rr_height = 8192, rr_tile = None, rr_cancelTransferId = 0,
     rr_includeLinks = False, rr_generation = 0\<rparr>"

lemma exact_rounding: "ld_rounding (\<lambda>x. x)"
  by (simp add: ld_rounding_def mono_def)

theorem fit_within_budget_witness:
  "isValidRenderRequest wide_request = Valid \<and> ld_rounding (\<lambda>x. x)
   \<and> (\<exists>f. fitRenderRequestToFrameBudget (\<lambda>x. x) wide_request = Some f
        \<and> unat (fit_frameDataBytes f) + 64 \<le> MaxSharedFrameBytes)"
proof -
  have "isValidRenderRequest wide_request = Valid"
    by (simp add: isValidRenderRequest_iff wide_request_def limits)
  from this exact_rounding fit_within_budget [OF exact_rounding this] show ?thesis
    by (auto simp: fit_ok_def frame_layout_def limits split: option.splits)
qed

text \<open>
  A valid request whose frame fits the segment and whose canvas is within the engine limit reaches the
  engine unchanged, at any rounding precision.
\<close>

lemma fit_leaves_small_requests:
  assumes "ld_rounding rnd" "isValidRenderRequest r = Valid"
    and "source_width r * source_height r * 4 + 64 \<le> 134217728"
    and "isValidRenderDimensions (rr_width r) (rr_height r) (rr_tile r \<noteq> None)"
  shows "map_option fit_request (fitRenderRequestToFrameBudget rnd r) = Some r"
proof -
  note range = valid_request_range [OF assms(2)]
  have "\<not> rgbaDataBytes (source_width r) (source_height r) > maxFrameDataBytes"
    using rgba_over_budget [of "source_width r" "source_height r"] range assms(3) by auto
  moreover have "canvas_scale rnd r = 1" using canvas_scale_one [OF assms(1) range(1-4)] assms(4) by simp
  ultimately show ?thesis by (simp add: fitRenderRequestToFrameBudget_def not_less Let_def)
qed

text \<open>
  The idle-trim presets are ordered: whenever the conservative preset trims, so does the balanced one, and
  whenever the balanced one does, so does the aggressive one; no preset trims before the event loop has been
  idle for its poll quantum; an unknown configured level behaves as the balanced preset.
\<close>

lemma idle_trim_presets:
  "(shouldIdleTrim n b i s (idleTrimThresholdsForLevel 1) \<longrightarrow> shouldIdleTrim n b i s (idleTrimThresholdsForLevel 2))
   \<and> (shouldIdleTrim n b i s (idleTrimThresholdsForLevel 2) \<longrightarrow> shouldIdleTrim n b i s (idleTrimThresholdsForLevel 3))
   \<and> (shouldIdleTrim n b i s (idleTrimThresholdsForLevel (normalizeIdleTrim level)) \<longrightarrow>
        (if level = 0 then 2000 else idleTrimPollMsForLevel (normalizeIdleTrim level)) \<le> i)
   \<and> (level < 0 \<or> level > 3 \<longrightarrow> idleTrimThresholdsForLevel (normalizeIdleTrim level) = idleTrimThresholdsForLevel 2)"
  by (auto simp: shouldIdleTrim_def idleTrimThresholdsForLevel_def IdleTrimThresholds_default_def normalizeIdleTrim_def
      idleTrimPollMsForLevel_def limits split: if_splits)

end
