(* ===== verification/Frame_Pool.thy ===== *)
theory Frame_Pool
  imports Frame_Buffer
begin

text \<open>
  The worker's render storage (\<^verbatim>\<open>src/worker/runtime/frame_pool.hpp\<close> and \<^verbatim>\<open>frame_pool.cpp\<close>, with
  \<open>createMemfd\<close> of \<^verbatim>\<open>src/worker/sys/sys.cpp\<close>): reusable shared-memory slots that are leased to the
  plugin with every published frame, and given back by lease id. The theory models the four operations,
  the system calls they depend on as a record of answers, and the serial protocol in which the worker
  uses them; it proves the storage limits, the freshness of leases over the whole life of the pool and
  that every descriptor the pool opens is owned by exactly one slot or frame, or closed.
\<close>

section \<open>The system calls\<close>

text \<open>
  What the kernel answers: a descriptor or a negative number from \<open>memfd_create\<close>, zero from a
  successful \<open>ftruncate\<close> and \<open>fcntl\<close>, the text of \<open>errno\<close>, and the address that \<open>mmap\<close> chose
  (\<open>None\<close> is \<open>MAP_FAILED\<close>).
\<close>

record Kernel =
  k_memfd_create :: int
  k_ftruncate :: "int \<Rightarrow> nat \<Rightarrow> int"
  k_add_seals :: "int \<Rightarrow> int"
  k_strerror :: string
  k_mmap :: "nat \<Rightarrow> int \<Rightarrow> nat option"

text \<open>The second component lists the descriptors that the call closed.\<close>

definition createMemfd :: "Kernel \<Rightarrow> string \<Rightarrow> nat \<Rightarrow> (string + int) \<times> int list" where
  "createMemfd k name sz =
     (if name = [] \<or> sz = 0 \<or> sz > 2 ^ 63 - 1 then (Inl ''memfd name or size is invalid'', [])
      else
        let fd = k_memfd_create k in
        if fd < 0 \<or> k_ftruncate k fd sz \<noteq> 0 \<or> k_add_seals k fd \<noteq> 0
        then (Inl (k_strerror k), if fd \<ge> 0 then [fd] else [])
        else (Inr fd, []))"

section \<open>The pool\<close>

record Slot =
  sl_id :: u64
  sl_leaseId :: u64
  sl_capacity :: nat
  sl_fd :: int
  sl_mapping :: "nat option"
  sl_leased :: bool

definition Slot_default :: Slot where
  "Slot_default = \<lparr>sl_id = 0, sl_leaseId = 0, sl_capacity = 0, sl_fd = - 1, sl_mapping = None, sl_leased = False\<rparr>"

text \<open>The pointer \<open>m_slot\<close> into the vector is an index.\<close>

record Frame =
  fr_slot :: "nat option"
  fr_allocation :: Slot
  fr_reusable :: bool

record Lease =
  ls_slotId :: u64
  ls_leaseId :: u64

record FramePool =
  fp_slots :: "Slot list"
  fp_bytes :: nat
  fp_nextSlotId :: u64

definition FramePool_default :: FramePool where
  "FramePool_default = \<lparr>fp_slots = [], fp_bytes = 0, fp_nextSlotId = 1\<rparr>"

definition frame_data :: "FramePool \<Rightarrow> Frame \<Rightarrow> nat option" where
  "frame_data pool frame =
     (case fr_slot frame of Some i \<Rightarrow> sl_mapping (fp_slots pool ! i) | None \<Rightarrow> sl_mapping (fr_allocation frame))"

definition frame_descriptor :: "FramePool \<Rightarrow> Frame \<Rightarrow> int" where
  "frame_descriptor pool frame =
     (case fr_slot frame of Some i \<Rightarrow> sl_fd (fp_slots pool ! i) | None \<Rightarrow> sl_fd (fr_allocation frame))"

definition needsTransfer :: "Frame \<Rightarrow> bool" where
  "needsTransfer frame = (fr_slot frame = None)"

text \<open>The loop over \<open>m_slots\<close> that keeps the first of the smallest idle slots that fit.\<close>

fun fit_loop :: "Slot list \<Rightarrow> nat \<Rightarrow> nat option \<Rightarrow> nat \<Rightarrow> Slot list \<Rightarrow> nat option" where
  "fit_loop slots bytes best k [] = best"
| "fit_loop slots bytes best k (candidate # rest) =
     fit_loop slots bytes
       (if \<not> sl_leased candidate \<and> sl_capacity candidate \<ge> bytes
           \<and> (case best of None \<Rightarrow> True | Some b \<Rightarrow> sl_capacity candidate < sl_capacity (slots ! b))
        then Some k else best)
       (Suc k) rest"

definition acquireFrame :: "Kernel \<Rightarrow> FramePool \<Rightarrow> nat \<Rightarrow> FramePool \<times> (Error + Frame) \<times> int list" where
  "acquireFrame k pool bytes =
     (if bytes > MaxSharedFrameBytes
      then (pool, Inl \<lparr>err_code = EC_ResourceLimit, err_operation = ''render'',
                       err_message = ''frame exceeds transfer limit''\<rparr>, [])
      else case fit_loop (fp_slots pool) bytes None 0 (fp_slots pool) of
        Some i \<Rightarrow> (pool, Inr \<lparr>fr_slot = Some i, fr_allocation = Slot_default, fr_reusable = False\<rparr>, [])
      | None \<Rightarrow>
        (case createMemfd k ''mupdf-frame'' bytes of
           (Inl e, shut) \<Rightarrow>
             (pool, Inl \<lparr>err_code = EC_ResourceLimit, err_operation = ''render'', err_message = e\<rparr>, shut)
         | (Inr fd, shut) \<Rightarrow>
           (case k_mmap k bytes fd of
              None \<Rightarrow>
                (pool, Inl \<lparr>err_code = EC_Internal, err_operation = ''render'',
                            err_message = ''could not map frame''\<rparr>, shut @ [fd])
            | Some address \<Rightarrow>
              let reusable = (length (fp_slots pool) < MaxFrameSlotCount
                    \<and> bytes \<le> size_sub MaxSharedFrameBytes (fp_bytes pool));
                  slotId = (if reusable then fp_nextSlotId pool else 0);
                  pool' = (if reusable then pool\<lparr>fp_nextSlotId := fp_nextSlotId pool + 1\<rparr> else pool)
              in (pool', Inr \<lparr>fr_slot = None,
                    fr_allocation = \<lparr>sl_id = slotId, sl_leaseId = 0, sl_capacity = bytes, sl_fd = fd,
                                     sl_mapping = Some address, sl_leased = False\<rparr>,
                    fr_reusable = reusable\<rparr>, shut))))"

text \<open>
  Publishing moves a reusable allocation into the pool; the moved-from slot of the frame keeps its
  scalar members and loses its descriptor and its mapping. The lease id is incremented before it is
  returned.
\<close>

definition publish_move :: "FramePool \<Rightarrow> Frame \<Rightarrow> FramePool \<times> Frame" where
  "publish_move pool frame =
     (if fr_slot frame = None \<and> fr_reusable frame
      then (pool\<lparr>fp_slots := fp_slots pool @ [fr_allocation frame],
                 fp_bytes := size_add (fp_bytes pool) (sl_capacity (fr_allocation frame))\<rparr>,
            frame\<lparr>fr_slot := Some (length (fp_slots pool)),
                  fr_allocation := (fr_allocation frame)\<lparr>sl_fd := - 1, sl_mapping := None\<rparr>\<rparr>)
      else (pool, frame))"

definition publishFrame :: "FramePool \<Rightarrow> Frame \<Rightarrow> FramePool \<times> Frame \<times> Lease" where
  "publishFrame pool0 frame0 =
     (case publish_move pool0 frame0 of
        (pool, frame) \<Rightarrow>
        (case fr_slot frame of
           None \<Rightarrow> (pool, frame, \<lparr>ls_slotId = 0, ls_leaseId = 0\<rparr>)
         | Some i \<Rightarrow>
           let slot = (fp_slots pool ! i)\<lparr>sl_leased := True, sl_leaseId := sl_leaseId (fp_slots pool ! i) + 1\<rparr>
           in (pool\<lparr>fp_slots := (fp_slots pool)[i := slot]\<rparr>, frame,
               \<lparr>ls_slotId = sl_id slot, ls_leaseId = sl_leaseId slot\<rparr>)))"

text \<open>The first slot with the given id, as \<open>std::find_if\<close> finds it.\<close>

fun release_first :: "u64 \<Rightarrow> u64 \<Rightarrow> Slot list \<Rightarrow> Slot list" where
  "release_first slotId leaseId [] = []"
| "release_first slotId leaseId (slot # rest) =
     (if sl_id slot = slotId
      then (if sl_leased slot \<and> sl_leaseId slot = leaseId then slot\<lparr>sl_leased := False\<rparr> else slot) # rest
      else slot # release_first slotId leaseId rest)"

definition releaseFrame :: "u64 \<Rightarrow> u64 \<Rightarrow> FramePool \<Rightarrow> FramePool" where
  "releaseFrame slotId leaseId pool = pool\<lparr>fp_slots := release_first slotId leaseId (fp_slots pool)\<rparr>"

text \<open>Clearing destroys the slots, which closes their descriptors and unmaps their memory.\<close>

definition clearFrames :: "FramePool \<Rightarrow> FramePool" where
  "clearFrames pool = pool\<lparr>fp_slots := [], fp_bytes := 0\<rparr>"

section \<open>Choosing a slot\<close>

definition fits :: "Slot list \<Rightarrow> nat \<Rightarrow> nat \<Rightarrow> bool" where
  "fits slots bytes i \<longleftrightarrow> i < length slots \<and> \<not> sl_leased (slots ! i) \<and> bytes \<le> sl_capacity (slots ! i)"

definition best_among :: "Slot list \<Rightarrow> nat \<Rightarrow> nat \<Rightarrow> nat option \<Rightarrow> bool" where
  "best_among slots bytes n best \<longleftrightarrow>
     (case best of
        None \<Rightarrow> \<forall>j<n. \<not> fits slots bytes j
      | Some i \<Rightarrow> i < n \<and> fits slots bytes i
          \<and> (\<forall>j<n. fits slots bytes j \<longrightarrow>
               sl_capacity (slots ! i) \<le> sl_capacity (slots ! j)
               \<and> (j < i \<longrightarrow> sl_capacity (slots ! i) < sl_capacity (slots ! j))))"

lemma best_among_step:
  assumes "best_among slots bytes k best" "k < length slots"
  shows "best_among slots bytes (Suc k)
    (if \<not> sl_leased (slots ! k) \<and> sl_capacity (slots ! k) \<ge> bytes
        \<and> (case best of None \<Rightarrow> True | Some b \<Rightarrow> sl_capacity (slots ! k) < sl_capacity (slots ! b))
     then Some k else best)"
proof (cases best)
  case None
  with assms show ?thesis by (auto simp: best_among_def fits_def less_Suc_eq)
next
  case (Some b)
  with assms have "fits slots bytes b" by (simp add: best_among_def)
  with Some assms show ?thesis
    by (fastforce simp: best_among_def fits_def less_Suc_eq)
qed

lemma fit_loop_best:
  "best_among slots bytes k best \<Longrightarrow> rest = drop k slots \<Longrightarrow> k \<le> length slots \<Longrightarrow>
     best_among slots bytes (length slots) (fit_loop slots bytes best k rest)"
proof (induction slots bytes best k rest rule: fit_loop.induct)
  case (1 slots bytes best k)
  then show ?case by simp
next
  case (2 slots bytes best k candidate rest)
  from "2.prems"(2,3) have k: "k < length slots" by (cases "k = length slots") auto
  with "2.prems"(2) have c: "candidate = slots ! k" "rest = drop (Suc k) slots"
    by (metis Cons_nth_drop_Suc list.inject)+
  show ?case
    using "2.IH" [unfolded c] best_among_step [OF "2.prems"(1) k] k unfolding c fit_loop.simps
    by (simp only: Suc_le_eq refl simp_thms)
qed

lemma fit_loop_spec: "best_among slots bytes (length slots) (fit_loop slots bytes None 0 slots)"
  by (rule fit_loop_best) (simp_all add: best_among_def)

lemma fit_loop_SomeD:
  "fit_loop slots bytes None 0 slots = Some i \<Longrightarrow>
     i < length slots \<and> \<not> sl_leased (slots ! i) \<and> bytes \<le> sl_capacity (slots ! i)"
  using fit_loop_spec [of slots bytes] by (simp add: best_among_def fits_def)

section \<open>Leases as an abstract table\<close>

definition outstanding :: "FramePool \<Rightarrow> Lease set" where
  "outstanding pool = {\<lparr>ls_slotId = sl_id s, ls_leaseId = sl_leaseId s\<rparr> | s. s \<in> set (fp_slots pool) \<and> sl_leased s}"

definition pool_inv :: "FramePool \<Rightarrow> bool" where
  "pool_inv pool \<longleftrightarrow> length (fp_slots pool) \<le> MaxFrameSlotCount
     \<and> fp_bytes pool = sum_list (map sl_capacity (fp_slots pool)) \<and> fp_bytes pool \<le> MaxSharedFrameBytes
     \<and> distinct (map sl_id (fp_slots pool)) \<and> (\<forall>s\<in>set (fp_slots pool). sl_id s \<noteq> 0)"

lemma outstanding_alt:
  "outstanding pool = (\<lambda>s. \<lparr>ls_slotId = sl_id s, ls_leaseId = sl_leaseId s\<rparr>) ` {s \<in> set (fp_slots pool). sl_leased s}"
  by (auto simp: outstanding_def)

lemma release_first_ids [simp]:
  "map sl_id (release_first i l slots) = map sl_id slots"
  "map sl_capacity (release_first i l slots) = map sl_capacity slots"
  by (induction i l slots rule: release_first.induct) auto

lemma release_first_length [simp]: "length (release_first i l slots) = length slots"
  using release_first_ids(1) by (metis length_map)

lemma release_first_set:
  "distinct (map sl_id slots) \<Longrightarrow>
     set (release_first i l slots)
     = (\<lambda>s. if sl_id s = i \<and> sl_leased s \<and> sl_leaseId s = l then s\<lparr>sl_leased := False\<rparr> else s) ` set slots"
proof (induction i l slots rule: release_first.induct)
  case (1 i l)
  then show ?case by simp
next
  case (2 i l slot rest)
  show ?case
  proof (cases "sl_id slot = i")
    case True
    with "2.prems" have "\<forall>s\<in>set rest. sl_id s \<noteq> i" by (auto simp: image_iff)
    then have "(\<lambda>s. if sl_id s = i \<and> sl_leased s \<and> sl_leaseId s = l then s\<lparr>sl_leased := False\<rparr> else s) ` set rest
      = (\<lambda>s. s) ` set rest" by (intro image_cong) auto
    with True show ?thesis by simp
  next
    case False
    with 2 show ?thesis by simp
  qed
qed

lemma release_first_nth:
  "k < length slots \<Longrightarrow>
     sl_id (release_first i l slots ! k) = sl_id (slots ! k)
     \<and> sl_leaseId (release_first i l slots ! k) = sl_leaseId (slots ! k)
     \<and> (sl_leased (release_first i l slots ! k) \<longrightarrow> sl_leased (slots ! k))"
proof (induction i l slots arbitrary: k rule: release_first.induct)
  case (1 i l)
  then show ?case by simp
next
  case (2 i l slot rest)
  then show ?case by (cases k) simp_all
qed

lemma releaseFrame_inv: "pool_inv pool \<Longrightarrow> pool_inv (releaseFrame i l pool)"
  unfolding pool_inv_def releaseFrame_def
  by (auto simp: release_first_set)

lemma cleared_elements:
  assumes "\<And>s. \<not> P (f s)"
  shows "{s \<in> (\<lambda>s. if Q s \<and> P s then f s else s) ` S. P s} = {s \<in> S. P s \<and> \<not> Q s}"
  using assms by (auto split: if_splits)

lemma releaseFrame_outstanding:
  assumes "pool_inv pool"
  shows "outstanding (releaseFrame i l pool) = outstanding pool - {\<lparr>ls_slotId = i, ls_leaseId = l\<rparr>}"
proof -
  have d: "distinct (map sl_id (fp_slots pool))" using assms by (simp add: pool_inv_def)
  have "{s \<in> set (release_first i l (fp_slots pool)). sl_leased s}
    = {s \<in> set (fp_slots pool). sl_leased s \<and> \<not> (sl_id s = i \<and> sl_leaseId s = l)}"
    unfolding release_first_set [OF d]
    using cleared_elements [of sl_leased "\<lambda>s. s\<lparr>sl_leased := False\<rparr>" "\<lambda>s. sl_id s = i \<and> sl_leaseId s = l" "set (fp_slots pool)"]
    by (simp add: conj_ac)
  then show ?thesis by (auto simp: outstanding_alt releaseFrame_def)
qed

lemma clearFrames_inv: "pool_inv (clearFrames pool)"
  by (simp add: pool_inv_def clearFrames_def)

lemma clearFrames_outstanding [simp]: "outstanding (clearFrames pool) = {}"
  by (simp add: outstanding_def clearFrames_def)

lemma outstanding_single:
  assumes "pool_inv pool" "a \<in> outstanding pool" "b \<in> outstanding pool" "ls_slotId a = ls_slotId b"
  shows "a = b"
proof -
  have "inj_on sl_id (set (fp_slots pool))" using assms(1) by (simp add: pool_inv_def distinct_map)
  moreover obtain s t where "s \<in> set (fp_slots pool)" "a = \<lparr>ls_slotId = sl_id s, ls_leaseId = sl_leaseId s\<rparr>"
    "t \<in> set (fp_slots pool)" "b = \<lparr>ls_slotId = sl_id t, ls_leaseId = sl_leaseId t\<rparr>"
    using assms(2,3) unfolding outstanding_def by blast
  ultimately show ?thesis using assms(4) by (simp add: inj_on_eq_iff)
qed

text \<open>
  What a holder of leases may rely on: releases remove exactly the named lease, clearing removes all,
  and a slot has one holder at a time.
\<close>

locale lease_table =
  fixes invar :: "'s \<Rightarrow> bool"
    and leases :: "'s \<Rightarrow> Lease set"
    and release :: "u64 \<Rightarrow> u64 \<Rightarrow> 's \<Rightarrow> 's"
    and clear :: "'s \<Rightarrow> 's"
  assumes release_invar: "invar s \<Longrightarrow> invar (release i l s)"
    and release_leases: "invar s \<Longrightarrow> leases (release i l s) = leases s - {\<lparr>ls_slotId = i, ls_leaseId = l\<rparr>}"
    and clear_invar: "invar s \<Longrightarrow> invar (clear s)"
    and clear_leases: "invar s \<Longrightarrow> leases (clear s) = {}"
    and one_holder: "invar s \<Longrightarrow> a \<in> leases s \<Longrightarrow> b \<in> leases s \<Longrightarrow> ls_slotId a = ls_slotId b \<Longrightarrow> a = b"
begin

lemma release_all:
  "invar s \<Longrightarrow>
     invar (fold (\<lambda>(i, l). release i l) batch s)
     \<and> leases (fold (\<lambda>(i, l). release i l) batch s) = leases s - (\<lambda>(i, l). \<lparr>ls_slotId = i, ls_leaseId = l\<rparr>) ` set batch"
  by (induction batch arbitrary: s) (auto simp: release_invar release_leases)

lemma stale_release: "invar s \<Longrightarrow> \<lparr>ls_slotId = i, ls_leaseId = l\<rparr> \<notin> leases s \<Longrightarrow> leases (release i l s) = leases s"
  by (simp add: release_leases)

lemma release_after_clear: "invar s \<Longrightarrow> leases (release i l (clear s)) = {}"
  by (simp add: release_leases clear_leases clear_invar)

end

interpretation pool: lease_table pool_inv outstanding releaseFrame clearFrames
  by unfold_locales (auto simp: releaseFrame_inv releaseFrame_outstanding clearFrames_inv intro: outstanding_single)

section \<open>The serial protocol\<close>

text \<open>
  The worker uses the pool serially: it acquires a frame, publishes or discards it, and handles release
  and close requests in between. \<open>pool_run n pool frame issued\<close> holds after \<open>n\<close> operations that
  leave the pool, the frame in hand and the set of all leases issued since the worker started.
\<close>

abbreviation lease_of :: "Slot \<Rightarrow> Lease" where
  "lease_of s \<equiv> \<lparr>ls_slotId = sl_id s, ls_leaseId = sl_leaseId s\<rparr>"

inductive pool_run :: "nat \<Rightarrow> FramePool \<Rightarrow> Frame option \<Rightarrow> Lease set \<Rightarrow> bool" where
  start: "pool_run 0 FramePool_default None {}"
| acquired: "pool_run n pool frame issued \<Longrightarrow> acquireFrame k pool bytes = (pool', Inr frame', shut) \<Longrightarrow>
    pool_run (Suc n) pool' (Some frame') issued"
| refused: "pool_run n pool frame issued \<Longrightarrow> acquireFrame k pool bytes = (pool', Inl e, shut) \<Longrightarrow>
    pool_run (Suc n) pool' None issued"
| discarded: "pool_run n pool frame issued \<Longrightarrow> pool_run (Suc n) pool None issued"
| published: "pool_run n pool (Some frame) issued \<Longrightarrow> publishFrame pool frame = (pool', frame', lease) \<Longrightarrow>
    pool_run (Suc n) pool' None (if fr_slot frame' = None then issued else insert lease issued)"
| released: "pool_run n pool frame issued \<Longrightarrow> pool_run (Suc n) (releaseFrame i l pool) frame issued"
| cleared: "pool_run n pool frame issued \<Longrightarrow> pool_run (Suc n) (clearFrames pool) None issued"

definition ids_inv :: "nat \<Rightarrow> FramePool \<Rightarrow> Lease set \<Rightarrow> bool" where
  "ids_inv n pool issued \<longleftrightarrow> fp_nextSlotId pool \<noteq> 0 \<and> unat (fp_nextSlotId pool) \<le> n + 1
     \<and> (\<forall>s\<in>set (fp_slots pool). unat (sl_id s) < unat (fp_nextSlotId pool) \<and> unat (sl_leaseId s) \<le> n)
     \<and> (\<forall>lease\<in>issued. unat (ls_slotId lease) < unat (fp_nextSlotId pool)
          \<and> (\<forall>s\<in>set (fp_slots pool). sl_id s = ls_slotId lease \<longrightarrow> unat (ls_leaseId lease) \<le> unat (sl_leaseId s)))
     \<and> (\<forall>s\<in>set (fp_slots pool). sl_leased s \<longrightarrow> lease_of s \<in> issued)"

definition frame_ok :: "FramePool \<Rightarrow> Lease set \<Rightarrow> Frame \<Rightarrow> bool" where
  "frame_ok pool issued frame \<longleftrightarrow>
     (case fr_slot frame of
        Some i \<Rightarrow> i < length (fp_slots pool) \<and> \<not> sl_leased (fp_slots pool ! i)
      | None \<Rightarrow> fr_reusable frame \<longrightarrow>
          (let a = fr_allocation frame in
             sl_id a \<noteq> 0 \<and> unat (sl_id a) < unat (fp_nextSlotId pool) \<and> sl_id a \<notin> sl_id ` set (fp_slots pool)
             \<and> sl_id a \<notin> ls_slotId ` issued \<and> sl_leaseId a = 0 \<and> \<not> sl_leased a
             \<and> length (fp_slots pool) < MaxFrameSlotCount \<and> fp_bytes pool + sl_capacity a \<le> MaxSharedFrameBytes))"

definition session_inv :: "nat \<Rightarrow> FramePool \<Rightarrow> Frame option \<Rightarrow> Lease set \<Rightarrow> bool" where
  "session_inv n pool frame issued \<longleftrightarrow>
     pool_inv pool \<and> ids_inv n pool issued \<and> (\<forall>f. frame = Some f \<longrightarrow> frame_ok pool issued f)"

lemma ids_inv_mono: "ids_inv n pool issued \<Longrightarrow> n \<le> m \<Longrightarrow> ids_inv m pool issued"
  by (fastforce simp: ids_inv_def)

lemma acquireFrame_Inl_pool: "acquireFrame k pool bytes = (pool', Inl e, shut) \<Longrightarrow> pool' = pool"
  by (auto simp: acquireFrame_def Let_def split: if_splits option.splits prod.splits sum.splits)

lemma acquireFrame_InrD:
  assumes "acquireFrame k pool bytes = (pool', Inr frame, shut)"
  shows "bytes \<le> MaxSharedFrameBytes \<and>
    ((\<exists>i. fr_slot frame = Some i \<and> pool' = pool \<and> fit_loop (fp_slots pool) bytes None 0 (fp_slots pool) = Some i)
     \<or> (fr_slot frame = None \<and> \<not> fr_reusable frame \<and> pool' = pool)
     \<or> (fr_slot frame = None \<and> fr_reusable frame \<and> length (fp_slots pool) < MaxFrameSlotCount
        \<and> bytes \<le> size_sub MaxSharedFrameBytes (fp_bytes pool)
        \<and> pool' = pool\<lparr>fp_nextSlotId := fp_nextSlotId pool + 1\<rparr>
        \<and> sl_id (fr_allocation frame) = fp_nextSlotId pool \<and> sl_leaseId (fr_allocation frame) = 0
        \<and> sl_capacity (fr_allocation frame) = bytes \<and> \<not> sl_leased (fr_allocation frame)))"
  using assms
  by (auto simp: acquireFrame_def Let_def split: if_splits option.splits prod.splits sum.splits)

lemma acquireFrame_session:
  assumes inv: "session_inv n pool frame issued" and n: "n < 2 ^ 64 - 2"
    and acq: "acquireFrame k pool bytes = (pool', Inr frame', shut)"
  shows "session_inv (Suc n) pool' (Some frame') issued"
proof -
  have p: "pool_inv pool" and ids: "ids_inv n pool issued" using inv by (auto simp: session_inv_def)
  consider (slot) i where "fr_slot frame' = Some i" "pool' = pool"
        "fit_loop (fp_slots pool) bytes None 0 (fp_slots pool) = Some i"
    | (transient) "fr_slot frame' = None" "\<not> fr_reusable frame'" "pool' = pool"
    | (reusable) "fr_slot frame' = None" "fr_reusable frame'" "pool' = pool\<lparr>fp_nextSlotId := fp_nextSlotId pool + 1\<rparr>"
        "sl_id (fr_allocation frame') = fp_nextSlotId pool" "sl_leaseId (fr_allocation frame') = 0"
        "length (fp_slots pool) < MaxFrameSlotCount" "bytes \<le> size_sub MaxSharedFrameBytes (fp_bytes pool)"
        "sl_capacity (fr_allocation frame') = bytes" "\<not> sl_leased (fr_allocation frame')"
    using acquireFrame_InrD [OF acq] by (elim conjE disjE exE) meson+
  then show ?thesis
  proof cases
    case slot
    with fit_loop_SomeD [OF slot(3)] p ids_inv_mono [OF ids, of "Suc n"] show ?thesis
      by (simp add: session_inv_def frame_ok_def)
  next
    case transient
    with p ids_inv_mono [OF ids, of "Suc n"] show ?thesis by (simp add: session_inv_def frame_ok_def)
  next
    case reusable
    have le: "unat (fp_nextSlotId pool) \<le> n + 1" and nz: "fp_nextSlotId pool \<noteq> 0"
      and below: "\<And>s. s \<in> set (fp_slots pool) \<Longrightarrow> unat (sl_id s) < unat (fp_nextSlotId pool)"
      and issued: "\<And>l. l \<in> issued \<Longrightarrow> unat (ls_slotId l) < unat (fp_nextSlotId pool)"
      using ids by (auto simp: ids_inv_def)
    have suc: "unat (fp_nextSlotId pool + 1) = unat (fp_nextSlotId pool) + 1"
      using le n by (intro unat_inc_u64) simp
    have nz': "fp_nextSlotId pool + 1 \<noteq> 0" using le n by (intro inc_u64_nonzero) simp
    have new: "fp_nextSlotId pool \<notin> sl_id ` set (fp_slots pool)" "fp_nextSlotId pool \<notin> ls_slotId ` issued"
      using below issued by fastforce+
    have room: "fp_bytes pool + bytes \<le> MaxSharedFrameBytes"
      using p reusable(7) by (simp add: pool_inv_def) linarith
    have "ids_inv (Suc n) pool' issued"
      using ids nz' by (fastforce simp: ids_inv_def reusable(3) suc)
    moreover have "frame_ok pool' issued frame'"
      unfolding frame_ok_def Let_def using reusable nz new room by (simp add: suc)
    moreover have "pool_inv pool'" using p by (simp add: pool_inv_def reusable(3))
    ultimately show ?thesis by (simp add: session_inv_def)
  qed
qed

lemma publish_move_session:
  assumes inv: "session_inv n pool (Some frame) issued" and mv: "publish_move pool frame = (pool', frame')"
  shows "session_inv n pool' (Some frame') issued \<and> outstanding pool' = outstanding pool"
proof (cases "fr_slot frame = None \<and> fr_reusable frame")
  case True
  let ?a = "fr_allocation frame"
  have p: "pool_inv pool" and ids: "ids_inv n pool issued" and f: "frame_ok pool issued frame"
    using inv by (auto simp: session_inv_def)
  from True f have a: "sl_id ?a \<noteq> 0" "unat (sl_id ?a) < unat (fp_nextSlotId pool)" "sl_id ?a \<notin> sl_id ` set (fp_slots pool)"
    "sl_id ?a \<notin> ls_slotId ` issued" "sl_leaseId ?a = 0" "\<not> sl_leased ?a" "length (fp_slots pool) < MaxFrameSlotCount"
    "fp_bytes pool + sl_capacity ?a \<le> MaxSharedFrameBytes"
    by (simp_all add: frame_ok_def Let_def)
  from a(8) have "size_add (fp_bytes pool) (sl_capacity ?a) = fp_bytes pool + sl_capacity ?a"
    by (intro size_add_exact) (simp add: limits)
  with True mv have pool': "pool' = pool\<lparr>fp_slots := fp_slots pool @ [?a], fp_bytes := fp_bytes pool + sl_capacity ?a\<rparr>"
    and frame': "fr_slot frame' = Some (length (fp_slots pool))"
    by (auto simp: publish_move_def)
  have "pool_inv pool'" using p a by (simp add: pool_inv_def pool')
  moreover have "ids_inv n pool' issued"
    using ids a(2,4,5,6) by (auto simp: ids_inv_def pool' image_iff)
  moreover have "frame_ok pool' issued frame'" using a(6) by (simp add: frame_ok_def frame' pool')
  moreover have "outstanding pool' = outstanding pool"
    using a(6) by (simp add: outstanding_alt pool' conj_disj_distribL conj_disj_distribR Collect_disj_eq)
      (rule arg_cong [where f = "image _"], auto)
  ultimately show ?thesis by (simp add: session_inv_def)
next
  case False
  with mv inv show ?thesis by (auto simp: publish_move_def)
qed

lemma outstanding_update:
  assumes "pool_inv pool" "i < length (fp_slots pool)" "\<not> sl_leased (fp_slots pool ! i)" "sl_leased slot"
  shows "outstanding (pool\<lparr>fp_slots := (fp_slots pool)[i := slot]\<rparr>) = insert (lease_of slot) (outstanding pool)"
proof -
  have "distinct (fp_slots pool)" using assms(1) by (simp add: pool_inv_def distinct_map)
  then have "{s \<in> set ((fp_slots pool)[i := slot]). sl_leased s} = insert slot {s \<in> set (fp_slots pool). sl_leased s}"
    using assms(2-4) by (auto simp: set_update_distinct)
  then show ?thesis by (simp add: outstanding_alt)
qed

lemma pool_inv_update:
  assumes "pool_inv pool" "i < length (fp_slots pool)" "sl_id slot = sl_id (fp_slots pool ! i)"
    "sl_capacity slot = sl_capacity (fp_slots pool ! i)"
  shows "pool_inv (pool\<lparr>fp_slots := (fp_slots pool)[i := slot]\<rparr>)"
proof -
  have m: "map sl_id ((fp_slots pool)[i := slot]) = map sl_id (fp_slots pool)"
    "map sl_capacity ((fp_slots pool)[i := slot]) = map sl_capacity (fp_slots pool)"
    using assms(2-4) by (simp_all add: map_update list_update_same_conv)
  have "\<forall>s\<in>set ((fp_slots pool)[i := slot]). sl_id s \<noteq> 0"
    using assms by (auto simp: pool_inv_def dest!: subsetD [OF set_update_subset_insert])
  with assms(1) show ?thesis unfolding pool_inv_def by (simp add: m)
qed

lemma grant_fresh:
  assumes inv: "session_inv n pool (Some frame) issued" and n: "n < 2 ^ 64 - 2" and i: "fr_slot frame = Some i"
    and slot: "slot = (fp_slots pool ! i)\<lparr>sl_leased := True, sl_leaseId := sl_leaseId (fp_slots pool ! i) + 1\<rparr>"
    and pool': "pool' = pool\<lparr>fp_slots := (fp_slots pool)[i := slot]\<rparr>"
  shows "session_inv (Suc n) pool' None (insert (lease_of slot) issued) \<and> lease_of slot \<notin> issued
    \<and> outstanding pool' = insert (lease_of slot) (outstanding pool)"
proof -
  let ?s = "fp_slots pool ! i"
  have p: "pool_inv pool" and ids: "ids_inv n pool issued" and f: "i < length (fp_slots pool)" "\<not> sl_leased ?s"
    using inv i by (auto simp: session_inv_def frame_ok_def)
  have mem: "?s \<in> set (fp_slots pool)" using f(1) by simp
  then have sid: "unat (sl_id ?s) < unat (fp_nextSlotId pool)" and lid: "unat (sl_leaseId ?s) \<le> n"
    using ids by (auto simp: ids_inv_def)
  have suc: "unat (sl_leaseId ?s + 1) = unat (sl_leaseId ?s) + 1" using lid n by (intro unat_inc_u64) simp
  have old: "unat (ls_leaseId l) \<le> unat (sl_leaseId ?s)" if "l \<in> issued" "ls_slotId l = sl_id ?s" for l
    using ids mem that by (auto simp: ids_inv_def)
  have fresh: "lease_of slot \<notin> issued"
    using old [of "lease_of slot"] by (auto simp: slot suc)
  have uniq: "s = ?s" if "s \<in> set (fp_slots pool)" "sl_id s = sl_id ?s" for s
    using p that mem by (metis distinct_map inj_onD pool_inv_def)
  have "ids_inv (Suc n) pool' (insert (lease_of slot) issued)"
  proof -
    have set': "set (fp_slots pool') \<subseteq> insert slot (set (fp_slots pool))"
      by (simp add: pool' set_update_subset_insert)
    have sl: "sl_id slot = sl_id ?s" "unat (sl_leaseId slot) = unat (sl_leaseId ?s) + 1" by (simp_all add: slot suc)
    show ?thesis
      unfolding ids_inv_def
    proof (intro conjI ballI impI)
      show "fp_nextSlotId pool' \<noteq> 0" "unat (fp_nextSlotId pool') \<le> Suc n + 1" using ids by (auto simp: ids_inv_def pool')
    next
      fix s assume "s \<in> set (fp_slots pool')"
      then consider "s = slot" | "s \<in> set (fp_slots pool)" using set' by blast
      then show "unat (sl_id s) < unat (fp_nextSlotId pool')" "unat (sl_leaseId s) \<le> Suc n"
        using ids sid lid by (cases; fastforce simp: ids_inv_def pool' sl)+
    next
      fix l assume "l \<in> insert (lease_of slot) issued"
      then show "unat (ls_slotId l) < unat (fp_nextSlotId pool')"
        using ids sid by (auto simp: ids_inv_def pool' sl(1))
    next
      fix l s assume l: "l \<in> insert (lease_of slot) issued" and s: "s \<in> set (fp_slots pool')" and eq: "sl_id s = ls_slotId l"
      have "distinct (fp_slots pool)" using p by (simp add: pool_inv_def distinct_map)
      then have "s = slot \<or> (s \<in> set (fp_slots pool) \<and> s \<noteq> ?s)" using s f(1) by (auto simp: pool' set_update_distinct)
      then show "unat (ls_leaseId l) \<le> unat (sl_leaseId s)"
        using l eq old [of l] uniq [of s] ids by (auto simp: sl ids_inv_def)
    next
      fix s assume "s \<in> set (fp_slots pool')" "sl_leased s"
      then show "lease_of s \<in> insert (lease_of slot) issued" using ids set' by (auto simp: ids_inv_def)
    qed
  qed
  moreover have "pool_inv pool'" unfolding pool' by (rule pool_inv_update [OF p f(1)]) (simp_all add: slot)
  moreover have "outstanding pool' = insert (lease_of slot) (outstanding pool)"
    unfolding pool' by (rule outstanding_update [OF p f]) (simp add: slot)
  ultimately show ?thesis using fresh by (simp add: session_inv_def)
qed

lemma publishFrame_session:
  assumes inv: "session_inv n pool (Some frame) issued" and n: "n < 2 ^ 64 - 2"
    and pub: "publishFrame pool frame = (pool', frame', lease)"
  shows "(fr_slot frame' = None \<longrightarrow> pool' = pool \<and> lease = \<lparr>ls_slotId = 0, ls_leaseId = 0\<rparr>)
    \<and> (fr_slot frame' \<noteq> None \<longrightarrow> lease \<notin> issued \<and> outstanding pool' = insert lease (outstanding pool))
    \<and> session_inv (Suc n) pool' None (if fr_slot frame' = None then issued else insert lease issued)"
proof -
  obtain pool1 frame1 where mv: "publish_move pool frame = (pool1, frame1)" by fastforce
  from publish_move_session [OF inv mv] have inv1: "session_inv n pool1 (Some frame1) issued"
    and out1: "outstanding pool1 = outstanding pool" by auto
  show ?thesis
  proof (cases "fr_slot frame1")
    case None
    with mv have "pool1 = pool" by (auto simp: publish_move_def split: if_splits)
    with None pub mv inv1 show ?thesis
      by (auto simp: publishFrame_def session_inv_def intro: ids_inv_mono)
  next
    case (Some i)
    define slot where "slot = (fp_slots pool1 ! i)\<lparr>sl_leased := True, sl_leaseId := sl_leaseId (fp_slots pool1 ! i) + 1\<rparr>"
    have "pool' = pool1\<lparr>fp_slots := (fp_slots pool1)[i := slot]\<rparr>" "frame' = frame1" "lease = lease_of slot"
      using pub by (simp_all add: publishFrame_def mv Some slot_def Let_def)
    with grant_fresh [OF inv1 n Some slot_def this(1)] Some out1 show ?thesis by simp
  qed
qed

lemma releaseFrame_session:
  assumes "session_inv n pool frame issued"
  shows "session_inv (Suc n) (releaseFrame i l pool) frame issued"
proof -
  let ?pool = "releaseFrame i l pool"
  have p: "pool_inv pool" and ids: "ids_inv (Suc n) pool issued" and d: "distinct (map sl_id (fp_slots pool))"
    using assms by (auto simp: session_inv_def pool_inv_def intro: ids_inv_mono)
  have old: "\<exists>t\<in>set (fp_slots pool). sl_id s = sl_id t \<and> sl_leaseId s = sl_leaseId t \<and> (sl_leased s \<longrightarrow> sl_leased t)"
    if "s \<in> set (fp_slots ?pool)" for s
  proof -
    from that obtain k where "k < length (fp_slots pool)" "s = release_first i l (fp_slots pool) ! k"
      by (auto simp: releaseFrame_def in_set_conv_nth)
    then show ?thesis using release_first_nth [of k "fp_slots pool" i l] by (intro bexI [of _ "fp_slots pool ! k"]) auto
  qed
  have "fp_nextSlotId ?pool = fp_nextSlotId pool" by (simp add: releaseFrame_def)
  with old ids have "ids_inv (Suc n) ?pool issued" unfolding ids_inv_def by metis
  moreover have "sl_id ` set (fp_slots ?pool) = sl_id ` set (fp_slots pool)"
    unfolding releaseFrame_def using release_first_ids(1) [of i l "fp_slots pool"] by (simp flip: set_map)
  then have "frame_ok ?pool issued f" if "frame_ok pool issued f" for f
    using that release_first_nth [of _ "fp_slots pool" i l]
    by (auto simp: frame_ok_def Let_def releaseFrame_def split: option.splits)
  ultimately show ?thesis using assms releaseFrame_inv [OF p] by (simp add: session_inv_def)
qed

lemma pool_run_inv: "pool_run n pool frame issued \<Longrightarrow> n < 2 ^ 64 - 1 \<Longrightarrow> session_inv n pool frame issued"
proof (induction n pool frame issued rule: pool_run.induct)
  case start
  show ?case by (simp add: session_inv_def pool_inv_def ids_inv_def FramePool_default_def)
next
  case (acquired n pool frame issued k bytes pool' frame' shut)
  then show ?case by (auto intro: acquireFrame_session)
next
  case (refused n pool frame issued k bytes pool' e shut)
  then show ?case using acquireFrame_Inl_pool [OF refused.hyps(2)] by (auto simp: session_inv_def intro: ids_inv_mono)
next
  case (discarded n pool frame issued)
  then show ?case by (auto simp: session_inv_def intro: ids_inv_mono)
next
  case (published n pool frame issued pool' frame' lease)
  then have "session_inv n pool (Some frame) issued" "n < 2 ^ 64 - 2" by auto
  from publishFrame_session [OF this published.hyps(2)] show ?case by blast
next
  case (released n pool frame issued i l)
  then show ?case by (auto intro: releaseFrame_session)
next
  case (cleared n pool frame issued)
  then have "ids_inv (Suc n) pool issued" by (auto simp: session_inv_def intro: ids_inv_mono)
  then show ?case by (simp add: session_inv_def clearFrames_inv) (auto simp: ids_inv_def clearFrames_def)
qed

section \<open>Properties\<close>

text \<open>
  However acquisitions, publications, releases and closes interleave, the pool never owns more than
  eight slots, its byte counter is the exact sum of their capacities and never exceeds 128 MiB, slot ids
  are distinct, and every outstanding lease was issued by a publication.
\<close>

lemma frame_pool_limits:
  assumes "pool_run n pool frame issued" "n < 2 ^ 64 - 1"
  shows "length (fp_slots pool) \<le> 8
    \<and> fp_bytes pool = sum_list (map sl_capacity (fp_slots pool)) \<and> fp_bytes pool \<le> 134217728
    \<and> distinct (map sl_id (fp_slots pool)) \<and> outstanding pool \<subseteq> issued"
proof -
  from pool_run_inv [OF assms] have "pool_inv pool" "ids_inv n pool issued" by (auto simp: session_inv_def)
  then show ?thesis by (auto simp: pool_inv_def ids_inv_def outstanding_def limits)
qed

text \<open>A kernel that hands out descriptor 7 at address 4096.\<close>

definition kernel7 :: Kernel where
  "kernel7 = \<lparr>k_memfd_create = 7, k_ftruncate = (\<lambda>fd sz. 0), k_add_seals = (\<lambda>fd. 0), k_strerror = [],
     k_mmap = (\<lambda>sz fd. Some 4096)\<rparr>"

definition frame7 :: Frame where
  "frame7 = \<lparr>fr_slot = None, fr_allocation = \<lparr>sl_id = 1, sl_leaseId = 0, sl_capacity = 1000, sl_fd = 7,
     sl_mapping = Some 4096, sl_leased = False\<rparr>, fr_reusable = True\<rparr>"

definition pool7 :: FramePool where
  "pool7 = \<lparr>fp_slots = [], fp_bytes = 0, fp_nextSlotId = 2\<rparr>"

lemma acquire7: "acquireFrame kernel7 FramePool_default 1000 = (pool7, Inr frame7, [])"
  by (simp add: acquireFrame_def FramePool_default_def kernel7_def pool7_def frame7_def createMemfd_def limits)

lemma run7: "pool_run 1 pool7 (Some frame7) {}"
  using pool_run.acquired [OF pool_run.start acquire7] by simp

text \<open>
  C33. A published frame gets either no lease, when its storage is transient, or a lease that no earlier
  publication of this worker ever received, whatever was released, re-leased or closed in between; the
  set of outstanding leases grows by exactly that lease.
\<close>

theorem lease_never_reissued:
  assumes "pool_run n pool (Some frame) issued" "n < 2 ^ 64 - 2"
    and "publishFrame pool frame = (pool', frame', lease)"
  shows "if fr_slot frame' = None then pool' = pool \<and> lease = \<lparr>ls_slotId = 0, ls_leaseId = 0\<rparr>
         else lease \<notin> issued \<and> outstanding pool' = insert lease (outstanding pool)"
proof -
  have "n < 2 ^ 64 - 1" using assms(2) by simp
  from publishFrame_session [OF pool_run_inv [OF assms(1) this] assms(2,3)] show ?thesis by auto
qed

theorem lease_never_reissued_witness:
  "outstanding (fst (publishFrame pool7 frame7)) = {\<lparr>ls_slotId = 1, ls_leaseId = 1\<rparr>}"
proof -
  obtain pool' frame' lease where pub: "publishFrame pool7 frame7 = (pool', frame', lease)" by (metis prod_cases3)
  have "fr_slot frame' = Some 0" "lease = \<lparr>ls_slotId = 1, ls_leaseId = 1\<rparr>"
    using pub by (auto simp: publishFrame_def publish_move_def pool7_def frame7_def Let_def)
  moreover have "outstanding pool7 = {}" by (simp add: outstanding_def pool7_def)
  ultimately show ?thesis using lease_never_reissued [OF run7 _ pub] by (simp add: pub)
qed

text \<open>
  C28. Releases commute and are idempotent: handling any batch of release requests, stale, repeated or
  unknown ones included, leaves exactly the outstanding leases that the batch does not name.
\<close>

theorem release_batch:
  assumes "pool_run n pool frame issued" "n < 2 ^ 64 - 1"
  shows "outstanding (fold (\<lambda>(i, l). releaseFrame i l) batch pool)
    = outstanding pool - (\<lambda>(i, l). \<lparr>ls_slotId = i, ls_leaseId = l\<rparr>) ` set batch"
  using pool_run_inv [OF assms] pool.release_all by (simp add: session_inv_def)

theorem release_batch_witness:
  "outstanding (fold (\<lambda>(i, l). releaseFrame i l) [(1, 9), (0, 0)] pool7) = {}"
proof -
  have "(1 :: nat) < 2 ^ 64 - 1" by simp
  from release_batch [OF run7 this, of "[(1, 9), (0, 0)]"] show ?thesis by (simp add: outstanding_def pool7_def)
qed

text \<open>
  An acquisition within the limit picks the first of the smallest idle slots that can hold the frame;
  it asks the kernel for new storage only when no idle slot fits, and never hands out a leased slot.
\<close>

lemma acquire_best_fit:
  "bytes \<le> MaxSharedFrameBytes \<Longrightarrow>
   (case acquireFrame k pool bytes of
      (pool', Inr frame, shut) \<Rightarrow>
        (case fr_slot frame of
           Some i \<Rightarrow> pool' = pool \<and> shut = [] \<and> fits (fp_slots pool) bytes i
             \<and> (\<forall>j. fits (fp_slots pool) bytes j \<longrightarrow> sl_capacity (fp_slots pool ! i) \<le> sl_capacity (fp_slots pool ! j)
                  \<and> (j < i \<longrightarrow> sl_capacity (fp_slots pool ! i) < sl_capacity (fp_slots pool ! j)))
         | None \<Rightarrow> (\<nexists>j. fits (fp_slots pool) bytes j) \<and> sl_capacity (fr_allocation frame) = bytes)
    | (pool', Inl e, shut) \<Rightarrow> pool' = pool \<and> (\<nexists>j. fits (fp_slots pool) bytes j))"
  using fit_loop_spec [of "fp_slots pool" bytes]
  by (auto simp: acquireFrame_def best_among_def Let_def split: option.splits sum.splits prod.splits)
    (auto simp: fits_def)

definition frame_fds :: "Frame \<Rightarrow> int list" where
  "frame_fds frame = (if sl_fd (fr_allocation frame) \<ge> 0 then [sl_fd (fr_allocation frame)] else [])"

lemma acquire_fds:
  "case acquireFrame k pool bytes of (pool', r, shut) \<Rightarrow>
     fp_slots pool' = fp_slots pool
     \<and> shut @ (case r of Inl e \<Rightarrow> [] | Inr frame \<Rightarrow> frame_fds frame)
       = (if 0 < bytes \<and> bytes \<le> MaxSharedFrameBytes \<and> fit_loop (fp_slots pool) bytes None 0 (fp_slots pool) = None
             \<and> k_memfd_create k \<ge> 0
          then [k_memfd_create k] else [])"
proof (cases "bytes \<le> MaxSharedFrameBytes")
  case True
  then have "\<not> bytes > 2 ^ 63 - 1" by (simp add: limits)
  with True show ?thesis
    by (simp add: acquireFrame_def createMemfd_def Let_def frame_fds_def Slot_default_def split: option.splits)
next
  case False
  then show ?thesis by (simp add: acquireFrame_def)
qed

lemma publish_fds:
  "case publishFrame pool frame of (pool', frame', lease) \<Rightarrow>
     filter (\<lambda>fd. fd \<ge> 0) (map sl_fd (fp_slots pool')) @ frame_fds frame'
     = filter (\<lambda>fd. fd \<ge> 0) (map sl_fd (fp_slots pool)) @ frame_fds frame"
proof -
  have same: "map sl_fd (slots[i := (slots ! i)\<lparr>sl_leased := b, sl_leaseId := l\<rparr>]) = map sl_fd slots" for slots i b l
    by (cases "i < length slots") (simp_all add: map_update list_update_same_conv list_update_beyond)
  show ?thesis
    by (simp add: publishFrame_def publish_move_def Let_def same frame_fds_def split: option.splits prod.splits)
qed

text \<open>
  No descriptor leaks: a descriptor that memfd_create opened during an acquisition is either
  closed again, when the acquisition fails, or owned by the returned frame; publishing moves it into
  the pool or leaves it with the frame, and never duplicates or drops it.
\<close>

lemma descriptor_accounting:
  "(case acquireFrame k pool bytes of (pool', r, shut) \<Rightarrow>
      fp_slots pool' = fp_slots pool
      \<and> shut @ (case r of Inl e \<Rightarrow> [] | Inr frame \<Rightarrow> frame_fds frame)
        = (if 0 < bytes \<and> bytes \<le> MaxSharedFrameBytes \<and> fit_loop (fp_slots pool) bytes None 0 (fp_slots pool) = None
              \<and> k_memfd_create k \<ge> 0
           then [k_memfd_create k] else []))
   \<and> (case publishFrame pool2 frame of (pool', frame', lease) \<Rightarrow>
        filter (\<lambda>fd. fd \<ge> 0) (map sl_fd (fp_slots pool')) @ frame_fds frame'
        = filter (\<lambda>fd. fd \<ge> 0) (map sl_fd (fp_slots pool2)) @ frame_fds frame)"
  using acquire_fds publish_fds by (rule conjI)

end
