(* ===== verification/Engine_Interface.thy ===== *)
theory Engine_Interface
  imports Export_Jobs Ocr_Jobs Render_Budget Frame_Pool
begin

text \<open>
  What the command service sees of a document engine (\<^verbatim>\<open>src/worker/engine/document_base.hpp\<close>,
  \<^verbatim>\<open>document_base.cpp\<close>, \<^verbatim>\<open>extraction_budget.hpp\<close>): the virtual methods of \<open>DocumentBase\<close> as a record of
  functions over an abstract engine state \<open>'d\<close>. The engines wrap MuPDF; the record is an argument of every
  handler that calls one. A method that reports an error through a string pointer returns the text, empty
  when there is none; a mutating method returns the new state. The non-virtual methods of the class are
  definitions on top of the record.
\<close>

section \<open>Extraction budgets\<close>

record ByteBudget =
  bb_remainingBytes :: nat

definition charge :: "nat \<Rightarrow> ByteBudget \<Rightarrow> ByteBudget \<times> bool" where
  "charge bytes b =
     (if bytes > bb_remainingBytes b then (b, False)
      else (b\<lparr>bb_remainingBytes := bb_remainingBytes b - bytes\<rparr>, True))"

text \<open>A null pointer is \<open>None\<close>; a C string is the list of its bytes, without the terminator.\<close>

definition chargeText :: "string option \<Rightarrow> nat \<Rightarrow> ByteBudget \<Rightarrow> ByteBudget \<times> bool" where
  "chargeText str maxBytes b =
     (case str of
        None \<Rightarrow> (b, True)
      | Some s \<Rightarrow>
        let bytes = min (length s) (size_add maxBytes 1)
        in if bytes \<le> maxBytes then charge bytes b else (b, False))"

record ExtractionBudgets =
  xb_forms :: ByteBudget
  xb_metadata :: ByteBudget
  xb_links :: ByteBudget

definition ExtractionBudgets_default :: ExtractionBudgets where
  "ExtractionBudgets_default = \<lparr>xb_forms = \<lparr>bb_remainingBytes = MaxAggregateFormTextBytes\<rparr>,
     xb_metadata = \<lparr>bb_remainingBytes = MaxAggregateMetadataBytes\<rparr>,
     xb_links = \<lparr>bb_remainingBytes = MaxAggregateMetadataBytes\<rparr>\<rparr>"

text \<open>Charging a list of items in order, stopping at the first that does not fit.\<close>

fun charge_all :: "nat list \<Rightarrow> ByteBudget \<Rightarrow> ByteBudget \<times> bool" where
  "charge_all [] b = (b, True)"
| "charge_all (n # ns) b = (case charge n b of (b', True) \<Rightarrow> charge_all ns b' | (b', False) \<Rightarrow> (b', False))"

lemma charge_all_iff:
  "snd (charge_all ns b) \<longleftrightarrow> sum_list ns \<le> bb_remainingBytes b"
  by (induction ns b rule: charge_all.induct) (auto simp: charge_def)

lemma charge_all_remaining:
  "snd (charge_all ns b) \<Longrightarrow> bb_remainingBytes (fst (charge_all ns b)) = bb_remainingBytes b - sum_list ns"
  by (induction ns b rule: charge_all.induct) (auto simp: charge_def)

section \<open>The engine\<close>

record PageDetails =
  pd_geometry :: PageGeometry
  pd_annotations :: "Annotation list"
  pd_signatures :: "SignatureField list"
  pd_links :: "Link list"
  pd_formFields :: "FormField list"

record FieldMutation =
  fm_page :: int
  fm_objectNumber :: int
  fm_actualValue :: FormValue

record CmsResult =
  cms_result :: SigningResult
  cms_details :: string
  cms_signature :: "u8 list"

record EngineRenderRequest =
  erq_page :: int
  erq_width :: int
  erq_height :: int
  erq_tile :: "RenderTile option"

text \<open>
  Signing calls back into the service at most once, with the digest to sign; the engine resumes with the
  CMS result.
\<close>

datatype 'd SignStep =
    SignDone 'd bool SigningResult string
  | SignAsk "u8 list" string "CmsResult \<Rightarrow> 'd \<times> bool \<times> SigningResult \<times> string"

record 'd Engine =
  eg_construct :: "DocumentType \<Rightarrow> nat \<Rightarrow> 'd"
  eg_type :: "'d \<Rightarrow> DocumentType"
  eg_openFd :: "int \<Rightarrow> string \<Rightarrow> 'd \<Rightarrow> 'd \<times> bool \<times> string"
  eg_openFdWithAccelerator :: "int \<Rightarrow> string \<Rightarrow> u8 list \<Rightarrow> 'd \<Rightarrow> 'd \<times> bool \<times> string"
  eg_unlock :: "string \<Rightarrow> 'd \<Rightarrow> 'd \<times> bool"
  eg_close :: "'d \<Rightarrow> 'd"
  eg_trimMemoryForIdle :: "'d \<Rightarrow> 'd"
  eg_discardResolvedLinkCache :: "'d \<Rightarrow> 'd"
  eg_setPageCacheSuspended :: "bool \<Rightarrow> 'd \<Rightarrow> 'd"
  eg_isOpen :: "'d \<Rightarrow> bool"
  eg_isLocked :: "'d \<Rightarrow> bool"
  eg_pageCount :: "'d \<Rightarrow> int"
  eg_pageDetails :: "'d \<Rightarrow> int \<Rightarrow> bool \<Rightarrow> ExtractionBudgets \<Rightarrow> PageDetails \<times> string \<times> ExtractionBudgets"
  eg_renderToBuffer :: "'d \<Rightarrow> EngineRenderRequest \<Rightarrow> u8 list \<Rightarrow> nat \<Rightarrow> u8 list \<times> bool \<times> string"
  eg_textBoxes :: "'d \<Rightarrow> int \<Rightarrow> fp \<Rightarrow> fp \<Rightarrow> nat \<Rightarrow> bool \<Rightarrow> TextBox list \<times> string"
  eg_setSettings :: "DocumentSettings \<Rightarrow> 'd \<Rightarrow> 'd"
  eg_resolveLink :: "'d \<Rightarrow> string \<Rightarrow> ResolvedLink"
  eg_extractLinks :: "'d \<Rightarrow> int \<Rightarrow> ExtractionBudgets \<Rightarrow> Link list \<times> string \<times> ExtractionBudgets"
  eg_extractLinkUris :: "'d \<Rightarrow> int \<Rightarrow> ExtractionBudgets \<Rightarrow> Link list \<times> string \<times> ExtractionBudgets"
  eg_exportAccelerator :: "'d \<Rightarrow> u8 list"
  eg_outline :: "'d \<Rightarrow> OutlineNode list \<times> string"
  eg_generateOutline :: "'d \<Rightarrow> (OutlineNode list \<times> string) option"
  eg_metadata :: "'d \<Rightarrow> string list \<Rightarrow> DocumentMetadata \<times> string"
  eg_layers :: "'d \<Rightarrow> LayerEntry list \<times> string"
  eg_setLayer :: "int \<Rightarrow> bool \<Rightarrow> 'd \<Rightarrow> 'd \<times> bool \<times> string"
  eg_addAnnotation :: "int \<Rightarrow> Annotation \<Rightarrow> 'd \<Rightarrow> 'd \<times> bool \<times> int \<times> string"
  eg_modifyAnnotation :: "int \<Rightarrow> int \<Rightarrow> Annotation \<Rightarrow> bool \<Rightarrow> 'd \<Rightarrow> 'd \<times> bool \<times> string"
  eg_removeAnnotation :: "int \<Rightarrow> int \<Rightarrow> 'd \<Rightarrow> 'd \<times> bool \<times> string"
  eg_writeExport :: "int \<Rightarrow> ExportOptions \<Rightarrow> 'd \<Rightarrow> 'd \<times> bool \<times> string"
  eg_signFd :: "SignRequest \<Rightarrow> int \<Rightarrow> 'd \<Rightarrow> 'd SignStep"
  eg_updateFormField :: "int \<Rightarrow> int \<Rightarrow> FormValue \<Rightarrow> 'd \<Rightarrow> 'd \<times> bool \<times> FieldMutation list \<times> string"
  eg_resetForm :: "int \<Rightarrow> int \<Rightarrow> 'd \<Rightarrow> 'd \<times> bool \<times> FieldMutation list \<times> string"
  eg_clickFormButton :: "int \<Rightarrow> int \<Rightarrow> 'd \<Rightarrow> 'd \<times> bool \<times> FieldMutation list \<times> string"
  eg_fonts :: "'d \<Rightarrow> int list \<Rightarrow> Font list \<times> string"
  eg_embeddedFiles :: "'d \<Rightarrow> nat \<Rightarrow> nat \<Rightarrow> EmbeddedFile list \<times> bool \<times> string"

definition createDocument :: "'d Engine \<Rightarrow> u8 \<Rightarrow> nat \<Rightarrow> 'd option" where
  "createDocument E type storeSize =
     (if type = DocumentType_value Doc_Pdf then Some (eg_construct E Doc_Pdf storeSize)
      else if type = DocumentType_value Doc_Xps then Some (eg_construct E Doc_Xps storeSize)
      else if type = DocumentType_value Doc_Epub then Some (eg_construct E Doc_Epub storeSize)
      else if type = DocumentType_value Doc_Mobi then Some (eg_construct E Doc_Mobi storeSize)
      else if type = DocumentType_value Doc_Kindle then Some (eg_construct E Doc_Kindle storeSize)
      else None)"

definition doc_outputFormats :: "'d Engine \<Rightarrow> 'd \<Rightarrow> OutputFormatInfo list" where
  "doc_outputFormats E d = (if eg_isOpen E d \<and> \<not> eg_isLocked E d then outputFormatsFor (eg_type E d) else [])"

text \<open>The last component lists descriptors that the call closes before it reaches a writer.\<close>

definition doc_exportFd :: "'d Engine \<Rightarrow> int \<Rightarrow> ExportOptions \<Rightarrow> bool \<Rightarrow> 'd \<Rightarrow> 'd \<times> bool \<times> string \<times> int list" where
  "doc_exportFd E fd options asynchronous d =
     (let formats = doc_outputFormats E d in
      if fd < 0 then (d, False, ''invalid output descriptor'', [])
      else case findExportProfile formats options asynchronous (eg_pageCount E d) of
        Inl reason \<Rightarrow> (d, False, reason, [fd])
      | Inr profile \<Rightarrow> (case eg_writeExport E fd options d of (d', ok, reason) \<Rightarrow> (d', ok, reason, [])))"

end
