(* ===== verification/Command_Service.thy ===== *)
theory Command_Service
  imports Engine_Interface
begin

text \<open>
  The worker's command service (\<^verbatim>\<open>src/worker/runtime/command_service.hpp\<close> and \<^verbatim>\<open>command_service.cpp\<close>): its
  state, the bounded queue of requests deferred during signing, opening and closing documents, rendering
  into leased frames, annotation and form handles, background jobs, the page-link walk, and the dispatcher
  that validates every request before a handler or a descriptor is touched. Handlers take the engine and
  the answers of the operating system and the peer as arguments and return the new state with the
  response. Logging is not modelled.
\<close>

section \<open>Constants\<close>

definition MaxResponseBoxes :: nat where
  [limits]: "MaxResponseBoxes = 200000"

definition MaxResponseTextBytes :: nat where
  [limits]: "MaxResponseTextBytes = 16 * 1024 * 1024"

definition MaxOpenPages :: nat where
  [limits]: "MaxOpenPages = 100000"

definition MaxOpenAnnotations :: nat where
  [limits]: "MaxOpenAnnotations = MaxAnnotationsPerDocument"

definition MaxOpenSignatures :: nat where
  [limits]: "MaxOpenSignatures = 100000"

definition MaxOpenLinks :: nat where
  [limits]: "MaxOpenLinks = 100000"

definition MaxEmbeddedFileBytes :: nat where
  [limits]: "MaxEmbeddedFileBytes = 32 * 1024 * 1024"

definition MaxEmbeddedFileCount :: nat where
  [limits]: "MaxEmbeddedFileCount = 1024"

definition MaxOutlineResponseNodes :: nat where
  [limits]: "MaxOutlineResponseNodes = 50000"

definition MaxDeferredFrames :: nat where
  [limits]: "MaxDeferredFrames = 1024"

definition MaxDeferredBytes :: nat where
  [limits]: "MaxDeferredBytes = 16 * 1024 * 1024"

section \<open>The world outside\<close>

text \<open>
  The answers of one dispatch: the kernel's for frame allocation, the descriptor channel's, what
  \<open>fstat\<close>, \<open>fcntl\<close> and \<open>mmap\<close> say of a cancellation cookie and whether the host had set its abort word
  before and after rendering, whether a job thread can be created, where a language model is found, the
  clock, and the events of the control channel during a nested signing exchange: per iteration the
  remaining milliseconds and a frame or a read error.
\<close>

record CookieFile =
  ck_statOk :: bool
  ck_size :: nat
  ck_seals :: int
  ck_mapped :: bool
  ck_abortBefore :: bool

record World =
  w_kernel :: Kernel
  w_receive :: "u64 \<Rightarrow> string + int"
  w_send :: "u64 \<Rightarrow> int \<Rightarrow> string option"
  w_cookie :: "int \<Rightarrow> CookieFile"
  w_abortAfter :: bool
  w_threadStarts :: bool
  w_findTessdata :: "string \<Rightarrow> string list \<Rightarrow> string option"
  w_now :: int
  w_rounding :: "real \<Rightarrow> real"
  w_pid :: int
  w_compat :: string
  w_engineVersion :: string
  w_systemMuPdf :: bool
  w_notify :: "SignInput \<Rightarrow> string option"
  w_signEvents :: "(int \<times> (string + u8 list)) list"
  w_decode :: "u8 list \<Rightarrow> string + RequestMessage"

section \<open>State\<close>

record HandleLocation =
  hl_page :: int
  hl_objectNumber :: int

record PendingPageLinks =
  pp_generation :: u64
  pp_nextPage :: int
  pp_totalLinks :: nat
  pp_pages :: "PageLinks list"
  pp_budgets :: ExtractionBudgets

text \<open>The contents of a mapped frame segment: its header and its pixel bytes.\<close>

record Segment =
  sg_header :: FrameBufferHeader
  sg_pixels :: "u8 list"

text \<open>
  The channel pointers of the session are present or null. \<open>cs_memory\<close> is the mapped frame memory, by
  address; \<open>cs_closed\<close> the descriptors the service has closed, in order.
\<close>

record 'd CommandService =
  cs_sandbox :: SandboxStatus
  cs_fdChannel :: bool
  cs_controlChannel :: bool
  cs_tessDataDirectories :: "string list"
  cs_document :: "'d option"
  cs_settings :: DocumentSettings
  cs_framePool :: FramePool
  cs_annotationHandles :: "(string, HandleLocation) std_map"
  cs_annotationObjectHandles :: "(u64, string) std_map"
  cs_formFieldHandles :: "(string, HandleLocation) std_map"
  cs_formObjectHandles :: "(u64, string) std_map"
  cs_ocrJobs :: OcrState
  cs_exportJobs :: ExportState
  cs_annotationGeneration :: u64
  cs_linkGeneration :: u64
  cs_nextFrameTransferId :: u64
  cs_deferredIncoming :: "u8 list list"
  cs_deferredIncomingBytes :: nat
  cs_disconnectRequested :: bool
  cs_documentPassword :: string
  cs_pendingPageLinks :: "PendingPageLinks option"
  cs_renderLinkCharged :: "bool list"
  cs_renderLinkBytes :: nat
  cs_renderLinkCount :: nat
  cs_rendersSinceTrim :: nat
  cs_bytesSinceTrim :: nat
  cs_lastTrim :: int
  cs_memory :: "nat \<Rightarrow> Segment"
  cs_closed :: "int list"

text \<open>
  A new service for an accepted connection; \<open>ocrEvent\<close> and \<open>exportEvent\<close> are the event descriptors its job
  pools create and \<open>memory\<close> is what unmapped addresses read as.
\<close>

definition CommandService_init :: "SandboxStatus \<Rightarrow> bool \<Rightarrow> bool \<Rightarrow> string list \<Rightarrow> int \<Rightarrow> int \<Rightarrow> int \<Rightarrow> (nat \<Rightarrow> Segment) \<Rightarrow>
  'd CommandService" where
  "CommandService_init sandbox fdChannel controlChannel tessDataDirectories ocrEvent exportEvent now memory =
     \<lparr>cs_sandbox = sandbox, cs_fdChannel = fdChannel, cs_controlChannel = controlChannel,
      cs_tessDataDirectories = tessDataDirectories, cs_document = None, cs_settings = DocumentSettings_default,
      cs_framePool = FramePool_default, cs_annotationHandles = [], cs_annotationObjectHandles = [], cs_formFieldHandles = [],
      cs_formObjectHandles = [], cs_ocrJobs = OcrJobs_init ocrEvent, cs_exportJobs = ExportJobs_init exportEvent,
      cs_annotationGeneration = 0, cs_linkGeneration = 0, cs_nextFrameTransferId = 1, cs_deferredIncoming = [],
      cs_deferredIncomingBytes = 0, cs_disconnectRequested = False, cs_documentPassword = [], cs_pendingPageLinks = None,
      cs_renderLinkCharged = [], cs_renderLinkBytes = 0, cs_renderLinkCount = 0, cs_rendersSinceTrim = 0,
      cs_bytesSinceTrim = 0, cs_lastTrim = now, cs_memory = memory, cs_closed = []\<rparr>"

definition close_fd :: "int \<Rightarrow> 'd CommandService \<Rightarrow> 'd CommandService" where
  "close_fd fd s = (if fd \<ge> 0 then s\<lparr>cs_closed := cs_closed s @ [fd]\<rparr> else s)"

section \<open>Responses\<close>

definition success :: "u64 \<Rightarrow> ResponsePayload \<Rightarrow> ResponseMessage" where
  "success i payload = \<lparr>rsm_id = i, rsm_payload = payload, rsm_error = None\<rparr>"

definition failure :: "u64 \<Rightarrow> ErrorCode \<Rightarrow> string \<Rightarrow> string \<Rightarrow> ResponseMessage" where
  "failure i code operation message =
     \<lparr>rsm_id = i, rsm_payload = RsEmpty,
      rsm_error = Some \<lparr>err_code = code, err_operation = operation, err_message = message\<rparr>\<rparr>"

definition isResourceLimitError :: "string \<Rightarrow> bool" where
  "isResourceLimitError message \<longleftrightarrow> take (length ''resource limit:'') message = ''resource limit:''"

definition objectKey :: "int \<Rightarrow> int \<Rightarrow> u64" where
  "objectKey page objectNumber =
     push_bit 32 (ucast (of_int page :: u32)) OR ucast (of_int objectNumber :: u32)"

text \<open>The switch of the validator dispatcher: the operation's name and the verdict of its validator.\<close>

fun inbound_verdict :: "RequestPayload \<Rightarrow> string \<times> verdict" where
  "inbound_verdict (RqOpen r) = (''open'', isValidFileTransfer (opn_file r))"
| "inbound_verdict (RqExport r) = (''export'', isValidExportRequest r)"
| "inbound_verdict (RqRender r) = (''render'', isValidRenderRequest r)"
| "inbound_verdict (RqResolveLink r) = (''resolve-link'', isValidResolveLinkRequest r)"
| "inbound_verdict (RqTextBoxes r) = (''text_boxes'', isValidTextBoxesRequest r)"
| "inbound_verdict (RqOcrPage r) = (''ocr_page'', isValidOcrPageRequest r)"
| "inbound_verdict (RqAnnotationAdd r) = (''annot_add'', isValidAnnotationAddRequest r)"
| "inbound_verdict (RqAnnotationModify r) = (''annot_modify'', isValidAnnotationModifyRequest r)"
| "inbound_verdict (RqAnnotationRemove r) = (''annot_remove'', isValidAnnotationRemoveRequest r)"
| "inbound_verdict (RqSettings r) = (''settings'', isValidDocumentSettings (stq_settings r))"
| "inbound_verdict (RqSign r) = (''sign'', isValidSignRequest r)"
| "inbound_verdict (RqFormUpdate r) = (''form_update'', isValidFormUpdateRequest r)"
| "inbound_verdict (RqFormReset r) = (''form_reset'', isValidFormResetRequest r)"
| "inbound_verdict (RqFormButtonClick r) = (''form_button_click'', isValidFormButtonClickRequest r)"
| "inbound_verdict _ = (''request'', Valid)"

definition validateInboundRequest :: "u64 \<Rightarrow> RequestPayload \<Rightarrow> ResponseMessage option" where
  "validateInboundRequest i payload =
     (case inbound_verdict payload of
        (operation, Valid) \<Rightarrow> None
      | (operation, Invalid reason) \<Rightarrow> Some (failure i EC_InvalidRequest operation reason))"

text \<open>
  The recursion of the outline count: the budget that reaches a child list is what the earlier siblings
  left of it.
\<close>

fun countOutlineNodes :: "OutlineNode list \<Rightarrow> nat \<Rightarrow> nat \<Rightarrow> nat"
  and countOutlineNode :: "OutlineNode \<Rightarrow> nat \<Rightarrow> nat" where
  "countOutlineNodes [] limit count = count"
| "countOutlineNodes (node # nodes) limit count =
     (let count1 = count + 1 in
      if count1 > limit then count1
      else
        let count2 = count1 + countOutlineNode node (limit - count1) in
        if count2 > limit then count2 else countOutlineNodes nodes limit count2)"
| "countOutlineNode (OutlineNode title isopen link children) limit = countOutlineNodes children limit 0"

fun ocr_text_loop :: "nat \<Rightarrow> TextBox list \<Rightarrow> bool" where
  "ocr_text_loop bytes [] = True"
| "ocr_text_loop bytes (box # boxes) =
     (if length (tb_text box) > size_sub MaxResponseTextBytes bytes then False
      else ocr_text_loop (size_add bytes (length (tb_text box))) boxes)"

definition makeOcrResponse :: "u64 \<Rightarrow> OcrResult \<Rightarrow> ResponseMessage" where
  "makeOcrResponse i result =
     (if length (or_boxes result) > MaxResponseBoxes
      then failure i EC_ResourceLimit ''ocr'' ''OCR response exceeds its item limit''
      else if \<not> ocr_text_loop 0 (or_boxes result)
      then failure i EC_ResourceLimit ''ocr'' ''OCR response exceeds its text limit''
      else success i (RsOcr \<lparr>ocr_result = result\<rparr>))"

section \<open>Deferred requests\<close>

definition deferIncoming :: "u8 list \<Rightarrow> 'd CommandService \<Rightarrow> 'd CommandService \<times> bool" where
  "deferIncoming raw s =
     (if length (cs_deferredIncoming s) \<ge> MaxDeferredFrames
         \<or> length raw > size_sub MaxDeferredBytes (cs_deferredIncomingBytes s)
      then (s, False)
      else (s\<lparr>cs_deferredIncomingBytes := size_add (cs_deferredIncomingBytes s) (length raw),
              cs_deferredIncoming := cs_deferredIncoming s @ [raw]\<rparr>, True))"

definition takeDeferredIncoming :: "'d CommandService \<Rightarrow> 'd CommandService \<times> u8 list option" where
  "takeDeferredIncoming s =
     (case cs_deferredIncoming s of
        [] \<Rightarrow> (s, None)
      | result # rest \<Rightarrow>
        (s\<lparr>cs_deferredIncoming := rest,
           cs_deferredIncomingBytes := size_sub (cs_deferredIncomingBytes s) (length result)\<rparr>, Some result))"

section \<open>Decimal numbers\<close>

text \<open>\<open>std::to_string\<close> of unsigned and signed integers.\<close>

fun decimal :: "nat \<Rightarrow> string" where
  "decimal n = (if n < 10 then [char_of (48 + n)] else decimal (n div 10) @ [char_of (48 + n mod 10)])"

declare decimal.simps [simp del]

definition decimal_int :: "int \<Rightarrow> string" where
  "decimal_int n = (if n < 0 then CHR ''-'' # decimal (nat (- n)) else decimal (nat n))"

section \<open>Closing and trimming\<close>

definition map_document :: "('d \<Rightarrow> 'd) \<Rightarrow> 'd CommandService \<Rightarrow> 'd CommandService" where
  "map_document f s = s\<lparr>cs_document := map_option f (cs_document s)\<rparr>"

definition hasOpenDocument :: "'d Engine \<Rightarrow> 'd CommandService \<Rightarrow> bool" where
  "hasOpenDocument E s = (case cs_document s of None \<Rightarrow> False | Some d \<Rightarrow> eg_isOpen E d)"

definition closeDocument :: "'d Engine \<Rightarrow> int \<Rightarrow> 'd CommandService \<Rightarrow> 'd CommandService" where
  "closeDocument E now s =
     (map_document (\<lambda>d. eg_close E (eg_setPageCacheSuspended E False d)) s)
       \<lparr>cs_pendingPageLinks := None, cs_renderLinkCharged := [], cs_renderLinkBytes := 0, cs_renderLinkCount := 0,
        cs_framePool := clearFrames (cs_framePool s),
        cs_closed := cs_closed s @ filter (\<lambda>fd. fd \<ge> 0) (map sl_fd (fp_slots (cs_framePool s))),
        cs_documentPassword := [], cs_annotationHandles := [], cs_annotationObjectHandles := [],
        cs_formFieldHandles := [], cs_formObjectHandles := [], cs_ocrJobs := cancelAll (cs_ocrJobs s),
        cs_rendersSinceTrim := 0, cs_bytesSinceTrim := 0, cs_lastTrim := now\<rparr>"

definition maybeIdleTrim :: "'d Engine \<Rightarrow> int \<Rightarrow> int \<Rightarrow> 'd CommandService \<Rightarrow> 'd CommandService \<times> bool" where
  "maybeIdleTrim E now idleMs s =
     (let idleTrim = normalizeIdleTrim (ds_idleTrimAggressiveness (cs_settings s)) in
      if idleTrim = IdleTrimLevel_Off then (s, False)
      else if \<not> shouldIdleTrim (cs_rendersSinceTrim s) (cs_bytesSinceTrim s) idleMs (now - cs_lastTrim s)
                (idleTrimThresholdsForLevel idleTrim)
      then (s, False)
      else (case cs_document s of
              None \<Rightarrow> (s, False)
            | Some d \<Rightarrow>
              (s\<lparr>cs_document := Some (eg_trimMemoryForIdle E d), cs_rendersSinceTrim := 0, cs_bytesSinceTrim := 0,
                 cs_lastTrim := now\<rparr>, True)))"

definition idleTrimPollMs :: "'d CommandService \<Rightarrow> int" where
  "idleTrimPollMs s = idleTrimPollMsForLevel (normalizeIdleTrim (ds_idleTrimAggressiveness (cs_settings s)))"

section \<open>Handles\<close>

definition annotation_handle_text :: "u64 \<Rightarrow> int \<Rightarrow> int \<Rightarrow> string" where
  "annotation_handle_text generation page objectNumber =
     ''g'' @ decimal (unat generation) @ ''-p'' @ decimal_int page @ ''-o'' @ decimal_int objectNumber"

definition annotationHandle :: "int \<Rightarrow> int \<Rightarrow> 'd CommandService \<Rightarrow> 'd CommandService \<times> string" where
  "annotationHandle page objectNumber s =
     (if page < 0 \<or> objectNumber \<le> 0 then (s, [])
      else
        let key = objectKey page objectNumber in
        case map_of (cs_annotationObjectHandles s) key of
          Some h \<Rightarrow> (s, h)
        | None \<Rightarrow>
          if length (cs_annotationHandles s) \<ge> MaxAnnotationsPerDocument then (s, [])
          else
            let h = annotation_handle_text (cs_annotationGeneration s) page objectNumber in
            (s\<lparr>cs_annotationHandles := map_emplace h \<lparr>hl_page = page, hl_objectNumber = objectNumber\<rparr> (cs_annotationHandles s),
               cs_annotationObjectHandles := map_emplace key h (cs_annotationObjectHandles s)\<rparr>, h))"

definition form_handle_text :: "u64 \<Rightarrow> int \<Rightarrow> int \<Rightarrow> string" where
  "form_handle_text generation page objectNumber =
     ''g'' @ decimal (unat generation) @ ''-f'' @ decimal_int page @ ''-o'' @ decimal_int objectNumber"

definition formFieldHandle :: "int \<Rightarrow> int \<Rightarrow> 'd CommandService \<Rightarrow> 'd CommandService \<times> string" where
  "formFieldHandle page objectNumber s =
     (if page < 0 \<or> objectNumber \<le> 0 then (s, [])
      else
        let key = objectKey page objectNumber in
        case map_of (cs_formObjectHandles s) key of
          Some h \<Rightarrow> (s, h)
        | None \<Rightarrow>
          let h = form_handle_text (cs_annotationGeneration s) page objectNumber in
          (s\<lparr>cs_formFieldHandles := map_emplace h \<lparr>hl_page = page, hl_objectNumber = objectNumber\<rparr> (cs_formFieldHandles s),
             cs_formObjectHandles := map_emplace key h (cs_formObjectHandles s)\<rparr>, h))"

section \<open>Opening\<close>

definition openFd :: "'d Engine \<Rightarrow> int \<Rightarrow> int \<Rightarrow> string \<Rightarrow> u8 \<Rightarrow> u8 list \<Rightarrow> 'd CommandService \<Rightarrow>
  'd CommandService \<times> bool \<times> string" where
  "openFd E now fd displayName type epubAccelerator s =
     (if type \<noteq> DocumentType_value Doc_Pdf \<and> type \<noteq> DocumentType_value Doc_Epub \<and> type \<noteq> DocumentType_value Doc_Mobi
         \<and> type \<noteq> DocumentType_value Doc_Kindle \<and> type \<noteq> DocumentType_value Doc_Xps
      then (close_fd fd s, False, ''document type is unknown'')
      else if length epubAccelerator > MaxEpubAcceleratorBytes
      then (close_fd fd s, False, ''EPUB accelerator exceeds limit'')
      else
        let s1 = closeDocument E now s;
            s2 = s1\<lparr>cs_annotationGeneration := cs_annotationGeneration s1 + 1, cs_document := None\<rparr>
        in case createDocument E type (nat (ds_memoryCacheBytes (cs_settings s2))) of
          None \<Rightarrow> (close_fd fd s2, False, ''document type is unknown'')
        | Some d0 \<Rightarrow>
          let d1 = eg_setSettings E (cs_settings s2) d0 in
          (case (if type = DocumentType_value Doc_Epub \<and> epubAccelerator \<noteq> []
                 then eg_openFdWithAccelerator E fd displayName epubAccelerator d1
                 else eg_openFd E fd displayName d1) of
             (d2, True, reason) \<Rightarrow> (s2\<lparr>cs_document := Some d2\<rparr>, True, reason)
           | (d2, False, reason) \<Rightarrow> (s2\<lparr>cs_document := None\<rparr>, False, reason)))"

text \<open>Annotations and fields of one page get their handles in order.\<close>

fun annotation_handles_loop :: "int \<Rightarrow> Annotation list \<Rightarrow> 'd CommandService \<Rightarrow> 'd CommandService \<times> Annotation list" where
  "annotation_handles_loop page [] s = (s, [])"
| "annotation_handles_loop page (a # as) s =
     (case annotationHandle page (an_pdfObjectNumber a) s of
        (s1, h) \<Rightarrow>
        (case annotation_handles_loop page as s1 of
           (s2, as') \<Rightarrow> (s2, a\<lparr>an_handle := h, an_nativeIndex := an_pdfObjectNumber a\<rparr> # as')))"

fun form_handles_loop :: "int \<Rightarrow> FormField list \<Rightarrow> 'd CommandService \<Rightarrow> 'd CommandService \<times> FormField list" where
  "form_handles_loop page [] s = (s, [])"
| "form_handles_loop page (f # fs) s =
     (case formFieldHandle page (ff_pdfObjectNumber f) s of
        (s1, h) \<Rightarrow>
        (case form_handles_loop page fs s1 of
           (s2, fs') \<Rightarrow> (s2, f\<lparr>ff_page := page, ff_handle := h\<rparr> # fs')))"

text \<open>
  The sweep over the pages of a freshly opened document; the arguments are the pages still to visit, the
  running totals of annotations, signatures and fields, the budgets and the pages collected so far. \<open>Inl\<close>
  is the early failure.
\<close>

fun open_sweep :: "'d Engine \<Rightarrow> int \<Rightarrow> int list \<Rightarrow> nat \<Rightarrow> nat \<Rightarrow> nat \<Rightarrow> ExtractionBudgets \<Rightarrow> PageInfo list \<Rightarrow>
  'd CommandService \<Rightarrow> 'd CommandService \<times> ((ErrorCode \<times> string) + (PageInfo list \<times> ExtractionBudgets))" where
  "open_sweep E now [] annotations signatures formFields budgets pages s = (s, Inr (pages, budgets))"
| "open_sweep E now (page # rest) annotations signatures formFields budgets pages s =
     (case cs_document s of
        None \<Rightarrow> (s, Inr (pages, budgets))
      | Some d \<Rightarrow>
        (case eg_pageDetails E d page False budgets of
           (details, reason, budgets') \<Rightarrow>
           if reason \<noteq> []
           then (closeDocument E now s, Inl (if isResourceLimitError reason then EC_ResourceLimit else EC_Internal, reason))
           else
             let annotations' = annotations + length (pd_annotations details);
                 signatures' = signatures + length (pd_signatures details);
                 formFields' = formFields + length (pd_formFields details)
             in
             if annotations' > MaxOpenAnnotations \<or> signatures' > MaxOpenSignatures \<or> formFields' > MaxOpenFormFields
             then (closeDocument E now s, Inl (EC_ResourceLimit, ''document metadata exceeds its limit''))
             else
               (case annotation_handles_loop page (pd_annotations details) s of
                  (s1, annots) \<Rightarrow>
                  (case form_handles_loop page (pd_formFields details) s1 of
                     (s2, flds) \<Rightarrow>
                     open_sweep E now rest annotations' signatures' formFields' budgets'
                       (pages @ [\<lparr>pi_number = page, pi_geometry = pd_geometry details, pi_annotations = annots,
                          pi_signatureFields = pd_signatures details, pi_links = pd_links details, pi_formFields = flds\<rparr>])
                       s2))))"

definition openFdResponse :: "'d Engine \<Rightarrow> int \<Rightarrow> u64 \<Rightarrow> int \<Rightarrow> string \<Rightarrow> string \<Rightarrow> u8 \<Rightarrow> u8 list \<Rightarrow> 'd CommandService \<Rightarrow>
  'd CommandService \<times> ResponseMessage" where
  "openFdResponse E now i fd displayName password type epubAccelerator s =
     (if type = DocumentType_value Doc_Unknown
      then (close_fd fd s, failure i EC_InvalidRequest ''open'' ''document type is unknown'')
      else
        (case openFd E now fd displayName type epubAccelerator s of
           (s1, False, reason) \<Rightarrow> (s1\<lparr>cs_documentPassword := []\<rparr>, failure i EC_InvalidRequest ''open'' reason)
         | (s1, True, _) \<Rightarrow>
           (case cs_document s1 of
              None \<Rightarrow> (s1, failure i EC_InvalidRequest ''open'' [])
            | Some d1 \<Rightarrow>
              (case (if eg_isLocked E d1 then eg_unlock E password d1 else (d1, True)) of
                 (d2, False) \<Rightarrow>
                   (s1\<lparr>cs_document := Some (eg_close E d2), cs_documentPassword := []\<rparr>,
                    failure i EC_PermissionDenied ''open'' ''wrong password or document is locked'')
               | (d2, True) \<Rightarrow>
                 let s2 = s1\<lparr>cs_document := Some d2, cs_documentPassword := password\<rparr> in
                 if eg_pageCount E d2 > int MaxOpenPages
                 then (closeDocument E now s2, failure i EC_ResourceLimit ''open'' ''document has too many pages'')
                 else
                   let linkGeneration = cs_linkGeneration s2 + 1;
                       d3 = eg_setPageCacheSuspended E (type \<noteq> DocumentType_value Doc_Epub) d2;
                       s3 = s2\<lparr>cs_linkGeneration := linkGeneration, cs_document := Some d3\<rparr>
                   in
                   (case open_sweep E now [0..eg_pageCount E d3 - 1] 0 0 0 ExtractionBudgets_default [] s3 of
                      (s4, Inl (code, reason)) \<Rightarrow> (s4, failure i code ''open'' reason)
                    | (s4, Inr (pages, budgets)) \<Rightarrow>
                      if type = DocumentType_value Doc_Epub
                      then (s4\<lparr>cs_renderLinkCharged := replicate (length pages) False\<rparr>,
                            success i (RsOpen \<lparr>opr_pages = pages, opr_linkGeneration = linkGeneration,
                              opr_epubAccelerator = (case cs_document s4 of None \<Rightarrow> [] | Some d \<Rightarrow> eg_exportAccelerator E d)\<rparr>))
                      else (s4\<lparr>cs_pendingPageLinks := Some \<lparr>pp_generation = linkGeneration, pp_nextPage = 0,
                              pp_totalLinks = 0, pp_pages = [], pp_budgets = budgets\<rparr>\<rparr>,
                            success i (RsOpen \<lparr>opr_pages = pages, opr_linkGeneration = linkGeneration,
                              opr_epubAccelerator = []\<rparr>)))))))"

definition openRequestResponse :: "'d Engine \<Rightarrow> int \<Rightarrow> u64 \<Rightarrow> int \<Rightarrow> OpenRequest \<Rightarrow> 'd CommandService \<Rightarrow>
  'd CommandService \<times> ResponseMessage" where
  "openRequestResponse E now i fd r s =
     openFdResponse E now i fd (opn_displayName r) (opn_password r) (opn_documentType r) (opn_epubAccelerator r) s"

section \<open>Rendering\<close>

definition receiveFd :: "World \<Rightarrow> u64 \<Rightarrow> string \<Rightarrow> u64 \<Rightarrow> 'd CommandService \<Rightarrow> ResponseMessage + int" where
  "receiveFd W requestId operation transferId s =
     (if \<not> cs_fdChannel s \<or> transferId = 0
      then Inl (failure requestId EC_InvalidRequest operation ''invalid file transfer'')
      else case w_receive W transferId of
        Inl reason \<Rightarrow> Inl (failure requestId EC_InvalidRequest operation reason)
      | Inr fd \<Rightarrow> if fd < 0 then Inl (failure requestId EC_InvalidRequest operation []) else Inr fd)"

text \<open>The seals \<open>F_SEAL_SHRINK\<close>, \<open>F_SEAL_GROW\<close> and \<open>F_SEAL_SEAL\<close> of Linux.\<close>

definition requiredSeals :: int where
  "requiredSeals = 2 OR 4 OR 1"

text \<open>
  The result is an error response, or whether a cookie is mapped. The descriptor is closed on return;
  the mapping stays.
\<close>

definition receiveRenderCookie :: "World \<Rightarrow> u64 \<Rightarrow> u64 \<Rightarrow> 'd CommandService \<Rightarrow>
  'd CommandService \<times> (ResponseMessage + bool)" where
  "receiveRenderCookie W requestId transferId s =
     (if transferId = 0 then (s, Inr False)
      else case receiveFd W requestId ''render'' transferId s of
        Inl response \<Rightarrow> (s, Inl response)
      | Inr fd \<Rightarrow>
        let file = w_cookie W fd; s' = close_fd fd s in
        if \<not> ck_statOk file \<or> ck_size file \<noteq> RenderCookieBytes \<or> ck_seals file < 0
           \<or> ck_seals file AND requiredSeals \<noteq> requiredSeals
        then (s', Inl (failure requestId EC_InvalidRequest ''render'' ''invalid cancellation cookie''))
        else if \<not> ck_mapped file
        then (s', Inl (failure requestId EC_InvalidRequest ''render'' ''could not map cancellation cookie''))
        else if ck_abortBefore file
        then (s', Inl (failure requestId EC_Cancelled ''render'' ''render cancelled''))
        else (s', Inr True))"

text \<open>The engine tile: the requested tile clipped to the canvas.\<close>

definition engine_tile :: "RenderRequest \<Rightarrow> RenderTile option" where
  "engine_tile r =
     map_option (\<lambda>t. \<lparr>rt_x = rt_x t, rt_y = rt_y t, rt_width = min (rt_width t) (rr_width r - rt_x t),
       rt_height = min (rt_height t) (rr_height r - rt_y t)\<rparr>) (rr_tile r)"

text \<open>\<open>std::memset\<close> of \<open>n\<close> bytes at offset \<open>off\<close> to zero.\<close>

definition memset_zero :: "nat \<Rightarrow> nat \<Rightarrow> u8 list \<Rightarrow> u8 list" where
  "memset_zero off n buf = take off buf @ replicate (min n (length buf - off)) 0 @ drop (off + n) buf"

fun clear_rows :: "nat \<Rightarrow> nat \<Rightarrow> nat \<Rightarrow> u8 list \<Rightarrow> u8 list" where
  "clear_rows rowBytes stride 0 buf = buf"
| "clear_rows rowBytes stride (Suc row) buf =
     memset_zero (row * stride + rowBytes) (stride - rowBytes) (clear_rows rowBytes stride row buf)"

definition clear_padding :: "RenderTile \<Rightarrow> nat \<Rightarrow> nat \<Rightarrow> u8 list \<Rightarrow> u8 list" where
  "clear_padding tile rh stride buf =
     (let rowBytes = nat (rt_width tile) * 4; rows = nat (rt_height tile);
          buf1 = (if rowBytes < stride then clear_rows rowBytes stride rows buf else buf)
      in if rows < rh then memset_zero (rows * stride) ((rh - rows) * stride) buf1 else buf1)"

text \<open>
  The link metadata of an EPUB page that travels with its rendering. \<open>None\<close> is the exception that
  \<open>std::vector::at\<close> throws for a page without a charge flag; nothing catches it.
\<close>

definition render_links :: "'d Engine \<Rightarrow> 'd \<Rightarrow> RenderRequest \<Rightarrow> 'd CommandService \<Rightarrow>
  ('d CommandService \<times> RenderLinks) option" where
  "render_links E d render s =
     (if rr_generation render \<noteq> cs_linkGeneration s
      then Some (s, \<lparr>rls_generation = cs_linkGeneration s, rls_links = [], rls_error = ''obsolete document generation''\<rparr>)
      else
        let initialBytes = min MaxAggregateMetadataBytes (MaxControlMessageBytes div 2);
            budgets = ExtractionBudgets_default\<lparr>xb_links := \<lparr>bb_remainingBytes = initialBytes\<rparr>\<rparr>
        in case eg_extractLinkUris E d (rr_page render) budgets of
          (links, reason, budgets') \<Rightarrow>
          let bytes = size_sub initialBytes (bb_remainingBytes (xb_links budgets'));
              k = nat (rr_page render)
          in if k \<ge> length (cs_renderLinkCharged s) then None
          else
            let charged = cs_renderLinkCharged s ! k;
                over = (bytes > size_sub MaxAggregateMetadataBytes (cs_renderLinkBytes s)
                        \<or> length links > size_sub MaxOpenLinks (cs_renderLinkCount s));
                reason' = (if reason = [] \<and> \<not> charged \<and> over then ''resource limit: document links exceeded'' else reason);
                s' = (if reason = [] \<and> \<not> charged \<and> \<not> over
                      then s\<lparr>cs_renderLinkCharged := (cs_renderLinkCharged s)[k := True],
                             cs_renderLinkBytes := size_add (cs_renderLinkBytes s) bytes,
                             cs_renderLinkCount := size_add (cs_renderLinkCount s) (length links)\<rparr>
                      else s)
            in Some (s', \<lparr>rls_generation = cs_linkGeneration s, rls_links = (if reason' = [] then links else []),
                     rls_error = reason'\<rparr>))"

definition attach_links :: "'d Engine \<Rightarrow> 'd \<Rightarrow> u64 \<Rightarrow> RenderRequest \<Rightarrow> RenderFrame \<Rightarrow> 'd CommandService \<Rightarrow>
  ('d CommandService \<times> ResponseMessage) option" where
  "attach_links E d i render rf s =
     (if rr_includeLinks render \<and> eg_type E d = Doc_Epub
      then (case render_links E d render s of
              None \<Rightarrow> None
            | Some (s', links) \<Rightarrow> Some (s', success i (RsRender \<lparr>rrs_frame = rf, rrs_links = Some links\<rparr>)))
      else Some (s, success i (RsRender \<lparr>rrs_frame = rf, rrs_links = None\<rparr>)))"

text \<open>
  The part of \<open>renderResponse\<close> that runs once a frame is acquired; discarding the frame closes the
  descriptor of new storage.
\<close>

definition discard_frame :: "Frame \<Rightarrow> 'd CommandService \<Rightarrow> 'd CommandService" where
  "discard_frame frame s = s\<lparr>cs_closed := cs_closed s @ frame_fds frame\<rparr>"

definition render_into :: "'d Engine \<Rightarrow> World \<Rightarrow> u64 \<Rightarrow> RenderRequest \<Rightarrow> bool \<Rightarrow> FittedRenderRequest \<Rightarrow> 'd \<Rightarrow> Frame \<Rightarrow>
  'd CommandService \<Rightarrow> ('d CommandService \<times> ResponseMessage) option" where
  "render_into E W i render cookie fitted d frame s0 =
     (let address = the (frame_data (cs_framePool s0) frame);
          header = \<lparr>fh_magic = FRAME_SHM_MAGIC, fh_version = FRAME_SHM_VERSION, fh_requestId = i,
                    fh_width = fit_frameWidth fitted, fh_height = fit_frameHeight fitted,
                    fh_stride = fit_frameStride fitted, fh_format = 1\<rparr>;
          tile = engine_tile (fit_request fitted)
      in case eg_renderToBuffer E d
                \<lparr>erq_page = rr_page (fit_request fitted), erq_width = rr_width (fit_request fitted),
                 erq_height = rr_height (fit_request fitted), erq_tile = tile\<rparr>
                (sg_pixels (cs_memory s0 address)) (unat (fit_frameStride fitted)) of
        (pixels, rendered, reason) \<Rightarrow>
        let s1 = s0\<lparr>cs_memory := (cs_memory s0)(address := \<lparr>sg_header = header, sg_pixels = pixels\<rparr>)\<rparr> in
        if cookie \<and> w_abortAfter W
        then Some (discard_frame frame s1, failure i EC_Cancelled ''render'' ''render cancelled'')
        else if \<not> rendered
        then Some (discard_frame frame s1, failure i EC_Internal ''render'' (if reason = [] then ''MuPDF returned no image'' else reason))
        else
          let pixels' = (case tile of
                           None \<Rightarrow> pixels
                         | Some t \<Rightarrow> clear_padding t (unat (fit_frameHeight fitted)) (unat (fit_frameStride fitted)) pixels);
              s2 = s1\<lparr>cs_memory := (cs_memory s1)(address := \<lparr>sg_header = header, sg_pixels = pixels'\<rparr>)\<rparr>;
              transferId = (if needsTransfer frame then cs_nextFrameTransferId s2 else 0);
              s3 = (if needsTransfer frame then s2\<lparr>cs_nextFrameTransferId := cs_nextFrameTransferId s2 + 1\<rparr> else s2)
          in case (if needsTransfer frame then w_send W transferId (frame_descriptor (cs_framePool s3) frame) else None) of
            Some reason' \<Rightarrow> Some (discard_frame frame s3, failure i EC_Unavailable ''render'' reason')
          | None \<Rightarrow>
            (case publishFrame (cs_framePool s3) frame of
               (pool', frame', lease) \<Rightarrow>
               let s4 = discard_frame frame' (s3\<lparr>cs_framePool := pool',
                     cs_rendersSinceTrim := size_add (cs_rendersSinceTrim s3) 1,
                     cs_bytesSinceTrim := size_add (cs_bytesSinceTrim s3) (unat (fit_frameDataBytes fitted))\<rparr>);
                   rf = \<lparr>rf_transferId = transferId, rf_slotId = ls_slotId lease, rf_leaseId = ls_leaseId lease,
                         rf_width = int (unat (fit_frameWidth fitted)), rf_height = int (unat (fit_frameHeight fitted)),
                         rf_stride = int (unat (fit_frameStride fitted)), rf_format = 1\<rparr>
               in attach_links E d i render rf s4))"

text \<open>
  The outer option is \<open>None\<close> if the fitting loop does not end or the link metadata throws; neither happens
  for a request that passes validation in a state the service reaches.
\<close>

definition renderResponse :: "'d Engine \<Rightarrow> World \<Rightarrow> u64 \<Rightarrow> RenderRequest \<Rightarrow> 'd CommandService \<Rightarrow>
  ('d CommandService \<times> ResponseMessage) option" where
  "renderResponse E W i render s =
     (case receiveRenderCookie W i (rr_cancelTransferId render) s of
        (s1, Inl response) \<Rightarrow> Some (s1, response)
      | (s1, Inr cookie) \<Rightarrow>
        if \<not> hasOpenDocument E s1 then Some (s1, failure i EC_NotOpen ''render'' ''no document is open'')
        else
          let d = the (cs_document s1) in
          if rr_page render \<ge> eg_pageCount E d then Some (s1, failure i EC_InvalidRequest ''render'' ''invalid page'')
          else if \<not> cs_fdChannel s1 then Some (s1, failure i EC_Unavailable ''render'' ''FD channel unavailable'')
          else case fitRenderRequestToFrameBudget (w_rounding W) render of
            None \<Rightarrow> None
          | Some fitted \<Rightarrow>
            (case acquireFrame (w_kernel W) (cs_framePool s1)
                    (size_add sizeof_FrameBufferHeader (unat (fit_frameDataBytes fitted))) of
               (pool', Inl e, shut) \<Rightarrow>
                 Some (s1\<lparr>cs_framePool := pool', cs_closed := cs_closed s1 @ shut\<rparr>,
                       \<lparr>rsm_id = i, rsm_payload = RsEmpty, rsm_error = Some e\<rparr>)
             | (pool', Inr frame, shut) \<Rightarrow>
                 render_into E W i render cookie fitted d frame (s1\<lparr>cs_framePool := pool'\<rparr>)))"

definition releaseFrameSlotResponse :: "u64 \<Rightarrow> ReleaseFrameSlotRequest \<Rightarrow> 'd CommandService \<Rightarrow>
  'd CommandService \<times> ResponseMessage" where
  "releaseFrameSlotResponse i release s =
     (if rel_slotId release = 0 \<or> rel_leaseId release = 0
      then (s, failure i EC_InvalidRequest ''release-frame-slot'' ''invalid slot lease'')
      else (s\<lparr>cs_framePool := releaseFrame (rel_slotId release) (rel_leaseId release) (cs_framePool s)\<rparr>, success i RsEmpty))"

section \<open>Signing\<close>

text \<open>
  The nested exchange. One event is one iteration of the loop: the remaining time and what the read
  returned. An iteration returns (\<open>Inl\<close>) or defers an unrelated request and goes on (\<open>Inr\<close>).
\<close>

definition cms_error :: "string \<Rightarrow> CmsResult" where
  "cms_error reason = \<lparr>cms_result = SR_GenericError, cms_details = reason, cms_signature = []\<rparr>"

text \<open>\<open>std::get_if\<close> on the payload.\<close>

definition sign_reply_of :: "RequestPayload \<Rightarrow> SignReply option" where
  "sign_reply_of payload = (case payload of RqSignReply reply \<Rightarrow> Some reply | _ \<Rightarrow> None)"

definition cms_step :: "World \<Rightarrow> SignInput \<Rightarrow> int \<times> (string + u8 list) \<Rightarrow> 'd CommandService \<Rightarrow>
  ('d CommandService \<times> CmsResult) + 'd CommandService" where
  "cms_step W input event s =
     (if fst event \<le> 0 then Inl (s, cms_error ''signing timed out'')
      else case snd event of
        Inl reason \<Rightarrow> Inl (s, cms_error reason)
      | Inr raw \<Rightarrow>
        (case w_decode W raw of
           Inl reason \<Rightarrow> Inl (s, cms_error reason)
         | Inr incoming \<Rightarrow>
           (case sign_reply_of (rqm_payload incoming) of
              Some reply \<Rightarrow>
                if sr_jobId reply \<noteq> si_jobId input \<or> sr_nonce reply \<noteq> si_nonce input
                then Inl (s\<lparr>cs_disconnectRequested := True\<rparr>,
                  cms_error ''signing protocol violation: mismatched jobId or nonce'')
                else Inl (s, \<lparr>cms_result = sr_result reply, cms_details = sr_details reply,
                  cms_signature = sr_cmsSignature reply\<rparr>)
            | None \<Rightarrow>
              (case deferIncoming raw s of
                 (s', True) \<Rightarrow> Inr s'
               | (s', False) \<Rightarrow>
                 Inl (s'\<lparr>cs_disconnectRequested := True\<rparr>, cms_error ''deferred request queue is full'')))))"

text \<open>\<open>None\<close> means that the events ended before the loop returned.\<close>

fun cms_loop :: "World \<Rightarrow> SignInput \<Rightarrow> (int \<times> (string + u8 list)) list \<Rightarrow> 'd CommandService \<Rightarrow>
  ('d CommandService \<times> CmsResult) option" where
  "cms_loop W input [] s = None"
| "cms_loop W input (event # events) s =
     (case cms_step W input event s of Inl result \<Rightarrow> Some result | Inr s' \<Rightarrow> cms_loop W input events s')"

definition requestCmsSignature :: "World \<Rightarrow> SignInput \<Rightarrow> 'd CommandService \<Rightarrow> ('d CommandService \<times> CmsResult) option" where
  "requestCmsSignature W input s =
     (case w_notify W input of
        Some reason \<Rightarrow> Some (s, cms_error reason)
      | None \<Rightarrow> cms_loop W input (w_signEvents W) s)"

definition sign_answer :: "u64 \<Rightarrow> bool \<times> SigningResult \<times> string \<Rightarrow> ResponseMessage" where
  "sign_answer i outcome =
     (case outcome of
        (True, _) \<Rightarrow> success i (RsSign \<lparr>sgr_result = SR_Success, sgr_details = []\<rparr>)
      | (False, signingResult, reason) \<Rightarrow>
        let resultStatus = (if signingResult \<noteq> SR_GenericError then signingResult
              else if reason = ''signature field is already signed'' then SR_FieldAlreadySigned else SR_GenericError)
        in success i (RsSign \<lparr>sgr_result = resultStatus, sgr_details = reason\<rparr>))"

definition signFdResponse :: "'d Engine \<Rightarrow> World \<Rightarrow> u64 \<Rightarrow> SignRequest \<Rightarrow> int \<Rightarrow> 'd CommandService \<Rightarrow>
  ('d CommandService \<times> ResponseMessage) option" where
  "signFdResponse E W i sign fd s =
     (if \<not> cs_controlChannel s
      then Some (close_fd fd s, failure i EC_Unavailable ''sign'' ''control socket unavailable'')
      else case cs_document s of
        None \<Rightarrow> Some (close_fd fd s, failure i EC_InvalidRequest ''sign'' ''invalid page'')
      | Some d \<Rightarrow>
        if sg_page sign \<ge> eg_pageCount E d
        then Some (close_fd fd s, failure i EC_InvalidRequest ''sign'' ''invalid page'')
        else case eg_signFd E sign fd d of
          SignDone d' ok result reason \<Rightarrow> Some (s\<lparr>cs_document := Some d'\<rparr>, sign_answer i (ok, result, reason))
        | SignAsk digest nickname resume \<Rightarrow>
          (case requestCmsSignature W \<lparr>si_jobId = i, si_nonce = decimal (unat i), si_certificateNickname = nickname,
                  si_digest = digest\<rparr> s of
             None \<Rightarrow> None
           | Some (s', cms) \<Rightarrow>
             (case resume cms of
                (d', ok, result, reason) \<Rightarrow> Some (s'\<lparr>cs_document := Some d'\<rparr>, sign_answer i (ok, result, reason)))))"

section \<open>Annotations and forms\<close>

definition annotationAdd :: "'d Engine \<Rightarrow> u64 \<Rightarrow> AnnotationAddRequest \<Rightarrow> 'd CommandService \<Rightarrow>
  'd CommandService \<times> ResponseMessage" where
  "annotationAdd E i a s =
     (if \<not> hasOpenDocument E s then (s, failure i EC_NotOpen ''annot_add'' ''no document is open'')
      else
        let d = the (cs_document s) in
        if aar_page a \<ge> eg_pageCount E d then (s, failure i EC_InvalidRequest ''annot_add'' ''invalid annotation'')
        else if length (cs_annotationHandles s) \<ge> MaxAnnotationsPerDocument
        then (s, failure i EC_ResourceLimit ''annot_add'' ''annotation handle limit exceeded'')
        else case eg_addAnnotation E (aar_page a) (aar_annotation a) d of
          (d', False, _, reason) \<Rightarrow> (s\<lparr>cs_document := Some d'\<rparr>, failure i EC_Internal ''annot_add'' reason)
        | (d', True, object, _) \<Rightarrow>
          (case annotationHandle (aar_page a) object (s\<lparr>cs_document := Some d'\<rparr>) of
             (s', h) \<Rightarrow> (s', success i (RsAnnotation \<lparr>anr_handle = \<lparr>ah_value = h\<rparr>\<rparr>))))"

definition annotationModify :: "'d Engine \<Rightarrow> u64 \<Rightarrow> AnnotationModifyRequest \<Rightarrow> 'd CommandService \<Rightarrow>
  'd CommandService \<times> ResponseMessage" where
  "annotationModify E i m s =
     (let mutation = amr_mutation m in
      if \<not> hasOpenDocument E s then (s, failure i EC_NotOpen ''annot_modify'' ''no document is open'')
      else case map_of (cs_annotationHandles s) (ah_value (am_handle mutation)) of
        None \<Rightarrow> (s, failure i EC_InvalidRequest ''annot_modify'' ''invalid annotation handle'')
      | Some location \<Rightarrow>
        if hl_page location \<noteq> am_page mutation
        then (s, failure i EC_InvalidRequest ''annot_modify'' ''invalid annotation handle'')
        else case eg_modifyAnnotation E (am_page mutation) (hl_objectNumber location) (am_annotation mutation)
                    (am_appearanceChanged mutation) (the (cs_document s)) of
          (d', False, reason) \<Rightarrow> (s\<lparr>cs_document := Some d'\<rparr>, failure i EC_Internal ''annot_modify'' reason)
        | (d', True, _) \<Rightarrow> (s\<lparr>cs_document := Some d'\<rparr>, success i RsEmpty))"

definition annotationRemove :: "'d Engine \<Rightarrow> u64 \<Rightarrow> AnnotationRemoveRequest \<Rightarrow> 'd CommandService \<Rightarrow>
  'd CommandService \<times> ResponseMessage" where
  "annotationRemove E i x s =
     (if \<not> hasOpenDocument E s then (s, failure i EC_NotOpen ''annot_remove'' ''no document is open'')
      else case map_of (cs_annotationHandles s) (ah_value (arr_handle x)) of
        None \<Rightarrow> (s, failure i EC_InvalidRequest ''annot_remove'' ''invalid annotation handle'')
      | Some location \<Rightarrow>
        if hl_page location \<noteq> arr_page x
        then (s, failure i EC_InvalidRequest ''annot_remove'' ''invalid annotation handle'')
        else case eg_removeAnnotation E (arr_page x) (hl_objectNumber location) (the (cs_document s)) of
          (d', False, reason) \<Rightarrow> (s\<lparr>cs_document := Some d'\<rparr>, failure i EC_Internal ''annot_remove'' reason)
        | (d', True, _) \<Rightarrow>
          (s\<lparr>cs_document := Some d',
             cs_annotationObjectHandles := map_erase (objectKey (arr_page x) (hl_objectNumber location)) (cs_annotationObjectHandles s),
             cs_annotationHandles := map_erase (ah_value (arr_handle x)) (cs_annotationHandles s)\<rparr>, success i RsEmpty))"

fun form_update_loop :: "(u64, string) std_map \<Rightarrow> FieldMutation list \<Rightarrow> FormUpdateResponse \<Rightarrow> FormUpdateResponse" where
  "form_update_loop handles [] response = response"
| "form_update_loop handles (mutation # rest) response =
     (let response1 = (case map_of handles (objectKey (fm_page mutation) (fm_objectNumber mutation)) of
                         None \<Rightarrow> response
                       | Some h \<Rightarrow> response\<lparr>fur_affectedFields := fur_affectedFields response
                           @ [\<lparr>fs_handle = h, fs_value = fm_actualValue mutation\<rparr>]\<rparr>);
          response2 = (if fm_page mutation \<in> set (fur_affectedPages response1) then response1
                       else response1\<lparr>fur_affectedPages := fur_affectedPages response1 @ [fm_page mutation]\<rparr>)
      in form_update_loop handles rest response2)"

definition formUpdateResponse :: "FieldMutation list \<Rightarrow> 'd CommandService \<Rightarrow> FormUpdateResponse" where
  "formUpdateResponse mutations s =
     form_update_loop (cs_formObjectHandles s) mutations \<lparr>fur_affectedFields = [], fur_affectedPages = []\<rparr>"

text \<open>The three form handlers share their guards and their answer; \<open>call\<close> is the engine method.\<close>

definition form_answer :: "u64 \<Rightarrow> string \<Rightarrow> ('d \<times> bool \<times> FieldMutation list \<times> string) \<Rightarrow> 'd CommandService \<Rightarrow>
  'd CommandService \<times> ResponseMessage" where
  "form_answer i operation outcome s =
     (case outcome of
        (d', False, _, reason) \<Rightarrow>
          (s\<lparr>cs_document := Some d'\<rparr>,
           failure i (if isResourceLimitError reason then EC_ResourceLimit else EC_Internal) operation reason)
      | (d', True, mutations, _) \<Rightarrow>
          (s\<lparr>cs_document := Some d'\<rparr>, success i (RsFormUpdate (formUpdateResponse mutations s))))"

definition formUpdate :: "'d Engine \<Rightarrow> u64 \<Rightarrow> FormUpdateRequest \<Rightarrow> 'd CommandService \<Rightarrow> 'd CommandService \<times> ResponseMessage" where
  "formUpdate E i u s =
     (if \<not> hasOpenDocument E s then (s, failure i EC_NotOpen ''form_update'' ''no document is open'')
      else case map_of (cs_formFieldHandles s) (fu_handle u) of
        None \<Rightarrow> (s, failure i EC_InvalidRequest ''form_update'' ''invalid form field handle'')
      | Some location \<Rightarrow> form_answer i ''form_update''
          (eg_updateFormField E (hl_page location) (hl_objectNumber location) (fu_value u) (the (cs_document s))) s)"

definition formReset :: "'d Engine \<Rightarrow> u64 \<Rightarrow> FormResetRequest \<Rightarrow> 'd CommandService \<Rightarrow> 'd CommandService \<times> ResponseMessage" where
  "formReset E i r s =
     (if \<not> hasOpenDocument E s then (s, failure i EC_NotOpen ''form_reset'' ''no document is open'')
      else case map_of (cs_formFieldHandles s) (FormResetRequest.fr_handle r) of
        None \<Rightarrow> (s, failure i EC_InvalidRequest ''form_reset'' ''invalid form field handle'')
      | Some location \<Rightarrow> form_answer i ''form_reset''
          (eg_resetForm E (hl_page location) (hl_objectNumber location) (the (cs_document s))) s)"

definition formButtonClick :: "'d Engine \<Rightarrow> u64 \<Rightarrow> FormButtonClickRequest \<Rightarrow> 'd CommandService \<Rightarrow>
  'd CommandService \<times> ResponseMessage" where
  "formButtonClick E i click s =
     (if \<not> hasOpenDocument E s then (s, failure i EC_NotOpen ''form_button_click'' ''no document is open'')
      else case map_of (cs_formFieldHandles s) (fb_handle click) of
        None \<Rightarrow> (s, failure i EC_InvalidRequest ''form_button_click'' ''invalid form field handle'')
      | Some location \<Rightarrow> form_answer i ''form_button_click''
          (eg_clickFormButton E (hl_page location) (hl_objectNumber location) (the (cs_document s))) s)"

section \<open>Background work\<close>

definition command_outputFormats :: "'d Engine \<Rightarrow> 'd CommandService \<Rightarrow> OutputFormatInfo list" where
  "command_outputFormats E s =
     (let formats = (if hasOpenDocument E s then doc_outputFormats E (the (cs_document s)) else []) in
      if xs_event (cs_exportJobs s) < 0
      then filter (\<lambda>format. ofi_profiles format \<noteq> [])
             (map (\<lambda>format. format\<lparr>ofi_profiles := filter (\<lambda>p. \<not> (ep_asynchronous p \<and> \<not> ep_synchronous p)) (ofi_profiles format)\<rparr>)
               formats)
      else formats)"

definition exportResponse :: "'d Engine \<Rightarrow> World \<Rightarrow> u64 \<Rightarrow> ExportRequest \<Rightarrow> int \<Rightarrow> int \<Rightarrow> 'd CommandService \<Rightarrow>
  'd CommandService \<times> ResponseMessage" where
  "exportResponse E W i payload outputFd inputFd s =
     (if \<not> hasOpenDocument E s
      then (close_fd inputFd (close_fd outputFd s), failure i EC_NotOpen ''export'' ''no document is open'')
      else
        let d = the (cs_document s) in
        case findExportProfile (command_outputFormats E s) (exq_options payload) (exq_asynchronous payload) (eg_pageCount E d) of
          Inl reason \<Rightarrow> (close_fd inputFd (close_fd outputFd s), failure i EC_Unavailable ''export'' reason)
        | Inr profile \<Rightarrow>
          if \<not> exq_asynchronous payload
          then (case doc_exportFd E outputFd (exq_options payload) False d of
                  (d', ok, reason, shut) \<Rightarrow>
                  let s' = close_fd inputFd (s\<lparr>cs_document := Some d', cs_closed := cs_closed s @ shut\<rparr>) in
                  if ok then (s', success i RsEmpty) else (s', failure i EC_Internal ''export'' reason))
          else
            (case export_reserve (w_now W) inputFd outputFd (exq_options payload) (eg_type E d) (cs_exportJobs s) of
               (x1, shut1, None) \<Rightarrow>
                 (s\<lparr>cs_exportJobs := x1, cs_closed := cs_closed s @ shut1\<rparr>,
                  failure i EC_ResourceLimit ''export'' ''export capacity is unavailable'')
             | (x1, shut1, Some _) \<Rightarrow>
               (case export_spawn (w_threadStarts W) x1 of
                  (x2, shut2, None) \<Rightarrow>
                    (s\<lparr>cs_exportJobs := x2, cs_closed := cs_closed s @ shut1 @ shut2\<rparr>,
                     failure i EC_ResourceLimit ''export'' ''export capacity is unavailable'')
                | (x2, shut2, Some job) \<Rightarrow>
                    (s\<lparr>cs_exportJobs := x2, cs_closed := cs_closed s @ shut1 @ shut2\<rparr>,
                     success i (RsJob \<lparr>jr_jobId = job\<rparr>)))))"

text \<open>The default capacity of the OCR pool.\<close>

definition OcrJobLimit :: nat where
  "OcrJobLimit = 8"

definition ocrPage :: "'d Engine \<Rightarrow> World \<Rightarrow> u64 \<Rightarrow> OcrPageRequest \<Rightarrow> int \<Rightarrow> 'd CommandService \<Rightarrow>
  'd CommandService \<times> ResponseMessage" where
  "ocrPage E W i r inputFd s =
     (if \<not> hasOpenDocument E s then (close_fd inputFd s, failure i EC_NotOpen ''ocr_page'' ''no document is open'')
      else
        let d = the (cs_document s) in
        if eg_type E d \<noteq> Doc_Pdf
        then (close_fd inputFd s, failure i EC_Unavailable ''ocr_page'' ''OCR is only supported for PDF documents'')
        else if ocp_page r \<ge> eg_pageCount E d
        then (close_fd inputFd s, failure i EC_InvalidRequest ''ocr_page'' ''invalid page'')
        else
          let language = (if ocp_language r = [] then ''eng'' else ocp_language r) in
          case w_findTessdata W language (cs_tessDataDirectories s) of
            None \<Rightarrow> (close_fd inputFd s, failure i EC_Unavailable ''ocr_page'' ''OCR model not found in configured data directories'')
          | Some directory \<Rightarrow>
            (case submit OcrJobLimit (w_threadStarts W) inputFd (ocp_page r) (cs_ocrJobs s) of
               (o', shut, None) \<Rightarrow>
                 (s\<lparr>cs_ocrJobs := o', cs_closed := cs_closed s @ shut\<rparr>, failure i EC_ResourceLimit ''ocr_page'' ''too many jobs'')
             | (o', shut, Some job) \<Rightarrow>
                 (s\<lparr>cs_ocrJobs := o', cs_closed := cs_closed s @ shut\<rparr>, success i (RsJob \<lparr>jr_jobId = job\<rparr>))))"

definition ocrResult :: "'d Engine \<Rightarrow> u64 \<Rightarrow> OcrResultRequest \<Rightarrow> 'd CommandService \<Rightarrow> 'd CommandService \<times> ResponseMessage" where
  "ocrResult E i r s =
     (if \<not> hasOpenDocument E s then (s, failure i EC_NotOpen ''ocr_result'' ''no document is open'')
      else case take_result (orq_jobId r) (cs_ocrJobs s) of
        (o', None) \<Rightarrow> (s\<lparr>cs_ocrJobs := o'\<rparr>, failure i EC_Unavailable ''ocr_result'' ''job is not complete'')
      | (o', Some result) \<Rightarrow> (s\<lparr>cs_ocrJobs := o'\<rparr>, makeOcrResponse i result))"

section \<open>The page-link walk\<close>

definition cancelPageLinks :: "'d Engine \<Rightarrow> 'd CommandService \<Rightarrow> 'd CommandService" where
  "cancelPageLinks E s =
     (if cs_pendingPageLinks s = None then s
      else (map_document (\<lambda>d. eg_discardResolvedLinkCache E (eg_setPageCacheSuspended E False d)) s)\<lparr>cs_pendingPageLinks := None\<rparr>)"

definition processPageLinks :: "'d Engine \<Rightarrow> 'd CommandService \<Rightarrow> 'd CommandService \<times> PageLinksNotification option" where
  "processPageLinks E s =
     (case cs_pendingPageLinks s of
        None \<Rightarrow> (s, None)
      | Some pending \<Rightarrow>
        if \<not> hasOpenDocument E s then (s, None)
        else
          let d = the (cs_document s) in
          case eg_extractLinks E d (pp_nextPage pending) (pp_budgets pending) of
            (links, reason, budgets') \<Rightarrow>
            if reason \<noteq> []
            then (cancelPageLinks E s, Some \<lparr>pln_generation = pp_generation pending, pln_pages = [],
                    pln_resourceLimited = isResourceLimitError reason, pln_error = reason\<rparr>)
            else if length links > MaxOpenLinks \<or> pp_totalLinks pending > size_sub MaxOpenLinks (length links)
            then (cancelPageLinks E s, Some \<lparr>pln_generation = pp_generation pending, pln_pages = [],
                    pln_resourceLimited = True, pln_error = ''document link metadata exceeds its limit''\<rparr>)
            else
              let pending' = \<lparr>pp_generation = pp_generation pending, pp_nextPage = pp_nextPage pending + 1,
                    pp_totalLinks = size_add (pp_totalLinks pending) (length links),
                    pp_pages = pp_pages pending @ [\<lparr>pl_page = pp_nextPage pending, pl_links = links\<rparr>],
                    pp_budgets = budgets'\<rparr>;
                  s' = s\<lparr>cs_pendingPageLinks := Some pending'\<rparr>
              in if pp_nextPage pending' < eg_pageCount E d then (s', None)
                 else (cancelPageLinks E s', Some \<lparr>pln_generation = pp_generation pending, pln_pages = pp_pages pending',
                         pln_resourceLimited = False, pln_error = []\<rparr>))"

section \<open>Queries\<close>

definition ping :: "World \<Rightarrow> u64 \<Rightarrow> 'd CommandService \<Rightarrow> ResponseMessage" where
  "ping W i s = success i (RsPing \<lparr>pgr_compat = w_compat W, pgr_pid = w_pid W, pgr_sandbox = cs_sandbox s,
     pgr_engineVersion = w_engineVersion W, pgr_systemMuPdf = w_systemMuPdf W\<rparr>)"

definition textBoxes :: "'d Engine \<Rightarrow> u64 \<Rightarrow> TextBoxesRequest \<Rightarrow> 'd CommandService \<Rightarrow> ResponseMessage" where
  "textBoxes E i b s =
     (if \<not> hasOpenDocument E s then failure i EC_NotOpen ''text_boxes'' ''no document is open''
      else
        let d = the (cs_document s) in
        if tbq_page b \<ge> eg_pageCount E d then failure i EC_InvalidRequest ''text_boxes'' ''invalid page''
        else case eg_textBoxes E d (tbq_page b) (tbq_dpiX b) (tbq_dpiY b) MaxResponseBoxes (tbq_skipAnnots b) of
          (values, reason) \<Rightarrow>
            if reason \<noteq> [] then failure i EC_Internal ''text_boxes'' reason
            else success i (RsTextBoxes \<lparr>tbr_boxes = values\<rparr>))"

definition documentInfo :: "'d Engine \<Rightarrow> u64 \<Rightarrow> MetadataRequest \<Rightarrow> 'd CommandService \<Rightarrow> ResponseMessage" where
  "documentInfo E i m s =
     (if \<not> hasOpenDocument E s then failure i EC_NotOpen ''metadata'' ''no document is open''
      else case eg_metadata E (the (cs_document s)) (mdq_keys m) of
        (metadata, reason) \<Rightarrow>
          if reason \<noteq> [] then failure i EC_Internal ''metadata'' reason
          else success i (RsMetadata \<lparr>mdr_metadata = metadata\<rparr>))"

definition synopsis_nodes :: "'d Engine \<Rightarrow> bool \<Rightarrow> 'd \<Rightarrow> OutlineNode list \<times> string" where
  "synopsis_nodes E generateFallback d =
     (case eg_outline E d of
        (nodes, reason) \<Rightarrow>
        if reason = [] \<and> nodes = [] \<and> generateFallback
        then (case eg_generateOutline E d of None \<Rightarrow> (nodes, reason) | Some r \<Rightarrow> r)
        else (nodes, reason))"

definition synopsis :: "'d Engine \<Rightarrow> u64 \<Rightarrow> SynopsisRequest \<Rightarrow> 'd CommandService \<Rightarrow> ResponseMessage" where
  "synopsis E i r s =
     (if \<not> hasOpenDocument E s then failure i EC_NotOpen ''synopsis'' ''no document is open''
      else case synopsis_nodes E (syn_generateFallback r) (the (cs_document s)) of
        (nodes, reason) \<Rightarrow>
          if reason \<noteq> [] then failure i (if isResourceLimitError reason then EC_ResourceLimit else EC_Internal) ''synopsis'' reason
          else if countOutlineNodes nodes MaxOutlineResponseNodes 0 > MaxOutlineResponseNodes
          then failure i EC_ResourceLimit ''synopsis'' ''outline exceeds its limit''
          else success i (RsOutline \<lparr>olr_nodes = nodes\<rparr>))"

definition layers :: "'d Engine \<Rightarrow> u64 \<Rightarrow> 'd CommandService \<Rightarrow> ResponseMessage" where
  "layers E i s =
     (if \<not> hasOpenDocument E s then failure i EC_NotOpen ''layers'' ''no document is open''
      else case eg_layers E (the (cs_document s)) of
        (entries, reason) \<Rightarrow>
          if reason \<noteq> [] then failure i EC_Internal ''layers'' reason
          else success i (RsLayers \<lparr>lys_generation = cs_linkGeneration s, lys_entries = entries\<rparr>))"

definition setLayer :: "'d Engine \<Rightarrow> u64 \<Rightarrow> SetLayerRequest \<Rightarrow> 'd CommandService \<Rightarrow> 'd CommandService \<times> ResponseMessage" where
  "setLayer E i payload s =
     (if \<not> hasOpenDocument E s then (s, failure i EC_NotOpen ''set-layer'' ''no document is open'')
      else if sl_generation payload \<noteq> cs_linkGeneration s
      then (s, failure i EC_InvalidRequest ''set-layer'' ''stale layer generation'')
      else case eg_setLayer E (SetLayerRequest.sl_id payload) (sl_selected payload) (the (cs_document s)) of
        (d', False, reason) \<Rightarrow> (s\<lparr>cs_document := Some d'\<rparr>, failure i EC_InvalidRequest ''set-layer'' reason)
      | (d', True, _) \<Rightarrow> let s' = s\<lparr>cs_document := Some d'\<rparr> in (s', layers E i s'))"

definition fonts :: "'d Engine \<Rightarrow> u64 \<Rightarrow> FontsRequest \<Rightarrow> 'd CommandService \<Rightarrow> ResponseMessage" where
  "fonts E i f s =
     (if \<not> hasOpenDocument E s then failure i EC_NotOpen ''fonts'' ''no document is open''
      else
        let d = the (cs_document s) in
        if foq_page f \<ge> 0 \<and> \<not> foq_page f < eg_pageCount E d then failure i EC_InvalidRequest ''fonts'' ''invalid page''
        else case eg_fonts E d (if foq_page f < 0 then [0..eg_pageCount E d - 1] else [foq_page f]) of
          (values, reason) \<Rightarrow>
            if reason \<noteq> [] then failure i EC_Internal ''fonts'' reason else success i (RsFonts \<lparr>for_fonts = values\<rparr>))"

definition settings :: "'d Engine \<Rightarrow> u64 \<Rightarrow> SettingsRequest \<Rightarrow> 'd CommandService \<Rightarrow> 'd CommandService \<times> ResponseMessage" where
  "settings E i r s =
     (map_document (eg_setSettings E (stq_settings r)) (s\<lparr>cs_settings := stq_settings r\<rparr>), success i RsEmpty)"

definition embeddedFiles :: "'d Engine \<Rightarrow> u64 \<Rightarrow> 'd CommandService \<Rightarrow> ResponseMessage" where
  "embeddedFiles E i s =
     (if \<not> hasOpenDocument E s then failure i EC_NotOpen ''embedded_files'' ''no document is open''
      else case eg_embeddedFiles E (the (cs_document s)) MaxEmbeddedFileBytes MaxEmbeddedFileCount of
        (files, limit, reason) \<Rightarrow>
          if reason \<noteq> [] then failure i EC_Internal ''embedded_files'' reason
          else if limit then failure i EC_ResourceLimit ''embedded_files'' ''attachments exceed transfer limit''
          else success i (RsEmbeddedFiles \<lparr>efr_files = files\<rparr>))"

definition resolve_link :: "'d Engine \<Rightarrow> u64 \<Rightarrow> ResolveLinkRequest \<Rightarrow> 'd CommandService \<Rightarrow> ResponseMessage" where
  "resolve_link E i payload s =
     (if \<not> hasOpenDocument E s then failure i EC_NotOpen ''resolve-link'' ''no document is open''
      else if rlq_generation payload \<noteq> cs_linkGeneration s
      then failure i EC_InvalidRequest ''resolve-link'' ''obsolete document generation''
      else
        let target = eg_resolveLink E (the (cs_document s)) (rlq_uri payload)
        in success i (RsResolveLink \<lparr>rlr_target = (if rl_external target then no_link else target)\<rparr>))"

section \<open>Dispatch\<close>

definition dispatchWithFd :: "World \<Rightarrow> u64 \<Rightarrow> string \<Rightarrow> u64 \<Rightarrow> (int \<Rightarrow> 'd CommandService \<Rightarrow> ('d CommandService \<times> ResponseMessage) option) \<Rightarrow>
  'd CommandService \<Rightarrow> ('d CommandService \<times> ResponseMessage) option" where
  "dispatchWithFd W i operation transferId handler s =
     (case receiveFd W i operation transferId s of
        Inl response \<Rightarrow> Some (s, response)
      | Inr fd \<Rightarrow> handler fd s)"

text \<open>Exporting receives the output descriptor first and closes it when the input is missing.\<close>

definition dispatch_export :: "'d Engine \<Rightarrow> World \<Rightarrow> u64 \<Rightarrow> ExportRequest \<Rightarrow> 'd CommandService \<Rightarrow>
  ('d CommandService \<times> ResponseMessage) option" where
  "dispatch_export E W i payload s =
     (case receiveFd W i ''export'' (ft_transferId (exq_output payload)) s of
        Inl response \<Rightarrow> Some (s, response)
      | Inr outputFd \<Rightarrow>
        if exq_asynchronous payload
        then (case receiveFd W i ''export'' (ft_transferId (exq_input payload)) s of
                Inl response \<Rightarrow> Some (close_fd outputFd s, response)
              | Inr inputFd \<Rightarrow> Some (exportResponse E W i payload outputFd inputFd s))
        else Some (exportResponse E W i payload outputFd (- 1) s))"

fun handle_payload :: "'d Engine \<Rightarrow> World \<Rightarrow> u64 \<Rightarrow> RequestPayload \<Rightarrow> 'd CommandService \<Rightarrow>
  ('d CommandService \<times> ResponseMessage) option" where
  "handle_payload E W i (RqPing r) s = Some (s, ping W i s)"
| "handle_payload E W i RqClose s = Some (closeDocument E (w_now W) s, success i RsEmpty)"
| "handle_payload E W i (RqOpen r) s =
     dispatchWithFd W i ''open'' (ft_transferId (opn_file r)) (\<lambda>fd s. Some (openRequestResponse E (w_now W) i fd r s)) s"
| "handle_payload E W i RqOutputFormats s =
     Some (s, success i (RsOutputFormats \<lparr>ofr_formats = command_outputFormats E s\<rparr>))"
| "handle_payload E W i (RqExport r) s = dispatch_export E W i r s"
| "handle_payload E W i (RqSign r) s =
     dispatchWithFd W i ''sign'' (ft_transferId (sg_file r)) (signFdResponse E W i r) s"
| "handle_payload E W i (RqResolveLink r) s = Some (s, resolve_link E i r s)"
| "handle_payload E W i (RqRender r) s = renderResponse E W i r s"
| "handle_payload E W i (RqReleaseFrameSlot r) s = Some (releaseFrameSlotResponse i r s)"
| "handle_payload E W i (RqAnnotationAdd r) s = Some (annotationAdd E i r s)"
| "handle_payload E W i (RqAnnotationModify r) s = Some (annotationModify E i r s)"
| "handle_payload E W i (RqAnnotationRemove r) s = Some (annotationRemove E i r s)"
| "handle_payload E W i (RqOcrPage r) s =
     dispatchWithFd W i ''ocr_page'' (ft_transferId (ocp_file r)) (\<lambda>fd s. Some (ocrPage E W i r fd s)) s"
| "handle_payload E W i (RqOcrResult r) s = Some (ocrResult E i r s)"
| "handle_payload E W i RqCancelOcrJobs s = Some (s\<lparr>cs_ocrJobs := cancelAll (cs_ocrJobs s)\<rparr>, success i RsEmpty)"
| "handle_payload E W i (RqTextBoxes r) s = Some (s, textBoxes E i r s)"
| "handle_payload E W i (RqMetadata r) s = Some (s, documentInfo E i r s)"
| "handle_payload E W i (RqSynopsis r) s = Some (s, synopsis E i r s)"
| "handle_payload E W i RqLayers s = Some (s, layers E i s)"
| "handle_payload E W i (RqSetLayer r) s = Some (setLayer E i r s)"
| "handle_payload E W i (RqFonts r) s = Some (s, fonts E i r s)"
| "handle_payload E W i (RqSettings r) s = Some (settings E i r s)"
| "handle_payload E W i RqEmbeddedFiles s = Some (s, embeddedFiles E i s)"
| "handle_payload E W i (RqFormUpdate r) s = Some (formUpdate E i r s)"
| "handle_payload E W i (RqFormReset r) s = Some (formReset E i r s)"
| "handle_payload E W i (RqFormButtonClick r) s = Some (formButtonClick E i r s)"
| "handle_payload E W i (RqSignReply r) s =
     Some (s, failure i EC_InvalidRequest ''request'' ''sign replies are only valid as nested messages'')"

definition dispatch :: "'d Engine \<Rightarrow> World \<Rightarrow> RequestMessage \<Rightarrow> 'd CommandService \<Rightarrow>
  ('d CommandService \<times> ResponseMessage) option" where
  "dispatch E W request s =
     (case validateInboundRequest (rqm_id request) (rqm_payload request) of
        Some response \<Rightarrow> Some (s, response)
      | None \<Rightarrow> handle_payload E W (rqm_id request) (rqm_payload request) s)"

end
