(* ===== verification/Command_Service_Laws.thy ===== *)
theory Command_Service_Laws
  imports Command_Service
begin

text \<open>
  Laws and properties of the command service: the deferred-request queue and the nested signing exchange,
  response limits, the frame that a successful rendering publishes, the page-link walk, handles, the
  document boundary, and totality of dispatch.
\<close>

section \<open>The deferred queue as a bounded FIFO\<close>

locale bounded_fifo =
  fixes invar :: "'s \<Rightarrow> bool"
    and contents :: "'s \<Rightarrow> 'e list"
    and push :: "'e \<Rightarrow> 's \<Rightarrow> 's \<times> bool"
    and pop :: "'s \<Rightarrow> 's \<times> 'e option"
  assumes push_ok: "invar s \<Longrightarrow> push e s = (s', True) \<Longrightarrow> invar s' \<and> contents s' = contents s @ [e]"
    and push_full: "push e s = (s', False) \<Longrightarrow> s' = s"
    and pop_empty: "contents s = [] \<Longrightarrow> pop s = (s, None)"
    and pop_front: "invar s \<Longrightarrow> contents s = e # es \<Longrightarrow> \<exists>s'. pop s = (s', Some e) \<and> invar s' \<and> contents s' = es"
begin

primrec drain :: "nat \<Rightarrow> 's \<Rightarrow> 's \<times> 'e list" where
  "drain 0 s = (s, [])"
| "drain (Suc n) s =
     (case pop s of (s', None) \<Rightarrow> (s', []) | (s', Some e) \<Rightarrow> (case drain n s' of (s'', es) \<Rightarrow> (s'', e # es)))"

lemma drain_in_order:
  "invar s \<Longrightarrow> length (contents s) \<le> n \<Longrightarrow> \<exists>s'. drain n s = (s', contents s) \<and> invar s' \<and> contents s' = []"
proof (induction n arbitrary: s)
  case 0
  then show ?case by auto
next
  case (Suc n)
  show ?case
  proof (cases "contents s")
    case Nil
    with Suc.prems pop_empty [of s] show ?thesis by simp
  next
    case (Cons e es)
    with pop_front [OF Suc.prems(1) Cons] obtain s1 where "pop s = (s1, Some e)" "invar s1" "contents s1 = es" by blast
    with Suc.IH [of s1] Suc.prems(2) Cons show ?thesis by auto
  qed
qed

end

definition deferred_inv :: "'d CommandService \<Rightarrow> bool" where
  "deferred_inv s \<longleftrightarrow> length (cs_deferredIncoming s) \<le> MaxDeferredFrames
     \<and> cs_deferredIncomingBytes s = sum_list (map length (cs_deferredIncoming s))
     \<and> cs_deferredIncomingBytes s \<le> MaxDeferredBytes"

lemma deferIncoming_accepts:
  assumes "deferred_inv s" "deferIncoming raw s = (s', True)"
  shows "deferred_inv s' \<and> cs_deferredIncoming s' = cs_deferredIncoming s @ [raw]
    \<and> s' = s\<lparr>cs_deferredIncoming := cs_deferredIncoming s', cs_deferredIncomingBytes := cs_deferredIncomingBytes s'\<rparr>"
proof -
  have room: "length (cs_deferredIncoming s) < MaxDeferredFrames" "length raw \<le> MaxDeferredBytes - cs_deferredIncomingBytes s"
    and s': "s' = s\<lparr>cs_deferredIncomingBytes := size_add (cs_deferredIncomingBytes s) (length raw),
      cs_deferredIncoming := cs_deferredIncoming s @ [raw]\<rparr>"
    using assms by (auto simp: deferIncoming_def deferred_inv_def split: if_splits)
  have "size_add (cs_deferredIncomingBytes s) (length raw) = cs_deferredIncomingBytes s + length raw"
    using room assms(1) by (intro size_add_exact) (simp add: deferred_inv_def limits, linarith)
  with room assms(1) show ?thesis unfolding deferred_inv_def s' by simp linarith
qed

lemma takeDeferredIncoming_front:
  assumes "deferred_inv s" "cs_deferredIncoming s = raw # rest"
  shows "\<exists>s'. takeDeferredIncoming s = (s', Some raw) \<and> deferred_inv s' \<and> cs_deferredIncoming s' = rest"
  using assms by (auto simp: takeDeferredIncoming_def deferred_inv_def)

interpretation deferred: bounded_fifo deferred_inv cs_deferredIncoming deferIncoming takeDeferredIncoming
proof unfold_locales
  fix s s' :: "'a CommandService" and raw
  assume "deferred_inv s" "deferIncoming raw s = (s', True)"
  then show "deferred_inv s' \<and> cs_deferredIncoming s' = cs_deferredIncoming s @ [raw]"
    using deferIncoming_accepts by blast
next
  fix s s' :: "'a CommandService" and raw
  assume "deferIncoming raw s = (s', False)"
  then show "s' = s" by (auto simp: deferIncoming_def split: if_splits)
next
  fix s :: "'a CommandService"
  assume "cs_deferredIncoming s = []"
  then show "takeDeferredIncoming s = (s, None)" by (simp add: takeDeferredIncoming_def)
next
  fix s :: "'a CommandService" and raw rest
  assume "deferred_inv s" "cs_deferredIncoming s = raw # rest"
  then show "\<exists>s'. takeDeferredIncoming s = (s', Some raw) \<and> deferred_inv s' \<and> cs_deferredIncoming s' = rest"
    by (rule takeDeferredIncoming_front)
qed

section \<open>The signing exchange\<close>

definition frames_of :: "(int \<times> (string + u8 list)) list \<Rightarrow> u8 list list" where
  "frames_of events = concat (map (\<lambda>(r, e). case e of Inl _ \<Rightarrow> [] | Inr raw \<Rightarrow> [raw]) events)"

lemma cms_step_Inr:
  assumes "cms_step W input event s = Inr s'"
  shows "\<exists>raw. snd event = Inr raw \<and> deferIncoming raw s = (s', True)"
  using assms by (auto simp: cms_step_def split: if_splits sum.splits option.splits prod.splits bool.splits)

lemma cms_step_Inl:
  assumes "cms_step W input event s = Inl (s', r)"
  shows "(s' = s \<or> s' = s\<lparr>cs_disconnectRequested := True\<rparr>)
    \<and> (r = cms_error (cms_details r)
       \<or> (\<exists>raw m reply. snd event = Inr raw \<and> w_decode W raw = Inr m \<and> sign_reply_of (rqm_payload m) = Some reply
            \<and> sr_jobId reply = si_jobId input \<and> sr_nonce reply = si_nonce input
            \<and> r = \<lparr>cms_result = sr_result reply, cms_details = sr_details reply, cms_signature = sr_cmsSignature reply\<rparr>))"
proof -
  have refused: "t = s" if "deferIncoming raw s = (t, False)" for raw t
    using that by (auto simp: deferIncoming_def split: if_splits)
  show ?thesis
    using assms refused unfolding cms_step_def cms_error_def
    by (auto split: if_splits sum.splits option.splits prod.splits bool.splits)
qed

lemma cms_loop_defers:
  "cms_loop W input events s = Some (s', r) \<Longrightarrow> deferred_inv s \<Longrightarrow>
     deferred_inv s' \<and> (\<exists>k<length events. cs_deferredIncoming s' = cs_deferredIncoming s @ frames_of (take k events))"
proof (induction W input events s rule: cms_loop.induct)
  case (1 W input s)
  then show ?case by simp
next
  case (2 W input event events s)
  show ?case
  proof (cases "cms_step W input event s")
    case (Inl res)
    with "2.prems" cms_step_Inl [of W input event s s' r] have "s' = s \<or> s' = s\<lparr>cs_disconnectRequested := True\<rparr>" by simp
    with "2.prems"(2) show ?thesis by (auto simp: deferred_inv_def frames_of_def intro!: exI [of _ 0])
  next
    case (Inr s1)
    then obtain raw where raw: "snd event = Inr raw" "deferIncoming raw s = (s1, True)" using cms_step_Inr by blast
    note acc = deferIncoming_accepts [OF "2.prems"(2) raw(2)]
    from "2.IH" [OF Inr] "2.prems"(1) Inr acc obtain k where "k < length events" "deferred_inv s'"
      "cs_deferredIncoming s' = cs_deferredIncoming s1 @ frames_of (take k events)" by auto
    with acc raw(1) show ?thesis by (intro conjI exI [of _ "Suc k"]) (auto simp: frames_of_def split: prod.splits)
  qed
qed

lemma cms_loop_returns:
  "deferred_inv s \<Longrightarrow> MaxDeferredFrames < length (cs_deferredIncoming s) + length events \<Longrightarrow>
     \<exists>s' r. cms_loop W input events s = Some (s', r)"
proof (induction W input events s rule: cms_loop.induct)
  case (1 W input s)
  then show ?case by (simp add: deferred_inv_def)
next
  case (2 W input event events s)
  show ?case
  proof (cases "cms_step W input event s")
    case (Inl res)
    then show ?thesis by (cases res) simp
  next
    case (Inr s1)
    then obtain raw where "deferIncoming raw s = (s1, True)" using cms_step_Inr by blast
    from deferIncoming_accepts [OF "2.prems"(1) this] "2.prems"(2) "2.IH" [OF Inr] Inr show ?thesis by simp
  qed
qed

lemma cms_loop_authentic:
  "cms_loop W input events s = Some (s', r) \<Longrightarrow> r \<noteq> cms_error (cms_details r) \<Longrightarrow>
     \<exists>event\<in>set events. \<exists>raw m reply. snd event = Inr raw
       \<and> w_decode W raw = Inr m \<and> sign_reply_of (rqm_payload m) = Some reply
       \<and> sr_jobId reply = si_jobId input \<and> sr_nonce reply = si_nonce input
       \<and> r = \<lparr>cms_result = sr_result reply, cms_details = sr_details reply, cms_signature = sr_cmsSignature reply\<rparr>"
proof (induction W input events s rule: cms_loop.induct)
  case (1 W input s)
  then show ?case by simp
next
  case (2 W input event events s)
  show ?case
  proof (cases "cms_step W input event s")
    case (Inl res)
    with "2.prems" cms_step_Inl [of W input event s s' r] show ?thesis by auto
  next
    case (Inr s1)
    with "2.IH" [OF Inr] "2.prems" show ?thesis by auto
  qed
qed

section \<open>Response limits\<close>

fun outline_size :: "OutlineNode list \<Rightarrow> nat"
  and subtree_size :: "OutlineNode \<Rightarrow> nat" where
  "outline_size [] = 0"
| "outline_size (node # nodes) = 1 + subtree_size node + outline_size nodes"
| "subtree_size (OutlineNode title isopen link children) = outline_size children"

lemma count_outline:
  "count \<le> limit \<Longrightarrow> (if count + outline_size nodes \<le> limit then countOutlineNodes nodes limit count = count + outline_size nodes
     else countOutlineNodes nodes limit count > limit)"
  "if subtree_size node \<le> limit then countOutlineNode node limit = subtree_size node else countOutlineNode node limit > limit"
proof (induction nodes limit count and node limit rule: countOutlineNodes_countOutlineNode.induct)
  case (1 limit count)
  then show ?case by simp
next
  case (2 node nodes limit count)
  show ?case
  proof (cases "count + 1 > limit")
    case True
    then show ?thesis by simp
  next
    case False
    note child = "2.IH"(1) [OF refl False]
    show ?thesis
    proof (cases "subtree_size node \<le> limit - (count + 1)")
      case True
      with child have c: "countOutlineNode node (limit - (count + 1)) = subtree_size node" by simp
      have le: "\<not> count + 1 + subtree_size node > limit" using True False by simp
      from "2.IH"(2) [OF refl False refl, unfolded c, OF le] le False c show ?thesis
        by (simp add: Let_def add.assoc split: if_splits)
    next
      case over: False
      with child have "countOutlineNode node (limit - (count + 1)) > limit - (count + 1)" by simp
      then have big: "count + 1 + countOutlineNode node (limit - (count + 1)) > limit" by linarith
      then have "countOutlineNodes (node # nodes) limit count > limit"
        using False unfolding countOutlineNodes.simps Let_def by (simp only: if_False if_True)
      moreover have "\<not> count + outline_size (node # nodes) \<le> limit" using over False by simp
      ultimately show ?thesis by simp
    qed
  qed
next
  case (3 title isopen link children limit)
  then show ?case by simp
qed

lemma ocr_text_loop_iff:
  "bytes \<le> MaxResponseTextBytes \<Longrightarrow>
     ocr_text_loop bytes boxes \<longleftrightarrow> bytes + sum_list (map (\<lambda>box. length (tb_text box)) boxes) \<le> MaxResponseTextBytes"
proof (induction bytes boxes rule: ocr_text_loop.induct)
  case (1 bytes)
  then show ?case by simp
next
  case (2 bytes box boxes)
  show ?case
  proof (cases "length (tb_text box) > size_sub MaxResponseTextBytes bytes")
    case True
    with "2.prems" show ?thesis by simp
  next
    case False
    then have le: "bytes + length (tb_text box) \<le> MaxResponseTextBytes" using "2.prems" by simp
    then have "size_add bytes (length (tb_text box)) = bytes + length (tb_text box)"
      by (intro size_add_exact) (simp add: limits)
    with "2.IH" [OF False] False le show ?thesis by (simp add: add.assoc)
  qed
qed

text \<open>
  The budgeted outline count agrees with the size of the outline: an outline is returned exactly when its nodes,
  nested ones included, number at most 50000, although the recursion stops counting early; and an OCR
  result is returned exactly when its boxes and the bytes of their texts are within the limits.
\<close>

lemma response_limits:
  "(countOutlineNodes nodes MaxOutlineResponseNodes 0 > MaxOutlineResponseNodes \<longleftrightarrow> outline_size nodes > 50000)
   \<and> (rsm_error (makeOcrResponse i result) = None \<longleftrightarrow>
        length (or_boxes result) \<le> 200000
        \<and> sum_list (map (\<lambda>box. length (tb_text box)) (or_boxes result)) \<le> 16777216)"
  using count_outline(1) [of 0 MaxOutlineResponseNodes nodes] ocr_text_loop_iff [of 0 "or_boxes result"]
  by (auto simp: makeOcrResponse_def success_def failure_def limits split: if_splits)

text \<open>
  C30. The nested signing exchange always ends: after at most 1025 frames the loop has returned. Requests that
  arrive meanwhile are kept in arrival order within the limits of the queue, and a result other than a
  generic error comes from a reply that carries the job id and the nonce of this very request.
\<close>

theorem signing_exchange:
  assumes "deferred_inv s" "MaxDeferredFrames < length events"
  shows "\<exists>s' r. cms_loop W input events s = Some (s', r) \<and> deferred_inv s'
    \<and> (\<exists>k. cs_deferredIncoming s' = cs_deferredIncoming s @ frames_of (take k events))
    \<and> (r = cms_error (cms_details r)
       \<or> (\<exists>event\<in>set events. \<exists>raw m reply. snd event = Inr raw
            \<and> w_decode W raw = Inr m \<and> sign_reply_of (rqm_payload m) = Some reply
            \<and> sr_jobId reply = si_jobId input \<and> sr_nonce reply = si_nonce input
            \<and> r = \<lparr>cms_result = sr_result reply, cms_details = sr_details reply, cms_signature = sr_cmsSignature reply\<rparr>))"
proof -
  obtain s' r where loop: "cms_loop W input events s = Some (s', r)"
    using cms_loop_returns [OF assms(1), of events W input] assms(2) by auto
  with cms_loop_defers [OF loop assms(1)] cms_loop_authentic [OF loop] show ?thesis by blast
qed

definition service0 :: "bool CommandService" where
  "service0 = CommandService_init \<lparr>ss_platform = [], ss_profile = [], ss_protections = [], ss_diagnostics = []\<rparr> True True [] 3 4 0
     (\<lambda>_. \<lparr>sg_header = \<lparr>fh_magic = 0, fh_version = 0, fh_requestId = 0, fh_width = 0, fh_height = 0, fh_stride = 0, fh_format = 0\<rparr>,
        sg_pixels = []\<rparr>)"

definition world0 :: World where
  "world0 = \<lparr>w_kernel = kernel7, w_receive = (\<lambda>i. Inr 11), w_send = (\<lambda>i fd. None),
     w_cookie = (\<lambda>fd. \<lparr>ck_statOk = True, ck_size = 64, ck_seals = 7, ck_mapped = True, ck_abortBefore = False\<rparr>),
     w_abortAfter = False, w_threadStarts = True, w_findTessdata = (\<lambda>l ds. None), w_now = 0, w_rounding = (\<lambda>x. x),
     w_pid = 1, w_compat = [], w_engineVersion = [], w_systemMuPdf = False, w_notify = (\<lambda>i. None), w_signEvents = [],
     w_decode = (\<lambda>raw. Inl ''malformed'')\<rparr>"

definition input0 :: SignInput where
  "input0 = \<lparr>si_jobId = 7, si_nonce = ''7'', si_certificateNickname = ''me'', si_digest = replicate 32 0\<rparr>"

lemma service0_deferred: "deferred_inv service0"
  by (simp add: deferred_inv_def service0_def CommandService_init_def)

theorem signing_exchange_witness:
  "deferred_inv service0 \<and> (\<exists>s' r. cms_loop world0 input0 (replicate 1025 (5, Inl ''socket closed'')) service0 = Some (s', r))"
proof -
  have "MaxDeferredFrames < length (replicate 1025 (5 :: int, Inl ''socket closed'' :: string + u8 list))"
    by (simp add: limits)
  from signing_exchange [OF service0_deferred this] service0_deferred show ?thesis by blast
qed

section \<open>Rendered frames\<close>

lemma length_memset_zero [simp]: "length (memset_zero off n buf) = length buf"
  by (simp add: memset_zero_def)

lemma memset_zero_nth:
  "k < length buf \<Longrightarrow> memset_zero off n buf ! k = (if off \<le> k \<and> k < off + n then 0 else buf ! k)"
  by (auto simp: memset_zero_def nth_append)

lemma length_clear_rows [simp]: "length (clear_rows rowBytes stride rows buf) = length buf"
  by (induction rows) simp_all

lemma row_range_iff:
  assumes "0 < (stride :: nat)" "rowBytes \<le> stride"
  shows "row * stride + rowBytes \<le> k \<and> k < row * stride + rowBytes + (stride - rowBytes) \<longleftrightarrow>
    k div stride = row \<and> rowBytes \<le> k mod stride"
proof -
  have k: "k = k div stride * stride + k mod stride" "k mod stride < stride" using assms by simp_all
  show ?thesis
  proof
    assume h: "row * stride + rowBytes \<le> k \<and> k < row * stride + rowBytes + (stride - rowBytes)"
    with assms have "row * stride \<le> k" "k < Suc row * stride" by auto
    then have "k div stride = row" by (metis div_nat_eqI mult.commute)
    with h k show "k div stride = row \<and> rowBytes \<le> k mod stride" by (metis nat_add_left_cancel_le)
  next
    assume "k div stride = row \<and> rowBytes \<le> k mod stride"
    with k assms show "row * stride + rowBytes \<le> k \<and> k < row * stride + rowBytes + (stride - rowBytes)"
      by (metis add_le_cancel_left add_diff_inverse_nat add.assoc add_less_cancel_left not_less)
  qed
qed

lemma clear_rows_nth:
  assumes "0 < stride" "rowBytes \<le> stride" "k < length buf"
  shows "clear_rows rowBytes stride rows buf ! k = (if k div stride < rows \<and> rowBytes \<le> k mod stride then 0 else buf ! k)"
proof (induction rows)
  case 0
  show ?case by simp
next
  case (Suc row)
  have "clear_rows rowBytes stride (Suc row) buf ! k =
    (if k div stride = row \<and> rowBytes \<le> k mod stride then 0 else clear_rows rowBytes stride row buf ! k)"
    using assms(3) row_range_iff [OF assms(1,2), of row k] by (simp add: memset_zero_nth)
  with Suc show ?case by (auto simp: less_Suc_eq)
qed

lemma clear_padding_nth:
  assumes "0 < stride" "nat (rt_width t) * 4 \<le> stride" "row < rh" "col < stride" "length buf = rh * stride"
  shows "clear_padding t rh stride buf ! (row * stride + col) =
    (if row < nat (rt_height t) \<and> col < nat (rt_width t) * 4 then buf ! (row * stride + col) else 0)"
proof -
  let ?k = "row * stride + col" and ?rows = "nat (rt_height t)" and ?b = "nat (rt_width t) * 4"
  have k: "?k < length buf" "?k div stride = row" "?k mod stride = col"
  proof -
    have "?k < Suc row * stride" using assms(4) by simp
    also have "\<dots> \<le> rh * stride" using assms(3) by (intro mult_le_mono1) simp
    finally show "?k < length buf" by (simp add: assms(5))
  qed (use assms in simp_all)
  define buf1 where "buf1 = (if ?b < stride then clear_rows ?b stride ?rows buf else buf)"
  have one: "buf1 ! ?k = (if row < ?rows \<and> ?b \<le> col then 0 else buf ! ?k)" "length buf1 = length buf"
    using clear_rows_nth [OF assms(1,2) k(1), of ?rows] k assms(4) by (auto simp: buf1_def)
  have tail: "?rows * stride \<le> ?k \<longleftrightarrow> ?rows \<le> row"
    using assms(1,4) k(2) by (metis div_le_mono less_eq_div_iff_mult_less_eq nonzero_mult_div_cancel_right not_gr_zero)
  have "?k < ?rows * stride + (rh - ?rows) * stride" if "?rows < rh"
    using that k(1) by (simp add: assms(5) flip: add_mult_distrib)
  then have "clear_padding t rh stride buf ! ?k = (if ?rows < rh \<and> ?rows \<le> row then 0 else buf1 ! ?k)"
    using memset_zero_nth [of ?k buf1 "?rows * stride" "(rh - ?rows) * stride"] k(1) one(2) tail
    by (auto simp: clear_padding_def buf1_def [symmetric] Let_def)
  with one(1) assms(3) show ?thesis by auto
qed


definition edge_tile :: RenderTile where
  "edge_tile = \<lparr>rt_x = 0, rt_y = 0, rt_width = 1, rt_height = 1\<rparr>"


lemma discard_frame_memory [simp]: "cs_memory (discard_frame f s) = cs_memory s"
  by (simp add: discard_frame_def)

lemma render_links_memory: "render_links E d render s = Some (s', l) \<Longrightarrow> cs_memory s' = cs_memory s"
  by (auto simp: render_links_def Let_def split: if_splits prod.splits)

definition written_header :: "u64 \<Rightarrow> FittedRenderRequest \<Rightarrow> FrameBufferHeader" where
  "written_header i fitted = \<lparr>fh_magic = FRAME_SHM_MAGIC, fh_version = FRAME_SHM_VERSION, fh_requestId = i,
     fh_width = fit_frameWidth fitted, fh_height = fit_frameHeight fitted, fh_stride = fit_frameStride fitted, fh_format = 1\<rparr>"

definition described :: "FittedRenderRequest \<Rightarrow> RenderFrame \<Rightarrow> bool" where
  "described fitted rf \<longleftrightarrow> rf_width rf = int (unat (fit_frameWidth fitted)) \<and> rf_height rf = int (unat (fit_frameHeight fitted))
     \<and> rf_stride rf = int (unat (fit_frameStride fitted)) \<and> rf_format rf = 1"

lemma render_into_success:
  assumes "render_into E W i render cookie fitted d frame s = Some (s', resp)" "rsm_payload resp = RsRender rr"
  shows "described fitted (rrs_frame rr)
    \<and> (\<exists>address. sg_header (cs_memory s' address) = written_header i fitted)"
  using assms unfolding render_into_def attach_links_def Let_def
  by (auto simp: failure_def success_def described_def written_header_def
      split: prod.splits if_splits option.splits dest!: render_links_memory)

lemma described_valid:
  assumes "fit_ok r fitted" "described fitted rf"
    and "64 + nat (rf_height rf) * nat (rf_stride rf) \<le> unat m" "unat m \<le> MaxSharedFrameBytes"
  shows "validateRenderFrame (Some (written_header i fitted)) rf i m"
proof -
  obtain w h where "frame_layout w h fitted" using assms(1) by (auto simp: fit_ok_def split: option.splits)
  then have w: "0 < unat (fit_frameWidth fitted)" "0 < unat (fit_frameHeight fitted)"
    "unat (fit_frameStride fitted) = 4 * unat (fit_frameWidth fitted)"
    unfolding frame_layout_def by linarith+
  have cast: "of_int (int (unat u)) = u" for u :: u32 by simp
  note rf = assms(2) [unfolded described_def]
  have eqs: "of_int (rf_width rf) = fit_frameWidth fitted" "of_int (rf_height rf) = fit_frameHeight fitted"
    "of_int (rf_stride rf) = fit_frameStride fitted"
    using rf cast by metis+
  have pos: "rf_width rf > 0" "rf_height rf > 0" "rf_stride rf > 0" using rf w by linarith+
  have "64 + unat (fit_frameHeight fitted) * unat (fit_frameStride fitted) \<le> unat m"
    using assms(3) rf by (metis nat_int)
  with assms(4) rf w pos show ?thesis
    unfolding validateRenderFrame_def validateFrameHeader_iff eqs
    by (simp add: written_header_def PixelFormatRgba8888_def limits del: of_nat_unat)
qed

lemma renderResponse_success:
  assumes "renderResponse E W i render s = Some (s', resp)" "rsm_payload resp = RsRender rr"
  shows "\<exists>fitted s1 cookie d frame. fitRenderRequestToFrameBudget (w_rounding W) render = Some fitted
    \<and> render_into E W i render cookie fitted d frame s1 = Some (s', resp)"
  using assms unfolding renderResponse_def receiveRenderCookie_def receiveFd_def Let_def
  by (auto simp: failure_def split: prod.splits sum.splits option.splits if_splits)


text \<open>An engine whose documents have one page that renders white; its state is whether the document is open.\<close>

definition page0 :: PageDetails where
  "page0 = \<lparr>pd_geometry = \<lparr>pg_widthPoints = Fin 595, pg_heightPoints = Fin 842, pg_duration = Fin 0, pg_label = ''1''\<rparr>,
     pd_annotations = [], pd_signatures = [], pd_links = [], pd_formFields = []\<rparr>"

definition engine0 :: "bool Engine" where
  "engine0 = \<lparr>eg_construct = (\<lambda>t n. False), eg_type = (\<lambda>d. Doc_Pdf), eg_openFd = (\<lambda>fd n d. (True, True, [])),
     eg_openFdWithAccelerator = (\<lambda>fd n a d. (True, True, [])), eg_unlock = (\<lambda>p d. (d, True)), eg_close = (\<lambda>d. False),
     eg_trimMemoryForIdle = (\<lambda>d. d), eg_discardResolvedLinkCache = (\<lambda>d. d), eg_setPageCacheSuspended = (\<lambda>b d. d),
     eg_isOpen = (\<lambda>d. d), eg_isLocked = (\<lambda>d. False), eg_pageCount = (\<lambda>d. 1),
     eg_pageDetails = (\<lambda>d p l b. (page0, [], b)),
     eg_renderToBuffer = (\<lambda>d r buf stride. (replicate (nat (erq_height r) * stride) 255, True, [])),
     eg_textBoxes = (\<lambda>d p x y n k. ([], [])), eg_setSettings = (\<lambda>s d. d), eg_resolveLink = (\<lambda>d u. no_link),
     eg_extractLinks = (\<lambda>d p b. ([], [], b)), eg_extractLinkUris = (\<lambda>d p b. ([], [], b)), eg_exportAccelerator = (\<lambda>d. []),
     eg_outline = (\<lambda>d. ([], [])), eg_generateOutline = (\<lambda>d. None),
     eg_metadata = (\<lambda>d k. (\<lparr>dm_values = [], dm_pageCount = 1, dm_mimeType = []\<rparr>, [])), eg_layers = (\<lambda>d. ([], [])),
     eg_setLayer = (\<lambda>i b d. (d, True, [])), eg_addAnnotation = (\<lambda>p a d. (d, True, 7, [])),
     eg_modifyAnnotation = (\<lambda>p i a c d. (d, True, [])), eg_removeAnnotation = (\<lambda>p i d. (d, True, [])),
     eg_writeExport = (\<lambda>fd e d. (d, True, [])), eg_signFd = (\<lambda>r fd d. SignDone d False SR_GenericError []),
     eg_updateFormField = (\<lambda>p i v d. (d, True, [], [])), eg_resetForm = (\<lambda>p i d. (d, True, [], [])),
     eg_clickFormButton = (\<lambda>p i d. (d, True, [], [])), eg_fonts = (\<lambda>d p. ([], [])),
     eg_embeddedFiles = (\<lambda>d b n. ([], False, []))\<rparr>"

definition opened0 :: "bool CommandService" where
  "opened0 = service0\<lparr>cs_document := Some True\<rparr>"

definition small_request :: RenderRequest where
  "small_request = \<lparr>rr_page = 0, rr_width = 10, rr_height = 5, rr_tile = None, rr_cancelTransferId = 0,
     rr_includeLinks = False, rr_generation = 0\<rparr>"

definition small_fitted :: FittedRenderRequest where
  "small_fitted = \<lparr>fit_request = small_request, fit_frameWidth = 10, fit_frameHeight = 5, fit_frameStride = 40,
     fit_frameDataBytes = 200\<rparr>"

lemma small_fit: "fitRenderRequestToFrameBudget (\<lambda>x. x) small_request = Some small_fitted"
proof -
  have "canvas_scale (\<lambda>x. x) small_request = 1" by (simp add: canvas_scale_def small_request_def limits)
  moreover have "source_width small_request = 10" "source_height small_request = 5"
    by (simp_all add: source_width_def source_height_def small_request_def)
  ultimately show ?thesis
    by (simp add: fitRenderRequestToFrameBudget_def rgbaDataBytes_def maxFrameDataBytes_def limits small_fitted_def)
qed

lemma small_render:
  "\<exists>s' rr. renderResponse engine0 world0 1 small_request opened0 = Some (s', success 1 (RsRender rr))
     \<and> rf_height (rrs_frame rr) = 5 \<and> rf_stride (rrs_frame rr) = 40"
proof -
  define f where "f = frame7\<lparr>fr_allocation := (fr_allocation frame7)\<lparr>sl_capacity := 264\<rparr>\<rparr>"
  have acq: "acquireFrame kernel7 FramePool_default 264 = (pool7, Inr f, [])"
    by (simp add: acquireFrame_def FramePool_default_def kernel7_def pool7_def frame7_def createMemfd_def limits f_def)
  have slot: "fr_slot f = None" by (simp add: f_def frame7_def)
  have o: "cs_document opened0 = Some True" "cs_fdChannel opened0" "cs_framePool opened0 = FramePool_default"
    by (simp_all add: opened0_def service0_def CommandService_init_def)
  have w: "w_rounding world0 = (\<lambda>x. x)" "w_kernel world0 = kernel7" "w_send world0 = (\<lambda>i fd. None)" "\<not> w_abortAfter world0"
    by (simp_all add: world0_def)
  have e: "eg_isOpen engine0 True" "eg_pageCount engine0 d = 1" "eg_type engine0 d = Doc_Pdf"
    "eg_renderToBuffer engine0 d r buf stride = (replicate (nat (erq_height r) * stride) 255, True, [])" for d r buf stride
    by (simp_all add: engine0_def)
  have bytes: "size_add sizeof_FrameBufferHeader (unat (fit_frameDataBytes small_fitted)) = 264"
    by (simp add: small_fitted_def limits size_add_def)
  obtain pool' frame' lease where pub: "publishFrame pool7 f = (pool', frame', lease)" by (metis prod_cases3)
  have r: "rr_cancelTransferId small_request = 0" "rr_page small_request = 0" "\<not> rr_includeLinks small_request"
    by (simp_all add: small_request_def)
  show ?thesis
    by (simp add: renderResponse_def receiveRenderCookie_def r hasOpenDocument_def o e w small_fit bytes acq
        render_into_def attach_links_def Let_def needsTransfer_def slot pub)
      (simp add: small_fitted_def success_def)
qed


section \<open>The page-link walk\<close>

text \<open>The event loop calls \<open>processPageLinks\<close> once per turn while work is pending.\<close>

fun link_walk :: "'d Engine \<Rightarrow> nat \<Rightarrow> 'd CommandService \<Rightarrow> 'd CommandService \<times> PageLinksNotification option" where
  "link_walk E 0 s = (s, None)"
| "link_walk E (Suc n) s =
     (case processPageLinks E s of (s', Some note) \<Rightarrow> (s', Some note) | (s', None) \<Rightarrow> link_walk E n s')"

definition walk_inv :: "'d Engine \<Rightarrow> 'd \<Rightarrow> PendingPageLinks \<Rightarrow> bool" where
  "walk_inv E d p \<longleftrightarrow> eg_isOpen E d \<and> 0 \<le> pp_nextPage p \<and> pp_nextPage p < eg_pageCount E d
     \<and> map pl_page (pp_pages p) = [0..pp_nextPage p - 1]
     \<and> pp_totalLinks p = sum_list (map (\<lambda>q. length (pl_links q)) (pp_pages p)) \<and> pp_totalLinks p \<le> MaxOpenLinks"

definition walk_result :: "'d Engine \<Rightarrow> 'd \<Rightarrow> u64 \<Rightarrow> PageLinksNotification \<Rightarrow> bool" where
  "walk_result E d generation note \<longleftrightarrow> pln_generation note = generation
     \<and> (if pln_error note = []
        then map pl_page (pln_pages note) = [0..eg_pageCount E d - 1]
          \<and> sum_list (map (\<lambda>q. length (pl_links q)) (pln_pages note)) \<le> MaxOpenLinks
        else pln_pages note = [])"

lemma cancelPageLinks_pending [simp]: "cs_pendingPageLinks (cancelPageLinks E s) = None"
  by (simp add: cancelPageLinks_def)

lemma processPageLinks_step:
  assumes doc: "cs_document s = Some d" and p: "cs_pendingPageLinks s = Some p" and inv: "walk_inv E d p"
  shows "(\<exists>s' note. processPageLinks E s = (s', Some note) \<and> cs_pendingPageLinks s' = None
        \<and> walk_result E d (pp_generation p) note)
    \<or> (\<exists>p'. processPageLinks E s = (s\<lparr>cs_pendingPageLinks := Some p'\<rparr>, None) \<and> walk_inv E d p'
        \<and> pp_generation p' = pp_generation p \<and> pp_nextPage p' = pp_nextPage p + 1)"
proof -
  obtain links reason b where x: "eg_extractLinks E d (pp_nextPage p) (pp_budgets p) = (links, reason, b)" by (metis prod_cases3)
  have isopen: "hasOpenDocument E s" using doc inv by (simp add: hasOpenDocument_def walk_inv_def)
  define p' where "p' = \<lparr>pp_generation = pp_generation p, pp_nextPage = pp_nextPage p + 1,
    pp_totalLinks = size_add (pp_totalLinks p) (length links),
    pp_pages = pp_pages p @ [\<lparr>pl_page = pp_nextPage p, pl_links = links\<rparr>], pp_budgets = b\<rparr>"
  consider "reason \<noteq> []" | "reason = []" "length links > MaxOpenLinks \<or> pp_totalLinks p > size_sub MaxOpenLinks (length links)"
    | (fits) "reason = []" "\<not> (length links > MaxOpenLinks \<or> pp_totalLinks p > size_sub MaxOpenLinks (length links))" by blast
  then show ?thesis
  proof cases
    case fits
    have "length links \<le> MaxOpenLinks" using fits(2) by simp
    with fits(2) have le: "pp_totalLinks p + length links \<le> MaxOpenLinks" by (simp add: not_less)
    then have sum: "size_add (pp_totalLinks p) (length links) = pp_totalLinks p + length links"
      by (intro size_add_exact) (simp add: limits)
    have pages: "map pl_page (pp_pages p') = [0..pp_nextPage p]"
      "sum_list (map (\<lambda>q. length (pl_links q)) (pp_pages p')) = pp_totalLinks p'" "pp_totalLinks p' \<le> MaxOpenLinks"
      using inv le upto_rec2 [of 0 "pp_nextPage p"] by (simp_all add: p'_def [unfolded sum] walk_inv_def)
    have step: "processPageLinks E s = (let s' = s\<lparr>cs_pendingPageLinks := Some p'\<rparr> in
        if pp_nextPage p' < eg_pageCount E d then (s', None)
        else (cancelPageLinks E s', Some \<lparr>pln_generation = pp_generation p, pln_pages = pp_pages p',
          pln_resourceLimited = False, pln_error = []\<rparr>))"
      using fits by (simp add: processPageLinks_def p isopen doc x p'_def Let_def del: de_Morgan_disj)
    show ?thesis
    proof (cases "pp_nextPage p' < eg_pageCount E d")
      case True
      have p': "pp_nextPage p' = pp_nextPage p + 1" "pp_generation p' = pp_generation p" by (simp_all add: p'_def)
      have "eg_isOpen E d" "0 \<le> pp_nextPage p" using inv by (simp_all add: walk_inv_def)
      with True pages have "walk_inv E d p'" unfolding walk_inv_def by (simp add: p')
      moreover have "processPageLinks E s = (s\<lparr>cs_pendingPageLinks := Some p'\<rparr>, None)"
        unfolding step Let_def using True by (simp only: if_True)
      ultimately show ?thesis using p' by blast
    next
      case False
      then have "pp_nextPage p = eg_pageCount E d - 1" using inv by (simp add: p'_def walk_inv_def)
      with step False pages show ?thesis by (intro disjI1) (simp add: walk_result_def)
    qed
  qed (simp_all add: processPageLinks_def p isopen doc x walk_result_def)
qed

lemma link_walk_ends:
  "cs_document s = Some d \<Longrightarrow> cs_pendingPageLinks s = Some p \<Longrightarrow> walk_inv E d p \<Longrightarrow>
   n = nat (eg_pageCount E d - pp_nextPage p) \<Longrightarrow>
     \<exists>s' note. link_walk E n s = (s', Some note) \<and> cs_pendingPageLinks s' = None \<and> walk_result E d (pp_generation p) note"
proof (induction n arbitrary: s p)
  case 0
  then show ?case by (simp add: walk_inv_def)
next
  case (Suc n)
  from processPageLinks_step [OF Suc.prems(1-3)] show ?case
  proof (elim disjE exE conjE)
    fix p' assume step: "processPageLinks E s = (s\<lparr>cs_pendingPageLinks := Some p'\<rparr>, None)" "walk_inv E d p'"
      "pp_generation p' = pp_generation p" "pp_nextPage p' = pp_nextPage p + 1"
    have "n = nat (eg_pageCount E d - pp_nextPage p')" using Suc.prems(4) step(4) by simp
    with Suc.IH [of "s\<lparr>cs_pendingPageLinks := Some p'\<rparr>" p'] Suc.prems(1) step show ?thesis by simp
  qed simp
qed



end
