(* ===== verification/Session_Laws.thy ===== *)
theory Session_Laws
  imports Command_Service_Laws
begin

text \<open>
  Every request to the command service is answered, once and under its own id, and a request that its
  validator rejects changes nothing.
\<close>

section \<open>Every request is answered\<close>

definition answers :: "u64 \<Rightarrow> ResponseMessage \<Rightarrow> bool" where
  "answers i r \<longleftrightarrow> rsm_id r = i \<and> (rsm_error r = None \<or> rsm_payload r = RsEmpty)"

named_theorems answering

lemma answers_success [answering]: "answers i (success i p)"
  by (simp add: answers_def success_def)

lemma answers_failure [answering]: "answers i (failure i c o' m)"
  by (simp add: answers_def failure_def)

lemma answers_error [answering]: "answers i \<lparr>rsm_id = i, rsm_payload = RsEmpty, rsm_error = e\<rparr>"
  by (simp add: answers_def)

lemma answers_makeOcrResponse [answering]: "answers i (makeOcrResponse i r)"
  by (simp add: makeOcrResponse_def answering)

lemma answers_sign_answer [answering]: "answers i (sign_answer i r)"
  by (simp add: sign_answer_def Let_def answering split: prod.split bool.split)

lemma answers_form_answer [answering]: "answers i (snd (form_answer i o' r s))"
  by (simp add: form_answer_def answering split: prod.split bool.split)

lemma answers_openFdResponse [answering]: "answers i (snd (openFdResponse E now i fd n p t acc s))"
  by (simp add: openFdResponse_def Let_def answering split: prod.split bool.split option.split sum.split)

lemma answers_annotations [answering]:
  "answers i (snd (annotationAdd E i a s))" "answers i (snd (annotationModify E i m s))"
  "answers i (snd (annotationRemove E i x s))"
  by (simp_all add: annotationAdd_def annotationModify_def annotationRemove_def Let_def answering
      split: prod.split bool.split option.split)

lemma answers_forms [answering]:
  "answers i (snd (formUpdate E i u s))" "answers i (snd (formReset E i r s))" "answers i (snd (formButtonClick E i c s))"
  by (simp_all add: formUpdate_def formReset_def formButtonClick_def answering split: option.split)

lemma answers_jobs [answering]:
  "answers i (snd (exportResponse E W i x out inp s))" "answers i (snd (ocrPage E W i q fd s))" "answers i (snd (ocrResult E i r s))"
  by (simp_all add: exportResponse_def ocrPage_def ocrResult_def Let_def answering
      split: prod.split bool.split option.split sum.split)

lemma answers_queries [answering]:
  "answers i (ping W i s)" "answers i (textBoxes E i b s)" "answers i (documentInfo E i m s)" "answers i (synopsis E i y s)"
  "answers i (layers E i s)" "answers i (fonts E i f s)" "answers i (embeddedFiles E i s)" "answers i (resolve_link E i l s)"
  by (simp_all add: ping_def textBoxes_def documentInfo_def synopsis_def layers_def fonts_def embeddedFiles_def
      resolve_link_def Let_def answering split: prod.split)

lemma answers_updates [answering]:
  "answers i (snd (setLayer E i y s))" "answers i (snd (settings E i t s))" "answers i (snd (releaseFrameSlotResponse i r s))"
  by (simp_all add: setLayer_def settings_def releaseFrameSlotResponse_def Let_def answering split: prod.split bool.split)

lemma receiveFd_answers: "receiveFd W i o' t s = Inl r \<Longrightarrow> answers i r"
  by (auto simp: receiveFd_def answering split: if_splits sum.splits)

lemma receiveRenderCookie_answers: "receiveRenderCookie W i t s = (s', Inl r) \<Longrightarrow> answers i r"
  by (auto simp: receiveRenderCookie_def Let_def answering receiveFd_answers split: if_splits sum.splits)


text \<open>A handler that returns answers; rendering returns because fitting a valid request ends, signing because the exchange ends.\<close>

definition returns_answer :: "u64 \<Rightarrow> ('d CommandService \<times> ResponseMessage) option \<Rightarrow> bool" where
  "returns_answer i outcome \<longleftrightarrow> (\<exists>s' r. outcome = Some (s', r) \<and> answers i r)"

lemma returns_answer_Some [answering]: "returns_answer i (Some p) \<longleftrightarrow> answers i (snd p)"
  by (cases p) (simp add: returns_answer_def)

text \<open>
  An open EPUB document has a charge flag for every page, so that looking one up for a valid page does not throw.
\<close>

definition charged_ok :: "'d Engine \<Rightarrow> 'd CommandService \<Rightarrow> bool" where
  "charged_ok E s \<longleftrightarrow> (case cs_document s of None \<Rightarrow> True
     | Some d \<Rightarrow> eg_isOpen E d \<and> eg_type E d = Doc_Epub \<longrightarrow> nat (eg_pageCount E d) \<le> length (cs_renderLinkCharged s))"

lemma attach_links_returns:
  assumes "eg_type E d = Doc_Epub \<longrightarrow> nat (rr_page r) < length (cs_renderLinkCharged s)"
  shows "returns_answer i (attach_links E d i r rf s)"
  using assms by (auto simp: attach_links_def render_links_def Let_def answering split: prod.split)

lemma charged_discard_frame [simp]: "cs_renderLinkCharged (discard_frame f s) = cs_renderLinkCharged s"
  by (simp add: discard_frame_def)

lemma render_into_returns:
  assumes "eg_type E d = Doc_Epub \<longrightarrow> nat (rr_page r) < length (cs_renderLinkCharged s)"
  shows "returns_answer i (render_into E W i r c f d frame s)"
  using assms by (simp add: render_into_def Let_def answering attach_links_returns split: prod.split option.split)

lemma receiveRenderCookie_frame:
  "receiveRenderCookie W i t s = (s', r) \<Longrightarrow> cs_document s' = cs_document s \<and> cs_renderLinkCharged s' = cs_renderLinkCharged s"
  by (auto simp: receiveRenderCookie_def close_fd_def Let_def split: if_splits sum.splits)

lemma renderResponse_returns:
  assumes "ld_rounding (w_rounding W)" "isValidRenderRequest r = Valid" "charged_ok E s"
  shows "returns_answer i (renderResponse E W i r s)"
proof -
  obtain f where f: "fitRenderRequestToFrameBudget (w_rounding W) r = Some f" using fit_returns [OF assms(1,2)] by blast
  obtain s1 c where c: "receiveRenderCookie W i (rr_cancelTransferId r) s = (s1, c)" by (meson surj_pair)
  note same = receiveRenderCookie_frame [OF c]
  have "0 \<le> rr_page r" using assms(2) by (simp add: isValidRenderRequest_iff)
  then have "returns_answer i (render_into E W i r k f (the (cs_document s1)) frame (s1\<lparr>cs_framePool := p\<rparr>))"
    if "hasOpenDocument E s1" "rr_page r < eg_pageCount E (the (cs_document s1))" for k frame p
    using that assms(3) same by (intro render_into_returns) (auto simp: charged_ok_def hasOpenDocument_def split: option.splits)
  then show ?thesis
    using c f receiveRenderCookie_answers [of W i "rr_cancelTransferId r" s s1]
    by (auto simp: renderResponse_def Let_def answering not_le split: prod.split sum.split)
qed

lemma signFdResponse_returns:
  assumes "deferred_inv s" "MaxDeferredFrames < length (w_signEvents W)"
  shows "returns_answer i (signFdResponse E W i sign fd s)"
proof -
  have "requestCmsSignature W input s \<noteq> None" for input
    using cms_loop_returns [OF assms(1), of "w_signEvents W" W input] assms(2)
    by (auto simp: requestCmsSignature_def split: option.split)
  then show ?thesis
    by (simp add: signFdResponse_def answering split: option.split SignStep.split prod.split) (metis option.distinct(1))
qed

lemma dispatchWithFd_returns:
  "(\<And>fd. returns_answer i (h fd s)) \<Longrightarrow> returns_answer i (dispatchWithFd W i o' t h s)"
  by (simp add: dispatchWithFd_def answering receiveFd_answers split: sum.split)

lemma dispatch_export_returns: "returns_answer i (dispatch_export E W i x s)"
  by (simp add: dispatch_export_def answering receiveFd_answers split: sum.split)

lemma handle_payload_returns:
  assumes "ld_rounding (w_rounding W)" "MaxDeferredFrames < length (w_signEvents W)" "deferred_inv s"
    and "charged_ok E s" "validateInboundRequest i payload = None"
  shows "returns_answer i (handle_payload E W i payload s)"
proof (cases payload)
  case (RqRender r)
  with assms(5) have "isValidRenderRequest r = Valid" by (simp add: validateInboundRequest_def split: verdict.splits)
  with renderResponse_returns [OF assms(1) _ assms(4)] RqRender show ?thesis by simp
next
  case (RqSign r)
  with signFdResponse_returns [OF assms(3,2)] show ?thesis by (simp add: dispatchWithFd_returns)
qed (simp_all add: answering dispatchWithFd_returns dispatch_export_returns openRequestResponse_def)

lemma validateInboundRequest_Some:
  "validateInboundRequest i payload = Some r \<Longrightarrow>
     answers i r \<and> (\<exists>reason. snd (inbound_verdict payload) = Invalid reason
       \<and> rsm_error r = Some \<lparr>err_code = EC_InvalidRequest, err_operation = fst (inbound_verdict payload), err_message = reason\<rparr>)"
  by (auto simp: validateInboundRequest_def answering failure_def answers_def split: prod.splits verdict.splits)

lemma dispatch_returns:
  assumes "ld_rounding (w_rounding W)" "MaxDeferredFrames < length (w_signEvents W)" "deferred_inv s" "charged_ok E s"
  shows "\<exists>s' r. dispatch E W request s = Some (s', r) \<and> rsm_id r = rqm_id request
    \<and> (rsm_error r = None \<or> rsm_payload r = RsEmpty)
    \<and> (case snd (inbound_verdict (rqm_payload request)) of
         Valid \<Rightarrow> True
       | Invalid reason \<Rightarrow> s' = s \<and> rsm_error r = Some \<lparr>err_code = EC_InvalidRequest,
           err_operation = fst (inbound_verdict (rqm_payload request)), err_message = reason\<rparr>)"
proof (cases "validateInboundRequest (rqm_id request) (rqm_payload request)")
  case None
  then have "snd (inbound_verdict (rqm_payload request)) = Valid"
    by (auto simp: validateInboundRequest_def split: prod.splits verdict.splits)
  with handle_payload_returns [OF assms None] None show ?thesis
    by (auto simp: dispatch_def returns_answer_def answers_def)
next
  case (Some r)
  with validateInboundRequest_Some [OF Some] show ?thesis by (auto simp: dispatch_def answers_def)
qed

end
