(* ===== verification/Handle_Tables.thy ===== *)
theory Handle_Tables
  imports Command_Service_Laws
begin

text \<open>
  Annotation and form handles. Handle texts are injective in generation, page and object; a locale states what a
  handle scheme gives the two maps that keep the handles (they stay inverse to each other, a handle names one
  object, a handle of an earlier generation names none), and both handle kinds of the command service
  interpret it.
\<close>

section \<open>Handle texts\<close>

definition undecimal :: "string \<Rightarrow> nat" where
  "undecimal cs = foldl (\<lambda>a c. 10 * a + (of_char c - 48)) 0 cs"

lemma undecimal_decimal [simp]: "undecimal (decimal n) = n"
proof (induction n rule: decimal.induct)
  case (1 n)
  then show ?case by (subst decimal.simps) (simp add: undecimal_def)
qed

lemma decimal_inj: "decimal m = decimal n \<longleftrightarrow> m = n"
  by (metis undecimal_decimal)

lemma decimal_digits: "c \<in> set (decimal n) \<Longrightarrow> 48 \<le> (of_char c :: nat) \<and> (of_char c :: nat) \<le> 57"
proof (induction n rule: decimal.induct)
  case (1 n)
  then show ?case by (subst (asm) (2) decimal.simps) (auto split: if_splits)
qed

lemma decimal_no_dash: "CHR ''-'' \<notin> set (decimal n)"
  using decimal_digits [of "CHR ''-''" n] by auto

lemma dash_split:
  "c \<notin> set a \<Longrightarrow> c \<notin> set b \<Longrightarrow> a @ c # x = b @ c # y \<longleftrightarrow> a = b \<and> x = y"
proof (induction a arbitrary: b)
  case Nil
  then show ?case by (cases b) auto
next
  case (Cons d a)
  then show ?case by (cases b) auto
qed

text \<open>The pages and object numbers of the code are positive 32-bit integers.\<close>

definition i32_object :: "int \<Rightarrow> int \<Rightarrow> bool" where
  "i32_object page n \<longleftrightarrow> 0 \<le> page \<and> page < 2 ^ 31 \<and> 0 < n \<and> n < 2 ^ 31"

lemma annotation_handle_text_inj:
  assumes "i32_object p n" "i32_object p' n'" "annotation_handle_text g p n = annotation_handle_text g' p' n'"
  shows "g = g' \<and> p = p' \<and> n = n'"
  using assms unfolding annotation_handle_text_def
  by (simp add: dash_split decimal_no_dash decimal_inj decimal_int_def i32_object_def word_unat_eq_iff eq_nat_nat_iff)

lemma form_handle_text_inj:
  assumes "i32_object p n" "i32_object p' n'" "form_handle_text g p n = form_handle_text g' p' n'"
  shows "g = g' \<and> p = p' \<and> n = n'"
  using assms unfolding form_handle_text_def
  by (simp add: dash_split decimal_no_dash decimal_inj decimal_int_def i32_object_def word_unat_eq_iff eq_nat_nat_iff)

lemma i32_word_inj:
  assumes "(of_int a :: u32) = of_int b" "0 \<le> a" "a < 2 ^ 31" "0 \<le> b" "b < 2 ^ 31"
  shows "a = b"
proof -
  have "take_bit 32 a = take_bit 32 b" using assms(1) by (simp add: word_of_int_eq_iff)
  then show ?thesis using assms by (simp add: take_bit_int_eq_self)
qed

lemma objectKey_inj:
  assumes "i32_object p n" "i32_object p' n'" "objectKey p n = objectKey p' n'"
  shows "p = p' \<and> n = n'"
proof -
  have low: "take_bit 32 (objectKey q m) = ucast (of_int m :: u32)" for q m
    unfolding objectKey_def by (rule bit_eqI) (auto simp: bit_simps)
  have high: "drop_bit 32 (objectKey q m) = ucast (of_int q :: u32)" for q m
    unfolding objectKey_def by (rule bit_eqI) (auto simp: bit_simps)
  have "(ucast (of_int n :: u32) :: u64) = ucast (of_int n' :: u32)" "(ucast (of_int p :: u32) :: u64) = ucast (of_int p' :: u32)"
    using low high assms(3) by metis+
  moreover have "ucast (ucast w :: u64) = w" for w :: u32 by (rule bit_eqI) (simp add: bit_simps)
  ultimately have "(of_int n :: u32) = of_int n'" "(of_int p :: u32) = of_int p'" by metis+
  then show ?thesis using assms(1,2) i32_word_inj [of n n'] i32_word_inj [of p p'] by (simp add: i32_object_def)
qed


section \<open>Handle tables\<close>

text \<open>
  Annotation and form handles are kept in two maps, from handles to objects and from object keys to
  handles. \<open>table_inv\<close> says that they are inverse to each other and that every handle is the text of its
  object in the current generation.
\<close>

definition table_inv :: "(u64 \<Rightarrow> int \<Rightarrow> int \<Rightarrow> string) \<Rightarrow> u64 \<Rightarrow> (string, HandleLocation) std_map \<Rightarrow> (u64, string) std_map \<Rightarrow> bool" where
  "table_inv htext g H K \<longleftrightarrow> map_wf H \<and> map_wf K
     \<and> (\<forall>h loc. map_of H h = Some loc \<longrightarrow> i32_object (hl_page loc) (hl_objectNumber loc)
          \<and> h = htext g (hl_page loc) (hl_objectNumber loc) \<and> map_of K (objectKey (hl_page loc) (hl_objectNumber loc)) = Some h)
     \<and> (\<forall>k h. map_of K k = Some h \<longrightarrow> (\<exists>loc. map_of H h = Some loc \<and> k = objectKey (hl_page loc) (hl_objectNumber loc)))"

locale handle_scheme =
  fixes htext :: "u64 \<Rightarrow> int \<Rightarrow> int \<Rightarrow> string"
  assumes htext_inj: "i32_object p n \<Longrightarrow> i32_object p' n' \<Longrightarrow> htext g p n = htext g' p' n' \<Longrightarrow> g = g' \<and> p = p' \<and> n = n'"
begin

lemma empty_table: "table_inv htext g [] []"
  by (simp add: table_inv_def)

lemma known:
  assumes "table_inv htext g H K" "i32_object p n" "map_of K (objectKey p n) = Some h"
  shows "map_of H h = Some \<lparr>hl_page = p, hl_objectNumber = n\<rparr>"
proof -
  from assms(1,3) obtain loc where loc: "map_of H h = Some loc" "objectKey p n = objectKey (hl_page loc) (hl_objectNumber loc)"
    unfolding table_inv_def by blast
  with assms(1) have "i32_object (hl_page loc) (hl_objectNumber loc)" unfolding table_inv_def by blast
  from objectKey_inj [OF assms(2) this loc(2)] loc(1) show ?thesis by (cases loc) simp
qed

lemma unknown:
  assumes "table_inv htext g H K" "i32_object p n" "map_of K (objectKey p n) = None"
  shows "map_of H (htext g' p n) = None"
proof (rule ccontr)
  assume "map_of H (htext g' p n) \<noteq> None"
  then obtain loc where "map_of H (htext g' p n) = Some loc" by blast
  with assms(1) have "i32_object (hl_page loc) (hl_objectNumber loc)" "htext g' p n = htext g (hl_page loc) (hl_objectNumber loc)"
    "map_of K (objectKey (hl_page loc) (hl_objectNumber loc)) = Some (htext g' p n)"
    unfolding table_inv_def by blast+
  with htext_inj [OF assms(2) this(1,2)] assms(3) show False by simp
qed

lemma issue:
  assumes inv: "table_inv htext g H K" and obj: "i32_object p n" and new: "map_of K (objectKey p n) = None"
  shows "table_inv htext g (map_emplace (htext g p n) \<lparr>hl_page = p, hl_objectNumber = n\<rparr> H) (map_emplace (objectKey p n) (htext g p n) K)"
proof -
  have fresh: "map_of H (htext g p n) = None" using unknown [OF inv obj new] .
  have other: "objectKey (hl_page loc) (hl_objectNumber loc) \<noteq> objectKey p n" if "map_of H h = Some loc" for h loc
    using inv new that unfolding table_inv_def by (metis option.distinct(1))
  show ?thesis
    using inv obj fresh new unfolding table_inv_def
    by (auto simp: std_map other split: if_splits option.splits) (metis option.distinct(1))
qed

lemma revoke:
  assumes inv: "table_inv htext g H K" and h: "map_of H h = Some loc"
  shows "table_inv htext g (map_erase h H) (map_erase (objectKey (hl_page loc) (hl_objectNumber loc)) K)"
proof -
  have inverse: "map_of K (objectKey (hl_page loc') (hl_objectNumber loc')) = Some h'" if "map_of H h' = Some loc'" for h' loc'
    using inv that unfolding table_inv_def by blast
  have "objectKey (hl_page loc') (hl_objectNumber loc') \<noteq> objectKey (hl_page loc) (hl_objectNumber loc)"
    if "map_of H h' = Some loc'" "h' \<noteq> h" for h' loc'
    using inverse [OF that(1)] inverse [OF h] that(2) by auto
  moreover have "h' \<noteq> h" if "map_of K k = Some h'" "k \<noteq> objectKey (hl_page loc) (hl_objectNumber loc)" for k h'
    using inv that h unfolding table_inv_def by (metis option.inject)
  ultimately show ?thesis
    using inv unfolding table_inv_def by (auto simp: std_map split: if_splits)
qed

lemma stale:
  assumes "table_inv htext g H K" "i32_object p n" "g' \<noteq> g"
  shows "map_of H (htext g' p n) = None"
proof (rule ccontr)
  assume "map_of H (htext g' p n) \<noteq> None"
  then obtain loc where "map_of H (htext g' p n) = Some loc" by blast
  with assms(1) have "i32_object (hl_page loc) (hl_objectNumber loc)" "htext g' p n = htext g (hl_page loc) (hl_objectNumber loc)"
    unfolding table_inv_def by blast+
  with htext_inj [OF assms(2) this] assms(3) show False by simp
qed

end

interpretation annots: handle_scheme annotation_handle_text
  by unfold_locales (rule annotation_handle_text_inj)

interpretation flds: handle_scheme form_handle_text
  by unfold_locales (rule form_handle_text_inj)

definition handles_ok :: "'d CommandService \<Rightarrow> bool" where
  "handles_ok s \<longleftrightarrow>
     table_inv annotation_handle_text (cs_annotationGeneration s) (cs_annotationHandles s) (cs_annotationObjectHandles s)
     \<and> table_inv form_handle_text (cs_annotationGeneration s) (cs_formFieldHandles s) (cs_formObjectHandles s)"

lemma annotationHandle_cases:
  assumes "annotationHandle page n s = (s', h)"
  obtains (refused) "s' = s" "h = []"
  | (old) "0 \<le> page" "0 < n" "s' = s" "map_of (cs_annotationObjectHandles s) (objectKey page n) = Some h"
  | (new) "0 \<le> page" "0 < n" "map_of (cs_annotationObjectHandles s) (objectKey page n) = None"
      "h = annotation_handle_text (cs_annotationGeneration s) page n"
      "s' = s\<lparr>cs_annotationHandles := map_emplace h \<lparr>hl_page = page, hl_objectNumber = n\<rparr> (cs_annotationHandles s),
              cs_annotationObjectHandles := map_emplace (objectKey page n) h (cs_annotationObjectHandles s)\<rparr>"
proof (cases "page < 0 \<or> n \<le> 0")
  case True
  with assms have "s' = s" "h = []" by (simp_all add: annotationHandle_def)
  then show ?thesis by (rule refused)
next
  case range: False
  show ?thesis
  proof (cases "map_of (cs_annotationObjectHandles s) (objectKey page n)")
    case None
    show ?thesis
    proof (cases "length (cs_annotationHandles s) \<ge> MaxAnnotationsPerDocument")
      case True
      with assms range None have "s' = s" "h = []" by (simp_all add: annotationHandle_def Let_def)
      then show ?thesis by (rule refused)
    next
      case False
      with assms range None show ?thesis by (intro new) (auto simp: annotationHandle_def Let_def)
    qed
  next
    case (Some a)
    with assms range show ?thesis by (intro old) (simp_all add: annotationHandle_def Let_def)
  qed
qed

lemma annotationHandle_ok:
  assumes "handles_ok s" "annotationHandle page n s = (s', h)" "page < 2 ^ 31" "n < 2 ^ 31"
  shows "handles_ok s' \<and> (h \<noteq> [] \<longrightarrow> map_of (cs_annotationHandles s') h = Some \<lparr>hl_page = page, hl_objectNumber = n\<rparr>)"
  using assms(2)
proof (cases rule: annotationHandle_cases)
  case refused
  with assms(1) show ?thesis by simp
next
  case old
  with assms annots.known [of "cs_annotationGeneration s" _ _ page n h] show ?thesis by (auto simp: handles_ok_def i32_object_def)
next
  case new
  then have obj: "i32_object page n" using assms by (simp add: i32_object_def)
  have inv: "table_inv annotation_handle_text (cs_annotationGeneration s) (cs_annotationHandles s) (cs_annotationObjectHandles s)"
    using assms(1) by (simp add: handles_ok_def)
  have fresh: "map_of (cs_annotationHandles s) h = None" using annots.unknown [OF inv obj new(3)] new(4) by simp
  with annots.issue [OF inv obj new(3)] new(4,5) assms(1) show ?thesis by (simp add: handles_ok_def std_map)
qed

lemma formFieldHandle_cases:
  assumes "formFieldHandle page n s = (s', h)"
  obtains (refused) "s' = s" "h = []"
  | (old) "0 \<le> page" "0 < n" "s' = s" "map_of (cs_formObjectHandles s) (objectKey page n) = Some h"
  | (new) "0 \<le> page" "0 < n" "map_of (cs_formObjectHandles s) (objectKey page n) = None"
      "h = form_handle_text (cs_annotationGeneration s) page n"
      "s' = s\<lparr>cs_formFieldHandles := map_emplace h \<lparr>hl_page = page, hl_objectNumber = n\<rparr> (cs_formFieldHandles s),
              cs_formObjectHandles := map_emplace (objectKey page n) h (cs_formObjectHandles s)\<rparr>"
proof (cases "page < 0 \<or> n \<le> 0")
  case True
  with assms have "s' = s" "h = []" by (simp_all add: formFieldHandle_def)
  then show ?thesis by (rule refused)
next
  case range: False
  show ?thesis
  proof (cases "map_of (cs_formObjectHandles s) (objectKey page n)")
    case None
    with assms range show ?thesis by (intro new) (auto simp: formFieldHandle_def Let_def)
  next
    case (Some a)
    with assms range show ?thesis by (intro old) (simp_all add: formFieldHandle_def Let_def)
  qed
qed

lemma formFieldHandle_ok:
  assumes "handles_ok s" "formFieldHandle page n s = (s', h)" "page < 2 ^ 31" "n < 2 ^ 31"
  shows "handles_ok s' \<and> (h \<noteq> [] \<longrightarrow> map_of (cs_formFieldHandles s') h = Some \<lparr>hl_page = page, hl_objectNumber = n\<rparr>)"
  using assms(2)
proof (cases rule: formFieldHandle_cases)
  case refused
  with assms(1) show ?thesis by simp
next
  case old
  with assms flds.known [of "cs_annotationGeneration s" _ _ page n h] show ?thesis by (auto simp: handles_ok_def i32_object_def)
next
  case new
  then have obj: "i32_object page n" using assms by (simp add: i32_object_def)
  have inv: "table_inv form_handle_text (cs_annotationGeneration s) (cs_formFieldHandles s) (cs_formObjectHandles s)"
    using assms(1) by (simp add: handles_ok_def)
  have fresh: "map_of (cs_formFieldHandles s) h = None" using flds.unknown [OF inv obj new(3)] new(4) by simp
  with flds.issue [OF inv obj new(3)] new(4,5) assms(1) show ?thesis by (simp add: handles_ok_def std_map)
qed

lemma annotation_handles_loop_ok:
  "annotation_handles_loop page as s = (s', as') \<Longrightarrow> handles_ok s \<Longrightarrow> page < 2 ^ 31 \<Longrightarrow>
     list_all (\<lambda>a. an_pdfObjectNumber a < 2 ^ 31) as \<Longrightarrow> handles_ok s'"
proof (induction page as s arbitrary: s' as' rule: annotation_handles_loop.induct)
  case (1 page s)
  then show ?case by simp
next
  case (2 page a as s)
  obtain s1 h where h: "annotationHandle page (an_pdfObjectNumber a) s = (s1, h)" by (meson surj_pair)
  obtain s2 bs where l: "annotation_handles_loop page as s1 = (s2, bs)" by (meson surj_pair)
  from annotationHandle_ok [OF "2.prems"(2) h "2.prems"(3)] "2.prems"(4) have "handles_ok s1" by simp
  with "2.IH" [OF h [symmetric] l] "2.prems" h l show ?case by simp
qed

lemma form_handles_loop_ok:
  "form_handles_loop page fs s = (s', fs') \<Longrightarrow> handles_ok s \<Longrightarrow> page < 2 ^ 31 \<Longrightarrow>
     list_all (\<lambda>f. ff_pdfObjectNumber f < 2 ^ 31) fs \<Longrightarrow> handles_ok s'"
proof (induction page fs s arbitrary: s' fs' rule: form_handles_loop.induct)
  case (1 page s)
  then show ?case by simp
next
  case (2 page f fs s)
  obtain s1 h where h: "formFieldHandle page (ff_pdfObjectNumber f) s = (s1, h)" by (meson surj_pair)
  obtain s2 gs where l: "form_handles_loop page fs s1 = (s2, gs)" by (meson surj_pair)
  from formFieldHandle_ok [OF "2.prems"(2) h "2.prems"(3)] "2.prems"(4) have "handles_ok s1" by simp
  with "2.IH" [OF h [symmetric] l] "2.prems" h l show ?case by simp
qed

end
