(* ===== verification/Session_Invariant.thy ===== *)
theory Session_Invariant
  imports Session_Laws Handle_Tables
begin

text \<open>
  What every dispatched request keeps of the service's state: the handle tables, the frame pool, the deferred
  queue and the link budgets. Most handlers touch only the document and the job pools; \<open>core\<close> is everything
  else, and the remaining handlers are treated one by one.
\<close>

section \<open>Handlers that leave the core alone\<close>

definition core :: "'d CommandService \<Rightarrow> _" where
  "core s = (cs_framePool s, cs_annotationHandles s, cs_annotationObjectHandles s, cs_formFieldHandles s, cs_formObjectHandles s,
     cs_annotationGeneration s, cs_linkGeneration s, (cs_deferredIncoming s, cs_deferredIncomingBytes s),
     cs_documentPassword s, cs_pendingPageLinks s, cs_renderLinkCharged s, cs_renderLinkBytes s, cs_renderLinkCount s)"

named_theorems framing

lemma core_close_fd [framing]: "core (close_fd fd s) = core s"
  by (simp add: core_def close_fd_def)

lemma core_updates [framing]:
  "core (s\<lparr>cs_document := d\<rparr>) = core s" "core (s\<lparr>cs_closed := c\<rparr>) = core s" "core (s\<lparr>cs_ocrJobs := o'\<rparr>) = core s"
  "core (s\<lparr>cs_exportJobs := x\<rparr>) = core s" "core (s\<lparr>cs_settings := t\<rparr>) = core s" "core (s\<lparr>cs_memory := m\<rparr>) = core s"
  "core (s\<lparr>cs_nextFrameTransferId := i\<rparr>) = core s" "core (s\<lparr>cs_rendersSinceTrim := a\<rparr>) = core s"
  "core (s\<lparr>cs_bytesSinceTrim := a\<rparr>) = core s" "core (s\<lparr>cs_disconnectRequested := b\<rparr>) = core s" "core (s\<lparr>cs_lastTrim := z\<rparr>) = core s"
  by (simp_all add: core_def)

lemma core_discard_frame [framing]: "core (discard_frame f s) = core s"
  by (simp add: discard_frame_def framing)

lemma core_map_document [framing]: "core (map_document f s) = core s"
  by (simp add: map_document_def framing)

lemma core_form_answer [framing]: "core (fst (form_answer i o' r s)) = core s"
  by (simp add: form_answer_def framing split: prod.split bool.split)

lemma core_annotationModify [framing]: "core (fst (annotationModify E i m s)) = core s"
  by (simp add: annotationModify_def Let_def framing split: option.split prod.split bool.split)

lemma core_forms [framing]:
  "core (fst (formUpdate E i u s)) = core s" "core (fst (formReset E i r s)) = core s" "core (fst (formButtonClick E i c s)) = core s"
  by (simp_all add: formUpdate_def formReset_def formButtonClick_def framing split: option.split)

lemma core_jobs [framing]:
  "core (fst (exportResponse E W i x out inp s)) = core s" "core (fst (ocrPage E W i q fd s)) = core s"
  "core (fst (ocrResult E i r s)) = core s"
  by (simp_all add: exportResponse_def ocrPage_def ocrResult_def Let_def framing
      split: prod.split bool.split option.split sum.split)

lemma core_settings [framing]: "core (fst (settings E i t s)) = core s" "core (fst (setLayer E i y s)) = core s"
  by (simp_all add: settings_def setLayer_def Let_def framing split: prod.split bool.split)

lemma core_maybeIdleTrim [framing]: "core (fst (maybeIdleTrim E now idle s)) = core s"
  by (simp add: maybeIdleTrim_def Let_def framing split: option.split)

lemma core_receiveRenderCookie: "receiveRenderCookie W i t s = (s', r) \<Longrightarrow> core s' = core s"
  by (auto simp: receiveRenderCookie_def Let_def framing split: if_splits sum.splits)

section \<open>The engine's promises\<close>

text \<open>
  What the service relies on: closing closes, no operation on an open document changes its type or its number
  of pages, and page counts and object numbers are 32-bit integers.
\<close>

definition shape_of :: "'d Engine \<Rightarrow> 'd \<Rightarrow> bool \<times> DocumentType \<times> int" where
  "shape_of E d = (eg_isOpen E d, eg_type E d, eg_pageCount E d)"

definition engine_closes :: "'d Engine \<Rightarrow> bool" where
  "engine_closes E \<longleftrightarrow> (\<forall>d. \<not> eg_isOpen E (eg_close E d))"

definition engine_types :: "'d Engine \<Rightarrow> bool" where
  "engine_types E \<longleftrightarrow> (\<forall>t n. eg_type E (eg_construct E t n) = Doc_Epub \<longrightarrow> t = Doc_Epub)
     \<and> (\<forall>fd n d. eg_type E (fst (eg_openFd E fd n d)) = eg_type E d)
     \<and> (\<forall>fd n a d. eg_type E (fst (eg_openFdWithAccelerator E fd n a d)) = eg_type E d)
     \<and> (\<forall>p d. eg_type E (fst (eg_unlock E p d)) = eg_type E d)"

definition engine_shape :: "'d Engine \<Rightarrow> bool" where
  "engine_shape E \<longleftrightarrow> (\<forall>t d. shape_of E (eg_setSettings E t d) = shape_of E d)
     \<and> (\<forall>b d. shape_of E (eg_setPageCacheSuspended E b d) = shape_of E d)
     \<and> (\<forall>d. shape_of E (eg_trimMemoryForIdle E d) = shape_of E d)
     \<and> (\<forall>d. shape_of E (eg_discardResolvedLinkCache E d) = shape_of E d)
     \<and> (\<forall>l b d. shape_of E (fst (eg_setLayer E l b d)) = shape_of E d)
     \<and> (\<forall>p a d. shape_of E (fst (eg_addAnnotation E p a d)) = shape_of E d)
     \<and> (\<forall>p n a c d. shape_of E (fst (eg_modifyAnnotation E p n a c d)) = shape_of E d)
     \<and> (\<forall>p n d. shape_of E (fst (eg_removeAnnotation E p n d)) = shape_of E d)
     \<and> (\<forall>fd x d. shape_of E (fst (eg_writeExport E fd x d)) = shape_of E d)
     \<and> (\<forall>p n v d. shape_of E (fst (eg_updateFormField E p n v d)) = shape_of E d)
     \<and> (\<forall>p n d. shape_of E (fst (eg_resetForm E p n d)) = shape_of E d)
     \<and> (\<forall>p n d. shape_of E (fst (eg_clickFormButton E p n d)) = shape_of E d)"

definition engine_signs :: "'d Engine \<Rightarrow> bool" where
  "engine_signs E \<longleftrightarrow> (\<forall>q fd d d' ok r m. eg_signFd E q fd d = SignDone d' ok r m \<longrightarrow> shape_of E d' = shape_of E d)
     \<and> (\<forall>q fd d g n k cms. eg_signFd E q fd d = SignAsk g n k \<longrightarrow> shape_of E (fst (k cms)) = shape_of E d)"

definition engine_ints :: "'d Engine \<Rightarrow> bool" where
  "engine_ints E \<longleftrightarrow> (\<forall>d. eg_pageCount E d < 2 ^ 31)
     \<and> (\<forall>d p l b. list_all (\<lambda>a. an_pdfObjectNumber a < 2 ^ 31) (pd_annotations (fst (eg_pageDetails E d p l b))))
     \<and> (\<forall>d p l b. list_all (\<lambda>f. ff_pdfObjectNumber f < 2 ^ 31) (pd_formFields (fst (eg_pageDetails E d p l b))))
     \<and> (\<forall>p a d. fst (snd (snd (eg_addAnnotation E p a d))) < 2 ^ 31)"

definition engine_laws :: "'d Engine \<Rightarrow> bool" where
  "engine_laws E \<longleftrightarrow> engine_closes E \<and> engine_types E \<and> engine_shape E \<and> engine_signs E \<and> engine_ints E"

lemma engine0_laws: "engine_laws engine0"
  by (simp add: engine_laws_def engine_closes_def engine_types_def engine_shape_def engine_signs_def engine_ints_def
      shape_of_def engine0_def page0_def)

section \<open>The shape of the open document\<close>

definition shape :: "'d Engine \<Rightarrow> 'd CommandService \<Rightarrow> (bool \<times> DocumentType \<times> int) option" where
  "shape E s = map_option (shape_of E) (cs_document s)"

lemma charged_ok_shape:
  "charged_ok E s \<longleftrightarrow> (\<forall>n. shape E s = Some (True, Doc_Epub, n) \<longrightarrow> nat n \<le> length (cs_renderLinkCharged s))"
  by (auto simp: charged_ok_def shape_def shape_of_def split: option.splits)

named_theorems shaping

lemma shape_close_fd [shaping]: "shape E (close_fd fd s) = shape E s"
  by (simp add: shape_def close_fd_def)

lemma shape_updates [shaping]:
  "shape E (s\<lparr>cs_document := Some d\<rparr>) = Some (shape_of E d)" "shape E (s\<lparr>cs_closed := c\<rparr>) = shape E s"
  "shape E (s\<lparr>cs_ocrJobs := o'\<rparr>) = shape E s" "shape E (s\<lparr>cs_exportJobs := x\<rparr>) = shape E s"
  "shape E (s\<lparr>cs_settings := t\<rparr>) = shape E s" "shape E (s\<lparr>cs_memory := m\<rparr>) = shape E s"
  "shape E (s\<lparr>cs_annotationHandles := H\<rparr>) = shape E s" "shape E (s\<lparr>cs_annotationObjectHandles := K\<rparr>) = shape E s"
  "shape E (s\<lparr>cs_framePool := q\<rparr>) = shape E s" "shape E (s\<lparr>cs_pendingPageLinks := l\<rparr>) = shape E s"
  "shape E (s\<lparr>cs_nextFrameTransferId := i\<rparr>) = shape E s" "shape E (s\<lparr>cs_rendersSinceTrim := a\<rparr>) = shape E s"
  "shape E (s\<lparr>cs_bytesSinceTrim := a\<rparr>) = shape E s" "shape E (s\<lparr>cs_lastTrim := z\<rparr>) = shape E s"
  by (simp_all add: shape_def)

lemma shape_open: "hasOpenDocument E s \<Longrightarrow> shape E s = Some (shape_of E (the (cs_document s)))"
  by (auto simp: hasOpenDocument_def shape_def split: option.splits)

lemma shape_map_document:
  "(\<And>d. shape_of E (f d) = shape_of E d) \<Longrightarrow> shape E (map_document f s) = shape E s"
  by (simp add: shape_def map_document_def option.map_comp comp_def)

lemma engine_shapeD:
  assumes "engine_shape E"
  shows "eg_setLayer E l b d = (d', r) \<Longrightarrow> shape_of E d' = shape_of E d"
    "eg_addAnnotation E p a d = (d', r') \<Longrightarrow> shape_of E d' = shape_of E d"
    "eg_modifyAnnotation E p n a c d = (d', r) \<Longrightarrow> shape_of E d' = shape_of E d"
    "eg_removeAnnotation E p n d = (d', r) \<Longrightarrow> shape_of E d' = shape_of E d"
    "eg_writeExport E fd x d = (d', r) \<Longrightarrow> shape_of E d' = shape_of E d"
  using assms unfolding engine_shape_def by (metis fst_conv)+

lemma engine_signD:
  assumes "engine_signs E"
  shows "eg_signFd E q fd d = SignDone d' ok r m \<Longrightarrow> shape_of E d' = shape_of E d"
    "eg_signFd E q fd d = SignAsk g nickname k \<Longrightarrow> shape_of E (fst (k cms)) = shape_of E d"
  using assms unfolding engine_signs_def by blast+

lemma engine_shape_updates:
  assumes "engine_shape E"
  shows "shape_of E (eg_setSettings E t d) = shape_of E d" "shape_of E (eg_setPageCacheSuspended E b d) = shape_of E d"
    "shape_of E (eg_trimMemoryForIdle E d) = shape_of E d" "shape_of E (eg_discardResolvedLinkCache E d) = shape_of E d"
  using assms unfolding engine_shape_def by (metis fst_conv)+

lemma shape_form_answer: "shape_of E (fst r) = x \<Longrightarrow> shape E (fst (form_answer i o' r s)) = Some x"
  by (auto simp: form_answer_def shaping split: prod.split bool.split)

lemma shape_forms:
  assumes "engine_shape E"
  shows "shape E (fst (formUpdate E i u s)) = shape E s" "shape E (fst (formReset E i r s)) = shape E s"
    "shape E (fst (formButtonClick E i c s)) = shape E s"
  using assms by (auto simp: formUpdate_def formReset_def formButtonClick_def engine_shape_def shape_open shape_form_answer
      split: option.split)

lemma shape_annotations:
  assumes "engine_shape E"
  shows "shape E (fst (annotationModify E i m s)) = shape E s" "shape E (fst (annotationRemove E i x s)) = shape E s"
  by (auto simp: annotationModify_def annotationRemove_def Let_def shaping shape_open
      split: option.split prod.split bool.split dest: engine_shapeD [OF assms])

lemma shape_exportResponse:
  assumes "engine_shape E"
  shows "shape E (fst (exportResponse E W i x out inp s)) = shape E s"
  by (auto simp: exportResponse_def doc_exportFd_def Let_def shaping shape_open
      split: option.split prod.split bool.split sum.split if_splits dest: engine_shapeD [OF assms])

lemma shape_ocr: "shape E (fst (ocrPage E W i q fd s)) = shape E s" "shape E (fst (ocrResult E i r s)) = shape E s"
  by (simp_all add: ocrPage_def ocrResult_def Let_def shaping split: prod.split option.split)

lemma shape_settings:
  assumes "engine_shape E"
  shows "shape E (fst (settings E i t s)) = shape E s" "shape E (fst (setLayer E i y s)) = shape E s"
  by (simp add: settings_def shaping shape_map_document engine_shape_updates [OF assms])
    (auto simp: setLayer_def Let_def shaping shape_open split: prod.split bool.split dest: engine_shapeD [OF assms])

section \<open>The session invariant\<close>

definition links_ok :: "'d CommandService \<Rightarrow> bool" where
  "links_ok s \<longleftrightarrow> cs_renderLinkBytes s \<le> MaxAggregateMetadataBytes \<and> cs_renderLinkCount s \<le> MaxOpenLinks"

definition base_ok :: "nat \<Rightarrow> Lease set \<Rightarrow> 'd CommandService \<Rightarrow> bool" where
  "base_ok n issued s \<longleftrightarrow> pool_run n (cs_framePool s) None issued \<and> handles_ok s \<and> deferred_inv s \<and> links_ok s"

definition session_ok :: "'d Engine \<Rightarrow> nat \<Rightarrow> Lease set \<Rightarrow> 'd CommandService \<Rightarrow> bool" where
  "session_ok E n issued s \<longleftrightarrow> base_ok n issued s \<and> charged_ok E s"

lemmas ok_defs = session_ok_def base_ok_def handles_ok_def deferred_inv_def charged_ok_shape links_ok_def

lemma session_ok_cong:
  assumes "core s' = core s" "shape E s' = shape E s"
  shows "session_ok E n issued s' \<longleftrightarrow> session_ok E n issued s"
  using assms unfolding ok_defs core_def by simp

lemma service0_session: "session_ok engine0 0 {} service0"
  using pool_run.start service0_deferred
  by (simp add: session_ok_def base_ok_def handles_ok_def service0_def CommandService_init_def charged_ok_def links_ok_def annots.empty_table flds.empty_table)

text \<open>A frame pool that moves by some steps, issuing leases that are new.\<close>

definition pool_moves :: "nat \<Rightarrow> Lease set \<Rightarrow> nat \<Rightarrow> Lease set \<Rightarrow> bool" where
  "pool_moves n issued n' issued' \<longleftrightarrow> n' \<le> n + 2 \<and> issued \<subseteq> issued'"

lemma closed_base:
  assumes "base_ok n issued s"
  shows "base_ok (Suc n) issued ((closeDocument E now s)\<lparr>cs_annotationGeneration := g, cs_document := d\<rparr>)"
proof -
  have "pool_run (Suc n) (clearFrames (cs_framePool s)) None issued" using assms pool_run.cleared by (auto simp: base_ok_def)
  then show ?thesis
    using assms
    by (simp add: base_ok_def handles_ok_def deferred_inv_def links_ok_def closeDocument_def map_document_def
        annots.empty_table flds.empty_table)
qed

lemma closeDocument_ok:
  assumes "engine_closes E" "base_ok n issued s"
  shows "session_ok E (Suc n) issued (closeDocument E now s)"
proof -
  have "shape E (closeDocument E now s) = map_option (\<lambda>d. shape_of E (eg_close E (eg_setPageCacheSuspended E False d))) (cs_document s)"
    by (simp add: shape_def closeDocument_def map_document_def option.map_comp comp_def)
  moreover have "\<not> eg_isOpen E (eg_close E d)" for d using assms(1) by (simp add: engine_closes_def)
  ultimately have "charged_ok E (closeDocument E now s)"
    by (auto simp: charged_ok_shape shape_of_def)
  moreover have "base_ok (Suc n) issued (closeDocument E now s)"
    using closed_base [OF assms(2), where E = E and now = now and g = "cs_annotationGeneration (closeDocument E now s)"
      and d = "cs_document (closeDocument E now s)"] by simp
  ultimately show ?thesis by (simp add: session_ok_def)
qed

lemma releaseFrameSlotResponse_ok:
  assumes "session_ok E n issued s"
  shows "\<exists>n'\<le>Suc n. session_ok E n' issued (fst (releaseFrameSlotResponse i r s))"
proof (cases "rel_slotId r = 0 \<or> rel_leaseId r = 0")
  case True
  with assms show ?thesis by (intro exI [of _ n]) (simp add: releaseFrameSlotResponse_def)
next
  case False
  moreover have "pool_run (Suc n) (releaseFrame i l (cs_framePool s)) None issued" for i l
    using assms pool_run.released by (auto simp: session_ok_def base_ok_def)
  ultimately show ?thesis using assms
    by (intro exI [of _ "Suc n"])
      (simp add: releaseFrameSlotResponse_def ok_defs shaping)
qed

text \<open>Assigning handles changes the handle tables only.\<close>

definition off_handles :: "'d CommandService \<Rightarrow> _" where
  "off_handles s = (cs_document s, cs_framePool s, cs_annotationGeneration s, cs_deferredIncoming s, cs_deferredIncomingBytes s,
     cs_renderLinkCharged s, cs_renderLinkBytes s, cs_renderLinkCount s)"

lemma off_annotationHandle: "annotationHandle page n s = (s', h) \<Longrightarrow> off_handles s' = off_handles s"
  by (erule annotationHandle_cases) (simp_all add: off_handles_def)

lemma off_formFieldHandle: "formFieldHandle page n s = (s', h) \<Longrightarrow> off_handles s' = off_handles s"
  by (erule formFieldHandle_cases) (simp_all add: off_handles_def)

lemma off_annotation_handles_loop: "annotation_handles_loop page as s = (s', as') \<Longrightarrow> off_handles s' = off_handles s"
  by (induction page as s arbitrary: s' as' rule: annotation_handles_loop.induct)
    (auto split: prod.splits dest: off_annotationHandle)

lemma off_form_handles_loop: "form_handles_loop page fs s = (s', fs') \<Longrightarrow> off_handles s' = off_handles s"
  by (induction page fs s arbitrary: s' fs' rule: form_handles_loop.induct)
    (auto split: prod.splits dest: off_formFieldHandle)

lemma base_ok_handles:
  assumes "base_ok n issued s" "off_handles s' = off_handles s" "handles_ok s'"
  shows "base_ok n issued s'"
  using assms unfolding base_ok_def off_handles_def links_ok_def deferred_inv_def by simp

lemma charged_ok_handles: "off_handles s' = off_handles s \<Longrightarrow> charged_ok E s' = charged_ok E s"
  unfolding charged_ok_shape shape_def off_handles_def by simp

lemma page_handles_ok:
  assumes laws: "engine_ints E" and det: "eg_pageDetails E d page l b = (det, x)" and ok: "base_ok n issued s" "page < 2 ^ 31"
    and l1: "annotation_handles_loop page (pd_annotations det) s = (s1, annots)"
    and l2: "form_handles_loop page (pd_formFields det) s1 = (s2, flds)"
  shows "base_ok n issued s2 \<and> off_handles s2 = off_handles s"
proof -
  have objs: "list_all (\<lambda>a. an_pdfObjectNumber a < 2 ^ 31) (pd_annotations det)"
    "list_all (\<lambda>f. ff_pdfObjectNumber f < 2 ^ 31) (pd_formFields det)"
    using laws det unfolding engine_ints_def by (metis fst_conv)+
  have "handles_ok s" using ok(1) by (simp add: base_ok_def)
  then have "handles_ok s1" using annotation_handles_loop_ok [OF l1 _ ok(2) objs(1)] by blast
  then have "handles_ok s2" using form_handles_loop_ok [OF l2 _ ok(2) objs(2)] by blast
  moreover have off: "off_handles s2 = off_handles s"
    using off_annotation_handles_loop [OF l1] off_form_handles_loop [OF l2] by simp
  ultimately show ?thesis using base_ok_handles [OF ok(1)] by blast
qed

lemma open_sweep_ok:
  assumes laws: "engine_closes E" "engine_ints E"
  shows "open_sweep E now ps a g f b pages s = (s', r) \<Longrightarrow> base_ok n issued s \<Longrightarrow>
     list_all (\<lambda>p. p < 2 ^ 31) ps \<Longrightarrow>
     (case r of Inl e \<Rightarrow> session_ok E (Suc n) issued s'
      | Inr (pages', b') \<Rightarrow> base_ok n issued s' \<and> off_handles s' = off_handles s
          \<and> (cs_document s \<noteq> None \<longrightarrow> length pages' = length pages + length ps))"
proof (induction ps arbitrary: a g f b pages s)
  case Nil
  then show ?case by auto
next
  case (Cons page rest)
  show ?case
  proof (cases "cs_document s")
    case None
    with Cons.prems show ?thesis by auto
  next
    case (Some d)
    obtain det reason b' where det: "eg_pageDetails E d page False b = (det, reason, b')" by (metis prod_cases3)
    obtain s1 annots where l1: "annotation_handles_loop page (pd_annotations det) s = (s1, annots)" by (meson surj_pair)
    obtain s2 flds where l2: "form_handles_loop page (pd_formFields det) s1 = (s2, flds)" by (meson surj_pair)
    define over where "over \<longleftrightarrow> a + length (pd_annotations det) > MaxOpenAnnotations
      \<or> g + length (pd_signatures det) > MaxOpenSignatures \<or> f + length (pd_formFields det) > MaxOpenFormFields"
    show ?thesis
    proof (cases "reason \<noteq> [] \<or> over")
      case True
      then have "s' = closeDocument E now s \<and> (\<exists>e. r = Inl e)"
        using Cons.prems(1) Some det unfolding over_def by (auto simp: Let_def split: if_splits)
      then show ?thesis using closeDocument_ok [OF laws(1) Cons.prems(2)] by auto
    next
      case False
      define info where "info = \<lparr>pi_number = page, pi_geometry = pd_geometry det, pi_annotations = annots,
        pi_signatureFields = pd_signatures det, pi_links = pd_links det, pi_formFields = flds\<rparr>"
      have "open_sweep E now rest (a + length (pd_annotations det)) (g + length (pd_signatures det))
          (f + length (pd_formFields det)) b' (pages @ [info]) s2 = (s', r)"
        using Cons.prems(1) Some det False l1 l2 unfolding over_def info_def by (simp add: Let_def)
      moreover have ok2: "base_ok n issued s2" "off_handles s2 = off_handles s"
        using page_handles_ok [OF laws(2) det Cons.prems(2) _ l1 l2] Cons.prems(3) by simp_all
      ultimately have "case r of Inl e \<Rightarrow> session_ok E (Suc n) issued s'
        | Inr (pages', b') \<Rightarrow> base_ok n issued s' \<and> off_handles s' = off_handles s2
            \<and> (cs_document s2 \<noteq> None \<longrightarrow> length pages' = length (pages @ [info]) + length rest)"
        using Cons.IH Cons.prems(3) by simp
      moreover have "cs_document s2 = cs_document s" using ok2(2) by (simp add: off_handles_def)
      ultimately show ?thesis using ok2(2) by (auto split: sum.splits)
    qed
  qed
qed

section \<open>Opening\<close>

lemma created_type:
  "engine_types E \<Longrightarrow> createDocument E type n = Some d \<Longrightarrow> eg_type E d = Doc_Epub \<Longrightarrow> type = DocumentType_value Doc_Epub"
  by (auto simp: createDocument_def engine_types_def split: if_splits)

lemma openFd_ok:
  assumes laws: "engine_laws E" and ok: "session_ok E n issued s"
    and run: "openFd E now fd name type acc s = (s1, opened, reason)"
  shows "if opened then base_ok (Suc n) issued s1
      \<and> (\<exists>d. cs_document s1 = Some d \<and> (eg_type E d = Doc_Epub \<longrightarrow> type = DocumentType_value Doc_Epub))
    else (\<exists>n'\<le>Suc n. session_ok E n' issued s1)"
proof (cases "(type \<noteq> DocumentType_value Doc_Pdf \<and> type \<noteq> DocumentType_value Doc_Epub \<and> type \<noteq> DocumentType_value Doc_Mobi
    \<and> type \<noteq> DocumentType_value Doc_Kindle \<and> type \<noteq> DocumentType_value Doc_Xps) \<or> length acc > MaxEpubAcceleratorBytes")
  case True
  then have "s1 = close_fd fd s \<and> \<not> opened" using run unfolding openFd_def by (auto split: if_splits)
  moreover have "session_ok E n issued (close_fd fd s)" using ok by (subst session_ok_cong) (simp_all add: framing shaping)
  ultimately show ?thesis by (auto intro: exI [of _ n])
next
  case False
  define s2 where "s2 = (closeDocument E now s)\<lparr>cs_annotationGeneration := cs_annotationGeneration (closeDocument E now s) + 1, cs_document := None\<rparr>"
  have base: "base_ok (Suc n) issued (s2\<lparr>cs_document := d\<rparr>)" for d
    using closed_base [where n = n and s = s and d = d] ok unfolding s2_def by (simp add: session_ok_def)
  have none: "session_ok E (Suc n) issued (s2\<lparr>cs_document := None\<rparr>)" "s2\<lparr>cs_document := None\<rparr> = s2"
    using base by (simp_all add: session_ok_def charged_ok_def s2_def)
  have run': "(case createDocument E type (nat (ds_memoryCacheBytes (cs_settings s2))) of
          None \<Rightarrow> (close_fd fd s2, False, ''document type is unknown'')
        | Some d0 \<Rightarrow>
          (case (if type = DocumentType_value Doc_Epub \<and> acc \<noteq> []
                 then eg_openFdWithAccelerator E fd name acc (eg_setSettings E (cs_settings s2) d0)
                 else eg_openFd E fd name (eg_setSettings E (cs_settings s2) d0)) of
             (d2, True, reason) \<Rightarrow> (s2\<lparr>cs_document := Some d2\<rparr>, True, reason)
           | (d2, False, reason) \<Rightarrow> (s2\<lparr>cs_document := None\<rparr>, False, reason))) = (s1, opened, reason)"
    using run False unfolding openFd_def s2_def Let_def by (simp only: if_False de_Morgan_disj simp_thms)
  show ?thesis
  proof (cases "createDocument E type (nat (ds_memoryCacheBytes (cs_settings s2)))")
    case None
    moreover have "session_ok E (Suc n) issued (close_fd fd s2)"
      using none by (subst session_ok_cong) (simp_all add: framing shaping)
    ultimately show ?thesis using run' by auto
  next
    case (Some d0)
    define d1 where "d1 = eg_setSettings E (cs_settings s2) d0"
    define res where "res = (if type = DocumentType_value Doc_Epub \<and> acc \<noteq> []
      then eg_openFdWithAccelerator E fd name acc d1 else eg_openFd E fd name d1)"
    have "shape_of E d1 = shape_of E d0" using laws by (simp add: d1_def engine_laws_def engine_shape_updates)
    then have "eg_type E (fst res) = eg_type E d0"
      using laws by (simp add: res_def engine_laws_def engine_types_def shape_of_def)
    with created_type [OF _ Some] laws have t: "eg_type E (fst res) = Doc_Epub \<longrightarrow> type = DocumentType_value Doc_Epub"
      by (simp add: engine_laws_def)
    obtain d2 o2 r2 where res: "res = (d2, o2, r2)" by (metis prod_cases3)
    have "(case res of (d2, True, reason) \<Rightarrow> (s2\<lparr>cs_document := Some d2\<rparr>, True, reason)
        | (d2, False, reason) \<Rightarrow> (s2\<lparr>cs_document := None\<rparr>, False, reason)) = (s1, opened, reason)"
      using run' unfolding Some res_def d1_def by simp
    with res have "s1 = (if o2 then s2\<lparr>cs_document := Some d2\<rparr> else s2\<lparr>cs_document := None\<rparr>) \<and> opened = o2"
      by (auto split: bool.splits)
    then show ?thesis using base none t res by auto
  qed
qed

lemma ok_updates [simp]:
  "session_ok E n i (s\<lparr>cs_documentPassword := p\<rparr>) = session_ok E n i s"
  "session_ok E n i (s\<lparr>cs_pendingPageLinks := l\<rparr>) = session_ok E n i s"
  "base_ok n i (s\<lparr>cs_documentPassword := p\<rparr>) = base_ok n i s" "base_ok n i (s\<lparr>cs_document := d\<rparr>) = base_ok n i s"
  "base_ok n i (s\<lparr>cs_linkGeneration := g\<rparr>) = base_ok n i s" "base_ok n i (s\<lparr>cs_renderLinkCharged := c\<rparr>) = base_ok n i s"
  by (simp_all add: ok_defs shape_def)

lemma base_ok_closed_document:
  "engine_closes E \<Longrightarrow> base_ok n i s \<Longrightarrow> session_ok E n i (s\<lparr>cs_document := Some (eg_close E d)\<rparr>)"
  by (simp add: session_ok_def charged_ok_def engine_closes_def)

text \<open>Once the document is unlocked and its pages are swept, the flags are as many as the pages.\<close>

lemma opened_sweep_ok:
  assumes laws: "engine_laws E" and base: "base_ok n issued s" and doc: "cs_document s = Some d"
    and t: "eg_type E d = Doc_Epub \<longrightarrow> type = DocumentType_value Doc_Epub"
    and sweep: "open_sweep E now [0..eg_pageCount E d - 1] 0 0 0 b [] s = (s', r)"
  shows "case r of Inl e \<Rightarrow> session_ok E (Suc n) issued s'
    | Inr (pages, b') \<Rightarrow> (if type = DocumentType_value Doc_Epub
        then session_ok E n issued (s'\<lparr>cs_renderLinkCharged := replicate (length pages) False\<rparr>)
        else session_ok E n issued s')"
proof -
  have "eg_pageCount E d < 2 ^ 31" using laws by (simp add: engine_laws_def engine_ints_def)
  then have "list_all (\<lambda>p. p < 2 ^ 31) [0..eg_pageCount E d - 1]" by (auto simp: list_all_iff)
  with open_sweep_ok [OF _ _ sweep base] laws have res: "case r of Inl e \<Rightarrow> session_ok E (Suc n) issued s'
      | Inr (pages', b') \<Rightarrow> base_ok n issued s' \<and> off_handles s' = off_handles s
          \<and> (cs_document s \<noteq> None \<longrightarrow> length pages' = length ([] :: PageInfo list) + length [0..eg_pageCount E d - 1])"
    by (simp add: engine_laws_def)
  show ?thesis
  proof (cases r)
    case (Inl e)
    with res show ?thesis by simp
  next
    case (Inr pb)
    obtain pages b' where pb: "pb = (pages, b')" by (cases pb)
    with res Inr doc have "base_ok n issued s'" "cs_document s' = Some d" "length pages = nat (eg_pageCount E d)"
      by (auto simp: off_handles_def)
    then show ?thesis using Inr pb t by (auto simp: session_ok_def charged_ok_def)
  qed
qed

lemma openFdResponse_ok:
  assumes laws: "engine_laws E" and ok: "session_ok E n issued s"
  shows "\<exists>n'\<le>n + 2. session_ok E n' issued (fst (openFdResponse E now i fd name password type acc s))"
proof (cases "type = DocumentType_value Doc_Unknown")
  case True
  moreover have "session_ok E n issued (close_fd fd s)" using ok by (subst session_ok_cong) (simp_all add: framing shaping)
  ultimately show ?thesis by (intro exI [of _ n]) (simp add: openFdResponse_def)
next
  case known: False
  obtain s1 opened reason where run: "openFd E now fd name type acc s = (s1, opened, reason)" by (metis prod_cases3)
  note first = openFd_ok [OF laws ok run]
  show ?thesis
  proof (cases opened)
    case False
    with first obtain n' where "n' \<le> Suc n" "session_ok E n' issued s1" by auto
    with known run False show ?thesis by (intro exI [of _ n']) (simp add: openFdResponse_def)
  next
    case True
    with first obtain d1 where base: "base_ok (Suc n) issued s1" and d1: "cs_document s1 = Some d1"
      and t1: "eg_type E d1 = Doc_Epub \<longrightarrow> type = DocumentType_value Doc_Epub" by auto
    obtain d2 unlocked where u: "(if eg_isLocked E d1 then eg_unlock E password d1 else (d1, True)) = (d2, unlocked)" by (meson surj_pair)
    then have "eg_type E d2 = eg_type E d1"
      using laws by (auto simp: engine_laws_def engine_types_def split: if_splits) (metis fst_conv)
    with t1 have t2: "eg_type E d2 = Doc_Epub \<longrightarrow> type = DocumentType_value Doc_Epub" by simp
    note defs = openFdResponse_def run True d1 u
    show ?thesis
    proof (cases unlocked)
      case False
      then show ?thesis using base_ok_closed_document [of E "Suc n" issued s1 d2] base laws known
        by (intro exI [of _ "Suc n"]) (simp add: defs engine_laws_def)
    next
      case open2: True
      define s2 where "s2 = s1\<lparr>cs_document := Some d2, cs_documentPassword := password\<rparr>"
      have base2: "base_ok (Suc n) issued s2" using base by (simp add: s2_def)
      show ?thesis
      proof (cases "eg_pageCount E d2 > int MaxOpenPages")
        case True
        then show ?thesis using closeDocument_ok [OF _ base2, of E now] laws open2 known
          by (intro exI [of _ "Suc (Suc n)"]) (simp add: defs s2_def engine_laws_def)
      next
        case few: False
        define d3 where "d3 = eg_setPageCacheSuspended E (type \<noteq> DocumentType_value Doc_Epub) d2"
        define s3 where "s3 = s2\<lparr>cs_linkGeneration := cs_linkGeneration s2 + 1, cs_document := Some d3\<rparr>"
        have shape3: "shape_of E d3 = shape_of E d2" using laws by (simp add: d3_def engine_laws_def engine_shape_updates)
        then have t3: "eg_type E d3 = Doc_Epub \<longrightarrow> type = DocumentType_value Doc_Epub" using t2 by (simp add: shape_of_def)
        have base3: "base_ok (Suc n) issued s3" "cs_document s3 = Some d3" using base2 by (simp_all add: s3_def)
        obtain s4 r where sweep: "open_sweep E now [0..eg_pageCount E d3 - 1] 0 0 0 ExtractionBudgets_default [] s3 = (s4, r)"
          by (meson surj_pair)
        note swept = opened_sweep_ok [OF laws base3 t3 sweep]
        have answer: "fst (openFdResponse E now i fd name password type acc s) =
          (case r of Inl e \<Rightarrow> s4 | Inr (pages, b) \<Rightarrow>
             if type = DocumentType_value Doc_Epub then s4\<lparr>cs_renderLinkCharged := replicate (length pages) False\<rparr>
             else s4\<lparr>cs_pendingPageLinks := Some \<lparr>pp_generation = cs_linkGeneration s2 + 1, pp_nextPage = 0,
                    pp_totalLinks = 0, pp_pages = [], pp_budgets = b\<rparr>\<rparr>)"
          using few open2 sweep known unfolding s3_def d3_def s2_def
          by (auto simp: defs Let_def split: sum.splits prod.splits)
        show ?thesis
          using swept unfolding answer
          by (cases r) (auto split: prod.splits if_splits intro: exI [of _ "Suc (Suc n)"] exI [of _ "Suc n"])
      qed
    qed
  qed
qed

section \<open>Annotations and signing\<close>

lemma annotationAdd_ok:
  assumes laws: "engine_laws E" and ok: "session_ok E n issued s"
  shows "session_ok E n issued (fst (annotationAdd E i a s))"
proof (cases "hasOpenDocument E s \<and> aar_page a < eg_pageCount E (the (cs_document s))
    \<and> length (cs_annotationHandles s) < MaxAnnotationsPerDocument")
  case False
  with ok show ?thesis by (auto simp: annotationAdd_def Let_def)
next
  case True
  obtain d' added obj reason where add: "eg_addAnnotation E (aar_page a) (aar_annotation a) (the (cs_document s)) = (d', added, obj, reason)"
    by (metis prod_cases4)
  have shape1: "shape E (s\<lparr>cs_document := Some d'\<rparr>) = shape E s"
    using True laws engine_shapeD(2) [OF _ add] by (simp add: shaping shape_open engine_laws_def)
  then have ok1: "session_ok E n issued (s\<lparr>cs_document := Some d'\<rparr>)"
    using ok by (subst session_ok_cong) (simp_all add: framing)
  obtain s1 h where h: "annotationHandle (aar_page a) obj (s\<lparr>cs_document := Some d'\<rparr>) = (s1, h)" by (meson surj_pair)
  have "aar_page a < 2 ^ 31" using True laws by (auto simp: engine_laws_def engine_ints_def intro: less_trans)
  moreover have "obj < 2 ^ 31" using laws add unfolding engine_laws_def engine_ints_def by (metis fst_conv snd_conv)
  ultimately have "handles_ok s1" using annotationHandle_ok [OF _ h] ok1 by (simp add: session_ok_def base_ok_def)
  with off_annotationHandle [OF h] ok1 have "session_ok E n issued s1"
    using base_ok_handles charged_ok_handles unfolding session_ok_def by blast
  with ok1 True add h show ?thesis by (auto simp: annotationAdd_def Let_def split: bool.split)
qed

lemma annotationRemove_ok:
  assumes laws: "engine_laws E" and ok: "session_ok E n issued s"
  shows "session_ok E n issued (fst (annotationRemove E i x s))"
proof -
  define H where "H = cs_annotationHandles s"
  define s' where "s' = fst (annotationRemove E i x s)"
  have shape1: "shape E s' = shape E s" using laws unfolding s'_def engine_laws_def by (blast intro: shape_annotations)
  have "handles_ok s" using ok by (simp add: session_ok_def base_ok_def)
  then have revoked: "table_inv annotation_handle_text (cs_annotationGeneration s) (map_erase h H)
      (map_erase (objectKey p (hl_objectNumber loc)) (cs_annotationObjectHandles s))"
    if "map_of H h = Some loc" "hl_page loc = p" for h loc p
    using annots.revoke that by (auto simp: handles_ok_def H_def)
  have "off_handles s' = off_handles (s\<lparr>cs_document := cs_document s'\<rparr>) \<and> handles_ok s'"
    using revoked \<open>handles_ok s\<close> unfolding s'_def annotationRemove_def H_def
    by (auto simp: off_handles_def handles_ok_def split: option.split prod.split bool.split)
  moreover have "session_ok E n issued (s\<lparr>cs_document := cs_document s'\<rparr>)"
    using ok shape1 by (subst session_ok_cong) (simp_all add: framing shape_def)
  ultimately show ?thesis
    using base_ok_handles charged_ok_handles unfolding session_ok_def s'_def [symmetric] by blast
qed

lemma cms_loop_frame:
  "cms_loop W input events s = Some (s', r) \<Longrightarrow>
     \<exists>q b x. s' = s\<lparr>cs_deferredIncoming := q, cs_deferredIncomingBytes := b, cs_disconnectRequested := x\<rparr>"
proof (induction W input events s rule: cms_loop.induct)
  case (1 W input s)
  then show ?case by simp
next
  case (2 W input event events s)
  show ?case
  proof (cases "cms_step W input event s")
    case (Inl res)
    with "2.prems" cms_step_Inl [of W input event s s' r] have "s' = s \<or> s' = s\<lparr>cs_disconnectRequested := True\<rparr>" by simp
    then show ?thesis
    proof
      assume "s' = s"
      then have "s' = s\<lparr>cs_deferredIncoming := cs_deferredIncoming s, cs_deferredIncomingBytes := cs_deferredIncomingBytes s,
        cs_disconnectRequested := cs_disconnectRequested s\<rparr>" by simp
      then show ?thesis by blast
    next
      assume "s' = s\<lparr>cs_disconnectRequested := True\<rparr>"
      then have "s' = s\<lparr>cs_deferredIncoming := cs_deferredIncoming s, cs_deferredIncomingBytes := cs_deferredIncomingBytes s,
        cs_disconnectRequested := True\<rparr>" by simp
      then show ?thesis by blast
    qed
  next
    case (Inr s1)
    then obtain raw where "deferIncoming raw s = (s1, True)" using cms_step_Inr by blast
    then have s1: "s1 = s\<lparr>cs_deferredIncoming := cs_deferredIncoming s1, cs_deferredIncomingBytes := cs_deferredIncomingBytes s1\<rparr>"
      by (auto simp: deferIncoming_def split: if_splits)
    from "2.IH" [OF Inr] "2.prems" Inr obtain q b x
      where "s' = s1\<lparr>cs_deferredIncoming := q, cs_deferredIncomingBytes := b, cs_disconnectRequested := x\<rparr>" by auto
    also have "\<dots> = s\<lparr>cs_deferredIncoming := q, cs_deferredIncomingBytes := b, cs_disconnectRequested := x\<rparr>" by (subst s1) simp
    finally show ?thesis by blast
  qed
qed

lemma deferring_ok:
  assumes "session_ok E n issued s" "deferred_inv (s\<lparr>cs_deferredIncoming := q, cs_deferredIncomingBytes := b, cs_disconnectRequested := x\<rparr>)"
  shows "session_ok E n issued (s\<lparr>cs_deferredIncoming := q, cs_deferredIncomingBytes := b, cs_disconnectRequested := x\<rparr>)"
  using assms by (simp add: ok_defs shape_def)

lemma signFdResponse_ok:
  assumes laws: "engine_signs E" and ok: "session_ok E n issued s"
    and run: "signFdResponse E W i sign fd s = Some (s', r)"
  shows "session_ok E n issued s'"
proof (cases "cs_controlChannel s \<and> (\<exists>d. cs_document s = Some d \<and> sg_page sign < eg_pageCount E d)")
  case False
  then have "s' = close_fd fd s" using run by (auto simp: signFdResponse_def split: option.splits if_splits)
  with ok show ?thesis by (subst session_ok_cong) (simp_all add: framing shaping)
next
  case True
  then obtain d where d: "cs_document s = Some d" "sg_page sign < eg_pageCount E d" "cs_controlChannel s" by blast
  have keep: "session_ok E n issued (t\<lparr>cs_document := Some d'\<rparr>)"
    if "session_ok E n issued t" "cs_document t = Some d" "shape_of E d' = shape_of E d" for t d'
    using that by (subst session_ok_cong) (simp_all add: framing shaping, simp add: shape_def)
  show ?thesis
  proof (cases "eg_signFd E sign fd d")
    case (SignDone d' done' res m)
    moreover have "shape_of E d' = shape_of E d" by (rule engine_signD(1) [OF laws SignDone])
    ultimately show ?thesis using keep [OF ok d(1)] run d by (auto simp: signFdResponse_def)
  next
    case (SignAsk digest nickname resume)
    define input where "input = \<lparr>si_jobId = i, si_nonce = decimal (unat i), si_certificateNickname = nickname, si_digest = digest\<rparr>"
    obtain t cms where cms: "requestCmsSignature W input s = Some (t, cms)"
      using run d SignAsk unfolding input_def by (auto simp: signFdResponse_def split: option.splits)
    have "session_ok E n issued t \<and> cs_document t = Some d"
    proof (cases "w_notify W input")
      case None
      with cms have loop: "cms_loop W input (w_signEvents W) s = Some (t, cms)" by (simp add: requestCmsSignature_def)
      have "deferred_inv t" using cms_loop_defers [OF loop] ok by (simp add: session_ok_def base_ok_def)
      moreover obtain q b x where t: "t = s\<lparr>cs_deferredIncoming := q, cs_deferredIncomingBytes := b, cs_disconnectRequested := x\<rparr>"
        using cms_loop_frame [OF loop] by blast
      ultimately have "session_ok E n issued t" using deferring_ok [OF ok, where q = q and b = b and x = x] by simp
      with t d show ?thesis by simp
    next
      case (Some reason)
      with cms ok d show ?thesis by (auto simp: requestCmsSignature_def)
    qed
    moreover have "shape_of E (fst (resume cms)) = shape_of E d" by (rule engine_signD(2) [OF laws SignAsk])
    ultimately show ?thesis
      using keep [of t "fst (resume cms)"] run d SignAsk cms unfolding input_def
      by (auto simp: signFdResponse_def split: prod.splits)
  qed
qed

section \<open>Rendering\<close>

lemma charge_links:
  assumes "session_ok E n issued s" "k < length (cs_renderLinkCharged s)"
    and "bytes \<le> MaxAggregateMetadataBytes - cs_renderLinkBytes s" "m \<le> MaxOpenLinks - cs_renderLinkCount s"
  shows "session_ok E n issued (s\<lparr>cs_renderLinkCharged := (cs_renderLinkCharged s)[k := True],
    cs_renderLinkBytes := size_add (cs_renderLinkBytes s) bytes, cs_renderLinkCount := size_add (cs_renderLinkCount s) m\<rparr>)"
proof -
  have links: "cs_renderLinkBytes s \<le> MaxAggregateMetadataBytes" "cs_renderLinkCount s \<le> MaxOpenLinks"
    using assms(1) by (simp_all add: session_ok_def base_ok_def links_ok_def)
  have "size_add (cs_renderLinkBytes s) bytes = cs_renderLinkBytes s + bytes" "size_add (cs_renderLinkCount s) m = cs_renderLinkCount s + m"
    using assms(3,4) links by (intro size_add_exact; simp add: limits)+
  with assms links show ?thesis by (simp add: ok_defs shape_def) linarith
qed

lemma render_links_ok:
  assumes ok: "session_ok E n issued s" and run: "render_links E d render s = Some (s', l)"
  shows "session_ok E n issued s'"
proof (cases "rr_generation render = cs_linkGeneration s")
  case False
  with ok run show ?thesis by (simp add: render_links_def)
next
  case gen: True
  have links: "cs_renderLinkBytes s \<le> MaxAggregateMetadataBytes" "cs_renderLinkCount s \<le> MaxOpenLinks"
    using ok by (simp_all add: session_ok_def base_ok_def links_ok_def)
  define initial where "initial = min MaxAggregateMetadataBytes (MaxControlMessageBytes div 2)"
  obtain ls reason b where x: "eg_extractLinkUris E d (rr_page render)
      (ExtractionBudgets_default\<lparr>xb_links := \<lparr>bb_remainingBytes = initial\<rparr>\<rparr>) = (ls, reason, b)" by (metis prod_cases3)
  define bytes where "bytes = size_sub initial (bb_remainingBytes (xb_links b))"
  define k where "k = nat (rr_page render)"
  define over where "over \<longleftrightarrow> bytes > size_sub MaxAggregateMetadataBytes (cs_renderLinkBytes s)
    \<or> length ls > size_sub MaxOpenLinks (cs_renderLinkCount s)"
  have k: "k < length (cs_renderLinkCharged s)"
    using run gen x unfolding render_links_def Let_def initial_def k_def by (auto split: if_splits)
  then have "s' = (if reason = [] \<and> \<not> cs_renderLinkCharged s ! k \<and> \<not> over
      then s\<lparr>cs_renderLinkCharged := (cs_renderLinkCharged s)[k := True],
        cs_renderLinkBytes := size_add (cs_renderLinkBytes s) bytes, cs_renderLinkCount := size_add (cs_renderLinkCount s) (length ls)\<rparr>
      else s)"
    using run gen x unfolding render_links_def Let_def over_def bytes_def k_def initial_def by simp
  moreover have "session_ok E n issued (s\<lparr>cs_renderLinkCharged := (cs_renderLinkCharged s)[k := True],
      cs_renderLinkBytes := size_add (cs_renderLinkBytes s) bytes, cs_renderLinkCount := size_add (cs_renderLinkCount s) (length ls)\<rparr>)"
    if "\<not> over"
    using charge_links [OF ok k] that links by (simp add: over_def not_less)
  ultimately show ?thesis using ok by simp
qed

lemma attach_links_ok:
  "session_ok E n issued s \<Longrightarrow> attach_links E d i render rf s = Some (s', r) \<Longrightarrow>
     session_ok E n issued s' \<and> (\<exists>l. rsm_payload r = RsRender \<lparr>rrs_frame = rf, rrs_links = l\<rparr>)"
  by (auto simp: attach_links_def success_def render_links_ok split: if_splits option.splits)

lemma core_framePool_cong:
  "core s' = core s \<Longrightarrow> core (s'\<lparr>cs_framePool := q\<rparr>) = core (s\<lparr>cs_framePool := q\<rparr>)" "core s' = core s \<Longrightarrow> cs_framePool s' = cs_framePool s"
  by (simp_all add: core_def)

lemma shape_discard_frame [shaping]: "shape E (discard_frame f s) = shape E s"
  by (simp add: discard_frame_def shaping)

lemma render_into_cases:
  assumes "render_into E W i render cookie fitted d frame s0 = Some (s', r)"
  shows "(core s' = core s0 \<and> shape E s' = shape E s0 \<and> rsm_payload r = RsEmpty)
    \<or> (\<exists>pool' frame' lease s4 rf. publishFrame (cs_framePool s0) frame = (pool', frame', lease)
         \<and> core s4 = core (s0\<lparr>cs_framePool := pool'\<rparr>) \<and> shape E s4 = shape E s0
         \<and> rf_slotId rf = ls_slotId lease \<and> rf_leaseId rf = ls_leaseId lease
         \<and> attach_links E d i render rf s4 = Some (s', r))"
proof -
  obtain pool' frame' lease where pub: "publishFrame (cs_framePool s0) frame = (pool', frame', lease)" by (metis prod_cases3)
  define failed where "failed \<longleftrightarrow> core s' = core s0 \<and> shape E s' = shape E s0 \<and> rsm_payload r = RsEmpty"
  define linked where "linked \<longleftrightarrow> (\<exists>s4 rf. core s4 = core (s0\<lparr>cs_framePool := pool'\<rparr>) \<and> shape E s4 = shape E s0
    \<and> rf_slotId rf = ls_slotId lease \<and> rf_leaseId rf = ls_leaseId lease \<and> attach_links E d i render rf s4 = Some (s', r))"
  define outcome where "outcome \<longleftrightarrow> failed \<or> linked"
  have fail: outcome if "core s' = core s0" "shape E s' = shape E s0" "rsm_payload r = RsEmpty"
    using that by (simp add: outcome_def failed_def)
  have link: outcome if "attach_links E d i render rf s4 = Some (s', r)" "core s4 = core (s0\<lparr>cs_framePool := pool'\<rparr>)"
    "shape E s4 = shape E s0" "rf_slotId rf = ls_slotId lease" "rf_leaseId rf = ls_leaseId lease" for s4 rf
    using that unfolding outcome_def linked_def by blast
  have outcome
    using assms pub unfolding render_into_def Let_def
    by (auto split: prod.splits if_splits option.splits)
      ((erule link; simp add: core_def discard_frame_def shape_def) | (rule fail; simp add: failure_def framing shaping))+
  then show ?thesis using pub unfolding outcome_def failed_def linked_def by blast
qed

lemma with_pool:
  assumes "session_ok E m issued s" "pool_run n q None issued'" "core s' = core (s\<lparr>cs_framePool := q\<rparr>)" "shape E s' = shape E s"
  shows "session_ok E n issued' s'"
  using assms unfolding ok_defs core_def by simp

text \<open>The lease in a render response: none, or one that was never issued before.\<close>

definition fresh_lease :: "Lease set \<Rightarrow> Lease set \<Rightarrow> ResponseMessage \<Rightarrow> bool" where
  "fresh_lease issued issued' r \<longleftrightarrow> (case rsm_payload r of
     RsRender rr \<Rightarrow> let lease = \<lparr>ls_slotId = rf_slotId (rrs_frame rr), ls_leaseId = rf_leaseId (rrs_frame rr)\<rparr> in
       lease = \<lparr>ls_slotId = 0, ls_leaseId = 0\<rparr> \<or> (lease \<in> issued' \<and> lease \<notin> issued)
   | _ \<Rightarrow> True)"

lemma render_into_ok:
  assumes ok: "session_ok E m issued s0" and run: "pool_run n (cs_framePool s0) (Some frame) issued" and n: "n < 2 ^ 64 - 2"
    and res: "render_into E W i render cookie fitted d frame s0 = Some (s', r)"
  shows "\<exists>issued'. issued \<subseteq> issued' \<and> session_ok E (Suc n) issued' s' \<and> fresh_lease issued issued' r"
  using render_into_cases [OF res]
proof (elim disjE conjE exE)
  assume s': "core s' = core s0" "shape E s' = shape E s0" and "rsm_payload r = RsEmpty"
  then have "fresh_lease issued issued r" by (simp add: fresh_lease_def)
  moreover have "core s' = core (s0\<lparr>cs_framePool := cs_framePool s0\<rparr>)" using s' by simp
  then have "session_ok E (Suc n) issued s'" using with_pool [OF ok pool_run.discarded [OF run]] s' by blast
  ultimately show ?thesis by blast
next
  fix pool' frame' lease s4 rf
  assume pub: "publishFrame (cs_framePool s0) frame = (pool', frame', lease)" and s4: "core s4 = core (s0\<lparr>cs_framePool := pool'\<rparr>)"
    "shape E s4 = shape E s0" and rf: "rf_slotId rf = ls_slotId lease" "rf_leaseId rf = ls_leaseId lease"
    and link: "attach_links E d i render rf s4 = Some (s', r)"
  define issued' where "issued' = (if fr_slot frame' = None then issued else insert lease issued)"
  have "session_ok E (Suc n) issued' s4"
    using with_pool [OF ok pool_run.published [OF run pub] s4] by (simp add: issued'_def)
  from attach_links_ok [OF this link] obtain l where s': "session_ok E (Suc n) issued' s'"
    and payload: "rsm_payload r = RsRender \<lparr>rrs_frame = rf, rrs_links = l\<rparr>" by blast
  have "n < 2 ^ 64 - 1" using n by simp
  from publishFrame_session [OF pool_run_inv [OF run this] n pub]
  have "lease = \<lparr>ls_slotId = 0, ls_leaseId = 0\<rparr> \<or> (lease \<in> issued' \<and> lease \<notin> issued)" by (auto simp: issued'_def)
  moreover have "\<lparr>ls_slotId = rf_slotId rf, ls_leaseId = rf_leaseId rf\<rparr> = lease" using rf by simp
  ultimately have "fresh_lease issued issued' r" by (simp add: fresh_lease_def payload)
  with s' show ?thesis by (intro exI [of _ issued']) (auto simp: issued'_def)
qed

lemma receiveRenderCookie_error: "receiveRenderCookie W i t s = (s', Inl r) \<Longrightarrow> rsm_error r \<noteq> None"
  by (auto simp: receiveRenderCookie_def receiveFd_def failure_def Let_def split: if_splits sum.splits)

lemma renderResponse_cases:
  assumes run: "renderResponse E W i render s = Some (s', r)"
    and cookie: "receiveRenderCookie W i (rr_cancelTransferId render) s = (s1, c)"
  obtains (early) "s' = s1" "answers i r" "rsm_error r \<noteq> None"
  | (refused) bytes pool' e shut where "acquireFrame (w_kernel W) (cs_framePool s1) bytes = (pool', Inl e, shut)"
      "s' = s1\<lparr>cs_framePool := pool', cs_closed := cs_closed s1 @ shut\<rparr>" "r = \<lparr>rsm_id = i, rsm_payload = RsEmpty, rsm_error = Some e\<rparr>"
  | (frame) fitted bytes pool' frame shut k where "acquireFrame (w_kernel W) (cs_framePool s1) bytes = (pool', Inr frame, shut)"
      "render_into E W i render k fitted (the (cs_document s1)) frame (s1\<lparr>cs_framePool := pool'\<rparr>) = Some (s', r)"
proof (cases c)
  case (Inl resp)
  with run cookie have "s' = s1" "r = resp" by (simp_all add: renderResponse_def)
  with Inl cookie receiveRenderCookie_error receiveRenderCookie_answers show ?thesis by (metis early)
next
  case (Inr k)
  define d where "d = the (cs_document s1)"
  show ?thesis
  proof (cases "\<not> hasOpenDocument E s1 \<or> rr_page render \<ge> eg_pageCount E d \<or> \<not> cs_fdChannel s1")
    case True
    with run cookie Inr have "s' = s1 \<and> answers i r \<and> rsm_error r \<noteq> None"
      by (auto simp: renderResponse_def Let_def d_def answers_def failure_def split: if_splits)
    with early show ?thesis by blast
  next
    case False
    with run cookie Inr obtain fitted where fit: "fitRenderRequestToFrameBudget (w_rounding W) render = Some fitted"
      by (auto simp: renderResponse_def Let_def d_def split: option.splits)
    obtain pool' f shut where acq: "acquireFrame (w_kernel W) (cs_framePool s1)
        (size_add sizeof_FrameBufferHeader (unat (fit_frameDataBytes fitted))) = (pool', f, shut)" by (metis prod_cases3)
    have res: "(case f of Inl e \<Rightarrow> Some (s1\<lparr>cs_framePool := pool', cs_closed := cs_closed s1 @ shut\<rparr>,
        \<lparr>rsm_id = i, rsm_payload = RsEmpty, rsm_error = Some e\<rparr>)
      | Inr frame \<Rightarrow> render_into E W i render k fitted d frame (s1\<lparr>cs_framePool := pool'\<rparr>)) = Some (s', r)"
      using run cookie Inr False fit acq by (simp add: renderResponse_def Let_def d_def split: sum.splits)
    show ?thesis
    proof (cases f)
      case (Inl e)
      with res acq show ?thesis by (intro refused [OF acq [unfolded Inl]]) auto
    next
      case (Inr fr)
      with res acq show ?thesis unfolding d_def by (intro frame [OF acq [unfolded Inr]]) auto
    qed
  qed
qed

lemma renderResponse_ok:
  assumes ok: "session_ok E n issued s" and n: "n < 2 ^ 64 - 3" and run: "renderResponse E W i render s = Some (s', r)"
  shows "\<exists>n' issued'. n' \<le> n + 2 \<and> issued \<subseteq> issued' \<and> session_ok E n' issued' s' \<and> fresh_lease issued issued' r"
proof -
  obtain s1 c where cookie: "receiveRenderCookie W i (rr_cancelTransferId render) s = (s1, c)" by (meson surj_pair)
  have same: "core s1 = core s" "shape E s1 = shape E s"
    using core_receiveRenderCookie [OF cookie] receiveRenderCookie_frame [OF cookie] by (simp_all add: shape_def)
  then have ok1: "session_ok E n issued s1" using ok session_ok_cong by blast
  then have pool1: "pool_run n (cs_framePool s1) None issued" by (simp add: session_ok_def base_ok_def)
  have stay: "\<exists>n' issued'. n' \<le> n + 2 \<and> issued \<subseteq> issued' \<and> session_ok E n' issued' s' \<and> fresh_lease issued issued' r"
    if "core s' = core s1" "shape E s' = shape E s1" "answers i r" "rsm_error r \<noteq> None"
    using that ok1 session_ok_cong [OF that(1,2)] by (intro exI [of _ n] exI [of _ issued]) (auto simp: fresh_lease_def answers_def)
  show ?thesis
  proof (cases rule: renderResponse_cases [OF run cookie, case_names early refused frame])
    case early
    then show ?thesis using stay by blast
  next
    case (refused bytes pool' e shut)
    then have "pool' = cs_framePool s1" using acquireFrame_Inl_pool by blast
    then have "core s' = core s1" "shape E s' = shape E s1" using refused by (simp_all add: framing shaping)
    with stay refused show ?thesis by (simp add: answers_def)
  next
    case (frame fitted bytes pool' frame shut k)
    have acq: "pool_run (Suc n) pool' (Some frame) issued" using pool_run.acquired [OF pool1 frame(1)] .
    have held: "session_ok E (Suc (Suc n)) issued (s1\<lparr>cs_framePool := pool'\<rparr>)"
      using with_pool [OF ok1 pool_run.discarded [OF acq]] by (simp add: shaping)
    have acq': "pool_run (Suc n) (cs_framePool (s1\<lparr>cs_framePool := pool'\<rparr>)) (Some frame) issued" using acq by simp
    have "Suc n < 2 ^ 64 - 2" using n by simp
    from render_into_ok [OF held acq' this frame(2)] obtain issued'
      where "issued \<subseteq> issued'" "session_ok E (Suc (Suc n)) issued' s'" "fresh_lease issued issued' r" by blast
    then show ?thesis by (intro exI [of _ "Suc (Suc n)"] exI [of _ issued']) simp
  qed
qed

section \<open>Every request keeps the session invariant\<close>

definition step_ok :: "'d Engine \<Rightarrow> nat \<Rightarrow> Lease set \<Rightarrow> 'd CommandService \<Rightarrow> bool" where
  "step_ok E n issued s' \<longleftrightarrow> (\<exists>n' issued'. n' \<le> n + 2 \<and> issued \<subseteq> issued' \<and> session_ok E n' issued' s')"

lemma step_okI: "session_ok E n' issued s' \<Longrightarrow> n' \<le> n + 2 \<Longrightarrow> step_ok E n issued s'"
  unfolding step_ok_def by blast

lemma step_ok_frame:
  "session_ok E n issued s \<Longrightarrow> core s' = core s \<Longrightarrow> shape E s' = shape E s \<Longrightarrow> step_ok E n issued s'"
  using session_ok_cong step_okI by (metis le_add1)

lemma dispatchWithFd_ok:
  assumes "session_ok E n issued s" "dispatchWithFd W i o' t h s = Some (s', r)"
    and "\<And>fd. h fd s = Some (s', r) \<Longrightarrow> step_ok E n issued s'"
  shows "step_ok E n issued s'"
  using assms by (auto simp: dispatchWithFd_def split: sum.splits intro: step_ok_frame)

lemma dispatchWithFd_fst:
  assumes "session_ok E n issued s" "dispatchWithFd W i o' t (\<lambda>fd s. Some (h fd s)) s = Some (s', r)"
    and "\<And>fd. step_ok E n issued (fst (h fd s))"
  shows "step_ok E n issued s'"
  using assms(1,2)
proof (rule dispatchWithFd_ok)
  fix fd
  assume "Some (h fd s) = Some (s', r)"
  then show "step_ok E n issued s'" using assms(3) [of fd] by simp
qed

lemma dispatch_export_ok:
  assumes "engine_shape E" "session_ok E n issued s" "dispatch_export E W i x s = Some (s', r)"
  shows "step_ok E n issued s'"
proof -
  have "\<exists>fd. s' = s \<or> s' = close_fd fd s \<or> (\<exists>out inp. s' = fst (exportResponse E W i x out inp s))"
    using assms(3) by (auto simp: dispatch_export_def split: sum.splits if_splits) (metis fst_conv)+
  then have "core s' = core s \<and> shape E s' = shape E s"
    using shape_exportResponse [OF assms(1)] by (auto simp: framing shaping)
  with assms(2) step_ok_frame show ?thesis by blast
qed

lemma handle_payload_ok:
  assumes laws: "engine_laws E" and ok: "session_ok E n issued s" and n: "n < 2 ^ 64 - 3"
    and run: "handle_payload E W i payload s = Some (s', r)"
  shows "step_ok E n issued s'"
proof -
  have es: "engine_shape E" "engine_closes E" "engine_signs E" using laws by (simp_all add: engine_laws_def)
  have same: "step_ok E n issued t" if "core t = core s" "shape E t = shape E s" for t
    using step_ok_frame [OF ok that] .
  have self: "step_ok E n issued s" using same by simp
  have quiet: "step_ok E n issued s'" if "f = (s', r)" "core (fst f) = core s" "shape E (fst f) = shape E s" for f
    using same that by simp
  show ?thesis
  proof (cases payload)
    case RqClose
    have "base_ok n issued s" using ok by (simp add: session_ok_def)
    from run RqClose closeDocument_ok [OF es(2) this, of "w_now W"] show ?thesis by (auto intro: step_okI)
  next
    case (RqOpen q)
    have each: "step_ok E n issued (fst (openRequestResponse E (w_now W) i fd q s))" for fd
      using openFdResponse_ok [OF laws ok] unfolding openRequestResponse_def by (blast intro: step_okI)
    from RqOpen run have "dispatchWithFd W i ''open'' (ft_transferId (opn_file q))
        (\<lambda>fd s. Some (openRequestResponse E (w_now W) i fd q s)) s = Some (s', r)" by simp
    then show ?thesis by (rule dispatchWithFd_fst [OF ok]) (rule each)
  next
    case (RqExport q)
    with run dispatch_export_ok [OF es(1) ok] show ?thesis by simp
  next
    case (RqSign q)
    from RqSign run have "dispatchWithFd W i ''sign'' (ft_transferId (sg_file q)) (signFdResponse E W i q) s = Some (s', r)" by simp
    then show ?thesis
    proof (rule dispatchWithFd_ok [OF ok])
      fix fd
      assume "signFdResponse E W i q fd s = Some (s', r)"
      from signFdResponse_ok [OF es(3) ok this] show "step_ok E n issued s'" by (auto intro: step_okI)
    qed
  next
    case (RqRender q)
    with run have "renderResponse E W i q s = Some (s', r)" by simp
    from renderResponse_ok [OF ok n this] show ?thesis unfolding step_ok_def by blast
  next
    case (RqReleaseFrameSlot q)
    obtain n' where "n' \<le> Suc n" "session_ok E n' issued (fst (releaseFrameSlotResponse i q s))"
      using releaseFrameSlotResponse_ok [OF ok] by blast
    with run RqReleaseFrameSlot show ?thesis by (auto intro: step_okI)
  next
    case (RqAnnotationAdd q)
    with run annotationAdd_ok [OF laws ok, of i q] show ?thesis by (auto intro: step_okI)
  next
    case (RqAnnotationRemove q)
    with run annotationRemove_ok [OF laws ok, of i q] show ?thesis by (auto intro: step_okI)
  next
    case (RqOcrPage q)
    have each: "step_ok E n issued (fst (ocrPage E W i q fd s))" for fd by (rule same) (simp_all add: framing shape_ocr)
    from RqOcrPage run have "dispatchWithFd W i ''ocr_page'' (ft_transferId (ocp_file q))
        (\<lambda>fd s. Some (ocrPage E W i q fd s)) s = Some (s', r)" by simp
    then show ?thesis by (rule dispatchWithFd_fst [OF ok]) (rule each)
  qed (use run self same in \<open>auto simp: framing shaping shape_forms [OF es(1)] shape_annotations [OF es(1)]
      shape_settings [OF es(1)] shape_ocr elim!: quiet\<close>)
qed

section \<open>Sessions\<close>

lemma shape_cancelPageLinks: "engine_shape E \<Longrightarrow> shape E (cancelPageLinks E s) = shape E s"
  by (simp add: cancelPageLinks_def shaping shape_map_document engine_shape_updates)

lemma cancelPageLinks_ok:
  assumes "engine_shape E" "session_ok E n issued s"
  shows "session_ok E n issued (cancelPageLinks E s)"
proof -
  have "shape E (cancelPageLinks E s) = shape E s" using shape_cancelPageLinks [OF assms(1)] .
  moreover have "core ((cancelPageLinks E s)\<lparr>cs_pendingPageLinks := l\<rparr>) = core (s\<lparr>cs_pendingPageLinks := l\<rparr>)" for l
    by (simp add: cancelPageLinks_def map_document_def core_def)
  ultimately have "session_ok E n issued ((cancelPageLinks E s)\<lparr>cs_pendingPageLinks := None\<rparr>)
      = session_ok E n issued (s\<lparr>cs_pendingPageLinks := None\<rparr>)"
    by (intro session_ok_cong) (simp_all add: shaping)
  with assms(2) show ?thesis by simp
qed

lemma processPageLinks_ok:
  assumes "engine_shape E" "session_ok E n issued s"
  shows "session_ok E n issued (fst (processPageLinks E s))"
  using assms cancelPageLinks_ok [OF assms(1)]
  by (simp add: processPageLinks_def Let_def split: option.split prod.split)

lemma takeDeferredIncoming_ok:
  assumes "session_ok E n issued s"
  shows "session_ok E n issued (fst (takeDeferredIncoming s))"
proof (cases "cs_deferredIncoming s")
  case Nil
  with assms show ?thesis by (simp add: takeDeferredIncoming_def)
next
  case (Cons raw rest)
  have inv: "deferred_inv s" using assms by (simp add: session_ok_def base_ok_def)
  from takeDeferredIncoming_front [OF inv Cons] have "deferred_inv (fst (takeDeferredIncoming s))" by auto
  with assms Cons show ?thesis by (simp add: takeDeferredIncoming_def ok_defs shape_def)
qed

text \<open>
  What happens to a service between its construction and its destruction: requests, turns of the link walk,
  idle trims, deferred frames being taken, and job threads moving on by themselves.
\<close>

inductive service_run :: "'d Engine \<Rightarrow> nat \<Rightarrow> 'd CommandService \<Rightarrow> bool" for E where
  start: "service_run E 0 (CommandService_init sandbox fdc ctrl dirs ocrEvent exportEvent now memory)"
| request: "service_run E k s \<Longrightarrow> dispatch E W q s = Some (s', r) \<Longrightarrow> service_run E (Suc k) s'"
| links: "service_run E k s \<Longrightarrow> service_run E (Suc k) (fst (processPageLinks E s))"
| cancel: "service_run E k s \<Longrightarrow> service_run E (Suc k) (cancelPageLinks E s)"
| trim: "service_run E k s \<Longrightarrow> service_run E (Suc k) (fst (maybeIdleTrim E now idle s))"
| deferred: "service_run E k s \<Longrightarrow> service_run E (Suc k) (fst (takeDeferredIncoming s))"
| jobs: "service_run E k s \<Longrightarrow> service_run E (Suc k) (s\<lparr>cs_ocrJobs := o', cs_exportJobs := x\<rparr>)"

lemma init_ok: "session_ok E 0 {} (CommandService_init sandbox fdc ctrl dirs ocrEvent exportEvent now memory)"
  using pool_run.start
  by (simp add: session_ok_def base_ok_def handles_ok_def deferred_inv_def CommandService_init_def charged_ok_def links_ok_def
      annots.empty_table flds.empty_table)

lemma shape_maybeIdleTrim: "engine_shape E \<Longrightarrow> shape E (fst (maybeIdleTrim E now idle s)) = shape E s"
  by (auto simp: maybeIdleTrim_def Let_def shaping engine_shape_updates split: option.split) (simp add: shape_def)

lemma service_run_ok:
  assumes laws: "engine_laws E" and es: "engine_shape E"
  shows "service_run E k s \<Longrightarrow> k < 2 ^ 62 \<Longrightarrow> \<exists>n issued. n \<le> 2 * k \<and> session_ok E n issued s"
proof (induction rule: service_run.induct)
  case (start sandbox fdc ctrl dirs ocrEvent exportEvent now memory)
  then show ?case using init_ok by (intro exI [of _ 0]) blast
next
  case (request k s W q s' r)
  then obtain n issued where n: "n \<le> 2 * k" "session_ok E n issued s" by auto
  have lt: "n < 2 ^ 64 - 3" using n(1) request.prems by simp
  have "step_ok E n issued s'"
  proof (cases "validateInboundRequest (rqm_id q) (rqm_payload q)")
    case None
    then have "handle_payload E W (rqm_id q) (rqm_payload q) s = Some (s', r)" using request.hyps(2) by (simp add: dispatch_def)
    then show ?thesis by (rule handle_payload_ok [OF laws n(2) lt])
  next
    case (Some x)
    with request.hyps(2) n(2) show ?thesis by (auto simp: dispatch_def intro: step_okI)
  qed
  then obtain n' issued' where "n' \<le> n + 2" "session_ok E n' issued' s'" unfolding step_ok_def by blast
  with n(1) show ?case by (intro exI [of _ n'] exI [of _ issued']) simp
next
  case (links k s)
  then obtain n issued where n: "n \<le> 2 * k" "session_ok E n issued s" by auto
  with processPageLinks_ok [OF es n(2)] show ?case by (intro exI [of _ n] exI [of _ issued]) simp
next
  case (cancel k s)
  then obtain n issued where n: "n \<le> 2 * k" "session_ok E n issued s" by auto
  with cancelPageLinks_ok [OF es n(2)] show ?case by (intro exI [of _ n] exI [of _ issued]) simp
next
  case (trim k s now idle)
  then obtain n issued where n: "n \<le> 2 * k" "session_ok E n issued s" by auto
  moreover have "session_ok E n issued (fst (maybeIdleTrim E now idle s))"
    using n(2) laws by (subst session_ok_cong) (simp_all add: framing shape_maybeIdleTrim engine_laws_def)
  ultimately show ?case by (intro exI [of _ n] exI [of _ issued]) simp
next
  case (deferred k s)
  then obtain n issued where n: "n \<le> 2 * k" "session_ok E n issued s" by auto
  with takeDeferredIncoming_ok [OF n(2)] show ?case by (intro exI [of _ n] exI [of _ issued]) simp
next
  case (jobs k s x o')
  then obtain n issued where n: "n \<le> 2 * k" "session_ok E n issued s" by auto
  moreover have "session_ok E n issued (s\<lparr>cs_ocrJobs := o', cs_exportJobs := x\<rparr>)"
    using n(2) by (subst session_ok_cong) (simp_all add: framing shaping)
  ultimately show ?case by (intro exI [of _ n] exI [of _ issued]) simp
qed

lemma service_state:
  assumes "engine_laws E" "service_run E k s" "k < 2 ^ 62"
  shows "deferred_inv s" "charged_ok E s" "handles_ok s" "links_ok s"
    "\<exists>n issued. n < 2 ^ 64 - 1 \<and> pool_run n (cs_framePool s) None issued"
proof -
  have "engine_shape E" using assms(1) by (simp add: engine_laws_def)
  from service_run_ok [OF assms(1) this assms(2,3)] obtain n issued where n: "n \<le> 2 * k" "session_ok E n issued s" by blast
  then show "deferred_inv s" "charged_ok E s" "handles_ok s" "links_ok s" by (simp_all add: session_ok_def base_ok_def)
  have "n < 2 ^ 64 - 1" using n(1) assms(3) by simp
  with n(2) show "\<exists>n issued. n < 2 ^ 64 - 1 \<and> pool_run n (cs_framePool s) None issued"
    by (auto simp: session_ok_def base_ok_def)
qed

text \<open>
  C1. In every state a session reaches, whatever requests, link-walk turns, idle trims and job threads interleave, the
  component invariants hold together: at most eight frame slots of at most 128 MiB whose ids are distinct, at
  most 1024 deferred frames of at most 16 MiB with an exact byte counter, link metadata within its budget, and
  annotation and form handle tables that are inverse to each other.
\<close>

theorem session_invariant:
  assumes "engine_laws E" "service_run E k s" "k < 2 ^ 62"
  shows "length (fp_slots (cs_framePool s)) \<le> 8 \<and> fp_bytes (cs_framePool s) \<le> 134217728
    \<and> fp_bytes (cs_framePool s) = sum_list (map sl_capacity (fp_slots (cs_framePool s)))
    \<and> distinct (map sl_id (fp_slots (cs_framePool s)))
    \<and> length (cs_deferredIncoming s) \<le> 1024 \<and> cs_deferredIncomingBytes s \<le> 16777216
    \<and> cs_deferredIncomingBytes s = sum_list (map length (cs_deferredIncoming s))
    \<and> cs_renderLinkBytes s \<le> MaxAggregateMetadataBytes \<and> cs_renderLinkCount s \<le> 100000
    \<and> table_inv annotation_handle_text (cs_annotationGeneration s) (cs_annotationHandles s) (cs_annotationObjectHandles s)
    \<and> table_inv form_handle_text (cs_annotationGeneration s) (cs_formFieldHandles s) (cs_formObjectHandles s)"
proof -
  obtain n issued where "n < 2 ^ 64 - 1" "pool_run n (cs_framePool s) None issued" using service_state(5) [OF assms] by blast
  then have "pool_inv (cs_framePool s)" using pool_run_inv [of n "cs_framePool s" None issued] by (simp add: session_inv_def)
  moreover note service_state(1-4) [OF assms]
  ultimately show ?thesis
    unfolding pool_inv_def deferred_inv_def handles_ok_def links_ok_def by (simp add: limits)
qed

lemma run0: "service_run engine0 0 service0"
  unfolding service0_def by (rule service_run.start)

theorem session_invariant_witness:
  "engine_laws engine0 \<and> service_run engine0 0 service0
   \<and> length (fp_slots (cs_framePool service0)) \<le> 8 \<and> length (cs_deferredIncoming service0) \<le> 1024"
  using session_invariant [OF engine0_laws run0] engine0_laws run0 by simp



text \<open>
  C3. Annotation handles name what they were issued for: the handle that a successful addition returns resolves to the
  page and object the engine created, a modification through it on another page is refused, and after a
  successful removal it resolves to nothing while every other handle resolves as before.
\<close>

theorem annotation_round_trip:
  assumes "engine_laws E" "service_run E k s" "k < 2 ^ 62"
    and "annotationAdd E i a s = (s', success i (RsAnnotation \<lparr>anr_handle = \<lparr>ah_value = h\<rparr>\<rparr>))" "h \<noteq> []"
  shows "\<exists>obj. fst (snd (snd (eg_addAnnotation E (aar_page a) (aar_annotation a) (the (cs_document s))))) = obj
      \<and> map_of (cs_annotationHandles s') h = Some \<lparr>hl_page = aar_page a, hl_objectNumber = obj\<rparr>
    \<and> (\<forall>m. ah_value (am_handle (amr_mutation m)) = h \<and> am_page (amr_mutation m) \<noteq> aar_page a
         \<longrightarrow> fst (annotationModify E j m s') = s' \<and> rsm_error (snd (annotationModify E j m s')) \<noteq> None)
    \<and> (\<forall>x s''. ah_value (arr_handle x) = h \<and> annotationRemove E j x s' = (s'', success j RsEmpty)
         \<longrightarrow> map_of (cs_annotationHandles s'') h = None
           \<and> (\<forall>h'. h' \<noteq> h \<longrightarrow> map_of (cs_annotationHandles s'') h' = map_of (cs_annotationHandles s') h'))"
proof -
  obtain d' added obj reason where add: "eg_addAnnotation E (aar_page a) (aar_annotation a) (the (cs_document s)) = (d', added, obj, reason)"
    by (metis prod_cases4)
  have handle: "annotationHandle (aar_page a) obj (s\<lparr>cs_document := Some d'\<rparr>) = (s', h)" and page: "aar_page a < eg_pageCount E (the (cs_document s))"
    using assms(4) add by (auto simp: annotationAdd_def Let_def success_def failure_def split: if_splits bool.splits prod.splits)
  have "handles_ok (s\<lparr>cs_document := Some d'\<rparr>)" using service_state(3) [OF assms(1-3)] by (simp add: handles_ok_def)
  moreover have "aar_page a < 2 ^ 31" using page assms(1) by (auto simp: engine_laws_def engine_ints_def intro: less_trans)
  moreover have "obj < 2 ^ 31" using assms(1) add unfolding engine_laws_def engine_ints_def by (metis fst_conv snd_conv)
  ultimately have found: "map_of (cs_annotationHandles s') h = Some \<lparr>hl_page = aar_page a, hl_objectNumber = obj\<rparr>"
    using annotationHandle_ok [OF _ handle] assms(5) by blast
  have "fst (annotationModify E j m s') = s' \<and> rsm_error (snd (annotationModify E j m s')) \<noteq> None"
    if "ah_value (am_handle (amr_mutation m)) = h" "am_page (amr_mutation m) \<noteq> aar_page a" for m
    using that found by (auto simp: annotationModify_def Let_def failure_def)
  moreover have "map_of (cs_annotationHandles s'') h = None
      \<and> (\<forall>h'. h' \<noteq> h \<longrightarrow> map_of (cs_annotationHandles s'') h' = map_of (cs_annotationHandles s') h')"
    if "ah_value (arr_handle x) = h" "annotationRemove E j x s' = (s'', success j RsEmpty)" for x s''
    using that found
    by (auto simp: annotationRemove_def success_def failure_def std_map split: if_splits prod.splits bool.splits)
  ultimately show ?thesis using add found by auto
qed

definition open0 :: RequestMessage where
  "open0 = \<lparr>rqm_id = 1, rqm_payload = RqOpen \<lparr>opn_file = \<lparr>ft_transferId = 5\<rparr>, opn_displayName = ''a.pdf'', opn_password = [],
     opn_documentType = DocumentType_value Doc_Pdf, opn_epubAccelerator = []\<rparr>\<rparr>"

definition doc0 :: "bool CommandService" where
  "doc0 = (case dispatch engine0 world0 open0 service0 of Some (s, r) \<Rightarrow> s | None \<Rightarrow> service0)"

lemma open0_answer:
  "\<exists>s r. dispatch engine0 world0 open0 service0 = Some (s, r) \<and> cs_document s = Some True \<and> cs_annotationHandles s = []
     \<and> cs_annotationObjectHandles s = [] \<and> cs_annotationGeneration s = 1"
proof -
  have "isValidFileTransfer \<lparr>ft_transferId = 5\<rparr> = Valid" by (simp add: isValidFileTransfer_iff)
  then have "dispatch engine0 world0 open0 service0 = Some (openFdResponse engine0 0 1 11 ''a.pdf'' [] (DocumentType_value Doc_Pdf) [] service0)"
    by (simp add: dispatch_def open0_def validateInboundRequest_def dispatchWithFd_def receiveFd_def openRequestResponse_def
        world0_def service0_def CommandService_init_def)
  moreover have "cs_document (fst (openFdResponse engine0 0 1 11 ''a.pdf'' [] (DocumentType_value Doc_Pdf) [] service0)) = Some True
      \<and> cs_annotationHandles (fst (openFdResponse engine0 0 1 11 ''a.pdf'' [] (DocumentType_value Doc_Pdf) [] service0)) = []
      \<and> cs_annotationObjectHandles (fst (openFdResponse engine0 0 1 11 ''a.pdf'' [] (DocumentType_value Doc_Pdf) [] service0)) = []
      \<and> cs_annotationGeneration (fst (openFdResponse engine0 0 1 11 ''a.pdf'' [] (DocumentType_value Doc_Pdf) [] service0)) = 1"
    by (simp add: openFdResponse_def openFd_def closeDocument_def map_document_def createDocument_def engine0_def page0_def
        service0_def CommandService_init_def Let_def limits)
  ultimately show ?thesis by (metis prod.collapse)
qed

lemma doc0:
  "service_run engine0 1 doc0" "cs_document doc0 = Some True" "cs_annotationHandles doc0 = []"
  "cs_annotationObjectHandles doc0 = []" "cs_annotationGeneration doc0 = 1"
proof -
  obtain s r where s: "dispatch engine0 world0 open0 service0 = Some (s, r)" "cs_document s = Some True" "cs_annotationHandles s = []"
    "cs_annotationObjectHandles s = []" "cs_annotationGeneration s = 1" using open0_answer by blast
  then have "doc0 = s" by (simp add: doc0_def)
  with s service_run.request [OF run0 s(1)] show "service_run engine0 1 doc0" "cs_document doc0 = Some True"
    "cs_annotationHandles doc0 = []" "cs_annotationObjectHandles doc0 = []" "cs_annotationGeneration doc0 = 1" by simp_all
qed

definition square0 :: AnnotationAddRequest where
  "square0 = \<lparr>aar_page = 0, aar_annotation = \<lparr>an_subtype = AT_Square, an_uuid = [], an_x0 = Fin 0, an_y0 = Fin 0, an_x1 = Fin 1, an_y1 = Fin 1,
     an_contents = [], an_author = [], an_creationDate = \<lparr>ts_valid = False, ts_unixMilliseconds = 0\<rparr>, an_modificationDate = \<lparr>ts_valid = False, ts_unixMilliseconds = 0\<rparr>,
     an_color = 0, an_flags = 0,
     an_extras = \<lparr>ax_points = [], ax_quads = [], ax_inkPaths = [], ax_callout = [],
       ax_style = \<lparr>as_appearance = None, as_borderWidth = None, as_interiorColor = None, as_intent = None,
         as_firstLineEnding = None, as_lastLineEnding = None, as_closed = None\<rparr>,
       ax_caretSymbolP = False, ax_extension = [], ax_stampImage = None\<rparr>,
     an_nativeIndex = 0, an_pdfObjectNumber = 0, an_handle = []\<rparr>\<rparr>"

theorem annotation_round_trip_witness:
  "\<exists>s' h. annotationAdd engine0 2 square0 doc0 = (s', success 2 (RsAnnotation \<lparr>anr_handle = \<lparr>ah_value = h\<rparr>\<rparr>)) \<and> h = ''g1-p0-o7''
     \<and> map_of (cs_annotationHandles s') h = Some \<lparr>hl_page = 0, hl_objectNumber = 7\<rparr>"
proof -
  define h where "h = ''g1-p0-o7''"
  have "decimal 1 = ''1''" "decimal 0 = ''0''" "decimal 7 = ''7''" by code_simp+
  then have "annotation_handle_text 1 0 7 = h" by (simp add: annotation_handle_text_def decimal_int_def h_def)
  then obtain s' where add: "annotationAdd engine0 2 square0 doc0 = (s', success 2 (RsAnnotation \<lparr>anr_handle = \<lparr>ah_value = h\<rparr>\<rparr>))"
    by (simp add: annotationAdd_def hasOpenDocument_def doc0 engine0_def square0_def annotationHandle_def Let_def limits)
  have "h \<noteq> []" by (simp add: h_def)
  from annotation_round_trip [OF engine0_laws doc0(1) _ add this] have
    "map_of (cs_annotationHandles s') h = Some \<lparr>hl_page = aar_page square0, hl_objectNumber =
       fst (snd (snd (eg_addAnnotation engine0 (aar_page square0) (aar_annotation square0) (the (cs_document doc0)))))\<rparr>" by auto
  with add show ?thesis unfolding h_def by (simp add: engine0_def square0_def)
qed

text \<open>
  C4. Handles do not outlive their document: a handle of any other open than the current one is unknown, so that
  modifying or removing through it, or updating a form through it, changes nothing and is answered with an error.
\<close>

theorem stale_handles_refused:
  assumes "engine_laws E" "service_run E k s" "k < 2 ^ 62" "g \<noteq> cs_annotationGeneration s" "i32_object page obj"
    and "ah_value (am_handle (amr_mutation m)) = annotation_handle_text g page obj"
    and "ah_value (arr_handle x) = annotation_handle_text g page obj" "fu_handle u = form_handle_text g page obj"
  shows "fst (annotationModify E i m s) = s \<and> rsm_error (snd (annotationModify E i m s)) \<noteq> None
    \<and> fst (annotationRemove E i x s) = s \<and> rsm_error (snd (annotationRemove E i x s)) \<noteq> None
    \<and> fst (formUpdate E i u s) = s \<and> rsm_error (snd (formUpdate E i u s)) \<noteq> None"
proof -
  have "handles_ok s" using service_state(3) [OF assms(1-3)] .
  then have "map_of (cs_annotationHandles s) (annotation_handle_text g page obj) = None"
    "map_of (cs_formFieldHandles s) (form_handle_text g page obj) = None"
    using annots.stale flds.stale assms(4,5) unfolding handles_ok_def by blast+
  with assms(6-8) show ?thesis
    by (simp add: annotationModify_def annotationRemove_def formUpdate_def Let_def failure_def)
qed

theorem stale_handles_refused_witness:
  "fst (annotationRemove engine0 3 \<lparr>arr_page = 0, arr_handle = \<lparr>ah_value = annotation_handle_text 0 0 7\<rparr>\<rparr> doc0) = doc0"
proof -
  have "i32_object 0 7" "(0 :: u64) \<noteq> cs_annotationGeneration doc0" using doc0 by (simp_all add: i32_object_def)
  from stale_handles_refused [OF engine0_laws doc0(1) _ this(2,1), of
      "\<lparr>amr_mutation = \<lparr>am_page = 0, am_handle = \<lparr>ah_value = annotation_handle_text 0 0 7\<rparr>, am_annotation = aar_annotation square0,
         am_appearanceChanged = False\<rparr>\<rparr>" "\<lparr>arr_page = 0, arr_handle = \<lparr>ah_value = annotation_handle_text 0 0 7\<rparr>\<rparr>"
      "\<lparr>fu_handle = form_handle_text 0 0 7, fu_value = FormTextValue []\<rparr>"]
  show ?thesis by simp
qed

text \<open>
  C5. Closing a document and opening the next are boundaries that nothing of the old document crosses: no frame lease, no
  annotation or form handle, no password, no pending link walk and no OCR job, result or notification is left, the
  descriptors of the frame pool are closed, and an open document after the boundary has a new handle generation.
\<close>

theorem document_boundary:
  assumes "engine_closes E" "s' = closeDocument E now s \<or> openFd E now fd name type acc s = (s', True, reason)"
  shows "outstanding (cs_framePool s') = {} \<and> fp_slots (cs_framePool s') = []
    \<and> cs_closed s' = cs_closed s @ filter (\<lambda>fd. fd \<ge> 0) (map sl_fd (fp_slots (cs_framePool s)))
    \<and> cs_annotationHandles s' = [] \<and> cs_annotationObjectHandles s' = [] \<and> cs_formFieldHandles s' = [] \<and> cs_formObjectHandles s' = []
    \<and> cs_documentPassword s' = [] \<and> cs_pendingPageLinks s' = None
    \<and> os_activeJobs (cs_ocrJobs s') = [] \<and> os_completedResults (cs_ocrJobs s') = [] \<and> os_notifications (cs_ocrJobs s') = []
    \<and> (\<not> hasOpenDocument E s' \<or> cs_annotationGeneration s' = cs_annotationGeneration s + 1)"
  using assms(2)
proof
  assume s': "s' = closeDocument E now s"
  have "\<not> hasOpenDocument E s'"
    using assms(1) by (simp add: s' hasOpenDocument_def closeDocument_def map_document_def engine_closes_def split: option.split)
  then show ?thesis by (simp add: s' closeDocument_def map_document_def cancelAll_def clearFrames_def outstanding_def)
next
  assume "openFd E now fd name type acc s = (s', True, reason)"
  then obtain d where s': "s' = (closeDocument E now s)\<lparr>cs_annotationGeneration := cs_annotationGeneration (closeDocument E now s) + 1,
      cs_document := Some d\<rparr>"
    by (auto simp: openFd_def Let_def split: if_splits option.splits prod.splits bool.splits)
  then show ?thesis by (simp add: closeDocument_def map_document_def cancelAll_def clearFrames_def outstanding_def)
qed

theorem document_boundary_witness:
  "engine_closes engine0 \<and> outstanding (cs_framePool (closeDocument engine0 5 doc0)) = {}
   \<and> cs_documentPassword (closeDocument engine0 5 doc0) = []"
proof -
  have "engine_closes engine0" using engine0_laws by (simp add: engine_laws_def)
  from this document_boundary [OF this, of "closeDocument engine0 5 doc0" 5 doc0] show ?thesis by blast
qed

end
