(* ===== verification/Ctrl_Channel.thy ===== *)
theory Ctrl_Channel
  imports Mu_Limits
begin

unbundle bit_operations_syntax

text \<open>
  The framed control channel (\<^verbatim>\<open>src/shared/transport/ctrl_channel.hpp\<close>, \<^verbatim>\<open>ctrl_channel.cpp\<close>, and \<open>waitForFd\<close> of
  \<^verbatim>\<open>poll.cpp\<close>): frame lengths on the wire, the incremental frame parser, exact transfers and the writer. The
  kernel's side of the socket is explicit: what is pending, whether the peer has closed, and how many bytes
  each call hands out. Listening and connecting are not modelled.
\<close>

section \<open>State\<close>

datatype IoResult = IO_Complete | IO_Timeout | IO_PeerClosed | IO_Invalid | IO_Error

datatype ReadStatus = RS_NoData | RS_Partial | RS_Complete | RS_Closed | RS_Error

record CtrlChannel =
  cc_fd :: int
  cc_rxBuffer :: "u8 list"
  cc_rxFrameLength :: "u32 option"
  cc_rxPeerClosed :: bool

definition CtrlChannel_new :: "int \<Rightarrow> CtrlChannel" where
  "CtrlChannel_new fd = \<lparr>cc_fd = fd, cc_rxBuffer = [], cc_rxFrameLength = None, cc_rxPeerClosed = False\<rparr>"

definition valid_channel :: "CtrlChannel \<Rightarrow> bool" where
  "valid_channel ch \<longleftrightarrow> cc_fd ch \<ge> 0"

text \<open>Moving out of a channel leaves it without a descriptor and without receive state.\<close>

definition move_channel :: "CtrlChannel \<Rightarrow> CtrlChannel \<times> CtrlChannel" where
  "move_channel other = (other, CtrlChannel_new (- 1))"

definition close_channel :: "CtrlChannel \<Rightarrow> CtrlChannel" where
  "close_channel ch = ch\<lparr>cc_fd := - 1, cc_rxBuffer := [], cc_rxFrameLength := None, cc_rxPeerClosed := False\<rparr>"

section \<open>Peers\<close>

definition verifyPeer :: "nat \<Rightarrow> (string + nat \<times> int) \<Rightarrow> int \<Rightarrow> string option" where
  "verifyPeer euid credentials expectedPeerPid =
     (case credentials of
        Inl why \<Rightarrow> Some why
      | Inr (uid, pid) \<Rightarrow>
        if uid \<noteq> euid \<or> (expectedPeerPid \<ge> 0 \<and> pid \<noteq> expectedPeerPid)
        then Some ''control socket peer identity did not match the expected process'' else None)"

text \<open>
  Accepting: per iteration what the wait returned and what \<open>accept4\<close> gave, a failure (\<open>None\<close> for an error that
  is retried) or a descriptor with the credentials of its peer. The last component lists the descriptors of
  rejected peers, which are closed. \<open>None\<close> means that the events ended before the loop returned.
\<close>

fun accept_channel :: "nat \<Rightarrow> int \<Rightarrow> (IoResult \<times> (string option + int \<times> (string + nat \<times> int))) list \<Rightarrow> int list \<Rightarrow>
  (IoResult \<times> CtrlChannel \<times> int list) option" where
  "accept_channel euid expectedPeerPid [] rejected = None"
| "accept_channel euid expectedPeerPid ((waitResult, answer) # events) rejected =
     (if waitResult \<noteq> IO_Complete then Some (waitResult, CtrlChannel_new (- 1), rejected)
      else case answer of
        Inr (fd, credentials) \<Rightarrow>
          if verifyPeer euid credentials expectedPeerPid \<noteq> None
          then accept_channel euid expectedPeerPid events (rejected @ [fd])
          else Some (IO_Complete, CtrlChannel_new fd, rejected)
      | Inl None \<Rightarrow> accept_channel euid expectedPeerPid events rejected
      | Inl (Some why) \<Rightarrow> Some (IO_Error, CtrlChannel_new (- 1), rejected))"

section \<open>Waiting\<close>

text \<open>
  \<open>waitForFd\<close> once \<open>poll\<close> has returned something other than an interruption: a failure, nothing before the
  deadline, or the flags (requested event, \<open>POLLNVAL\<close>, \<open>POLLERR\<close>).
\<close>

datatype WaitAnswer = WaitFailed string | WaitNothing | WaitFlags bool bool bool

fun waitForFd :: "int \<Rightarrow> WaitAnswer \<Rightarrow> IoResult \<times> string" where
  "waitForFd fd answer =
     (if fd < 0 then (IO_Invalid, ''descriptor is invalid or not connected'')
      else case answer of
        WaitNothing \<Rightarrow> (IO_Timeout, ''operation timed out'')
      | WaitFailed why \<Rightarrow> (IO_Error, why)
      | WaitFlags requested nval err \<Rightarrow>
        if requested then (IO_Complete, [])
        else if nval then (IO_Invalid, ''descriptor is invalid'')
        else if err then (IO_Error, ''descriptor reported an I/O error'')
        else (IO_PeerClosed, ''peer disconnected''))"

section \<open>Frame lengths\<close>

definition FrameReadChunkBytes :: nat where
  [limits]: "FrameReadChunkBytes = 64 * 1024"

definition encodeFrameLength :: "nat \<Rightarrow> u8 list" where
  "encodeFrameLength n =
     [of_nat (drop_bit 24 n AND 255), of_nat (drop_bit 16 n AND 255), of_nat (drop_bit 8 n AND 255), of_nat (n AND 255)]"

definition decodeFrameLength :: "u8 list \<Rightarrow> string + u32" where
  "decodeFrameLength header =
     (if length header \<noteq> 4 then Inl ''control frame header is invalid''
      else
        let n = push_bit 24 (ucast (header ! 0)) OR push_bit 16 (ucast (header ! 1)) OR push_bit 8 (ucast (header ! 2))
                OR ucast (header ! 3)
        in if n = 0 \<or> unat n > MaxControlMessageBytes then Inl ''control frame has an invalid length'' else Inr n)"

section \<open>Reading\<close>

text \<open>
  The parser takes at most one frame from the buffer. \<open>A n\<close> is what allocating \<open>n\<close> bytes throws, if
  anything. The result is the status with the payload and the error text.
\<close>

definition consume_payload :: "(nat \<Rightarrow> string option) \<Rightarrow> bool \<Rightarrow> u32 \<Rightarrow> CtrlChannel \<Rightarrow> CtrlChannel \<times> ReadStatus \<times> u8 list \<times> string" where
  "consume_payload A peerClosed n ch =
     (if length (cc_rxBuffer ch) < unat n
      then if peerClosed then (close_channel ch, RS_Closed, [], ''control socket closed during a frame'')
           else (ch, RS_Partial, [], [])
      else if length (cc_rxBuffer ch) = unat n
      then (ch\<lparr>cc_rxBuffer := [], cc_rxFrameLength := None\<rparr>, RS_Complete, cc_rxBuffer ch, [])
      else case A (unat n) of
        Some what \<Rightarrow> (close_channel ch, RS_Error, [], ''control frame allocation failed: '' @ what)
      | None \<Rightarrow> (ch\<lparr>cc_rxBuffer := drop (unat n) (cc_rxBuffer ch), cc_rxFrameLength := None\<rparr>, RS_Complete,
                 take (unat n) (cc_rxBuffer ch), []))"

definition consumeBufferedFrame :: "(nat \<Rightarrow> string option) \<Rightarrow> bool \<Rightarrow> CtrlChannel \<Rightarrow> CtrlChannel \<times> ReadStatus \<times> u8 list \<times> string" where
  "consumeBufferedFrame A peerClosed ch =
     (case cc_rxFrameLength ch of
        Some n \<Rightarrow> consume_payload A peerClosed n ch
      | None \<Rightarrow>
        if length (cc_rxBuffer ch) < 4
        then if peerClosed then (close_channel ch, RS_Closed, [], ''control socket closed during a frame'')
             else (ch, if cc_rxBuffer ch = [] then RS_NoData else RS_Partial, [], [])
        else case decodeFrameLength (take 4 (cc_rxBuffer ch)) of
          Inl reason \<Rightarrow> (close_channel ch, RS_Error, [], reason)
        | Inr n \<Rightarrow>
          (case A (unat n) of
             Some what \<Rightarrow> (close_channel ch, RS_Error, [], ''control frame allocation failed: '' @ what)
           | None \<Rightarrow> consume_payload A peerClosed n (ch\<lparr>cc_rxBuffer := drop 4 (cc_rxBuffer ch), cc_rxFrameLength := Some n\<rparr>)))"

text \<open>
  The kernel's receive side: the bytes that wait, whether the peer has closed behind them or the socket has
  failed, and for the coming calls how many bytes each hands out at most, \<open>0\<close> for a call that a signal
  interrupts.
\<close>

record Socket =
  sk_pending :: "u8 list"
  sk_eof :: bool
  sk_failure :: "string option"
  sk_chunks :: "nat list"

datatype RecvResult = RecvData "u8 list" | RecvEof | RecvIntr | RecvAgain | RecvError string

definition recv :: "nat \<Rightarrow> Socket \<Rightarrow> RecvResult \<times> Socket" where
  "recv n sk =
     (if n = 0 then (RecvEof, sk)
      else if sk_chunks sk \<noteq> [] \<and> hd (sk_chunks sk) = 0 then (RecvIntr, sk\<lparr>sk_chunks := tl (sk_chunks sk)\<rparr>)
      else if sk_pending sk \<noteq> []
      then (let k = (if sk_chunks sk = [] then n else min n (hd (sk_chunks sk)))
            in (RecvData (take k (sk_pending sk)), sk\<lparr>sk_pending := drop k (sk_pending sk), sk_chunks := tl (sk_chunks sk)\<rparr>))
      else case sk_failure sk of
        Some why \<Rightarrow> (RecvError why, sk)
      | None \<Rightarrow> if sk_eof sk then (RecvEof, sk) else (RecvAgain, sk))"

lemma recv_data_shorter:
  "recv n sk = (RecvData bs, sk') \<Longrightarrow> length (sk_pending sk') < length (sk_pending sk) \<and> length (sk_chunks sk') \<le> length (sk_chunks sk)"
  by (auto simp: recv_def Let_def split: if_splits option.splits)

lemma recv_intr_shorter:
  "recv n sk = (RecvIntr, sk') \<Longrightarrow> sk_pending sk' = sk_pending sk \<and> length (sk_chunks sk') < length (sk_chunks sk)"
  by (auto simp: recv_def Let_def split: if_splits option.splits)

definition required_bytes :: "CtrlChannel \<Rightarrow> nat" where
  "required_bytes ch = (case cc_rxFrameLength ch of
     Some n \<Rightarrow> size_sub (unat n) (length (cc_rxBuffer ch)) | None \<Rightarrow> size_sub 4 (length (cc_rxBuffer ch)))"

function receiveFrameBytes :: "(nat \<Rightarrow> string option) \<Rightarrow> Socket \<Rightarrow> CtrlChannel \<Rightarrow>
  CtrlChannel \<times> Socket \<times> ReadStatus \<times> u8 list \<times> string" where
  "receiveFrameBytes A sk ch =
     (case recv (min FrameReadChunkBytes (required_bytes ch)) sk of
        (RecvData bs, sk') \<Rightarrow>
          (case A (length (cc_rxBuffer ch) + length bs) of
             Some what \<Rightarrow> (close_channel ch, sk', RS_Error, [], ''control frame allocation failed: '' @ what)
           | None \<Rightarrow>
             (case consumeBufferedFrame A False (ch\<lparr>cc_rxBuffer := cc_rxBuffer ch @ bs\<rparr>) of
                (ch1, RS_Complete, payload, e) \<Rightarrow> (ch1\<lparr>cc_rxPeerClosed := False\<rparr>, sk', RS_Complete, payload, e)
              | (ch1, RS_Closed, payload, e) \<Rightarrow> (ch1, sk', RS_Closed, payload, e)
              | (ch1, RS_Error, payload, e) \<Rightarrow> (ch1, sk', RS_Error, payload, e)
              | (ch1, RS_NoData, payload, e) \<Rightarrow> receiveFrameBytes A sk' ch1
              | (ch1, RS_Partial, payload, e) \<Rightarrow> receiveFrameBytes A sk' ch1))
      | (RecvEof, sk') \<Rightarrow>
          (case consumeBufferedFrame A True (ch\<lparr>cc_rxPeerClosed := True\<rparr>) of (ch1, r) \<Rightarrow> (ch1, sk', r))
      | (RecvIntr, sk') \<Rightarrow> receiveFrameBytes A sk' ch
      | (RecvAgain, sk') \<Rightarrow>
          (case consumeBufferedFrame A (cc_rxPeerClosed ch) ch of (ch1, r) \<Rightarrow> (ch1, sk', r))
      | (RecvError why, sk') \<Rightarrow> (close_channel ch, sk', RS_Error, [], why))"
  by pat_completeness auto

termination
  by (relation "measure (\<lambda>(A, sk, ch). length (sk_pending sk) + length (sk_chunks sk))")
    (auto dest!: sym [of _ "recv _ _"] recv_data_shorter recv_intr_shorter)

declare receiveFrameBytes.simps [simp del]

text \<open>The probe before reading: \<open>poll\<close> is interrupted, fails, finds nothing, or reports the flags \<open>POLLIN\<close>,
  \<open>POLLERR\<close>, \<open>POLLHUP\<close> and \<open>POLLNVAL\<close>.\<close>

datatype PollAnswer = PollIntr | PollFailed string | PollNone | PollReady bool bool bool bool

definition tryReadFrame :: "(nat \<Rightarrow> string option) \<Rightarrow> PollAnswer \<Rightarrow> Socket \<Rightarrow> CtrlChannel \<Rightarrow>
  CtrlChannel \<times> Socket \<times> ReadStatus \<times> u8 list \<times> string" where
  "tryReadFrame A probe sk ch =
     (if cc_fd ch < 0 then (ch, sk, RS_Error, [], ''control socket is not connected'')
      else case consumeBufferedFrame A (cc_rxPeerClosed ch) ch of
        (ch1, buffered, payload, e) \<Rightarrow>
        if buffered = RS_Complete \<or> buffered = RS_Closed \<or> buffered = RS_Error then (ch1, sk, buffered, payload, e)
        else case probe of
          PollIntr \<Rightarrow> (ch1, sk, RS_NoData, [], e)
        | PollFailed why \<Rightarrow> (close_channel ch1, sk, RS_Error, [], why)
        | PollNone \<Rightarrow> (ch1, sk, buffered, [], e)
        | PollReady readable err hup nval \<Rightarrow>
          if nval then (close_channel ch1, sk, RS_Error, [], ''control socket descriptor is invalid'')
          else if err \<and> \<not> readable then (close_channel ch1, sk, RS_Error, [], ''control socket reported an I/O error'')
          else receiveFrameBytes A sk (if hup then ch1\<lparr>cc_rxPeerClosed := True\<rparr> else ch1))"

text \<open>
  One turn of \<open>readFrame\<close>: bytes that arrive before it, whether the peer closes, the probe, whether the deadline has
  expired after the attempt, and what the wait then returns. \<open>None\<close> means that the turns ended first.
\<close>

record ReadTurn =
  tn_arrived :: "u8 list"
  tn_eof :: bool
  tn_chunks :: "nat list"
  tn_probe :: PollAnswer
  tn_expired :: bool
  tn_wait :: WaitAnswer

definition arrive :: "ReadTurn \<Rightarrow> Socket \<Rightarrow> Socket" where
  "arrive t sk = sk\<lparr>sk_pending := sk_pending sk @ tn_arrived t, sk_eof := sk_eof sk \<or> tn_eof t, sk_chunks := tn_chunks t\<rparr>"

fun readFrame :: "(nat \<Rightarrow> string option) \<Rightarrow> ReadTurn list \<Rightarrow> Socket \<Rightarrow> CtrlChannel \<Rightarrow>
  (CtrlChannel \<times> Socket \<times> bool \<times> u8 list \<times> string) option" where
  "readFrame A [] sk ch = None"
| "readFrame A (t # ts) sk ch =
     (case tryReadFrame A (tn_probe t) (arrive t sk) ch of
        (ch1, sk1, status, payload, e) \<Rightarrow>
        if status = RS_Complete then Some (ch1, sk1, True, payload, e)
        else if status = RS_Closed \<or> status = RS_Error then Some (ch1, sk1, False, payload, e)
        else if tn_expired t
        then Some (if status = RS_Partial then close_channel ch1 else ch1, sk1, False, payload, ''control socket operation timed out'')
        else (case waitForFd (cc_fd ch1) (tn_wait t) of
                (IO_Complete, _) \<Rightarrow> readFrame A ts sk1 ch1
              | (_, why) \<Rightarrow> Some (if status = RS_Partial then close_channel ch1 else ch1, sk1, False, payload, why)))"

section \<open>Writing\<close>

text \<open>What one \<open>send\<close> does with the rest of the bytes: take at most that many, be interrupted, block (with the
  deadline expired or not) or fail.\<close>

datatype SendAnswer = SendUpTo nat | SendIntr | SendAgain bool | SendError string

fun transferExact :: "int \<Rightarrow> (WaitAnswer \<times> SendAnswer) list \<Rightarrow> u8 list \<Rightarrow> nat \<Rightarrow> nat \<Rightarrow>
  (IoResult \<times> nat \<times> string \<times> (WaitAnswer \<times> SendAnswer) list) option" where
  "transferExact fd events bytes offset transferred =
     (if offset \<ge> length bytes then Some (IO_Complete, transferred, [], events)
      else case events of
        [] \<Rightarrow> None
      | (answer, sent) # rest \<Rightarrow>
        (case waitForFd fd answer of
           (readiness, why) \<Rightarrow>
           if readiness \<noteq> IO_Complete then Some (readiness, transferred, why, rest)
           else case sent of
             SendUpTo k \<Rightarrow>
               (let count = min k (length bytes - offset) in
                if count = 0 then Some (IO_PeerClosed, transferred, ''control socket peer disconnected'', rest)
                else transferExact fd rest bytes (offset + count) (transferred + count))
           | SendIntr \<Rightarrow> transferExact fd rest bytes offset transferred
           | SendAgain expired \<Rightarrow>
               if expired then Some (IO_Timeout, transferred, ''control socket operation timed out'', rest)
               else transferExact fd rest bytes offset transferred
           | SendError reason \<Rightarrow> Some (IO_Error, transferred, reason, rest)))"

declare transferExact.simps [simp del]

text \<open>The result lists the bytes that reached the stream, header included.\<close>

definition writeFrame :: "(WaitAnswer \<times> SendAnswer) list \<Rightarrow> u8 list \<Rightarrow> CtrlChannel \<Rightarrow>
  (CtrlChannel \<times> bool \<times> u8 list \<times> string) option" where
  "writeFrame events payload ch =
     (if payload = [] \<or> length payload > MaxControlMessageBytes
      then Some (ch, False, [], ''control frame is empty or too large'')
      else
        let header = encodeFrameLength (length payload) in
        case transferExact (cc_fd ch) events header 0 0 of
          None \<Rightarrow> None
        | Some (headerResult, transferred, why, rest) \<Rightarrow>
          if headerResult \<noteq> IO_Complete
          then Some (if headerResult \<noteq> IO_Timeout \<or> transferred > 0 then close_channel ch else ch, False, take transferred header, why)
          else
            (case transferExact (cc_fd ch) rest payload 0 transferred of
               None \<Rightarrow> None
             | Some (result, transferred', why', _) \<Rightarrow>
               if result \<noteq> IO_Complete
               then Some (close_channel ch, False, header @ take (transferred' - transferred) payload, why')
               else Some (ch, True, header @ payload, [])))"

section \<open>Lemmas\<close>

definition frame_ok_size :: "u8 list \<Rightarrow> bool" where
  "frame_ok_size f \<longleftrightarrow> f \<noteq> [] \<and> length f \<le> MaxControlMessageBytes"

definition frame_bytes :: "u8 list \<Rightarrow> u8 list" where
  "frame_bytes f = encodeFrameLength (length f) @ f"

lemma length_encodeFrameLength [simp]: "length (encodeFrameLength n) = 4"
  by (simp add: encodeFrameLength_def)

lemma assemble_length:
  assumes "n < 2 ^ 32"
  shows "push_bit 24 (ucast (of_nat (drop_bit 24 n AND 255) :: u8)) OR push_bit 16 (ucast (of_nat (drop_bit 16 n AND 255) :: u8))
     OR push_bit 8 (ucast (of_nat (drop_bit 8 n AND 255) :: u8)) OR ucast (of_nat (n AND 255) :: u8) = (of_nat n :: u32)"
proof (rule bit_word_eqI)
  fix k
  assume "k < LENGTH(32)"
  then consider "k < 8" | "8 \<le> k" "k < 16" | "16 \<le> k" "k < 24" | "24 \<le> k" "k < 32" by fastforce
  note split4 = this
  have m: "bit (255 :: nat) i \<longleftrightarrow> i < 8" for i
  proof -
    have "(255 :: nat) = mask 8" by (simp add: mask_eq_exp_minus_1)
    then show ?thesis by (simp only: bit_mask_iff possible_bit_nat simp_thms)
  qed
  show "bit (push_bit 24 (ucast (of_nat (drop_bit 24 n AND 255) :: u8)) OR push_bit 16 (ucast (of_nat (drop_bit 16 n AND 255) :: u8))
     OR push_bit 8 (ucast (of_nat (drop_bit 8 n AND 255) :: u8)) OR ucast (of_nat (n AND 255) :: u8) :: u32) k = bit (of_nat n :: u32) k"
    using split4 by cases (auto simp: bit_simps m)
qed

lemma decode_encode:
  assumes "0 < n" "n \<le> MaxControlMessageBytes"
  shows "decodeFrameLength (encodeFrameLength n) = Inr (of_nat n)"
proof -
  have n: "n < 2 ^ 32" using assms(2) by (simp add: limits)
  then have "unat (of_nat n :: u32) = n" by (simp add: unsigned_of_nat take_bit_nat_eq_self_iff)
  moreover from this assms(1) have "(of_nat n :: u32) \<noteq> 0" by auto
  moreover have "encodeFrameLength n ! 0 = of_nat (drop_bit 24 n AND 255)" "encodeFrameLength n ! 1 = of_nat (drop_bit 16 n AND 255)"
    "encodeFrameLength n ! 2 = of_nat (drop_bit 8 n AND 255)" "encodeFrameLength n ! 3 = of_nat (n AND 255)"
    by (simp_all add: encodeFrameLength_def)
  ultimately show ?thesis
    using assms unfolding decodeFrameLength_def by (simp only: assemble_length [OF n] length_encodeFrameLength Let_def) simp
qed

text \<open>
  The bytes of the current frame that the channel has taken from the stream, and its invariant: it never reads
  beyond the header or the frame it is in.
\<close>

definition taken :: "CtrlChannel \<Rightarrow> u8 list" where
  "taken ch = (case cc_rxFrameLength ch of None \<Rightarrow> cc_rxBuffer ch | Some n \<Rightarrow> encodeFrameLength (unat n) @ cc_rxBuffer ch)"

definition rx_inv :: "CtrlChannel \<Rightarrow> bool" where
  "rx_inv ch \<longleftrightarrow> (case cc_rxFrameLength ch of None \<Rightarrow> length (cc_rxBuffer ch) < 4
     | Some n \<Rightarrow> length (cc_rxBuffer ch) < unat n \<and> unat n \<le> MaxControlMessageBytes)"

lemma prefix_take: "a @ x = b @ y \<Longrightarrow> length a \<le> length b \<Longrightarrow> a = take (length a) b"
  by (metis append_eq_append_conv_if)

text \<open>The header of the frame at the front of the stream tells its length.\<close>

lemma header_value:
  assumes "frame_ok_size f" "length buf = 4" "buf @ x = frame_bytes f @ later"
  shows "decodeFrameLength buf = Inr (of_nat (length f)) \<and> unat (of_nat (length f) :: u32) = length f"
proof -
  have "buf = encodeFrameLength (length f)" using assms(2,3) by (simp add: frame_bytes_def append_eq_append_conv)
  moreover have "0 < length f" "length f \<le> MaxControlMessageBytes" using assms(1) by (simp_all add: frame_ok_size_def)
  moreover from this(2) have "unat (of_nat (length f) :: u32) = length f"
    by (simp add: unsigned_of_nat take_bit_nat_eq_self_iff limits)
  ultimately show ?thesis using decode_encode by simp
qed

lemma same_length:
  fixes n :: u32
  assumes f: "frame_ok_size f" and n: "unat n \<le> MaxControlMessageBytes" "0 < unat n"
    and eq: "encodeFrameLength (unat n) @ x = frame_bytes f @ later"
  shows "unat n = length f"
proof -
  have "encodeFrameLength (unat n) = encodeFrameLength (length f)" using eq by (simp add: frame_bytes_def)
  then have "(of_nat (unat n) :: u32) = of_nat (length f)"
    using decode_encode [OF n(2,1)] decode_encode [of "length f"] f by (auto simp: frame_ok_size_def)
  moreover have "unat (of_nat (length f) :: u32) = length f"
    using f by (simp add: unsigned_of_nat take_bit_nat_eq_self_iff limits frame_ok_size_def)
  ultimately show ?thesis by simp
qed

text \<open>
  The parser on a buffer that does not reach beyond its frame: it hands out the frame exactly when all its
  bytes are there, and otherwise keeps what it has.
\<close>

lemma consume_spec:
  assumes A: "A = (\<lambda>_. None)" and f: "frame_ok_size f" and eq: "taken ch @ x = frame_bytes f @ later"
    and le: "case cc_rxFrameLength ch of None \<Rightarrow> length (cc_rxBuffer ch) \<le> 4
      | Some n \<Rightarrow> length (cc_rxBuffer ch) \<le> unat n \<and> 0 < unat n \<and> unat n \<le> MaxControlMessageBytes"
  shows "if length (taken ch) < length (frame_bytes f)
    then (\<exists>ch' st. consumeBufferedFrame A False ch = (ch', st, [], []) \<and> (st = RS_NoData \<or> st = RS_Partial)
            \<and> rx_inv ch' \<and> taken ch' = taken ch \<and> cc_fd ch' = cc_fd ch \<and> cc_rxPeerClosed ch' = cc_rxPeerClosed ch)
    else consumeBufferedFrame A p ch = (ch\<lparr>cc_rxBuffer := [], cc_rxFrameLength := None\<rparr>, RS_Complete, f, []) \<and> x = later"
proof (cases "cc_rxFrameLength ch")
  case (Some n)
  with le have n: "length (cc_rxBuffer ch) \<le> unat n" "0 < unat n" "unat n \<le> MaxControlMessageBytes" by simp_all
  have t: "taken ch = encodeFrameLength (unat n) @ cc_rxBuffer ch" using Some by (simp add: taken_def)
  have len: "unat n = length f" using same_length [OF f n(3,2)] eq t by simp
  then have rest: "cc_rxBuffer ch @ x = f @ later" using eq t by (simp add: frame_bytes_def)
  show ?thesis
  proof (cases "length (cc_rxBuffer ch) < unat n")
    case True
    then have "length (taken ch) < length (frame_bytes f)" using t len by (simp add: frame_bytes_def)
    moreover have "consumeBufferedFrame A False ch = (ch, RS_Partial, [], [])"
      using True Some by (simp add: consumeBufferedFrame_def consume_payload_def)
    moreover have "rx_inv ch" using True Some n by (simp add: rx_inv_def)
    ultimately show ?thesis by simp
  next
    case False
    then have full: "length (cc_rxBuffer ch) = length f" using n(1) len by simp
    then have "cc_rxBuffer ch = f \<and> x = later" using rest by simp
    moreover have "\<not> length (taken ch) < length (frame_bytes f)" using full t by (simp add: frame_bytes_def)
    ultimately show ?thesis using Some full len by (simp add: consumeBufferedFrame_def consume_payload_def)
  qed
next
  case None
  with le have b: "length (cc_rxBuffer ch) \<le> 4" by simp
  have t: "taken ch = cc_rxBuffer ch" using None by (simp add: taken_def)
  have short: "length (taken ch) < length (frame_bytes f)" using b t f by (cases f) (simp_all add: frame_bytes_def frame_ok_size_def)
  show ?thesis
  proof (cases "length (cc_rxBuffer ch) < 4")
    case True
    then have "consumeBufferedFrame A False ch = (ch, if cc_rxBuffer ch = [] then RS_NoData else RS_Partial, [], [])"
      using None by (simp add: consumeBufferedFrame_def)
    moreover have "rx_inv ch" using True None by (simp add: rx_inv_def)
    ultimately show ?thesis using short by simp
  next
    case False
    then have four: "length (cc_rxBuffer ch) = 4" using b by simp
    define n where "n = (of_nat (length f) :: u32)"
    have hv: "decodeFrameLength (cc_rxBuffer ch) = Inr n" "unat n = length f"
      using header_value [OF f four] eq t unfolding n_def by simp_all
    define ch' where "ch' = ch\<lparr>cc_rxBuffer := [], cc_rxFrameLength := Some n\<rparr>"
    have pos: "0 < unat n" "unat n \<le> MaxControlMessageBytes" using hv(2) f by (simp_all add: frame_ok_size_def)
    have "consumeBufferedFrame A False ch = (ch', RS_Partial, [], [])"
      using None four hv(1) pos by (simp add: consumeBufferedFrame_def consume_payload_def A ch'_def)
    moreover have "rx_inv ch'" using pos by (simp add: rx_inv_def ch'_def)
    moreover have "taken ch' = taken ch"
      using eq t four hv(2) by (simp add: taken_def ch'_def None frame_bytes_def append_eq_append_conv)
    ultimately show ?thesis using short by (simp add: ch'_def)
  qed
qed

lemma consume_idle:
  "rx_inv ch \<Longrightarrow> \<exists>st. consumeBufferedFrame A False ch = (ch, st, [], []) \<and> (st = RS_NoData \<or> st = RS_Partial)"
  by (auto simp: rx_inv_def consumeBufferedFrame_def consume_payload_def split: option.splits)

lemma consume_closed:
  "rx_inv ch \<Longrightarrow> consumeBufferedFrame A True ch = (close_channel ch, RS_Closed, [], ''control socket closed during a frame'')"
  by (auto simp: rx_inv_def consumeBufferedFrame_def consume_payload_def split: option.splits)

lemma rx_inv_peerClosed [simp]: "rx_inv (ch\<lparr>cc_rxPeerClosed := b\<rparr>) = rx_inv ch" "taken (ch\<lparr>cc_rxPeerClosed := b\<rparr>) = taken ch"
  "close_channel (ch\<lparr>cc_rxPeerClosed := b\<rparr>) = close_channel ch"
  by (simp_all add: rx_inv_def taken_def close_channel_def split: option.split)

lemma required_pos: "rx_inv ch \<Longrightarrow> 0 < required_bytes ch"
  by (auto simp: rx_inv_def required_bytes_def split: option.splits)

lemma taken_append: "taken (ch\<lparr>cc_rxBuffer := cc_rxBuffer ch @ bs\<rparr>) = taken ch @ bs"
  by (simp add: taken_def split: option.split)

lemma within_required:
  "rx_inv ch \<Longrightarrow> length bs \<le> required_bytes ch \<Longrightarrow>
     (case cc_rxFrameLength (ch\<lparr>cc_rxBuffer := cc_rxBuffer ch @ bs\<rparr>) of
        None \<Rightarrow> length (cc_rxBuffer (ch\<lparr>cc_rxBuffer := cc_rxBuffer ch @ bs\<rparr>)) \<le> 4
      | Some n \<Rightarrow> length (cc_rxBuffer (ch\<lparr>cc_rxBuffer := cc_rxBuffer ch @ bs\<rparr>)) \<le> unat n \<and> 0 < unat n \<and> unat n \<le> MaxControlMessageBytes)"
  by (auto simp: rx_inv_def required_bytes_def split: option.splits)

lemma recv_cases:
  assumes "0 < n" "sk_failure sk = None"
  obtains (data) bs sk' where "recv n sk = (RecvData bs, sk')" "sk_pending sk = bs @ sk_pending sk'" "0 < length bs" "length bs \<le> n"
      "sk_failure sk' = None" "sk_eof sk' = sk_eof sk"
  | (intr) sk' where "recv n sk = (RecvIntr, sk')" "sk_pending sk' = sk_pending sk" "sk_failure sk' = None" "sk_eof sk' = sk_eof sk"
  | (eof) "recv n sk = (RecvEof, sk)" "sk_pending sk = []" "sk_eof sk"
  | (again) "recv n sk = (RecvAgain, sk)" "sk_pending sk = []" "\<not> sk_eof sk"
proof (cases "sk_chunks sk \<noteq> [] \<and> hd (sk_chunks sk) = 0")
  case True
  with assms show ?thesis by (intro intr [of "sk\<lparr>sk_chunks := tl (sk_chunks sk)\<rparr>"]) (simp_all add: recv_def)
next
  case awake: False
  show ?thesis
  proof (cases "sk_pending sk = []")
    case True
    with awake assms eof again show ?thesis by (cases "sk_eof sk") (auto simp: recv_def)
  next
    case False
    define k where "k = (if sk_chunks sk = [] then n else min n (hd (sk_chunks sk)))"
    have k: "0 < k" "k \<le> n" using awake assms(1) by (auto simp: k_def)
    have "recv n sk = (RecvData (take k (sk_pending sk)), sk\<lparr>sk_pending := drop k (sk_pending sk), sk_chunks := tl (sk_chunks sk)\<rparr>)"
      using awake False assms(1) unfolding k_def recv_def Let_def by auto
    with k False assms(2) show ?thesis
      by (intro data [of "take k (sk_pending sk)" "sk\<lparr>sk_pending := drop k (sk_pending sk), sk_chunks := tl (sk_chunks sk)\<rparr>"]) auto
  qed
qed

text \<open>What a reading pass achieves on a stream whose next frame is \<open>f\<close>; \<open>future\<close> are bytes that have not arrived yet.\<close>

definition pass_ok :: "u8 list \<Rightarrow> u8 list \<Rightarrow> u8 list \<Rightarrow> Socket \<Rightarrow> CtrlChannel \<Rightarrow> CtrlChannel \<times> Socket \<times> ReadStatus \<times> u8 list \<times> string \<Rightarrow> bool" where
  "pass_ok f later future sk ch result \<longleftrightarrow> (case result of (ch', sk', st, payload, e) \<Rightarrow>
     sk_failure sk' = None \<and> sk_eof sk' = sk_eof sk
     \<and> (if length (taken ch @ sk_pending sk) \<ge> length (frame_bytes f)
        then st = RS_Complete \<and> payload = f \<and> ch' = ch\<lparr>cc_rxBuffer := [], cc_rxFrameLength := None, cc_rxPeerClosed := False\<rparr>
          \<and> sk_pending sk' @ future = later
        else payload = []
          \<and> (((st = RS_NoData \<or> st = RS_Partial) \<and> rx_inv ch' \<and> taken ch' @ sk_pending sk' = taken ch @ sk_pending sk
               \<and> cc_fd ch' = cc_fd ch \<and> \<not> cc_rxPeerClosed ch \<and> \<not> cc_rxPeerClosed ch')
             \<or> (st = RS_Closed \<and> cc_fd ch' = - 1 \<and> (sk_eof sk \<or> cc_rxPeerClosed ch)))))"

lemma receive_spec:
  assumes A: "A = (\<lambda>_. None)" and f: "frame_ok_size f"
  shows "rx_inv ch \<Longrightarrow> sk_failure sk = None \<Longrightarrow> taken ch @ sk_pending sk @ future = frame_bytes f @ later \<Longrightarrow>
    length (taken ch) < length (frame_bytes f) \<Longrightarrow>
    pass_ok f later future sk ch (receiveFrameBytes A sk ch)"
proof (induction "length (sk_pending sk) + length (sk_chunks sk)" arbitrary: sk ch rule: less_induct)
  case less
  define n where "n = min FrameReadChunkBytes (required_bytes ch)"
  have n: "0 < n" "n \<le> required_bytes ch" using required_pos [OF less.prems(1)] by (simp_all add: n_def limits)
  note unfold = receiveFrameBytes.simps [of A sk ch, folded n_def]
  from n(1) less.prems(2) show ?case
  proof (cases rule: recv_cases)
    case (data bs sk')
    define ch1 where "ch1 = ch\<lparr>cc_rxBuffer := cc_rxBuffer ch @ bs\<rparr>"
    have t1: "taken ch1 = taken ch @ bs" by (simp add: ch1_def taken_append)
    have smaller: "length (sk_pending sk') + length (sk_chunks sk') < length (sk_pending sk) + length (sk_chunks sk)"
      using recv_data_shorter [OF data(1)] by simp
    have eq1: "taken ch1 @ sk_pending sk' @ future = frame_bytes f @ later" using less.prems(3) data(2) t1 by simp
    have le1: "case cc_rxFrameLength ch1 of None \<Rightarrow> length (cc_rxBuffer ch1) \<le> 4
        | Some n \<Rightarrow> length (cc_rxBuffer ch1) \<le> unat n \<and> 0 < unat n \<and> unat n \<le> MaxControlMessageBytes"
      using within_required [OF less.prems(1), of bs] data(4) n(2) unfolding ch1_def by linarith
    note spec = consume_spec [OF A f eq1 le1]
    show ?thesis
    proof (cases "length (taken ch1) < length (frame_bytes f)")
      case True
      with spec obtain ch2 st where c: "consumeBufferedFrame A False ch1 = (ch2, st, [], [])" "st = RS_NoData \<or> st = RS_Partial"
        "rx_inv ch2" "taken ch2 = taken ch1" "cc_fd ch2 = cc_fd ch1" "cc_rxPeerClosed ch2 = cc_rxPeerClosed ch1" by auto
      have "receiveFrameBytes A sk ch = receiveFrameBytes A sk' ch2"
        using c(1,2) data(1) unfold by (auto simp: A ch1_def)
      moreover have "pass_ok f later future sk' ch2 (receiveFrameBytes A sk' ch2)"
        using less.hyps [OF smaller c(3) data(5)] eq1 c(4) True by simp
      moreover have "pass_ok f later future sk' ch2 r \<Longrightarrow> pass_ok f later future sk ch r" for r
        using c(4-6) t1 data(2,6) unfolding pass_ok_def ch1_def by (auto split: if_splits)
      ultimately show ?thesis by simp
    next
      case False
      with spec have c: "consumeBufferedFrame A False ch1 = (ch1\<lparr>cc_rxBuffer := [], cc_rxFrameLength := None\<rparr>, RS_Complete, f, [])"
        "sk_pending sk' @ future = later" by simp_all
      have "receiveFrameBytes A sk ch = (ch\<lparr>cc_rxBuffer := [], cc_rxFrameLength := None, cc_rxPeerClosed := False\<rparr>, sk', RS_Complete, f, [])"
        using c(1) data(1) unfold by (simp add: A ch1_def)
      then show ?thesis using False t1 data(2,5,6) c(2) by (simp add: pass_ok_def)
    qed
  next
    case (intr sk')
    have smaller: "length (sk_pending sk') + length (sk_chunks sk') < length (sk_pending sk) + length (sk_chunks sk)"
      using recv_intr_shorter [OF intr(1)] by simp
    have "receiveFrameBytes A sk ch = receiveFrameBytes A sk' ch" using intr(1) unfold by simp
    moreover have "pass_ok f later future sk' ch (receiveFrameBytes A sk' ch)"
      using less.hyps [OF smaller less.prems(1) intr(3)] intr(2) less.prems(3,4) by simp
    moreover have "pass_ok f later future sk' ch r = pass_ok f later future sk ch r" for r
      unfolding pass_ok_def intr(2,4) ..
    ultimately show ?thesis by simp
  next
    case eof
    have "receiveFrameBytes A sk ch = (close_channel ch, sk, RS_Closed, [], ''control socket closed during a frame'')"
      using eof(1) unfold consume_closed [of "ch\<lparr>cc_rxPeerClosed := True\<rparr>" A] less.prems(1) by simp
    then show ?thesis using eof less.prems(2,4) by (simp add: pass_ok_def close_channel_def)
  next
    case again
    show ?thesis
    proof (cases "cc_rxPeerClosed ch")
      case True
      then have "receiveFrameBytes A sk ch = (close_channel ch, sk, RS_Closed, [], ''control socket closed during a frame'')"
        using again(1) unfold consume_closed [OF less.prems(1), of A] by simp
      then show ?thesis using True again less.prems(2,4) by (simp add: pass_ok_def close_channel_def)
    next
      case False
      from consume_idle [OF less.prems(1)] obtain st where "consumeBufferedFrame A False ch = (ch, st, [], [])" "st = RS_NoData \<or> st = RS_Partial" by blast
      then have "receiveFrameBytes A sk ch = (ch, sk, st, [], []) \<and> (st = RS_NoData \<or> st = RS_Partial)"
        using False again(1) unfold by simp
      then show ?thesis using False again less.prems(1,2,4) by (auto simp: pass_ok_def)
    qed
  qed
qed

lemma taken_short:
  assumes "rx_inv ch" "frame_ok_size f" "taken ch @ x = frame_bytes f @ later"
  shows "length (taken ch) < length (frame_bytes f)"
proof (cases "cc_rxFrameLength ch")
  case None
  then show ?thesis using assms(1) by (simp add: rx_inv_def taken_def frame_bytes_def)
next
  case (Some n)
  then have n: "length (cc_rxBuffer ch) < unat n" "unat n \<le> MaxControlMessageBytes" using assms(1) by (simp_all add: rx_inv_def)
  moreover have "0 < unat n" using n(1) by simp
  ultimately have "unat n = length f"
    using same_length [OF assms(2) n(2)] assms(3) Some by (simp add: taken_def)
  then show ?thesis using n Some by (simp add: taken_def frame_bytes_def)
qed

text \<open>A probe that reports no failure of the descriptor.\<close>

fun benign :: "PollAnswer \<Rightarrow> bool" where
  "benign PollIntr = True"
| "benign PollNone = True"
| "benign (PollFailed why) = False"
| "benign (PollReady readable err hup nval) = (\<not> nval \<and> (err \<longrightarrow> readable))"

lemma try_spec:
  assumes A: "A = (\<lambda>_. None)" and f: "frame_ok_size f" and inv: "rx_inv ch" "cc_fd ch \<ge> 0" "\<not> cc_rxPeerClosed ch"
    and sk: "sk_failure sk = None" and eq: "taken ch @ sk_pending sk @ future = frame_bytes f @ later" and probe: "benign probe"
  obtains (frame) ch' sk' e where "tryReadFrame A probe sk ch = (ch', sk', RS_Complete, f, e)" "sk_failure sk' = None" "rx_inv ch'"
      "taken ch' = []" "cc_fd ch' = cc_fd ch" "\<not> cc_rxPeerClosed ch'" "sk_pending sk' @ future = later"
      "length (taken ch @ sk_pending sk) \<ge> length (frame_bytes f)" "sk_eof sk' = sk_eof sk"
  | (wait) ch' sk' st p e where "tryReadFrame A probe sk ch = (ch', sk', st, p, e)" "st = RS_NoData \<or> st = RS_Partial" "sk_failure sk' = None"
      "rx_inv ch'" "cc_fd ch' = cc_fd ch" "\<not> cc_rxPeerClosed ch'" "taken ch' @ sk_pending sk' = taken ch @ sk_pending sk"
      "(\<exists>a b c. probe = PollReady a b c False) \<Longrightarrow> length (taken ch @ sk_pending sk) < length (frame_bytes f)" "sk_eof sk' = sk_eof sk"
  | (shut) ch' sk' p e where "tryReadFrame A probe sk ch = (ch', sk', RS_Closed, p, e)" "sk_eof sk \<or> (\<exists>a b. probe = PollReady a b True False)"
proof -
  from consume_idle [OF inv(1), of A] obtain st0 where idle: "consumeBufferedFrame A False ch = (ch, st0, [], [])"
    "st0 = RS_NoData \<or> st0 = RS_Partial" by blast
  show ?thesis
  proof (cases probe)
    case PollIntr
    then show ?thesis using wait [of ch sk RS_NoData "[]" "[]"] idle inv sk by (auto simp: tryReadFrame_def)
  next
    case PollNone
    then show ?thesis using wait [of ch sk st0 "[]" "[]"] idle inv sk by (auto simp: tryReadFrame_def)
  next
    case (PollFailed why)
    with probe show ?thesis by simp
  next
    case (PollReady readable err hup nval)
    define ch1 where "ch1 = (if hup then ch\<lparr>cc_rxPeerClosed := True\<rparr> else ch)"
    have ch1: "rx_inv ch1" "taken ch1 = taken ch" "cc_fd ch1 = cc_fd ch" "cc_rxPeerClosed ch1 = hup"
      using inv by (simp_all add: ch1_def)
    have run: "tryReadFrame A probe sk ch = receiveFrameBytes A sk ch1"
      using PollReady probe idle inv by (auto simp: tryReadFrame_def ch1_def)
    obtain ch' sk' st p e where res: "receiveFrameBytes A sk ch1 = (ch', sk', st, p, e)" by (metis prod_cases5)
    have "length (taken ch1) < length (frame_bytes f)" using taken_short [OF inv(1) f] eq ch1(2) by simp
    with receive_spec [OF A f ch1(1) sk, of future later] eq ch1(2) res
    have pass: "pass_ok f later future sk ch1 (ch', sk', st, p, e)" by simp
    show ?thesis
    proof (cases "length (taken ch @ sk_pending sk) \<ge> length (frame_bytes f)")
      case True
      with pass ch1 res run show ?thesis
        by (intro frame [of ch' sk' e]) (auto simp: pass_ok_def rx_inv_def taken_def)
    next
      case False
      then consider "(st = RS_NoData \<or> st = RS_Partial) \<and> rx_inv ch' \<and> taken ch' @ sk_pending sk' = taken ch @ sk_pending sk
          \<and> cc_fd ch' = cc_fd ch \<and> \<not> cc_rxPeerClosed ch'" | "st = RS_Closed \<and> (sk_eof sk \<or> hup)"
        using pass ch1 by (auto simp: pass_ok_def)
      then show ?thesis
      proof cases
        case 1
        moreover have "sk_failure sk' = None" "sk_eof sk' = sk_eof sk" using pass by (simp_all add: pass_ok_def)
        ultimately show ?thesis using False res run by (intro wait [of ch' sk' st p e]) auto
      next
        case 2
        moreover have "\<not> nval" using probe PollReady by simp
        ultimately show ?thesis using res run PollReady by (intro shut [of ch' sk' p e]) auto
      qed
    qed
  qed
qed

section \<open>Streams of frames\<close>

text \<open>
  A reader that polls the channel: what it hands out over a sequence of turns, as the worker's loop reads requests and the
  host's bridge reads responses. It stops when the channel reports that the peer has closed or an error.
\<close>

fun pump :: "(nat \<Rightarrow> string option) \<Rightarrow> ReadTurn list \<Rightarrow> Socket \<Rightarrow> CtrlChannel \<Rightarrow> u8 list list" where
  "pump A [] sk ch = []"
| "pump A (t # ts) sk ch =
     (case tryReadFrame A (tn_probe t) (arrive t sk) ch of
        (ch1, sk1, status, payload, e) \<Rightarrow>
        if status = RS_Closed \<or> status = RS_Error then []
        else if status = RS_Complete then payload # pump A ts sk1 ch1
        else pump A ts sk1 ch1)"

text \<open>
  The channel is within a stream of the frames \<open>fs\<close>: what it has taken of the current frame, what waits in the socket
  and what is still to come are the bytes of these frames.
\<close>

definition in_stream :: "u8 list list \<Rightarrow> u8 list \<Rightarrow> CtrlChannel \<Rightarrow> Socket \<Rightarrow> bool" where
  "in_stream fs future ch sk \<longleftrightarrow> rx_inv ch \<and> cc_fd ch \<ge> 0 \<and> \<not> cc_rxPeerClosed ch \<and> sk_failure sk = None
     \<and> list_all frame_ok_size fs \<and> taken ch @ sk_pending sk @ future = concat (map frame_bytes fs)"

fun probe_ready :: "PollAnswer \<Rightarrow> bool" where
  "probe_ready (PollReady readable err hup nval) = (\<not> hup)"
| "probe_ready answer = False"

fun probe_hup :: "PollAnswer \<Rightarrow> bool" where
  "probe_hup (PollReady readable err hup nval) = hup"
| "probe_hup answer = False"

lemma stream_step:
  assumes A: "A = (\<lambda>_. None)" and s: "in_stream fs (tn_arrived t @ future) ch sk" and probe: "benign (tn_probe t)"
  obtains (frame) ch' sk' f fs' e where "tryReadFrame A (tn_probe t) (arrive t sk) ch = (ch', sk', RS_Complete, f, e)" "fs = f # fs'"
      "in_stream fs' future ch' sk'" "sk_eof sk' = sk_eof (arrive t sk)"
  | (wait) ch' sk' st p e where "tryReadFrame A (tn_probe t) (arrive t sk) ch = (ch', sk', st, p, e)" "st = RS_NoData \<or> st = RS_Partial"
      "in_stream fs future ch' sk'" "sk_eof sk' = sk_eof (arrive t sk)" "probe_ready (tn_probe t) \<Longrightarrow> future = [] \<Longrightarrow> fs = []"
  | (shut) ch' sk' p e where "tryReadFrame A (tn_probe t) (arrive t sk) ch = (ch', sk', RS_Closed, p, e)"
      "sk_eof (arrive t sk) \<or> probe_hup (tn_probe t)"
proof -
  define sk1 where "sk1 = arrive t sk"
  have inv: "rx_inv ch" "cc_fd ch \<ge> 0" "\<not> cc_rxPeerClosed ch" and ok: "list_all frame_ok_size fs" using s by (simp_all add: in_stream_def)
  have sk1: "sk_failure sk1 = None" using s by (simp add: sk1_def arrive_def in_stream_def)
  have all: "taken ch @ sk_pending sk1 @ future = concat (map frame_bytes fs)" using s by (simp add: sk1_def arrive_def in_stream_def)
  define f where "f = (case fs of [] \<Rightarrow> [0] | g # _ \<Rightarrow> g)"
  define extra where "extra = (if fs = [] then frame_bytes [0] else [])"
  define later where "later = concat (map frame_bytes (tl fs))"
  have f: "frame_ok_size f" using ok by (cases fs) (simp_all add: f_def frame_ok_size_def limits)
  have eq: "taken ch @ sk_pending sk1 @ (future @ extra) = frame_bytes f @ later"
    using all by (cases fs) (simp_all add: f_def extra_def later_def)
  show ?thesis
  proof (rule try_spec [OF A f inv sk1 eq probe])
    fix ch' sk' e
    assume r: "tryReadFrame A (tn_probe t) sk1 ch = (ch', sk', RS_Complete, f, e)" "sk_failure sk' = None" "rx_inv ch'"
      "taken ch' = []" "cc_fd ch' = cc_fd ch" "\<not> cc_rxPeerClosed ch'" "sk_pending sk' @ future @ extra = later"
      "length (frame_bytes f) \<le> length (taken ch @ sk_pending sk1)" "sk_eof sk' = sk_eof sk1"
    have "fs \<noteq> []" using r(8) all by (auto simp: frame_bytes_def)
    then have "fs = f # tl fs" "extra = []" by (cases fs; simp add: f_def extra_def)+
    moreover from this r ok inv have "in_stream (tl fs) future ch' sk'" by (cases fs) (simp_all add: in_stream_def later_def)
    ultimately show ?thesis using r(1,9) frame unfolding sk1_def by blast
  next
    fix ch' sk' st p e
    assume r: "tryReadFrame A (tn_probe t) sk1 ch = (ch', sk', st, p, e)" "st = RS_NoData \<or> st = RS_Partial" "sk_failure sk' = None"
      "rx_inv ch'" "cc_fd ch' = cc_fd ch" "\<not> cc_rxPeerClosed ch'" "taken ch' @ sk_pending sk' = taken ch @ sk_pending sk1"
      "\<exists>a b c. tn_probe t = PollReady a b c False \<Longrightarrow> length (taken ch @ sk_pending sk1) < length (frame_bytes f)"
      "sk_eof sk' = sk_eof sk1"
    have "in_stream fs future ch' sk'" using r inv ok all by (simp add: in_stream_def) (metis append.assoc)
    moreover have "fs = []" if p: "probe_ready (tn_probe t)" and "future = []"
    proof (rule ccontr)
      assume "fs \<noteq> []"
      then have "frame_bytes f @ later = taken ch @ sk_pending sk1" using eq that by (simp add: extra_def)
      moreover from p probe have "\<exists>a b c. tn_probe t = PollReady a b c False" by (cases "tn_probe t") auto
      ultimately show False using r(8) by (metis length_append not_add_less1)
    qed
    ultimately show ?thesis using r(1,2,9) wait unfolding sk1_def by blast
  next
    fix ch' sk' p e
    assume "tryReadFrame A (tn_probe t) sk1 ch = (ch', sk', RS_Closed, p, e)" "sk_eof sk1 \<or> (\<exists>a b. tn_probe t = PollReady a b True False)"
    then show ?thesis using shut unfolding sk1_def by (metis probe_hup.simps(1))
  qed
qed

lemma pump_prefix:
  assumes A: "A = (\<lambda>_. None)"
  shows "list_all (\<lambda>t. benign (tn_probe t)) ts \<Longrightarrow> in_stream fs (concat (map tn_arrived ts) @ future) ch sk \<Longrightarrow> \<exists>rest. fs = pump A ts sk ch @ rest"
proof (induction ts arbitrary: ch sk fs)
  case (Cons t ts)
  from Cons.prems have s: "in_stream fs (tn_arrived t @ (concat (map tn_arrived ts) @ future)) ch sk"
    and probe: "benign (tn_probe t)" "list_all (\<lambda>t. benign (tn_probe t)) ts" by simp_all
  from A s probe(1) show ?case
  proof (cases rule: stream_step)
    case (frame ch' sk' f fs' e)
    with Cons.IH [OF probe(2) frame(3)] show ?thesis by simp
  next
    case (wait ch' sk' st p e)
    with Cons.IH [OF probe(2) wait(3)] show ?thesis by auto
  next
    case (shut ch' sk' p e)
    then show ?thesis by simp
  qed
qed simp

text \<open>Once everything has arrived, as many ready turns as there are frames left deliver them all.\<close>

definition turn_open :: "ReadTurn \<Rightarrow> bool" where
  "turn_open t \<longleftrightarrow> benign (tn_probe t) \<and> \<not> probe_hup (tn_probe t) \<and> \<not> tn_eof t"

lemma pump_complete:
  assumes A: "A = (\<lambda>_. None)" and ready: "list_all (\<lambda>t. probe_ready (tn_probe t) \<and> tn_arrived t = []) late"
  shows "list_all turn_open (early @ late) \<Longrightarrow> in_stream fs (concat (map tn_arrived early)) ch sk \<Longrightarrow> \<not> sk_eof sk \<Longrightarrow>
    length fs \<le> length late \<Longrightarrow> pump A (early @ late) sk ch = fs"
  using ready
proof (induction "early @ late" arbitrary: early late fs ch sk)
  case Nil
  then show ?case by simp
next
  case (Cons t ts)
  obtain early' late' where split: "ts = early' @ late'" "length fs \<le> length late' \<or> (early = [] \<and> length fs \<le> Suc (length late'))"
      "concat (map tn_arrived early) = tn_arrived t @ concat (map tn_arrived early')"
      "list_all (\<lambda>t. probe_ready (tn_probe t) \<and> tn_arrived t = []) late'" "early = [] \<Longrightarrow> early' = [] \<and> probe_ready (tn_probe t)"
  proof (cases early)
    case Nil
    then show ?thesis using that [of "[]" ts] Cons.hyps(2) Cons.prems(4,5) by (cases late) auto
  next
    case (Cons u us)
    then show ?thesis using that [of us late] Cons.hyps(2) Cons.prems(4,5) by auto
  qed
  have s: "in_stream fs (tn_arrived t @ concat (map tn_arrived early')) ch sk" using Cons.prems(2) split(3) by simp
  have t: "turn_open t" "list_all turn_open (early' @ late')" using Cons.prems(1) unfolding Cons.hyps(2) [symmetric] split(1) by simp_all
  then have t': "benign (tn_probe t)" "\<not> probe_hup (tn_probe t)" "\<not> sk_eof (arrive t sk)"
    using Cons.prems(3) by (simp_all add: turn_open_def arrive_def)
  have pump: "pump A (early @ late) sk ch = pump A (t # ts) sk ch" using Cons.hyps(2) by simp
  from A s t'(1) show ?case
  proof (cases rule: stream_step)
    case (frame ch' sk' f fs' e)
    have "pump A (early' @ late') sk' ch' = fs'"
      using Cons.hyps(1) [OF split(1) t(2) frame(3)] frame(2,4) t'(3) split(2,4) by auto
    then show ?thesis using pump frame(1,2) split(1) by simp
  next
    case (wait ch' sk' st p e)
    have "length fs \<le> length late'" using split(2,5) wait(5) by auto
    then have "pump A (early' @ late') sk' ch' = fs"
      using Cons.hyps(1) [OF split(1) t(2) wait(3)] wait(4) t'(3) split(4) by simp
    then show ?thesis using pump wait(1,2) split(1) by auto
  next
    case (shut ch' sk' p e)
    with t' show ?thesis by simp
  qed
qed

section \<open>Writing a frame\<close>

lemma transfer_send:
  assumes "offset < length bytes" "waitForFd fd answer = (IO_Complete, reason)" "count = min k (length bytes - offset)" "0 < count"
  shows "transferExact fd ((answer, SendUpTo k) # events) bytes offset sent = transferExact fd events bytes (offset + count) (sent + count)"
  using assms(1,2,4) unfolding transferExact.simps [of fd "(answer, SendUpTo k) # events"] Let_def
  by (simp del: waitForFd.simps flip: assms(3))

lemma transfer_counts:
  "transferExact fd events bytes offset sent = Some (result, sent', why, rest) \<Longrightarrow> offset \<le> length bytes \<Longrightarrow>
     sent \<le> sent' \<and> (if result = IO_Complete then sent' = sent + (length bytes - offset) else sent' - sent < length bytes - offset)"
proof (induction fd events bytes offset sent rule: transferExact.induct)
  case (1 fd events bytes offset sent)
  show ?case
  proof (cases "offset \<ge> length bytes")
    case True
    then show ?thesis using 1(4,5) by (simp add: transferExact.simps)
  next
    case False
    from 1(4) False obtain answer act events' where ev: "events = (answer, act) # events'"
      by (cases events) (auto simp: transferExact.simps)
    obtain readiness reason where w: "waitForFd fd answer = (readiness, reason)" by fastforce
    note step = 1(4) [unfolded ev, simplified transferExact.simps [of fd "(answer, act) # events'"]]
    show ?thesis
    proof (cases "readiness = IO_Complete")
      case stop: False
      then show ?thesis using step False w by auto
    next
      case True
      note IH = 1(1-3) [OF False ev refl w [symmetric]]
      show ?thesis
      proof (cases act)
        case (SendUpTo k)
        define count where "count = min k (length bytes - offset)"
        show ?thesis
        proof (cases "count = 0")
          case True
          then show ?thesis using step False w \<open>readiness = IO_Complete\<close> SendUpTo by (auto simp: Let_def count_def)
        next
          case more: False
          then have "transferExact fd events' bytes (offset + count) (sent + count) = Some (result, sent', why, rest)"
            using 1(4) transfer_send [of offset bytes fd answer reason count k events' sent] False w True ev SendUpTo by (simp del: waitForFd.simps add: count_def)
          moreover have "offset + count \<le> length bytes" using False by (simp add: count_def)
          ultimately have "sent + count \<le> sent' \<and> (if result = IO_Complete then sent' = (sent + count) + (length bytes - (offset + count))
              else sent' - (sent + count) < length bytes - (offset + count))"
            using IH(1) [OF _ SendUpTo refl] more True unfolding count_def by simp
          then show ?thesis using False more by (auto simp: count_def split: if_splits)
        qed
      next
        case SendIntr
        then show ?thesis using IH(2) step False w True 1(5) by simp
      next
        case (SendAgain expired)
        then show ?thesis using IH(3) step False w True 1(5) by (cases expired) auto
      next
        case (SendError reason')
        then show ?thesis using step False w True by auto
      qed
    qed
  qed
qed

definition sending :: "WaitAnswer \<times> SendAnswer \<Rightarrow> bool" where
  "sending event \<longleftrightarrow> (\<exists>nval err k. event = (WaitFlags True nval err, SendUpTo k) \<and> 0 < k)"

lemma sending_replicate: "0 < k \<Longrightarrow> list_all sending (replicate n (WaitFlags True nval err, SendUpTo k))"
  by (induction n) (auto simp: sending_def)

text \<open>A peer that keeps taking at least one byte per call receives everything.\<close>

lemma transfer_progress:
  "fd \<ge> 0 \<Longrightarrow> list_all sending events \<Longrightarrow> offset \<le> length bytes \<Longrightarrow> length bytes - offset + reserve \<le> length events \<Longrightarrow>
     \<exists>rest. transferExact fd events bytes offset sent = Some (IO_Complete, sent + (length bytes - offset), [], rest)
       \<and> list_all sending rest \<and> reserve \<le> length rest"
proof (induction events arbitrary: offset sent)
  case Nil
  then show ?case by (simp add: transferExact.simps)
next
  case (Cons event events)
  show ?case
  proof (cases "offset \<ge> length bytes")
    case True
    then show ?thesis using Cons.prems by (simp add: transferExact.simps)
  next
    case False
    from Cons.prems(2) obtain nval err k where ev: "event = (WaitFlags True nval err, SendUpTo k)" "0 < k" by (auto simp: sending_def)
    define count where "count = min k (length bytes - offset)"
    have c: "0 < count" "offset + count \<le> length bytes" using ev(2) False by (auto simp: count_def)
    have step: "transferExact fd (event # events) bytes offset sent = transferExact fd events bytes (offset + count) (sent + count)"
      using transfer_send [of offset bytes fd _ "[]" count k] False ev Cons.prems(1) c(1) by (simp add: count_def)
    show ?thesis
      using Cons.IH [of "offset + count" "sent + count"] Cons.prems c unfolding step by (simp add: algebra_simps)
  qed
qed

lemma write_outcomes:
  assumes "writeFrame events f ch = Some (ch', ok, sent, why)"
  shows "(ok \<and> frame_ok_size f \<and> sent = frame_bytes f \<and> ch' = ch)
    \<or> (\<not> ok \<and> sent = [] \<and> ch' = ch)
    \<or> (\<not> ok \<and> ch' = close_channel ch \<and> (\<exists>n < length (frame_bytes f). sent = take n (frame_bytes f)))"
proof (cases "frame_ok_size f")
  case False
  then show ?thesis using assms by (auto simp: writeFrame_def frame_ok_size_def)
next
  case True
  define header where "header = encodeFrameLength (length f)"
  have guard: "\<not> (f = [] \<or> length f > MaxControlMessageBytes)" using True by (auto simp: frame_ok_size_def)
  obtain result n reason rest where h: "transferExact (cc_fd ch) events header 0 0 = Some (result, n, reason, rest)"
    using assms guard by (cases "transferExact (cc_fd ch) events header 0 0") (auto simp: writeFrame_def header_def)
  note hc = transfer_counts [OF h]
  show ?thesis
  proof (cases "result = IO_Complete")
    case stop: False
    with hc have "n < length header" by auto
    then show ?thesis using assms guard h stop
      by (auto simp: writeFrame_def Let_def header_def [symmetric] frame_bytes_def intro!: exI [of _ n] split: if_splits)
  next
    case go: True
    obtain result' n' reason' rest' where p: "transferExact (cc_fd ch) rest f 0 n = Some (result', n', reason', rest')"
      using assms guard h go by (cases "transferExact (cc_fd ch) rest f 0 n") (auto simp: writeFrame_def Let_def header_def)
    note pc = transfer_counts [OF p]
    show ?thesis
    proof (cases "result' = IO_Complete")
      case True
      then show ?thesis using assms guard h go p \<open>frame_ok_size f\<close> by (auto simp: writeFrame_def Let_def header_def frame_bytes_def)
    next
      case False
      with pc have "n' - n < length f" by auto
      then show ?thesis using assms guard h go p False
        by (auto simp: writeFrame_def Let_def header_def frame_bytes_def intro!: exI [of _ "4 + (n' - n)"])
    qed
  qed
qed

lemma write_progress:
  assumes "cc_fd ch \<ge> 0" "frame_ok_size f" "list_all sending events" "4 + length f \<le> length events"
  shows "writeFrame events f ch = Some (ch, True, frame_bytes f, [])"
proof -
  define header where "header = encodeFrameLength (length f)"
  have "\<exists>rest. transferExact (cc_fd ch) events header 0 0 = Some (IO_Complete, 4, [], rest) \<and> list_all sending rest \<and> length f \<le> length rest"
    using transfer_progress [OF assms(1,3), of 0 header "length f" 0] assms(4) by (simp add: header_def)
  then obtain rest where h: "transferExact (cc_fd ch) events header 0 0 = Some (IO_Complete, 4, [], rest)" "list_all sending rest"
    "length f \<le> length rest" by blast
  moreover have "\<exists>rest'. transferExact (cc_fd ch) rest f 0 4 = Some (IO_Complete, 4 + length f, [], rest')"
    using transfer_progress [OF assms(1) h(2), of 0 f 0 4] h(3) by auto
  ultimately show ?thesis using assms(2) by (auto simp: writeFrame_def Let_def header_def frame_bytes_def frame_ok_size_def)
qed

text \<open>
  A frame is written whole or the stream ends: \<open>writeFrame\<close> either puts exactly the length header and the payload on the
  stream, or puts nothing on it and leaves the channel usable, or has sent a strict prefix of the frame and closes the
  channel, so that no later frame can follow a broken one. A peer that keeps taking bytes receives every legal frame.
\<close>

lemma write_all_or_nothing:
  "(writeFrame events f ch = Some (ch', ok, sent, why) \<longrightarrow>
      (ok \<and> sent = encodeFrameLength (length f) @ f \<and> ch' = ch)
      \<or> (\<not> ok \<and> sent = [] \<and> ch' = ch)
      \<or> (\<not> ok \<and> \<not> valid_channel ch' \<and> (\<exists>n < 4 + length f. sent = take n (encodeFrameLength (length f) @ f))))
   \<and> (valid_channel ch \<and> f \<noteq> [] \<and> length f \<le> MaxControlMessageBytes \<and> list_all sending events \<and> 4 + length f \<le> length events
      \<longrightarrow> writeFrame events f ch = Some (ch, True, encodeFrameLength (length f) @ f, []))"
  using write_outcomes [of events f ch ch' ok sent why] write_progress [of ch f events]
  by (auto simp: frame_bytes_def frame_ok_size_def valid_channel_def close_channel_def)

lemma channel_starts:
  "fd \<ge> 0 \<Longrightarrow> sk_pending sk = [] \<Longrightarrow> sk_failure sk = None \<Longrightarrow> list_all frame_ok_size fs \<Longrightarrow>
     concat (map frame_bytes fs) = future \<Longrightarrow> in_stream fs future (CtrlChannel_new fd) sk"
  by (simp add: in_stream_def rx_inv_def taken_def CtrlChannel_new_def)

text \<open>The byte strings that successful writes of the frames put on the stream.\<close>

definition written :: "u8 list list \<Rightarrow> u8 list list \<Rightarrow> bool" where
  "written fs sent \<longleftrightarrow> list_all2 (\<lambda>f bytes. \<exists>events ch ch' why. writeFrame events f ch = Some (ch', True, bytes, why)) fs sent"

lemma written_frames: "written fs sent \<Longrightarrow> list_all frame_ok_size fs \<and> concat sent = concat (map frame_bytes fs)"
  unfolding written_def by (induction rule: list_all2_induct) (auto dest: write_outcomes)

text \<open>
  C25. Frames cross the channel in order and unchanged: whatever pieces the bytes of successfully written frames arrive in and
  however the kernel interrupts or shortens the reads, the reader hands out a prefix of the written frames, never a
  frame twice, out of order, merged or cut; and once all bytes have arrived, polling as often as there are frames
  delivers every one of them.
\<close>

theorem frames_in_order:
  assumes "written fs sent" and "fd \<ge> 0" and "sk_pending sk = []" "sk_failure sk = None"
    and "list_all (\<lambda>t. benign (tn_probe t)) (early @ late)" and "concat (map tn_arrived (early @ late)) @ future = concat sent"
  shows "(\<exists>rest. fs = pump (\<lambda>_. None) (early @ late) sk (CtrlChannel_new fd) @ rest)
    \<and> (future = [] \<and> \<not> sk_eof sk \<and> list_all turn_open (early @ late) \<and> list_all (\<lambda>t. probe_ready (tn_probe t) \<and> tn_arrived t = []) late
        \<and> length fs \<le> length late \<longrightarrow> pump (\<lambda>_. None) (early @ late) sk (CtrlChannel_new fd) = fs)"
proof (intro conjI impI, goal_cases)
  case 1
  have "in_stream fs (concat (map tn_arrived (early @ late)) @ future) (CtrlChannel_new fd) sk"
    using channel_starts [OF assms(2-4)] written_frames [OF assms(1)] assms(6) by simp
  then show ?case by (rule pump_prefix [OF refl assms(5)])
next
  case 2
  then have a: "future = []" "\<not> sk_eof sk" "list_all turn_open (early @ late)" "list_all (\<lambda>t. probe_ready (tn_probe t) \<and> tn_arrived t = []) late"
    "length fs \<le> length late" by blast+
  note w = written_frames [OF assms(1)]
  have "concat (map tn_arrived late) = []" using a(4) by (induction late) auto
  then have "concat (map frame_bytes fs) = concat (map tn_arrived early)"
    using w assms(6) unfolding a(1) map_append concat_append by (simp only: append_Nil2)
  then have "in_stream fs (concat (map tn_arrived early)) (CtrlChannel_new fd) sk"
    using channel_starts [OF assms(2-4)] w by blast
  then show ?case by (rule pump_complete [OF refl a(4,3) _ a(2,5)])
qed

definition turn0 :: "u8 list \<Rightarrow> nat list \<Rightarrow> ReadTurn" where
  "turn0 bytes chunks = \<lparr>tn_arrived = bytes, tn_eof = False, tn_chunks = chunks, tn_probe = PollReady True False False False, tn_expired = False,
     tn_wait = WaitNothing\<rparr>"

text \<open>Two frames whose bytes arrive in three pieces, with an interrupted read and one-byte reads.\<close>

theorem frames_in_order_witness:
  "pump (\<lambda>_. None) ([turn0 [0, 0] [], turn0 [0, 2, 7] [0, 1], turn0 [9, 0, 0, 0, 1, 5] []] @ [turn0 [] [], turn0 [] []])
     \<lparr>sk_pending = [], sk_eof = False, sk_failure = None, sk_chunks = []\<rparr> (CtrlChannel_new 3) = [[7, 9], [5]]"
proof -
  have h: "encodeFrameLength (Suc (Suc 0)) = [0, 0, 0, 2]" "encodeFrameLength (Suc 0) = [0, 0, 0, 1]"
    by (simp_all flip: numeral_2_eq_2 add: encodeFrameLength_def)
  have ready: "list_all sending (replicate 6 (WaitFlags True False False, SendUpTo 1))" by (rule sending_replicate) simp
  have "writeFrame (replicate 6 (WaitFlags True False False, SendUpTo 1)) [7, 9] (CtrlChannel_new 3) = Some (CtrlChannel_new 3, True, [0, 0, 0, 2, 7, 9], [])"
    "writeFrame (replicate 6 (WaitFlags True False False, SendUpTo 1)) [5] (CtrlChannel_new 3) = Some (CtrlChannel_new 3, True, [0, 0, 0, 1, 5], [])"
    using write_progress [OF _ _ ready] by (simp_all add: CtrlChannel_new_def frame_ok_size_def frame_bytes_def h limits)
  then have "written [[7, 9], [5]] [[0, 0, 0, 2, 7, 9], [0, 0, 0, 1, 5]]" unfolding written_def list_all2_Cons by blast
  from frames_in_order [OF this, where fd = 3 and sk = "\<lparr>sk_pending = [], sk_eof = False, sk_failure = None, sk_chunks = []\<rparr>"
      and early = "[turn0 [0, 0] [], turn0 [0, 2, 7] [0, 1], turn0 [9, 0, 0, 0, 1, 5] []]" and late = "[turn0 [] [], turn0 [] []]" and future = "[]"]
  show ?thesis by (simp add: turn0_def turn_open_def)
qed

end
