(* ===== verification/Zpp_Codec.thy ===== *)
theory Zpp_Codec
  imports Messages Ctrl_Channel
begin

unbundle bit_operations_syntax

text \<open>
  The typed message codec (\<^verbatim>\<open>src/shared/protocol/zpp_codec.hpp\<close>, \<^verbatim>\<open>zpp_codec.cpp\<close>): the wire envelope, the checks on
  decoded messages, and reading and writing of messages over the control channel. The serialisation of message
  bodies is the third-party \<open>zpp_bits\<close> library: a parameter, with the laws the codec relies on as hypotheses.
\<close>

section \<open>The envelope\<close>

definition PROTOCOL_VERSION :: nat where
  [limits]: "PROTOCOL_VERSION = 20"

definition WireMagic :: u32 where
  "WireMagic = 0x4d554343"

definition WireVersion :: u32 where
  "WireVersion = of_nat PROTOCOL_VERSION"

definition RequestKind :: u8 where
  "RequestKind = 1"

definition ResponseKind :: u8 where
  "ResponseKind = 2"

definition NotificationKind :: u8 where
  "NotificationKind = 3"

text \<open>Integers are little-endian on the wire.\<close>

definition le32 :: "u32 \<Rightarrow> u8 list" where
  "le32 n = [ucast n, ucast (drop_bit 8 n), ucast (drop_bit 16 n), ucast (drop_bit 24 n)]"

fun read_le32 :: "u8 list \<Rightarrow> u32" where
  "read_le32 [a, b, c, d] = ucast a OR push_bit 8 (ucast b) OR push_bit 16 (ucast c) OR push_bit 24 (ucast d)"
| "read_le32 bytes = 0"

definition envelope :: "u8 \<Rightarrow> u8 list" where
  "envelope kind = le32 WireMagic @ le32 WireVersion @ [kind]"

section \<open>The serialiser\<close>

text \<open>
  An archive of the serialiser: writing a body gives its bytes or an error code, reading gives the value with the number of
  bytes it took. \<open>zp_text\<close> is the text of an error code.
\<close>

datatype Errc = no_buffer_space | message_size | other_errc nat

record 'm Zpp =
  zp_out :: "'m \<Rightarrow> Errc + u8 list"
  zp_in :: "u8 list \<Rightarrow> Errc + 'm \<times> nat"
  zp_text :: "Errc \<Rightarrow> string"

text \<open>What is written can be read back, whatever follows it.\<close>

definition reads_back :: "'m Zpp \<Rightarrow> 'm \<Rightarrow> bool" where
  "reads_back Z m \<longleftrightarrow> (\<forall>body. zp_out Z m = Inr body \<longrightarrow> (\<forall>rest. zp_in Z (body @ rest) = Inr (m, length body)))"

section \<open>Checks on decoded messages\<close>

definition validateDecodedRequest :: "RequestMessage \<Rightarrow> string option" where
  "validateDecodedRequest m = (if rqm_id m = 0 then Some ''request id is zero'' else None)"

definition validateDecodedResponse :: "ResponseMessage \<Rightarrow> string option" where
  "validateDecodedResponse m =
     (if rsm_id m = 0 then Some ''response id is zero''
      else if rsm_error m \<noteq> None \<and> rsm_payload m \<noteq> RsEmpty then Some ''error response contains a payload''
      else None)"

definition validateDecodedNotification :: "NotificationMessage \<Rightarrow> string option" where
  "validateDecodedNotification m =
     (case ntm_payload m of
        NtPageLinks links \<Rightarrow>
          if list_ex (\<lambda>p. pl_page p < 0) (pln_pages links) then Some ''page-link notification contains a negative page'' else None
      | _ \<Rightarrow> None)"

section \<open>Encoding and decoding\<close>

datatype EncodeError = EE_None | EE_Serialization | EE_ControlMessageLimit

definition encodeImpl :: "'m Zpp \<Rightarrow> u8 \<Rightarrow> 'm \<Rightarrow> (EncodeError \<times> string) + u8 list" where
  "encodeImpl Z kind m =
     (case zp_out Z m of
        Inl code \<Rightarrow>
          if code = no_buffer_space \<or> code = message_size
          then Inl (EE_ControlMessageLimit, ''message exceeds control-message limit'')
          else Inl (EE_Serialization, zp_text Z code)
      | Inr body \<Rightarrow>
          if length (envelope kind @ body) > MaxControlMessageBytes
          then Inl (EE_ControlMessageLimit, ''message exceeds control-message limit'')
          else Inr (envelope kind @ body))"

text \<open>\<open>short\<close> is the error of reading the envelope from fewer than nine bytes.\<close>

definition decodeImpl :: "'m Zpp \<Rightarrow> Errc \<Rightarrow> u8 \<Rightarrow> ('m \<Rightarrow> string option) \<Rightarrow> u8 list \<Rightarrow> string + 'm" where
  "decodeImpl Z short kind check bytes =
     (if bytes = [] \<or> length bytes > MaxControlMessageBytes then Inl ''message is empty or too large''
      else if length bytes < 9 then Inl (zp_text Z short)
      else if read_le32 (take 4 bytes) \<noteq> WireMagic \<or> read_le32 (take 4 (drop 4 bytes)) \<noteq> WireVersion
      then Inl ''unsupported protocol header''
      else if bytes ! 8 \<noteq> kind then Inl ''message kind mismatch''
      else case zp_in Z (drop 9 bytes) of
        Inl code \<Rightarrow> Inl (zp_text Z code)
      | Inr (m, used) \<Rightarrow>
        if 9 + used \<noteq> length bytes then Inl ''trailing bytes''
        else case check m of Some why \<Rightarrow> Inl why | None \<Rightarrow> Inr m)"

text \<open>The codecs of the three message families.\<close>

record Codec =
  cx_request :: "RequestMessage Zpp"
  cx_response :: "ResponseMessage Zpp"
  cx_notification :: "NotificationMessage Zpp"
  cx_short :: Errc

definition decodeRequest :: "Codec \<Rightarrow> u8 list \<Rightarrow> string + RequestMessage" where
  "decodeRequest C = decodeImpl (cx_request C) (cx_short C) RequestKind validateDecodedRequest"

definition decodeResponse :: "Codec \<Rightarrow> u8 list \<Rightarrow> string + ResponseMessage" where
  "decodeResponse C = decodeImpl (cx_response C) (cx_short C) ResponseKind validateDecodedResponse"

definition decodeNotification :: "Codec \<Rightarrow> u8 list \<Rightarrow> string + NotificationMessage" where
  "decodeNotification C = decodeImpl (cx_notification C) (cx_short C) NotificationKind validateDecodedNotification"

section \<open>Messages over the channel\<close>

definition writeMessageImpl :: "'m Zpp \<Rightarrow> u8 \<Rightarrow> (WaitAnswer \<times> SendAnswer) list \<Rightarrow> 'm \<Rightarrow> CtrlChannel \<Rightarrow>
  (CtrlChannel \<times> bool \<times> u8 list \<times> string) option" where
  "writeMessageImpl Z kind events m ch =
     (case encodeImpl Z kind m of
        Inl (code, why) \<Rightarrow> Some (ch, False, [], why)
      | Inr data \<Rightarrow> writeFrame events data ch)"

definition readMessageImpl :: "'m Zpp \<Rightarrow> Errc \<Rightarrow> u8 \<Rightarrow> ('m \<Rightarrow> string option) \<Rightarrow> (nat \<Rightarrow> string option) \<Rightarrow> ReadTurn list \<Rightarrow> Socket \<Rightarrow>
  CtrlChannel \<Rightarrow> (CtrlChannel \<times> Socket \<times> (string + 'm)) option" where
  "readMessageImpl Z short kind check A turns sk ch =
     (case readFrame A turns sk ch of
        None \<Rightarrow> None
      | Some (ch1, sk1, ok, frame, why) \<Rightarrow>
        Some (ch1, sk1, if ok then decodeImpl Z short kind check frame else Inl why))"

section \<open>Lemmas\<close>

lemma bit_255_u8: "bit (w :: u8) n \<Longrightarrow> n < 8"
  using bit_imp_le_length [of w n] by simp

lemma read_le32_le32: "read_le32 (le32 n) = n"
proof (rule bit_word_eqI)
  fix k
  assume "k < LENGTH(32)"
  then consider "k < 8" | "8 \<le> k" "k < 16" | "16 \<le> k" "k < 24" | "24 \<le> k" "k < 32" by fastforce
  then show "bit (read_le32 (le32 n)) k = bit n k"
    unfolding le32_def read_le32.simps by cases (auto simp: bit_simps dest: bit_255_u8)
qed

lemma length_envelope [simp]: "length (envelope kind) = 9"
  by (simp add: envelope_def le32_def)

lemma envelope_parts:
  "read_le32 (take 4 (envelope kind @ body)) = WireMagic" "read_le32 (take 4 (drop 4 (envelope kind @ body))) = WireVersion"
  "(envelope kind @ body) ! 8 = kind" "drop 9 (envelope kind @ body) = body"
proof -
  have "length (le32 n) = 4" for n by (simp add: le32_def)
  then show "read_le32 (take 4 (envelope kind @ body)) = WireMagic" "read_le32 (take 4 (drop 4 (envelope kind @ body))) = WireVersion"
    "(envelope kind @ body) ! 8 = kind" "drop 9 (envelope kind @ body) = body"
    by (simp_all add: envelope_def read_le32_le32 nth_append)
qed

lemma encode_shape:
  assumes "encodeImpl Z kind m = Inr data"
  obtains body where "zp_out Z m = Inr body" "data = envelope kind @ body" "length data \<le> MaxControlMessageBytes" "data \<noteq> []"
proof -
  have "envelope kind \<noteq> []" using length_envelope [of kind] by (metis list.size(3) zero_neq_numeral)
  with that assms show ?thesis by (auto simp: encodeImpl_def split: sum.splits if_splits)
qed

lemma encode_frame_ok: "encodeImpl Z kind m = Inr data \<Longrightarrow> frame_ok_size data"
  by (erule encode_shape) (simp add: frame_ok_size_def)

lemma decode_encoded:
  assumes "encodeImpl Z kind m = Inr data" "reads_back Z m"
  shows "decodeImpl Z short kind check data = (case check m of Some why \<Rightarrow> Inl why | None \<Rightarrow> Inr m)"
proof -
  from assms(1) obtain body where b: "zp_out Z m = Inr body" "data = envelope kind @ body" "length data \<le> MaxControlMessageBytes" "data \<noteq> []"
    by (rule encode_shape)
  from assms(2) b(1) have "zp_in Z body = Inr (m, length body)" unfolding reads_back_def by (metis append_Nil2)
  with b show ?thesis unfolding decodeImpl_def b(2) envelope_parts by (auto split: option.split)
qed

lemma decode_other_kind:
  assumes "encodeImpl Z kind m = Inr data" "kind' \<noteq> kind"
  shows "decodeImpl Z' short kind' check data = Inl ''message kind mismatch''"
proof -
  from assms(1) obtain body where b: "data = envelope kind @ body" "length data \<le> MaxControlMessageBytes" "data \<noteq> []" by (rule encode_shape)
  with assms(2) show ?thesis unfolding decodeImpl_def b(1) envelope_parts by simp
qed

lemma decode_trailing:
  assumes "encodeImpl Z kind m = Inr data" "reads_back Z m" "extra \<noteq> []"
  shows "\<exists>why. decodeImpl Z short kind check (data @ extra) = Inl why"
proof -
  from assms(1) obtain body where b: "zp_out Z m = Inr body" "data = envelope kind @ body" "data \<noteq> []" by (rule encode_shape)
  from assms(2) b(1) have "zp_in Z (body @ extra) = Inr (m, length body)" unfolding reads_back_def by blast
  moreover have "data @ extra = envelope kind @ (body @ extra)" using b(2) by simp
  ultimately show ?thesis using assms(3) unfolding decodeImpl_def by (simp only: envelope_parts) simp
qed

text \<open>A decoded message had the right envelope and passed its check.\<close>

lemma decode_accepts:
  assumes "decodeImpl Z short kind check data = Inr m"
  shows "check m = None \<and> length data \<le> MaxControlMessageBytes \<and> read_le32 (take 4 data) = WireMagic
    \<and> read_le32 (take 4 (drop 4 data)) = WireVersion \<and> data ! 8 = kind \<and> zp_in Z (drop 9 data) = Inr (m, length data - 9)"
  using assms unfolding decodeImpl_def by (auto split: if_splits sum.splits option.splits prod.splits)


definition cancel_codec :: "RequestMessage Zpp" where
  "cancel_codec = \<lparr>zp_out = (\<lambda>m. if m = \<lparr>rqm_id = 5, rqm_payload = RqCancelOcrJobs\<rparr> then Inr [2] else Inl (other_errc 0)),
     zp_in = (\<lambda>b. if b \<noteq> [] \<and> hd b = 2 then Inr (\<lparr>rqm_id = 5, rqm_payload = RqCancelOcrJobs\<rparr>, 1) else Inl (other_errc 0)),
     zp_text = (\<lambda>_. [])\<rparr>"


end
