(* ===== verification/Worker_Server.thy ===== *)
theory Worker_Server
  imports Session_Invariant Zpp_Codec
begin

text \<open>
  The worker's event loop (\<^verbatim>\<open>src/worker/runtime/worker_server.hpp\<close>, \<^verbatim>\<open>worker_server.cpp\<close>, and \<open>PollLoop\<close> of
  \<^verbatim>\<open>src/shared/transport/poll.cpp\<close>): accepting the host, reading and dispatching requests, writing responses and
  notifications, and tearing the session down. One turn of the loop is a function of what the kernel answers during
  it; the scoped operation budgets, which only limit CPU time, and logging are not modelled.
\<close>

section \<open>Poll loop\<close>

record PollFlags =
  pf_in :: bool
  pf_err :: bool
  pf_hup :: bool
  pf_nval :: bool

definition flags_set :: "PollFlags \<Rightarrow> bool" where
  "flags_set f \<longleftrightarrow> pf_in f \<or> pf_err f \<or> pf_hup f \<or> pf_nval f"

text \<open>A watch is a descriptor, the requested events and a callback on the state; \<open>None\<close> stands for a callback that does not return.\<close>

type_synonym 's Watch = "int \<times> PollFlags \<times> (PollFlags \<Rightarrow> 's \<Rightarrow> 's option)"

fun replace_watch :: "int \<Rightarrow> 's Watch \<Rightarrow> 's Watch list \<Rightarrow> 's Watch list option" where
  "replace_watch fd w [] = None"
| "replace_watch fd w (x # xs) = (if fst x = fd then Some (w # xs) else map_option ((#) x) (replace_watch fd w xs))"

definition watch :: "int \<Rightarrow> PollFlags \<Rightarrow> (PollFlags \<Rightarrow> 's \<Rightarrow> 's option) \<Rightarrow> 's Watch list \<Rightarrow> 's Watch list \<times> bool" where
  "watch fd events callback watches =
     (if fd < 0 then (watches, False)
      else case replace_watch fd (fd, events, callback) watches of
        Some watches' \<Rightarrow> (watches', True)
      | None \<Rightarrow> (watches @ [(fd, events, callback)], True))"

definition unwatch :: "int \<Rightarrow> 's Watch list \<Rightarrow> 's Watch list" where
  "unwatch fd watches = filter (\<lambda>w. fst w \<noteq> fd) watches"

text \<open>What \<open>poll\<close> answers once it is not interrupted: a failure, nothing before the deadline, or the events per descriptor.\<close>

datatype PollCycle = CycleFailed string | CycleTimeout | CycleReady "int \<Rightarrow> PollFlags"

fun run_callbacks :: "(int \<Rightarrow> PollFlags) \<Rightarrow> 's Watch list \<Rightarrow> 's Watch list \<Rightarrow> 's \<Rightarrow> 's option" where
  "run_callbacks revents watches [] s = Some s"
| "run_callbacks revents watches (descriptor # rest) s =
     (if \<not> flags_set (revents (fst descriptor)) then run_callbacks revents watches rest s
      else case find (\<lambda>w. fst w = fst descriptor) watches of
        None \<Rightarrow> run_callbacks revents watches rest s
      | Some w \<Rightarrow>
        (case snd (snd w) (revents (fst descriptor)) s of
           None \<Rightarrow> None
         | Some s' \<Rightarrow> run_callbacks revents watches rest s'))"

definition runOnce :: "PollCycle \<Rightarrow> 's Watch list \<Rightarrow> 's \<Rightarrow> ('s \<times> int) option" where
  "runOnce cycle watches s =
     (if watches = [] then Some (s, 0)
      else case cycle of
        CycleFailed why \<Rightarrow> Some (s, - 1)
      | CycleTimeout \<Rightarrow> Some (s, 0)
      | CycleReady revents \<Rightarrow>
        map_option (\<lambda>s'. (s', int (length (filter (\<lambda>w. flags_set (revents (fst w))) watches)))) (run_callbacks revents watches watches s))"

section \<open>State\<close>

text \<open>
  \<open>ws_socket\<close> is the kernel's receive side of the client socket and \<open>ws_wire\<close> the bytes
  that each write to the current client put on the stream; both start anew with a connection.
\<close>

record 'd WorkerServer =
  ws_expectedPluginPid :: int
  ws_fdChannel :: bool
  ws_sandbox :: SandboxStatus
  ws_tessDataDirectories :: "string list"
  ws_client :: "CtrlChannel option"
  ws_commandService :: "'d CommandService option"
  ws_socket :: Socket
  ws_wire :: "u8 list list"

definition new_socket :: Socket where
  "new_socket = \<lparr>sk_pending = [], sk_eof = False, sk_failure = None, sk_chunks = []\<rparr>"

definition WorkerServer_init :: "bool \<Rightarrow> SandboxStatus \<Rightarrow> int \<Rightarrow> string list \<Rightarrow> 'd WorkerServer" where
  "WorkerServer_init fdChannel sandbox expectedPluginPid tessDataDirectories =
     \<lparr>ws_expectedPluginPid = expectedPluginPid, ws_fdChannel = fdChannel, ws_sandbox = sandbox,
      ws_tessDataDirectories = tessDataDirectories, ws_client = None, ws_commandService = None,
      ws_socket = new_socket, ws_wire = []\<rparr>"

definition setSandboxStatus :: "SandboxStatus \<Rightarrow> 'd WorkerServer \<Rightarrow> 'd WorkerServer" where
  "setSandboxStatus sandbox srv = srv\<lparr>ws_sandbox := sandbox\<rparr>"

definition disconnectClient :: "'d WorkerServer \<Rightarrow> 'd WorkerServer" where
  "disconnectClient srv = srv\<lparr>ws_commandService := None, ws_client := None\<rparr>"

text \<open>
  What the kernel answers during one turn: to the accept loop, the event descriptors and initial memory of a new
  service, the reads of a frame, each write (by the number of writes before it), the poll, how far the job threads have
  moved by then, and the clock.
\<close>

record Turn =
  tr_world :: World
  tr_euid :: nat
  tr_accept :: "(IoResult \<times> (string option + int \<times> (string + nat \<times> int))) list"
  tr_ocrEvent :: int
  tr_exportEvent :: int
  tr_memory :: "nat \<Rightarrow> Segment"
  tr_alloc :: "nat \<Rightarrow> string option"
  tr_read :: "ReadTurn list"
  tr_writes :: "nat \<Rightarrow> (WaitAnswer \<times> SendAnswer) list"
  tr_poll :: PollCycle
  tr_jobs :: "OcrState \<times> ExportState \<Rightarrow> OcrState \<times> ExportState"
  tr_elapsed :: int

section \<open>Sessions\<close>

text \<open>The result tells whether a client was accepted and what waiting returned.\<close>

definition acceptClient :: "Turn \<Rightarrow> 'd WorkerServer \<Rightarrow> ('d WorkerServer \<times> bool \<times> IoResult) option" where
  "acceptClient T srv =
     (case accept_channel (tr_euid T) (ws_expectedPluginPid srv) (tr_accept T) [] of
        None \<Rightarrow> None
      | Some (result, client, rejected) \<Rightarrow>
        if \<not> valid_channel client then Some (srv, False, result)
        else Some (srv\<lparr>ws_client := Some client, ws_socket := new_socket, ws_wire := [],
                       ws_commandService := Some (CommandService_init (ws_sandbox srv) (ws_fdChannel srv) True (ws_tessDataDirectories srv)
                         (tr_ocrEvent T) (tr_exportEvent T) (w_now (tr_world T)) (tr_memory T))\<rparr>, True, result))"

section \<open>Writing\<close>

definition send_frame :: "Turn \<Rightarrow> u8 list \<Rightarrow> 'd WorkerServer \<Rightarrow> ('d WorkerServer \<times> bool) option" where
  "send_frame T data srv =
     (case ws_client srv of
        None \<Rightarrow> None
      | Some client \<Rightarrow>
        (case writeFrame (tr_writes T (length (ws_wire srv))) data client of
           None \<Rightarrow> None
         | Some (client', ok, sent, why) \<Rightarrow> Some (srv\<lparr>ws_client := Some client', ws_wire := ws_wire srv @ [sent]\<rparr>, ok)))"

definition send_message :: "Turn \<Rightarrow> 'm Zpp \<Rightarrow> u8 \<Rightarrow> 'm \<Rightarrow> 'd WorkerServer \<Rightarrow> ('d WorkerServer \<times> bool) option" where
  "send_message T Z kind m srv =
     (case encodeImpl Z kind m of
        Inl e \<Rightarrow> Some (srv, False)
      | Inr data \<Rightarrow> send_frame T data srv)"

text \<open>The response that replaces one that is too large: a rendered frame keeps its frame, anything else becomes an error.\<close>

definition limit_response :: "ResponseMessage \<Rightarrow> ResponseMessage" where
  "limit_response response =
     (case rsm_payload response of
        RsRender render \<Rightarrow>
          (case rrs_links render of
             Some links \<Rightarrow>
               \<lparr>rsm_id = rsm_id response,
                rsm_payload = RsRender \<lparr>rrs_frame = rrs_frame render,
                  rrs_links = Some \<lparr>rls_generation = rls_generation links, rls_links = [],
                                   rls_error = ''resource limit: render links exceed control message''\<rparr>\<rparr>,
                rsm_error = None\<rparr>
           | None \<Rightarrow> failure (rsm_id response) EC_ResourceLimit ''response'' ''response exceeds control-message limit'')
      | _ \<Rightarrow> failure (rsm_id response) EC_ResourceLimit ''response'' ''response exceeds control-message limit'')"

definition writeResponse :: "Codec \<Rightarrow> Turn \<Rightarrow> ResponseMessage \<Rightarrow> 'd WorkerServer \<Rightarrow> ('d WorkerServer \<times> bool) option" where
  "writeResponse C T response srv =
     (case encodeImpl (cx_response C) ResponseKind response of
        Inl (code, why) \<Rightarrow>
          if code \<noteq> EE_ControlMessageLimit then Some (srv, False)
          else send_message T (cx_response C) ResponseKind (limit_response response) srv
      | Inr data \<Rightarrow> send_frame T data srv)"

section \<open>Frames\<close>

definition read_request :: "Codec \<Rightarrow> Turn \<Rightarrow> u8 list option \<Rightarrow> 'd WorkerServer \<Rightarrow> ('d WorkerServer \<times> (string + RequestMessage)) option" where
  "read_request C T deferred srv =
     (case deferred of
        Some bytes \<Rightarrow> Some (srv, decodeRequest C bytes)
      | None \<Rightarrow>
        (case ws_client srv of
           None \<Rightarrow> None
         | Some client \<Rightarrow>
           (case readMessageImpl (cx_request C) (cx_short C) RequestKind validateDecodedRequest (tr_alloc T) (tr_read T) (ws_socket srv) client of
              None \<Rightarrow> None
            | Some (client', sk, answer) \<Rightarrow> Some (srv\<lparr>ws_client := Some client', ws_socket := sk\<rparr>, answer))))"

definition processFrame :: "'d Engine \<Rightarrow> Codec \<Rightarrow> Turn \<Rightarrow> u8 list option \<Rightarrow> 'd WorkerServer \<Rightarrow> ('d WorkerServer \<times> bool) option" where
  "processFrame E C T deferred srv =
     (case read_request C T deferred srv of
        None \<Rightarrow> None
      | Some (srv1, Inl why) \<Rightarrow> Some (srv1, False)
      | Some (srv1, Inr request) \<Rightarrow>
        (case ws_commandService srv1 of
           None \<Rightarrow> None
         | Some s \<Rightarrow>
           (case dispatch E (tr_world T) request s of
              None \<Rightarrow> None
            | Some (s', response) \<Rightarrow>
              let srv2 = srv1\<lparr>ws_commandService := Some s'\<rparr> in
              if cs_disconnectRequested s' then Some (srv2, False)
              else writeResponse C T response srv2)))"

section \<open>Notifications\<close>

fun write_notifications :: "Codec \<Rightarrow> Turn \<Rightarrow> NotificationPayload list \<Rightarrow> 'd WorkerServer \<Rightarrow> ('d WorkerServer \<times> bool) option" where
  "write_notifications C T [] srv = Some (srv, True)"
| "write_notifications C T (n # ns) srv =
     (case send_message T (cx_notification C) NotificationKind \<lparr>ntm_payload = n\<rparr> srv of
        None \<Rightarrow> None
      | Some (srv', ok) \<Rightarrow> if ok then write_notifications C T ns srv' else Some (srv', False))"

definition writeOcrNotifications :: "Codec \<Rightarrow> Turn \<Rightarrow> 'd WorkerServer \<Rightarrow> ('d WorkerServer \<times> bool) option" where
  "writeOcrNotifications C T srv =
     (case ws_commandService srv of
        None \<Rightarrow> None
      | Some s \<Rightarrow>
        (case drainNotifications (cs_ocrJobs s) of
           (jobs, notes) \<Rightarrow>
           write_notifications C T (map (\<lambda>n. NtOcrDone \<lparr>odn_jobId = on_id n, odn_page = on_page n\<rparr>) notes)
             (srv\<lparr>ws_commandService := Some (s\<lparr>cs_ocrJobs := jobs\<rparr>)\<rparr>)))"

definition writeExportNotifications :: "Codec \<Rightarrow> Turn \<Rightarrow> 'd WorkerServer \<Rightarrow> ('d WorkerServer \<times> bool) option" where
  "writeExportNotifications C T srv =
     (case ws_commandService srv of
        None \<Rightarrow> None
      | Some s \<Rightarrow>
        (case export_drainNotifications (w_now (tr_world T)) (cs_exportJobs s) of
           (jobs, notes) \<Rightarrow> write_notifications C T (map NtExportProgress notes) (srv\<lparr>ws_commandService := Some (s\<lparr>cs_exportJobs := jobs\<rparr>)\<rparr>)))"

definition writePageLinks :: "'d Engine \<Rightarrow> Codec \<Rightarrow> Turn \<Rightarrow> 'd WorkerServer \<Rightarrow> ('d WorkerServer \<times> bool) option" where
  "writePageLinks E C T srv =
     (case ws_commandService srv of
        None \<Rightarrow> None
      | Some s \<Rightarrow>
        (case processPageLinks E s of
           (s1, None) \<Rightarrow> Some (srv\<lparr>ws_commandService := Some s1\<rparr>, True)
         | (s1, Some notification) \<Rightarrow>
           (case encodeImpl (cx_notification C) NotificationKind \<lparr>ntm_payload = NtPageLinks notification\<rparr> of
              Inl (EE_ControlMessageLimit, why) \<Rightarrow>
                send_message T (cx_notification C) NotificationKind
                  \<lparr>ntm_payload = NtPageLinks \<lparr>pln_generation = pln_generation notification, pln_pages = [], pln_resourceLimited = True,
                     pln_error = ''page-link notification exceeds control-message limit''\<rparr>\<rparr>
                  (srv\<lparr>ws_commandService := Some (cancelPageLinks E s1)\<rparr>)
            | Inl e \<Rightarrow> Some (srv\<lparr>ws_commandService := Some s1\<rparr>, False)
            | Inr data \<Rightarrow> send_frame T data (srv\<lparr>ws_commandService := Some s1\<rparr>))))"

section \<open>The loop\<close>

text \<open>The callbacks work on the server and the flag that the session has ended.\<close>

definition client_callback :: "'d Engine \<Rightarrow> Codec \<Rightarrow> Turn \<Rightarrow> PollFlags \<Rightarrow> 'd WorkerServer \<times> bool \<Rightarrow> ('d WorkerServer \<times> bool) option" where
  "client_callback E C T revents st =
     (if pf_in revents
      then map_option (\<lambda>(srv', ok). (srv', snd st \<or> \<not> ok)) (processFrame E C T None (fst st))
      else if pf_err revents \<or> pf_hup revents \<or> pf_nval revents then Some (fst st, True)
      else Some st)"

definition ocr_callback :: "Codec \<Rightarrow> Turn \<Rightarrow> PollFlags \<Rightarrow> 'd WorkerServer \<times> bool \<Rightarrow> ('d WorkerServer \<times> bool) option" where
  "ocr_callback C T revents st =
     (if pf_in revents then map_option (\<lambda>(srv', ok). (srv', snd st \<or> \<not> ok)) (writeOcrNotifications C T (fst st)) else Some st)"

definition readable :: PollFlags where
  "readable = \<lparr>pf_in = True, pf_err = False, pf_hup = False, pf_nval = False\<rparr>"

definition server_watches :: "'d Engine \<Rightarrow> Codec \<Rightarrow> Turn \<Rightarrow> CtrlChannel \<Rightarrow> 'd CommandService \<Rightarrow> ('d WorkerServer \<times> bool) Watch list" where
  "server_watches E C T client s =
     (let w1 = fst (watch (cc_fd client) (readable\<lparr>pf_err := True, pf_hup := True\<rparr>) (client_callback E C T) []);
          w2 = (if os_event (cs_ocrJobs s) \<ge> 0 then fst (watch (os_event (cs_ocrJobs s)) readable (ocr_callback C T) w1) else w1)
      in if xs_event (cs_exportJobs s) \<ge> 0 then fst (watch (xs_event (cs_exportJobs s)) readable (\<lambda>_. Some) w2) else w2)"

text \<open>The deadline of the poll in milliseconds: none while links are pending, at most two seconds while an export runs.\<close>

definition poll_timeout :: "'d CommandService \<Rightarrow> int" where
  "poll_timeout s =
     (if cs_pendingPageLinks s \<noteq> None then 0
      else if xs_active (cs_exportJobs s) then min (idleTrimPollMs s) 2000 else idleTrimPollMs s)"

definition move_jobs :: "Turn \<Rightarrow> 'd CommandService \<Rightarrow> 'd CommandService" where
  "move_jobs T s = (case tr_jobs T (cs_ocrJobs s, cs_exportJobs s) of (o', x) \<Rightarrow> s\<lparr>cs_ocrJobs := o', cs_exportJobs := x\<rparr>)"

text \<open>After the poll: sample the export, account idle time, and end the session if a callback said so.\<close>

definition finish_turn :: "'d Engine \<Rightarrow> Codec \<Rightarrow> Turn \<Rightarrow> int \<Rightarrow> int \<Rightarrow> 'd WorkerServer \<times> bool \<Rightarrow> ('d WorkerServer \<times> int \<times> int option) option" where
  "finish_turn E C T idle ready st =
     (case (if snd st then Some st else map_option (\<lambda>(srv', ok). (srv', \<not> ok)) (writeExportNotifications C T (fst st))) of
        None \<Rightarrow> None
      | Some (srv, disconnected) \<Rightarrow>
        (case ws_commandService srv of
           None \<Rightarrow> None
         | Some s \<Rightarrow>
           let trim = (ready = 0 \<and> cs_pendingPageLinks s = None);
               idle' = (if trim then idle + tr_elapsed T else 0);
               srv' = (if trim then srv\<lparr>ws_commandService := Some (fst (maybeIdleTrim E (w_now (tr_world T)) idle' s))\<rparr> else srv)
           in if disconnected then Some (disconnectClient srv', idle', Some 0) else Some (srv', idle', None)))"

text \<open>
  One pass through the body of \<open>run\<close> with the idle time so far: the new server and idle time, and the exit code when
  the loop returns.
\<close>

definition poll_turn :: "'d Engine \<Rightarrow> Codec \<Rightarrow> Turn \<Rightarrow> 'd WorkerServer \<Rightarrow> int \<Rightarrow> ('d WorkerServer \<times> int \<times> int option) option" where
  "poll_turn E C T srv idle =
     (case (ws_client srv, ws_commandService srv) of
        (Some client, Some s) \<Rightarrow>
          (case runOnce (tr_poll T) (server_watches E C T client s) (srv\<lparr>ws_commandService := Some (move_jobs T s)\<rparr>, False) of
             None \<Rightarrow> None
           | Some (st, ready) \<Rightarrow> if ready < 0 then Some (fst st, idle, Some 1) else finish_turn E C T idle ready st)
      | _ \<Rightarrow> None)"

definition session_turn :: "'d Engine \<Rightarrow> Codec \<Rightarrow> Turn \<Rightarrow> 'd WorkerServer \<Rightarrow> int \<Rightarrow> ('d WorkerServer \<times> int \<times> int option) option" where
  "session_turn E C T srv idle =
     (case ws_commandService srv of
        None \<Rightarrow> None
      | Some s \<Rightarrow>
        (case takeDeferredIncoming s of
           (s1, Some bytes) \<Rightarrow>
             map_option (\<lambda>(srv', ok). if ok then (srv', idle, None) else (disconnectClient srv', idle, Some 0))
               (processFrame E C T (Some bytes) (srv\<lparr>ws_commandService := Some s1\<rparr>))
         | (s1, None) \<Rightarrow>
             if cs_pendingPageLinks s1 \<noteq> None
             then (case writePageLinks E C T srv of
                     None \<Rightarrow> None
                   | Some (srv', ok) \<Rightarrow> if ok then poll_turn E C T srv' idle else Some (disconnectClient srv', idle, Some 0))
             else poll_turn E C T srv idle))"

definition run_turn :: "'d Engine \<Rightarrow> Codec \<Rightarrow> Turn \<Rightarrow> 'd WorkerServer \<Rightarrow> int \<Rightarrow> ('d WorkerServer \<times> int \<times> int option) option" where
  "run_turn E C T srv idle =
     (if ws_client srv = None
      then (case acceptClient T srv of
              None \<Rightarrow> None
            | Some (srv', accepted, result) \<Rightarrow>
              if accepted then session_turn E C T srv' idle
              else if result = IO_Timeout then Some (srv', idle, None)
              else Some (srv', idle, Some 1))
      else session_turn E C T srv idle)"

text \<open>The loop over a sequence of turns; \<open>None\<close> means that it had not returned when they ended.\<close>

fun run :: "'d Engine \<Rightarrow> Codec \<Rightarrow> Turn list \<Rightarrow> 'd WorkerServer \<Rightarrow> int \<Rightarrow> ('d WorkerServer \<times> int) option" where
  "run E C [] srv idle = None"
| "run E C (T # Ts) srv idle =
     (case run_turn E C T srv idle of
        None \<Rightarrow> None
      | Some (srv', idle', Some code) \<Rightarrow> Some (srv', code)
      | Some (srv', idle', None) \<Rightarrow> run E C Ts srv' idle')"

end
