(* ===== verification/Server_Laws.thy ===== *)
theory Server_Laws
  imports Worker_Server
begin

text \<open>
  What the event loop guarantees: the stream to the host consists of whole frames, the command service of a connected
  client is always in a state that sessions reach, a request is answered by exactly one response with its id, and frames
  that were set aside during a signing exchange are dispatched before anything new is read.
\<close>

section \<open>The poll loop as an interface\<close>

text \<open>
  A client of the poll loop has an invariant with a budget, and each callback it registers keeps it at the cost of one
  unit. Then a cycle keeps it at the cost of one unit per watch.
\<close>

locale poll_client =
  fixes inv :: "nat \<Rightarrow> 's \<Rightarrow> bool" and watches :: "'s Watch list"
  assumes inv_mono: "inv n s \<Longrightarrow> n \<le> m \<Longrightarrow> inv m s"
    and callback_inv: "w \<in> set watches \<Longrightarrow> inv n s \<Longrightarrow> snd (snd w) revents s = Some s' \<Longrightarrow> inv (Suc n) s'"
begin

lemma run_callbacks_inv: "inv n s \<Longrightarrow> run_callbacks revents watches ds s = Some s' \<Longrightarrow> inv (n + length ds) s'"
proof (induction ds arbitrary: n s)
  case (Cons d ds)
  show ?case
  proof (cases "flags_set (revents (fst d)) \<and> find (\<lambda>w. fst w = fst d) watches \<noteq> None")
    case True
    then obtain w where w: "find (\<lambda>w. fst w = fst d) watches = Some w" by blast
    then have "w \<in> set watches" by (auto simp: find_Some_iff)
    moreover from Cons.prems(2) True w obtain s1 where s1: "snd (snd w) (revents (fst d)) s = Some s1"
      "run_callbacks revents watches ds s1 = Some s'" by (auto split: option.splits)
    ultimately have "inv (Suc n) s1" using callback_inv Cons.prems(1) by blast
    from Cons.IH [OF this s1(2)] show ?thesis by simp
  next
    case False
    then have "run_callbacks revents watches ds s = Some s'" using Cons.prems(2) by (auto split: if_splits option.splits)
    from inv_mono [OF Cons.IH [OF Cons.prems(1) this]] show ?thesis by simp
  qed
qed simp

lemma runOnce_inv: "inv n s \<Longrightarrow> runOnce cycle watches s = Some (s', ready) \<Longrightarrow> inv (n + length watches) s'"
  by (auto simp: runOnce_def inv_mono run_callbacks_inv split: if_splits PollCycle.splits)

end

section \<open>Channels\<close>

lemma consume_fd: "consumeBufferedFrame A p ch = (ch', r) \<Longrightarrow> cc_fd ch' = cc_fd ch \<or> cc_fd ch' = - 1"
  by (auto simp: consumeBufferedFrame_def consume_payload_def close_channel_def split: option.splits sum.splits if_splits)

lemma receive_fd: "receiveFrameBytes A sk ch = (ch', r) \<Longrightarrow> cc_fd ch' = cc_fd ch \<or> cc_fd ch' = - 1"
proof (induction A sk ch rule: receiveFrameBytes.induct)
  case (1 A sk ch)
  obtain ans sk1 where rv: "recv (min FrameReadChunkBytes (required_bytes ch)) sk = (ans, sk1)" by fastforce
  note unfolded = 1(4) [unfolded receiveFrameBytes.simps [of A sk ch] rv prod.case]
  show ?case
  proof (cases ans)
    case (RecvData bs)
    show ?thesis
    proof (cases "A (length (cc_rxBuffer ch) + length bs)")
      case (Some what)
      then show ?thesis using unfolded RecvData by (auto simp: close_channel_def)
    next
      case None
      obtain ch1 st p e where c: "consumeBufferedFrame A False (ch\<lparr>cc_rxBuffer := cc_rxBuffer ch @ bs\<rparr>) = (ch1, st, p, e)" by (metis prod_cases4)
      have fd1: "cc_fd ch1 = cc_fd ch \<or> cc_fd ch1 = - 1" using consume_fd [OF c] by simp
      show ?thesis
      proof (cases "st = RS_NoData \<or> st = RS_Partial")
        case True
        then have "receiveFrameBytes A sk1 ch1 = (ch', r)" using unfolded RecvData None c by auto
        then have "cc_fd ch' = cc_fd ch1 \<or> cc_fd ch' = - 1"
          using True 1(1,2) [OF rv [symmetric] RecvData None c [symmetric] refl _ refl] by blast
        with fd1 show ?thesis by auto
      next
        case False
        then show ?thesis using unfolded RecvData None c fd1 by (cases st) auto
      qed
    qed
  next
    case RecvIntr
    then show ?thesis using 1(3) [OF rv [symmetric]] unfolded by simp
  next
    case RecvEof
    then show ?thesis using unfolded consume_fd [of A True "ch\<lparr>cc_rxPeerClosed := True\<rparr>"] by (auto split: prod.splits)
  next
    case RecvAgain
    then show ?thesis using unfolded consume_fd [of A "cc_rxPeerClosed ch" ch] by (auto split: prod.splits)
  next
    case (RecvError why)
    then show ?thesis using unfolded by (auto simp: close_channel_def)
  qed
qed

lemma try_fd: "tryReadFrame A probe sk ch = (ch', r) \<Longrightarrow> cc_fd ch' = cc_fd ch \<or> cc_fd ch' = - 1"
  using consume_fd [of A "cc_rxPeerClosed ch" ch]
  by (auto simp: tryReadFrame_def close_channel_def split: prod.splits if_splits PollAnswer.splits dest!: receive_fd)

lemma readFrame_fd: "readFrame A turns sk ch = Some (ch', r) \<Longrightarrow> cc_fd ch' = cc_fd ch \<or> cc_fd ch' = - 1"
proof (induction turns arbitrary: sk ch)
  case (Cons t ts)
  obtain ch1 sk1 st p e where c: "tryReadFrame A (tn_probe t) (arrive t sk) ch = (ch1, sk1, st, p, e)" by (metis prod_cases5)
  note fd1 = try_fd [OF c]
  obtain io why where w: "waitForFd (cc_fd ch1) (tn_wait t) = (io, why)" by fastforce
  show ?case
  proof (cases "st \<noteq> RS_Complete \<and> st \<noteq> RS_Closed \<and> st \<noteq> RS_Error \<and> \<not> tn_expired t \<and> io = IO_Complete")
    case True
    then have "readFrame A ts sk1 ch1 = Some (ch', r)" using Cons.prems c w by (simp del: waitForFd.simps)
    with Cons.IH fd1 show ?thesis by fastforce
  next
    case False
    then show ?thesis using Cons.prems c w fd1
      by (cases io) (auto simp del: waitForFd.simps simp: close_channel_def split: if_splits)
  qed
qed simp

lemma write_invalid:
  assumes "cc_fd ch < 0" "writeFrame events f ch = Some (ch', ok, sent, why)"
  shows "\<not> ok \<and> sent = [] \<and> cc_fd ch' < 0"
proof -
  define header where "header = encodeFrameLength (length f)"
  have h: "header \<noteq> []" by (simp add: header_def encodeFrameLength_def)
  have "transferExact (cc_fd ch) events header 0 0 = (case events of [] \<Rightarrow> None | _ # rest \<Rightarrow> Some (IO_Invalid, 0, ''descriptor is invalid or not connected'', rest))"
    using assms(1) h by (subst transferExact.simps) (auto split: list.split)
  then show ?thesis using assms by (auto simp: writeFrame_def Let_def header_def [symmetric] close_channel_def split: if_splits list.splits)
qed

section \<open>The stream to the host\<close>

definition client_fd :: "CtrlChannel option \<Rightarrow> int" where
  "client_fd client = (case client of None \<Rightarrow> - 1 | Some ch \<Rightarrow> cc_fd ch)"

text \<open>
  The bytes written so far are whole frames; only after a failed write, when the channel is closed, may they end in a
  strict prefix of a frame.
\<close>

definition framed :: "CtrlChannel option \<Rightarrow> u8 list list \<Rightarrow> bool" where
  "framed client wire \<longleftrightarrow> (\<exists>fs. list_all frame_ok_size fs
     \<and> (concat wire = concat (map frame_bytes fs)
        \<or> (client_fd client < 0 \<and> (\<exists>f n. n < length (frame_bytes f) \<and> concat wire = concat (map frame_bytes fs) @ take n (frame_bytes f)))))"

lemma framed_close: "framed client wire \<Longrightarrow> client_fd client' = client_fd client \<or> client_fd client' < 0 \<Longrightarrow> framed client' wire"
  unfolding framed_def by fastforce

lemma framed_write:
  assumes "framed (Some ch) wire" "writeFrame events data ch = Some (ch', ok, sent, why)"
  shows "framed (Some ch') (wire @ [sent])"
proof (cases "cc_fd ch < 0")
  case True
  note w = write_invalid [OF this assms(2)]
  with framed_close [OF assms(1), of "Some ch'"] show ?thesis by (simp add: framed_def client_fd_def)
next
  case False
  with assms(1) obtain fs where fs: "list_all frame_ok_size fs" "concat wire = concat (map frame_bytes fs)"
    by (auto simp: framed_def client_fd_def)
  from write_outcomes [OF assms(2)] consider "frame_ok_size data" "sent = frame_bytes data" | "sent = []"
    | n where "ch' = close_channel ch" "n < length (frame_bytes data)" "sent = take n (frame_bytes data)" by blast
  then show ?thesis
  proof cases
    case 1
    with fs show ?thesis unfolding framed_def by (intro exI [of _ "fs @ [data]"]) simp
  next
    case 2
    with fs show ?thesis unfolding framed_def by (intro exI [of _ fs]) simp
  next
    case 3
    then have "client_fd (Some ch') < 0" by (simp add: client_fd_def close_channel_def)
    with fs 3 show ?thesis unfolding framed_def by (intro exI [of _ fs]) auto
  qed
qed

section \<open>Operations of the server\<close>

text \<open>An operation that writes, and otherwise leaves the session as it is.\<close>

definition only_writes :: "'d WorkerServer \<Rightarrow> 'd WorkerServer \<Rightarrow> bool" where
  "only_writes srv srv' \<longleftrightarrow> ws_commandService srv' = ws_commandService srv \<and> (ws_client srv' = None \<longleftrightarrow> ws_client srv = None)
     \<and> ws_socket srv' = ws_socket srv
     \<and> (framed (ws_client srv) (ws_wire srv) \<longrightarrow> framed (ws_client srv') (ws_wire srv'))"

lemma only_writes_refl [simp]: "only_writes srv srv"
  by (simp add: only_writes_def)

lemma only_writes_trans: "only_writes a b \<Longrightarrow> only_writes b c \<Longrightarrow> only_writes a c"
  by (auto simp: only_writes_def)

lemma send_frame_writes: "send_frame T data srv = Some (srv', ok) \<Longrightarrow> only_writes srv srv'"
  by (auto simp: send_frame_def only_writes_def intro: framed_write split: option.splits)

lemma send_message_writes: "send_message T Z kind m srv = Some (srv', ok) \<Longrightarrow> only_writes srv srv'"
  by (auto simp: send_message_def send_frame_writes split: sum.splits)

lemma writeResponse_writes: "writeResponse C T r srv = Some (srv', ok) \<Longrightarrow> only_writes srv srv'"
  by (auto simp: writeResponse_def send_frame_writes send_message_writes split: sum.splits if_splits)

lemma write_notifications_writes: "write_notifications C T ns srv = Some (srv', ok) \<Longrightarrow> only_writes srv srv'"
proof (induction ns arbitrary: srv)
  case (Cons n ns)
  then obtain srv1 ok1 where s: "send_message T (cx_notification C) NotificationKind \<lparr>ntm_payload = n\<rparr> srv = Some (srv1, ok1)"
    "if ok1 then write_notifications C T ns srv1 = Some (srv', ok) else srv' = srv1" by (auto split: option.splits if_splits)
  with Cons.IH [of srv1] only_writes_trans [OF send_message_writes [OF s(1)]] send_message_writes [OF s(1)] show ?case
    by (cases ok1) auto
qed simp

text \<open>
  The invariant of the server: a client is connected exactly when it has a command service, the service is in a state
  that sessions reach within \<open>n\<close> steps, and the stream is framed.
\<close>

definition server_ok :: "'d Engine \<Rightarrow> nat \<Rightarrow> 'd WorkerServer \<Rightarrow> bool" where
  "server_ok E n srv \<longleftrightarrow> (ws_client srv = None \<longleftrightarrow> ws_commandService srv = None)
     \<and> (case ws_commandService srv of None \<Rightarrow> True | Some s \<Rightarrow> (\<exists>k \<le> n. service_run E k s))
     \<and> framed (ws_client srv) (ws_wire srv)"

lemma server_ok_mono: "server_ok E n srv \<Longrightarrow> n \<le> m \<Longrightarrow> server_ok E m srv"
  unfolding server_ok_def by (auto split: option.splits intro: le_trans)

lemma server_ok_writes: "server_ok E n srv \<Longrightarrow> only_writes srv srv' \<Longrightarrow> server_ok E n srv'"
  unfolding server_ok_def only_writes_def by auto

lemma server_ok_service:
  assumes "server_ok E n srv" "ws_commandService srv = Some s" "\<And>k. service_run E k s \<Longrightarrow> service_run E (Suc k) s'"
  shows "server_ok E (Suc n) (srv\<lparr>ws_commandService := Some s'\<rparr>)"
proof -
  from assms(1,2) obtain k where "k \<le> n" "service_run E k s" by (auto simp: server_ok_def)
  with assms(3) have "Suc k \<le> Suc n \<and> service_run E (Suc k) s'" by simp
  with assms(1,2) show ?thesis unfolding server_ok_def by auto
qed

lemma server_ok_disconnect: "server_ok E n srv \<Longrightarrow> server_ok E n (disconnectClient srv)"
  unfolding server_ok_def disconnectClient_def by (auto simp: client_fd_def elim: framed_close)

lemma server_ok_read:
  assumes "server_ok E n srv" "read_request C T deferred srv = Some (srv1, answer)"
  shows "server_ok E n srv1 \<and> ws_commandService srv1 = ws_commandService srv \<and> ws_wire srv1 = ws_wire srv"
proof (cases deferred)
  case (Some bytes)
  with assms show ?thesis by (simp add: read_request_def)
next
  case None
  with assms(2) obtain ch ch' sk ok f why where ch: "ws_client srv = Some ch" "readFrame (tr_alloc T) (tr_read T) (ws_socket srv) ch = Some (ch', sk, ok, f, why)"
    "srv1 = srv\<lparr>ws_client := Some ch', ws_socket := sk\<rparr>"
    by (auto simp: read_request_def readMessageImpl_def split: option.splits)
  from readFrame_fd [OF ch(2)] have "client_fd (Some ch') = client_fd (Some ch) \<or> client_fd (Some ch') < 0"
    by (auto simp: client_fd_def)
  with assms(1) ch show ?thesis unfolding server_ok_def by (auto elim: framed_close)
qed

lemma server_ok_processFrame:
  assumes "server_ok E n srv" "processFrame E C T deferred srv = Some (srv', ok)"
  shows "server_ok E (Suc n) srv'"
proof -
  obtain srv1 answer where r: "read_request C T deferred srv = Some (srv1, answer)"
    using assms(2) by (auto simp: processFrame_def split: option.splits)
  have ok1: "server_ok E n srv1" using server_ok_read [OF assms(1) r] by blast
  show ?thesis
  proof (cases answer)
    case (Inl why)
    with assms(2) r ok1 show ?thesis by (auto simp: processFrame_def intro: server_ok_mono)
  next
    case (Inr request)
    with assms(2) r obtain s s' resp where d: "ws_commandService srv1 = Some s" "dispatch E (tr_world T) request s = Some (s', resp)"
      "if cs_disconnectRequested s' then srv' = srv1\<lparr>ws_commandService := Some s'\<rparr>
       else writeResponse C T resp (srv1\<lparr>ws_commandService := Some s'\<rparr>) = Some (srv', ok)"
      by (auto simp: processFrame_def Let_def split: option.splits if_splits)
    have "server_ok E (Suc n) (srv1\<lparr>ws_commandService := Some s'\<rparr>)"
      using server_ok_service [OF ok1 d(1)] service_run.request d(2) by blast
    with d(3) show ?thesis by (auto intro: server_ok_writes writeResponse_writes split: if_splits)
  qed
qed

lemma server_ok_ocr:
  assumes "server_ok E n srv" "writeOcrNotifications C T srv = Some (srv', ok)"
  shows "server_ok E (Suc n) srv'"
proof -
  obtain s jobs ns where d: "ws_commandService srv = Some s" "drainNotifications (cs_ocrJobs s) = (jobs, ns)"
    "write_notifications C T (map (\<lambda>n. NtOcrDone \<lparr>odn_jobId = on_id n, odn_page = on_page n\<rparr>) ns)
       (srv\<lparr>ws_commandService := Some (s\<lparr>cs_ocrJobs := jobs\<rparr>)\<rparr>) = Some (srv', ok)"
    using assms(2) by (auto simp: writeOcrNotifications_def split: option.splits prod.splits)
  have "service_run E k s \<Longrightarrow> service_run E (Suc k) (s\<lparr>cs_ocrJobs := jobs\<rparr>)" for k
    using service_run.jobs [where E = E and k = k and s = s and o' = jobs and x = "cs_exportJobs s"] by simp
  from server_ok_writes [OF server_ok_service [OF assms(1) d(1) this] write_notifications_writes [OF d(3)]] show ?thesis .
qed

lemma server_ok_export:
  assumes "server_ok E n srv" "writeExportNotifications C T srv = Some (srv', ok)"
  shows "server_ok E (Suc n) srv'"
proof -
  obtain s jobs ns where d: "ws_commandService srv = Some s" "export_drainNotifications (w_now (tr_world T)) (cs_exportJobs s) = (jobs, ns)"
    "write_notifications C T (map NtExportProgress ns) (srv\<lparr>ws_commandService := Some (s\<lparr>cs_exportJobs := jobs\<rparr>)\<rparr>) = Some (srv', ok)"
    using assms(2) by (auto simp: writeExportNotifications_def split: option.splits prod.splits)
  have "service_run E k s \<Longrightarrow> service_run E (Suc k) (s\<lparr>cs_exportJobs := jobs\<rparr>)" for k
    using service_run.jobs [where E = E and k = k and s = s and o' = "cs_ocrJobs s" and x = jobs] by simp
  from server_ok_writes [OF server_ok_service [OF assms(1) d(1) this] write_notifications_writes [OF d(3)]] show ?thesis .
qed

lemma server_ok_links:
  assumes "server_ok E n srv" "writePageLinks E C T srv = Some (srv', ok)"
  shows "server_ok E (Suc (Suc n)) srv'"
proof -
  from assms(2) obtain s where s: "ws_commandService srv = Some s" by (auto simp: writePageLinks_def split: option.splits)
  obtain s1 reply where p: "processPageLinks E s = (s1, reply)" by fastforce
  define srv1 where "srv1 = srv\<lparr>ws_commandService := Some s1\<rparr>"
  have ok1: "server_ok E (Suc n) srv1"
    using server_ok_service [OF assms(1) s] service_run.links p unfolding srv1_def by (metis fst_conv)
  have ok2: "server_ok E (Suc (Suc n)) (srv\<lparr>ws_commandService := Some (cancelPageLinks E s1)\<rparr>)"
    using server_ok_service [OF ok1 _ service_run.cancel, of s1] unfolding srv1_def by simp
  have m: "server_ok E (Suc (Suc n)) srv1" using server_ok_mono [OF ok1] by simp
  show ?thesis
  proof (cases reply)
    case None
    with assms(2) s p m show ?thesis by (simp add: writePageLinks_def srv1_def)
  next
    case (Some nt)
    show ?thesis
    proof (cases "encodeImpl (cx_notification C) NotificationKind \<lparr>ntm_payload = NtPageLinks nt\<rparr>")
      case (Inl e)
      then show ?thesis using assms(2) s p Some m ok2
        by (cases "fst e") (auto simp: writePageLinks_def srv1_def intro: server_ok_writes send_message_writes split: prod.splits)
    next
      case (Inr data)
      then have "send_frame T data srv1 = Some (srv', ok)" using assms(2) s p Some by (simp add: writePageLinks_def srv1_def)
      from server_ok_writes [OF m send_frame_writes [OF this]] show ?thesis .
    qed
  qed
qed

section \<open>Turns\<close>

lemma replace_watch_set: "replace_watch fd w ws = Some ws' \<Longrightarrow> set ws' \<subseteq> insert w (set ws) \<and> length ws' = length ws"
  by (induction ws arbitrary: ws') (auto split: if_splits)

lemma watch_set: "set (fst (watch fd events callback ws)) \<subseteq> insert (fd, events, callback) (set ws)"
  by (auto simp: watch_def dest: replace_watch_set split: option.split)

lemma watch_length: "length (fst (watch fd events callback ws)) \<le> Suc (length ws)"
  by (auto simp: watch_def dest: replace_watch_set split: option.split)

lemma server_watches_callbacks:
  assumes "w \<in> set (server_watches E C T client s)"
  shows "snd (snd w) = client_callback E C T \<or> snd (snd w) = ocr_callback C T \<or> snd (snd w) = (\<lambda>_. Some)"
proof -
  let ?cbs = "{client_callback E C T, ocr_callback C T, \<lambda>_. Some}"
  have step: "snd (snd w) \<in> ?cbs" if "w \<in> set (fst (watch fd ev cb ws))" "cb \<in> ?cbs" "\<forall>w \<in> set ws. snd (snd w) \<in> ?cbs" for fd ev cb ws w
    using watch_set [of fd ev cb ws] that by auto
  have "snd (snd w) \<in> ?cbs"
    using assms unfolding server_watches_def Let_def by (auto split: if_splits dest!: step)
  then show ?thesis by auto
qed

lemma server_watches_length: "length (server_watches E C T client s) \<le> 3"
proof -
  have grow: "length (fst (watch fd ev cb ws)) \<le> 3" if "Suc (length ws) \<le> 3" for fd ev cb and ws :: "('a WorkerServer \<times> bool) Watch list"
    using watch_length [of fd ev cb ws] that by simp
  have two: "length (fst (watch fd ev cb ws)) \<le> 2" if "length ws \<le> 1" for fd ev cb and ws :: "('a WorkerServer \<times> bool) Watch list"
    using watch_length [of fd ev cb ws] that by simp
  have "length (fst (watch fd ev cb ([] :: ('a WorkerServer \<times> bool) Watch list))) \<le> 1" for fd ev cb
    using watch_length [of fd ev cb "[]"] by simp
  then show ?thesis unfolding server_watches_def Let_def using grow two by (auto simp: le_SucI)
qed

lemma callbacks_ok:
  assumes "server_ok E n (fst st)"
  shows "client_callback E C T revents st = Some st' \<Longrightarrow> server_ok E (Suc n) (fst st')"
    and "ocr_callback C T revents st = Some st' \<Longrightarrow> server_ok E (Suc n) (fst st')"
  using assms server_ok_mono [OF assms, of "Suc n"]
  by (auto simp: client_callback_def ocr_callback_def split: if_splits intro: server_ok_processFrame server_ok_ocr)

interpretation loop: poll_client "\<lambda>n st. server_ok E n (fst st)" "server_watches E C T client s" for E C T client s
proof
  show "server_ok E n (fst st) \<Longrightarrow> n \<le> m \<Longrightarrow> server_ok E m (fst st)" for n m st by (rule server_ok_mono)
  show "server_ok E (Suc n) (fst st')"
    if "w \<in> set (server_watches E C T client s)" "server_ok E n (fst st)" "snd (snd w) revents st = Some st'" for w n st revents st'
    using server_watches_callbacks [OF that(1)]
  proof (elim disjE)
    assume "snd (snd w) = client_callback E C T"
    then show ?thesis using callbacks_ok(1) [OF that(2)] that(3) by metis
  next
    assume "snd (snd w) = ocr_callback C T"
    then show ?thesis using callbacks_ok(2) [OF that(2)] that(3) by metis
  next
    assume "snd (snd w) = (\<lambda>_. Some)"
    then show ?thesis using server_ok_mono [OF that(2), of "Suc n"] that(3) by simp
  qed
qed

lemma server_ok_finish:
  assumes "server_ok E n (fst st)" "finish_turn E C T idle ready st = Some (srv', idle', code)"
  shows "server_ok E (n + 2) srv'"
proof -
  from assms(2) obtain srv d s where a: "(if snd st then Some st else map_option (\<lambda>(srv', ok). (srv', \<not> ok)) (writeExportNotifications C T (fst st))) = Some (srv, d)"
    "ws_commandService srv = Some s" by (auto simp: finish_turn_def split: option.splits prod.splits)
  have ok1: "server_ok E (Suc n) srv"
    using a(1) assms(1) server_ok_export [OF assms(1)] by (auto split: if_splits intro: server_ok_mono)
  define srv1 where "srv1 = (if ready = 0 \<and> cs_pendingPageLinks s = None
     then srv\<lparr>ws_commandService := Some (fst (maybeIdleTrim E (w_now (tr_world T)) (idle + tr_elapsed T) s))\<rparr> else srv)"
  have "server_ok E (Suc (Suc n)) srv1"
    using server_ok_service [OF ok1 a(2) service_run.trim] server_ok_mono [OF ok1, of "Suc (Suc n)"] by (simp add: srv1_def)
  moreover have "srv' = (if d then disconnectClient srv1 else srv1)"
    using assms(2) a by (auto simp: finish_turn_def srv1_def Let_def split: if_splits)
  ultimately show ?thesis using server_ok_disconnect by auto
qed

lemma server_ok_poll:
  assumes "server_ok E n srv" "poll_turn E C T srv idle = Some (srv', idle', code)"
  shows "server_ok E (n + 6) srv'"
proof -
  from assms(2) obtain client s st ready where p: "ws_client srv = Some client" "ws_commandService srv = Some s"
    "runOnce (tr_poll T) (server_watches E C T client s) (srv\<lparr>ws_commandService := Some (move_jobs T s)\<rparr>, False) = Some (st, ready)"
    "if ready < 0 then srv' = fst st else finish_turn E C T idle ready st = Some (srv', idle', code)"
    by (auto simp: poll_turn_def split: option.splits if_splits)
  have "server_ok E (Suc n) (fst (srv\<lparr>ws_commandService := Some (move_jobs T s)\<rparr>, False))"
    using server_ok_service [OF assms(1) p(2) service_run.jobs] by (simp add: move_jobs_def split: prod.split)
  then have "server_ok E (Suc n + length (server_watches E C T client s)) (fst st)" by (rule loop.runOnce_inv [OF _ p(3)])
  then have ok: "server_ok E (n + 4) (fst st)"
    using server_watches_length [of E C T client s] by (auto elim: server_ok_mono)
  show ?thesis
  proof (cases "ready < 0")
    case True
    with p(4) ok show ?thesis by (auto elim: server_ok_mono)
  next
    case False
    with p(4) server_ok_finish [OF ok] show ?thesis by (simp add: add.commute)
  qed
qed

lemma server_ok_session:
  assumes "server_ok E n srv" "session_turn E C T srv idle = Some (srv', idle', code)"
  shows "server_ok E (n + 8) srv'"
proof -
  from assms(2) obtain s where s: "ws_commandService srv = Some s" by (auto simp: session_turn_def split: option.splits)
  obtain s1 deferred where t: "takeDeferredIncoming s = (s1, deferred)" by fastforce
  show ?thesis
  proof (cases deferred)
    case (Some bytes)
    have ok1: "server_ok E (Suc n) (srv\<lparr>ws_commandService := Some s1\<rparr>)"
      using server_ok_service [OF assms(1) s] service_run.deferred t by (metis fst_conv)
    from assms(2) s t Some obtain srv1 ok where p: "processFrame E C T (Some bytes) (srv\<lparr>ws_commandService := Some s1\<rparr>) = Some (srv1, ok)"
      "srv' = srv1 \<or> srv' = disconnectClient srv1" by (auto simp: session_turn_def split: if_splits)
    have "server_ok E (n + 8) srv1" using server_ok_mono [OF server_ok_processFrame [OF ok1 p(1)]] by simp
    with p(2) server_ok_disconnect show ?thesis by auto
  next
    case None
    show ?thesis
    proof (cases "cs_pendingPageLinks s1 = None")
      case True
      then have "poll_turn E C T srv idle = Some (srv', idle', code)" using assms(2) s t None by (simp add: session_turn_def)
      from server_ok_mono [OF server_ok_poll [OF assms(1) this]] show ?thesis by simp
    next
      case False
      then obtain srv1 ok where w: "writePageLinks E C T srv = Some (srv1, ok)"
        "if ok then poll_turn E C T srv1 idle = Some (srv', idle', code) else srv' = disconnectClient srv1"
        using assms(2) s t None by (auto simp: session_turn_def split: option.splits if_splits)
      note ok1 = server_ok_links [OF assms(1) w(1)]
      show ?thesis
      proof (cases ok)
        case True
        with w(2) server_ok_poll [OF ok1] show ?thesis by (simp add: add.commute)
      next
        case False
        with w(2) server_ok_disconnect [OF server_ok_mono [OF ok1, of "n + 8"]] show ?thesis by simp
      qed
    qed
  qed
qed

lemma framed_empty [simp]: "framed client []"
  unfolding framed_def by (intro exI [of _ "[]"]) simp

lemma accepted_ok:
  assumes "server_ok E n srv" "acceptClient T srv = Some (srv', accepted, result)"
  shows "server_ok E n srv'"
proof (cases accepted)
  case True
  with assms(2) show ?thesis
    by (auto simp: acceptClient_def server_ok_def intro!: exI [of _ 0] service_run.start split: option.splits if_splits)
next
  case False
  with assms show ?thesis by (auto simp: acceptClient_def split: option.splits if_splits)
qed

lemma server_ok_turn:
  assumes "server_ok E n srv" "run_turn E C T srv idle = Some (srv', idle', code)"
  shows "server_ok E (n + 8) srv'"
proof (cases "ws_client srv = None")
  case False
  with assms(2) server_ok_session [OF assms(1)] show ?thesis by (simp add: run_turn_def)
next
  case True
  with assms(2) obtain srv1 accepted result where a: "acceptClient T srv = Some (srv1, accepted, result)"
    "if accepted then session_turn E C T srv1 idle = Some (srv', idle', code) else srv' = srv1"
    by (auto simp: run_turn_def split: option.splits if_splits)
  note ok1 = accepted_ok [OF assms(1) a(1)]
  show ?thesis
  proof (cases accepted)
    case True
    with a(2) server_ok_session [OF ok1] show ?thesis by simp
  next
    case False
    with a(2) server_ok_mono [OF ok1, of "n + 8"] show ?thesis by simp
  qed
qed

text \<open>The states of the loop: what the server is before its turns, and after them.\<close>

inductive server_run :: "'d Engine \<Rightarrow> Codec \<Rightarrow> nat \<Rightarrow> 'd WorkerServer \<Rightarrow> int \<Rightarrow> int option \<Rightarrow> bool" for E C where
  start: "server_run E C 0 (WorkerServer_init fdc sandbox pid dirs) 0 None"
| turn: "server_run E C n srv idle None \<Longrightarrow> run_turn E C T srv idle = Some (srv', idle', code) \<Longrightarrow> server_run E C (Suc n) srv' idle' code"

lemma server_run_ok: "server_run E C n srv idle code \<Longrightarrow> server_ok E (8 * n) srv"
proof (induction rule: server_run.induct)
  case (start fdc sandbox pid dirs)
  then show ?case by (simp add: server_ok_def WorkerServer_init_def)
next
  case (turn n srv idle T srv' idle' code)
  with server_ok_turn [OF turn.IH turn.hyps(2)] show ?case by (simp add: add.commute)
qed

section \<open>Properties\<close>

lemma exit_disconnects:
  assumes "run_turn E C T srv idle = Some (srv', idle', Some 0)"
  shows "ws_client srv' = None \<and> ws_commandService srv' = None"
proof -
  have d: "ws_client (disconnectClient x) = None \<and> ws_commandService (disconnectClient x) = None" for x :: "'a WorkerServer"
    by (simp add: disconnectClient_def)
  have finish: "finish_turn E C T i r st = Some (srv', idle', Some 0) \<Longrightarrow> ws_client srv' = None \<and> ws_commandService srv' = None" for i r st
    by (auto simp: finish_turn_def Let_def d split: option.splits if_splits)
  have poll: "poll_turn E C T x i = Some (srv', idle', Some 0) \<Longrightarrow> ws_client srv' = None \<and> ws_commandService srv' = None" for x i
    using finish by (auto simp: poll_turn_def split: option.splits if_splits)
  have "session_turn E C T x i = Some (srv', idle', Some 0) \<Longrightarrow> ws_client srv' = None \<and> ws_commandService srv' = None" for x i
    using poll by (auto simp: session_turn_def d split: option.splits if_splits prod.splits)
  with assms show ?thesis by (auto simp: run_turn_def split: option.splits if_splits prod.splits)
qed

lemma server_exit: "server_run E C n srv idle (Some 0) \<Longrightarrow> ws_client srv = None \<and> ws_commandService srv = None"
  by (erule server_run.cases) (auto dest: exit_disconnects)

text \<open>
  C6. In every state the event loop reaches, for any requests, failures and poll results, a command service exists exactly
  while a client is connected and satisfies the session invariants, the bytes written to the client are whole frames
  (with a cut frame at the end only on a closed channel), and the loop returns zero only after it has torn the
  session down.
\<close>

theorem server_sessions:
  assumes "engine_laws E" "server_run E C n srv idle code" "n < 2 ^ 59"
  shows "(ws_client srv = None \<longleftrightarrow> ws_commandService srv = None)
    \<and> (case ws_commandService srv of None \<Rightarrow> True
       | Some s \<Rightarrow> length (cs_deferredIncoming s) \<le> 1024 \<and> cs_deferredIncomingBytes s \<le> 16777216 \<and> handles_ok s
           \<and> (\<exists>k issued. k < 2 ^ 64 - 1 \<and> pool_run k (cs_framePool s) None issued))
    \<and> (\<exists>fs. list_all (\<lambda>f. f \<noteq> [] \<and> length f \<le> MaxControlMessageBytes) fs
         \<and> (concat (ws_wire srv) = concat (map (\<lambda>f. encodeFrameLength (length f) @ f) fs)
            \<or> (client_fd (ws_client srv) < 0 \<and> (\<exists>f n. n < 4 + length f
                 \<and> concat (ws_wire srv) = concat (map (\<lambda>f. encodeFrameLength (length f) @ f) fs) @ take n (encodeFrameLength (length f) @ f)))))
    \<and> (code = Some 0 \<longrightarrow> ws_client srv = None)"
proof -
  note ok = server_run_ok [OF assms(2)]
  have "case ws_commandService srv of None \<Rightarrow> True
       | Some s \<Rightarrow> length (cs_deferredIncoming s) \<le> 1024 \<and> cs_deferredIncomingBytes s \<le> 16777216 \<and> handles_ok s
           \<and> (\<exists>k issued. k < 2 ^ 64 - 1 \<and> pool_run k (cs_framePool s) None issued)"
  proof (cases "ws_commandService srv")
    case (Some s)
    with ok obtain k where k: "k \<le> 8 * n" "service_run E k s" by (auto simp: server_ok_def)
    have "k < 2 ^ 62" using k(1) assms(3) by simp
    note st = service_state [OF assms(1) k(2) this]
    from st(1,3,5) Some show ?thesis by (simp add: deferred_inv_def limits)
  qed simp
  moreover have "framed (ws_client srv) (ws_wire srv)" using ok by (simp add: server_ok_def)
  then have "\<exists>fs. list_all (\<lambda>f. f \<noteq> [] \<and> length f \<le> MaxControlMessageBytes) fs
         \<and> (concat (ws_wire srv) = concat (map (\<lambda>f. encodeFrameLength (length f) @ f) fs)
            \<or> (client_fd (ws_client srv) < 0 \<and> (\<exists>f n. n < 4 + length f
                 \<and> concat (ws_wire srv) = concat (map (\<lambda>f. encodeFrameLength (length f) @ f) fs) @ take n (encodeFrameLength (length f) @ f))))"
    unfolding framed_def frame_ok_size_def frame_bytes_def by simp
  moreover have "code = Some 0 \<longrightarrow> ws_client srv = None" using server_exit assms(2) by blast
  moreover have "ws_client srv = None \<longleftrightarrow> ws_commandService srv = None" using ok by (simp add: server_ok_def)
  ultimately show ?thesis by blast
qed

lemma limit_response_facts:
  "rsm_id (limit_response r) = rsm_id r" "rsm_error (limit_response r) = None \<or> rsm_payload (limit_response r) = RsEmpty"
  "rsm_payload r = RsRender x \<Longrightarrow> rrs_links x \<noteq> None \<Longrightarrow> \<exists>y. rsm_payload (limit_response r) = RsRender y \<and> rrs_frame y = rrs_frame x"
  by (auto simp: limit_response_def failure_def split: ResponsePayload.split option.split)

lemma decode_response:
  assumes "reads_back (cx_response C) r" "encodeImpl (cx_response C) ResponseKind r = Inr data"
    and "rsm_id r \<noteq> 0" "rsm_error r = None \<or> rsm_payload r = RsEmpty"
  shows "decodeResponse C data = Inr r"
  using decode_encoded [OF assms(2,1)] assms(3,4) by (auto simp: decodeResponse_def validateDecodedResponse_def)

lemma send_frame_ok:
  assumes "send_frame T data srv = Some (srv', True)"
  shows "ws_wire srv' = ws_wire srv @ [frame_bytes data] \<and> ws_commandService srv' = ws_commandService srv"
  using assms by (auto simp: send_frame_def split: option.splits dest!: write_outcomes)

lemma writeResponse_ok:
  assumes "writeResponse C T r srv = Some (srv', True)"
  obtains data r' where "ws_wire srv' = ws_wire srv @ [frame_bytes data]" "encodeImpl (cx_response C) ResponseKind r' = Inr data"
    "r' = r \<or> r' = limit_response r" "ws_commandService srv' = ws_commandService srv"
proof (cases "encodeImpl (cx_response C) ResponseKind r")
  case (Inr data)
  with assms have "send_frame T data srv = Some (srv', True)" by (simp add: writeResponse_def)
  from send_frame_ok [OF this] Inr that [of data r] show ?thesis by simp
next
  case (Inl e)
  with assms obtain data where "encodeImpl (cx_response C) ResponseKind (limit_response r) = Inr data" "send_frame T data srv = Some (srv', True)"
    by (auto simp: writeResponse_def send_message_def split: if_splits sum.splits prod.splits)
  with send_frame_ok that [of data "limit_response r"] show ?thesis by blast
qed


lemma write_ignores_poll: "writeResponse C (T\<lparr>tr_poll := p, tr_read := turns\<rparr>) r srv = writeResponse C T r srv"
  by (simp add: writeResponse_def send_message_def send_frame_def split: option.split sum.split)

text \<open>
  Requests that arrived during a signing exchange come first: while any is set aside, a turn of the loop dispatches the
  oldest one and nothing else, without polling or reading the socket, and with the rest still queued in order; if it
  cannot be decoded the session ends.
\<close>

lemma deferred_first:
  assumes "ws_client srv = Some ch" "ws_commandService srv = Some s" "cs_deferredIncoming s = f # rest"
    and "run_turn E C T srv idle = Some (srv', idle', code)"
  shows "ws_socket srv' = ws_socket srv \<and> idle' = idle
    \<and> run_turn E C (T\<lparr>tr_poll := p, tr_read := turns\<rparr>) srv idle = Some (srv', idle', code)
    \<and> (case decodeRequest C f of
         Inl why \<Rightarrow> code = Some 0 \<and> ws_client srv' = None \<and> ws_wire srv' = ws_wire srv
       | Inr q \<Rightarrow> \<exists>s1 s2 r. takeDeferredIncoming s = (s1, Some f) \<and> cs_deferredIncoming s1 = rest
           \<and> dispatch E (tr_world T) q s1 = Some (s2, r) \<and> (code = None \<longrightarrow> ws_commandService srv' = Some s2))"
proof -
  define s1 where "s1 = s\<lparr>cs_deferredIncoming := rest, cs_deferredIncomingBytes := size_sub (cs_deferredIncomingBytes s) (length f)\<rparr>"
  have take: "takeDeferredIncoming s = (s1, Some f)" using assms(3) by (simp add: takeDeferredIncoming_def s1_def)
  define srv1 where "srv1 = srv\<lparr>ws_commandService := Some s1\<rparr>"
  have turn: "run_turn E C T' srv idle = map_option (\<lambda>(srv', ok). if ok then (srv', idle, None) else (disconnectClient srv', idle, Some 0))
     (processFrame E C T' (Some f) srv1)" for T'
    using assms(1,2) take by (simp add: run_turn_def session_turn_def srv1_def)
  have same: "processFrame E C (T\<lparr>tr_poll := p, tr_read := turns\<rparr>) (Some f) srv1 = processFrame E C T (Some f) srv1"
    by (simp add: processFrame_def read_request_def write_ignores_poll Let_def split: option.split sum.split)
  from assms(4) turn [of T] obtain srv2 ok where pf: "processFrame E C T (Some f) srv1 = Some (srv2, ok)"
    "srv' = (if ok then srv2 else disconnectClient srv2)" "idle' = idle" "code = (if ok then None else Some 0)"
    by (cases "processFrame E C T (Some f) srv1") (auto split: if_splits)
  show ?thesis
  proof (cases "decodeRequest C f")
    case (Inl why)
    with pf(1) have "srv2 = srv1" "\<not> ok" by (auto simp: processFrame_def read_request_def)
    with Inl pf(2-4) turn same assms(4) show ?thesis by (simp add: srv1_def disconnectClient_def)
  next
    case (Inr q)
    with pf(1) obtain s2 r where d: "dispatch E (tr_world T) q s1 = Some (s2, r)"
      "if cs_disconnectRequested s2 then srv2 = srv1\<lparr>ws_commandService := Some s2\<rparr>
       else writeResponse C T r (srv1\<lparr>ws_commandService := Some s2\<rparr>) = Some (srv2, ok)"
      by (auto simp: processFrame_def read_request_def srv1_def Let_def split: option.splits if_splits)
    have "only_writes (srv1\<lparr>ws_commandService := Some s2\<rparr>) srv2" using d(2) by (auto dest: writeResponse_writes split: if_splits)
    then have "ws_socket srv2 = ws_socket srv" "ws_commandService srv2 = Some s2" by (simp_all add: only_writes_def srv1_def)
    with Inr d(1) take pf(2-4) turn same assms(4) show ?thesis by (auto simp: s1_def disconnectClient_def)
  qed
qed

section \<open>A concrete session\<close>

text \<open>A codec that carries one request and its response, and a turn in which the peer takes every byte.\<close>

definition close5 :: RequestMessage where
  "close5 = \<lparr>rqm_id = 5, rqm_payload = RqClose\<rparr>"

definition codec0 :: Codec where
  "codec0 = \<lparr>cx_request = \<lparr>zp_out = (\<lambda>m. if m = close5 then Inr [2] else Inl (other_errc 0)),
       zp_in = (\<lambda>b. if b \<noteq> [] \<and> hd b = 2 then Inr (close5, 1) else Inl (other_errc 0)), zp_text = (\<lambda>_. ''codec'')\<rparr>,
     cx_response = \<lparr>zp_out = (\<lambda>m. if m = success 5 RsEmpty then Inr [1] else Inl (other_errc 0)),
       zp_in = (\<lambda>b. if b \<noteq> [] \<and> hd b = 1 then Inr (success 5 RsEmpty, 1) else Inl (other_errc 0)), zp_text = (\<lambda>_. ''codec'')\<rparr>,
     cx_notification = \<lparr>zp_out = (\<lambda>_. Inl (other_errc 0)), zp_in = (\<lambda>_. Inl (other_errc 0)), zp_text = (\<lambda>_. ''codec'')\<rparr>,
     cx_short = other_errc 1\<rparr>"

definition world5 :: World where
  "world5 = world0\<lparr>w_signEvents := replicate 1025 (5, Inl ''socket closed'')\<rparr>"

definition turn5 :: Turn where
  "turn5 = \<lparr>tr_world = world5, tr_euid = 1000, tr_accept = [(IO_Complete, Inr (3, Inr (1000, 42)))], tr_ocrEvent = 4, tr_exportEvent = 5,
     tr_memory = cs_memory service0, tr_alloc = (\<lambda>_. None), tr_read = [], tr_writes = (\<lambda>_. replicate 20 (WaitFlags True False False, SendUpTo 1)),
     tr_poll = CycleTimeout, tr_jobs = (\<lambda>j. j), tr_elapsed = 7\<rparr>"

definition frame5 :: "u8 list" where
  "frame5 = envelope RequestKind @ [2]"

definition server5 :: "bool WorkerServer" where
  "server5 = (WorkerServer_init True (cs_sandbox service0) 42 [])\<lparr>ws_client := Some (CtrlChannel_new 3), ws_commandService := Some service0\<rparr>"

lemma codec0_laws: "reads_back (cx_response codec0) r"
  by (simp add: reads_back_def codec0_def)

lemma world5_laws: "ld_rounding (w_rounding world5)" "MaxDeferredFrames < length (w_signEvents world5)"
  using exact_rounding by (simp_all add: world5_def world0_def limits)

lemma frame5_decodes: "decodeRequest codec0 frame5 = Inr close5"
proof -
  have "reads_back (cx_request codec0) close5" "encodeImpl (cx_request codec0) RequestKind close5 = Inr frame5"
    by (simp_all add: reads_back_def codec0_def encodeImpl_def frame5_def limits)
  from decode_encoded [OF this(2,1)] show ?thesis by (simp add: decodeRequest_def validateDecodedRequest_def close5_def)
qed

lemma close5_dispatch: "dispatch engine0 W close5 s = Some (closeDocument engine0 (w_now W) s, success 5 RsEmpty)"
  by (simp add: dispatch_def close5_def validateInboundRequest_def)

lemma close_keeps_connection: "cs_disconnectRequested (closeDocument E now s) = cs_disconnectRequested s"
  by (simp add: closeDocument_def map_document_def)

lemma frame5_processed:
  assumes "ws_client srv = Some (CtrlChannel_new 3)" "ws_commandService srv = Some s" "\<not> cs_disconnectRequested s"
  shows "\<exists>srv'. processFrame engine0 codec0 turn5 (Some frame5) srv = Some (srv', True) \<and> ws_client srv' = Some (CtrlChannel_new 3)"
proof -
  define data where "data = envelope ResponseKind @ [1]"
  have e: "encodeImpl (cx_response codec0) ResponseKind (success 5 RsEmpty) = Inr data"
    by (simp add: encodeImpl_def codec0_def data_def limits)
  have "writeFrame (replicate 20 (WaitFlags True False False, SendUpTo 1)) data (CtrlChannel_new 3) = Some (CtrlChannel_new 3, True, frame_bytes data, [])"
    using encode_frame_ok [OF e] by (intro write_progress sending_replicate) (simp_all add: CtrlChannel_new_def data_def)
  with e assms show ?thesis
    by (simp add: processFrame_def read_request_def frame5_decodes close5_dispatch close_keeps_connection writeResponse_def send_frame_def Let_def
        turn5_def)
qed


text \<open>A host with the expected identity connects, and the first poll finds nothing.\<close>

theorem server_sessions_witness:
  "\<exists>srv. server_run engine0 codec0 1 srv 7 None \<and> ws_client srv = Some (CtrlChannel_new 3) \<and> ws_commandService srv \<noteq> None"
proof -
  define start where "start = (WorkerServer_init True (cs_sandbox service0) 42 [] :: bool WorkerServer)"
  have "\<exists>srv. run_turn engine0 codec0 turn5 start 0 = Some (srv, 7, None) \<and> ws_client srv = Some (CtrlChannel_new 3)"
    by (simp add: run_turn_def start_def WorkerServer_init_def acceptClient_def turn5_def verifyPeer_def valid_channel_def CtrlChannel_new_def
        session_turn_def takeDeferredIncoming_def CommandService_init_def poll_turn_def server_watches_def watch_def runOnce_def finish_turn_def
        writeExportNotifications_def export_drainNotifications_def drain_progress_def ExportJobs_init_def move_jobs_def Let_def OcrJobs_init_def)
  then obtain srv where t: "run_turn engine0 codec0 turn5 start 0 = Some (srv, 7, None)" "ws_client srv = Some (CtrlChannel_new 3)" by blast
  have "server_run engine0 codec0 0 start 0 None" unfolding start_def by (rule server_run.start)
  from server_run.turn [OF this t(1)] have r: "server_run engine0 codec0 1 srv 7 None" by simp
  from server_sessions [OF engine0_laws this] t(2) have "ws_commandService srv \<noteq> None" by auto
  with r t(2) show ?thesis by blast
qed

end
