(* ===== verification/Worker_Transport.thy ===== *)
theory Worker_Transport
  imports Zpp_Codec Frame_Buffer Validation Export_Options Std_Map
begin

unbundle bit_operations_syntax

text \<open>
  The host's end of a worker session (\<^verbatim>\<open>src/plugin/worker_transport.hpp\<close>, \<^verbatim>\<open>worker_transport.cpp\<close>,
  \<^verbatim>\<open>signing_authorization.hpp\<close>, \<^verbatim>\<open>util/request_timeout.hpp\<close>): one request at a time, notifications in between, the
  cache of mapped frame slots, background exports and signing. Process control, sockets and files are inputs: what they
  answer during a call is part of the call's environment. Spawning the worker is not modelled.
\<close>

section \<open>Timeouts\<close>

definition GenericOpMs :: int where "GenericOpMs = 5000"
definition PdfConversionMs :: int where "PdfConversionMs = 30000"
definition RenderMs :: int where "RenderMs = 15000"
definition OcrMs :: int where "OcrMs = 45000"
definition SignMs :: int where "SignMs = 45000"
definition ExportMs :: int where "ExportMs = 60000"

fun requestTimeoutFor :: "RequestPayload \<Rightarrow> int" where
  "requestTimeoutFor (RqRender r) = RenderMs"
| "requestTimeoutFor (RqOcrPage r) = OcrMs"
| "requestTimeoutFor (RqOcrResult r) = OcrMs"
| "requestTimeoutFor (RqOpen r) = (if opn_documentType r = DocumentType_value Doc_Kindle then ExportMs else GenericOpMs)"
| "requestTimeoutFor (RqExport r) =
     (if exq_asynchronous r \<or> eo_profileId (exq_options r) = ExportProfileId_value EPI_Native then GenericOpMs
      else if eo_profileId (exq_options r) = ExportProfileId_value EPI_Converted then ExportMs else PdfConversionMs)"
| "requestTimeoutFor (RqSynopsis r) = (if syn_generateFallback r then 30000 else GenericOpMs)"
| "requestTimeoutFor (RqSign r) = SignMs"
| "requestTimeoutFor payload = GenericOpMs"

section \<open>State\<close>

record SigningAuthorization =
  sa_requestId :: u64
  sa_certificateNickname :: string
  sa_consumed :: bool

definition no_authorization :: SigningAuthorization where
  "no_authorization = \<lparr>sa_requestId = 0, sa_certificateNickname = [], sa_consumed = False\<rparr>"

definition authorization_accept :: "SignInput \<Rightarrow> SigningAuthorization \<Rightarrow> SigningAuthorization \<times> bool" where
  "authorization_accept input a =
     (if sa_requestId a = 0 \<or> sa_consumed a \<or> si_jobId input \<noteq> sa_requestId a
         \<or> si_certificateNickname input \<noteq> sa_certificateNickname a
      then (a, False) else (a\<lparr>sa_consumed := True\<rparr>, True))"

record PendingExport =
  pe_target :: string
  pe_jobId :: u64

text \<open>A mapped frame slot: the memory it shows and its size.\<close>

record FrameSlotMapping =
  fs_mapping :: nat
  fs_size :: u64

datatype Signal =
  OperationFailed string ErrorCode
  | ProcessExited int
  | OcrDone u64 int
  | PageLinksReady u64 "PageLinks list" bool string
  | ExportProgressed ExportProgressNotification

text \<open>
  \<open>wt_releases\<close> are the queued releases of frame leases, with their sessions.
  \<open>wt_sent\<close>, \<open>wt_signals\<close>, \<open>wt_cms\<close> and \<open>wt_published\<close> record what leaves the transport: requests, signals, signatures made
  (certificate, password, digest) and the targets onto which finished output was renamed.
\<close>

record WorkerTransport =
  wt_ctrl :: bool
  wt_running :: bool
  wt_notifier :: "bool option"
  wt_signingAuthorization :: SigningAuthorization
  wt_activeSignPassword :: string
  wt_export :: "PendingExport option"
  wt_exportTimer :: bool
  wt_frameSlots :: "(u64, FrameSlotMapping) std_map"
  wt_nextId :: u64
  wt_nextTransfer :: u64
  wt_linkGeneration :: u64
  wt_documentEpoch :: u64
  wt_frameSession :: u64
  wt_intentionalStop :: bool
  wt_inFlight :: bool
  wt_tempPath :: string
  wt_sourceFile :: bool
  wt_pdfPageCount :: int
  wt_pdfSynopsis :: "OutlineNode list option"
  wt_pdfSynopsisGenerated :: bool
  wt_releases :: "(u64 \<times> u64 \<times> u64) list"
  wt_sent :: "RequestMessage list"
  wt_signals :: "Signal list"
  wt_cms :: "(string \<times> string \<times> u8 list) list"
  wt_published :: "string list"

record CmsAnswer =
  ca_result :: SigningResult
  ca_details :: string
  ca_cms :: "u8 list"

text \<open>What \<open>fstat\<close> and \<open>F_GET_SEALS\<close> say of a descriptor.\<close>

record FdStat =
  st_ok :: bool
  st_regular :: bool
  st_size :: int
  st_seals :: int

text \<open>
  What one call meets: whether each message can be written whole, per iteration of the receive loop the time left and the
  frame or read error, what draining the idle channel finds, the signing back end, the outcome of publishing a file, the
  descriptor channel, the shared memory the host can see, and whether an image can be made of a mapping.
\<close>

record Host =
  h_codec :: Codec
  h_write :: "RequestMessage \<Rightarrow> string option"
  h_events :: "(int \<times> (string + u8 list)) list"
  h_idle :: "(ReadStatus \<times> u8 list) list"
  h_cms :: "string \<Rightarrow> string \<Rightarrow> u8 list \<Rightarrow> CmsAnswer"
  h_finalize :: "string \<Rightarrow> string option"
  h_fdSend :: "u64 \<Rightarrow> string option"
  h_fdReceive :: "u64 \<Rightarrow> int"
  h_stat :: "int \<Rightarrow> FdStat"
  h_mmap :: "nat \<Rightarrow> int \<Rightarrow> nat option"
  h_header :: "nat \<Rightarrow> FrameBufferHeader"
  h_imageOk :: bool

definition isConnected :: "WorkerTransport \<Rightarrow> bool" where
  "isConnected t \<longleftrightarrow> wt_ctrl t \<and> wt_running t"

definition emit :: "Signal \<Rightarrow> WorkerTransport \<Rightarrow> WorkerTransport" where
  "emit signal t = t\<lparr>wt_signals := wt_signals t @ [signal]\<rparr>"

section \<open>Exports and teardown\<close>

definition completeExport :: "Host \<Rightarrow> bool \<Rightarrow> string \<Rightarrow> WorkerTransport \<Rightarrow> WorkerTransport" where
  "completeExport H ok error t =
     (case wt_export t of
        None \<Rightarrow> t
      | Some pending \<Rightarrow>
        let delivered = (ok \<and> h_finalize H (pe_target pending) = None);
            error' = (if \<not> delivered \<and> error = [] then ''export failed'' else error)
        in emit (ExportProgressed \<lparr>epn_jobId = pe_jobId pending, epn_completed = 0, epn_total = 0,
                   epn_phase = (if delivered then EPH_Succeeded else EPH_Failed), epn_error = error'\<rparr>)
             (t\<lparr>wt_exportTimer := False, wt_export := None,
                wt_published := wt_published t @ (if delivered then [pe_target pending] else [])\<rparr>))"

definition clearDocumentState :: "WorkerTransport \<Rightarrow> WorkerTransport" where
  "clearDocumentState t =
     t\<lparr>wt_documentEpoch := wt_documentEpoch t + 1, wt_tempPath := [], wt_sourceFile := False, wt_pdfPageCount := 0,
       wt_pdfSynopsis := None\<rparr>"

text \<open>Terminating the process waits for it and kills it if it does not go.\<close>

definition cleanupSession :: "Host \<Rightarrow> WorkerTransport \<Rightarrow> WorkerTransport" where
  "cleanupSession H t =
     (let t1 = clearDocumentState (t\<lparr>wt_frameSession := wt_frameSession t + 1, wt_frameSlots := [], wt_notifier := None,
                 wt_ctrl := False, wt_running := False\<rparr>)
      in completeExport H False ''worker terminated''
           (t1\<lparr>wt_signingAuthorization := no_authorization, wt_activeSignPassword := [], wt_inFlight := False\<rparr>))"

definition stop :: "Host \<Rightarrow> WorkerTransport \<Rightarrow> WorkerTransport" where
  "stop H t = cleanupSession H (t\<lparr>wt_intentionalStop := True\<rparr>)"

definition abort_session :: "Host \<Rightarrow> WorkerTransport \<Rightarrow> WorkerTransport" where
  "abort_session H t = cleanupSession H (t\<lparr>wt_intentionalStop := False\<rparr>)"

definition finished :: "int \<Rightarrow> WorkerTransport \<Rightarrow> WorkerTransport" where
  "finished code t = (if wt_intentionalStop t then t else emit (ProcessExited code) t)"

section \<open>Notifications\<close>

definition send_request :: "Host \<Rightarrow> RequestMessage \<Rightarrow> WorkerTransport \<Rightarrow> WorkerTransport \<times> string option" where
  "send_request H m t = (case h_write H m of None \<Rightarrow> (t\<lparr>wt_sent := wt_sent t @ [m]\<rparr>, None) | Some why \<Rightarrow> (t, Some why))"

definition handle_export :: "Host \<Rightarrow> ExportProgressNotification \<Rightarrow> WorkerTransport \<Rightarrow> WorkerTransport" where
  "handle_export H progress t =
     (case wt_export t of
        None \<Rightarrow> t
      | Some pending \<Rightarrow>
        if pe_jobId pending \<noteq> epn_jobId progress then t
        else if export_done progress then completeExport H (epn_phase progress = EPH_Succeeded) (epn_error progress) t
        else if (epn_phase progress = EPH_CreatingPages \<or> epn_phase progress = EPH_Finalizing)
                \<and> epn_total progress > 0 \<and> epn_completed progress > 0 \<and> epn_completed progress \<le> epn_total progress
                \<and> (epn_phase progress = EPH_Finalizing) = (epn_completed progress = epn_total progress)
             then emit (ExportProgressed progress) t
             else t)"

definition handle_sign :: "Host \<Rightarrow> SignInput \<Rightarrow> WorkerTransport \<Rightarrow> WorkerTransport \<times> string option" where
  "handle_sign H input t =
     (if \<not> wt_inFlight t then (t, Some ''unauthorized signing notification'')
      else case authorization_accept input (wt_signingAuthorization t) of
        (a, False) \<Rightarrow> (t, Some ''unauthorized signing notification'')
      | (a, True) \<Rightarrow>
        let cms = h_cms H (sa_certificateNickname a) (wt_activeSignPassword t) (si_digest input);
            t1 = t\<lparr>wt_signingAuthorization := a,
                   wt_cms := wt_cms t @ [(sa_certificateNickname a, wt_activeSignPassword t, si_digest input)],
                   wt_nextId := wt_nextId t + 1\<rparr>;
            reply = \<lparr>sr_jobId = si_jobId input, sr_nonce = si_nonce input, sr_result = ca_result cms,
                     sr_details = ca_details cms, sr_cmsSignature = ca_cms cms\<rparr>
        in case send_request H \<lparr>rqm_id = wt_nextId t, rqm_payload = RqSignReply reply\<rparr> t1 of
             (t2, None) \<Rightarrow> (t2, None)
           | (t2, Some why) \<Rightarrow> (t2, Some (''sign reply write failed: '' @ why)))"

definition handleNotification :: "Host \<Rightarrow> NotificationMessage \<Rightarrow> WorkerTransport \<Rightarrow> WorkerTransport \<times> string option" where
  "handleNotification H notification t =
     (case ntm_payload notification of
        NtOcrDone done_note \<Rightarrow> (emit (OcrDone (odn_jobId done_note) (odn_page done_note)) t, None)
      | NtExportProgress progress \<Rightarrow> (handle_export H progress t, None)
      | NtPageLinks links \<Rightarrow>
          (if pln_generation links = wt_linkGeneration t
           then emit (PageLinksReady (wt_documentEpoch t) (pln_pages links) (pln_resourceLimited links) (pln_error links)) t else t, None)
      | NtSignInput input \<Rightarrow> handle_sign H input t)"

text \<open>After the listed results, the channel has no complete frame left.\<close>

fun drain_idle :: "Host \<Rightarrow> (ReadStatus \<times> u8 list) list \<Rightarrow> WorkerTransport \<Rightarrow> WorkerTransport" where
  "drain_idle H [] t = t"
| "drain_idle H ((status, frame) # rest) t =
     (if status = RS_NoData \<or> status = RS_Partial then t
      else if status = RS_Closed \<or> status = RS_Error then abort_session H t
      else case decodeNotification (h_codec H) frame of
        Inr notification \<Rightarrow>
          (case handleNotification H notification t of
             (t1, None) \<Rightarrow> drain_idle H rest t1
           | (t1, Some why) \<Rightarrow> abort_session H t1)
      | Inl why \<Rightarrow> abort_session H t)"

definition processIncomingNotifications :: "Host \<Rightarrow> WorkerTransport \<Rightarrow> WorkerTransport" where
  "processIncomingNotifications H t = (if wt_inFlight t \<or> \<not> wt_ctrl t then t else drain_idle H (h_idle H) t)"

section \<open>Calls\<close>

text \<open>\<open>None\<close> means that the events ended before the loop returned.\<close>

fun receiveResponse :: "Host \<Rightarrow> u64 \<Rightarrow> (int \<times> (string + u8 list)) list \<Rightarrow> WorkerTransport \<Rightarrow>
  (WorkerTransport \<times> ResponseMessage option) option" where
  "receiveResponse H requestId [] t = None"
| "receiveResponse H requestId ((remaining, incoming) # events) t =
     (if remaining \<le> 0 then Some (abort_session H t, None)
      else case incoming of
        Inl why \<Rightarrow> Some (abort_session H t, None)
      | Inr frame \<Rightarrow>
        (case decodeResponse (h_codec H) frame of
           Inr response \<Rightarrow>
             if rsm_id response = requestId then Some (t, Some response) else Some (abort_session H t, None)
         | Inl _ \<Rightarrow>
           (case decodeNotification (h_codec H) frame of
              Inl why \<Rightarrow> Some (abort_session H t, None)
            | Inr notification \<Rightarrow>
              (case handleNotification H notification t of
                 (t1, Some why) \<Rightarrow> Some (abort_session H t1, None)
               | (t1, None) \<Rightarrow> receiveResponse H requestId events t1))))"

definition in_flight_guard :: "WorkerTransport \<Rightarrow> WorkerTransport" where
  "in_flight_guard t =
     t\<lparr>wt_signingAuthorization := no_authorization, wt_activeSignPassword := [], wt_inFlight := False,
       wt_notifier := (if wt_notifier t \<noteq> None \<and> isConnected t then Some True else wt_notifier t)\<rparr>"

definition begin_call :: "RequestPayload \<Rightarrow> WorkerTransport \<Rightarrow> WorkerTransport" where
  "begin_call payload t =
     t\<lparr>wt_notifier := map_option (\<lambda>_. False) (wt_notifier t), wt_inFlight := True,
       wt_documentEpoch := (case payload of RqOpen r \<Rightarrow> wt_documentEpoch t + 1 | _ \<Rightarrow> wt_documentEpoch t),
       wt_nextId := wt_nextId t + 1,
       wt_signingAuthorization := (case payload of
          RqSign r \<Rightarrow> \<lparr>sa_requestId = wt_nextId t, sa_certificateNickname = sg_certificateNickname r, sa_consumed = False\<rparr>
        | _ \<Rightarrow> wt_signingAuthorization t)\<rparr>"

definition finish_call :: "RequestPayload \<Rightarrow> bool \<Rightarrow> ResponseMessage \<Rightarrow> WorkerTransport \<Rightarrow> WorkerTransport" where
  "finish_call payload reportFailure response t =
     (let t1 = (case rsm_error response of
                  Some e \<Rightarrow> if reportFailure \<and> err_code e \<noteq> EC_Cancelled then emit (OperationFailed (err_message e) (err_code e)) t else t
                | None \<Rightarrow> t)
      in case (payload, rsm_error response, rsm_payload response) of
           (RqOpen r, None, RsOpen opened) \<Rightarrow> t1\<lparr>wt_linkGeneration := opr_linkGeneration opened\<rparr>
         | _ \<Rightarrow> t1)"

definition defers_notifications :: "RequestPayload \<Rightarrow> bool" where
  "defers_notifications payload = (case payload of RqExport r \<Rightarrow> exq_asynchronous r | _ \<Rightarrow> False)"

definition call :: "Host \<Rightarrow> RequestPayload \<Rightarrow> bool \<Rightarrow> WorkerTransport \<Rightarrow> (WorkerTransport \<times> ResponseMessage option) option" where
  "call H payload reportFailure t =
     (if \<not> isConnected t then Some (t, None)
      else if wt_inFlight t then Some (abort_session H t, None)
      else case send_request H \<lparr>rqm_id = wt_nextId t, rqm_payload = payload\<rparr> (begin_call payload t) of
        (t1, Some why) \<Rightarrow> Some (in_flight_guard (abort_session H t1), None)
      | (t1, None) \<Rightarrow>
        (case receiveResponse H (wt_nextId t) (h_events H) t1 of
           None \<Rightarrow> None
         | Some (t2, None) \<Rightarrow> Some (in_flight_guard t2, None)
         | Some (t2, Some response) \<Rightarrow>
           let t3 = in_flight_guard (finish_call payload reportFailure response t2) in
           Some (if \<not> defers_notifications payload \<and> wt_notifier t3 \<noteq> None \<and> isConnected t3
                 then processIncomingNotifications H t3 else t3, Some response)))"

section \<open>Frames\<close>

definition frameSeals :: int where
  "frameSeals = 2 OR 4"

definition inspectFrameDescriptor :: "FdStat \<Rightarrow> string + nat" where
  "inspectFrameDescriptor st =
     (if \<not> st_ok st then Inl ''fstat''
      else if \<not> st_regular st \<or> st_size st < 0 then Inl ''frame descriptor is not a regular file''
      else case checkedFrameMappingSize (of_int (st_size st)) of
        None \<Rightarrow> Inl ''frame descriptor size is outside the permitted range''
      | Some mapped \<Rightarrow>
        if st_seals st < 0 \<or> st_seals st AND frameSeals \<noteq> frameSeals then Inl ''frame descriptor is not size-sealed'' else Inr mapped)"

definition receiveRenderFrame :: "Host \<Rightarrow> u64 \<Rightarrow> FrameSlotMapping option" where
  "receiveRenderFrame H transferId =
     (let fd = h_fdReceive H transferId in
      if fd < 0 then None
      else case inspectFrameDescriptor (h_stat H fd) of
        Inl why \<Rightarrow> None
      | Inr mapped \<Rightarrow> map_option (\<lambda>m. \<lparr>fs_mapping = m, fs_size = of_nat mapped\<rparr>) (h_mmap H mapped fd))"

definition releaseFrameSlot :: "Host \<Rightarrow> u64 \<Rightarrow> u64 \<Rightarrow> u64 \<Rightarrow> WorkerTransport \<Rightarrow> WorkerTransport option" where
  "releaseFrameSlot H session slotId leaseId t =
     (if session \<noteq> wt_frameSession t \<or> \<not> isConnected t then Some t
      else map_option fst (call H (RqReleaseFrameSlot \<lparr>rel_slotId = slotId, rel_leaseId = leaseId\<rparr>) False t))"

text \<open>An image over shared pixels: where they start, its geometry, and the lease its destruction releases.\<close>

record Image =
  im_pixels :: nat
  im_width :: int
  im_height :: int
  im_stride :: int
  im_lease :: "(u64 \<times> u64 \<times> u64) option"

definition cleanupFrameLease :: "u64 \<times> u64 \<times> u64 \<Rightarrow> WorkerTransport \<Rightarrow> WorkerTransport" where
  "cleanupFrameLease lease t = t\<lparr>wt_releases := wt_releases t @ [lease]\<rparr>"

definition createImage :: "Host \<Rightarrow> RenderFrame \<Rightarrow> FrameSlotMapping \<Rightarrow> (u64 \<times> u64 \<times> u64) option \<Rightarrow> WorkerTransport \<Rightarrow>
  WorkerTransport \<times> Image option" where
  "createImage H frame slot lease t =
     (if h_imageOk H
      then (t, Some \<lparr>im_pixels = framePixelData (fs_mapping slot), im_width = rf_width frame, im_height = rf_height frame,
                     im_stride = rf_stride frame, im_lease = lease\<rparr>)
      else (case lease of Some l \<Rightarrow> cleanupFrameLease l t | None \<Rightarrow> t, None))"

definition validFrame :: "Host \<Rightarrow> RenderFrame \<Rightarrow> u64 \<Rightarrow> FrameSlotMapping \<Rightarrow> bool" where
  "validFrame H frame requestId slot =
     validateRenderFrame (Some (h_header H (fs_mapping slot))) frame requestId (fs_size slot)"

text \<open>The slot a render response names: the known mapping, or a new one that comes with a descriptor.\<close>

definition find_slot :: "Host \<Rightarrow> RenderFrame \<Rightarrow> WorkerTransport \<Rightarrow> FrameSlotMapping option" where
  "find_slot H frame t =
     (case map_of (wt_frameSlots t) (rf_slotId frame) of
        Some slot \<Rightarrow> if rf_transferId frame \<noteq> 0 then None else Some slot
      | None \<Rightarrow>
        if rf_transferId frame = 0 \<or> length (wt_frameSlots t) \<ge> MaxFrameSlotCount then None
        else receiveRenderFrame H (rf_transferId frame))"

text \<open>\<open>reject\<close> is the environment of the release that a rejected slot triggers.\<close>

definition take_frame :: "Host \<Rightarrow> Host \<Rightarrow> u64 \<Rightarrow> RenderFrame \<Rightarrow> WorkerTransport \<Rightarrow> (WorkerTransport \<times> Image option) option" where
  "take_frame H reject requestId frame t =
     (if rf_slotId frame \<noteq> 0
      then
        if rf_leaseId frame = 0 then Some (t, None)
        else
          let rejectSlot = map_option (\<lambda>t'. (t', None)) (releaseFrameSlot reject (wt_frameSession t) (rf_slotId frame) (rf_leaseId frame) t)
          in case find_slot H frame t of
            None \<Rightarrow> rejectSlot
          | Some slot \<Rightarrow>
            if \<not> validFrame H frame requestId slot then rejectSlot
            else Some (createImage H frame slot (Some (wt_frameSession t, rf_slotId frame, rf_leaseId frame))
                        (t\<lparr>wt_frameSlots := map_emplace (rf_slotId frame) slot (wt_frameSlots t)\<rparr>))
      else if rf_transferId frame = 0 then Some (t, None)
      else case receiveRenderFrame H (rf_transferId frame) of
        None \<Rightarrow> Some (t, None)
      | Some slot \<Rightarrow> if \<not> validFrame H frame requestId slot then Some (t, None) else Some (createImage H frame slot None t))"

text \<open>\<open>sizeofLink\<close> is the size of a \<open>Link\<close> object; links are returned when the caller asks for them.\<close>

definition render_result_links :: "nat \<Rightarrow> bool \<Rightarrow> RenderResponse \<Rightarrow> WorkerTransport \<Rightarrow> RenderLinks option" where
  "render_result_links sizeofLink wanted render t =
     (case rrs_links render of
        Some links \<Rightarrow>
          if wanted \<and> rls_generation links = wt_linkGeneration t
          then Some (if isValidRenderLinks sizeofLink links then links
                     else \<lparr>rls_generation = wt_linkGeneration t, rls_links = [], rls_error = ''invalid render link metadata''\<rparr>)
          else None
      | None \<Rightarrow> None)"

definition transport_render :: "nat \<Rightarrow> Host \<Rightarrow> Host \<Rightarrow> int \<Rightarrow> int \<Rightarrow> int \<Rightarrow> RenderTile option \<Rightarrow> int \<Rightarrow> bool \<Rightarrow> WorkerTransport \<Rightarrow>
  (WorkerTransport \<times> Image option \<times> RenderLinks option) option" where
  "transport_render sizeofLink H reject page width height tile cancellationFd wanted t =
     (let request = \<lparr>rr_page = page, rr_width = width, rr_height = height, rr_tile = tile,
                     rr_cancelTransferId = (if cancellationFd \<ge> 0 then wt_nextTransfer t else 0),
                     rr_includeLinks = wanted, rr_generation = wt_linkGeneration t\<rparr>;
          t1 = (if cancellationFd \<ge> 0 then t\<lparr>wt_nextTransfer := wt_nextTransfer t + 1\<rparr> else t)
      in if cancellationFd \<ge> 0 \<and> h_fdSend H (rr_cancelTransferId request) \<noteq> None then Some (t1, None, None)
      else case call H (RqRender request) False t1 of
        None \<Rightarrow> None
      | Some (t2, None) \<Rightarrow> Some (t2, None, None)
      | Some (t2, Some response) \<Rightarrow>
        (case (rsm_error response, rsm_payload response) of
           (None, RsRender render) \<Rightarrow>
             map_option (\<lambda>(t3, image). (t3, image, render_result_links sizeofLink wanted render t2))
               (take_frame H reject (wt_nextId t) (rrs_frame render) t2)
         | _ \<Rightarrow> Some (t2, None, None)))"

section \<open>Documents\<close>

text \<open>\<open>opened\<close> tells whether the file could be opened; the pages and the accelerator are returned on success.\<close>

definition transport_open :: "Host \<Rightarrow> bool \<Rightarrow> string \<Rightarrow> string \<Rightarrow> DocumentType \<Rightarrow> u8 list \<Rightarrow> WorkerTransport \<Rightarrow>
  (WorkerTransport \<times> OpenStatus \<times> OpenResponse option) option" where
  "transport_open H opened fileName password type accelerator t =
     (if \<not> opened then Some (t, Open_Failed, None)
      else
        let transfer = wt_nextTransfer t; t1 = t\<lparr>wt_nextTransfer := transfer + 1\<rparr> in
        if h_fdSend H transfer \<noteq> None then Some (t1, Open_Failed, None)
        else case call H (RqOpen \<lparr>opn_file = \<lparr>ft_transferId = transfer\<rparr>, opn_displayName = fileName, opn_password = password,
                 opn_documentType = DocumentType_value type, opn_epubAccelerator = accelerator\<rparr>) False
                 (t1\<lparr>wt_linkGeneration := 0, wt_pdfSynopsis := None, wt_sourceFile := False, wt_pdfPageCount := 0\<rparr>) of
          None \<Rightarrow> None
        | Some (t2, None) \<Rightarrow> Some (t2, Open_Failed, None)
        | Some (t2, Some response) \<Rightarrow>
          (case rsm_error response of
             Some e \<Rightarrow> Some (t2, if err_code e = EC_PermissionDenied then Open_NeedsPassword else Open_Failed, None)
           | None \<Rightarrow>
             (case rsm_payload response of
                RsOpen result \<Rightarrow>
                  Some (t2\<lparr>wt_frameSlots := [],
                           wt_pdfPageCount := (if type = Doc_Pdf then int (length (opr_pages result)) else wt_pdfPageCount t2),
                           wt_sourceFile := True\<rparr>, Open_Success, Some result)
              | _ \<Rightarrow> Some (t2, Open_Failed, None))))"

text \<open>Data is staged in a file of its own, \<open>path\<close>, if it can be written.\<close>

definition openData :: "Host \<Rightarrow> string option \<Rightarrow> bool \<Rightarrow> string \<Rightarrow> string \<Rightarrow> DocumentType \<Rightarrow> WorkerTransport \<Rightarrow>
  (WorkerTransport \<times> OpenStatus \<times> OpenResponse option) option" where
  "openData H staged opened fileName password type t =
     (case staged of
        None \<Rightarrow> Some (t\<lparr>wt_tempPath := []\<rparr>, Open_Failed, None)
      | Some path \<Rightarrow>
        map_option (\<lambda>(t1, status, result). (if status = Open_Failed then t1\<lparr>wt_tempPath := []\<rparr> else t1, status, result))
          (transport_open H opened fileName password type [] (t\<lparr>wt_tempPath := path\<rparr>)))"

definition transport_close :: "Host \<Rightarrow> WorkerTransport \<Rightarrow> (WorkerTransport \<times> bool) option" where
  "transport_close H t =
     (case call H RqClose False (if wt_export t = None then t else t\<lparr>wt_exportTimer := False, wt_export := None\<rparr>) of
        None \<Rightarrow> None
      | Some (t1, response) \<Rightarrow>
        let ok = (case response of None \<Rightarrow> False | Some r \<Rightarrow> rsm_error r = None) in
        Some ((clearDocumentState (if ok then t1\<lparr>wt_frameSlots := []\<rparr> else t1))\<lparr>wt_linkGeneration := 0\<rparr>, ok))"

section \<open>Queries and mutations\<close>

text \<open>The payload of a successful response.\<close>

definition ok_payload :: "ResponseMessage option \<Rightarrow> ResponsePayload option" where
  "ok_payload response = (case response of Some r \<Rightarrow> if rsm_error r = None then Some (rsm_payload r) else None | None \<Rightarrow> None)"

definition ask :: "Host \<Rightarrow> RequestPayload \<Rightarrow> bool \<Rightarrow> (ResponsePayload option \<Rightarrow> 'a) \<Rightarrow> WorkerTransport \<Rightarrow> (WorkerTransport \<times> 'a) option" where
  "ask H payload report f t = map_option (\<lambda>(t1, r). (t1, f (ok_payload r))) (call H payload report t)"

definition resolveLink :: "Host \<Rightarrow> string \<Rightarrow> WorkerTransport \<Rightarrow> (WorkerTransport \<times> ResolvedLink) option" where
  "resolveLink H uri t =
     ask H (RqResolveLink \<lparr>rlq_uri = uri, rlq_generation = wt_linkGeneration t\<rparr>) False
       (\<lambda>p. case p of Some (RsResolveLink r) \<Rightarrow> rlr_target r | _ \<Rightarrow> no_link) t"

definition getTextBoxesForPage :: "Host \<Rightarrow> TextBoxesRequest \<Rightarrow> WorkerTransport \<Rightarrow> (WorkerTransport \<times> TextBox list \<times> bool) option" where
  "getTextBoxesForPage H q t =
     ask H (RqTextBoxes q) False (\<lambda>p. case p of Some (RsTextBoxes r) \<Rightarrow> (tbr_boxes r, True) | _ \<Rightarrow> ([], False)) t"

text \<open>The descriptor is sent only for a request that the worker will not reject.\<close>

definition requestOcr :: "Host \<Rightarrow> bool \<Rightarrow> int \<Rightarrow> string \<Rightarrow> int \<Rightarrow> WorkerTransport \<Rightarrow> (WorkerTransport \<times> ResponseMessage option) option" where
  "requestOcr H reopened page language dpi t =
     (let request = \<lparr>ocp_file = \<lparr>ft_transferId = wt_nextTransfer t\<rparr>, ocp_page = page, ocp_dpi = dpi, ocp_language = language\<rparr> in
      if isValidOcrPageRequest request \<noteq> Valid then Some (t, None)
      else if \<not> (wt_sourceFile t \<and> reopened) then Some (t, None)
      else
        let t1 = t\<lparr>wt_nextTransfer := wt_nextTransfer t + 1\<rparr> in
        if h_fdSend H (wt_nextTransfer t) \<noteq> None then Some (t1, None)
        else call H (RqOcrPage request) False t1)"

definition startOcrPage :: "Host \<Rightarrow> bool \<Rightarrow> int \<Rightarrow> string \<Rightarrow> int \<Rightarrow> WorkerTransport \<Rightarrow> (WorkerTransport \<times> u64 option) option" where
  "startOcrPage H reopened page language dpi t =
     map_option (\<lambda>(t1, r). (t1, case ok_payload r of Some (RsJob j) \<Rightarrow> Some (jr_jobId j) | _ \<Rightarrow> None))
       (requestOcr H reopened page language dpi t)"

definition transport_ocrResult :: "Host \<Rightarrow> u64 \<Rightarrow> WorkerTransport \<Rightarrow> (WorkerTransport \<times> OcrResult) option" where
  "transport_ocrResult H i t =
     ask H (RqOcrResult \<lparr>orq_jobId = i\<rparr>) False 
       (\<lambda>p. case p of Some (RsOcr r) \<Rightarrow> ocr_result r | _ \<Rightarrow> \<lparr>or_status = Ocr_Failed, or_boxes = []\<rparr>) t"

definition cancelOcrJobs :: "Host \<Rightarrow> WorkerTransport \<Rightarrow> (WorkerTransport \<times> bool) option" where
  "cancelOcrJobs H t = ask H RqCancelOcrJobs False (\<lambda>p. p \<noteq> None) t"

definition transport_fonts :: "Host \<Rightarrow> int \<Rightarrow> WorkerTransport \<Rightarrow> (WorkerTransport \<times> Font list) option" where
  "transport_fonts H page t = ask H (RqFonts \<lparr>foq_page = page\<rparr>) False (\<lambda>p. case p of Some (RsFonts r) \<Rightarrow> for_fonts r | _ \<Rightarrow> []) t"

definition transport_embeddedFiles :: "Host \<Rightarrow> WorkerTransport \<Rightarrow> (WorkerTransport \<times> EmbeddedFile list option) option" where
  "transport_embeddedFiles H t =
     ask H RqEmbeddedFiles True (\<lambda>p. case p of Some (RsEmbeddedFiles r) \<Rightarrow> Some (efr_files r) | _ \<Rightarrow> None) t"

definition valid_layers :: "ResponsePayload option \<Rightarrow> LayersResponse option" where
  "valid_layers p = (case p of Some (RsLayers r) \<Rightarrow> if isValidLayersResponse r then Some r else None | _ \<Rightarrow> None)"

definition transport_layers :: "Host \<Rightarrow> WorkerTransport \<Rightarrow> (WorkerTransport \<times> LayersResponse option) option" where
  "transport_layers H t = ask H RqLayers False valid_layers t"

definition transport_setLayer :: "Host \<Rightarrow> SetLayerRequest \<Rightarrow> WorkerTransport \<Rightarrow> (WorkerTransport \<times> LayersResponse option) option" where
  "transport_setLayer H q t = ask H (RqSetLayer q) False valid_layers t"

definition getDocumentInfo :: "Host \<Rightarrow> string list \<Rightarrow> WorkerTransport \<Rightarrow> (WorkerTransport \<times> DocumentMetadata) option" where
  "getDocumentInfo H wanted t =
     ask H (RqMetadata \<lparr>mdq_keys = wanted\<rparr>) False
       (\<lambda>p. case p of Some (RsMetadata r) \<Rightarrow> mdr_metadata r | _ \<Rightarrow> \<lparr>dm_values = [], dm_pageCount = 0, dm_mimeType = []\<rparr>) t"

definition addAnnotation :: "Host \<Rightarrow> int \<Rightarrow> Annotation \<Rightarrow> WorkerTransport \<Rightarrow> (WorkerTransport \<times> AnnotationHandle option) option" where
  "addAnnotation H page annotation t =
     ask H (RqAnnotationAdd \<lparr>aar_page = page, aar_annotation = annotation\<rparr>) True
       (\<lambda>p. case p of Some (RsAnnotation r) \<Rightarrow> Some (anr_handle r) | _ \<Rightarrow> None) t"

definition modifyAnnotation :: "Host \<Rightarrow> AnnotationMutation \<Rightarrow> WorkerTransport \<Rightarrow> (WorkerTransport \<times> bool) option" where
  "modifyAnnotation H m t = ask H (RqAnnotationModify \<lparr>amr_mutation = m\<rparr>) True (\<lambda>p. p \<noteq> None) t"

definition removeAnnotation :: "Host \<Rightarrow> int \<Rightarrow> string \<Rightarrow> WorkerTransport \<Rightarrow> (WorkerTransport \<times> bool) option" where
  "removeAnnotation H page handle t =
     ask H (RqAnnotationRemove \<lparr>arr_page = page, arr_handle = \<lparr>ah_value = handle\<rparr>\<rparr>) True (\<lambda>p. p \<noteq> None) t"

text \<open>The form operations look at the payload only; an error response has none.\<close>

definition ask_form :: "Host \<Rightarrow> RequestPayload \<Rightarrow> WorkerTransport \<Rightarrow> (WorkerTransport \<times> FormUpdateResponse option) option" where
  "ask_form H payload t =
     map_option (\<lambda>(t1, r). (t1, case r of Some r' \<Rightarrow> (case rsm_payload r' of RsFormUpdate u \<Rightarrow> Some u | _ \<Rightarrow> None) | None \<Rightarrow> None))
       (call H payload False t)"

definition updateForm :: "Host \<Rightarrow> FormUpdateRequest \<Rightarrow> WorkerTransport \<Rightarrow> (WorkerTransport \<times> FormUpdateResponse option) option" where
  "updateForm H q = ask_form H (RqFormUpdate q)"

definition resetForm :: "Host \<Rightarrow> FormResetRequest \<Rightarrow> WorkerTransport \<Rightarrow> (WorkerTransport \<times> FormUpdateResponse option) option" where
  "resetForm H q = ask_form H (RqFormReset q)"

definition clickFormButton :: "Host \<Rightarrow> FormButtonClickRequest \<Rightarrow> WorkerTransport \<Rightarrow> (WorkerTransport \<times> FormUpdateResponse option) option" where
  "clickFormButton H q = ask_form H (RqFormButtonClick q)"

definition setSettings :: "Host \<Rightarrow> DocumentSettings \<Rightarrow> WorkerTransport \<Rightarrow> (WorkerTransport \<times> bool) option" where
  "setSettings H q t =
     (if isValidDocumentSettings q \<noteq> Valid then Some (t, False)
      else ask H (RqSettings \<lparr>stq_settings = q\<rparr>) False (\<lambda>p. p \<noteq> None) t)"

section \<open>Outlines\<close>

text \<open>
  The cache of generated outlines is an input: the path for the source at each of the two times it is computed, empty when
  there is none, and what loading it gives. The last component of the result is the outline that is saved, if any.
\<close>

definition generated_synopsis :: "Host \<Rightarrow> string \<Rightarrow> string \<Rightarrow> WorkerTransport \<Rightarrow>
  (WorkerTransport \<times> OutlineNode list option \<times> bool \<times> OutlineNode list option) option" where
  "generated_synopsis H cachePath later t =
     (case call H (RqSynopsis \<lparr>syn_generateFallback = True\<rparr>) True t of
        None \<Rightarrow> None
      | Some (t1, r) \<Rightarrow>
        Some (case ok_payload r of
                Some (RsOutline outline) \<Rightarrow>
                  if \<not> wt_sourceFile t1 then (t1, None, False, None)
                  else (t1\<lparr>wt_pdfSynopsis := Some (olr_nodes outline), wt_pdfSynopsisGenerated := True\<rparr>, Some (olr_nodes outline), True,
                        if cachePath \<noteq> [] \<and> later = cachePath then Some (olr_nodes outline) else None)
              | _ \<Rightarrow> (t1, None, False, None)))"

definition transport_synopsis :: "Host \<Rightarrow> Host \<Rightarrow> bool \<Rightarrow> string \<Rightarrow> string \<Rightarrow> OutlineNode list option \<Rightarrow> WorkerTransport \<Rightarrow>
  (WorkerTransport \<times> OutlineNode list option \<times> bool \<times> OutlineNode list option) option" where
  "transport_synopsis H H' allowHeuristic cachePath later cached t =
     (if allowHeuristic \<and> wt_pdfSynopsis t \<noteq> None then Some (t, wt_pdfSynopsis t, wt_pdfSynopsisGenerated t, None)
      else case call H (RqSynopsis \<lparr>syn_generateFallback = False\<rparr>) True t of
        None \<Rightarrow> None
      | Some (t1, r) \<Rightarrow>
        (case ok_payload r of
           Some (RsOutline outline) \<Rightarrow>
             if wt_sourceFile t1 \<and> wt_pdfPageCount t1 > 0
             then
               if olr_nodes outline \<noteq> []
               then Some (t1\<lparr>wt_pdfSynopsis := Some (olr_nodes outline), wt_pdfSynopsisGenerated := False\<rparr>, Some (olr_nodes outline), False, None)
               else if \<not> allowHeuristic then Some (t1, Some [], False, None)
               else (case cached of
                       Some nodes \<Rightarrow> Some (t1\<lparr>wt_pdfSynopsis := Some nodes, wt_pdfSynopsisGenerated := True\<rparr>, Some nodes, True, None)
                     | None \<Rightarrow> generated_synopsis H' cachePath later t1)
             else Some (t1, Some (olr_nodes outline), False, None)
         | _ \<Rightarrow> Some (t1, None, False, None)))"

section \<open>Files\<close>

definition transport_outputFormats :: "Host \<Rightarrow> WorkerTransport \<Rightarrow> (WorkerTransport \<times> OutputFormatInfo list option) option" where
  "transport_outputFormats H t =
     ask H RqOutputFormats False (\<lambda>p. case p of Some (RsOutputFormats r) \<Rightarrow> Some (ofr_formats r) | _ \<Rightarrow> None) t"

definition canExport :: "Host \<Rightarrow> ExportOptions \<Rightarrow> bool \<Rightarrow> WorkerTransport \<Rightarrow> (WorkerTransport \<times> bool) option" where
  "canExport H options asynchronous t =
     (if isValidExportOptions options \<noteq> Valid then Some (t, False)
      else map_option (\<lambda>(t1, formats). (t1, case formats of None \<Rightarrow> False
              | Some fs \<Rightarrow> (case findExportProfile fs options asynchronous INT_MAX of Inl why \<Rightarrow> False | Inr profile \<Rightarrow> True)))
             (transport_outputFormats H t))"

definition publish :: "Host \<Rightarrow> string \<Rightarrow> WorkerTransport \<Rightarrow> WorkerTransport \<times> bool" where
  "publish H target t =
     (if h_finalize H target = None then (t\<lparr>wt_published := wt_published t @ [target]\<rparr>, True) else (t, False))"

text \<open>\<open>created\<close> tells whether the temporary output beside the target could be created.\<close>

definition writeFile :: "Host \<Rightarrow> bool \<Rightarrow> ExportRequest \<Rightarrow> string \<Rightarrow> WorkerTransport \<Rightarrow> (WorkerTransport \<times> bool) option" where
  "writeFile H created payload target t =
     (if \<not> created then Some (t, False)
      else
        let transfer = wt_nextTransfer t; t1 = t\<lparr>wt_nextTransfer := transfer + 1\<rparr> in
        if h_fdSend H transfer \<noteq> None then Some (t1, False)
        else case call H (RqExport (payload\<lparr>exq_output := \<lparr>ft_transferId = transfer\<rparr>\<rparr>)) False t1 of
          None \<Rightarrow> None
        | Some (t2, r) \<Rightarrow> Some (if ok_payload r = None then (t2, False) else publish H target t2))"

definition exportDocument :: "Host \<Rightarrow> Host \<Rightarrow> bool \<Rightarrow> string \<Rightarrow> ExportOptions \<Rightarrow> WorkerTransport \<Rightarrow> (WorkerTransport \<times> bool) option" where
  "exportDocument H H' created target options t =
     (case canExport H options False t of
        None \<Rightarrow> None
      | Some (t1, False) \<Rightarrow> Some (t1, False)
      | Some (t1, True) \<Rightarrow>
        writeFile H' created \<lparr>exq_output = \<lparr>ft_transferId = 0\<rparr>, exq_input = \<lparr>ft_transferId = 0\<rparr>, exq_options = options, exq_asynchronous = False\<rparr> target t1)"

text \<open>\<open>reopened\<close> tells whether the retained source could be opened again.\<close>

definition startExport :: "Host \<Rightarrow> Host \<Rightarrow> bool \<Rightarrow> bool \<Rightarrow> string \<Rightarrow> ExportOptions \<Rightarrow> WorkerTransport \<Rightarrow> (WorkerTransport \<times> u64 option) option" where
  "startExport H H' reopened created target options t =
     (if \<not> isConnected t \<or> wt_export t \<noteq> None \<or> \<not> wt_sourceFile t then Some (t, None)
      else case canExport H options True t of
        None \<Rightarrow> None
      | Some (t1, False) \<Rightarrow> Some (t1, None)
      | Some (t1, True) \<Rightarrow>
        if \<not> isConnected t1 \<or> wt_export t1 \<noteq> None \<or> \<not> wt_sourceFile t1 then Some (t1, None)
        else if \<not> reopened \<or> \<not> created then Some (t1, None)
        else
          let outputTransfer = wt_nextTransfer t1; t2 = t1\<lparr>wt_nextTransfer := outputTransfer + 1\<rparr> in
          if h_fdSend H' outputTransfer \<noteq> None then Some (t2, None)
          else
            let inputTransfer = wt_nextTransfer t2; t3 = t2\<lparr>wt_nextTransfer := inputTransfer + 1\<rparr> in
            if h_fdSend H' inputTransfer \<noteq> None then Some (abort_session H' t3, None)
            else case call H' (RqExport \<lparr>exq_output = \<lparr>ft_transferId = outputTransfer\<rparr>, exq_input = \<lparr>ft_transferId = inputTransfer\<rparr>,
                     exq_options = options, exq_asynchronous = True\<rparr>) False t3 of
              None \<Rightarrow> None
            | Some (t4, r) \<Rightarrow>
              (case ok_payload r of
                 Some (RsJob job) \<Rightarrow>
                   if jr_jobId job = 0 then Some (t4, None)
                   else Some (processIncomingNotifications H'
                          (t4\<lparr>wt_export := Some \<lparr>pe_target = target, pe_jobId = jr_jobId job\<rparr>, wt_exportTimer := True\<rparr>), Some (jr_jobId job))
               | _ \<Rightarrow> Some (t4, None)))"

definition export_timeout :: "Host \<Rightarrow> WorkerTransport \<Rightarrow> WorkerTransport" where
  "export_timeout H t = completeExport H False ''export timed out'' t"

definition signToFile :: "Host \<Rightarrow> bool \<Rightarrow> SignRequest \<Rightarrow> string \<Rightarrow> string \<Rightarrow> WorkerTransport \<Rightarrow> (WorkerTransport \<times> SignResponse) option" where
  "signToFile H created request password target t =
     (if \<not> created then Some (t, \<lparr>sgr_result = SR_WriteFailed, sgr_details = ''could not create signing output''\<rparr>)
      else
        let transfer = wt_nextTransfer t; t1 = t\<lparr>wt_nextTransfer := transfer + 1\<rparr>;
            request' = request\<lparr>sg_file := \<lparr>ft_transferId = transfer\<rparr>\<rparr>
        in if isValidSignRequest request' \<noteq> Valid then Some (t1, \<lparr>sgr_result = SR_GenericError, sgr_details = ''invalid signing request''\<rparr>)
        else if h_fdSend H transfer \<noteq> None then Some (t1, \<lparr>sgr_result = SR_WriteFailed, sgr_details = the (h_fdSend H transfer)\<rparr>)
        else case call H (RqSign request') False (t1\<lparr>wt_activeSignPassword := password\<rparr>) of
          None \<Rightarrow> None
        | Some (t2, r) \<Rightarrow>
          let t3 = t2\<lparr>wt_activeSignPassword := []\<rparr> in
          Some (case r of
                  None \<Rightarrow> (t3, \<lparr>sgr_result = SR_GenericError, sgr_details = ''worker failed to sign''\<rparr>)
                | Some response \<Rightarrow>
                  (case rsm_error response of
                     Some e \<Rightarrow> (t3, \<lparr>sgr_result = SR_GenericError, sgr_details = err_message e\<rparr>)
                   | None \<Rightarrow>
                     (case rsm_payload response of
                        RsSign result \<Rightarrow>
                          if sgr_result result \<noteq> SR_Success then (t3, result)
                          else (case publish H target t3 of
                                  (t4, True) \<Rightarrow> (t4, result)
                                | (t4, False) \<Rightarrow> (t4, \<lparr>sgr_result = SR_WriteFailed, sgr_details = ''could not finalize signing output''\<rparr>))
                      | _ \<Rightarrow> (t3, \<lparr>sgr_result = SR_GenericError, sgr_details = ''worker returned an invalid signing response''\<rparr>)))))"

end
