(* ===== verification/Transport_Laws.thy ===== *)
theory Transport_Laws
  imports Worker_Transport
begin

text \<open>
  What the host's transport guarantees: a call returns the response to its own request or ends the session, the signing
  key is used at most once and only for the signing request in flight, and an export is published only by its own success.
\<close>

section \<open>Teardown\<close>

definition torn_down :: "WorkerTransport \<Rightarrow> bool" where
  "torn_down t \<longleftrightarrow> \<not> wt_ctrl t \<and> \<not> wt_running t \<and> wt_frameSlots t = [] \<and> wt_notifier t = None \<and> wt_export t = None
     \<and> wt_activeSignPassword t = [] \<and> wt_signingAuthorization t = no_authorization \<and> \<not> wt_inFlight t \<and> \<not> wt_sourceFile t
     \<and> wt_pdfSynopsis t = None"

named_theorems transport_defs

lemmas [transport_defs] = completeExport_def clearDocumentState_def cleanupSession_def emit_def Let_def

lemma cleanup_tears_down: "torn_down (cleanupSession H t)"
  by (simp add: torn_down_def transport_defs split: option.split)

lemma abort_tears_down [simp]: "torn_down (abort_session H t)" "torn_down (stop H t)"
  by (simp_all add: abort_session_def stop_def cleanup_tears_down)

lemma abort_keeps [simp]: "wt_cms (abort_session H t) = wt_cms t" "wt_sent (abort_session H t) = wt_sent t" "wt_published (abort_session H t) = wt_published t"
  by (simp_all add: abort_session_def transport_defs split: option.split)

lemma torn_down_guard [simp]: "torn_down t \<Longrightarrow> torn_down (in_flight_guard t)"
  by (simp add: torn_down_def in_flight_guard_def)

lemma torn_down_disconnected: "torn_down t \<Longrightarrow> \<not> isConnected t"
  by (simp add: torn_down_def isConnected_def)

section \<open>Notifications\<close>

text \<open>Handling a notification leaves the session as it is; only a signing input uses the key and sends something.\<close>

definition same_session :: "WorkerTransport \<Rightarrow> WorkerTransport \<Rightarrow> bool" where
  "same_session t t' \<longleftrightarrow> wt_ctrl t' = wt_ctrl t \<and> wt_running t' = wt_running t \<and> wt_notifier t' = wt_notifier t \<and> wt_inFlight t' = wt_inFlight t
     \<and> wt_frameSlots t' = wt_frameSlots t \<and> wt_frameSession t' = wt_frameSession t \<and> wt_activeSignPassword t' = wt_activeSignPassword t"

lemma same_session_refl [simp]: "same_session t t"
  by (simp add: same_session_def)

lemma same_session_trans: "same_session a b \<Longrightarrow> same_session b c \<Longrightarrow> same_session a c"
  by (simp add: same_session_def)

lemma handle_export_session: "same_session t (handle_export H p t) \<and> wt_cms (handle_export H p t) = wt_cms t
    \<and> wt_signingAuthorization (handle_export H p t) = wt_signingAuthorization t \<and> wt_sent (handle_export H p t) = wt_sent t"
  by (simp add: handle_export_def same_session_def transport_defs split: option.split)

lemma handle_sign_cases:
  obtains (refused) why where "handle_sign H input t = (t, Some why)"
  | (signed) t' e where "handle_sign H input t = (t', e)" "same_session t t'" "wt_inFlight t" "sa_requestId (wt_signingAuthorization t) \<noteq> 0"
      "\<not> sa_consumed (wt_signingAuthorization t)" "sa_consumed (wt_signingAuthorization t')"
      "wt_cms t' = wt_cms t @ [(sa_certificateNickname (wt_signingAuthorization t), wt_activeSignPassword t, si_digest input)]"
      "\<exists>reply. sr_jobId reply = sa_requestId (wt_signingAuthorization t) \<and> sr_nonce reply = si_nonce input
         \<and> (wt_sent t' = wt_sent t \<or> wt_sent t' = wt_sent t @ [\<lparr>rqm_id = wt_nextId t, rqm_payload = RqSignReply reply\<rparr>])"
proof (cases "wt_inFlight t \<and> snd (authorization_accept input (wt_signingAuthorization t))")
  case False
  then have "handle_sign H input t = (t, Some ''unauthorized signing notification'')"
    by (auto simp: handle_sign_def split: prod.split bool.split)
  then show ?thesis by (rule refused)
next
  case True
  then obtain a where acc: "authorization_accept input (wt_signingAuthorization t) = (a, True)" by (metis prod.collapse)
  then have a: "sa_requestId (wt_signingAuthorization t) \<noteq> 0" "\<not> sa_consumed (wt_signingAuthorization t)" "sa_consumed a"
    "si_jobId input = sa_requestId (wt_signingAuthorization t)" "sa_certificateNickname a = sa_certificateNickname (wt_signingAuthorization t)"
    by (auto simp: authorization_accept_def split: if_splits)
  define cms where "cms = h_cms H (sa_certificateNickname a) (wt_activeSignPassword t) (si_digest input)"
  define reply where "reply = \<lparr>sr_jobId = si_jobId input, sr_nonce = si_nonce input, sr_result = ca_result cms, sr_details = ca_details cms,
    sr_cmsSignature = ca_cms cms\<rparr>"
  define m where "m = \<lparr>rqm_id = wt_nextId t, rqm_payload = RqSignReply reply\<rparr>"
  define t1 where "t1 = t\<lparr>wt_signingAuthorization := a, wt_cms := wt_cms t @ [(sa_certificateNickname a, wt_activeSignPassword t, si_digest input)],
    wt_nextId := wt_nextId t + 1\<rparr>"
  have r: "handle_sign H input t = (case h_write H m of None \<Rightarrow> (t1\<lparr>wt_sent := wt_sent t1 @ [m]\<rparr>, None)
      | Some why \<Rightarrow> (t1, Some (''sign reply write failed: '' @ why)))"
    using True acc unfolding handle_sign_def m_def t1_def reply_def cms_def send_request_def Let_def by (simp split: option.split)
  have rep: "sr_jobId reply = sa_requestId (wt_signingAuthorization t) \<and> sr_nonce reply = si_nonce input" using a(4) by (simp add: reply_def)
  obtain t' e where te: "handle_sign H input t = (t', e)" "t' = t1 \<or> t' = t1\<lparr>wt_sent := wt_sent t1 @ [m]\<rparr>"
    using r by (cases "h_write H m") auto
  from te(2) show ?thesis
    using True a rep by (intro signed [OF te(1)]) (auto simp: t1_def m_def same_session_def intro!: exI [of _ reply])
qed

text \<open>What a sequence of handled notifications does to the key: it is used at most once, and only while authorised.\<close>

definition key_use :: "WorkerTransport \<Rightarrow> WorkerTransport \<Rightarrow> bool" where
  "key_use t t' \<longleftrightarrow>
     (wt_cms t' = wt_cms t \<and> wt_signingAuthorization t' = wt_signingAuthorization t)
     \<or> (sa_requestId (wt_signingAuthorization t) \<noteq> 0 \<and> \<not> sa_consumed (wt_signingAuthorization t) \<and> sa_consumed (wt_signingAuthorization t')
        \<and> (\<exists>digest. wt_cms t' = wt_cms t @ [(sa_certificateNickname (wt_signingAuthorization t), wt_activeSignPassword t, digest)]))"

lemma key_use_refl [simp]: "key_use t t"
  by (simp add: key_use_def)

lemma key_use_trans: "key_use a b \<Longrightarrow> key_use b c \<Longrightarrow> wt_activeSignPassword b = wt_activeSignPassword a \<Longrightarrow> key_use a c"
  by (auto simp: key_use_def)

lemma handleNotification_use:
  assumes "handleNotification H n t = (t', e)"
  shows "same_session t t' \<and> key_use t t' \<and> (\<not> wt_inFlight t \<longrightarrow> wt_cms t' = wt_cms t)"
proof (cases "ntm_payload n")
  case (NtOcrDone x)
  then show ?thesis using assms by (auto simp: handleNotification_def same_session_def key_use_def emit_def)
next
  case (NtPageLinks x)
  then show ?thesis using assms
    by (cases "pln_generation x = wt_linkGeneration t") (auto simp: handleNotification_def same_session_def key_use_def emit_def)
next
  case (NtExportProgress x)
  then show ?thesis using assms handle_export_session [of t H x] by (auto simp: handleNotification_def key_use_def)
next
  case (NtSignInput x)
  then have r: "handle_sign H x t = (t', e)" using assms by (simp add: handleNotification_def)
  show ?thesis
  proof (cases rule: handle_sign_cases [of H x t])
    case (refused why)
    with r show ?thesis by simp
  next
    case (signed t1 e1)
    with r show ?thesis by (auto simp: key_use_def)
  qed
qed

section \<open>Receiving\<close>

text \<open>
  The receive loop returns a response with the awaited id that was decoded from an incoming frame, or tears the session
  down.
\<close>

lemma receiveResponse_cases:
  assumes "receiveResponse H i events t = Some (t', r)"
  shows "(case r of
      Some response \<Rightarrow> rsm_id response = i \<and> same_session t t' \<and> key_use t t'
        \<and> (\<exists>frame. (\<exists>remaining. (remaining, Inr frame) \<in> set events) \<and> decodeResponse (h_codec H) frame = Inr response)
    | None \<Rightarrow> torn_down t' \<and> (\<exists>t1. key_use t t1 \<and> wt_cms t' = wt_cms t1))"
  using assms
proof (induction H i events t rule: receiveResponse.induct)
  case (2 H i remaining incoming events t)
  have dead: ?case if "t' = abort_session H t" "r = None"
    using that by simp (metis key_use_refl)
  show ?case
  proof (cases "remaining \<le> 0 \<or> (\<exists>why. incoming = Inl why)")
    case True
    with 2(2) have "t' = abort_session H t \<and> r = None" by (auto split: if_splits)
    with dead show ?thesis by blast
  next
    case False
    then obtain frame where frame: "incoming = Inr frame" by (cases incoming) auto
    show ?thesis
    proof (cases "decodeResponse (h_codec H) frame")
      case (Inr response)
      show ?thesis
      proof (cases "rsm_id response = i")
        case True
        with 2(2) False frame Inr have "t' = t \<and> r = Some response" by auto
        with True Inr frame show ?thesis by simp blast
      next
        case other: False
        with 2(2) False frame Inr have "t' = abort_session H t \<and> r = None" by auto
        with dead show ?thesis by blast
      qed
    next
      case (Inl why)
      show ?thesis
      proof (cases "decodeNotification (h_codec H) frame")
        case (Inl why')
        with 2(2) False frame \<open>decodeResponse (h_codec H) frame = Inl why\<close> have "t' = abort_session H t \<and> r = None" by auto
        with dead show ?thesis by blast
      next
        case (Inr n)
        obtain t1 e where n: "handleNotification H n t = (t1, e)" by fastforce
        note use = handleNotification_use [OF n]
        show ?thesis
        proof (cases e)
          case (Some why')
          with 2(2) False frame \<open>decodeResponse (h_codec H) frame = Inl why\<close> Inr n have "t' = abort_session H t1" "r = None" by auto
          then show ?thesis using use by simp blast
        next
          case None
          have step: "receiveResponse H i events t1 = Some (t', r)"
            using 2(2) False frame \<open>decodeResponse (h_codec H) frame = Inl why\<close> Inr n None by simp
          have pw: "wt_activeSignPassword t1 = wt_activeSignPassword t" using use by (simp add: same_session_def)
          from 2(1) [OF _ frame \<open>decodeResponse (h_codec H) frame = Inl why\<close> Inr n [symmetric] None] step False
          have IH: "case r of
              Some response \<Rightarrow> rsm_id response = i \<and> same_session t1 t' \<and> key_use t1 t'
                \<and> (\<exists>frame. (\<exists>remaining. (remaining, Inr frame) \<in> set events) \<and> decodeResponse (h_codec H) frame = Inr response)
            | None \<Rightarrow> torn_down t' \<and> (\<exists>t2. key_use t1 t2 \<and> wt_cms t' = wt_cms t2)" by auto
          show ?thesis
          proof (cases r)
            case (Some response)
            with IH use pw show ?thesis
              by (auto intro: same_session_trans [of t t1 t'] key_use_trans [of t t1 t'])
          next
            case None
            with IH obtain t2 where t2: "torn_down t'" "key_use t1 t2" "wt_cms t' = wt_cms t2" by auto
            have "key_use t t2" using key_use_trans [of t t1 t2] use t2(2) pw by blast
            with None t2 show ?thesis by auto
          qed
        qed
      qed
    qed
  qed
qed simp

section \<open>Calls\<close>

lemma drain_idle_cms: "\<not> wt_inFlight t \<Longrightarrow> wt_cms (drain_idle H evs t) = wt_cms t \<and> (torn_down (drain_idle H evs t) \<or> same_session t (drain_idle H evs t))"
proof (induction H evs t rule: drain_idle.induct)
  case (2 H status frame rest t)
  show ?case
  proof (cases "decodeNotification (h_codec H) frame")
    case (Inl why)
    then show ?thesis by simp
  next
    case (Inr n)
    obtain t1 e where n: "handleNotification H n t = (t1, e)" by fastforce
    note use = handleNotification_use [OF n]
    show ?thesis
    proof (cases "e = None \<and> status = RS_Complete")
      case True
      then have step: "drain_idle H ((status, frame) # rest) t = drain_idle H rest t1" using Inr n by simp
      have "\<not> wt_inFlight t1" using use 2(2) by (simp add: same_session_def)
      then have "wt_cms (drain_idle H rest t1) = wt_cms t1 \<and> (torn_down (drain_idle H rest t1) \<or> same_session t1 (drain_idle H rest t1))"
        using 2(1) [OF _ _ Inr n [symmetric]] True by simp
      with step use 2(2) same_session_trans [of t t1] show ?thesis by auto
    next
      case False
      then show ?thesis using Inr n use 2(2) by (cases status; cases e) auto
    qed
  qed
qed simp

lemma processIncoming_cms: "wt_cms (processIncomingNotifications H t) = wt_cms t"
  using drain_idle_cms by (simp add: processIncomingNotifications_def)

text \<open>Between calls nothing is in flight, no signing is authorised and no password is held.\<close>

definition idle :: "WorkerTransport \<Rightarrow> bool" where
  "idle t \<longleftrightarrow> \<not> wt_inFlight t \<and> wt_signingAuthorization t = no_authorization"

lemma drain_idle_idle: "idle t \<Longrightarrow> idle (drain_idle H evs t) \<and> (wt_activeSignPassword t = [] \<longrightarrow> wt_activeSignPassword (drain_idle H evs t) = [])"
proof (induction H evs t rule: drain_idle.induct)
  case (2 H status frame rest t)
  have torn: "torn_down x \<Longrightarrow> idle x \<and> wt_activeSignPassword x = []" for x by (simp add: torn_down_def idle_def)
  show ?case
  proof (cases "decodeNotification (h_codec H) frame")
    case (Inl why)
    then show ?thesis using torn [OF abort_tears_down(1)] 2(2) by simp
  next
    case (Inr n)
    obtain t1 e where n: "handleNotification H n t = (t1, e)" by fastforce
    from handleNotification_use [OF n] 2(2) have t1: "idle t1" "wt_activeSignPassword t1 = wt_activeSignPassword t"
      by (auto simp: idle_def same_session_def key_use_def no_authorization_def)
    show ?thesis
    proof (cases "e = None \<and> status = RS_Complete")
      case True
      then show ?thesis using 2(1) [OF _ _ Inr n [symmetric]] Inr n t1 by simp
    next
      case False
      then show ?thesis using Inr n 2(2) torn [OF abort_tears_down(1)] by (cases status; cases e) auto
    qed
  qed
qed simp

lemma guard_idle: "idle (in_flight_guard t)" "wt_activeSignPassword (in_flight_guard t) = []" "wt_cms (in_flight_guard t) = wt_cms t"
  by (simp_all add: idle_def in_flight_guard_def)

lemma finish_call_cms [simp]: "wt_cms (finish_call p rf r t) = wt_cms t" "same_session t (finish_call p rf r t)"
  by (auto simp: finish_call_def emit_def same_session_def Let_def split: option.split RequestPayload.split ResponsePayload.split)

text \<open>A call of an idle, connected transport, step by step.\<close>

lemma call_cases:
  assumes "call H p rf t = Some (t', r)" "isConnected t" "idle t"
  obtains (unsent) why where "h_write H \<lparr>rqm_id = wt_nextId t, rqm_payload = p\<rparr> = Some why" "r = None" "torn_down t'" "wt_cms t' = wt_cms t"
  | (failed) t1 where "r = None" "torn_down t'" "key_use (begin_call p t) t1" "wt_cms t' = wt_cms t1"
  | (answered) t2 response where "r = Some response" "rsm_id response = wt_nextId t" "key_use (begin_call p t) t2"
      "wt_cms t' = wt_cms t2" "idle t'" "wt_activeSignPassword t' = []"
      "\<exists>frame. (\<exists>remaining. (remaining, Inr frame) \<in> set (h_events H)) \<and> decodeResponse (h_codec H) frame = Inr response"
proof -
  define m where "m = \<lparr>rqm_id = wt_nextId t, rqm_payload = p\<rparr>"
  have fly: "\<not> wt_inFlight t" using assms(3) by (simp add: idle_def)
  show ?thesis
  proof (cases "h_write H m")
    case (Some why)
    then have "r = None" "t' = in_flight_guard (abort_session H (begin_call p t))"
      using assms(1,2) fly by (simp_all add: call_def send_request_def m_def)
    moreover have "wt_cms (begin_call p t) = wt_cms t" by (simp add: begin_call_def)
    ultimately show ?thesis using unsent Some by (simp add: m_def guard_idle)
  next
    case None
    define t1 where "t1 = (begin_call p t)\<lparr>wt_sent := wt_sent (begin_call p t) @ [m]\<rparr>"
    have use1: "key_use t1 x = key_use (begin_call p t) x" for x by (simp add: key_use_def t1_def)
    have unfolded: "call H p rf t = (case receiveResponse H (wt_nextId t) (h_events H) t1 of
           None \<Rightarrow> None
         | Some (t2, None) \<Rightarrow> Some (in_flight_guard t2, None)
         | Some (t2, Some response) \<Rightarrow>
           let t3 = in_flight_guard (finish_call p rf response t2) in
           Some (if \<not> defers_notifications p \<and> wt_notifier t3 \<noteq> None \<and> isConnected t3 then processIncomingNotifications H t3 else t3, Some response))"
      using assms(2) fly None by (simp add: call_def send_request_def m_def t1_def)
    then obtain t2 r2 where rr: "receiveResponse H (wt_nextId t) (h_events H) t1 = Some (t2, r2)"
      using assms(1) by (cases "receiveResponse H (wt_nextId t) (h_events H) t1") auto
    note spec = receiveResponse_cases [OF rr]
    show ?thesis
    proof (cases r2)
      case none: None
      with spec obtain t0 where "torn_down t2" "key_use t1 t0" "wt_cms t2 = wt_cms t0" by auto
      moreover have "t' = in_flight_guard t2" "r = None" using assms(1) unfolded rr none by simp_all
      ultimately show ?thesis using failed [of t0] use1 by (simp add: guard_idle)
    next
      case (Some response)
      define t3 where "t3 = in_flight_guard (finish_call p rf response t2)"
      have t': "t' = t3 \<or> t' = processIncomingNotifications H t3" "r = Some response"
        using assms(1) unfolded rr Some by (auto simp: t3_def Let_def split: if_splits)
      have "idle t3 \<and> wt_activeSignPassword t3 = [] \<and> wt_cms t3 = wt_cms t2" by (simp add: t3_def guard_idle)
      then have "idle t' \<and> wt_activeSignPassword t' = [] \<and> wt_cms t' = wt_cms t2"
        using t'(1) drain_idle_idle [of t3 H "h_idle H"] processIncoming_cms [of H t3]
        by (auto simp: processIncomingNotifications_def split: if_splits)
      with spec Some t'(2) use1 show ?thesis by (intro answered) auto
    qed
  qed
qed

lemma begin_call_key:
  assumes "key_use (begin_call p t) t1" "idle t"
  shows "wt_cms t1 = wt_cms t \<or> (\<exists>sign digest. p = RqSign sign \<and> wt_cms t1 = wt_cms t @ [(sg_certificateNickname sign, wt_activeSignPassword t, digest)])"
  using assms by (cases p) (auto simp: key_use_def begin_call_def idle_def no_authorization_def)


text \<open>
  C9. The user's key signs at most once per signing request and never otherwise: during a call the transport makes no signature
  unless the call is a signing request, and then at most one, with the certificate that request names and the password
  the user gave for it, whatever notifications the worker sends.
\<close>

theorem signing_authorised:
  assumes "isConnected t" "idle t" "call H p rf t = Some (t', r)"
  shows "wt_cms t' = wt_cms t
    \<or> (\<exists>sign digest. p = RqSign sign \<and> wt_cms t' = wt_cms t @ [(sg_certificateNickname sign, wt_activeSignPassword t, digest)])"
  using assms(3,1,2)
proof (cases rule: call_cases)
  case (unsent why)
  then show ?thesis by simp
next
  case (failed t1)
  with begin_call_key [OF failed(3) assms(2)] show ?thesis by simp
next
  case (answered t2 response)
  with begin_call_key [OF answered(3) assms(2)] show ?thesis by simp
qed

section \<open>A concrete exchange\<close>

text \<open>A signing request during which the worker asks for two signatures, and one without a request.\<close>

definition sign_note :: NotificationMessage where
  "sign_note = \<lparr>ntm_payload = NtSignInput \<lparr>si_jobId = 4, si_nonce = ''n'', si_certificateNickname = ''alice'', si_digest = [1]\<rparr>\<rparr>"

definition sign_done :: ResponseMessage where
  "sign_done = \<lparr>rsm_id = 4, rsm_payload = RsSign \<lparr>sgr_result = SR_Success, sgr_details = []\<rparr>, rsm_error = None\<rparr>"

definition sign_codec :: Codec where
  "sign_codec = \<lparr>cx_request = \<lparr>zp_out = (\<lambda>_. Inl (other_errc 0)), zp_in = (\<lambda>_. Inl (other_errc 0)), zp_text = (\<lambda>_. [])\<rparr>,
     cx_response = \<lparr>zp_out = (\<lambda>m. if m = sign_done then Inr [1] else Inl (other_errc 0)),
       zp_in = (\<lambda>b. if b \<noteq> [] \<and> hd b = 1 then Inr (sign_done, 1) else Inl (other_errc 0)), zp_text = (\<lambda>_. [])\<rparr>,
     cx_notification = \<lparr>zp_out = (\<lambda>m. if m = sign_note then Inr [3] else Inl (other_errc 0)),
       zp_in = (\<lambda>b. if b \<noteq> [] \<and> hd b = 3 then Inr (sign_note, 1) else Inl (other_errc 0)), zp_text = (\<lambda>_. [])\<rparr>,
     cx_short = other_errc 1\<rparr>"

definition host0 :: Host where
  "host0 = \<lparr>h_codec = sign_codec, h_write = (\<lambda>_. None),
     h_events = [(9, Inr (envelope NotificationKind @ [3])), (8, Inr (envelope ResponseKind @ [1]))], h_idle = [],
     h_cms = (\<lambda>_ _ _. \<lparr>ca_result = SR_Success, ca_details = [], ca_cms = [7]\<rparr>), h_finalize = (\<lambda>_. None), h_fdSend = (\<lambda>_. None),
     h_fdReceive = (\<lambda>_. - 1), h_stat = (\<lambda>_. \<lparr>st_ok = False, st_regular = False, st_size = 0, st_seals = 0\<rparr>), h_mmap = (\<lambda>_ _. None),
     h_header = (\<lambda>_. \<lparr>fh_magic = 0, fh_version = 0, fh_requestId = 0, fh_width = 0, fh_height = 0, fh_stride = 0, fh_format = 0\<rparr>), h_imageOk = True\<rparr>"

definition transport0 :: WorkerTransport where
  "transport0 = \<lparr>wt_ctrl = True, wt_running = True, wt_notifier = Some True, wt_signingAuthorization = no_authorization, wt_activeSignPassword = ''pw'',
     wt_export = None, wt_exportTimer = False, wt_frameSlots = [], wt_nextId = 4, wt_nextTransfer = 1, wt_linkGeneration = 0, wt_documentEpoch = 1,
     wt_frameSession = 1, wt_intentionalStop = False, wt_inFlight = False, wt_tempPath = [], wt_sourceFile = True, wt_pdfPageCount = 1,
     wt_pdfSynopsis = None, wt_pdfSynopsisGenerated = False, wt_releases = [], wt_sent = [], wt_signals = [], wt_cms = [], wt_published = []\<rparr>"

definition sign0 :: SignRequest where
  "sign0 = \<lparr>sg_file = \<lparr>ft_transferId = 1\<rparr>, sg_page = 0, sg_rectangle = \<lparr>nr_left = Fin 0, nr_top = Fin 0, nr_right = Fin 1, nr_bottom = Fin 1\<rparr>,
     sg_certificateNickname = ''alice'', sg_certificateSubjectCommonName = [], sg_existingFieldObjectNumber = 0,
     sg_appearance = \<lparr>sa_elements = 0, sa_reason = [], sa_location = [], sa_signingEpochSeconds = 0, sa_signingDisplayDate = [], sa_backgroundImage = [], sa_drawBorder = False,
       sa_emblemImage = []\<rparr>\<rparr>"

lemma sign_frames:
  "decodeResponse sign_codec (envelope NotificationKind @ [3]) = Inl ''message kind mismatch''"
  "decodeNotification sign_codec (envelope NotificationKind @ [3]) = Inr sign_note"
  "decodeResponse sign_codec (envelope ResponseKind @ [1]) = Inr sign_done"
proof -
  have n: "encodeImpl (cx_notification sign_codec) NotificationKind sign_note = Inr (envelope NotificationKind @ [3])"
    "reads_back (cx_notification sign_codec) sign_note" by (simp_all add: encodeImpl_def reads_back_def sign_codec_def limits)
  have r: "encodeImpl (cx_response sign_codec) ResponseKind sign_done = Inr (envelope ResponseKind @ [1])"
    "reads_back (cx_response sign_codec) sign_done" by (simp_all add: encodeImpl_def reads_back_def sign_codec_def limits)
  show "decodeResponse sign_codec (envelope NotificationKind @ [3]) = Inl ''message kind mismatch''"
    unfolding decodeResponse_def by (rule decode_other_kind [OF n(1)]) (simp add: NotificationKind_def ResponseKind_def)
  show "decodeNotification sign_codec (envelope NotificationKind @ [3]) = Inr sign_note"
    using decode_encoded [OF n] by (simp add: decodeNotification_def validateDecodedNotification_def sign_note_def)
  show "decodeResponse sign_codec (envelope ResponseKind @ [1]) = Inr sign_done"
    using decode_encoded [OF r] by (simp add: decodeResponse_def validateDecodedResponse_def sign_done_def)
qed

lemma transport0_idle: "isConnected transport0" "idle transport0"
  by (simp_all add: isConnected_def idle_def transport0_def)

lemma sign0_call: "\<exists>t'. call host0 (RqSign sign0) False transport0 = Some (t', Some sign_done) \<and> wt_cms t' = [(''alice'', ''pw'', [1])]"
  by (simp add: call_def transport0_idle(1) send_request_def begin_call_def host0_def transport0_def sign0_def sign_frames handleNotification_def
      sign_note_def handle_sign_def authorization_accept_def sign_done_def Let_def finish_call_def in_flight_guard_def isConnected_def
      defers_notifications_def processIncomingNotifications_def)


theorem signing_authorised_witness:
  "\<exists>t' r. call host0 (RqSign sign0) False transport0 = Some (t', r) \<and> (\<exists>digest. wt_cms t' = [(''alice'', ''pw'', digest)])"
proof -
  obtain t' where c: "call host0 (RqSign sign0) False transport0 = Some (t', Some sign_done)" "wt_cms t' \<noteq> []" using sign0_call by auto
  from signing_authorised [OF transport0_idle c(1)] c(2) have "\<exists>digest. wt_cms t' = [(''alice'', ''pw'', digest)]"
    by (auto simp: sign0_def transport0_def)
  with c(1) show ?thesis by blast
qed

end
