(* ===== verification/Fd_Channel.thy ===== *)
theory Fd_Channel
  imports Ctrl_Channel "HOL-Library.Multiset"
begin

text \<open>
  The descriptor channel (\<^verbatim>\<open>src/shared/transport/fd_channel.hpp\<close>, \<^verbatim>\<open>fd_channel.cpp\<close>): packets that carry one transfer id
  and one descriptor. What the kernel answers is explicit, one event per iteration of a loop; \<open>closed\<close> lists the
  descriptors the channel closes. Creating, binding and connecting the socket are not modelled.
\<close>

section \<open>Packets\<close>

text \<open>
  A control message: whether it is a well-sized \<open>SCM_RIGHTS\<close> message, the descriptors it carries, and whether its length
  is a whole number of descriptors.
\<close>

record ControlMessage =
  cm_rights :: bool
  cm_descriptors :: "int list"
  cm_aligned :: bool

record Packet =
  pk_read :: nat
  pk_transferId :: u64
  pk_truncated :: bool
  pk_control :: "ControlMessage list"

fun extract_loop :: "ControlMessage list \<Rightarrow> int \<times> nat \<times> bool \<Rightarrow> int \<times> nat \<times> bool" where
  "extract_loop [] acc = acc"
| "extract_loop (m # ms) (descriptor, rightsCount, malformed) =
     (if \<not> cm_rights m then extract_loop ms (descriptor, rightsCount, True)
      else extract_loop ms
        (if rightsCount = 0 \<and> cm_descriptors m \<noteq> [] then hd (cm_descriptors m) else descriptor,
         rightsCount + length (cm_descriptors m), malformed \<or> \<not> cm_aligned m))"

definition extractDescriptor :: "Packet \<Rightarrow> int" where
  "extractDescriptor msg =
     (case extract_loop (pk_control msg) (- 1, 0, False) of
        (descriptor, rightsCount, malformed) \<Rightarrow> if \<not> malformed \<and> rightsCount = 1 then descriptor else - 1)"

definition closeDescriptors :: "Packet \<Rightarrow> int list" where
  "closeDescriptors msg = filter (\<lambda>d. d \<ge> 0) (concat (map cm_descriptors (filter cm_rights (pk_control msg))))"

section \<open>Receiving and sending\<close>

datatype RecvMsg = RmRetry | RmError string | RmPacket Packet

text \<open>One iteration: what waiting and \<open>recvmsg\<close> return, and whether the deadline has expired at its end.\<close>

type_synonym FdEvent = "WaitAnswer \<times> RecvMsg \<times> bool"

definition packetWellFormed :: "Packet \<Rightarrow> bool" where
  "packetWellFormed msg \<longleftrightarrow> pk_read msg = 8 \<and> \<not> pk_truncated msg \<and> extractDescriptor msg \<ge> 0"

text \<open>The result: the descriptor or \<open>-1\<close>, the error text, the descriptors closed on the way, and the events left.\<close>

fun fd_receive_loop :: "int \<Rightarrow> u64 \<Rightarrow> FdEvent list \<Rightarrow> int list \<Rightarrow> (int \<times> string \<times> int list \<times> FdEvent list) option" where
  "fd_receive_loop fd expectedTransferId [] shut = None"
| "fd_receive_loop fd expectedTransferId ((answer, msg, expired) # events) shut =
     (case waitForFd fd answer of
        (result, why) \<Rightarrow>
        if result \<noteq> IO_Complete then Some (- 1, why, shut, events)
        else case msg of
          RmError reason \<Rightarrow> Some (- 1, reason, shut, events)
        | RmRetry \<Rightarrow>
            if expired then Some (- 1, ''operation timed out'', shut, events)
            else fd_receive_loop fd expectedTransferId events shut
        | RmPacket packet \<Rightarrow>
            if \<not> packetWellFormed packet then Some (- 1, ''invalid FD channel packet'', shut @ closeDescriptors packet, events)
            else if pk_transferId packet = expectedTransferId then Some (extractDescriptor packet, [], shut, events)
            else if expired then Some (- 1, ''operation timed out'', shut @ closeDescriptors packet, events)
            else fd_receive_loop fd expectedTransferId events (shut @ closeDescriptors packet))"

definition fd_receive :: "int \<Rightarrow> u64 \<Rightarrow> FdEvent list \<Rightarrow> (int \<times> string \<times> int list \<times> FdEvent list) option" where
  "fd_receive fd expectedTransferId events =
     (if fd < 0 then Some (- 1, ''FD channel is not connected'', [], events)
      else fd_receive_loop fd expectedTransferId events [])"

datatype SendMsg = SmSent nat | SmRetry | SmError string

definition fd_packet :: "u64 \<Rightarrow> int \<Rightarrow> Packet" where
  "fd_packet transferId descriptor =
     \<lparr>pk_read = 8, pk_transferId = transferId, pk_truncated = False,
      pk_control = [\<lparr>cm_rights = True, cm_descriptors = [descriptor], cm_aligned = True\<rparr>]\<rparr>"

text \<open>The packet that reached the peer, if any, and the error text.\<close>

fun fd_send_loop :: "int \<Rightarrow> u64 \<Rightarrow> int \<Rightarrow> (WaitAnswer \<times> SendMsg) list \<Rightarrow> (bool \<times> Packet option \<times> string) option" where
  "fd_send_loop fd transferId descriptor [] = None"
| "fd_send_loop fd transferId descriptor ((answer, sent) # events) =
     (case waitForFd fd answer of
        (result, why) \<Rightarrow>
        if result \<noteq> IO_Complete then Some (False, None, why)
        else case sent of
          SmSent n \<Rightarrow>
            if n = 8 then Some (True, Some (fd_packet transferId descriptor), [])
            else Some (False, None, ''FD channel sent a partial packet'')
        | SmRetry \<Rightarrow> fd_send_loop fd transferId descriptor events
        | SmError reason \<Rightarrow> Some (False, None, reason))"

definition fd_send :: "int \<Rightarrow> u64 \<Rightarrow> int \<Rightarrow> (WaitAnswer \<times> SendMsg) list \<Rightarrow> (bool \<times> Packet option \<times> string) option" where
  "fd_send fd transferId descriptor events =
     (if fd < 0 \<or> descriptor < 0 then Some (False, None, ''FD channel is not connected'')
      else fd_send_loop fd transferId descriptor events)"

text \<open>
  Accepting: peers with foreign credentials are closed and waiting goes on. The result is the connected descriptor or
  \<open>None\<close> for a failure, and the descriptors closed, the listening one included on success.
\<close>

fun fd_accept :: "nat \<Rightarrow> int \<Rightarrow> int \<Rightarrow> (WaitAnswer \<times> (string option + int \<times> (nat \<times> int) option)) list \<Rightarrow> int list \<Rightarrow>
  (int option \<times> int list) option" where
  "fd_accept euid expectedPeerPid fd [] shut = None"
| "fd_accept euid expectedPeerPid fd ((answer, accepted) # events) shut =
     (if fst (waitForFd fd answer) \<noteq> IO_Complete then Some (None, shut)
      else case accepted of
        Inl None \<Rightarrow> fd_accept euid expectedPeerPid fd events shut
      | Inl (Some why) \<Rightarrow> Some (None, shut)
      | Inr (peer, credentials) \<Rightarrow>
        (case credentials of
           Some (uid, pid) \<Rightarrow>
             if uid = euid \<and> (expectedPeerPid < 0 \<or> pid = expectedPeerPid) then Some (Some peer, shut @ [fd])
             else fd_accept euid expectedPeerPid fd events (shut @ [peer])
         | None \<Rightarrow> fd_accept euid expectedPeerPid fd events (shut @ [peer])))"

section \<open>Lemmas\<close>

declare waitForFd.simps [simp del]

definition packet_descriptors :: "Packet \<Rightarrow> int list" where
  "packet_descriptors p = concat (map cm_descriptors (filter cm_rights (pk_control p)))"

lemma extract_count: "snd (extract_loop ms (d, n, b)) = (n + length (concat (map cm_descriptors (filter cm_rights ms))),
    b \<or> (\<exists>m \<in> set ms. \<not> cm_rights m \<or> \<not> cm_aligned m))"
  by (induction ms arbitrary: d n b) auto

lemma extract_first:
  "fst (extract_loop ms (d, n, b)) = (if n = 0 \<and> concat (map cm_descriptors (filter cm_rights ms)) \<noteq> []
     then hd (concat (map cm_descriptors (filter cm_rights ms))) else d)"
  by (induction ms arbitrary: d n b) (auto simp: hd_append)

text \<open>A well-formed packet carries exactly one descriptor.\<close>

lemma well_formed_single: "packetWellFormed p \<Longrightarrow> packet_descriptors p = [extractDescriptor p] \<and> extractDescriptor p \<ge> 0"
proof -
  assume wf: "packetWellFormed p"
  obtain d n b where e: "extract_loop (pk_control p) (- 1, 0, False) = (d, n, b)" by (metis prod_cases3)
  have "n = length (packet_descriptors p)" using extract_count [of "pk_control p" "- 1" 0 False] e by (simp add: packet_descriptors_def)
  moreover have "d = (if packet_descriptors p \<noteq> [] then hd (packet_descriptors p) else - 1)"
    using extract_first [of "pk_control p" "- 1" 0 False] unfolding e packet_descriptors_def by (simp only: fst_conv simp_thms)
  moreover have "n = 1 \<and> extractDescriptor p = d \<and> d \<ge> 0" using wf e by (auto simp: packetWellFormed_def extractDescriptor_def split: if_splits)
  ultimately show ?thesis by (cases "packet_descriptors p") auto
qed

lemma closeDescriptors_eq: "closeDescriptors p = filter (\<lambda>d. d \<ge> 0) (packet_descriptors p)"
  by (simp add: closeDescriptors_def packet_descriptors_def)

text \<open>The descriptors that the packets of some events install in the process.\<close>

fun installed :: "FdEvent list \<Rightarrow> int list" where
  "installed [] = []"
| "installed ((answer, RmPacket p, expired) # events) = filter (\<lambda>d. d \<ge> 0) (packet_descriptors p) @ installed events"
| "installed ((answer, msg, expired) # events) = installed events"

text \<open>Waiting for a descriptor that is not ready reads no packet.\<close>

definition event_coherent :: "int \<Rightarrow> FdEvent \<Rightarrow> bool" where
  "event_coherent fd event \<longleftrightarrow> fst (waitForFd fd (fst event)) = IO_Complete \<or> fst (snd event) = RmRetry"

lemma receive_conserves:
  "list_all (event_coherent fd) events \<Longrightarrow> fd_receive_loop fd t events shut = Some (d, why, shut', rest) \<Longrightarrow>
     \<exists>used. events = used @ rest \<and> mset shut + mset (installed used) = mset shut' + (if d \<ge> 0 then {#d#} else {#})"
proof (induction fd t events shut rule: fd_receive_loop.induct)
  case (2 fd t answer msg expired events shut)
  obtain result reason where w: "waitForFd fd answer = (result, reason)" by fastforce
  note fin = exI [of _ "[(answer, msg, expired)]"]
  show ?case
  proof (cases "result = IO_Complete")
    case False
    with 2(3,4) w show ?thesis by (intro fin) (auto simp: event_coherent_def)
  next
    case True
    have step: "\<exists>used. (answer, msg, expired) # events = used @ rest \<and> P used"
      if "\<exists>used. events = used @ rest \<and> P ((answer, msg, expired) # used)" for P
      using that by (metis append_Cons)
    show ?thesis
    proof (cases msg)
      case RmRetry
      show ?thesis
      proof (cases expired)
        case True
        with 2(4) w \<open>result = IO_Complete\<close> RmRetry show ?thesis by (intro fin) auto
      next
        case False
        with 2(1) [OF w [symmetric]] 2(3,4) w True RmRetry show ?thesis by (intro step) auto
      qed
    next
      case (RmError e)
      with 2(4) w True show ?thesis by (intro fin) auto
    next
      case (RmPacket p)
      show ?thesis
      proof (cases "packetWellFormed p")
        case False
        with 2(4) w True RmPacket show ?thesis by (intro fin) (auto simp: closeDescriptors_eq)
      next
        case wf: True
        note one = well_formed_single [OF wf]
        show ?thesis
        proof (cases "pk_transferId p = t \<or> expired")
          case True
          with 2(4) w \<open>result = IO_Complete\<close> RmPacket wf one show ?thesis
            by (intro fin) (auto simp: closeDescriptors_eq split: if_splits)
        next
          case False
          with 2(2) [OF w [symmetric]] 2(3,4) w \<open>result = IO_Complete\<close> RmPacket wf one
          show ?thesis by (intro step) (auto simp: closeDescriptors_eq algebra_simps)
        qed
      qed
    qed
  qed
qed simp

text \<open>A queue of well-formed packets that are all there.\<close>

definition queued :: "Packet list \<Rightarrow> FdEvent list" where
  "queued ps = map (\<lambda>p. (WaitFlags True False False, RmPacket p, False)) ps"

lemma receive_queued:
  assumes "fd \<ge> 0"
  shows "list_all packetWellFormed (stale @ [p]) \<Longrightarrow> list_all (\<lambda>q. pk_transferId q \<noteq> t) stale \<Longrightarrow> pk_transferId p = t \<Longrightarrow>
    fd_receive_loop fd t (queued (stale @ p # later)) shut
      = Some (extractDescriptor p, [], shut @ map extractDescriptor stale, queued later)"
proof (induction stale arbitrary: shut)
  case (Cons q stale)
  have "closeDescriptors q = [extractDescriptor q]" using well_formed_single [of q] Cons.prems(1) by (simp add: closeDescriptors_eq)
  with Cons assms show ?case by (simp add: queued_def waitForFd.simps)
qed (use assms in \<open>simp add: queued_def waitForFd.simps\<close>)

lemma sent_packet: "descriptor \<ge> 0 \<Longrightarrow> packetWellFormed (fd_packet t descriptor) \<and> extractDescriptor (fd_packet t descriptor) = descriptor"
  by (simp add: packetWellFormed_def extractDescriptor_def fd_packet_def)



end
