(* ===== verification/Ocr_Cache.thy ===== *)
theory Ocr_Cache
  imports Model_Types Std_Map
begin

text \<open>
  The persistent cache of recognised text (\<^verbatim>\<open>src/src/plugin/caching/ocr_cache.cpp\<close>): keys and file names, the file format with
  its bounds, lookup with fallback to a finer resolution, and saving. Files are a map from paths to contents.
\<close>

section \<open>Constants and data\<close>

definition CACHE_MAGIC :: u32 where
  [limits]: "CACHE_MAGIC = 0x4F435232"

definition CACHE_HEADER_BYTES :: nat where
  [limits]: "CACHE_HEADER_BYTES = 8"

definition MAX_ITEMS_PER_PAGE :: nat where
  [limits]: "MAX_ITEMS_PER_PAGE = 1000000"

definition MAX_CACHE_COMPRESSED_BYTES :: nat where
  [limits]: "MAX_CACHE_COMPRESSED_BYTES = 8 * 1024 * 1024"

definition MAX_CACHE_RAW_BYTES :: nat where
  [limits]: "MAX_CACHE_RAW_BYTES = 64 * 1024 * 1024"

definition DPI_FAST :: int where
  [limits]: "DPI_FAST = 150"

definition DPI_BALANCED :: int where
  [limits]: "DPI_BALANCED = 225"

definition DPI_ACCURACY :: int where
  [limits]: "DPI_ACCURACY = 300"

definition qualityToDpi :: "int \<Rightarrow> int" where
  "qualityToDpi quality = (if quality = 0 then DPI_FAST else if quality = 2 then DPI_ACCURACY else DPI_BALANCED)"

record CacheKey =
  ck_documentHash :: string
  ck_language :: string
  ck_dpi :: int

record CacheItem =
  ci_ch :: string
  ci_l :: fp
  ci_t :: fp
  ci_r :: fp
  ci_b :: fp

record CacheLoadResult =
  cl_present :: bool
  cl_items :: "CacheItem list"

definition cache_miss :: CacheLoadResult where
  "cache_miss = \<lparr>cl_present = False, cl_items = []\<rparr>"

section \<open>Keys and file names\<close>

text \<open>\<open>alnum\<close> is \<open>QChar::isLetterOrNumber\<close>; the lower-case conversion \<open>lower\<close> is \<open>QString::toLower\<close>, and \<open>toInt\<close> is \<open>QString::toInt\<close>.\<close>

definition safe_char :: "(char \<Rightarrow> bool) \<Rightarrow> char \<Rightarrow> bool" where
  "safe_char alnum ch \<longleftrightarrow> alnum ch \<or> ch = CHR ''-'' \<or> ch = CHR ''_'' \<or> ch = CHR ''.''"

fun sanitize_loop :: "(char \<Rightarrow> bool) \<Rightarrow> string \<Rightarrow> string \<Rightarrow> string" where
  "sanitize_loop alnum safe [] = safe"
| "sanitize_loop alnum safe (ch # rest) =
     sanitize_loop alnum
       (if safe_char alnum ch then safe @ [ch]
        else if safe \<noteq> [] \<and> last safe \<noteq> CHR ''_'' then safe @ ''_'' else safe) rest"

definition edge_char :: "char \<Rightarrow> bool" where
  "edge_char ch \<longleftrightarrow> ch = CHR ''_'' \<or> ch = CHR ''.''"

definition chop_edges :: "string \<Rightarrow> string" where
  "chop_edges safe = dropWhile edge_char (rev (dropWhile edge_char (rev safe)))"

definition sanitizeFilenamePart :: "(char \<Rightarrow> bool) \<Rightarrow> string \<Rightarrow> string" where
  "sanitizeFilenamePart alnum str = (if str = [] then [] else chop_edges (sanitize_loop alnum [] str))"

definition ends_with :: "string \<Rightarrow> string \<Rightarrow> bool" where
  "ends_with suffix s \<longleftrightarrow> length suffix \<le> length s \<and> drop (length s - length suffix) s = suffix"

definition stripLangSuffix :: "string \<Rightarrow> string" where
  "stripLangSuffix lang = (if ends_with ''.traineddata'' lang then take (length lang - length ''.traineddata'') lang else lang)"

text \<open>The part of a name after its last underscore, and the part before it.\<close>

definition after_underscore :: "string \<Rightarrow> string" where
  "after_underscore s = rev (takeWhile (\<lambda>c. c \<noteq> CHR ''_'') (rev s))"

definition before_underscore :: "string \<Rightarrow> string" where
  "before_underscore s = take (length s - length (after_underscore s) - 1) s"

record Unicode =
  un_alnum :: "char \<Rightarrow> bool"
  un_lower :: "string \<Rightarrow> string"
  un_toInt :: "string \<Rightarrow> int option"

definition normalizeKey :: "Unicode \<Rightarrow> string \<Rightarrow> string \<Rightarrow> int \<Rightarrow> CacheKey option" where
  "normalizeKey U docHash lang dpi =
     (let safeHash = un_lower U (sanitizeFilenamePart (un_alnum U) docHash) in
      if safeHash = [] then None
      else
        let rawLang = sanitizeFilenamePart (un_alnum U) (un_lower U (stripLangSuffix lang)) in
        if rawLang = [] then None
        else
          let suffix = after_underscore rawLang;
              parsed = (if CHR ''_'' \<in> set rawLang \<and> before_underscore rawLang \<noteq> [] \<and> ends_with ''dpi'' suffix
                        then un_toInt U (take (length suffix - 3) suffix) else None);
              baseLang = (if parsed = None then rawLang else before_underscore rawLang);
              parsedDpi = (case parsed of None \<Rightarrow> 0 | Some p \<Rightarrow> p)
          in Some \<lparr>ck_documentHash = safeHash, ck_language = baseLang, ck_dpi = (if dpi > 0 then dpi else parsedDpi)\<rparr>)"

text \<open>\<open>number\<close> is the decimal notation of \<open>QString::number\<close>.\<close>

definition getCacheFilePath :: "string \<Rightarrow> (int \<Rightarrow> string) \<Rightarrow> CacheKey \<Rightarrow> int \<Rightarrow> string" where
  "getCacheFilePath rootdir number key pageNum =
     (if pageNum < 0 then []
      else
        let cleanLang = (if ck_dpi key > 0 then ck_language key @ ''_'' @ number (ck_dpi key) @ ''dpi'' else ck_language key)
        in rootdir @ ''/'' @ ck_documentHash key @ ''/p'' @ number pageNum @ ''_'' @ cleanLang @ ''v1.bin'')"

section \<open>File format\<close>

text \<open>
  The item stream (\<open>QDataStream\<close>) and zlib are parameters: writing and reading one item, \<open>qCompress\<close> (empty when it
  fails) and \<open>uncompress\<close> into a buffer of a given size.
\<close>

record CacheFormat =
  cf_write :: "CacheItem \<Rightarrow> u8 list"
  cf_read :: "u8 list \<Rightarrow> (CacheItem \<times> u8 list) option"
  cf_compress :: "u8 list \<Rightarrow> u8 list"
  cf_uncompress :: "nat \<Rightarrow> u8 list \<Rightarrow> u8 list option"

definition isCacheFileSizeValid :: "nat \<Rightarrow> bool" where
  "isCacheFileSizeValid n \<longleftrightarrow>
     n = CACHE_HEADER_BYTES \<or> (n > CACHE_HEADER_BYTES \<and> n \<le> CACHE_HEADER_BYTES + MAX_CACHE_COMPRESSED_BYTES)"

definition isValidCacheItem :: "CacheItem \<Rightarrow> bool" where
  "isValidCacheItem item \<longleftrightarrow> fp_le (Fin 0) (ci_l item) \<and> fp_le (Fin 0) (ci_t item) \<and> fp_le (ci_r item) (Fin 1) \<and> fp_le (ci_b item) (Fin 1)
     \<and> fp_le (ci_l item) (ci_r item) \<and> fp_le (ci_t item) (ci_b item)"

definition be32 :: "u32 \<Rightarrow> u8 list" where
  "be32 w = [ucast (drop_bit 24 w), ucast (drop_bit 16 w), ucast (drop_bit 8 w), ucast w]"

definition read_be32 :: "u8 list \<Rightarrow> u32" where
  "read_be32 bs = or (push_bit 24 (ucast (bs ! 0))) (or (push_bit 16 (ucast (bs ! 1))) (or (push_bit 8 (ucast (bs ! 2))) (ucast (bs ! 3))))"

definition decompressBounded :: "CacheFormat \<Rightarrow> u8 list \<Rightarrow> u8 list" where
  "decompressBounded F compressed =
     (if length compressed < 4 then []
      else
        let declaredSize = unat (read_be32 compressed) in
        if declaredSize = 0 \<or> declaredSize > MAX_CACHE_RAW_BYTES then []
        else case cf_uncompress F declaredSize (drop 4 compressed) of None \<Rightarrow> [] | Some raw \<Rightarrow> raw)"

definition readCacheItemCount :: "u8 list \<Rightarrow> nat option" where
  "readCacheItemCount d =
     (if \<not> isCacheFileSizeValid (length d) then None
      else
        let magic = read_be32 d; count = unat (read_be32 (drop 4 d)) in
        if magic \<noteq> CACHE_MAGIC \<or> count > MAX_ITEMS_PER_PAGE then None
        else if count = 0 \<and> length d \<noteq> CACHE_HEADER_BYTES then None
        else if count > 0 \<and> length d \<le> CACHE_HEADER_BYTES then None
        else Some count)"

fun read_items :: "CacheFormat \<Rightarrow> nat \<Rightarrow> u8 list \<Rightarrow> CacheItem list option" where
  "read_items F 0 raw = Some []"
| "read_items F (Suc n) raw =
     (case cf_read F raw of
        None \<Rightarrow> None
      | Some (item, rest) \<Rightarrow> if isValidCacheItem item then map_option ((#) item) (read_items F n rest) else None)"

text \<open>The items a file stores, or \<open>None\<close> when it must be removed.\<close>

definition parse_file :: "CacheFormat \<Rightarrow> u8 list \<Rightarrow> CacheItem list option" where
  "parse_file F d =
     (case readCacheItemCount d of
        None \<Rightarrow> None
      | Some count \<Rightarrow>
        if count = 0 then Some []
        else
          let raw = decompressBounded F (drop CACHE_HEADER_BYTES d) in
          if raw = [] then None else read_items F count raw)"

type_synonym Files = "(string, u8 list) std_map"

definition readBounded :: "Files \<Rightarrow> string \<Rightarrow> int \<Rightarrow> u8 list option" where
  "readBounded fs path maxBytes =
     (if maxBytes < 0 then None
      else case map_of fs path of None \<Rightarrow> None | Some d \<Rightarrow> if int (length d) > maxBytes then None else Some d)"

definition loadFromFile :: "CacheFormat \<Rightarrow> string \<Rightarrow> Files \<Rightarrow> Files \<times> CacheLoadResult" where
  "loadFromFile F path fs =
     (if path = [] then (fs, cache_miss)
      else case readBounded fs path (int (CACHE_HEADER_BYTES + MAX_CACHE_COMPRESSED_BYTES)) of
        None \<Rightarrow> (map_erase path fs, cache_miss)
      | Some d \<Rightarrow>
        (case parse_file F d of
           None \<Rightarrow> (map_erase path fs, cache_miss)
         | Some items \<Rightarrow> (fs, \<lparr>cl_present = True, cl_items = items\<rparr>)))"

section \<open>Lookup\<close>

definition candidateKeys :: "CacheKey \<Rightarrow> CacheKey list" where
  "candidateKeys key =
     key # (if ck_dpi key > 0 then map (\<lambda>higher. key\<lparr>ck_dpi := higher\<rparr>) (filter (\<lambda>higher. higher > ck_dpi key) [DPI_ACCURACY, DPI_BALANCED]) else [])"

definition candidateFilePaths :: "string \<Rightarrow> (int \<Rightarrow> string) \<Rightarrow> CacheKey \<Rightarrow> int \<Rightarrow> string list" where
  "candidateFilePaths rootdir number key pageNum =
     (if pageNum < 0 then [] else map (\<lambda>k. getCacheFilePath rootdir number k pageNum) (candidateKeys key))"

fun load_first :: "CacheFormat \<Rightarrow> string list \<Rightarrow> Files \<Rightarrow> Files \<times> CacheLoadResult" where
  "load_first F [] fs = (fs, cache_miss)"
| "load_first F (path # paths) fs =
     (case loadFromFile F path fs of (fs', result) \<Rightarrow> if cl_present result then (fs', result) else load_first F paths fs')"

definition cache_load :: "CacheFormat \<Rightarrow> string \<Rightarrow> (int \<Rightarrow> string) \<Rightarrow> CacheKey \<Rightarrow> int \<Rightarrow> Files \<Rightarrow> Files \<times> CacheLoadResult" where
  "cache_load F rootdir number key pageNum = load_first F (candidateFilePaths rootdir number key pageNum)"

section \<open>Saving\<close>

definition serializeCacheFile :: "CacheFormat \<Rightarrow> CacheItem list \<Rightarrow> u8 list option" where
  "serializeCacheFile F items =
     (if items = [] then Some (be32 CACHE_MAGIC @ be32 0)
      else
        let rawBuffer = concat (map (cf_write F) items) in
        if length rawBuffer > MAX_CACHE_RAW_BYTES then None
        else
          let compressedData = cf_compress F rawBuffer in
          if compressedData = [] \<or> length compressedData > MAX_CACHE_COMPRESSED_BYTES then None
          else Some (be32 CACHE_MAGIC @ be32 (of_nat (length items)) @ compressedData))"

text \<open>\<open>committed\<close> tells whether the atomic write succeeds; the file it replaces is kept otherwise.\<close>

definition cache_save :: "CacheFormat \<Rightarrow> bool \<Rightarrow> string \<Rightarrow> (int \<Rightarrow> string) \<Rightarrow> CacheKey \<Rightarrow> int \<Rightarrow> CacheItem list \<Rightarrow> Files \<Rightarrow> Files \<times> bool" where
  "cache_save F committed rootdir number key pageNum items fs =
     (if length items > MAX_ITEMS_PER_PAGE \<or> pageNum < 0 then (fs, False)
      else
        let path = getCacheFilePath rootdir number key pageNum in
        if path = [] then (fs, False)
        else case serializeCacheFile F items of
          None \<Rightarrow> (fs, False)
        | Some d \<Rightarrow> if committed then (map_emplace path d (map_erase path fs), True) else (fs, False))"

definition convertToCacheItems :: "TextBox list \<Rightarrow> CacheItem list" where
  "convertToCacheItems boxes =
     map (\<lambda>box. \<lparr>ci_ch = tb_text box, ci_l = tb_left box, ci_t = tb_top box, ci_r = tb_right box, ci_b = tb_bottom box\<rparr>) boxes"

section \<open>The file format reads back\<close>

lemma read_be32_be32: "read_be32 (be32 w @ rest) = w"
proof (rule bit_word_eqI)
  fix k
  assume "k < LENGTH(32)"
  then consider "k < 8" | "8 \<le> k" "k < 16" | "16 \<le> k" "k < 24" | "24 \<le> k" "k < 32" by fastforce
  then show "bit (read_be32 (be32 w @ rest)) k = bit w k"
    unfolding be32_def read_be32_def by cases (auto simp: bit_simps)
qed

lemma be32_shape [simp]: "length (be32 w) = 4" "drop 4 (be32 w @ rest) = rest" "be32 w \<noteq> []"
  by (simp_all add: be32_def)

text \<open>
  What the code relies on in Qt and zlib, for the items at hand: an item reads back what was written, whatever follows; compressed
  data starts with the size of the input and uncompresses to it.
\<close>

definition format_ok :: "CacheFormat \<Rightarrow> CacheItem list \<Rightarrow> bool" where
  "format_ok F items \<longleftrightarrow> (\<forall>item\<in>set items. \<forall>rest. cf_write F item \<noteq> [] \<and> cf_read F (cf_write F item @ rest) = Some (item, rest))
     \<and> (\<forall>raw. raw \<noteq> [] \<and> length raw < 2 ^ 32 \<longrightarrow>
          cf_compress F raw = [] \<or> (\<exists>z. z \<noteq> [] \<and> cf_compress F raw = be32 (of_nat (length raw)) @ z \<and> cf_uncompress F (length raw) z = Some raw))"

lemma read_items_written:
  assumes "format_ok F items" "list_all isValidCacheItem items"
  shows "read_items F (length items) (concat (map (cf_write F) items)) = Some items"
  using assms by (induction items) (auto simp: format_ok_def)

lemma decompress_compressed:
  assumes "format_ok F items" "raw \<noteq> []" "length raw \<le> MAX_CACHE_RAW_BYTES" "cf_compress F raw \<noteq> []"
  shows "decompressBounded F (cf_compress F raw) = raw \<and> 4 < length (cf_compress F raw)"
proof -
  have n: "length raw < 2 ^ 32" using assms(3) by (simp add: limits)
  then have u: "unat (of_nat (length raw) :: u32) = length raw" by (simp add: unsigned_of_nat take_bit_nat_eq_self_iff)
  from assms n obtain z where z: "z \<noteq> []" "cf_compress F raw = be32 (of_nat (length raw)) @ z" "cf_uncompress F (length raw) z = Some raw"
    unfolding format_ok_def by blast
  show ?thesis using assms(2,3) u z(1,3) by (simp add: z(2) decompressBounded_def read_be32_be32)
qed

lemma parse_serialized:
  assumes "format_ok F items" "list_all isValidCacheItem items" "length items \<le> MAX_ITEMS_PER_PAGE" "serializeCacheFile F items = Some d"
  shows "parse_file F d = Some items \<and> length d \<le> CACHE_HEADER_BYTES + MAX_CACHE_COMPRESSED_BYTES"
proof (cases "items = []")
  case True
  with assms(4) have d: "d = be32 CACHE_MAGIC @ be32 0 @ []" by (simp add: serializeCacheFile_def)
  have "read_be32 (be32 0 @ []) = 0" by (rule read_be32_be32)
  then show ?thesis using True unfolding d parse_file_def readCacheItemCount_def read_be32_be32 be32_shape(2)
    by (simp add: isCacheFileSizeValid_def limits)
next
  case False
  let ?raw = "concat (map (cf_write F) items)"
  from False assms(4) have r: "length ?raw \<le> MAX_CACHE_RAW_BYTES" "cf_compress F ?raw \<noteq> []"
    "length (cf_compress F ?raw) \<le> MAX_CACHE_COMPRESSED_BYTES"
    and d: "d = be32 CACHE_MAGIC @ be32 (of_nat (length items)) @ cf_compress F ?raw"
    by (auto simp: serializeCacheFile_def Let_def split: if_splits)
  have raw: "?raw \<noteq> []" using False assms(1) by (cases items) (auto simp: format_ok_def)
  note z = decompress_compressed [OF assms(1) raw r(1,2)]
  have u: "unat (of_nat (length items) :: u32) = length items"
    using assms(3) by (simp add: unsigned_of_nat take_bit_nat_eq_self_iff limits)
  have len: "length d = 8 + length (cf_compress F ?raw)" by (simp add: d)
  have h: "drop 8 d = cf_compress F ?raw" using be32_shape(2) by (simp add: d flip: drop_drop [of 4 4, simplified])
  have "readCacheItemCount d = Some (length items)"
    using z r(2,3) assms(3) False u len unfolding readCacheItemCount_def d be32_shape(2) read_be32_be32
    by (simp add: isCacheFileSizeValid_def limits)
  then show ?thesis using False z raw h r(3) len read_items_written [OF assms(1,2)] by (simp add: parse_file_def limits)
qed

text \<open>
  C23. A saved page is found again: after a save that reports success, loading the same key and page returns exactly the
  saved boxes and leaves the cache as it is, provided the boxes have normalised coordinates.
\<close>

theorem cache_round_trip:
  assumes "format_ok F items" "list_all isValidCacheItem items" "cache_save F committed rootdir number key page items fs = (fs', True)"
  shows "cache_load F rootdir number key page fs' = (fs', \<lparr>cl_present = True, cl_items = items\<rparr>)"
proof -
  let ?path = "getCacheFilePath rootdir number key page"
  from assms(3) obtain d where d: "length items \<le> MAX_ITEMS_PER_PAGE" "page \<ge> 0" "?path \<noteq> []" "serializeCacheFile F items = Some d"
    "fs' = map_emplace ?path d (map_erase ?path fs)"
    by (auto simp: cache_save_def Let_def split: if_splits option.splits)
  from parse_serialized [OF assms(1,2) d(1,4)] have p: "parse_file F d = Some items" "length d \<le> CACHE_HEADER_BYTES + MAX_CACHE_COMPRESSED_BYTES" by blast+
  have "map_of fs' ?path = Some d" by (simp add: d(5) std_map)
  then have "readBounded fs' ?path (int (CACHE_HEADER_BYTES + MAX_CACHE_COMPRESSED_BYTES)) = Some d"
    using p(2) unfolding readBounded_def by (simp only: of_nat_less_iff) simp
  then have "loadFromFile F ?path fs' = (fs', \<lparr>cl_present = True, cl_items = items\<rparr>)" using d(3) p(1) by (simp add: loadFromFile_def)
  then show ?thesis using d(2) by (simp add: cache_load_def candidateFilePaths_def candidateKeys_def)
qed

text \<open>A format for one box: the item is written as one byte, and compression keeps the data as it is.\<close>

definition item0 :: CacheItem where
  "item0 = \<lparr>ci_ch = ''a'', ci_l = Fin 0, ci_t = Fin 0, ci_r = Fin 1, ci_b = Fin 1\<rparr>"

definition format0 :: CacheFormat where
  "format0 = \<lparr>cf_write = (\<lambda>_. [7]), cf_read = (\<lambda>raw. case raw of [] \<Rightarrow> None | b # rest \<Rightarrow> Some (item0, rest)),
     cf_compress = (\<lambda>raw. be32 (of_nat (length raw)) @ raw), cf_uncompress = (\<lambda>n z. if length z = n then Some z else None)\<rparr>"

lemma format0_ok: "format_ok format0 [item0, item0]"
  by (simp add: format_ok_def format0_def)

definition key0 :: CacheKey where
  "key0 = \<lparr>ck_documentHash = ''ab'', ck_language = ''eng'', ck_dpi = 225\<rparr>"

theorem cache_round_trip_witness:
  "\<exists>fs'. cache_save format0 True ''/c'' (\<lambda>_. ''9'') key0 9 [item0, item0] [] = (fs', True)
     \<and> cache_load format0 ''/c'' (\<lambda>_. ''9'') key0 9 fs' = (fs', \<lparr>cl_present = True, cl_items = [item0, item0]\<rparr>)"
proof -
  have s: "\<exists>fs'. cache_save format0 True ''/c'' (\<lambda>_. ''9'') key0 9 [item0, item0] [] = (fs', True)"
    by (simp add: cache_save_def getCacheFilePath_def serializeCacheFile_def format0_def limits Let_def)
  then obtain fs' where f: "cache_save format0 True ''/c'' (\<lambda>_. ''9'') key0 9 [item0, item0] [] = (fs', True)" by blast
  have "list_all isValidCacheItem [item0, item0]" by (simp add: isValidCacheItem_def item0_def)
  from cache_round_trip [OF format0_ok this f] f show ?thesis by blast
qed

section \<open>Lookup never lowers the resolution\<close>

lemma load_first_present:
  "load_first F paths fs = (fs', result) \<Longrightarrow> cl_present result \<Longrightarrow>
     \<exists>path\<in>set paths. \<exists>d. map_of fs path = Some d \<and> parse_file F d = Some (cl_items result)"
proof (induction paths arbitrary: fs)
  case (Cons path paths)
  obtain fs1 result1 where l: "loadFromFile F path fs = (fs1, result1)" by fastforce
  show ?case
  proof (cases "cl_present result1")
    case True
    with l Cons.prems show ?thesis
      by (auto simp: loadFromFile_def readBounded_def cache_miss_def split: if_splits option.splits)
  next
    case False
    with l Cons.prems have "load_first F paths fs1 = (fs', result)" by simp
    from Cons.IH [OF this Cons.prems(2)] obtain p d where "p \<in> set paths" "map_of fs1 p = Some d" "parse_file F d = Some (cl_items result)" by blast
    moreover have "map_of fs1 p = Some d \<Longrightarrow> map_of fs p = Some d"
      using l by (auto simp: loadFromFile_def std_map split: if_splits option.splits)
    ultimately show ?thesis by auto
  qed
qed (auto simp: cache_miss_def)

lemma candidate_keys:
  "k \<in> set (candidateKeys key) \<Longrightarrow>
     ck_documentHash k = ck_documentHash key \<and> ck_language k = ck_language key \<and> ck_dpi k \<ge> ck_dpi key"
  by (auto simp: candidateKeys_def split: if_splits)

section \<open>Names stay inside the cache\<close>

lemma sanitize_loop_safe:
  "list_all (safe_char alnum) safe \<Longrightarrow> list_all (safe_char alnum) (sanitize_loop alnum safe str)"
  by (induction alnum safe str rule: sanitize_loop.induct) (auto simp: safe_char_def)

lemma chop_edges_set: "set (chop_edges s) \<subseteq> set s"
  unfolding chop_edges_def by (meson set_dropWhileD set_rev subset_code(1) set_rev[THEN equalityD1] subsetD)

lemma chop_edges_hd: "chop_edges s \<noteq> [] \<Longrightarrow> \<not> edge_char (hd (chop_edges s))"
  unfolding chop_edges_def by (rule hd_dropWhile)

lemma sanitize_safe: "c \<in> set (sanitizeFilenamePart alnum str) \<Longrightarrow> safe_char alnum c"
proof -
  assume "c \<in> set (sanitizeFilenamePart alnum str)"
  then have "c \<in> set (sanitize_loop alnum [] str)"
    using chop_edges_set by (auto simp: sanitizeFilenamePart_def split: if_splits)
  then show ?thesis using sanitize_loop_safe [of alnum "[]" str] by (simp add: list_all_iff)
qed

lemma sanitize_hd: "sanitizeFilenamePart alnum str \<noteq> [] \<Longrightarrow> hd (sanitizeFilenamePart alnum str) \<noteq> CHR ''.''"
  using chop_edges_hd [of "sanitize_loop alnum [] str"] by (auto simp: sanitizeFilenamePart_def edge_char_def split: if_splits)

lemma before_underscore_set: "set (before_underscore s) \<subseteq> set s"
  by (simp add: before_underscore_def set_take_subset)


text \<open>A hash with a directory prefix and a language with a resolution suffix.\<close>

definition ascii0 :: Unicode where
  "ascii0 = \<lparr>un_alnum = (\<lambda>c. c \<in> set ''abengdpi0123''), un_lower = map id, un_toInt = (\<lambda>s. if s = ''300'' then Some 300 else None)\<rparr>"


end
