(* ===== verification/Ocr_Controller.thy ===== *)
theory Ocr_Controller
  imports Ocr_Cache Messages
begin

text \<open>
  The host's scheduling of text recognition (\<^verbatim>\<open>src/src/plugin/ocr\<close>): the choice of the page in focus, the queue of pages, the
  retry policy, and the controller that probes the cache, starts recognition and delivers results.
\<close>

section \<open>Policies\<close>

definition STALE_RADIUS :: int where
  [limits]: "STALE_RADIUS = 2"

definition MAX_QUEUED_PAGES :: nat where
  [limits]: "MAX_QUEUED_PAGES = 3"

definition MAX_ATTEMPTS :: int where
  [limits]: "MAX_ATTEMPTS = 3"

definition DEBOUNCE_MS :: int where
  [limits]: "DEBOUNCE_MS = 250"

datatype ScrollDirection = Forward | Backward

record VisiblePage =
  vis_page :: int
  vis_visibleArea :: fp

text \<open>\<open>add\<close> is the addition of doubles.\<close>

fun add_area :: "(fp \<Rightarrow> fp \<Rightarrow> fp) \<Rightarrow> VisiblePage \<Rightarrow> VisiblePage list \<Rightarrow> VisiblePage list" where
  "add_area add page [] = [page]"
| "add_area add page (t # ts) =
     (if vis_page t = vis_page page then t\<lparr>vis_visibleArea := add (vis_visibleArea t) (vis_visibleArea page)\<rparr> # ts else t # add_area add page ts)"

definition area_totals :: "(fp \<Rightarrow> fp \<Rightarrow> fp) \<Rightarrow> VisiblePage list \<Rightarrow> VisiblePage list" where
  "area_totals add pages =
     fold (add_area add) (filter (\<lambda>page. \<not> (vis_page page < 0 \<or> fp_le (vis_visibleArea page) (Fin 0))) pages) []"

fun pick_page :: "int \<Rightarrow> VisiblePage list \<Rightarrow> int \<times> fp \<Rightarrow> int \<times> fp" where
  "pick_page previousPage [] best = best"
| "pick_page previousPage (page # pages) (result, largest) =
     (let area = vis_visibleArea page; tied = (fp_le area largest \<and> fp_le largest area) in
      pick_page previousPage pages
        (if fp_lt largest area \<or> (tied \<and> vis_page page = previousPage)
            \<or> (tied \<and> result \<noteq> previousPage \<and> (result < 0 \<or> vis_page page < result))
         then (vis_page page, area) else (result, largest)))"

definition dominantPage :: "(fp \<Rightarrow> fp \<Rightarrow> fp) \<Rightarrow> VisiblePage list \<Rightarrow> int \<Rightarrow> int" where
  "dominantPage add pages previousPage = fst (pick_page previousPage (area_totals add pages) (- 1, Fin 0))"

record FocusPolicy =
  fo_focus :: int
  fo_pageCount :: int
  fo_direction :: ScrollDirection

definition FocusPolicy_default :: FocusPolicy where
  "FocusPolicy_default = \<lparr>fo_focus = - 1, fo_pageCount = 0, fo_direction = Forward\<rparr>"

definition noteFocus :: "int \<Rightarrow> int \<Rightarrow> FocusPolicy \<Rightarrow> FocusPolicy \<times> bool" where
  "noteFocus page pageCount f =
     (if page = fo_focus f \<and> pageCount = fo_pageCount f then (f, False)
      else (\<lparr>fo_focus = page, fo_pageCount = pageCount,
             fo_direction = (if fo_focus f \<ge> 0 \<and> page \<noteq> fo_focus f then if page > fo_focus f then Forward else Backward else fo_direction f)\<rparr>, True))"

definition prefetchWindow :: "FocusPolicy \<Rightarrow> int list" where
  "prefetchWindow f =
     (if fo_focus f < 0 \<or> fo_focus f \<ge> fo_pageCount f then []
      else
        let adjacent = (if fo_direction f = Forward then fo_focus f + 1 else fo_focus f - 1);
            opposite = fo_focus f * 2 - adjacent
        in fo_focus f # filter (\<lambda>page. page \<ge> 0 \<and> page < fo_pageCount f) [adjacent, opposite])"

definition dropStale :: "int \<Rightarrow> int \<Rightarrow> int list \<Rightarrow> int list" where
  "dropStale focus radius q = (if focus < 0 then [] else filter (\<lambda>page. \<not> \<bar>page - focus\<bar> > radius) q)"

fun merge_pages :: "int list \<Rightarrow> int list \<Rightarrow> int list" where
  "merge_pages merged [] = merged"
| "merge_pages merged (page # pages) = merge_pages (if page \<in> set merged then merged else merged @ [page]) pages"

definition refresh :: "int \<Rightarrow> int list \<Rightarrow> int \<Rightarrow> nat \<Rightarrow> int list \<Rightarrow> int list" where
  "refresh focus candidates radius maxPages q =
     (if focus < 0 then []
      else take maxPages (sort_key (\<lambda>page. \<bar>page - focus\<bar>) (dropStale focus radius (merge_pages (merge_pages [] candidates) q))))"

definition takeNext :: "int \<Rightarrow> int \<Rightarrow> int list \<Rightarrow> int list \<times> int option" where
  "takeNext focus radius q = (case dropStale focus radius q of [] \<Rightarrow> ([], None) | page # rest \<Rightarrow> (rest, Some page))"

definition pushFront :: "int \<Rightarrow> int \<Rightarrow> int \<Rightarrow> int list \<Rightarrow> int list" where
  "pushFront page focus radius q = (if page < 0 then q else dropStale focus radius (page # removeAll page q))"

type_synonym RetryPolicy = "(int, int) std_map"

definition onFailure :: "int \<Rightarrow> RetryPolicy \<Rightarrow> RetryPolicy \<times> bool" where
  "onFailure page r =
     (let attempts = (case map_of r page of None \<Rightarrow> 0 | Some n \<Rightarrow> n) + 1
      in (map_emplace page attempts (map_erase page r), attempts < MAX_ATTEMPTS))"

section \<open>Controller state\<close>

record OcrConfig =
  oc_documentHash :: string
  oc_language :: string
  oc_pageCount :: int
  oc_dpi :: int
  oc_dpiX :: fp
  oc_dpiY :: fp
  oc_force :: bool
  oc_autoTrigger :: bool
  oc_triggerThreshold :: nat
  oc_debounceMs :: int

definition config_eq :: "OcrConfig \<Rightarrow> OcrConfig \<Rightarrow> bool" where
  "config_eq a b \<longleftrightarrow> oc_documentHash a = oc_documentHash b \<and> oc_language a = oc_language b \<and> oc_pageCount a = oc_pageCount b
     \<and> oc_dpi a = oc_dpi b \<and> oc_force a = oc_force b \<and> oc_autoTrigger a = oc_autoTrigger b \<and> oc_triggerThreshold a = oc_triggerThreshold b"

record ActiveJob =
  aj_jobId :: u64
  aj_page :: int
  aj_cacheKey :: CacheKey

record PendingCache =
  pc_page :: int
  pc_key :: CacheKey

datatype CompletionSource = CacheLoaded | OcrCompleted

datatype OcrSignal = OcrStarted int | OcrPageCompleted int "CacheItem list" CompletionSource | OcrPageFailed int

text \<open>
  The cache watcher has no future, or one that runs, or one that has finished while its signal is still to be delivered; the
  future is described by what it loads. Observations are posted to the controller's thread with the generation they were made in.
  Timers are flags; the signals, the saves and the cancellations sent to the worker are recorded.
\<close>

datatype CacheFuture = NoFuture | Running CacheKey int | Finished CacheKey int

type_synonym Observation = "int \<times> OcrConfig \<times> (int \<times> nat) option \<times> u64"

record Controller =
  ct_debounce :: bool
  ct_interval :: int
  ct_retryTimer :: bool
  ct_future :: CacheFuture
  ct_focus :: FocusPolicy
  ct_queue :: "int list"
  ct_retry :: RetryPolicy
  ct_config :: OcrConfig
  ct_activeJob :: "ActiveJob option"
  ct_pendingCache :: "PendingCache option"
  ct_nativeTextBoxCounts :: "(int, nat) std_map"
  ct_readyResults :: "(int, CacheItem list) std_map"
  ct_lastFocusPage :: int
  ct_generation :: u64
  ct_posted :: "Observation list"
  ct_signals :: "OcrSignal list"
  ct_saved :: "(CacheKey \<times> int \<times> CacheItem list) list"
  ct_cancels :: nat

definition OcrConfig_default :: OcrConfig where
  "OcrConfig_default = \<lparr>oc_documentHash = [], oc_language = [], oc_pageCount = 0, oc_dpi = 225, oc_dpiX = Fin 72, oc_dpiY = Fin 72,
     oc_force = False, oc_autoTrigger = True, oc_triggerThreshold = 20, oc_debounceMs = DEBOUNCE_MS\<rparr>"

definition Controller_init :: Controller where
  "Controller_init = \<lparr>ct_debounce = False, ct_interval = DEBOUNCE_MS, ct_retryTimer = False, ct_future = NoFuture, ct_focus = FocusPolicy_default,
     ct_queue = [], ct_retry = [], ct_config = OcrConfig_default, ct_activeJob = None, ct_pendingCache = None, ct_nativeTextBoxCounts = [],
     ct_readyResults = [], ct_lastFocusPage = - 1, ct_generation = 0, ct_posted = [], ct_signals = [], ct_saved = [], ct_cancels = 0\<rparr>"

text \<open>
  What the controller asks of the worker client and of the cache: whether the session is committed, the number of native text boxes
  of a page, the job that a recognition request starts, the result of a job, the key of a configuration and what loading gives.
\<close>

record OcrBackend =
  ob_operational :: bool
  ob_textBoxes :: "int \<Rightarrow> nat"
  ob_startOcrPage :: "int \<Rightarrow> string \<Rightarrow> int \<Rightarrow> u64 option"
  ob_ocrResult :: "u64 \<Rightarrow> OcrResult"
  ob_unicode :: Unicode
  ob_load :: "CacheKey \<Rightarrow> int \<Rightarrow> CacheLoadResult"

definition ct_emit :: "OcrSignal \<Rightarrow> Controller \<Rightarrow> Controller" where
  "ct_emit signal c = c\<lparr>ct_signals := ct_signals c @ [signal]\<rparr>"

section \<open>Invalidation and delivery\<close>

definition invalidate :: "Controller \<Rightarrow> Controller" where
  "invalidate c =
     c\<lparr>ct_pendingCache := None, ct_queue := [], ct_retry := [], ct_cancels := ct_cancels c + (if ct_activeJob c = None then 0 else 1),
       ct_activeJob := None, ct_nativeTextBoxCounts := [], ct_readyResults := []\<rparr>"

definition ct_reset :: "Controller \<Rightarrow> Controller" where
  "ct_reset c =
     invalidate (c\<lparr>ct_generation := ct_generation c + 1, ct_debounce := False, ct_retryTimer := False, ct_focus := FocusPolicy_default,
       ct_lastFocusPage := - 1\<rparr>)"

definition deliver :: "int \<Rightarrow> CacheItem list \<Rightarrow> CompletionSource \<Rightarrow> Controller \<Rightarrow> Controller" where
  "deliver page boxes source c =
     ct_emit (OcrPageCompleted page boxes source) (c\<lparr>ct_readyResults := map_emplace page boxes (map_erase page (ct_readyResults c))\<rparr>)"

definition takeReady :: "int \<Rightarrow> Controller \<Rightarrow> Controller \<times> CacheItem list option" where
  "takeReady page c =
     (case map_of (ct_readyResults c) page of
        None \<Rightarrow> (c, None)
      | Some boxes \<Rightarrow> (c\<lparr>ct_readyResults := map_erase page (ct_readyResults c)\<rparr>, Some boxes))"

section \<open>Scheduling\<close>

definition shouldSchedulePage :: "OcrBackend \<Rightarrow> int \<Rightarrow> Controller \<Rightarrow> Controller \<times> bool" where
  "shouldSchedulePage B page c =
     (if \<not> ob_operational B then (c, False)
      else if oc_force (ct_config c) then (c, True)
      else if \<not> oc_autoTrigger (ct_config c) then (c, False)
      else case map_of (ct_nativeTextBoxCounts c) page of
        Some n \<Rightarrow> (c, n < oc_triggerThreshold (ct_config c))
      | None \<Rightarrow>
        if page \<noteq> fo_focus (ct_focus c) then (c, False)
        else (c\<lparr>ct_nativeTextBoxCounts := map_emplace page (ob_textBoxes B page) (ct_nativeTextBoxCounts c)\<rparr>,
              ob_textBoxes B page < oc_triggerThreshold (ct_config c)))"

fun wanted_pages :: "OcrBackend \<Rightarrow> int list \<Rightarrow> Controller \<Rightarrow> Controller \<times> int list" where
  "wanted_pages B [] c = (c, [])"
| "wanted_pages B (page # pages) c =
     (case shouldSchedulePage B page c of
        (c1, ok) \<Rightarrow> (case wanted_pages B pages c1 of (c2, rest) \<Rightarrow> (c2, if ok then page # rest else rest)))"

definition startNext :: "OcrBackend \<Rightarrow> Controller \<Rightarrow> Controller" where
  "startNext B c =
     (if ct_activeJob c \<noteq> None \<or> ct_pendingCache c \<noteq> None \<or> (case ct_future c of Running _ _ \<Rightarrow> True | _ \<Rightarrow> False) then c
      else case takeNext (fo_focus (ct_focus c)) STALE_RADIUS (ct_queue c) of
        (q, None) \<Rightarrow> c\<lparr>ct_queue := q\<rparr>
      | (q, Some page) \<Rightarrow>
        (case normalizeKey (ob_unicode B) (oc_documentHash (ct_config c)) (oc_language (ct_config c)) (oc_dpi (ct_config c)) of
           None \<Rightarrow> c\<lparr>ct_queue := pushFront page (fo_focus (ct_focus c)) STALE_RADIUS q\<rparr>
         | Some key \<Rightarrow> c\<lparr>ct_queue := q, ct_pendingCache := Some \<lparr>pc_page = page, pc_key = key\<rparr>, ct_future := Running key page\<rparr>))"

definition settle :: "OcrBackend \<Rightarrow> Controller \<Rightarrow> Controller" where
  "settle B c =
     (case prefetchWindow (ct_focus c) of
        [] \<Rightarrow> c
      | candidates \<Rightarrow>
        (case wanted_pages B candidates c of
           (c1, wanted) \<Rightarrow>
             startNext B (c1\<lparr>ct_queue := refresh (fo_focus (ct_focus c1)) wanted STALE_RADIUS MAX_QUEUED_PAGES (ct_queue c1)\<rparr>)))"

definition handleFailure :: "int \<Rightarrow> Controller \<Rightarrow> Controller" where
  "handleFailure page c =
     (case onFailure page (ct_retry c) of
        (r, True) \<Rightarrow> c\<lparr>ct_retry := r, ct_queue := pushFront page (fo_focus (ct_focus c)) STALE_RADIUS (ct_queue c), ct_retryTimer := True\<rparr>
      | (r, False) \<Rightarrow> ct_emit (OcrPageFailed page) (c\<lparr>ct_retry := map_erase page r\<rparr>))"

text \<open>The delivery of the watcher's signal; the result is what loading the future's own key and page gave.\<close>

definition cacheLoadFinished :: "OcrBackend \<Rightarrow> CacheLoadResult \<Rightarrow> Controller \<Rightarrow> Controller" where
  "cacheLoadFinished B cached c =
     (case ct_pendingCache c of
        None \<Rightarrow> startNext B c
      | Some pending \<Rightarrow>
        let c1 = c\<lparr>ct_pendingCache := None\<rparr>; page = pc_page pending; key = pc_key pending in
        if cl_present cached
        then startNext B (deliver page (cl_items cached) CacheLoaded (c1\<lparr>ct_retry := map_erase page (ct_retry c1)\<rparr>))
        else if page = fo_focus (ct_focus c1)
        then (case ob_startOcrPage B page (ck_language key) (ck_dpi key) of
                Some job \<Rightarrow> ct_emit (OcrStarted page) (c1\<lparr>ct_activeJob := Some \<lparr>aj_jobId = job, aj_page = page, aj_cacheKey = key\<rparr>\<rparr>)
              | None \<Rightarrow> handleFailure page c1)
        else startNext B c1)"

definition ct_finish :: "OcrBackend \<Rightarrow> u64 \<Rightarrow> int \<Rightarrow> Controller \<Rightarrow> Controller" where
  "ct_finish B jobId page c =
     (case ct_activeJob c of
        None \<Rightarrow> c
      | Some active \<Rightarrow>
        if jobId \<noteq> aj_jobId active \<or> page \<noteq> aj_page active then c
        else
          let c1 = c\<lparr>ct_activeJob := None\<rparr>; result = ob_ocrResult B jobId in
          if or_status result \<noteq> Ocr_Success then handleFailure page c1
          else
            let boxes = convertToCacheItems (or_boxes result) in
            startNext B (deliver page boxes OcrCompleted
              (c1\<lparr>ct_retry := map_erase page (ct_retry c1), ct_saved := ct_saved c1 @ [(aj_cacheKey active, page, boxes)]\<rparr>)))"

section \<open>Observation\<close>

definition observe :: "int \<Rightarrow> OcrConfig \<Rightarrow> (int \<times> nat) option \<Rightarrow> Controller \<Rightarrow> Controller" where
  "observe page config nativeText c = c\<lparr>ct_posted := ct_posted c @ [(page, config, nativeText, ct_generation c)]\<rparr>"

definition observeVisiblePages :: "(fp \<Rightarrow> fp \<Rightarrow> fp) \<Rightarrow> VisiblePage list \<Rightarrow> OcrConfig \<Rightarrow> (int \<times> nat) option \<Rightarrow> Controller \<Rightarrow> Controller" where
  "observeVisiblePages add visiblePages config nativeText c =
     (let focusPage = dominantPage add visiblePages (ct_lastFocusPage c) in
      if focusPage < 0 then c else observe focusPage config nativeText (c\<lparr>ct_lastFocusPage := focusPage\<rparr>))"

text \<open>Setting a new interval on a running timer restarts it, which the flag does not distinguish.\<close>

definition observed :: "Observation \<Rightarrow> Controller \<Rightarrow> Controller" where
  "observed obs c =
     (case obs of (page, config, nativeText, generation) \<Rightarrow>
        if generation \<noteq> ct_generation c then c
        else
          let configChanged = (\<not> config_eq (ct_config c) config);
              c1 = c\<lparr>ct_config := config\<rparr>;
              c2 = (if configChanged then invalidate c1 else c1);
              c3 = (case nativeText of
                      Some (p, n) \<Rightarrow> if p \<ge> 0 \<and> p < oc_pageCount config
                        then c2\<lparr>ct_nativeTextBoxCounts := map_emplace p n (map_erase p (ct_nativeTextBoxCounts c2))\<rparr> else c2
                    | None \<Rightarrow> c2)
          in case noteFocus page (oc_pageCount config) (ct_focus c3) of
               (f, changed) \<Rightarrow> c3\<lparr>ct_interval := oc_debounceMs config, ct_focus := f, ct_debounce := (changed \<or> configChanged \<or> ct_debounce c3)\<rparr>)"

section \<open>The event loop\<close>

datatype OcrEvent =
  Observe int OcrConfig "(int \<times> nat) option"
  | ObserveVisible "VisiblePage list" OcrConfig "(int \<times> nat) option"
  | RunPosted
  | DebounceTimeout
  | RetryTimeout
  | FutureDone
  | WatcherFinished
  | OcrDone u64 int
  | TakeReady int
  | Reset

fun ocr_step :: "(fp \<Rightarrow> fp \<Rightarrow> fp) \<Rightarrow> OcrBackend \<Rightarrow> OcrEvent \<Rightarrow> Controller \<Rightarrow> Controller" where
  "ocr_step add B (Observe page config nativeText) c = observe page config nativeText c"
| "ocr_step add B (ObserveVisible pages config nativeText) c = observeVisiblePages add pages config nativeText c"
| "ocr_step add B RunPosted c = (case ct_posted c of [] \<Rightarrow> c | obs # rest \<Rightarrow> observed obs (c\<lparr>ct_posted := rest\<rparr>))"
| "ocr_step add B DebounceTimeout c = (if ct_debounce c then settle B (c\<lparr>ct_debounce := False\<rparr>) else c)"
| "ocr_step add B RetryTimeout c = (if ct_retryTimer c then startNext B (c\<lparr>ct_retryTimer := False\<rparr>) else c)"
| "ocr_step add B FutureDone c = (case ct_future c of Running key page \<Rightarrow> c\<lparr>ct_future := Finished key page\<rparr> | _ \<Rightarrow> c)"
| "ocr_step add B WatcherFinished c =
     (case ct_future c of Finished key page \<Rightarrow> cacheLoadFinished B (ob_load B key page) (c\<lparr>ct_future := NoFuture\<rparr>) | _ \<Rightarrow> c)"
| "ocr_step add B (OcrDone jobId page) c = ct_finish B jobId page c"
| "ocr_step add B (TakeReady page) c = fst (takeReady page c)"
| "ocr_step add B Reset c = ct_reset c"

section \<open>The queue\<close>

lemma merge_pages_set: "set (merge_pages merged pages) = set merged \<union> set pages"
  by (induction merged pages rule: merge_pages.induct) auto

lemma merge_pages_distinct: "distinct merged \<Longrightarrow> distinct (merge_pages merged pages)"
  by (induction merged pages rule: merge_pages.induct) auto

lemma dropStale_set: "set (dropStale focus radius q) = {page \<in> set q. focus \<ge> 0 \<and> \<bar>page - focus\<bar> \<le> radius}"
  by (auto simp: dropStale_def)

lemma dropStale_distinct: "distinct q \<Longrightarrow> distinct (dropStale focus radius q)"
  by (simp add: dropStale_def)

lemma dropStale_length: "length (dropStale focus radius q) \<le> length q"
  by (simp add: dropStale_def)

lemma refresh_distinct: "distinct (refresh focus candidates radius n q)"
  by (simp add: refresh_def dropStale_distinct merge_pages_distinct)

lemma refresh_length: "length (refresh focus candidates radius n q) \<le> n"
  by (simp add: refresh_def)

lemma refresh_set: "page \<in> set (refresh focus candidates radius n q) \<Longrightarrow> (page \<in> set candidates \<or> page \<in> set q) \<and> \<bar>page - focus\<bar> \<le> radius"
  by (auto simp: refresh_def dropStale_set merge_pages_set split: if_splits dest!: in_set_takeD)

text \<open>
  The page the user looks at goes first: after the queue is rebuilt and then, possibly after further scrolling, asked for a
  page, the page taken lies within the staleness radius of the focus; when the focus has not moved no queued page is
  nearer to it, and every candidate that was left out is at least as far away as every page that was kept.
\<close>

lemma queue_nearest_first:
  assumes "takeNext focus' radius (refresh focus candidates radius n q) = (rest, Some page)"
  shows "\<bar>page - focus'\<bar> \<le> radius \<and> page \<notin> set rest \<and> (page \<in> set candidates \<or> page \<in> set q)
    \<and> (focus' = focus \<longrightarrow> (\<forall>other\<in>set rest. \<bar>page - focus\<bar> \<le> \<bar>other - focus\<bar>))
    \<and> (\<forall>kept\<in>set (refresh focus candidates radius n q). \<forall>other\<in>set candidates \<union> set q.
         other \<in> set (refresh focus candidates radius n q) \<or> \<bar>other - focus\<bar> > radius \<or> \<bar>kept - focus\<bar> \<le> \<bar>other - focus\<bar>)"
proof -
  let ?d = "\<lambda>page. \<bar>page - focus\<bar>" and ?r = "refresh focus candidates radius n q"
  define m where "m = sort_key ?d (dropStale focus radius (merge_pages (merge_pages [] candidates) q))"
  have t: "page # rest = dropStale focus' radius ?r" using assms by (auto simp: takeNext_def split: list.splits)
  then have s: "page \<in> set (dropStale focus' radius ?r)" by (metis list.set_intros(1))
  then have "focus \<ge> 0" by (auto simp: dropStale_set refresh_def split: if_splits)
  then have r: "?r = take n m" and ms: "set m = {page \<in> set candidates \<union> set q. ?d page \<le> radius}"
    by (auto simp: refresh_def m_def dropStale_set merge_pages_set)
  have sorted: "sorted (map ?d m)" unfolding m_def by (rule sorted_sort_key)
  have near: "?d page \<le> ?d other" if "focus' = focus" "other \<in> set rest" for other
  proof -
    from t that(1) have "page # rest = filter (\<lambda>page. \<not> ?d page > radius) (take n m)" using \<open>focus \<ge> 0\<close> r by (simp add: dropStale_def)
    moreover have "sorted (map ?d (filter (\<lambda>page. \<not> ?d page > radius) (take n m)))"
      using sorted by (simp add: sorted_filter take_map [symmetric] sorted_wrt_take sorted_filter)
    ultimately have "sorted (map ?d (page # rest))" by simp
    then show ?thesis using that(2) by auto
  qed
  have far: "other \<in> set ?r \<or> ?d other > radius \<or> ?d kept \<le> ?d other" if k: "kept \<in> set ?r" "other \<in> set candidates \<union> set q" for kept other
  proof (cases "?d other > radius \<or> other \<in> set ?r")
    case False
    with k(2) have "other \<in> set m" "other \<notin> set (take n m)" by (auto simp: ms r)
    then have "other \<in> set (drop n m)" by (metis Un_iff append_take_drop_id set_append)
    moreover have "sorted (map ?d (take n m) @ map ?d (drop n m))" using sorted by (metis append_take_drop_id map_append)
    ultimately show ?thesis using k(1) unfolding r sorted_append by auto
  qed auto
  have "distinct (page # rest)" unfolding t by (rule dropStale_distinct [OF refresh_distinct])
  moreover have "(page \<in> set candidates \<or> page \<in> set q) \<and> \<bar>page - focus'\<bar> \<le> radius"
    using s refresh_set [of page focus candidates radius n q] by (simp add: dropStale_set)
  ultimately show ?thesis using near far by auto
qed

section \<open>The page in focus\<close>

text \<open>The areas a page shows, added in order, and the order of two candidates: area first, then the earlier focus, then the page number.\<close>

fun add_areas :: "(fp \<Rightarrow> fp \<Rightarrow> fp) \<Rightarrow> fp list \<Rightarrow> fp option" where
  "add_areas add [] = None"
| "add_areas add (a # as) = Some (fold (\<lambda>x y. add y x) as a)"

definition total_area :: "(fp \<Rightarrow> fp \<Rightarrow> fp) \<Rightarrow> VisiblePage list \<Rightarrow> int \<Rightarrow> fp option" where
  "total_area add pages p = add_areas add (map vis_visibleArea (filter (\<lambda>page. vis_page page = p \<and> p \<ge> 0 \<and> \<not> fp_le (vis_visibleArea page) (Fin 0)) pages))"

lemma add_areas_snoc: "add_areas add (as @ [a]) = Some (case add_areas add as of None \<Rightarrow> a | Some b \<Rightarrow> add b a)"
  by (cases as) auto

lemma add_area_lookup:
  "map_of (map (\<lambda>v. (vis_page v, vis_visibleArea v)) (add_area add page ts)) p =
     (if p = vis_page page then Some (case map_of (map (\<lambda>v. (vis_page v, vis_visibleArea v)) ts) p of None \<Rightarrow> vis_visibleArea page | Some b \<Rightarrow> add b (vis_visibleArea page))
      else map_of (map (\<lambda>v. (vis_page v, vis_visibleArea v)) ts) p)"
  by (induction ts) auto

lemma add_area_pages: "vis_page ` set (add_area add page ts) = insert (vis_page page) (vis_page ` set ts)"
  by (induction ts) auto

lemma add_area_distinct: "distinct (map vis_page ts) \<Longrightarrow> distinct (map vis_page (add_area add page ts))"
proof (induction ts)
  case (Cons t ts)
  then show ?case using add_area_pages [of add page ts] by (auto simp: image_iff)
qed simp

lemma fold_areas:
  "distinct (map vis_page (fold (add_area add) pages []))
   \<and> map_of (map (\<lambda>v. (vis_page v, vis_visibleArea v)) (fold (add_area add) pages [])) p = add_areas add (map vis_visibleArea (filter (\<lambda>page. vis_page page = p) pages))"
proof (induction pages rule: rev_induct)
  case (snoc page pages)
  then show ?case by (auto simp: add_area_distinct add_area_lookup add_areas_snoc)
qed simp

lemma area_totals:
  "distinct (map vis_page (area_totals add pages))"
  "map_of (map (\<lambda>v. (vis_page v, vis_visibleArea v)) (area_totals add pages)) p = total_area add pages p"
proof -
  let ?keep = "filter (\<lambda>page. \<not> (vis_page page < 0 \<or> fp_le (vis_visibleArea page) (Fin 0))) pages"
  show "distinct (map vis_page (area_totals add pages))" unfolding area_totals_def using fold_areas by blast
  have "filter (\<lambda>page. vis_page page = p) ?keep = filter (\<lambda>page. vis_page page = p \<and> p \<ge> 0 \<and> \<not> fp_le (vis_visibleArea page) (Fin 0)) pages"
    by (auto intro: filter_cong)
  then show "map_of (map (\<lambda>v. (vis_page v, vis_visibleArea v)) (area_totals add pages)) p = total_area add pages p"
    unfolding area_totals_def total_area_def using fold_areas [of add ?keep p] by simp
qed

text \<open>\<open>beats\<close> is the order in which the loop prefers pages.\<close>

definition beats :: "int \<Rightarrow> int \<times> fp \<Rightarrow> int \<times> fp \<Rightarrow> bool" where
  "beats previousPage a b \<longleftrightarrow> fp_lt (snd b) (snd a) \<or> (snd a = snd b \<and> (fst a = previousPage \<or> (fst b \<noteq> previousPage \<and> fst a \<le> fst b)))"

lemma positive_area: "fp_lt (Fin 0) a \<longleftrightarrow> a = PosInf \<or> (\<exists>x > 0. a = Fin x)"
  by (cases a) auto

lemma beats_trans:
  assumes "fp_lt (Fin 0) (snd a)" "fp_lt (Fin 0) (snd b)" "fp_lt (Fin 0) (snd c)" "beats previousPage a b" "beats previousPage b c"
  shows "beats previousPage a c"
  using assms by (auto simp: beats_def positive_area)

lemma pick_page_best:
  assumes "\<forall>v\<in>set pages. fp_lt (Fin 0) (vis_visibleArea v) \<and> vis_page v \<ge> 0" "fp_lt (Fin 0) (snd best)" "fst best \<ge> 0"
    and "w = pick_page previousPage pages best"
  shows "(w = best \<or> w \<in> (\<lambda>v. (vis_page v, vis_visibleArea v)) ` set pages) \<and> beats previousPage w best \<and> fp_lt (Fin 0) (snd w)
    \<and> (\<forall>v\<in>set pages. beats previousPage w (vis_page v, vis_visibleArea v))"
  using assms
proof (induction previousPage pages best rule: pick_page.induct)
  case (1 previousPage best)
  then show ?case by (simp add: beats_def)
next
  case (2 previousPage page pages result largest)
  let ?tied = "fp_le (vis_visibleArea page) largest \<and> fp_le largest (vis_visibleArea page)" and ?new = "(vis_page page, vis_visibleArea page)"
  let ?take = "fp_lt largest (vis_visibleArea page) \<or> (?tied \<and> vis_page page = previousPage)
      \<or> (?tied \<and> result \<noteq> previousPage \<and> (result < 0 \<or> vis_page page < result))"
  define best' where "best' = (if ?take then ?new else (result, largest))"
  have pos: "fp_lt (Fin 0) largest" "fp_lt (Fin 0) (vis_visibleArea page)" "result \<ge> 0" "vis_page page \<ge> 0" using 2(2-4) by auto
  then have ok: "fp_lt (Fin 0) (snd best')" "fst best' \<ge> 0" by (auto simp: best'_def)
  have b: "beats previousPage best' ?new" "beats previousPage best' (result, largest)"
    using pos by (auto simp: best'_def beats_def positive_area)
  have "w = pick_page previousPage pages best'" using 2(5) unfolding pick_page.simps(2) Let_def best'_def .
  from 2(1) [OF refl refl _ ok [unfolded best'_def]] this [unfolded best'_def] 2(2)
  have w: "w = best' \<or> w \<in> (\<lambda>v. (vis_page v, vis_visibleArea v)) ` set pages" "beats previousPage w best'" "fp_lt (Fin 0) (snd w)"
    "\<forall>v\<in>set pages. beats previousPage w (vis_page v, vis_visibleArea v)"
    by (auto simp: best'_def)
  have "beats previousPage w ?new" "beats previousPage w (result, largest)"
    using beats_trans [OF w(3) ok(1) _ w(2)] b pos by auto
  then show ?case using w by (auto simp: best'_def split: if_splits)
qed

text \<open>
  The dominant page has the largest visible area: with regions of the same page added up, the page chosen shows at least as much
  as any other; among equals the previous focus wins, then the lowest page; and no page is chosen exactly when none
  is visible.
\<close>

lemma dominant_page:
  assumes "\<And>p a. total_area add pages p = Some a \<Longrightarrow> fp_lt (Fin 0) a" and "dominantPage add pages previousPage = w"
  shows "if \<forall>p. total_area add pages p = None then w = - 1
    else \<exists>a. total_area add pages w = Some a \<and> (\<forall>p b. total_area add pages p = Some b \<longrightarrow>
      fp_lt b a \<or> (b = a \<and> (w = previousPage \<or> (p \<noteq> previousPage \<and> w \<le> p))))"
proof -
  let ?ts = "area_totals add pages" and ?pair = "\<lambda>v. (vis_page v, vis_visibleArea v)"
  note lookup = area_totals(2) [of add pages]
  have entry: "v \<in> set ?ts \<Longrightarrow> total_area add pages (vis_page v) = Some (vis_visibleArea v)" for v
    using area_totals(1) [of add pages] unfolding lookup [symmetric] by (intro map_of_is_SomeI) (auto simp: comp_def)
  have visible: "total_area add pages p = Some b \<Longrightarrow> p \<ge> 0" for p b
    by (cases "p \<ge> 0") (auto simp: total_area_def)
  have ok: "\<forall>v\<in>set ?ts. fp_lt (Fin 0) (vis_visibleArea v) \<and> vis_page v \<ge> 0" using entry assms(1) visible by blast
  show ?thesis
  proof (cases ?ts)
    case Nil
    then have "\<forall>p. total_area add pages p = None" unfolding lookup [symmetric] by simp
    then show ?thesis using assms(2) Nil by (simp add: dominantPage_def)
  next
    case (Cons v vs)
    define best where "best = pick_page previousPage vs (?pair v)"
    have "pick_page previousPage ?ts (- 1, Fin 0) = best" using ok by (simp add: Cons best_def Let_def)
    then have w: "w = fst best" using assms(2) by (simp add: dominantPage_def)
    from pick_page_best [of vs "?pair v" best previousPage] ok best_def
    have b: "best \<in> ?pair ` set ?ts" "\<forall>u\<in>set ?ts. beats previousPage best (?pair u)" unfolding Cons by auto
    from b(1) entry w have t: "total_area add pages w = Some (snd best)" by auto
    have "beats previousPage best (p, c)" if "total_area add pages p = Some c" for p c
    proof -
      from that have "(p, c) \<in> set (map ?pair ?ts)" unfolding lookup [symmetric] by (rule map_of_SomeD)
      then show ?thesis using b(2) by auto
    qed
    then show ?thesis using t w unfolding beats_def by auto
  qed
qed

text \<open>Two regions of page 4 outweigh the larger single region of page 3.\<close>

definition add0 :: "fp \<Rightarrow> fp \<Rightarrow> fp" where
  "add0 a b = (case (a, b) of (Fin x, Fin y) \<Rightarrow> Fin (x + y) | _ \<Rightarrow> NaN)"

end
