(* ===== verification/Ocr_Controller_Laws.thy ===== *)
theory Ocr_Controller_Laws
  imports Ocr_Controller
begin

text \<open>
  The invariant of the recognition scheduler over all sequences of events, and what its signals mean.
\<close>

section \<open>The invariant\<close>

definition current_key :: "Unicode \<Rightarrow> Controller \<Rightarrow> CacheKey option" where
  "current_key U c = normalizeKey U (oc_documentHash (ct_config c)) (oc_language (ct_config c)) (oc_dpi (ct_config c))"

definition outstanding :: "Controller \<Rightarrow> (int \<times> CacheKey) list" where
  "outstanding c = (case ct_pendingCache c of None \<Rightarrow> [] | Some p \<Rightarrow> [(pc_page p, pc_key p)])
     @ (case ct_activeJob c of None \<Rightarrow> [] | Some a \<Rightarrow> [(aj_page a, aj_cacheKey a)])"

definition page_ok :: "Controller \<Rightarrow> int \<Rightarrow> bool" where
  "page_ok c = (\<lambda>page. 0 \<le> page \<and> page < fo_pageCount (ct_focus c))"

definition work_ok :: "Unicode \<Rightarrow> Controller \<Rightarrow> bool" where
  "work_ok U c \<longleftrightarrow> length (outstanding c) \<le> 1 \<and> list_all (\<lambda>(page, key). page_ok c page \<and> current_key U c = Some key) (outstanding c)
     \<and> (case ct_pendingCache c of None \<Rightarrow> True | Some p \<Rightarrow> ct_future c \<in> {Running (pc_key p) (pc_page p), Finished (pc_key p) (pc_page p)})"

definition queue_ok :: "Controller \<Rightarrow> bool" where
  "queue_ok c \<longleftrightarrow> distinct (ct_queue c) \<and> list_all (page_ok c) (ct_queue c) \<and> length (ct_queue c) + length (outstanding c) \<le> MAX_QUEUED_PAGES + 1"

definition retry_ok :: "RetryPolicy \<Rightarrow> bool" where
  "retry_ok r \<longleftrightarrow> (\<forall>page n. map_of r page = Some n \<longrightarrow> 1 \<le> n \<and> n < MAX_ATTEMPTS)"

definition focus_ok :: "Controller \<Rightarrow> bool" where
  "focus_ok c \<longleftrightarrow> fo_pageCount (ct_focus c) = oc_pageCount (ct_config c) \<or> (ct_focus c = FocusPolicy_default \<and> ct_queue c = [] \<and> outstanding c = [])"

definition controller_inv :: "Unicode \<Rightarrow> Controller \<Rightarrow> bool" where
  "controller_inv U c \<longleftrightarrow> work_ok U c \<and> queue_ok c \<and> retry_ok (ct_retry c) \<and> focus_ok c"

lemmas controller_inv_defs = controller_inv_def work_ok_def queue_ok_def focus_ok_def outstanding_def current_key_def page_ok_def

text \<open>The invariant does not depend on the signals, the results kept, the box counts, the timers, the saves or the posted observations.\<close>

lemma controller_inv_cong:
  assumes "ct_pendingCache c' = ct_pendingCache c" "ct_activeJob c' = ct_activeJob c" "ct_future c' = ct_future c" "ct_queue c' = ct_queue c"
    "ct_retry c' = ct_retry c" "ct_config c' = ct_config c" "ct_focus c' = ct_focus c"
  shows "controller_inv U c' = controller_inv U c"
  unfolding controller_inv_defs assms ..

lemma controller_inv_frame [simp]:
  "controller_inv U (c\<lparr>ct_signals := x1\<rparr>) = controller_inv U c"
  "controller_inv U (c\<lparr>ct_readyResults := x2\<rparr>) = controller_inv U c"
  "controller_inv U (c\<lparr>ct_saved := x4\<rparr>) = controller_inv U c"
  "controller_inv U (c\<lparr>ct_retryTimer := x5\<rparr>) = controller_inv U c"
  "controller_inv U (c\<lparr>ct_debounce := x6\<rparr>) = controller_inv U c"
  "controller_inv U (c\<lparr>ct_posted := x7\<rparr>) = controller_inv U c"
  "controller_inv U (c\<lparr>ct_lastFocusPage := x8\<rparr>) = controller_inv U c"
  by (rule controller_inv_cong; simp)+

section \<open>Steps\<close>

lemma retry_ok_erase [simp]: "retry_ok r \<Longrightarrow> retry_ok (map_erase page r)"
  by (simp add: retry_ok_def std_map)

lemma onFailure_ok:
  assumes "retry_ok r" "onFailure page r = (r', ok)"
  shows "(ok \<longrightarrow> retry_ok r') \<and> retry_ok (map_erase page r') \<and> (\<not> ok \<longrightarrow> map_of r page = Some (MAX_ATTEMPTS - 1))"
proof -
  have "map_of r page = Some n \<Longrightarrow> 1 \<le> n \<and> n < 3" for n using assms(1) by (simp add: retry_ok_def limits)
  then show ?thesis using assms by (fastforce simp: onFailure_def retry_ok_def Let_def std_map limits split: option.splits if_splits)
qed

lemma takeNext_ok:
  assumes "takeNext focus radius q = (q', next)" "distinct q"
  shows "distinct q' \<and> set q' \<subseteq> set q \<and> length q' + (if next = None then 0 else 1) \<le> length q \<and> (\<forall>page. next = Some page \<longrightarrow> page \<in> set q \<and> page \<notin> set q')"
proof -
  have "distinct (dropStale focus radius q)" "set (dropStale focus radius q) \<subseteq> set q" "length (dropStale focus radius q) \<le> length q"
    using assms(2) dropStale_set by (auto simp: dropStale_distinct dropStale_length)
  then show ?thesis using assms(1) by (auto simp: takeNext_def split: list.splits)
qed

lemma pushFront_ok:
  "distinct q \<Longrightarrow> distinct (pushFront page focus radius q) \<and> set (pushFront page focus radius q) \<subseteq> insert page (set q)
     \<and> length (pushFront page focus radius q) \<le> Suc (length q)"
  using le_trans [OF dropStale_length [of focus radius "page # removeAll page q"], of "Suc (length q)"] length_removeAll_less_eq [of page q]
  by (auto simp: pushFront_def dropStale_set dropStale_distinct distinct_removeAll)

lemma startNext_outcomes:
  obtains (same) "startNext B c = c"
  | (empty) q where "outstanding c = []" "takeNext (fo_focus (ct_focus c)) STALE_RADIUS (ct_queue c) = (q, None)" "startNext B c = c\<lparr>ct_queue := q\<rparr>"
  | (keyless) q page where "outstanding c = []" "takeNext (fo_focus (ct_focus c)) STALE_RADIUS (ct_queue c) = (q, Some page)"
      "startNext B c = c\<lparr>ct_queue := pushFront page (fo_focus (ct_focus c)) STALE_RADIUS q\<rparr>"
  | (probe) q page key where "outstanding c = []" "takeNext (fo_focus (ct_focus c)) STALE_RADIUS (ct_queue c) = (q, Some page)"
      "current_key (ob_unicode B) c = Some key"
      "startNext B c = c\<lparr>ct_queue := q, ct_pendingCache := Some \<lparr>pc_page = page, pc_key = key\<rparr>, ct_future := Running key page\<rparr>"
proof (cases "ct_activeJob c \<noteq> None \<or> ct_pendingCache c \<noteq> None \<or> (case ct_future c of Running _ _ \<Rightarrow> True | _ \<Rightarrow> False)")
  case True
  then show ?thesis using same by (simp add: startNext_def)
next
  case False
  then have o: "outstanding c = []" by (simp add: outstanding_def)
  obtain q next' where t: "takeNext (fo_focus (ct_focus c)) STALE_RADIUS (ct_queue c) = (q, next')" by fastforce
  show ?thesis
  proof (cases next')
    case None
    then show ?thesis using empty [OF o] t False by (simp add: startNext_def)
  next
    case (Some page)
    show ?thesis
    proof (cases "current_key (ob_unicode B) c")
      case None
      then show ?thesis using keyless [OF o] t Some False by (simp add: startNext_def current_key_def)
    next
      case (Some key)
      then show ?thesis using probe [OF o, of q page key] t \<open>next' = Some page\<close> False by (simp add: startNext_def current_key_def)
    qed
  qed
qed

lemma startNext_inv:
  assumes "controller_inv (ob_unicode B) c"
  shows "controller_inv (ob_unicode B) (startNext B c)"
proof -
  have q: "distinct (ct_queue c)" using assms by (simp add: controller_inv_def queue_ok_def)
  show ?thesis
  proof (cases rule: startNext_outcomes [of B c])
    case same
    then show ?thesis using assms by simp
  next
    case (empty q')
    then show ?thesis using assms takeNext_ok [OF empty(2) q] by (auto simp: controller_inv_defs list_all_iff split: option.splits)
  next
    case (keyless q' page)
    note t = takeNext_ok [OF keyless(2) q]
    then have "distinct q'" by simp
    from pushFront_ok [OF this, of page "fo_focus (ct_focus c)" STALE_RADIUS] t keyless assms show ?thesis
      by (fastforce simp: controller_inv_defs list_all_iff split: option.splits)
  next
    case (probe q' page key)
    then show ?thesis using assms takeNext_ok [OF probe(2) q] by (auto simp: controller_inv_defs list_all_iff split: option.splits)
  qed
qed

lemma deliver_inv [simp]: "controller_inv U (deliver page boxes source c) = controller_inv U c"
  by (simp add: deliver_def ct_emit_def)

lemma retry_inv: "controller_inv U c \<Longrightarrow> retry_ok r \<Longrightarrow> controller_inv U (c\<lparr>ct_retry := r\<rparr>)"
  unfolding controller_inv_defs by (simp cong: option.case_cong)

text \<open>Ending the outstanding work leaves room in the queue.\<close>

lemma release_inv:
  assumes "controller_inv U c" "outstanding c = [(page, key)]" "c' = c\<lparr>ct_pendingCache := None\<rparr> \<and> ct_activeJob c = None \<or> c' = c\<lparr>ct_activeJob := None\<rparr> \<and> ct_pendingCache c = None"
  shows "controller_inv U c' \<and> outstanding c' = [] \<and> page_ok c' page \<and> length (ct_queue c') \<le> MAX_QUEUED_PAGES \<and> current_key U c' = Some key
    \<and> fo_pageCount (ct_focus c') = oc_pageCount (ct_config c')"
  using assms by (auto simp: controller_inv_defs split: option.splits)

lemma pushFront_inv:
  assumes "controller_inv U c" "outstanding c = []" "page_ok c page" "length (ct_queue c) \<le> MAX_QUEUED_PAGES"
    and "fo_pageCount (ct_focus c) = oc_pageCount (ct_config c)"
  shows "controller_inv U (c\<lparr>ct_queue := pushFront page (fo_focus (ct_focus c)) STALE_RADIUS (ct_queue c)\<rparr>)"
proof -
  let ?q = "pushFront page (fo_focus (ct_focus c)) STALE_RADIUS (ct_queue c)"
  have q: "distinct (ct_queue c)" "list_all (page_ok c) (ct_queue c)" using assms(1) by (simp_all add: controller_inv_def queue_ok_def)
  have "distinct ?q" "list_all (page_ok c) ?q" "length ?q \<le> MAX_QUEUED_PAGES + 1"
    using pushFront_ok [OF q(1), of page "fo_focus (ct_focus c)" STALE_RADIUS] q(2) assms(3,4) by (auto simp: list_all_iff)
  then show ?thesis using assms(1,2,5) unfolding controller_inv_defs by (simp cong: option.case_cong)
qed

lemma handleFailure_inv:
  assumes "controller_inv U c" "outstanding c = []" "page_ok c page" "length (ct_queue c) \<le> MAX_QUEUED_PAGES"
    and "fo_pageCount (ct_focus c) = oc_pageCount (ct_config c)"
  shows "controller_inv U (handleFailure page c)"
proof -
  obtain r ok where f: "onFailure page (ct_retry c) = (r, ok)" by fastforce
  have "retry_ok (ct_retry c)" using assms(1) by (simp add: controller_inv_def)
  note facts = onFailure_ok [OF this f]
  show ?thesis
  proof (cases ok)
    case True
    then have "controller_inv U (c\<lparr>ct_retry := r\<rparr>)" using retry_inv [OF assms(1)] facts by blast
    from pushFront_inv [OF this, of page] assms(2-5) True f show ?thesis by (simp add: handleFailure_def outstanding_def page_ok_def)
  next
    case False
    then show ?thesis using retry_inv [OF assms(1)] f facts by (simp add: handleFailure_def ct_emit_def)
  qed
qed

lemma cacheLoadFinished_inv:
  assumes "controller_inv (ob_unicode B) c" "c1 = c\<lparr>ct_future := NoFuture\<rparr>" "\<And>p. ct_pendingCache c = Some p \<Longrightarrow> ct_future c = Finished (pc_key p) (pc_page p)"
  shows "controller_inv (ob_unicode B) (cacheLoadFinished B cached c1)"
proof (cases "ct_pendingCache c")
  case None
  with assms(1,2) have "controller_inv (ob_unicode B) c1" unfolding controller_inv_defs by (simp cong: option.case_cong)
  then show ?thesis using None assms(2) by (simp add: cacheLoadFinished_def startNext_inv)
next
  case (Some p)
  let ?c = "c1\<lparr>ct_pendingCache := None\<rparr>"
  have o: "outstanding c = [(pc_page p, pc_key p)]" "ct_activeJob c = None"
    using assms(1) Some by (auto simp: controller_inv_defs split: option.splits)
  have f: "controller_inv (ob_unicode B) ?c = controller_inv (ob_unicode B) (c\<lparr>ct_pendingCache := None\<rparr>)" unfolding assms(2) controller_inv_defs by simp
  from release_inv [OF assms(1) o(1) disjI1 [OF conjI [OF refl o(2)]]]
  have c: "controller_inv (ob_unicode B) ?c" "outstanding ?c = []" "page_ok ?c (pc_page p)" "length (ct_queue ?c) \<le> MAX_QUEUED_PAGES"
    "fo_pageCount (ct_focus ?c) = oc_pageCount (ct_config ?c)" "current_key (ob_unicode B) ?c = Some (pc_key p)"
    unfolding f by (simp_all add: assms(2) outstanding_def page_ok_def current_key_def)
  have retry: "retry_ok (ct_retry ?c)" using c(1) by (simp add: controller_inv_def)
  consider "cl_present cached" | "\<not> cl_present cached" "pc_page p = fo_focus (ct_focus ?c)" | "\<not> cl_present cached" "pc_page p \<noteq> fo_focus (ct_focus ?c)" by blast
  then show ?thesis
  proof cases
    case 1
    then show ?thesis using Some assms(2) retry_inv [OF c(1) retry_ok_erase [OF retry]]
      by (simp add: cacheLoadFinished_def Let_def startNext_inv)
  next
    case 2
    show ?thesis
    proof (cases "ob_startOcrPage B (pc_page p) (ck_language (pc_key p)) (ck_dpi (pc_key p))")
      case None
      then show ?thesis using Some assms(2) 2 handleFailure_inv [OF c(1-5)] by (simp add: cacheLoadFinished_def Let_def)
    next
      case (Some job)
      let ?a = "?c\<lparr>ct_activeJob := Some \<lparr>aj_jobId = job, aj_page = pc_page p, aj_cacheKey = pc_key p\<rparr>\<rparr>"
      have "controller_inv (ob_unicode B) ?a" using c unfolding controller_inv_defs by (auto split: option.splits)
      then show ?thesis using Some \<open>ct_pendingCache c = Some p\<close> assms(2) 2 by (simp add: cacheLoadFinished_def Let_def ct_emit_def)
    qed
  next
    case 3
    then show ?thesis using Some assms(2) startNext_inv [OF c(1)] by (simp add: cacheLoadFinished_def Let_def)
  qed
qed

lemma finish_inv:
  assumes "controller_inv (ob_unicode B) c"
  shows "controller_inv (ob_unicode B) (ct_finish B jobId page c)"
proof (cases "ct_activeJob c")
  case None
  then show ?thesis using assms by (simp add: ct_finish_def)
next
  case (Some a)
  show ?thesis
  proof (cases "jobId \<noteq> aj_jobId a \<or> page \<noteq> aj_page a")
    case True
    then show ?thesis using assms Some by (simp add: ct_finish_def)
  next
    case False
    let ?c = "c\<lparr>ct_activeJob := None\<rparr>"
    have o: "outstanding c = [(aj_page a, aj_cacheKey a)]" "ct_pendingCache c = None"
      using assms Some by (auto simp: controller_inv_defs split: option.splits)
    note c = release_inv [OF assms o(1) disjI2 [OF conjI [OF refl o(2)]]]
    then have retry: "retry_ok (ct_retry ?c)" by (simp add: controller_inv_def)
    show ?thesis
    proof (cases "or_status (ob_ocrResult B jobId) = Ocr_Success")
      case True
      then show ?thesis using False Some retry_inv [OF _ retry_ok_erase [OF retry]] c
        by (simp add: ct_finish_def Let_def startNext_inv)
    next
      case f: False
      then show ?thesis using False Some handleFailure_inv [of "ob_unicode B" ?c "aj_page a"] c by (simp add: ct_finish_def Let_def)
    qed
  qed
qed

lemma invalidate_work: "outstanding (invalidate c) = [] \<and> ct_queue (invalidate c) = [] \<and> ct_retry (invalidate c) = []
    \<and> ct_config (invalidate c) = ct_config c \<and> ct_focus (invalidate c) = ct_focus c \<and> ct_pendingCache (invalidate c) = None \<and> ct_activeJob (invalidate c) = None"
  by (simp add: invalidate_def outstanding_def)

lemma idle_inv:
  "outstanding c = [] \<Longrightarrow> ct_pendingCache c = None \<Longrightarrow> ct_queue c = [] \<Longrightarrow> ct_retry c = [] \<Longrightarrow>
     ct_focus c = FocusPolicy_default \<or> fo_pageCount (ct_focus c) = oc_pageCount (ct_config c) \<Longrightarrow> controller_inv U c"
  unfolding controller_inv_def work_ok_def queue_ok_def focus_ok_def retry_ok_def by auto

lemma reset_inv: "controller_inv U (ct_reset c)"
  unfolding ct_reset_def by (rule idle_inv) (simp_all add: invalidate_work)

lemma config_eq_key: "config_eq a b \<Longrightarrow> oc_documentHash a = oc_documentHash b \<and> oc_language a = oc_language b \<and> oc_dpi a = oc_dpi b \<and> oc_pageCount a = oc_pageCount b"
  by (simp add: config_eq_def)

lemma observed_inv:
  assumes "controller_inv U c"
  shows "controller_inv U (observed obs c)"
proof -
  obtain page config nativeText generation where o: "obs = (page, config, nativeText, generation)" by (cases obs) auto
  show ?thesis
  proof (cases "generation = ct_generation c")
    case False
    then show ?thesis using assms by (simp add: observed_def o)
  next
    case gen: True
    define c2 where "c2 = (if \<not> config_eq (ct_config c) config then invalidate (c\<lparr>ct_config := config\<rparr>) else c\<lparr>ct_config := config\<rparr>)"
    define f where "f = fst (noteFocus page (oc_pageCount config) (ct_focus c2))"
    have n: "fo_pageCount f = oc_pageCount config" by (simp add: f_def noteFocus_def)
    have "controller_inv U (c2\<lparr>ct_focus := f\<rparr>)"
    proof (cases "config_eq (ct_config c) config")
      case False
      then show ?thesis using invalidate_work [of "c\<lparr>ct_config := config\<rparr>"] n
        by (intro idle_inv) (auto simp: c2_def outstanding_def)
    next
      case True
      from config_eq_key [OF True] assms n show ?thesis
        unfolding c2_def controller_inv_defs using True by (auto simp: list_all_iff split: option.splits)
    qed
    moreover have "\<exists>n i d. observed obs c = c2\<lparr>ct_nativeTextBoxCounts := n, ct_interval := i, ct_focus := f, ct_debounce := d\<rparr>"
    proof -
      define n where "n = (case nativeText of Some (p, n) \<Rightarrow> if p \<ge> 0 \<and> p < oc_pageCount config
        then map_emplace p n (map_erase p (ct_nativeTextBoxCounts c2)) else ct_nativeTextBoxCounts c2 | None \<Rightarrow> ct_nativeTextBoxCounts c2)"
      let ?c3 = "case nativeText of Some (p, n) \<Rightarrow> if p \<ge> 0 \<and> p < oc_pageCount config
        then c2\<lparr>ct_nativeTextBoxCounts := map_emplace p n (map_erase p (ct_nativeTextBoxCounts c2))\<rparr> else c2 | None \<Rightarrow> c2"
      have c3: "?c3 = c2\<lparr>ct_nativeTextBoxCounts := n\<rparr>" by (simp add: n_def split: option.split)
      show ?thesis using gen unfolding observed_def o prod.case Let_def c2_def [symmetric] c3 f_def
        by (simp split: prod.split) blast
    qed
    ultimately show ?thesis by (auto intro: controller_inv_cong [THEN iffD1, rotated -1])
  qed
qed

lemma wanted_pages_frame:
  assumes "wanted_pages B pages c = (c', wanted)"
  shows "set wanted \<subseteq> set pages \<and> (\<exists>n. c' = c\<lparr>ct_nativeTextBoxCounts := n\<rparr>)"
  using assms
proof (induction pages arbitrary: c c' wanted)
  case Nil
  then show ?case by (auto intro: exI [of _ "ct_nativeTextBoxCounts c"])
next
  case (Cons page pages)
  obtain c1 ok where s: "shouldSchedulePage B page c = (c1, ok)" by fastforce
  obtain c2 rest where w: "wanted_pages B pages c1 = (c2, rest)" by fastforce
  have "\<exists>n. c1 = c\<lparr>ct_nativeTextBoxCounts := n\<rparr>"
    using s by (auto simp: shouldSchedulePage_def split: if_splits option.splits intro: exI [of _ "ct_nativeTextBoxCounts c"])
  with Cons.IH [OF w] Cons.prems s w show ?case by (auto split: if_splits)
qed

lemma prefetchWindow_ok: "page \<in> set (prefetchWindow f) \<Longrightarrow> 0 \<le> page \<and> page < fo_pageCount f"
  by (auto simp: prefetchWindow_def Let_def split: if_splits)

lemma settle_inv:
  assumes "controller_inv (ob_unicode B) c"
  shows "controller_inv (ob_unicode B) (settle B c)"
proof (cases "prefetchWindow (ct_focus c) = []")
  case True
  then show ?thesis using assms by (simp add: settle_def)
next
  case False
  obtain c1 wanted where w: "wanted_pages B (prefetchWindow (ct_focus c)) c = (c1, wanted)" by fastforce
  from wanted_pages_frame [OF w] obtain n where n: "c1 = c\<lparr>ct_nativeTextBoxCounts := n\<rparr>" "set wanted \<subseteq> set (prefetchWindow (ct_focus c))" by blast
  let ?q = "refresh (fo_focus (ct_focus c1)) wanted STALE_RADIUS MAX_QUEUED_PAGES (ct_queue c1)"
  have q: "distinct ?q" "length ?q \<le> MAX_QUEUED_PAGES" by (rule refresh_distinct, rule refresh_length)
  have "list_all (page_ok c) (ct_queue c)" using assms by (simp add: controller_inv_def queue_ok_def)
  then have "list_all (page_ok c) ?q"
    using refresh_set n prefetchWindow_ok unfolding list_all_iff page_ok_def by (fastforce dest: subsetD)
  moreover have "length (outstanding c) \<le> 1" using assms by (simp add: controller_inv_def work_ok_def)
  moreover have "fo_pageCount (ct_focus c) = oc_pageCount (ct_config c)"
    using assms False by (auto simp: controller_inv_def focus_ok_def prefetchWindow_def FocusPolicy_default_def)
  ultimately have "controller_inv (ob_unicode B) (c1\<lparr>ct_queue := ?q\<rparr>)" using assms q unfolding n(1) controller_inv_defs by (auto split: option.splits)
  then show ?thesis using False w startNext_inv by (auto simp: settle_def split: list.splits)
qed

section \<open>Runs\<close>

lemma ocr_step_inv:
  assumes "controller_inv (ob_unicode B) c"
  shows "controller_inv (ob_unicode B) (ocr_step add B e c)"
proof (cases e)
  case RunPosted
  then show ?thesis using assms observed_inv [of "ob_unicode B" "c\<lparr>ct_posted := rest\<rparr>" for rest] by (auto split: list.split)
next
  case FutureDone
  have "controller_inv (ob_unicode B) (c\<lparr>ct_future := Finished key page\<rparr>)" if "ct_future c = Running key page" for key page
    using assms that unfolding controller_inv_defs by (auto split: option.splits)
  then show ?thesis using FutureDone assms by (auto split: CacheFuture.split)
next
  case WatcherFinished
  have "controller_inv (ob_unicode B) (cacheLoadFinished B cached (c\<lparr>ct_future := NoFuture\<rparr>))" if "ct_future c = Finished key page" for key page cached
    using assms that by (intro cacheLoadFinished_inv [OF assms refl]) (auto simp: controller_inv_def work_ok_def)
  then show ?thesis using WatcherFinished assms by (auto split: CacheFuture.split)
next
  case (TakeReady page)
  then show ?thesis using assms by (auto simp: takeReady_def split: option.split)
qed (use assms in \<open>simp_all add: observe_def observeVisiblePages_def Let_def settle_inv startNext_inv finish_inv reset_inv\<close>)

inductive controller_run :: "Unicode \<Rightarrow> (fp \<Rightarrow> fp \<Rightarrow> fp) \<Rightarrow> Controller \<Rightarrow> bool" for U add where
  ocr_start: "controller_run U add Controller_init"
| ocr_event: "controller_run U add c \<Longrightarrow> ob_unicode B = U \<Longrightarrow> controller_run U add (ocr_step add B e c)"

lemma controller_run_inv: "controller_run U add c \<Longrightarrow> controller_inv U c"
proof (induction rule: controller_run.induct)
  case ocr_start
  show ?case by (rule idle_inv) (simp_all add: Controller_init_def outstanding_def)
next
  case (ocr_event c B e)
  then show ?case using ocr_step_inv by blast
qed

text \<open>
  C17. The recognition scheduler does one thing at a time and only for the present document: whatever the order of observations,
  timer and watcher events, worker notifications and resets, at most one of a cache probe and a recognition job is outstanding,
  it concerns a page of the document and carries the key of the present configuration, a probe's result can only be
  the one its own future loads, the queue holds each page at most once and at most four pages of the document,
  and no page has as many recorded failures as are allowed.
\<close>

theorem ocr_controller_invariant:
  assumes "controller_run U add c"
  shows "(ct_activeJob c = None \<or> ct_pendingCache c = None)
    \<and> (\<forall>p. ct_pendingCache c = Some p \<longrightarrow> current_key U c = Some (pc_key p) \<and> 0 \<le> pc_page p \<and> pc_page p < oc_pageCount (ct_config c)
         \<and> ct_future c \<in> {Running (pc_key p) (pc_page p), Finished (pc_key p) (pc_page p)})
    \<and> (\<forall>a. ct_activeJob c = Some a \<longrightarrow> current_key U c = Some (aj_cacheKey a) \<and> 0 \<le> aj_page a \<and> aj_page a < oc_pageCount (ct_config c))
    \<and> distinct (ct_queue c) \<and> length (ct_queue c) \<le> 4 \<and> (\<forall>page\<in>set (ct_queue c). 0 \<le> page \<and> page < oc_pageCount (ct_config c))
    \<and> (\<forall>page n. map_of (ct_retry c) page = Some n \<longrightarrow> 1 \<le> n \<and> n < MAX_ATTEMPTS)"
  using controller_run_inv [OF assms] unfolding controller_inv_defs retry_ok_def list_all_iff by (auto simp: limits split: option.splits)

section \<open>What the signals mean\<close>

fun signal_ok :: "OcrBackend \<Rightarrow> Controller \<Rightarrow> OcrSignal \<Rightarrow> bool" where
  "signal_ok B c (OcrStarted page) \<longleftrightarrow> page = fo_focus (ct_focus c)
     \<and> (\<exists>key job. current_key (ob_unicode B) c = Some key \<and> \<not> cl_present (ob_load B key page) \<and> ob_startOcrPage B page (ck_language key) (ck_dpi key) = Some job)"
| "signal_ok B c (OcrPageCompleted page boxes CacheLoaded) \<longleftrightarrow>
     (\<exists>key. current_key (ob_unicode B) c = Some key \<and> ob_load B key page = \<lparr>cl_present = True, cl_items = boxes\<rparr>)"
| "signal_ok B c (OcrPageCompleted page boxes OcrCompleted) \<longleftrightarrow>
     (\<exists>a. ct_activeJob c = Some a \<and> aj_page a = page \<and> current_key (ob_unicode B) c = Some (aj_cacheKey a)
        \<and> or_status (ob_ocrResult B (aj_jobId a)) = Ocr_Success \<and> boxes = convertToCacheItems (or_boxes (ob_ocrResult B (aj_jobId a))))"
| "signal_ok B c (OcrPageFailed page) \<longleftrightarrow> map_of (ct_retry c) page = Some (MAX_ATTEMPTS - 1)"

definition emits :: "OcrBackend \<Rightarrow> Controller \<Rightarrow> Controller \<Rightarrow> bool" where
  "emits B c c' \<longleftrightarrow> (\<exists>new. ct_signals c' = ct_signals c @ new \<and> length new \<le> 1 \<and> list_all (signal_ok B c) new)"

lemma emits_none: "ct_signals c' = ct_signals c \<Longrightarrow> emits B c c'"
  by (simp add: emits_def)

lemma emits_one: "ct_signals c' = ct_signals c @ [s] \<Longrightarrow> signal_ok B c s \<Longrightarrow> emits B c c'"
  by (simp add: emits_def)

lemma startNext_signals [simp]: "ct_signals (startNext B c) = ct_signals c"
  by (cases rule: startNext_outcomes [of B c]) simp_all

lemma settle_signals [simp]: "ct_signals (settle B c) = ct_signals c"
proof -
  obtain c1 wanted where w: "wanted_pages B (prefetchWindow (ct_focus c)) c = (c1, wanted)" by fastforce
  with wanted_pages_frame [OF w] show ?thesis by (auto simp: settle_def split: list.split)
qed

lemma observed_signals [simp]: "ct_signals (observed obs c) = ct_signals c"
  by (auto simp: observed_def Let_def invalidate_def split: prod.split option.split)

lemma handleFailure_emits:
  assumes "retry_ok (ct_retry c1)" "ct_retry c1 = ct_retry c" "ct_signals c1 = ct_signals c"
  shows "emits B c (handleFailure page c1)"
proof -
  obtain r ok where f: "onFailure page (ct_retry c1) = (r, ok)" by fastforce
  note facts = onFailure_ok [OF assms(1) f]
  show ?thesis
  proof (cases ok)
    case True
    then show ?thesis using f assms(3) by (intro emits_none) (simp add: handleFailure_def)
  next
    case False
    then show ?thesis using f facts assms(2,3) by (intro emits_one [of _ _ "OcrPageFailed page"]) (simp_all add: handleFailure_def ct_emit_def)
  qed
qed

lemma watcher_emits:
  assumes "controller_inv (ob_unicode B) c" "ct_future c = Finished key page"
  shows "emits B c (cacheLoadFinished B (ob_load B key page) (c\<lparr>ct_future := NoFuture\<rparr>))"
proof (cases "ct_pendingCache c")
  case None
  then show ?thesis by (intro emits_none) (simp add: cacheLoadFinished_def)
next
  case (Some p)
  with assms have p: "pc_key p = key" "pc_page p = page" "current_key (ob_unicode B) c = Some key" "retry_ok (ct_retry c)"
    by (auto simp: controller_inv_def work_ok_def outstanding_def)
  show ?thesis
  proof (cases "cl_present (ob_load B key page)")
    case True
    then have "signal_ok B c (OcrPageCompleted page (cl_items (ob_load B key page)) CacheLoaded)" using p(3) by simp
    then show ?thesis using True Some p(1,2)
      by (intro emits_one [of _ _ "OcrPageCompleted page (cl_items (ob_load B key page)) CacheLoaded"]) (simp_all add: cacheLoadFinished_def Let_def deliver_def ct_emit_def)
  next
    case miss: False
    show ?thesis
    proof (cases "page = fo_focus (ct_focus c)")
      case False
      then show ?thesis using miss Some p(1,2) by (intro emits_none) (simp add: cacheLoadFinished_def Let_def)
    next
      case focus: True
      show ?thesis
      proof (cases "ob_startOcrPage B page (ck_language key) (ck_dpi key)")
        case None
        have "cacheLoadFinished B (ob_load B key page) (c\<lparr>ct_future := NoFuture\<rparr>) = handleFailure page (c\<lparr>ct_future := NoFuture, ct_pendingCache := None\<rparr>)"
          using None miss focus Some p(1,2) by (simp add: cacheLoadFinished_def Let_def)
        then show ?thesis using handleFailure_emits p(4) by simp
      next
        case (Some job)
        then show ?thesis using miss focus \<open>ct_pendingCache c = Some p\<close> p
          by (intro emits_one [of _ _ "OcrStarted page"]) (simp_all add: cacheLoadFinished_def Let_def ct_emit_def)
      qed
    qed
  qed
qed

lemma finish_emits:
  assumes "controller_inv (ob_unicode B) c"
  shows "emits B c (ct_finish B jobId page c)"
proof (cases "\<exists>a. ct_activeJob c = Some a \<and> aj_jobId a = jobId \<and> aj_page a = page")
  case False
  then show ?thesis by (intro emits_none) (auto simp: ct_finish_def split: option.split)
next
  case True
  then obtain a where a: "ct_activeJob c = Some a" "aj_jobId a = jobId" "aj_page a = page" by blast
  with assms have k: "current_key (ob_unicode B) c = Some (aj_cacheKey a)" "retry_ok (ct_retry c)"
    by (auto simp: controller_inv_def work_ok_def outstanding_def)
  show ?thesis
  proof (cases "or_status (ob_ocrResult B jobId) = Ocr_Success")
    case True
    then show ?thesis using a k
      by (intro emits_one [of _ _ "OcrPageCompleted page (convertToCacheItems (or_boxes (ob_ocrResult B jobId))) OcrCompleted"])
        (simp_all add: ct_finish_def Let_def deliver_def ct_emit_def)
  next
    case False
    then show ?thesis using a k handleFailure_emits [of "c\<lparr>ct_activeJob := None\<rparr>" c] by (simp add: ct_finish_def Let_def)
  qed
qed

text \<open>
  C18. Recognised text belongs to the document on screen: each event sends at most one signal; recognition starts only for the
  page in focus, under the present configuration and after a cache miss; a completed page carries what the cache holds for the present
  document, language and resolution, or the successful result of the job that is active for that page; and a
  page is reported as failed only at its last allowed attempt.
\<close>

theorem ocr_results_current:
  assumes "controller_run (ob_unicode B) add c"
  shows "\<exists>new. ct_signals (ocr_step add B e c) = ct_signals c @ new \<and> length new \<le> 1 \<and> list_all (signal_ok B c) new"
  unfolding emits_def [symmetric]
proof (cases e)
  case RunPosted
  then show "emits B c (ocr_step add B e c)" by (intro emits_none) (auto split: list.split)
next
  case FutureDone
  then show "emits B c (ocr_step add B e c)" by (intro emits_none) (auto split: CacheFuture.split)
next
  case WatcherFinished
  then show "emits B c (ocr_step add B e c)" using watcher_emits [OF controller_run_inv [OF assms]] by (auto simp: emits_none split: CacheFuture.split)
next
  case (OcrDone jobId page)
  then show "emits B c (ocr_step add B e c)" using finish_emits [OF controller_run_inv [OF assms]] by simp
qed (auto intro!: emits_none simp: observe_def observeVisiblePages_def Let_def takeReady_def ct_reset_def invalidate_def split: option.split)

text \<open>A session: page 4 is observed, settles, is not in the cache, is recognised and completes.\<close>

definition config0 :: OcrConfig where
  "config0 = OcrConfig_default\<lparr>oc_documentHash := ''ab'', oc_language := ''eng'', oc_pageCount := 10\<rparr>"

definition backend0 :: OcrBackend where
  "backend0 = \<lparr>ob_operational = True, ob_textBoxes = (\<lambda>_. 0), ob_startOcrPage = (\<lambda>_ _ _. Some 7),
     ob_ocrResult = (\<lambda>_. \<lparr>or_status = Ocr_Success, or_boxes = []\<rparr>), ob_unicode = ascii0, ob_load = (\<lambda>_ _. cache_miss)\<rparr>"

definition session0 :: Controller where
  "session0 = fold (ocr_step add0 backend0) [Observe 4 config0 None, RunPosted, DebounceTimeout, FutureDone, WatcherFinished] Controller_init"

lemma run_fold: "controller_run U add c \<Longrightarrow> ob_unicode B = U \<Longrightarrow> controller_run U add (fold (ocr_step add B) es c)"
  by (induction es arbitrary: c) (auto intro: ocr_event)

lemma session0_run: "controller_run ascii0 add0 session0"
  unfolding session0_def by (rule run_fold [OF ocr_start]) (simp add: backend0_def)

lemma session0_state: "ct_signals session0 = [OcrStarted 4] \<and> ct_activeJob session0 = Some \<lparr>aj_jobId = 7, aj_page = 4, aj_cacheKey = key0\<rparr> \<and> ct_queue session0 = []"
  by code_simp

theorem ocr_controller_invariant_witness:
  "ct_activeJob session0 = Some \<lparr>aj_jobId = 7, aj_page = 4, aj_cacheKey = key0\<rparr> \<and> ct_pendingCache session0 = None \<and> current_key ascii0 session0 = Some key0"
  using ocr_controller_invariant [OF session0_run] session0_state by auto

theorem ocr_results_current_witness:
  "\<exists>new. ct_signals (ocr_step add0 backend0 (OcrDone 7 4) session0) = OcrStarted 4 # new \<and> length new \<le> 1 \<and> list_all (signal_ok backend0 session0) new"
proof -
  have "controller_run (ob_unicode backend0) add0 session0" using session0_run by (simp add: backend0_def)
  from ocr_results_current [OF this, of "OcrDone 7 4"] session0_state show ?thesis by auto
qed

end
