(* ===== verification/Worker_Client.thy ===== *)
theory Worker_Client
  imports Worker_Transport
begin

text \<open>
  The client through which the generator uses the worker (\<^verbatim>\<open>src/src/plugin/worker_client.cpp\<close>): the life cycle of the worker process
  with its restart budget, the session of the EPUB cache, and rendering with cancellation from another thread.
\<close>

section \<open>Life cycle\<close>

datatype ClientState = Stopped | Ready | Recovering | FailedState

definition MaxAttempts :: nat where
  [limits]: "MaxAttempts = 3"

definition MaxRestartsPerWindow :: nat where
  [limits]: "MaxRestartsPerWindow = 2"

text \<open>The window is five seconds; times are milliseconds of the steady clock.\<close>

definition Window :: int where
  [limits]: "Window = 5000"

definition DelaysMs :: "int list" where
  "DelaysMs = [250, 500, 1000]"

datatype ClientSignal = WorkerDied int | WorkerRestarted | WorkerUnavailable

text \<open>\<open>lc_timer\<close> is the delay of the running timer; \<open>lc_info\<close> holds the facts of the last handshake, if the worker lives.\<close>

record LifeCycle =
  lc_timer :: "int option"
  lc_stopping :: bool
  lc_restartsDisabled :: bool
  lc_attempts :: nat
  lc_restartTimes :: "int list"
  lc_sequence :: u64
  lc_state :: ClientState
  lc_info :: "PingResponse option"
  lc_signals :: "ClientSignal list"

definition LifeCycle_init :: LifeCycle where
  "LifeCycle_init = \<lparr>lc_timer = None, lc_stopping = False, lc_restartsDisabled = False, lc_attempts = 0, lc_restartTimes = [], lc_sequence = 0,
     lc_state = Stopped, lc_info = None, lc_signals = []\<rparr>"

definition lc_emit :: "ClientSignal \<Rightarrow> LifeCycle \<Rightarrow> LifeCycle" where
  "lc_emit signal l = l\<lparr>lc_signals := lc_signals l @ [signal]\<rparr>"

definition prune :: "int \<Rightarrow> LifeCycle \<Rightarrow> LifeCycle" where
  "prune now l = l\<lparr>lc_restartTimes := dropWhile (\<lambda>t. t \<le> now - Window) (lc_restartTimes l)\<rparr>"

definition lc_reset :: "LifeCycle \<Rightarrow> LifeCycle" where
  "lc_reset l = l\<lparr>lc_timer := None, lc_info := None, lc_stopping := False, lc_restartsDisabled := False, lc_attempts := 0, lc_restartTimes := []\<rparr>"

definition canScheduleRestart :: "LifeCycle \<Rightarrow> bool" where
  "canScheduleRestart l \<longleftrightarrow> \<not> lc_stopping l \<and> \<not> lc_restartsDisabled l"

definition budgetExhausted :: "int \<Rightarrow> LifeCycle \<Rightarrow> LifeCycle \<times> bool" where
  "budgetExhausted now l =
     (let l1 = prune now l in (l1, lc_attempts l1 \<ge> MaxAttempts \<or> length (lc_restartTimes l1) \<ge> MaxRestartsPerWindow))"

text \<open>Reading the table of delays beyond its end has no defined value.\<close>

definition nextRestartDelayMs :: "LifeCycle \<Rightarrow> (LifeCycle \<times> int) option" where
  "nextRestartDelayMs l =
     (if lc_attempts l < length DelaysMs then Some (l\<lparr>lc_attempts := lc_attempts l + 1\<rparr>, DelaysMs ! lc_attempts l) else None)"

definition recordRestart :: "int \<Rightarrow> LifeCycle \<Rightarrow> LifeCycle" where
  "recordRestart now l =
     (let l1 = prune now l in l1\<lparr>lc_restartTimes := lc_restartTimes l1 @ [now], lc_sequence := lc_sequence l1 + 1, lc_attempts := 0\<rparr>)"

definition scheduleRestart :: "int \<Rightarrow> LifeCycle \<Rightarrow> LifeCycle option" where
  "scheduleRestart now l =
     (if \<not> canScheduleRestart l \<or> lc_timer l \<noteq> None then Some l
      else case budgetExhausted now l of
        (l1, True) \<Rightarrow> Some (lc_emit WorkerUnavailable (l1\<lparr>lc_restartsDisabled := True, lc_timer := None, lc_state := FailedState\<rparr>))
      | (l1, False) \<Rightarrow> map_option (\<lambda>(l2, delay). l2\<lparr>lc_timer := Some delay\<rparr>) (nextRestartDelayMs l1))"

text \<open>\<open>started\<close> is what starting the worker gives: the facts of its handshake, or nothing when it fails.\<close>

definition startWorker :: "PingResponse option \<Rightarrow> LifeCycle \<Rightarrow> LifeCycle \<times> bool" where
  "startWorker started l = (l\<lparr>lc_info := started\<rparr>, started \<noteq> None)"

definition client_start :: "PingResponse option \<Rightarrow> LifeCycle \<Rightarrow> LifeCycle \<times> bool" where
  "client_start started l =
     (case startWorker started (lc_reset l) of (l1, ok) \<Rightarrow> (l1\<lparr>lc_state := (if ok then Ready else Stopped)\<rparr>, ok))"

definition client_stop :: "LifeCycle \<Rightarrow> LifeCycle" where
  "client_stop l = l\<lparr>lc_stopping := True, lc_timer := None, lc_info := None, lc_state := Stopped\<rparr>"

definition processExited :: "int \<Rightarrow> int \<Rightarrow> LifeCycle \<Rightarrow> LifeCycle option" where
  "processExited now exitCode l = scheduleRestart now (lc_emit (WorkerDied exitCode) (l\<lparr>lc_info := None, lc_state := Recovering\<rparr>))"

text \<open>The timer is single-shot: it has stopped when it calls \<open>restartWorker\<close>.\<close>

definition restartWorker :: "int \<Rightarrow> bool \<Rightarrow> PingResponse option \<Rightarrow> LifeCycle \<Rightarrow> LifeCycle option" where
  "restartWorker now alive started l =
     (if \<not> canScheduleRestart l \<or> alive then Some l
      else case startWorker started l of
        (l1, True) \<Rightarrow> Some (lc_emit WorkerRestarted ((recordRestart now l1)\<lparr>lc_state := Recovering\<rparr>))
      | (l1, False) \<Rightarrow> scheduleRestart now l1)"

definition commitSessionReady :: "LifeCycle \<Rightarrow> LifeCycle" where
  "commitSessionReady l = l\<lparr>lc_state := Ready\<rparr>"

definition commitSessionFailed :: "LifeCycle \<Rightarrow> LifeCycle" where
  "commitSessionFailed l = l\<lparr>lc_state := FailedState\<rparr>"

definition operational :: "LifeCycle \<Rightarrow> bool" where
  "operational l \<longleftrightarrow> lc_state l = Ready"

section \<open>Restart budget\<close>

text \<open>
  The events of the life cycle with the clock and the times of the automatic restarts since the last manual start.
\<close>

inductive client_run :: "int \<Rightarrow> int list \<Rightarrow> LifeCycle \<Rightarrow> bool" where
  run_init: "client_run now [] LifeCycle_init"
| run_tick: "client_run now h l \<Longrightarrow> now \<le> later \<Longrightarrow> client_run later h l"
| run_start: "client_run now h l \<Longrightarrow> client_run now [] (fst (client_start started l))"
| run_stop: "client_run now h l \<Longrightarrow> client_run now h (client_stop l)"
| run_exited: "client_run now h l \<Longrightarrow> processExited now exitCode l = Some l' \<Longrightarrow> client_run now h l'"
| run_timer: "client_run now h l \<Longrightarrow> lc_timer l = Some delay \<Longrightarrow> restartWorker now alive started (l\<lparr>lc_timer := None\<rparr>) = Some l' \<Longrightarrow>
    client_run now (if lc_signals l' = lc_signals l @ [WorkerRestarted] then h @ [now] else h) l'"
| run_ready: "client_run now h l \<Longrightarrow> client_run now h (commitSessionReady l)"
| run_failed: "client_run now h l \<Longrightarrow> client_run now h (commitSessionFailed l)"

definition spaced :: "int list \<Rightarrow> bool" where
  "spaced h \<longleftrightarrow> (\<forall>i. i + 2 < length h \<longrightarrow> h ! i + Window \<le> h ! (i + 2))"

definition recent :: "int \<Rightarrow> int list \<Rightarrow> int list" where
  "recent now h = filter (\<lambda>t. t > now - Window) h"

definition client_inv :: "int \<Rightarrow> int list \<Rightarrow> LifeCycle \<Rightarrow> bool" where
  "client_inv now h l \<longleftrightarrow> sorted h \<and> (\<forall>t\<in>set h. t \<le> now) \<and> spaced h \<and> recent now (lc_restartTimes l) = recent now h \<and> sorted (lc_restartTimes l)
     \<and> lc_attempts l \<le> MaxAttempts \<and> (\<forall>d. lc_timer l = Some d \<longrightarrow> d \<in> set DelaysMs \<and> canScheduleRestart l \<and> length (recent now h) \<le> 1)"

lemma recent_prune: "sorted ts \<Longrightarrow> dropWhile (\<lambda>t. t \<le> now - Window) ts = recent now ts"
proof (induction ts)
  case (Cons t ts)
  show ?case
  proof (cases "t \<le> now - Window")
    case False
    with Cons.prems have "recent now (t # ts) = t # ts" unfolding recent_def by (intro filter_True) auto
    then show ?thesis using False by simp
  qed (use Cons in \<open>simp add: recent_def\<close>)
qed (simp add: recent_def)

lemma prune_recent: "sorted (lc_restartTimes l) \<Longrightarrow> lc_restartTimes (prune now l) = recent now (lc_restartTimes l)"
  by (simp add: prune_def recent_prune)

lemma recent_recent: "recent now (recent now h) = recent now h"
  by (simp add: recent_def)

lemma recent_later: "now \<le> later \<Longrightarrow> recent later h = recent later (recent now h)"
  by (auto simp: recent_def intro: filter_cong)

lemma sorted_recent: "sorted h \<Longrightarrow> sorted (recent now h)"
  unfolding recent_def by (rule sorted_wrt_filter)

lemma spaced_snoc:
  assumes "spaced h" "sorted h" "length (recent now h) \<le> 1" "\<forall>t\<in>set h. t \<le> now"
  shows "spaced (h @ [now])"
proof -
  have "h ! i + Window \<le> now" if "Suc (Suc i) = length h" for i
  proof (rule ccontr)
    assume late: "\<not> h ! i + Window \<le> now"
    have h: "h = take i h @ [h ! i, h ! Suc i]"
      using that by (metis Cons_nth_drop_Suc append_take_drop_id drop_all lessI less_SucI order_refl)
    have "h ! i \<le> h ! Suc i" using assms(2) that by (auto simp: sorted_iff_nth_mono)
    then have "recent now h = recent now (take i h) @ [h ! i, h ! Suc i]"
      using late by (subst h) (simp add: recent_def)
    then show False using assms(3) by simp
  qed
  then show ?thesis using assms(1) by (auto simp: spaced_def nth_append less_Suc_eq)
qed

lemma scheduleRestart_total: "scheduleRestart now l \<noteq> None"
  by (auto simp: scheduleRestart_def budgetExhausted_def nextRestartDelayMs_def DelaysMs_def Let_def limits split: bool.splits)

text \<open>What scheduling does when it may: a timer, or the end of automatic recovery.\<close>

lemma scheduleRestart_outcome:
  assumes "scheduleRestart now l = Some l'"
  shows "lc_signals l' = lc_signals l \<and> (canScheduleRestart l \<longrightarrow> lc_timer l' \<noteq> None)
    \<or> lc_signals l' = lc_signals l @ [WorkerUnavailable] \<and> lc_restartsDisabled l' \<and> lc_state l' = FailedState"
  using assms
  by (auto simp: scheduleRestart_def budgetExhausted_def nextRestartDelayMs_def Let_def lc_emit_def prune_def split: if_splits bool.splits)

lemma scheduleRestart_inv:
  assumes "client_inv now h l" "scheduleRestart now l = Some l'"
  shows "client_inv now h l'"
proof (cases "\<not> canScheduleRestart l \<or> lc_timer l \<noteq> None")
  case True
  then show ?thesis using assms by (simp add: scheduleRestart_def)
next
  case False
  have p: "lc_restartTimes (prune now l) = recent now h"
    using assms(1) prune_recent [of l now] by (simp add: client_inv_def)
  then have r: "recent now (lc_restartTimes (prune now l)) = recent now h" "sorted (lc_restartTimes (prune now l))"
    using assms(1) by (simp_all add: recent_recent sorted_recent client_inv_def)
  have f: "lc_attempts (prune now l) = lc_attempts l" "lc_timer (prune now l) = lc_timer l" "canScheduleRestart (prune now l) = canScheduleRestart l"
    by (simp_all add: prune_def canScheduleRestart_def)
  show ?thesis
  proof (cases "lc_attempts l \<ge> MaxAttempts \<or> length (recent now h) \<ge> MaxRestartsPerWindow")
    case True
    then have "l' = lc_emit WorkerUnavailable ((prune now l)\<lparr>lc_restartsDisabled := True, lc_timer := None, lc_state := FailedState\<rparr>)"
      using assms(2) False p f by (auto simp: scheduleRestart_def budgetExhausted_def Let_def)
    then show ?thesis using assms(1) r f by (simp add: client_inv_def lc_emit_def)
  next
    case budget: False
    then have a: "lc_attempts l < length DelaysMs" by (simp add: DelaysMs_def limits)
    from budget have "l' = (prune now l)\<lparr>lc_attempts := lc_attempts l + 1, lc_timer := Some (DelaysMs ! lc_attempts l)\<rparr>"
      using assms(2) False p f a by (auto simp: scheduleRestart_def budgetExhausted_def nextRestartDelayMs_def Let_def)
    moreover have "DelaysMs ! lc_attempts l \<in> set DelaysMs" using a by (rule nth_mem)
    ultimately show ?thesis using assms(1) r f budget False by (simp add: client_inv_def canScheduleRestart_def limits)
  qed
qed

lemma client_inv_frame:
  assumes "client_inv now h l" "lc_restartTimes l' = lc_restartTimes l" "lc_attempts l' = lc_attempts l" "lc_timer l' = None \<or> lc_timer l' = lc_timer l \<and> canScheduleRestart l' = canScheduleRestart l"
  shows "client_inv now h l'"
  using assms by (auto simp: client_inv_def)

lemma restartWorker_inv:
  assumes "client_inv now h l" "lc_timer l = Some delay" "restartWorker now alive started (l\<lparr>lc_timer := None\<rparr>) = Some l'"
  shows "client_inv now (if lc_signals l' = lc_signals l @ [WorkerRestarted] then h @ [now] else h) l'"
proof -
  let ?l = "l\<lparr>lc_timer := None\<rparr>"
  have can: "canScheduleRestart ?l" using assms(1,2) by (simp add: client_inv_def canScheduleRestart_def)
  have c: "client_inv now h (?l\<lparr>lc_info := i\<rparr>)" for i by (rule client_inv_frame [OF assms(1)]) simp_all
  consider "alive" | "\<not> alive" "started = None" | "\<not> alive" "started \<noteq> None" by blast
  then show ?thesis
  proof cases
    case 1
    then have "l' = ?l" using assms(3) by (simp add: restartWorker_def)
    then show ?thesis using client_inv_frame [OF assms(1)] by simp
  next
    case 2
    then have s: "scheduleRestart now (?l\<lparr>lc_info := None\<rparr>) = Some l'" using assms(3) can by (simp add: restartWorker_def startWorker_def)
    moreover have "lc_signals l' \<noteq> lc_signals l @ [WorkerRestarted]"
      using scheduleRestart_outcome [OF s] by auto
    ultimately show ?thesis using scheduleRestart_inv [OF c] by simp
  next
    case 3
    let ?i = "?l\<lparr>lc_info := started\<rparr>"
    have l': "l' = lc_emit WorkerRestarted ((recordRestart now ?i)\<lparr>lc_state := Recovering\<rparr>)"
      using 3 assms(3) can by (auto simp: restartWorker_def startWorker_def)
    have p: "lc_restartTimes (prune now ?i) = recent now h" using c [of started] prune_recent [of ?i now] by (simp add: client_inv_def)
    have h: "sorted (h @ [now])" "spaced (h @ [now])" "recent now (h @ [now]) = recent now h @ [now]" "sorted (recent now h @ [now])"
      using assms(1,2) spaced_snoc [of h now] by (auto simp: client_inv_def sorted_append recent_def Window_def sorted_wrt_filter)
    have "lc_signals l' = lc_signals l @ [WorkerRestarted]" "lc_restartTimes l' = recent now h @ [now]" "lc_attempts l' = 0" "lc_timer l' = None"
      using p by (simp_all add: l' lc_emit_def recordRestart_def Let_def prune_def)
    moreover have "recent now (recent now h @ [now]) = recent now (h @ [now])" by (simp add: recent_def)
    ultimately show ?thesis using assms(1) h by (auto simp: client_inv_def)
  qed
qed

lemma client_run_inv: "client_run now h l \<Longrightarrow> client_inv now h l"
proof (induction rule: client_run.induct)
  case (run_init now)
  show ?case by (simp add: client_inv_def LifeCycle_init_def spaced_def)
next
  case (run_tick now h l later)
  have "recent later h = recent later (recent now h)" for h using run_tick.hyps(2) by (rule recent_later)
  then have "length (recent later h) \<le> length (recent now h)" "recent later (lc_restartTimes l) = recent later h"
    using run_tick.IH by (metis length_filter_le recent_def, metis client_inv_def)
  then show ?case using run_tick by (fastforce simp: client_inv_def)
next
  case (run_start now h l started)
  show ?case by (simp add: client_inv_def client_start_def startWorker_def lc_reset_def spaced_def)
next
  case (run_stop now h l)
  show ?case by (rule client_inv_frame [OF run_stop.IH]) (simp_all add: client_stop_def)
next
  case (run_exited now h l exitCode l')
  have "client_inv now h (lc_emit (WorkerDied exitCode) (l\<lparr>lc_info := None, lc_state := Recovering\<rparr>))"
    by (rule client_inv_frame [OF run_exited.IH]) (simp_all add: lc_emit_def canScheduleRestart_def)
  then show ?case using run_exited.hyps(2) scheduleRestart_inv unfolding processExited_def by blast
next
  case (run_timer now h l delay alive started l')
  then show ?case using restartWorker_inv by blast
next
  case (run_ready now h l)
  show ?case by (rule client_inv_frame [OF run_ready.IH]) (simp_all add: commitSessionReady_def canScheduleRestart_def)
next
  case (run_failed now h l)
  show ?case by (rule client_inv_frame [OF run_failed.IH]) (simp_all add: commitSessionFailed_def canScheduleRestart_def)
qed

text \<open>
  C19. A crashing worker cannot cause a restart storm: in every history of crashes, timer events, manual starts and stops, three
  successive automatic restarts span at least five seconds; at most three delayed attempts follow each other, so the table of delays
  is never read past its end; and each crash is answered, while automatic recovery is enabled, by a running timer with one of the
  configured delays or by the report that the worker is unavailable.
\<close>

theorem restart_budget:
  assumes "client_run now h l"
  shows "(\<forall>i. i + 2 < length h \<longrightarrow> h ! i + 5000 \<le> h ! (i + 2)) \<and> lc_attempts l \<le> 3
    \<and> (\<forall>delay. lc_timer l = Some delay \<longrightarrow> delay \<in> {250, 500, 1000} \<and> \<not> lc_stopping l \<and> \<not> lc_restartsDisabled l)
    \<and> (\<exists>l'. processExited now exitCode l = Some l' \<and> (canScheduleRestart l \<longrightarrow>
         (\<exists>delay\<in>{250, 500, 1000}. lc_timer l' = Some delay) \<or> (WorkerUnavailable \<in> set (lc_signals l') \<and> lc_restartsDisabled l')))"
proof -
  note inv = client_run_inv [OF assms]
  obtain l' where l': "processExited now exitCode l = Some l'" using scheduleRestart_total by (auto simp: processExited_def)
  then have "client_inv now h l'" using client_run_inv [OF run_exited [OF assms]] by blast
  moreover have "canScheduleRestart l \<Longrightarrow> lc_timer l' \<noteq> None \<or> (WorkerUnavailable \<in> set (lc_signals l') \<and> lc_restartsDisabled l')"
    using scheduleRestart_outcome [OF l' [unfolded processExited_def]] by (auto simp: lc_emit_def canScheduleRestart_def)
  ultimately have "canScheduleRestart l \<longrightarrow> (\<exists>delay\<in>{250, 500, 1000}. lc_timer l' = Some delay) \<or> (WorkerUnavailable \<in> set (lc_signals l') \<and> lc_restartsDisabled l')"
    by (auto simp: client_inv_def DelaysMs_def)
  then show ?thesis using inv l' by (auto simp: client_inv_def spaced_def DelaysMs_def canScheduleRestart_def limits)
qed

text \<open>A worker that is started, dies, and is restarted 300 milliseconds later.\<close>

definition pong0 :: PingResponse where
  "pong0 = \<lparr>pgr_compat = [], pgr_pid = 1, pgr_sandbox = \<lparr>ss_platform = [], ss_profile = [], ss_protections = [], ss_diagnostics = []\<rparr>,
     pgr_engineVersion = [], pgr_systemMuPdf = False\<rparr>"

definition started0 :: LifeCycle where
  "started0 = fst (client_start (Some pong0) LifeCycle_init)"

definition dead0 :: LifeCycle where
  "dead0 = the (processExited 0 9 started0)"

definition revived0 :: LifeCycle where
  "revived0 = the (restartWorker 300 False (Some pong0) (dead0\<lparr>lc_timer := None\<rparr>))"

lemmas revived_eval = revived0_def dead0_def started0_def client_start_def startWorker_def lc_reset_def LifeCycle_init_def processExited_def scheduleRestart_def
  canScheduleRestart_def budgetExhausted_def prune_def nextRestartDelayMs_def DelaysMs_def restartWorker_def recordRestart_def lc_emit_def limits Let_def

lemma revived0_run: "client_run 300 [300] revived0"
proof -
  have d: "processExited 0 9 started0 = Some dead0" "lc_timer dead0 = Some 250" by (simp_all add: revived_eval)
  have r: "restartWorker 300 False (Some pong0) (dead0\<lparr>lc_timer := None\<rparr>) = Some revived0" "lc_signals revived0 = lc_signals dead0 @ [WorkerRestarted]"
    by (simp_all add: revived_eval)
  have "client_run 0 [] started0" unfolding started0_def by (rule run_start [OF run_init])
  from run_timer [OF run_tick [OF run_exited [OF this d(1)], of 300] d(2) r(1)] r(2) show ?thesis by simp
qed

theorem restart_budget_witness:
  "client_run 300 [300] revived0 \<and> lc_sequence revived0 = 1 \<and> (\<exists>l'. processExited 300 9 revived0 = Some l' \<and> lc_timer l' = Some 250)"
proof -
  have "lc_sequence revived0 = 1" by (simp add: revived_eval)
  moreover from restart_budget [OF revived0_run, of 9] obtain l' where "processExited 300 9 revived0 = Some l'" by blast
  moreover have "map_option lc_timer (processExited 300 9 revived0) = Some (Some 250)" by (simp add: revived_eval)
  ultimately show ?thesis using revived0_run by auto
qed

end
