(* ===== verification/Outline_Text.thy ===== *)
theory Outline_Text
  imports Model_Types
begin

text \<open>
  How the outline generator reads heading text (first half of \<^verbatim>\<open>src/src/worker/engine/pdf/generated_outline.cpp\<close>): numbered
  headings, printed page numbers, the keys under which titles are compared, contents labels and captions. Text is a byte string;
  a string view is the list of the bytes that are left.
\<close>

section \<open>Bounds\<close>

definition MaxGeneratedOutlineNodes :: nat where [limits]: "MaxGeneratedOutlineNodes = 5000"
definition MaxGeneratedHeadingBytes :: nat where [limits]: "MaxGeneratedHeadingBytes = 160"
definition MaxHeadingNumberComponent :: nat where [limits]: "MaxHeadingNumberComponent = 9999"
definition MaxHeadingNumberDepth :: nat where [limits]: "MaxHeadingNumberDepth = 8"
definition MaxPrintedPageNumber :: int where [limits]: "MaxPrintedPageNumber = 100000"
definition MaxRomanPageMarkerBytes :: nat where [limits]: "MaxRomanPageMarkerBytes = 8"

section \<open>The standard library\<close>

text \<open>
  \<open>std::from_chars\<close> in base ten: the longest run of digits, with a minus sign for signed types; no digits and values out of
  range are errors.
\<close>

definition is_digit :: "char \<Rightarrow> bool" where
  "is_digit c \<longleftrightarrow> of_char c \<ge> (48::nat) \<and> of_char c \<le> (57::nat)"

definition digit_value :: "char \<Rightarrow> nat" where
  "digit_value c = of_char c - 48"

definition decimal_value :: "string \<Rightarrow> nat" where
  "decimal_value ds = foldl (\<lambda>n c. 10 * n + digit_value c) 0 ds"

definition from_chars_unsigned :: "string \<Rightarrow> (nat \<times> string) option" where
  "from_chars_unsigned text =
     (let ds = takeWhile is_digit text in
      if ds = [] \<or> int (decimal_value ds) \<ge> 2 ^ 32 then None else Some (decimal_value ds, dropWhile is_digit text))"

definition from_chars_int :: "string \<Rightarrow> (int \<times> string) option" where
  "from_chars_int text =
     (let negative = (text \<noteq> [] \<and> hd text = CHR ''-''); digits = (if negative then tl text else text); ds = takeWhile is_digit digits;
          n = (if negative then - int (decimal_value ds) else int (decimal_value ds)) in
      if ds = [] \<or> \<not> i32_range n then None else Some (n, dropWhile is_digit digits))"

definition is_blank :: "char \<Rightarrow> bool" where
  "is_blank c \<longleftrightarrow> c = CHR '' '' \<or> c = CHR 0x09"

definition is_space :: "char \<Rightarrow> bool" where
  "is_space c \<longleftrightarrow> c = CHR '' '' \<or> c = CHR 0x09 \<or> c = CHR 0x0D \<or> c = CHR 0x0A"

definition trim_by :: "(char \<Rightarrow> bool) \<Rightarrow> string \<Rightarrow> string" where
  "trim_by p text = rev (dropWhile p (rev (dropWhile p text)))"

section \<open>Letters\<close>

text \<open>
  MuPDF decodes one code point and says how many bytes it took, at least one; its Unicode tables tell whether the code point is
  in one of the five letter categories.
\<close>

record UnicodeTables =
  ut_chartorunen :: "string \<Rightarrow> nat \<times> nat"
  ut_letter :: "nat \<Rightarrow> bool"

function hasTitleLetters :: "UnicodeTables \<Rightarrow> string \<Rightarrow> bool" where
  "hasTitleLetters U [] = False"
| "hasTitleLetters U (c # cs) =
     (case ut_chartorunen U (c # cs) of (codepoint, n) \<Rightarrow> if ut_letter U codepoint then True else hasTitleLetters U (drop (n - 1) cs))"
  by pat_completeness auto
termination by (relation "measure (\<lambda>(U, text). length text)") auto

section \<open>Numbered headings\<close>

record HeadingNumber =
  hn_components :: "nat list"
  hn_title :: string

text \<open>The loop over the components; the result is the components and what follows them, \<open>None\<close> when the text is no heading.\<close>

function heading_loop :: "nat list \<Rightarrow> string \<Rightarrow> (nat list \<times> string) option" where
  "heading_loop components text =
     (if text = [] then Some (components, text)
      else case from_chars_unsigned text of
        None \<Rightarrow> None
      | Some (number, rest) \<Rightarrow>
        if number > MaxHeadingNumberComponent \<or> length components \<ge> MaxHeadingNumberDepth then None
        else if rest = [] then None
        else if hd rest \<noteq> CHR ''.'' then Some (components @ [number], rest)
        else if tl rest = [] then None
        else if \<not> is_digit (hd (tl rest)) then Some (components @ [number], tl rest)
        else heading_loop (components @ [number]) (tl rest))"
  by pat_completeness auto
termination
proof (relation "measure (\<lambda>(components, text). length text)")
  fix components :: "nat list" and str :: string and x2 number rest
  assume "str \<noteq> []" "from_chars_unsigned str = Some x2" "(number, rest) = x2" "rest \<noteq> []"
  then have "length rest \<le> length str" "rest \<noteq> []"
    by (auto simp: from_chars_unsigned_def Let_def length_dropWhile_le split: if_splits)
  then show "((components @ [number], tl rest), components, str) \<in> measure (\<lambda>(components, text). length text)"
    by (cases rest) auto
qed simp

definition parseHeading :: "UnicodeTables \<Rightarrow> string \<Rightarrow> HeadingNumber option" where
  "parseHeading U text =
     (let text = trim_by is_blank text in
      if text = [] \<or> length text > MaxGeneratedHeadingBytes then None
      else case heading_loop [] text of
        None \<Rightarrow> None
      | Some (components, rest) \<Rightarrow>
        if rest = [] \<or> \<not> is_blank (hd rest) then None
        else if hasTitleLetters U rest then Some \<lparr>hn_components = components, hn_title = text\<rparr> else None)"

section \<open>Keys\<close>

definition trimText :: "string \<Rightarrow> string" where
  "trimText text = trim_by is_space text"

definition lower_or_keep :: "char \<Rightarrow> string" where
  "lower_or_keep c =
     (let ch = of_char c :: nat in
      if 65 \<le> ch \<and> ch \<le> 90 then [char_of (ch + 32)]
      else if (97 \<le> ch \<and> ch \<le> 122) \<or> (48 \<le> ch \<and> ch \<le> 57) \<or> ch \<ge> 128 then [c] else [])"

text \<open>The markers that are dropped: the registered sign in two bytes; the trade mark sign, the two dashes and the two quotes in three.\<close>

definition marker3 :: "string list" where
  "marker3 = [[CHR 0xE2, CHR 0x84, CHR 0xA2], [CHR 0xE2, CHR 0x80, CHR 0x93], [CHR 0xE2, CHR 0x80, CHR 0x94],
     [CHR 0xE2, CHR 0x80, CHR 0x99], [CHR 0xE2, CHR 0x80, CHR 0x98]]"

function normalizeTitle :: "string \<Rightarrow> string" where
  "normalizeTitle [] = []"
| "normalizeTitle (c # cs) =
     (if take 2 (c # cs) = [CHR 0xC2, CHR 0xAE] then normalizeTitle (drop 1 cs)
      else if take 3 (c # cs) \<in> set marker3 then normalizeTitle (drop 2 cs)
      else lower_or_keep c @ normalizeTitle cs)"
  by pat_completeness auto
termination by (relation "measure length") auto

definition parsePageNumber :: "string \<Rightarrow> int option" where
  "parsePageNumber text =
     (case from_chars_int (trimText text) of
        None \<Rightarrow> None
      | Some (number, rest) \<Rightarrow> if rest \<noteq> [] \<or> number \<le> 0 \<or> number > MaxPrintedPageNumber then None else Some number)"

definition stripEdgeNumbers :: "string \<Rightarrow> string" where
  "stripEdgeNumbers text = normalizeTitle (trim_by (\<lambda>c. is_digit c \<or> c = CHR '' '') (trimText text))"

definition headingKey :: "UnicodeTables \<Rightarrow> string \<Rightarrow> string" where
  "headingKey U text =
     (if parseHeading U text \<noteq> None then normalizeTitle (dropWhile (\<lambda>c. \<not> is_blank c) text) else normalizeTitle text)"

definition first_word :: "string \<Rightarrow> string" where
  "first_word text = normalizeTitle (takeWhile (\<lambda>c. \<not> (is_blank c \<or> c = CHR '':'')) (trimText text))"

definition isSectionTitle :: "string \<Rightarrow> bool" where
  "isSectionTitle text \<longleftrightarrow> first_word text = ''section'' \<or> first_word text = ''part''"

definition isPageMarker :: "string \<Rightarrow> bool" where
  "isPageMarker word \<longleftrightarrow> parsePageNumber word \<noteq> None
     \<or> (word \<noteq> [] \<and> length word \<le> MaxRomanPageMarkerBytes \<and> list_all (\<lambda>c. c \<in> set ''ivxlcdmIVXLCDM'') word)"

text \<open>The text before the last blank and after it; \<open>None\<close> without a blank.\<close>

definition split_last_blank :: "string \<Rightarrow> (string \<times> string) option" where
  "split_last_blank text =
     (let word = rev (takeWhile (\<lambda>c. \<not> is_blank c) (rev text)) in
      if length word = length text then None else Some (take (length text - length word - 1) text, word))"

definition isContentsLabel :: "string \<Rightarrow> bool" where
  "isContentsLabel text \<longleftrightarrow>
     (let label = trimText text; first = takeWhile (\<lambda>c. \<not> is_blank c) label;
          label1 = (if length first \<noteq> length label \<and> isPageMarker first then drop (length first + 1) label else label);
          label2 = (case split_last_blank label1 of None \<Rightarrow> label1 | Some (start, word) \<Rightarrow> if isPageMarker word then start else label1);
          key = normalizeTitle label2 in
      key = ''contents'' \<or> key = ''tableofcontents'' \<or> key = ''tableofcontentscontinued'')"

definition isCaption :: "string \<Rightarrow> bool" where
  "isCaption text \<longleftrightarrow> first_word text \<in> {''figure'', ''fig'', ''table'', ''note'', ''tip'', ''warning''}"

text \<open>The title without a trailing page number, and that number.\<close>

definition takeTrailingPage :: "string \<Rightarrow> string \<times> int option" where
  "takeTrailingPage title =
     (case split_last_blank title of
        None \<Rightarrow> (title, None)
      | Some (start, word) \<Rightarrow>
        (case parsePageNumber word of None \<Rightarrow> (title, None) | Some page \<Rightarrow> (trimText start, Some page)))"

section \<open>The grammar of numbered headings\<close>

text \<open>Digit strings joined by dots.\<close>

fun dotted :: "string list \<Rightarrow> string" where
  "dotted [] = []"
| "dotted [d] = d"
| "dotted (d # e # ds) = d @ CHR ''.'' # dotted (e # ds)"

definition component_ok :: "string \<Rightarrow> bool" where
  "component_ok d \<longleftrightarrow> d \<noteq> [] \<and> list_all is_digit d \<and> decimal_value d \<le> MaxHeadingNumberComponent"

lemma dotted_Cons: "ds \<noteq> [] \<Longrightarrow> dotted (d # ds) = d @ CHR ''.'' # dotted ds"
  by (cases ds) auto

lemma from_chars_unsigned_digits:
  assumes "component_ok d" "x = [] \<or> \<not> is_digit (hd x)"
  shows "from_chars_unsigned (d @ x) = Some (decimal_value d, x)"
proof -
  have "takeWhile is_digit (d @ x) = d" "dropWhile is_digit (d @ x) = x"
    using assms by (cases x; simp add: component_ok_def list_all_iff takeWhile_append2 dropWhile_append2)+
  then show ?thesis using assms(1) by (simp add: from_chars_unsigned_def component_ok_def limits)
qed

lemma from_chars_unsigned_SomeD:
  assumes "from_chars_unsigned str = Some (n, x)" "n \<le> MaxHeadingNumberComponent"
  obtains d where "str = d @ x" "component_ok d" "n = decimal_value d"
proof (rule that)
  show "str = takeWhile is_digit str @ x" "component_ok (takeWhile is_digit str)" "n = decimal_value (takeWhile is_digit str)"
    using assms by (auto simp: from_chars_unsigned_def component_ok_def list_all_iff Let_def dest: set_takeWhileD split: if_splits)
qed

lemma is_digit_dot [simp]: "\<not> is_digit CHR ''.''"
  by (simp add: is_digit_def)

lemma is_digit_blank: "is_blank c \<Longrightarrow> \<not> is_digit c \<and> c \<noteq> CHR ''.''"
  by (auto simp: is_digit_def is_blank_def)

declare heading_loop.simps [simp del]

text \<open>Every heading of the grammar is read.\<close>

lemma heading_loop_complete:
  assumes "ds \<noteq> []" "list_all component_ok ds" "length components + length ds \<le> MaxHeadingNumberDepth" "dot = [] \<or> dot = ''.''" "rest \<noteq> []" "is_blank (hd rest)"
  shows "heading_loop components (dotted ds @ dot @ rest) = Some (components @ map decimal_value ds, rest)"
  using assms
proof (induction ds arbitrary: components)
  case (Cons d ds)
  from Cons.prems(2) have d: "component_ok d" "d \<noteq> []" "\<not> decimal_value d > MaxHeadingNumberComponent" by (auto simp: component_ok_def)
  note b = is_digit_blank [OF Cons.prems(6)]
  show ?case
  proof (cases "ds = []")
    case True
    have "from_chars_unsigned (d @ dot @ rest) = Some (decimal_value d, dot @ rest)"
      using Cons.prems(4-6) b by (intro from_chars_unsigned_digits [OF d(1)]) auto
    then show ?thesis using True d Cons.prems(3-5) b by (subst heading_loop.simps) (auto simp: not_le [symmetric])
  next
    case False
    then obtain c cs where c: "dotted ds @ dot @ rest = c # cs" "is_digit c"
      using Cons.prems(2) by (cases ds rule: dotted.cases) (auto simp: component_ok_def neq_Nil_conv)
    have "from_chars_unsigned (d @ CHR ''.'' # dotted ds @ dot @ rest) = Some (decimal_value d, CHR ''.'' # dotted ds @ dot @ rest)"
      by (intro from_chars_unsigned_digits [OF d(1)]) simp
    then have "heading_loop components (dotted (d # ds) @ dot @ rest) = heading_loop (components @ [decimal_value d]) (dotted ds @ dot @ rest)"
      using d Cons.prems(3) c by (subst heading_loop.simps) (simp add: dotted_Cons [OF False])
    also have "\<dots> = Some ((components @ [decimal_value d]) @ map decimal_value ds, rest)"
      using Cons.prems False by (intro Cons.IH) auto
    finally show ?thesis by simp
  qed
qed simp

text \<open>Nothing else is read.\<close>

lemma heading_loop_sound:
  assumes "heading_loop components str = Some (components', rest)" "str \<noteq> []" "length components \<le> MaxHeadingNumberDepth"
  shows "\<exists>ds dot. ds \<noteq> [] \<and> list_all component_ok ds \<and> (dot = [] \<or> dot = ''.'') \<and> str = dotted ds @ dot @ rest
    \<and> components' = components @ map decimal_value ds \<and> length components' \<le> MaxHeadingNumberDepth"
  using assms
proof (induction components str arbitrary: components' rest rule: heading_loop.induct)
  case (1 components str)
  from "1.prems" obtain number x where f: "from_chars_unsigned str = Some (number, x)" and l: "number \<le> MaxHeadingNumberComponent" "length components < MaxHeadingNumberDepth"
    and x: "x \<noteq> []"
    by (subst (asm) heading_loop.simps) (auto simp: not_less not_le split: option.splits if_splits)
  from from_chars_unsigned_SomeD [OF f l(1)] obtain d where d: "str = d @ x" "component_ok d" "number = decimal_value d" by blast
  have e: "heading_loop components str =
    (if hd x \<noteq> CHR ''.'' then Some (components @ [number], x) else if tl x = [] then None
     else if \<not> is_digit (hd (tl x)) then Some (components @ [number], tl x) else heading_loop (components @ [number]) (tl x))"
    using "1.prems"(2) f l x by (subst heading_loop.simps) simp
  show ?case
  proof (cases "hd x = CHR ''.'' \<and> tl x \<noteq> [] \<and> is_digit (hd (tl x))")
    case True
    with "1.prems" e have h: "heading_loop (components @ [number]) (tl x) = Some (components', rest)" by simp
    have "\<exists>ds dot. ds \<noteq> [] \<and> list_all component_ok ds \<and> (dot = [] \<or> dot = ''.'') \<and> tl x = dotted ds @ dot @ rest
      \<and> components' = (components @ [number]) @ map decimal_value ds \<and> length components' \<le> MaxHeadingNumberDepth"
      using True l x f "1.prems"(2) h by (intro "1.IH") auto
    then obtain ds dot where i: "ds \<noteq> []" "list_all component_ok ds" "dot = [] \<or> dot = ''.''" "tl x = dotted ds @ dot @ rest"
      "components' = (components @ [number]) @ map decimal_value ds" "length components' \<le> MaxHeadingNumberDepth" by blast
    have "str = dotted (d # ds) @ dot @ rest" using d(1) x True i(4) by (cases x) (simp_all add: dotted_Cons [OF i(1)])
    then show ?thesis using i d by (intro exI [of _ "d # ds"] exI [of _ dot]) simp
  next
    case False
    define dot where "dot = (if hd x = CHR ''.'' then ''.'' else [])"
    from False e "1.prems"(1) have "components' = components @ [number]" "x = dot @ rest" using x by (cases x; auto simp: dot_def split: if_splits)+
    then show ?thesis using d l by (intro exI [of _ "[d]"] exI [of _ dot]) (auto simp: dot_def)
  qed
qed

text \<open>
  C20. A line is a numbered heading exactly when, without surrounding blanks, it is at most 160 bytes long and consists of one to
  eight numbers up to 9999 joined by dots, an optional closing dot, a blank and a title with a letter; the components are those numbers.
\<close>

theorem heading_grammar:
  "parseHeading U line = Some h \<longleftrightarrow>
     (\<exists>ds dot rest. trim_by is_blank line = dotted ds @ dot @ rest \<and> length (trim_by is_blank line) \<le> 160
        \<and> ds \<noteq> [] \<and> length ds \<le> 8 \<and> list_all component_ok ds \<and> (dot = [] \<or> dot = ''.'') \<and> rest \<noteq> [] \<and> is_blank (hd rest)
        \<and> hasTitleLetters U rest \<and> h = \<lparr>hn_components = map decimal_value ds, hn_title = trim_by is_blank line\<rparr>)" (is "?parse \<longleftrightarrow> ?grammar")
proof
  let ?t = "trim_by is_blank line"
  assume ?parse
  then obtain components rest where l: "heading_loop [] ?t = Some (components, rest)" "?t \<noteq> []" "length ?t \<le> 160" "rest \<noteq> []" "is_blank (hd rest)"
    "hasTitleLetters U rest" "h = \<lparr>hn_components = components, hn_title = ?t\<rparr>"
    by (auto simp: parseHeading_def Let_def limits not_less split: option.splits if_splits)
  have "length ([] :: nat list) \<le> MaxHeadingNumberDepth" by simp
  from heading_loop_sound [OF l(1,2) this] obtain ds dot where "ds \<noteq> []" "list_all component_ok ds" "dot = [] \<or> dot = ''.''" "?t = dotted ds @ dot @ rest"
    "components = map decimal_value ds" "length components \<le> MaxHeadingNumberDepth"
    unfolding append_Nil by blast
  then show ?grammar using l by (intro exI [of _ ds] exI [of _ dot] exI [of _ rest]) (simp add: MaxHeadingNumberDepth_def)
next
  let ?t = "trim_by is_blank line"
  assume ?grammar
  then obtain ds dot rest where g: "?t = dotted ds @ dot @ rest" "length ?t \<le> 160" "ds \<noteq> []" "length ds \<le> 8" "list_all component_ok ds"
    "dot = [] \<or> dot = ''.''" "rest \<noteq> []" "is_blank (hd rest)" "hasTitleLetters U rest" "h = \<lparr>hn_components = map decimal_value ds, hn_title = ?t\<rparr>"
    by blast
  have "heading_loop [] ?t = Some (map decimal_value ds, rest)"
    using heading_loop_complete [OF g(3,5) _ g(6-8), of "[]"] g(1,4) by (simp add: MaxHeadingNumberDepth_def)
  moreover have "?t \<noteq> []" using g(1,7) by auto
  ultimately show ?parse using g(2,7-10) by (simp add: parseHeading_def limits)
qed

end
