(* ===== verification/Fp_Arith.thy ===== *)
theory Fp_Arith
  imports Mu_Prelude
begin

text \<open>
  Arithmetic on \<open>double\<close> as the outline generator uses it. The result of an operation on finite numbers is the rounded exact
  result; the rounding \<open>rnd\<close> to the nearest double, which overflows to an infinity, is an argument. The sign of a zero is not
  represented: no division by zero occurs where these operations are used.
\<close>

type_synonym rounding = "real \<Rightarrow> fp"

fun fp_add :: "rounding \<Rightarrow> fp \<Rightarrow> fp \<Rightarrow> fp" where
  "fp_add rnd (Fin a) (Fin b) = rnd (a + b)"
| "fp_add rnd NaN b = NaN"
| "fp_add rnd a NaN = NaN"
| "fp_add rnd PosInf NegInf = NaN"
| "fp_add rnd NegInf PosInf = NaN"
| "fp_add rnd PosInf b = PosInf"
| "fp_add rnd a PosInf = PosInf"
| "fp_add rnd NegInf b = NegInf"
| "fp_add rnd a NegInf = NegInf"

fun fp_neg :: "fp \<Rightarrow> fp" where
  "fp_neg (Fin a) = Fin (- a)"
| "fp_neg PosInf = NegInf"
| "fp_neg NegInf = PosInf"
| "fp_neg NaN = NaN"

definition fp_sub :: "rounding \<Rightarrow> fp \<Rightarrow> fp \<Rightarrow> fp" where
  "fp_sub rnd a b = fp_add rnd a (fp_neg b)"

fun fp_sign :: "fp \<Rightarrow> int" where
  "fp_sign (Fin a) = (if a < 0 then - 1 else if a = 0 then 0 else 1)"
| "fp_sign PosInf = 1"
| "fp_sign NegInf = - 1"
| "fp_sign NaN = 0"

definition fp_inf :: "int \<Rightarrow> fp" where
  "fp_inf s = (if s < 0 then NegInf else if s = 0 then NaN else PosInf)"

fun fp_mul :: "rounding \<Rightarrow> fp \<Rightarrow> fp \<Rightarrow> fp" where
  "fp_mul rnd (Fin a) (Fin b) = rnd (a * b)"
| "fp_mul rnd NaN b = NaN"
| "fp_mul rnd a NaN = NaN"
| "fp_mul rnd a b = fp_inf (fp_sign a * fp_sign b)"

fun fp_div :: "rounding \<Rightarrow> fp \<Rightarrow> fp \<Rightarrow> fp" where
  "fp_div rnd (Fin a) (Fin b) = (if b = 0 then fp_inf (fp_sign (Fin a)) else rnd (a / b))"
| "fp_div rnd NaN b = NaN"
| "fp_div rnd a NaN = NaN"
| "fp_div rnd (Fin a) b = Fin 0"
| "fp_div rnd a (Fin b) = fp_inf (if b < 0 then - fp_sign a else fp_sign a)"
| "fp_div rnd a b = NaN"

fun fp_abs :: "fp \<Rightarrow> fp" where
  "fp_abs (Fin a) = Fin \<bar>a\<bar>"
| "fp_abs PosInf = PosInf"
| "fp_abs NegInf = PosInf"
| "fp_abs NaN = NaN"

text \<open>Comparison with \<open>==\<close>, and the templates of the standard library with their treatment of incomparable values.\<close>

definition fp_eq :: "fp \<Rightarrow> fp \<Rightarrow> bool" where
  "fp_eq a b \<longleftrightarrow> a \<noteq> NaN \<and> a = b"

definition fp_max :: "fp \<Rightarrow> fp \<Rightarrow> fp" where
  "fp_max a b = (if fp_lt a b then b else a)"

definition fp_min :: "fp \<Rightarrow> fp \<Rightarrow> fp" where
  "fp_min a b = (if fp_lt b a then b else a)"

definition fp_clamp :: "fp \<Rightarrow> fp \<Rightarrow> fp \<Rightarrow> fp" where
  "fp_clamp v lo hi = (if fp_lt v lo then lo else if fp_lt hi v then hi else v)"

text \<open>\<open>static_cast<int>(std::round(x))\<close>: halves away from zero. It is applied to finite values below two thousand.\<close>

fun fp_round :: "fp \<Rightarrow> int" where
  "fp_round (Fin a) = (if a < 0 then - \<lfloor>1 / 2 - a\<rfloor> else \<lfloor>a + 1 / 2\<rfloor>)"
| "fp_round _ = 0"

text \<open>What IEEE 754 promises of rounding to nearest: it is monotone, keeps 0 and 1, and never yields a NaN.\<close>

definition rounding_ok :: "rounding \<Rightarrow> bool" where
  "rounding_ok rnd \<longleftrightarrow> (\<forall>a b. a \<le> b \<longrightarrow> fp_le (rnd a) (rnd b)) \<and> rnd 0 = Fin 0 \<and> rnd 1 = Fin 1 \<and> (\<forall>a. rnd a \<noteq> NaN)"

lemma rounding_exact: "rounding_ok Fin"
  by (simp add: rounding_ok_def)

definition unit_interval :: "fp \<Rightarrow> bool" where
  "unit_interval x \<longleftrightarrow> isfinite x \<and> \<not> fp_lt x (Fin 0) \<and> \<not> fp_lt (Fin 1) x"

lemma clamp_unit: "v \<noteq> NaN \<Longrightarrow> unit_interval (fp_clamp v (Fin 0) (Fin 1))"
  by (cases v) (auto simp: unit_interval_def fp_clamp_def)

lemma div_not_NaN: "rounding_ok rnd \<Longrightarrow> isfinite a \<Longrightarrow> isfinite b \<Longrightarrow> fp_lt (Fin 0) b \<Longrightarrow> fp_div rnd a b \<noteq> NaN"
  by (cases a; cases b) (auto simp: rounding_ok_def)

end
