(* ===== verification/Generated_Outline.thy ===== *)
theory Generated_Outline
  imports Outline_Text Fp_Arith
begin

text \<open>
  The outline generator (\<^verbatim>\<open>src/src/worker/engine/pdf/generated_outline.cpp\<close>): joining text lines, reading a printed table of
  contents, estimating the body style, picking headings, matching them with the contents, and assembling the tree. Lines are
  referred to by their index, as the code refers to them by address.
\<close>

section \<open>Tuning constants\<close>

definition HeaderBoundaryRatio :: real where "HeaderBoundaryRatio = 9 / 100"
definition FooterBoundaryRatio :: real where "FooterBoundaryRatio = 93 / 100"
definition FontSizeToleranceRatio :: real where "FontSizeToleranceRatio = 5 / 100"
definition MinMatchingFontSizeRatio :: real where "MinMatchingFontSizeRatio = 95 / 100"
definition BoldFractionTolerance :: real where "BoldFractionTolerance = 3 / 10"
definition MaxLineOverlapEm :: real where "MaxLineOverlapEm = 5 / 10"
definition MaxLineGapEm :: real where "MaxLineGapEm = 8 / 10"
definition LeftAlignmentTolerancePoints :: real where "LeftAlignmentTolerancePoints = 5"
definition RightAlignmentToleranceEm :: real where "RightAlignmentToleranceEm = 35 / 100"
definition DoubledCenterAlignmentTolerancePoints :: real where "DoubledCenterAlignmentTolerancePoints = 10"
definition MaxContentsComparisons :: nat where [limits]: "MaxContentsComparisons = 2000000"
definition ColumnBoundaryRatio :: real where "ColumnBoundaryRatio = 5 / 10"
definition MinColumnTitleBytes :: nat where [limits]: "MinColumnTitleBytes = 9"
definition MinRightColumnTitles :: nat where [limits]: "MinRightColumnTitles = 3"
definition MaxPageNumberOverlapPoints :: real where "MaxPageNumberOverlapPoints = 2"
definition MaxPageNumberGapRatio :: real where "MaxPageNumberGapRatio = 4 / 10"
definition DoubledPageNumberCenterToleranceEm :: real where "DoubledPageNumberCenterToleranceEm = 15 / 10"
definition MaxWrappedLineTopGapEm :: real where "MaxWrappedLineTopGapEm = 14 / 10"
definition ContentsSearchPageLimit :: int where [limits]: "ContentsSearchPageLimit = 64"
definition FontSizeBucketsPerPoint :: real where "FontSizeBucketsPerPoint = 2"
definition MaxBodyBoldFraction :: real where "MaxBodyBoldFraction = 5 / 10"
definition MinBodySampleBytes :: nat where [limits]: "MinBodySampleBytes = 25"
definition MinRepeatedMarginPages :: nat where [limits]: "MinRepeatedMarginPages = 3"
definition MinHeadingSizeRatio :: real where "MinHeadingSizeRatio = 122 / 100"
definition MinHeadingBoldFraction :: real where "MinHeadingBoldFraction = 7 / 10"
definition MinBoldHeadingSizeRatio :: real where "MinBoldHeadingSizeRatio = 105 / 100"
definition MinChapterSizeRatio :: real where "MinChapterSizeRatio = 18 / 10"
definition MaxChapterTitleTopGapEm :: real where "MaxChapterTitleTopGapEm = 15 / 10"
definition MaxFontSizePoints :: real where "MaxFontSizePoints = 1000"
definition MaxOutlineLevel :: int where [limits]: "MaxOutlineLevel = 7"
definition MinMatchedContentsTitles :: nat where [limits]: "MinMatchedContentsTitles = 3"
definition MinPageOffsetAnchors :: nat where [limits]: "MinPageOffsetAnchors = 2"
definition PageOffsetAgreementNumerator :: nat where [limits]: "PageOffsetAgreementNumerator = 3"
definition PageOffsetAgreementDenominator :: nat where [limits]: "PageOffsetAgreementDenominator = 5"
definition MaxContentsPageDistance :: int where [limits]: "MaxContentsPageDistance = 1"
definition UnspecifiedContentsPageDistance :: int where [limits]: "UnspecifiedContentsPageDistance = 1"
definition MinSelectedContentsHeadings :: nat where [limits]: "MinSelectedContentsHeadings = 3"
definition DestinationTopMarginPoints :: real where "DestinationTopMarginPoints = 12"

section \<open>Lines\<close>

record OutlineLine =
  ol_text :: string
  ol_fontFamily :: string
  ol_size :: fp
  ol_boldFraction :: fp
  ol_monospaced :: bool
  ol_page :: int
  ol_left :: fp
  ol_top :: fp
  ol_right :: fp
  ol_bottom :: fp
  ol_pageWidth :: fp
  ol_pageHeight :: fp
  ol_viewport :: Viewport

text \<open>The two exceptions of the generator.\<close>

datatype OutlineError = ContentsWorkLimitExceeded | NodeLimitExceeded

definition isMarginLine :: "rounding \<Rightarrow> OutlineLine \<Rightarrow> bool" where
  "isMarginLine rnd line \<longleftrightarrow> fp_lt (ol_top line) (fp_mul rnd (ol_pageHeight line) (rnd HeaderBoundaryRatio))
     \<or> fp_lt (fp_mul rnd (ol_pageHeight line) (rnd FooterBoundaryRatio)) (ol_bottom line)"

definition hasMatchingStyle :: "rounding \<Rightarrow> OutlineLine \<Rightarrow> OutlineLine \<Rightarrow> bool" where
  "hasMatchingStyle rnd a b \<longleftrightarrow> ol_fontFamily a = ol_fontFamily b
     \<and> fp_le (fp_abs (fp_sub rnd (ol_size a) (ol_size b))) (fp_mul rnd (fp_max (ol_size a) (ol_size b)) (rnd FontSizeToleranceRatio))
     \<and> fp_lt (fp_abs (fp_sub rnd (ol_boldFraction a) (ol_boldFraction b))) (rnd BoldFractionTolerance)"

definition canJoinLines :: "rounding \<Rightarrow> OutlineLine \<Rightarrow> OutlineLine \<Rightarrow> bool" where
  "canJoinLines rnd a b \<longleftrightarrow>
     \<not> (ol_page a \<noteq> ol_page b \<or> \<not> hasMatchingStyle rnd a b
        \<or> fp_lt (ol_top b) (fp_sub rnd (ol_bottom a) (fp_mul rnd (ol_size a) (rnd MaxLineOverlapEm)))
        \<or> fp_lt (fp_mul rnd (ol_size a) (rnd MaxLineGapEm)) (fp_sub rnd (ol_top b) (ol_bottom a)))
     \<and> (fp_lt (fp_abs (fp_sub rnd (ol_left a) (ol_left b))) (rnd LeftAlignmentTolerancePoints)
        \<or> fp_lt (fp_abs (fp_sub rnd (ol_right a) (ol_right b))) (fp_mul rnd (ol_size a) (rnd RightAlignmentToleranceEm))
        \<or> fp_lt (fp_abs (fp_sub rnd (fp_add rnd (ol_left a) (ol_right a)) (fp_add rnd (ol_left b) (ol_right b)))) (rnd DoubledCenterAlignmentTolerancePoints))"

definition appendLine :: "OutlineLine \<Rightarrow> OutlineLine \<Rightarrow> OutlineLine" where
  "appendLine target next =
     target\<lparr>ol_text := ol_text target @ '' '' @ trimText (ol_text next), ol_left := fp_min (ol_left target) (ol_left next),
       ol_right := fp_max (ol_right target) (ol_right next), ol_bottom := ol_bottom next\<rparr>"

section \<open>The printed table of contents\<close>

record ContentsEntry =
  te_line :: OutlineLine
  te_printedPage :: "int option"
  te_level :: int

definition page_numbers :: "OutlineLine list \<Rightarrow> int list \<Rightarrow> int \<Rightarrow> OutlineLine list" where
  "page_numbers lines contentsPages p =
     filter (\<lambda>line. ol_page line = p \<and> p \<in> set contentsPages \<and> parsePageNumber (ol_text line) \<noteq> None) lines"

definition right_column_titles :: "rounding \<Rightarrow> OutlineLine list \<Rightarrow> int list \<Rightarrow> int \<Rightarrow> nat" where
  "right_column_titles rnd lines contentsPages p =
     length (filter (\<lambda>line. ol_page line = p \<and> p \<in> set contentsPages \<and> parsePageNumber (ol_text line) = None
       \<and> fp_lt (fp_mul rnd (ol_pageWidth line) (rnd ColumnBoundaryRatio)) (ol_left line) \<and> length (ol_text line) \<ge> MinColumnTitleBytes
       \<and> \<not> isMarginLine rnd line) lines)"

definition off_baseline :: "rounding \<Rightarrow> bool \<Rightarrow> OutlineLine \<Rightarrow> OutlineLine \<Rightarrow> bool" where
  "off_baseline rnd twoColumns end_line other \<longleftrightarrow>
     (let boundary = fp_mul rnd (ol_pageWidth end_line) (rnd ColumnBoundaryRatio) in
      (twoColumns \<and> fp_lt (ol_left end_line) boundary \<and> fp_lt boundary (ol_left other))
      \<or> fp_lt (ol_left other) (fp_sub rnd (ol_right end_line) (rnd MaxPageNumberOverlapPoints))
      \<or> fp_lt (fp_mul rnd (ol_pageWidth end_line) (rnd MaxPageNumberGapRatio)) (fp_sub rnd (ol_left other) (ol_right end_line))
      \<or> fp_lt (fp_mul rnd (ol_size end_line) (rnd DoubledPageNumberCenterToleranceEm))
           (fp_abs (fp_sub rnd (fp_add rnd (ol_top other) (ol_bottom other)) (fp_add rnd (ol_top end_line) (ol_bottom end_line)))))"

text \<open>The loops count their comparisons in \<open>n\<close> and give up above the work bound.\<close>

fun page_search :: "rounding \<Rightarrow> bool \<Rightarrow> OutlineLine \<Rightarrow> OutlineLine list \<Rightarrow> OutlineLine option \<Rightarrow> nat \<Rightarrow> OutlineError + (OutlineLine option \<times> nat)" where
  "page_search rnd twoColumns end_line [] closest n = Inr (closest, n)"
| "page_search rnd twoColumns end_line (other # others) closest n =
     (if n + 1 > MaxContentsComparisons then Inl ContentsWorkLimitExceeded
      else page_search rnd twoColumns end_line others
        (if off_baseline rnd twoColumns end_line other then closest
         else case closest of None \<Rightarrow> Some other | Some c \<Rightarrow> if fp_lt (ol_left other) (ol_left c) then Some other else closest) (n + 1))"

definition findPage :: "rounding \<Rightarrow> OutlineLine list \<Rightarrow> bool \<Rightarrow> OutlineLine \<Rightarrow> nat \<Rightarrow> OutlineError + (int option \<times> nat)" where
  "findPage rnd numbers twoColumns end_line n =
     (case page_search rnd twoColumns end_line numbers None n of
        Inl e \<Rightarrow> Inl e
      | Inr (closest, n1) \<Rightarrow> Inr (case closest of None \<Rightarrow> None | Some c \<Rightarrow> parsePageNumber (ol_text c), n1))"

fun next_search :: "rounding \<Rightarrow> OutlineLine \<Rightarrow> int \<Rightarrow> (nat \<times> OutlineLine) list \<Rightarrow> nat \<Rightarrow> OutlineError + ((nat \<times> OutlineLine) option \<times> nat)" where
  "next_search rnd end_line p [] n = Inr (None, n)"
| "next_search rnd end_line p ((j, candidate) # others) n =
     (if ol_page candidate \<noteq> p then Inr (None, n)
      else if n + 1 > MaxContentsComparisons then Inl ContentsWorkLimitExceeded
      else if fp_lt (fp_mul rnd (ol_size end_line) (rnd MaxLineGapEm)) (fp_sub rnd (ol_top candidate) (ol_bottom end_line))
        \<or> fp_lt (fp_mul rnd (ol_size end_line) (rnd MaxWrappedLineTopGapEm)) (fp_sub rnd (ol_top candidate) (ol_top end_line)) then Inr (None, n + 1)
      else if fp_le (ol_top candidate) (ol_top end_line)
        \<or> fp_le (rnd LeftAlignmentTolerancePoints) (fp_abs (fp_sub rnd (ol_left candidate) (ol_left end_line)))
        \<or> parsePageNumber (ol_text candidate) \<noteq> None then next_search rnd end_line p others (n + 1)
      else Inr (Some (j, candidate), n + 1))"

text \<open>Joining the lines of a wrapped title; every round makes the title longer.\<close>

function wrap_loop :: "rounding \<Rightarrow> OutlineLine list \<Rightarrow> bool \<Rightarrow> (nat \<times> OutlineLine) list \<Rightarrow> OutlineLine \<Rightarrow> OutlineLine \<Rightarrow> int option \<Rightarrow> nat list \<Rightarrow> nat
  \<Rightarrow> OutlineError + (OutlineLine \<times> int option \<times> nat list \<times> nat)" where
  "wrap_loop rnd numbers twoColumns following title end_line printed consumed n =
     (if printed \<noteq> None \<or> length (ol_text title) \<ge> MaxGeneratedHeadingBytes then Inr (title, printed, consumed, n)
      else case next_search rnd end_line (ol_page title) following n of
        Inl e \<Rightarrow> Inl e
      | Inr (None, n1) \<Rightarrow> Inr (title, printed, consumed, n1)
      | Inr (Some (j, next), n1) \<Rightarrow>
        if \<not> canJoinLines rnd end_line next
          \<or> fp_lt (fp_mul rnd (ol_size end_line) (rnd MaxWrappedLineTopGapEm)) (fp_sub rnd (ol_top next) (ol_top end_line))
        then Inr (title, printed, consumed, n1)
        else case takeTrailingPage (trimText (ol_text next)) of (continuation, printed1) \<Rightarrow>
          (case (if printed1 \<noteq> None then Inr (printed1, n1) else findPage rnd numbers twoColumns next n1) of
             Inl e \<Rightarrow> Inl e
           | Inr (printed2, n2) \<Rightarrow>
             wrap_loop rnd numbers twoColumns following (title\<lparr>ol_text := ol_text title @ '' '' @ continuation\<rparr>) next printed2 (j # consumed) n2))"
  by pat_completeness auto
termination
  by (relation "measure (\<lambda>(rnd, numbers, twoColumns, following, title, end_line, printed, consumed, n). MaxGeneratedHeadingBytes - length (ol_text title))") auto

fun contents_loop :: "UnicodeTables \<Rightarrow> rounding \<Rightarrow> OutlineLine list \<Rightarrow> int list \<Rightarrow> (nat \<times> OutlineLine) list \<Rightarrow> nat list \<Rightarrow> nat \<Rightarrow> ContentsEntry list
  \<Rightarrow> OutlineError + ContentsEntry list" where
  "contents_loop U rnd lines contentsPages [] consumed n result = Inr result"
| "contents_loop U rnd lines contentsPages ((i, line) # following) consumed n result =
     (if i \<in> set consumed \<or> ol_page line \<notin> set contentsPages \<or> isContentsLabel (ol_text line) \<or> isMarginLine rnd line \<or> parsePageNumber (ol_text line) \<noteq> None
      then contents_loop U rnd lines contentsPages following consumed n result
      else (case takeTrailingPage (trimText (ol_text line)) of (text0, printed0) \<Rightarrow>
        let title = line\<lparr>ol_text := text0\<rparr>;
            numbers = page_numbers lines contentsPages (ol_page line);
            twoColumns = (right_column_titles rnd lines contentsPages (ol_page line) \<ge> MinRightColumnTitles) in
        (case (if printed0 \<noteq> None then Inr (printed0, n) else findPage rnd numbers twoColumns title n) of
          Inl e \<Rightarrow> Inl e
        | Inr (printed1, n1) \<Rightarrow>
          (case wrap_loop rnd numbers twoColumns following title title printed1 consumed n1 of
             Inl e \<Rightarrow> Inl e
           | Inr (title1, printed2, consumed1, n2) \<Rightarrow>
             let result1 = (if length (ol_text title1) \<le> MaxGeneratedHeadingBytes \<and> headingKey U (ol_text title1) \<noteq> []
                            then result @ [\<lparr>te_line = title1, te_printedPage = printed2, te_level = 0\<rparr>] else result) in
             if length result1 > MaxGeneratedOutlineNodes then Inl NodeLimitExceeded
             else contents_loop U rnd lines contentsPages following consumed1 n2 result1))))"

definition readContents :: "UnicodeTables \<Rightarrow> rounding \<Rightarrow> OutlineLine list \<Rightarrow> int list \<Rightarrow> OutlineError + ContentsEntry list" where
  "readContents U rnd lines contentsPages = contents_loop U rnd lines contentsPages (enumerate 0 lines) [] 0 []"

section \<open>Sizes and styles\<close>

text \<open>A stable sort for a strict order, and ordered maps of counters.\<close>

fun insert_by :: "('a \<Rightarrow> 'a \<Rightarrow> bool) \<Rightarrow> 'a \<Rightarrow> 'a list \<Rightarrow> 'a list" where
  "insert_by lt x [] = [x]"
| "insert_by lt x (y # ys) = (if lt y x then y # insert_by lt x ys else x # y # ys)"

definition stable_sort :: "('a \<Rightarrow> 'a \<Rightarrow> bool) \<Rightarrow> 'a list \<Rightarrow> 'a list" where
  "stable_sort lt xs = foldr (insert_by lt) xs []"

fun bump :: "('k \<Rightarrow> 'k \<Rightarrow> bool) \<Rightarrow> 'k \<Rightarrow> nat \<Rightarrow> ('k \<times> nat) list \<Rightarrow> ('k \<times> nat) list" where
  "bump lt k n [] = [(k, n)]"
| "bump lt k n ((k', m) # rest) =
     (if k = k' then (k', m + n) # rest else if lt k k' then (k, n) # (k', m) # rest else (k', m) # bump lt k n rest)"

fun str_less :: "string \<Rightarrow> string \<Rightarrow> bool" where
  "str_less s [] = False"
| "str_less [] (b # bs) = True"
| "str_less (a # as) (b # bs) = (of_char a < (of_char b :: nat) \<or> a = b \<and> str_less as bs)"

fun distinct_sizes :: "rounding \<Rightarrow> fp list \<Rightarrow> fp list \<Rightarrow> fp list" where
  "distinct_sizes rnd acc [] = acc"
| "distinct_sizes rnd acc (s # sizes) =
     distinct_sizes rnd
       (if acc = [] \<or> fp_lt (fp_mul rnd (last acc) (rnd FontSizeToleranceRatio)) (fp_sub rnd (last acc) s) then acc @ [s] else acc) sizes"

definition collectSizes :: "rounding \<Rightarrow> fp list \<Rightarrow> fp list" where
  "collectSizes rnd sizes = distinct_sizes rnd [] (stable_sort (\<lambda>a b. fp_lt b a) sizes)"

fun rank_loop :: "rounding \<Rightarrow> fp \<Rightarrow> int \<Rightarrow> fp list \<Rightarrow> int" where
  "rank_loop rnd s i [] = i"
| "rank_loop rnd s i (t # sizes) = (if fp_le (fp_mul rnd t (rnd MinMatchingFontSizeRatio)) s then i else rank_loop rnd s (i + 1) sizes)"

definition rankSize :: "rounding \<Rightarrow> fp \<Rightarrow> fp list \<Rightarrow> int" where
  "rankSize rnd s sizes = rank_loop rnd s 0 sizes"

record Candidate =
  cd_line :: OutlineLine
  cd_chapter :: bool
  cd_level :: int

record BodyStyle =
  bs_fontFamily :: string
  bs_fontSize :: fp

definition findRepeatedMargins :: "rounding \<Rightarrow> OutlineLine list \<Rightarrow> string list" where
  "findRepeatedMargins rnd lines =
     (let margins = filter (isMarginLine rnd) lines in
      filter (\<lambda>title. length (remdups (map ol_page (filter (\<lambda>line. stripEdgeNumbers (ol_text line) = title) margins))) \<ge> MinRepeatedMarginPages)
        (remdups (map (\<lambda>line. stripEdgeNumbers (ol_text line)) margins)))"

type_synonym Styles = "((string \<times> int) \<times> nat) list"

definition style_less :: "string \<times> int \<Rightarrow> string \<times> int \<Rightarrow> bool" where
  "style_less a b \<longleftrightarrow> str_less (fst a) (fst b) \<or> fst a = fst b \<and> snd a < snd b"

definition add_style :: "rounding \<Rightarrow> OutlineLine \<Rightarrow> Styles \<Rightarrow> Styles" where
  "add_style rnd line styles =
     bump style_less (ol_fontFamily line, fp_round (fp_mul rnd (ol_size line) (rnd FontSizeBucketsPerPoint))) (length (ol_text line)) styles"

fun selectDominantStyle :: "rounding \<Rightarrow> Styles \<Rightarrow> BodyStyle \<times> nat \<Rightarrow> BodyStyle \<times> nat" where
  "selectDominantStyle rnd [] best = best"
| "selectDominantStyle rnd ((style, count) # styles) (body, mostCharacters) =
     selectDominantStyle rnd styles
       (if count > mostCharacters
        then (\<lparr>bs_fontFamily = fst style, bs_fontSize = fp_div rnd (Fin (of_int (snd style))) (rnd FontSizeBucketsPerPoint)\<rparr>, count)
        else (body, mostCharacters))"

definition body_sample :: "rounding \<Rightarrow> int list \<Rightarrow> OutlineLine \<Rightarrow> bool" where
  "body_sample rnd contentsPages line \<longleftrightarrow> ol_page line \<notin> set contentsPages \<and> \<not> ol_monospaced line
     \<and> fp_lt (ol_boldFraction line) (rnd MaxBodyBoldFraction) \<and> length (ol_text line) \<ge> MinBodySampleBytes \<and> \<not> isMarginLine rnd line"

definition estimateBodyStyle :: "rounding \<Rightarrow> OutlineLine list \<Rightarrow> int list \<Rightarrow> BodyStyle" where
  "estimateBodyStyle rnd lines contentsPages =
     (let styles = fold (add_style rnd) (filter (body_sample rnd contentsPages) lines) [];
          first = selectDominantStyle rnd styles (\<lparr>bs_fontFamily = [], bs_fontSize = Fin 0\<rparr>, 0) in
      if fp_eq (bs_fontSize (fst first)) (Fin 0)
      then let styles1 = fold (add_style rnd) (filter (\<lambda>line. \<not> ol_monospaced line \<and> ol_page line \<notin> set contentsPages) lines) styles
           in fst (selectDominantStyle rnd styles1 first)
      else fst first)"

section \<open>Heading candidates\<close>

definition isHeading :: "rounding \<Rightarrow> int list \<Rightarrow> BodyStyle \<Rightarrow> string list \<Rightarrow> OutlineLine \<Rightarrow> bool" where
  "isHeading rnd contentsPages body repeatedMargins line \<longleftrightarrow>
     (if ol_page line \<in> set contentsPages \<or> ol_monospaced line \<or> ol_text line = [] \<or> isCaption (ol_text line) \<or> isContentsLabel (ol_text line) then False
      else if isMarginLine rnd line \<and> stripEdgeNumbers (ol_text line) \<in> set repeatedMargins then False
      else fp_le (fp_mul rnd (bs_fontSize body) (rnd MinHeadingSizeRatio)) (ol_size line)
        \<or> (fp_le (rnd MinHeadingBoldFraction) (ol_boldFraction line) \<and> fp_le (bs_fontSize body) (ol_size line)
           \<and> (ol_fontFamily line \<noteq> bs_fontFamily body \<or> fp_le (fp_mul rnd (bs_fontSize body) (rnd MinBoldHeadingSizeRatio)) (ol_size line))))"

text \<open>Whether \<open>next\<close> is the title that belongs to the displayed chapter number \<open>heading\<close>.\<close>

definition chapter_title :: "rounding \<Rightarrow> (OutlineLine \<Rightarrow> bool) \<Rightarrow> BodyStyle \<Rightarrow> OutlineLine \<Rightarrow> OutlineLine \<Rightarrow> bool" where
  "chapter_title rnd headingLine body heading next \<longleftrightarrow>
     headingLine next \<and> parsePageNumber (ol_text next) = None \<and> ol_page heading = ol_page next \<and> ol_fontFamily heading = ol_fontFamily next
     \<and> fp_le (fp_mul rnd (bs_fontSize body) (rnd MinChapterSizeRatio)) (ol_size next)
     \<and> fp_le (fp_sub rnd (ol_bottom heading) (fp_mul rnd (ol_size heading) (rnd MaxLineOverlapEm))) (ol_top next)
     \<and> fp_lt (fp_sub rnd (ol_top next) (ol_bottom heading)) (fp_mul rnd (ol_size heading) (rnd MaxChapterTitleTopGapEm))
     \<and> (fp_lt (fp_abs (fp_sub rnd (ol_right heading) (ol_right next))) (ol_size heading)
        \<or> fp_lt (fp_abs (fp_sub rnd (ol_left heading) (ol_left next))) (ol_size heading))"

definition join_chapter :: "rounding \<Rightarrow> (OutlineLine \<Rightarrow> bool) \<Rightarrow> BodyStyle \<Rightarrow> OutlineLine \<Rightarrow> OutlineLine list \<Rightarrow> OutlineLine \<times> bool \<times> OutlineLine list" where
  "join_chapter rnd headingLine body heading rest =
     (case rest of
        [] \<Rightarrow> (heading, False, rest)
      | next # rest1 \<Rightarrow>
        if parsePageNumber (ol_text heading) \<noteq> None \<and> fp_le (fp_mul rnd (bs_fontSize body) (rnd MinChapterSizeRatio)) (ol_size heading)
          \<and> chapter_title rnd headingLine body heading next
        then (appendLine (heading\<lparr>ol_size := ol_size next\<rparr>) next, True, rest1) else (heading, False, rest))"

fun join_lines :: "rounding \<Rightarrow> (OutlineLine \<Rightarrow> bool) \<Rightarrow> OutlineLine \<Rightarrow> OutlineLine list \<Rightarrow> OutlineLine \<times> OutlineLine list" where
  "join_lines rnd headingLine heading [] = (heading, [])"
| "join_lines rnd headingLine heading (next # rest) =
     (if headingLine next \<and> canJoinLines rnd heading next then join_lines rnd headingLine (appendLine heading next) rest else (heading, next # rest))"

lemma join_lines_length: "join_lines rnd headingLine heading rest = (heading', rest') \<Longrightarrow> length rest' \<le> length rest"
  by (induction rnd headingLine heading rest rule: join_lines.induct) (auto split: if_splits)

lemma join_chapter_length: "join_chapter rnd headingLine body heading rest = (heading', ch, rest') \<Longrightarrow> length rest' \<le> length rest"
  by (auto simp: join_chapter_def split: list.splits if_splits)

function candidate_loop :: "UnicodeTables \<Rightarrow> rounding \<Rightarrow> (OutlineLine \<Rightarrow> bool) \<Rightarrow> BodyStyle \<Rightarrow> OutlineLine list \<Rightarrow> Candidate list \<Rightarrow> OutlineError + Candidate list" where
  "candidate_loop U rnd headingLine body [] result = Inr result"
| "candidate_loop U rnd headingLine body (line # rest) result =
     (if \<not> headingLine line then candidate_loop U rnd headingLine body rest result
      else
        case join_chapter rnd headingLine body (line\<lparr>ol_text := trimText (ol_text line)\<rparr>) rest of (heading1, chapter, rest1) \<Rightarrow>
        case join_lines rnd headingLine heading1 rest1 of (heading, rest2) \<Rightarrow>
          if length (ol_text heading) > MaxGeneratedHeadingBytes \<or> normalizeTitle (ol_text heading) = [] \<or> \<not> hasTitleLetters U (ol_text heading)
          then candidate_loop U rnd headingLine body rest2 result
          else
            let result1 = result @ [\<lparr>cd_line = heading, cd_chapter = chapter, cd_level = 0\<rparr>] in
            if length result1 > MaxGeneratedOutlineNodes then Inl NodeLimitExceeded else candidate_loop U rnd headingLine body rest2 result1)"
  by pat_completeness auto
termination
  by (relation "measure (\<lambda>(U, rnd, headingLine, body, lines, result). length lines)")
    (auto dest!: join_lines_length [OF sym] join_chapter_length [OF sym])

definition findHeadingCandidates :: "UnicodeTables \<Rightarrow> rounding \<Rightarrow> OutlineLine list \<Rightarrow> int list \<Rightarrow> BodyStyle \<Rightarrow> string list \<Rightarrow> OutlineError + Candidate list" where
  "findHeadingCandidates U rnd lines contentsPages body repeatedMargins =
     candidate_loop U rnd (isHeading rnd contentsPages body repeatedMargins) body lines []"

section \<open>Matching with the contents\<close>

definition hasReliablePageOffset :: "nat \<Rightarrow> nat \<Rightarrow> bool" where
  "hasReliablePageOffset agreeingAnchors totalAnchors \<longleftrightarrow> agreeingAnchors \<ge> MinPageOffsetAnchors
     \<and> agreeingAnchors * PageOffsetAgreementDenominator \<ge> totalAnchors * PageOffsetAgreementNumerator"

text \<open>Titles with the indices of the entries that have them: the index borrows the entries, whose levels are assigned later.\<close>

type_synonym ByTitle = "(string \<times> nat list) list"

fun index_add :: "string \<Rightarrow> nat \<Rightarrow> ByTitle \<Rightarrow> ByTitle" where
  "index_add key i [] = [(key, [i])]"
| "index_add key i ((key', is) # rest) = (if key = key' then (key', is @ [i]) # rest else (key', is) # index_add key i rest)"

definition index_lines :: "UnicodeTables \<Rightarrow> OutlineLine list \<Rightarrow> ByTitle" where
  "index_lines U lines = fold (\<lambda>(i, line). index_add (headingKey U (ol_text line)) i) (enumerate 0 lines) []"

definition indexContentsEntries :: "UnicodeTables \<Rightarrow> ContentsEntry list \<Rightarrow> ByTitle" where
  "indexContentsEntries U entries = index_lines U (map te_line entries)"

record ContentsPageMapping =
  pm_pageOffset :: int
  pm_agreeingAnchors :: nat
  pm_totalAnchors :: nat
  pm_matchedTitles :: nat

text \<open>The offset a title contributes, when it is unique in the contents and in the body and has a printed page.\<close>

definition anchor_offset :: "Candidate list \<Rightarrow> ContentsEntry list \<Rightarrow> nat list \<Rightarrow> nat list \<Rightarrow> int option" where
  "anchor_offset candidates entries es bs =
     (case (es, bs) of
        ([e], [b]) \<Rightarrow> map_option (\<lambda>printed. ol_page (cd_line (candidates ! b)) - printed) (te_printedPage (entries ! e))
      | _ \<Rightarrow> None)"

fun anchor_loop :: "Candidate list \<Rightarrow> ContentsEntry list \<Rightarrow> ByTitle \<Rightarrow> ByTitle \<Rightarrow> (int \<times> nat) list \<Rightarrow> ContentsPageMapping \<Rightarrow> (int \<times> nat) list \<times> ContentsPageMapping" where
  "anchor_loop candidates entries bodyTitles [] offsets mapping = (offsets, mapping)"
| "anchor_loop candidates entries bodyTitles ((title, es) # titles) offsets mapping =
     (case map_of bodyTitles title of
        None \<Rightarrow> anchor_loop candidates entries bodyTitles titles offsets mapping
      | Some bs \<Rightarrow>
        let mapping1 = mapping\<lparr>pm_matchedTitles := pm_matchedTitles mapping + 1\<rparr> in
        (case anchor_offset candidates entries es bs of
           None \<Rightarrow> anchor_loop candidates entries bodyTitles titles offsets mapping1
         | Some offset \<Rightarrow>
           anchor_loop candidates entries bodyTitles titles (bump (<) offset 1 offsets) (mapping1\<lparr>pm_totalAnchors := pm_totalAnchors mapping1 + 1\<rparr>)))"

fun max_count :: "'k \<times> nat \<Rightarrow> ('k \<times> nat) list \<Rightarrow> 'k \<times> nat" where
  "max_count best [] = best"
| "max_count best (x # xs) = max_count (if snd best < snd x then x else best) xs"

definition inferContentsPageMapping :: "UnicodeTables \<Rightarrow> Candidate list \<Rightarrow> ContentsEntry list \<Rightarrow> ByTitle \<Rightarrow> ContentsPageMapping" where
  "inferContentsPageMapping U candidates entries contentsByTitle =
     (case anchor_loop candidates entries (index_lines U (map cd_line candidates)) contentsByTitle []
        \<lparr>pm_pageOffset = 0, pm_agreeingAnchors = 0, pm_totalAnchors = 0, pm_matchedTitles = 0\<rparr> of
        ([], mapping) \<Rightarrow> mapping
      | (x # xs, mapping) \<Rightarrow> mapping\<lparr>pm_pageOffset := fst (max_count x xs), pm_agreeingAnchors := snd (max_count x xs)\<rparr>)"

definition hasReliableContentsMapping :: "ContentsPageMapping \<Rightarrow> bool" where
  "hasReliableContentsMapping mapping \<longleftrightarrow> pm_matchedTitles mapping \<ge> MinMatchedContentsTitles
     \<and> hasReliablePageOffset (pm_agreeingAnchors mapping) (pm_totalAnchors mapping)"

definition assignContentsLevels :: "rounding \<Rightarrow> ContentsEntry list \<Rightarrow> ContentsEntry list" where
  "assignContentsLevels rnd entries =
     (let sizes = collectSizes rnd (map (\<lambda>entry. ol_size (te_line entry)) entries) in
      map (\<lambda>entry. entry\<lparr>te_level := min MaxOutlineLevel (rankSize rnd (ol_size (te_line entry)) sizes)\<rparr>) entries)"

definition page_distance :: "Candidate \<Rightarrow> int \<Rightarrow> ContentsEntry \<Rightarrow> int" where
  "page_distance candidate pageOffset entry =
     (case te_printedPage entry of
        Some printed \<Rightarrow> \<bar>ol_page (cd_line candidate) - (printed + pageOffset)\<bar>
      | None \<Rightarrow> UnspecifiedContentsPageDistance)"

fun closest_entry :: "Candidate \<Rightarrow> int \<Rightarrow> ContentsEntry list \<Rightarrow> int \<Rightarrow> ContentsEntry option \<Rightarrow> ContentsEntry option" where
  "closest_entry candidate pageOffset [] closeness found = found"
| "closest_entry candidate pageOffset (entry # entries) closeness found =
     (let current = page_distance candidate pageOffset entry in
      if current < closeness then closest_entry candidate pageOffset entries current (Some entry) else closest_entry candidate pageOffset entries closeness found)"

fun match_loop :: "UnicodeTables \<Rightarrow> rounding \<Rightarrow> ContentsEntry list \<Rightarrow> ByTitle \<Rightarrow> int \<Rightarrow> fp \<Rightarrow> Candidate list \<Rightarrow> bool \<Rightarrow> Candidate list" where
  "match_loop U rnd entries contentsByTitle pageOffset chapterSize [] backMatter = []"
| "match_loop U rnd entries contentsByTitle pageOffset chapterSize (candidate # candidates) backMatter =
     (let key = headingKey U (ol_text (cd_line candidate)) in
      case map_of contentsByTitle key of
        None \<Rightarrow> match_loop U rnd entries contentsByTitle pageOffset chapterSize candidates backMatter
      | Some is \<Rightarrow>
        (case closest_entry candidate pageOffset (map ((!) entries) is) (MaxContentsPageDistance + 1) None of
           None \<Rightarrow> match_loop U rnd entries contentsByTitle pageOffset chapterSize candidates backMatter
         | Some entry \<Rightarrow>
           let display = fp_le (fp_mul rnd chapterSize (rnd MinMatchingFontSizeRatio)) (ol_size (cd_line candidate));
               backMatter1 = (if fp_lt (Fin 0) chapterSize \<and> display \<and> key \<in> {''index'', ''bibliography'', ''references'', ''glossary''} then True else backMatter);
               level = (if backMatter1 \<and> \<not> cd_chapter candidate \<and> display then 0 else te_level entry)
           in candidate\<lparr>cd_level := level\<rparr> # match_loop U rnd entries contentsByTitle pageOffset chapterSize candidates backMatter1))"

definition matchContentsHeadings :: "UnicodeTables \<Rightarrow> rounding \<Rightarrow> Candidate list \<Rightarrow> ContentsEntry list \<Rightarrow> ByTitle \<Rightarrow> int \<Rightarrow> Candidate list" where
  "matchContentsHeadings U rnd candidates entries contentsByTitle pageOffset =
     (let chapterSize = foldl (\<lambda>s candidate. if cd_chapter candidate then fp_max s (ol_size (cd_line candidate)) else s) (Fin 0) candidates in
      match_loop U rnd entries contentsByTitle pageOffset chapterSize candidates False)"

definition typography_level :: "UnicodeTables \<Rightarrow> rounding \<Rightarrow> bool \<Rightarrow> bool \<Rightarrow> fp list \<Rightarrow> Candidate \<Rightarrow> int" where
  "typography_level U rnd hasSections hasChapters sizes candidate =
     (let section = (if hasSections then 1 else 0); chapter = (if hasChapters then 1 else 0) in
      min MaxOutlineLevel
        (if isSectionTitle (ol_text (cd_line candidate)) then 0
         else if cd_chapter candidate then section
         else case parseHeading U (ol_text (cd_line candidate)) of
           Some number \<Rightarrow> int (length (hn_components number)) - 1 + section
         | None \<Rightarrow> rankSize rnd (ol_size (cd_line candidate)) sizes + section + chapter))"

definition assignTypographyLevels :: "UnicodeTables \<Rightarrow> rounding \<Rightarrow> Candidate list \<Rightarrow> Candidate list" where
  "assignTypographyLevels U rnd candidates =
     (let hasSections = list_ex (\<lambda>candidate. isSectionTitle (ol_text (cd_line candidate))) candidates;
          hasChapters = list_ex cd_chapter candidates;
          sizes = collectSizes rnd (map (\<lambda>candidate. ol_size (cd_line candidate))
            (filter (\<lambda>candidate. \<not> cd_chapter candidate \<and> \<not> isSectionTitle (ol_text (cd_line candidate))) candidates)) in
      map (\<lambda>candidate. candidate\<lparr>cd_level := typography_level U rnd hasSections hasChapters sizes candidate\<rparr>) candidates)"

section \<open>Preparation\<close>

definition malformed_line :: "rounding \<Rightarrow> OutlineLine \<Rightarrow> bool" where
  "malformed_line rnd line \<longleftrightarrow> ol_page line < 0 \<or> \<not> isfinite (ol_size line) \<or> fp_le (ol_size line) (Fin 0) \<or> fp_le (rnd MaxFontSizePoints) (ol_size line)
     \<or> \<not> isfinite (ol_pageWidth line) \<or> fp_le (ol_pageWidth line) (Fin 0) \<or> \<not> isfinite (ol_pageHeight line) \<or> fp_le (ol_pageHeight line) (Fin 0)
     \<or> \<not> isfinite (ol_left line) \<or> \<not> isfinite (ol_right line) \<or> \<not> isfinite (ol_top line) \<or> \<not> isfinite (ol_bottom line)
     \<or> fp_lt (ol_right line) (ol_left line) \<or> fp_lt (ol_bottom line) (ol_top line)"

definition line_before :: "OutlineLine \<Rightarrow> OutlineLine \<Rightarrow> bool" where
  "line_before a b \<longleftrightarrow>
     (if ol_page a \<noteq> ol_page b then ol_page a < ol_page b
      else if \<not> fp_eq (ol_top a) (ol_top b) then fp_lt (ol_top a) (ol_top b)
      else fp_lt (ol_left a) (ol_left b))"

definition prepareOutlineLines :: "rounding \<Rightarrow> OutlineLine list \<Rightarrow> OutlineLine list" where
  "prepareOutlineLines rnd lines = stable_sort line_before (filter (\<lambda>line. \<not> malformed_line rnd line) lines)"

definition findContentsPages :: "OutlineLine list \<Rightarrow> int list" where
  "findContentsPages lines =
     remdups (map ol_page (filter (\<lambda>line. ol_page line < ContentsSearchPageLimit \<and> isContentsLabel (ol_text line)) lines))"

section \<open>Assembly\<close>

definition normalizeDestinationY :: "rounding \<Rightarrow> fp \<Rightarrow> fp \<Rightarrow> fp" where
  "normalizeDestinationY rnd y heightPoints =
     (if isfinite heightPoints \<and> fp_lt (Fin DestinationTopMarginPoints) heightPoints
      then fp_max (Fin 0) (fp_sub rnd y (fp_div rnd (Fin DestinationTopMarginPoints) heightPoints)) else y)"

definition outline_node :: "rounding \<Rightarrow> OutlineLine \<Rightarrow> OutlineNode" where
  "outline_node rnd line =
     OutlineNode (ol_text line) False
       \<lparr>rl_external = False, rl_uri = [],
        rl_viewport =
          (if vp_page (ol_viewport line) < 0
           then \<lparr>vp_page = ol_page line, vp_normalizedX = fp_clamp (fp_div rnd (ol_left line) (ol_pageWidth line)) (Fin 0) (Fin 1),
                 vp_normalizedY = normalizeDestinationY rnd (fp_clamp (fp_div rnd (ol_top line) (ol_pageHeight line)) (Fin 0) (Fin 1)) (ol_pageHeight line),
                 vp_coordinateMask = 3\<rparr>
           else ol_viewport line),
        rl_valid = True\<rparr> []"

text \<open>
  The address of a node is its path of indices from the top-level list; a vector is addressed by the path of the node that owns
  it. The stack of parents has its top first.
\<close>

fun push_child :: "nat list \<Rightarrow> OutlineNode \<Rightarrow> OutlineNode list \<Rightarrow> OutlineNode list" where
  "push_child [] node nodes = nodes @ [node]"
| "push_child (i # path) node nodes =
     (if i < length nodes
      then nodes[i := OutlineNode (on_title (nodes ! i)) (on_open (nodes ! i)) (on_link (nodes ! i)) (push_child path node (on_children (nodes ! i)))]
      else nodes)"

fun vector_size :: "nat list \<Rightarrow> OutlineNode list \<Rightarrow> nat" where
  "vector_size [] nodes = length nodes"
| "vector_size (i # path) nodes = (if i < length nodes then vector_size path (on_children (nodes ! i)) else 0)"

record Parent =
  pa_level :: int
  pa_node :: "nat list"
  pa_number :: "nat list"

definition numeric_ancestor :: "nat list \<Rightarrow> nat list \<Rightarrow> bool" where
  "numeric_ancestor prefix number \<longleftrightarrow> length prefix < length number \<and> take (length prefix) number = prefix"

definition pop_parents :: "int \<Rightarrow> HeadingNumber option \<Rightarrow> Parent list \<Rightarrow> Parent list" where
  "pop_parents level number parents =
     (let parents1 = dropWhile (\<lambda>p. pa_level p \<ge> level) parents in
      case number of
        None \<Rightarrow> parents1
      | Some h \<Rightarrow> dropWhile (\<lambda>p. pa_number p \<noteq> [] \<and> \<not> numeric_ancestor (pa_number p) (hn_components h)) parents1)"

type_synonym Assembly = "OutlineNode list \<times> Parent list \<times> (int \<times> string) list"

definition assemble_step :: "UnicodeTables \<Rightarrow> rounding \<Rightarrow> Candidate \<Rightarrow> Assembly \<Rightarrow> Assembly" where
  "assemble_step U rnd candidate s =
     (case s of (result, parents, emitted) \<Rightarrow>
        let line = cd_line candidate; emission = (ol_page line, headingKey U (ol_text line)) in
        if emission \<in> set emitted then s
        else
          let number = parseHeading U (ol_text line);
              parents1 = pop_parents (cd_level candidate) number parents;
              siblings = (case parents1 of [] \<Rightarrow> [] | p # _ \<Rightarrow> pa_node p)
          in (push_child siblings (outline_node rnd line) result,
              \<lparr>pa_level = cd_level candidate, pa_node = siblings @ [vector_size siblings result],
               pa_number = (case number of None \<Rightarrow> [] | Some h \<Rightarrow> hn_components h)\<rparr> # parents1,
              emission # emitted))"

definition assembleOutline :: "UnicodeTables \<Rightarrow> rounding \<Rightarrow> Candidate list \<Rightarrow> OutlineNode list" where
  "assembleOutline U rnd candidates = fst (fold (assemble_step U rnd) candidates ([], [], []))"

section \<open>The pipeline\<close>

definition typography_outline :: "UnicodeTables \<Rightarrow> rounding \<Rightarrow> OutlineLine list \<Rightarrow> int list \<Rightarrow> string list \<Rightarrow> Candidate list \<Rightarrow> OutlineError + OutlineNode list" where
  "typography_outline U rnd lines contentsPages repeatedMargins candidates =
     (case (if contentsPages \<noteq> [] then findHeadingCandidates U rnd lines [] (estimateBodyStyle rnd lines []) repeatedMargins else Inr candidates) of
        Inl e \<Rightarrow> Inl e
      | Inr candidates1 \<Rightarrow> Inr (assembleOutline U rnd (assignTypographyLevels U rnd candidates1)))"

definition buildGeneratedOutline :: "UnicodeTables \<Rightarrow> rounding \<Rightarrow> OutlineLine list \<Rightarrow> OutlineError + OutlineNode list" where
  "buildGeneratedOutline U rnd lines0 =
     (let lines = prepareOutlineLines rnd lines0;
          contentsPages = findContentsPages lines;
          repeatedMargins = findRepeatedMargins rnd lines;
          body = estimateBodyStyle rnd lines contentsPages in
      case findHeadingCandidates U rnd lines contentsPages body repeatedMargins of
        Inl e \<Rightarrow> Inl e
      | Inr candidates \<Rightarrow>
        (case readContents U rnd lines contentsPages of
           Inl e \<Rightarrow> Inl e
         | Inr contents \<Rightarrow>
           let contentsByTitle = indexContentsEntries U contents;
               mapping = inferContentsPageMapping U candidates contents contentsByTitle;
               selected = matchContentsHeadings U rnd candidates (assignContentsLevels rnd contents) contentsByTitle (pm_pageOffset mapping) in
           if hasReliableContentsMapping mapping \<and> length selected \<ge> MinSelectedContentsHeadings
           then Inr (assembleOutline U rnd selected)
           else typography_outline U rnd lines contentsPages repeatedMargins candidates))"

end
