(* ===== verification/Outline_Cache.thy ===== *)
theory Outline_Cache
  imports Ocr_Cache Mu_Limits
begin

text \<open>
  The persistent cache of EPUB accelerators and outlines (\<^verbatim>\<open>src/src/plugin/caching/epub_cache.cpp\<close>) and the cache of generated PDF
  outlines on top of it (\<^verbatim>\<open>pdf_toc_cache.cpp\<close>): the versioned file format down to its bytes, with the bounds of reader and writer.
\<close>

section \<open>Constants and parameters\<close>

definition V3Magic :: u32 where [limits]: "V3Magic = 0x45504133"
definition V3Version :: u32 where [limits]: "V3Version = 3"
definition V3HeaderBytes :: nat where [limits]: "V3HeaderBytes = 16"
definition MaxAcceleratorBytes :: nat where [limits]: "MaxAcceleratorBytes = 512 * 1024"
definition MaxOutlineCompressedBytes :: nat where [limits]: "MaxOutlineCompressedBytes = 8 * 1024 * 1024"
definition MaxOutlineRawBytes :: nat where [limits]: "MaxOutlineRawBytes = 64 * 1024 * 1024"
definition MaxCacheBytes :: nat where [limits]: "MaxCacheBytes = V3HeaderBytes + 2 * 8 + MaxAcceleratorBytes + MaxOutlineCompressedBytes"
definition AcceleratorSection :: u32 where [limits]: "AcceleratorSection = 1"
definition OutlineSection :: u32 where [limits]: "OutlineSection = 2"
definition MaxOutlineDepth :: nat where [limits]: "MaxOutlineDepth = 64"
definition MaxOutlineNodes :: nat where [limits]: "MaxOutlineNodes = 50000"

text \<open>How a data stream writes and reads a double (eight bytes), and zlib, as in the other cache.\<close>

record OutlineFormat =
  of_writeDouble :: "fp \<Rightarrow> u8 list"
  of_readDouble :: "u8 list \<Rightarrow> fp"
  of_compress :: "u8 list \<Rightarrow> u8 list"
  of_uncompress :: "nat \<Rightarrow> u8 list \<Rightarrow> u8 list option"

section \<open>Byte strings\<close>

definition writeBytes :: "string \<Rightarrow> u8 list option" where
  "writeBytes s = (if length s \<ge> 2 ^ 32 then None else Some (be32 (of_nat (length s)) @ map byte_of s))"

definition readBytes :: "nat \<Rightarrow> u8 list \<Rightarrow> (string \<times> u8 list) option" where
  "readBytes maxBytes bs =
     (if length bs < 4 then None
      else
        let n = unat (read_be32 bs) in
        if n > maxBytes \<or> length (drop 4 bs) < n then None
        else Some (map (\<lambda>b. char_of (unat b)) (take n (drop 4 bs)), drop n (drop 4 bs)))"

definition flag :: "bool \<Rightarrow> u8" where
  "flag b = (if b then 1 else 0)"

section \<open>Writing outlines\<close>

definition list_header :: "nat \<Rightarrow> nat \<Rightarrow> OutlineNode list \<Rightarrow> u8 list option" where
  "list_header depth tot nodes =
     (if (nodes \<noteq> [] \<and> depth > MaxOutlineDepth) \<or> length nodes > MaxOutlineNodes - tot then None else Some (be32 (of_nat (length nodes))))"

text \<open>One node without its children.\<close>

definition write_node :: "OutlineFormat \<Rightarrow> string \<Rightarrow> bool \<Rightarrow> ResolvedLink \<Rightarrow> u8 list option" where
  "write_node F title opened link =
     (case (writeBytes title, writeBytes (rl_uri link)) of
        (Some t, Some u) \<Rightarrow>
          Some (t @ [flag opened, flag (rl_external link)] @ u @ be32 (of_int (vp_page (rl_viewport link)))
             @ of_writeDouble F (vp_normalizedX (rl_viewport link)) @ of_writeDouble F (vp_normalizedY (rl_viewport link))
             @ [vp_coordinateMask (rl_viewport link), flag (rl_valid link)])
      | _ \<Rightarrow> None)"

fun write_loop :: "OutlineFormat \<Rightarrow> nat \<Rightarrow> nat \<Rightarrow> OutlineNode list \<Rightarrow> (u8 list \<times> nat) option" where
  "write_loop F depth tot [] = Some ([], tot)"
| "write_loop F depth tot (OutlineNode title opened link children # rest) =
     (case (write_node F title opened link, list_header (depth + 1) tot children) of
        (Some node, Some header) \<Rightarrow>
          (case write_loop F (depth + 1) (tot + length children) children of
             None \<Rightarrow> None
           | Some (cs, tot1) \<Rightarrow>
             (case write_loop F depth tot1 rest of
                None \<Rightarrow> None
              | Some (rs, tot2) \<Rightarrow> Some (node @ header @ cs @ rs, tot2)))
      | _ \<Rightarrow> None)"

definition writeOutlineNodes :: "OutlineFormat \<Rightarrow> OutlineNode list \<Rightarrow> u8 list option" where
  "writeOutlineNodes F nodes =
     (case list_header 0 0 nodes of
        None \<Rightarrow> None
      | Some header \<Rightarrow> map_option (\<lambda>(bs, tot). header @ bs) (write_loop F 0 (length nodes) nodes))"

definition serializeOutline :: "OutlineFormat \<Rightarrow> OutlineNode list \<Rightarrow> u8 list option" where
  "serializeOutline F nodes =
     (case writeOutlineNodes F nodes of
        None \<Rightarrow> None
      | Some raw \<Rightarrow>
        if length raw > MaxOutlineRawBytes then None
        else
          let compressed = of_compress F raw in
          if compressed = [] \<or> length compressed > MaxOutlineCompressedBytes then None else Some compressed)"

section \<open>Reading outlines\<close>

definition read_node :: "OutlineFormat \<Rightarrow> u8 list \<Rightarrow> (string \<times> bool \<times> ResolvedLink \<times> u8 list) option" where
  "read_node F bs =
     (case readBytes MaxString bs of
        None \<Rightarrow> None
      | Some (title, bs1) \<Rightarrow>
        if length bs1 < 2 \<or> bs1 ! 0 > 1 \<or> bs1 ! 1 > 1 then None
        else case readBytes MaxString (drop 2 bs1) of
          None \<Rightarrow> None
        | Some (uri, bs2) \<Rightarrow>
          if length bs2 < 22 then None
          else
            let page = sint (read_be32 bs2); x = of_readDouble F (take 8 (drop 4 bs2)); y = of_readDouble F (take 8 (drop 12 bs2)) in
            if bs2 ! 21 > 1 \<or> page < - 1 \<or> \<not> isfinite x \<or> \<not> isfinite y then None
            else Some (title, bs1 ! 0 \<noteq> 0,
                   \<lparr>rl_external = (bs1 ! 1 \<noteq> 0), rl_uri = uri,
                    rl_viewport = \<lparr>vp_page = page, vp_normalizedX = x, vp_normalizedY = y, vp_coordinateMask = bs2 ! 20\<rparr>, rl_valid = (bs2 ! 21 \<noteq> 0)\<rparr>,
                   drop 22 bs2))"

text \<open>The loop over the nodes of one list; \<open>children\<close> reads the list below a node.\<close>

fun read_loop :: "OutlineFormat \<Rightarrow> (nat \<Rightarrow> u8 list \<Rightarrow> (OutlineNode list \<times> nat \<times> u8 list) option) \<Rightarrow> nat \<Rightarrow> nat \<Rightarrow> u8 list \<Rightarrow>
  (OutlineNode list \<times> nat \<times> u8 list) option" where
  "read_loop F children 0 tot bs = Some ([], tot, bs)"
| "read_loop F children (Suc n) tot bs =
     (case read_node F bs of
        None \<Rightarrow> None
      | Some (title, opened, link, bs1) \<Rightarrow>
        (case children tot bs1 of
           None \<Rightarrow> None
         | Some (cs, tot1, bs2) \<Rightarrow>
           (case read_loop F children n tot1 bs2 of
              None \<Rightarrow> None
            | Some (rest, tot2, bs3) \<Rightarrow> Some (OutlineNode title opened link cs # rest, tot2, bs3))))"

text \<open>The recursion is on the number of levels that are still allowed: \<open>depth + levels = MaxOutlineDepth + 1\<close>.\<close>

fun readOutlineNodes :: "OutlineFormat \<Rightarrow> nat \<Rightarrow> nat \<Rightarrow> u8 list \<Rightarrow> (OutlineNode list \<times> nat \<times> u8 list) option" where
  "readOutlineNodes F 0 tot bs =
     (if length bs < 4 then None else if unat (read_be32 bs) > 0 then None else Some ([], tot, drop 4 bs))"
| "readOutlineNodes F (Suc levels) tot bs =
     (if length bs < 4 then None
      else
        let count = unat (read_be32 bs) in
        if count > MaxOutlineNodes - tot then None
        else read_loop F (readOutlineNodes F levels) count (tot + count) (drop 4 bs))"

definition deserializeOutline :: "OutlineFormat \<Rightarrow> u8 list \<Rightarrow> OutlineNode list option" where
  "deserializeOutline F compressed =
     (if length compressed < 4 \<or> length compressed > MaxOutlineCompressedBytes then None
      else
        let rawSize = unat (read_be32 compressed) in
        if rawSize = 0 \<or> rawSize > MaxOutlineRawBytes then None
        else case of_uncompress F rawSize (drop 4 compressed) of
          None \<Rightarrow> None
        | Some raw \<Rightarrow>
          if length raw \<noteq> rawSize then None
          else case readOutlineNodes F (MaxOutlineDepth + 1) 0 raw of
            Some (nodes, tot, []) \<Rightarrow> Some nodes
          | _ \<Rightarrow> None)"

section \<open>Cache entries\<close>

record CacheEntry =
  ce_accelerator :: "u8 list option"
  ce_outline :: "OutlineNode list option"

definition no_entry :: CacheEntry where
  "no_entry = \<lparr>ce_accelerator = None, ce_outline = None\<rparr>"

fun read_sections :: "OutlineFormat \<Rightarrow> nat \<Rightarrow> CacheEntry \<Rightarrow> u8 list \<Rightarrow> CacheEntry option" where
  "read_sections F 0 entry bs = (if bs = [] then Some entry else None)"
| "read_sections F (Suc n) entry bs =
     (if length bs < 8 then None
      else
        let type = read_be32 bs; sz = unat (read_be32 (drop 4 bs)); body = drop 8 bs in
        if sz > length body then None
        else
          let section = take sz body; rest = drop sz body in
          if type = AcceleratorSection
          then if ce_accelerator entry \<noteq> None \<or> sz = 0 \<or> sz > MaxAcceleratorBytes then None
               else read_sections F n (entry\<lparr>ce_accelerator := Some section\<rparr>) rest
          else if type = OutlineSection
          then if ce_outline entry \<noteq> None then None
               else (case deserializeOutline F section of
                       None \<Rightarrow> None
                     | Some outline \<Rightarrow> read_sections F n (entry\<lparr>ce_outline := Some outline\<rparr>) rest)
          else None)"

definition readV3 :: "OutlineFormat \<Rightarrow> u8 list \<Rightarrow> CacheEntry option" where
  "readV3 F d =
     (if length d < V3HeaderBytes then None
      else
        let magic = read_be32 d; version = read_be32 (drop 4 d); sectionCount = unat (read_be32 (drop 8 d)); payloadBytes = unat (read_be32 (drop 12 d)) in
        if magic \<noteq> V3Magic \<or> version \<noteq> V3Version \<or> sectionCount = 0 \<or> sectionCount > 2 \<or> payloadBytes > MaxCacheBytes - V3HeaderBytes
           \<or> length d \<noteq> V3HeaderBytes + payloadBytes then None
        else read_sections F sectionCount no_entry (drop V3HeaderBytes d))"

definition section_bytes :: "u32 \<Rightarrow> u8 list option \<Rightarrow> u8 list" where
  "section_bytes type s = (case s of None \<Rightarrow> [] | Some bs \<Rightarrow> be32 type @ be32 (of_nat (length bs)) @ bs)"

definition serializeSections :: "OutlineFormat \<Rightarrow> CacheEntry \<Rightarrow> (u8 list \<times> nat) option" where
  "serializeSections F entry =
     (if ce_accelerator entry = None \<and> ce_outline entry = None then None
      else if (case ce_accelerator entry of None \<Rightarrow> False | Some a \<Rightarrow> a = [] \<or> length a > MaxAcceleratorBytes) then None
      else
        let outline = (case ce_outline entry of None \<Rightarrow> Some None | Some nodes \<Rightarrow> map_option Some (serializeOutline F nodes)) in
        case outline of
          None \<Rightarrow> None
        | Some outline \<Rightarrow>
          let sections = section_bytes AcceleratorSection (ce_accelerator entry) @ section_bytes OutlineSection outline in
          if length sections > MaxCacheBytes - V3HeaderBytes then None
          else Some (sections, (if ce_accelerator entry = None then 0 else 1) + (if ce_outline entry = None then 0 else 1)))"

definition entry_bytes :: "OutlineFormat \<Rightarrow> CacheEntry \<Rightarrow> u8 list option" where
  "entry_bytes F entry =
     map_option (\<lambda>(sections, sectionCount). be32 V3Magic @ be32 V3Version @ be32 (of_nat sectionCount) @ be32 (of_nat (length sections)) @ sections)
       (serializeSections F entry)"

definition saveEntry :: "OutlineFormat \<Rightarrow> bool \<Rightarrow> string \<Rightarrow> CacheEntry \<Rightarrow> Files \<Rightarrow> Files \<times> bool" where
  "saveEntry F committed cachePath entry fs =
     (case entry_bytes F entry of
        None \<Rightarrow> (fs, False)
      | Some d \<Rightarrow> if committed then (map_emplace cachePath d (map_erase cachePath fs), True) else (fs, False))"

definition loadEntry :: "OutlineFormat \<Rightarrow> string \<Rightarrow> Files \<Rightarrow> Files \<times> CacheEntry option" where
  "loadEntry F cachePath fs =
     (case readBounded fs cachePath (int MaxCacheBytes) of
        None \<Rightarrow> (fs, None)
      | Some d \<Rightarrow> (case readV3 F d of None \<Rightarrow> (map_erase cachePath fs, None) | Some entry \<Rightarrow> (fs, Some entry)))"

definition updateEntry :: "OutlineFormat \<Rightarrow> bool \<Rightarrow> string \<Rightarrow> (CacheEntry \<Rightarrow> CacheEntry) \<Rightarrow> Files \<Rightarrow> Files \<times> bool" where
  "updateEntry F committed cachePath update fs =
     (if cachePath = [] then (fs, False)
      else case loadEntry F cachePath fs of (fs1, entry) \<Rightarrow> saveEntry F committed cachePath (update (case entry of None \<Rightarrow> no_entry | Some e \<Rightarrow> e)) fs1)"

definition loadAt :: "OutlineFormat \<Rightarrow> string \<Rightarrow> Files \<Rightarrow> Files \<times> CacheEntry option" where
  "loadAt F cachePath fs = (if cachePath = [] then (fs, None) else loadEntry F cachePath fs)"

definition saveAcceleratorAt :: "OutlineFormat \<Rightarrow> bool \<Rightarrow> string \<Rightarrow> u8 list \<Rightarrow> Files \<Rightarrow> Files \<times> bool" where
  "saveAcceleratorAt F committed cachePath bytes fs =
     (if cachePath = [] \<or> bytes = [] \<or> length bytes > MaxAcceleratorBytes then (fs, False)
      else updateEntry F committed cachePath (\<lambda>e. e\<lparr>ce_accelerator := Some bytes\<rparr>) fs)"

definition saveOutlineAt :: "OutlineFormat \<Rightarrow> bool \<Rightarrow> string \<Rightarrow> OutlineNode list \<Rightarrow> Files \<Rightarrow> Files \<times> bool" where
  "saveOutlineAt F committed cachePath outline fs =
     (if cachePath = [] then (fs, False) else updateEntry F committed cachePath (\<lambda>e. e\<lparr>ce_outline := Some outline\<rparr>) fs)"

section \<open>Generated PDF outlines\<close>

definition toc_node_ok :: "int \<Rightarrow> string \<Rightarrow> ResolvedLink \<Rightarrow> bool" where
  "toc_node_ok pages title link \<longleftrightarrow>
     (let viewport = rl_viewport link in
      \<not> (title = [] \<or> length title > 160 \<or> \<not> rl_valid link \<or> rl_external link \<or> rl_uri link \<noteq> [] \<or> vp_page viewport < 0 \<or> vp_page viewport \<ge> pages
         \<or> vp_coordinateMask viewport \<noteq> 3 \<or> \<not> isfinite (vp_normalizedX viewport) \<or> \<not> isfinite (vp_normalizedY viewport)
         \<or> fp_lt (vp_normalizedX viewport) (Fin 0) \<or> fp_lt (Fin 1) (vp_normalizedX viewport)
         \<or> fp_lt (vp_normalizedY viewport) (Fin 0) \<or> fp_lt (Fin 1) (vp_normalizedY viewport)))"

fun validate_loop :: "int \<Rightarrow> nat \<Rightarrow> nat \<Rightarrow> OutlineNode list \<Rightarrow> nat option" where
  "validate_loop pages depth count [] = Some count"
| "validate_loop pages depth count (OutlineNode title opened link children # rest) =
     (if \<not> toc_node_ok pages title link then None
      else if depth + 1 > 8 \<or> length children > 5000 - count then None
      else case validate_loop pages (depth + 1) (count + length children) children of
        None \<Rightarrow> None
      | Some count1 \<Rightarrow> validate_loop pages depth count1 rest)"

definition validateNodes :: "OutlineNode list \<Rightarrow> int \<Rightarrow> bool" where
  "validateNodes nodes pages \<longleftrightarrow> \<not> length nodes > 5000 \<and> validate_loop pages 0 (length nodes) nodes \<noteq> None"

definition loadToc :: "OutlineFormat \<Rightarrow> string \<Rightarrow> int \<Rightarrow> Files \<Rightarrow> Files \<times> OutlineNode list option" where
  "loadToc F cachePath pageCount fs =
     (if cachePath = [] \<or> pageCount < 0 then (fs, None)
      else case loadAt F cachePath fs of
        (fs1, None) \<Rightarrow> (fs1, None)
      | (fs1, Some entry) \<Rightarrow>
        (case ce_outline entry of
           None \<Rightarrow> (map_erase cachePath fs1, None)
         | Some nodes \<Rightarrow>
           if ce_accelerator entry \<noteq> None \<or> \<not> validateNodes nodes pageCount then (map_erase cachePath fs1, None) else (fs1, Some nodes)))"

definition saveToc :: "OutlineFormat \<Rightarrow> bool \<Rightarrow> string \<Rightarrow> int \<Rightarrow> OutlineNode list \<Rightarrow> Files \<Rightarrow> Files \<times> bool" where
  "saveToc F committed cachePath pageCount nodes fs =
     (if cachePath = [] \<or> pageCount < 0 \<or> \<not> validateNodes nodes pageCount then (fs, False)
      else saveOutlineAt F committed cachePath nodes fs)"

section \<open>An outline reads back\<close>

lemma char_of_byte_of [simp]: "char_of (unat (byte_of c)) = c"
proof -
  have "unat (byte_of c) = of_char c"
    unfolding byte_of_def of_nat_of_char [where ?'a = "8 word", symmetric] by (simp add: unsigned_of_nat take_bit_nat_eq_self_iff)
  then show ?thesis by simp
qed

lemma unat_length_u32: "n < 2 ^ 32 \<Longrightarrow> unat (of_nat n :: u32) = n"
  by (simp add: unsigned_of_nat take_bit_nat_eq_self_iff)

lemma readBytes_written:
  assumes "writeBytes s = Some bs" "length s \<le> maxBytes"
  shows "readBytes maxBytes (bs @ rest) = Some (s, rest)"
proof -
  from assms(1) have n: "length s < 2 ^ 32" and bs: "bs @ rest = be32 (of_nat (length s)) @ (map byte_of s @ rest)"
    by (auto simp: writeBytes_def split: if_splits)
  show ?thesis using assms(2) unat_length_u32 [OF n]
    unfolding readBytes_def bs read_be32_be32 be32_shape(2) by (simp add: comp_def)
qed

text \<open>The condition on a coordinate: it is finite, and eight bytes represent it.\<close>

definition double_ok :: "OutlineFormat \<Rightarrow> fp \<Rightarrow> bool" where
  "double_ok F x \<longleftrightarrow> isfinite x \<and> length (of_writeDouble F x) = 8 \<and> of_readDouble F (of_writeDouble F x) = x"

definition node_readable :: "OutlineFormat \<Rightarrow> string \<Rightarrow> ResolvedLink \<Rightarrow> bool" where
  "node_readable F title link \<longleftrightarrow> length title \<le> MaxString \<and> length (rl_uri link) \<le> MaxString
     \<and> - 1 \<le> vp_page (rl_viewport link) \<and> vp_page (rl_viewport link) \<le> INT_MAX
     \<and> double_ok F (vp_normalizedX (rl_viewport link)) \<and> double_ok F (vp_normalizedY (rl_viewport link))"

fun outline_all :: "(string \<Rightarrow> ResolvedLink \<Rightarrow> bool) \<Rightarrow> OutlineNode list \<Rightarrow> bool" where
  "outline_all P [] = True"
| "outline_all P (OutlineNode title opened link children # rest) = (P title link \<and> outline_all P children \<and> outline_all P rest)"

lemma sint_of_page: "- 1 \<le> n \<Longrightarrow> n \<le> INT_MAX \<Longrightarrow> sint (of_int n :: u32) = n"
  by (simp add: limits signed_of_int signed_take_bit_int_eq_self)

lemma flag_back [simp]: "flag b \<noteq> 0 \<longleftrightarrow> b" "\<not> flag b > 1"
  by (simp_all add: flag_def)

lemma read_node_written:
  assumes "write_node F title opened link = Some bs" "node_readable F title link"
  shows "read_node F (bs @ rest) = Some (title, opened, link, rest)"
proof -
  let ?v = "rl_viewport link"
  from assms(1) obtain t u where t: "writeBytes title = Some t" and u: "writeBytes (rl_uri link) = Some u"
    and bs: "bs = t @ [flag opened, flag (rl_external link)] @ u @ be32 (of_int (vp_page ?v))
             @ of_writeDouble F (vp_normalizedX ?v) @ of_writeDouble F (vp_normalizedY ?v) @ [vp_coordinateMask ?v, flag (rl_valid link)]"
    by (auto simp: write_node_def split: option.splits)
  define bs2 where "bs2 = be32 (of_int (vp_page ?v)) @ of_writeDouble F (vp_normalizedX ?v) @ of_writeDouble F (vp_normalizedY ?v)
     @ [vp_coordinateMask ?v, flag (rl_valid link)] @ rest"
  from assms(2) have p: "- 1 \<le> vp_page ?v" "vp_page ?v \<le> INT_MAX" and m: "length title \<le> MaxString" "length (rl_uri link) \<le> MaxString"
    and x: "double_ok F (vp_normalizedX ?v)" "double_ok F (vp_normalizedY ?v)" by (simp_all add: node_readable_def)
  have r: "readBytes MaxString (bs @ rest) = Some (title, flag opened # flag (rl_external link) # u @ bs2)"
    "readBytes MaxString (u @ bs2) = Some (rl_uri link, bs2)"
    using readBytes_written [OF t m(1)] readBytes_written [OF u m(2)] by (simp_all add: bs bs2_def)
  have d: "take 8 (drop 4 bs2) = of_writeDouble F (vp_normalizedX ?v)" "take 8 (drop 12 bs2) = of_writeDouble F (vp_normalizedY ?v)"
    "bs2 ! 20 = vp_coordinateMask ?v" "bs2 ! 21 = flag (rl_valid link)" "drop 22 bs2 = rest" "\<not> length bs2 < 22"
    "read_be32 bs2 = of_int (vp_page ?v)"
    using x read_be32_be32 unfolding bs2_def by (simp_all add: double_ok_def nth_append)
  show ?thesis
    unfolding read_node_def r using x sint_of_page [OF p] p(1)
    by (simp add: r(2) d double_ok_def)
qed

lemma list_header_SomeD:
  "list_header depth tot nodes = Some h \<Longrightarrow>
     h = be32 (of_nat (length nodes)) \<and> length nodes \<le> MaxOutlineNodes - tot \<and> (nodes = [] \<or> depth \<le> MaxOutlineDepth)"
  by (auto simp: list_header_def split: if_splits)

lemma readOutlineNodes_header:
  assumes "length nodes \<le> MaxOutlineNodes - tot" "nodes = [] \<or> levels \<noteq> 0"
  shows "readOutlineNodes F levels tot (be32 (of_nat (length nodes)) @ bs) =
    (case levels of 0 \<Rightarrow> Some ([], tot, bs) | Suc l \<Rightarrow> read_loop F (readOutlineNodes F l) (length nodes) (tot + length nodes) bs)"
proof -
  have "unat (of_nat (length nodes) :: u32) = length nodes" using assms(1) by (intro unat_length_u32) (simp add: limits)
  then show ?thesis using assms by (cases levels) (auto simp: read_be32_be32 Let_def)
qed

lemma read_loop_written:
  assumes "write_loop F depth tot nodes = Some (bs, tot')" "outline_all (node_readable F) nodes" "depth + levels = MaxOutlineDepth"
  shows "read_loop F (readOutlineNodes F levels) (length nodes) tot (bs @ rest) = Some (nodes, tot', rest)"
  using assms
proof (induction F depth tot nodes arbitrary: bs tot' levels rest rule: write_loop.induct)
  case (2 F depth tot title opened link children nodes)
  from "2.prems"(1) obtain node h cs tot1 rs where w: "write_node F title opened link = Some node"
    "list_header (depth + 1) tot children = Some h" "write_loop F (depth + 1) (tot + length children) children = Some (cs, tot1)"
    "write_loop F depth tot1 nodes = Some (rs, tot')" "bs = node @ h @ cs @ rs"
    by (auto split: option.splits)
  note h = list_header_SomeD [OF w(2)]
  have n: "read_node F (bs @ rest) = Some (title, opened, link, h @ cs @ rs @ rest)"
    using read_node_written [OF w(1), of "h @ cs @ rs @ rest"] "2.prems"(2) w(5) by simp
  have "readOutlineNodes F levels tot (h @ cs @ rs @ rest) = Some (children, tot1, rs @ rest)"
  proof (cases levels)
    case 0
    with h "2.prems"(3) have "children = []" by auto
    then show ?thesis using 0 w(3) h readOutlineNodes_header [of children tot levels F] by simp
  next
    case (Suc l)
    have "read_loop F (readOutlineNodes F l) (length children) (tot + length children) (cs @ rs @ rest) = Some (children, tot1, rs @ rest)"
      using "2.IH"(1) [OF refl w(1,2,3)] "2.prems"(2,3) Suc by simp
    then show ?thesis using Suc h readOutlineNodes_header [of children tot levels F] by simp
  qed
  moreover have "read_loop F (readOutlineNodes F levels) (length nodes) tot1 (rs @ rest) = Some (nodes, tot', rest)"
    using "2.IH"(2) [OF refl w(1,2,3) refl w(4)] "2.prems"(2,3) by simp
  ultimately show ?case using n by simp
qed simp

text \<open>What the code relies on in zlib: compressed data starts with the size of the input and uncompresses to it.\<close>

definition zlib_ok :: "OutlineFormat \<Rightarrow> bool" where
  "zlib_ok F \<longleftrightarrow> (\<forall>raw. raw \<noteq> [] \<and> length raw < 2 ^ 32 \<longrightarrow>
     of_compress F raw = [] \<or> (\<exists>z. of_compress F raw = be32 (of_nat (length raw)) @ z \<and> of_uncompress F (length raw) z = Some raw))"

lemma deserialize_serialized:
  assumes "zlib_ok F" "outline_all (node_readable F) nodes" "serializeOutline F nodes = Some bs"
  shows "deserializeOutline F bs = Some nodes \<and> length bs \<le> MaxOutlineCompressedBytes"
proof -
  from assms(3) obtain raw where raw: "writeOutlineNodes F nodes = Some raw" "length raw \<le> MaxOutlineRawBytes" "bs = of_compress F raw"
    "bs \<noteq> []" "length bs \<le> MaxOutlineCompressedBytes"
    by (auto simp: serializeOutline_def Let_def split: option.splits if_splits)
  from raw(1) obtain body tot where h: "list_header 0 0 nodes = Some (be32 (of_nat (length nodes)))" "raw = be32 (of_nat (length nodes)) @ body"
    and b: "write_loop F 0 (length nodes) nodes = Some (body, tot)"
    by (auto simp: writeOutlineNodes_def list_header_def split: option.splits if_splits)
  have n: "raw \<noteq> []" "length raw < 2 ^ 32" using raw(2) by (simp_all add: h(2) limits)
  with assms(1) raw(3,4) obtain z where z: "bs = be32 (of_nat (length raw)) @ z" "of_uncompress F (length raw) z = Some raw"
    unfolding zlib_ok_def by blast
  have "readOutlineNodes F (Suc MaxOutlineDepth) 0 raw = Some (nodes, tot, [])"
    using list_header_SomeD [OF h(1)] read_loop_written [OF b assms(2), of MaxOutlineDepth "[]"] readOutlineNodes_header [of nodes 0 "Suc MaxOutlineDepth" F body]
    unfolding h(2) by simp
  then show ?thesis using raw(2,5) n(1) unat_length_u32 [OF n(2)] unfolding deserializeOutline_def z(1)
    by (simp add: read_be32_be32 z(2) del: readOutlineNodes.simps)
qed

lemma read_sections_step:
  assumes "length s < 2 ^ 32"
  shows "read_sections F (Suc n) entry (be32 ty @ be32 (of_nat (length s)) @ s @ rest) =
    (if ty = AcceleratorSection
     then if ce_accelerator entry \<noteq> None \<or> length s = 0 \<or> length s > MaxAcceleratorBytes then None
          else read_sections F n (entry\<lparr>ce_accelerator := Some s\<rparr>) rest
     else if ty = OutlineSection
     then if ce_outline entry \<noteq> None then None
          else (case deserializeOutline F s of None \<Rightarrow> None | Some outline \<Rightarrow> read_sections F n (entry\<lparr>ce_outline := Some outline\<rparr>) rest)
     else None)"
proof -
  have d: "drop 8 (be32 ty @ be32 (of_nat (length s)) @ s @ rest) = s @ rest"
    using drop_drop [of 4 4 "be32 ty @ be32 (of_nat (length s)) @ s @ rest"] by simp
  show ?thesis unfolding read_sections.simps d read_be32_be32 be32_shape(2) by (simp add: Let_def unat_length_u32 [OF assms])
qed

text \<open>An entry can be stored and read: it has a section, and its outline is readable.\<close>

definition entry_readable :: "OutlineFormat \<Rightarrow> CacheEntry \<Rightarrow> bool" where
  "entry_readable F entry \<longleftrightarrow> (case ce_outline entry of None \<Rightarrow> True | Some nodes \<Rightarrow> outline_all (node_readable F) nodes)"

lemma read_sections_written:
  assumes "zlib_ok F" "entry_readable F entry" "serializeSections F entry = Some (bs, n)"
  shows "read_sections F n no_entry bs = Some entry \<and> length bs \<le> MaxCacheBytes - V3HeaderBytes \<and> 0 < n \<and> n \<le> 2"
proof -
  let ?ser = "case ce_outline entry of None \<Rightarrow> Some None | Some nodes \<Rightarrow> map_option Some (serializeOutline F nodes)"
  from assms(3) obtain so where so: "?ser = Some so" and bs: "bs = section_bytes AcceleratorSection (ce_accelerator entry) @ section_bytes OutlineSection so"
    and lim: "length bs \<le> MaxCacheBytes - V3HeaderBytes" and some: "\<not> (ce_accelerator entry = None \<and> ce_outline entry = None)"
    and acc: "\<And>a. ce_accelerator entry = Some a \<Longrightarrow> a \<noteq> [] \<and> length a \<le> MaxAcceleratorBytes"
    and n: "n = (if ce_accelerator entry = None then 0 else 1) + (if ce_outline entry = None then 0 else 1)"
    by (auto simp: serializeSections_def Let_def not_less split: option.splits if_splits)
  let ?k = "if ce_outline entry = None then 0 else 1 :: nat"
  have lo: "read_sections F ?k e (section_bytes OutlineSection so) = Some (e\<lparr>ce_outline := ce_outline entry\<rparr>)" if "ce_outline e = None" for e
  proof (cases "ce_outline entry")
    case None
    with so that show ?thesis by (simp add: section_bytes_def)
  next
    case (Some nodes)
    with so obtain s where s: "serializeOutline F nodes = Some s" "so = Some s" by auto
    from deserialize_serialized [OF assms(1) _ s(1)] assms(2) Some have d: "deserializeOutline F s = Some nodes" "length s < 2 ^ 32"
      by (auto simp: entry_readable_def limits)
    show ?thesis using read_sections_step [OF d(2), of F 0 e OutlineSection "[]"] d(1) that s(2) Some
      by (simp add: section_bytes_def AcceleratorSection_def OutlineSection_def del: read_sections.simps(2))
  qed
  have "read_sections F n no_entry bs = Some entry"
  proof (cases "ce_accelerator entry")
    case None
    then show ?thesis using lo [of no_entry] n bs by (simp add: section_bytes_def no_entry_def del: read_sections.simps(2))
  next
    case (Some a)
    with acc have a: "a \<noteq> []" "\<not> length a > MaxAcceleratorBytes" "length a < 2 ^ 32" by (auto simp: limits)
    have "n = Suc ?k" using n Some by simp
    then have "read_sections F n no_entry bs = read_sections F ?k (no_entry\<lparr>ce_accelerator := Some a\<rparr>) (section_bytes OutlineSection so)"
      using read_sections_step [OF a(3), of F ?k no_entry AcceleratorSection "section_bytes OutlineSection so"] a(1,2) Some bs
      by (simp add: section_bytes_def no_entry_def del: read_sections.simps(2))
    then show ?thesis using lo [of "no_entry\<lparr>ce_accelerator := Some a\<rparr>"] Some by (simp add: no_entry_def)
  qed
  then show ?thesis using lim n some by auto
qed

section \<open>Entries and files\<close>

lemma loadEntry_saved:
  assumes "zlib_ok F" "entry_readable F entry" "saveEntry F committed path entry fs = (fs', True)"
  shows "loadEntry F path fs' = (fs', Some entry)"
proof -
  from assms(3) obtain bs n where b: "serializeSections F entry = Some (bs, n)"
    and fs: "fs' = map_emplace path (be32 V3Magic @ be32 V3Version @ be32 (of_nat n) @ be32 (of_nat (length bs)) @ bs) (map_erase path fs)"
    by (auto simp: saveEntry_def entry_bytes_def split: option.splits if_splits)
  let ?d = "be32 V3Magic @ be32 V3Version @ be32 (of_nat n) @ be32 (of_nat (length bs)) @ bs"
  from read_sections_written [OF assms(1,2) b] have r: "read_sections F n no_entry bs = Some entry" "length bs \<le> MaxCacheBytes - V3HeaderBytes" "0 < n" "n \<le> 2"
    by blast+
  have u: "unat (of_nat n :: u32) = n" "unat (of_nat (length bs) :: u32) = length bs"
    using r(2,4) by (intro unat_length_u32; simp add: limits)+
  have h: "read_be32 (drop 4 ?d) = V3Version" "read_be32 (drop 8 ?d) = of_nat n" "read_be32 (drop 12 ?d) = of_nat (length bs)" "drop V3HeaderBytes ?d = bs"
    "length ?d = V3HeaderBytes + length bs"
    using drop_drop [of 4 4 ?d] drop_drop [of 8 4 ?d] by (simp_all add: read_be32_be32 V3HeaderBytes_def)
  have "readV3 F ?d = Some entry"
    unfolding readV3_def h read_be32_be32 Let_def u using r by simp
  moreover have "readBounded fs' path (int MaxCacheBytes) = Some ?d"
    using r(2) by (simp add: readBounded_def fs std_map limits)
  ultimately show ?thesis by (simp add: loadEntry_def)
qed

lemma updateEntry_saved:
  assumes "zlib_ok F" "updateEntry F committed path update fs = (fs', True)"
    and "\<And>entry. snd (loadEntry F path fs) = Some entry \<Longrightarrow> entry_readable F (update entry)" "entry_readable F (update no_entry)"
  shows "loadEntry F path fs' = (fs', Some (update (case snd (loadEntry F path fs) of None \<Rightarrow> no_entry | Some entry \<Rightarrow> entry))) \<and> path \<noteq> []"
proof -
  obtain fs1 old where l: "loadEntry F path fs = (fs1, old)" by fastforce
  have "entry_readable F (update (case old of None \<Rightarrow> no_entry | Some entry \<Rightarrow> entry))" using assms(3,4) l by (cases old) auto
  from loadEntry_saved [OF assms(1) this] assms(2) show ?thesis by (auto simp: updateEntry_def l split: if_splits)
qed

text \<open>The bounds of a generated outline are within those of the cache format.\<close>

lemma validate_outline_all:
  "validate_loop pages depth count nodes \<noteq> None \<Longrightarrow> outline_all (toc_node_ok pages) nodes"
  by (induction pages depth count nodes rule: validate_loop.induct) (auto split: if_splits option.splits)

lemma outline_all_mono: "outline_all P nodes \<Longrightarrow> (\<And>title link. P title link \<Longrightarrow> Q title link) \<Longrightarrow> outline_all Q nodes"
  by (induction P nodes rule: outline_all.induct) auto

lemma outline_all_conj: "outline_all P nodes \<Longrightarrow> outline_all Q nodes \<Longrightarrow> outline_all (\<lambda>t l. P t l \<and> Q t l) nodes"
  by (induction P nodes rule: outline_all.induct) auto

text \<open>What the code relies on in Qt for the coordinates at hand: a double is written as eight bytes that read back as that double.\<close>

definition coordinates_ok :: "OutlineFormat \<Rightarrow> OutlineNode list \<Rightarrow> bool" where
  "coordinates_ok F nodes \<longleftrightarrow> outline_all (\<lambda>title link. \<forall>x\<in>{vp_normalizedX (rl_viewport link), vp_normalizedY (rl_viewport link)}.
     length (of_writeDouble F x) = 8 \<and> of_readDouble F (of_writeDouble F x) = x) nodes"

lemma toc_readable:
  assumes "validateNodes nodes pageCount" "pageCount \<le> INT_MAX" "coordinates_ok F nodes"
  shows "outline_all (node_readable F) nodes"
proof (rule outline_all_mono [OF outline_all_conj])
  show "outline_all (toc_node_ok pageCount) nodes"
    using assms(1) by (auto simp: validateNodes_def intro: validate_outline_all)
  show "outline_all (\<lambda>title link. \<forall>x\<in>{vp_normalizedX (rl_viewport link), vp_normalizedY (rl_viewport link)}.
     length (of_writeDouble F x) = 8 \<and> of_readDouble F (of_writeDouble F x) = x) nodes"
    using assms(3) by (simp add: coordinates_ok_def)
qed (use assms(2) in \<open>auto simp: toc_node_ok_def node_readable_def double_ok_def limits Let_def\<close>)

text \<open>
  C11. A generated outline survives its cache: when saving it reports success, loading the same path for the same number of pages
  returns exactly the saved outline, every title, flag, target and coordinate of every level, and does not touch the cache.
\<close>

theorem toc_round_trip:
  assumes "zlib_ok F" "coordinates_ok F nodes" "pageCount \<le> INT_MAX"
    and "\<And>entry. snd (loadEntry F path fs) = Some entry \<Longrightarrow> ce_accelerator entry = None"
    and "saveToc F committed path pageCount nodes fs = (fs', True)"
  shows "loadToc F path pageCount fs' = (fs', Some nodes)"
proof -
  from assms(5) have s: "path \<noteq> []" "\<not> pageCount < 0" "validateNodes nodes pageCount"
    "updateEntry F committed path (\<lambda>e. e\<lparr>ce_outline := Some nodes\<rparr>) fs = (fs', True)"
    by (auto simp: saveToc_def saveOutlineAt_def split: if_splits)
  note r = toc_readable [OF s(3) assms(3,2)]
  from updateEntry_saved [OF assms(1) s(4)] r
  have "loadEntry F path fs' = (fs', Some ((case snd (loadEntry F path fs) of None \<Rightarrow> no_entry | Some entry \<Rightarrow> entry)\<lparr>ce_outline := Some nodes\<rparr>))"
    by (simp add: entry_readable_def)
  moreover have "ce_accelerator (case snd (loadEntry F path fs) of None \<Rightarrow> no_entry | Some entry \<Rightarrow> entry) = None"
    using assms(4) by (simp add: no_entry_def split: option.splits)
  ultimately show ?thesis using s(1-3) by (simp add: loadToc_def loadAt_def)
qed

text \<open>Saving one section keeps the other.\<close>

lemma epub_section_kept:
  assumes "zlib_ok F" "saveAcceleratorAt F committed path bytes fs = (fs', True)" "snd (loadEntry F path fs) = Some entry" "entry_readable F entry"
  shows "loadAt F path fs' = (fs', Some (entry\<lparr>ce_accelerator := Some bytes\<rparr>))"
  using assms(2) updateEntry_saved [OF assms(1), of committed path "\<lambda>e. e\<lparr>ce_accelerator := Some bytes\<rparr>" fs fs'] assms(3,4)
  by (auto simp: saveAcceleratorAt_def loadAt_def entry_readable_def no_entry_def split: if_splits)

text \<open>A chapter with one section, at the top left corners of the first and the third page.\<close>

definition toc_link0 :: "int \<Rightarrow> ResolvedLink" where
  "toc_link0 page = \<lparr>rl_external = False, rl_uri = [],
     rl_viewport = \<lparr>vp_page = page, vp_normalizedX = Fin 0, vp_normalizedY = Fin 0, vp_coordinateMask = 3\<rparr>, rl_valid = True\<rparr>"

definition toc0 :: "OutlineNode list" where
  "toc0 = [OutlineNode ''A'' True (toc_link0 0) [OutlineNode ''B'' False (toc_link0 2) []]]"

definition outline_format0 :: OutlineFormat where
  "outline_format0 = \<lparr>of_writeDouble = (\<lambda>_. replicate 8 0), of_readDouble = (\<lambda>_. Fin 0),
     of_compress = (\<lambda>raw. be32 (of_nat (length raw)) @ raw), of_uncompress = (\<lambda>n z. if length z = n then Some z else None)\<rparr>"

theorem toc_round_trip_witness:
  "\<exists>fs'. saveToc outline_format0 True ''p'' 3 toc0 [] = (fs', True) \<and> loadToc outline_format0 ''p'' 3 fs' = (fs', Some toc0)"
proof -
  have z: "zlib_ok outline_format0" by (simp add: zlib_ok_def outline_format0_def)
  have c: "coordinates_ok outline_format0 toc0" by (simp add: coordinates_ok_def toc0_def toc_link0_def outline_format0_def)
  have l: "loadEntry outline_format0 ''p'' [] = ([], None)" by (simp add: loadEntry_def readBounded_def)
  have v: "validateNodes toc0 3" by (simp add: validateNodes_def toc0_def toc_link0_def toc_node_ok_def)
  have "saveEntry outline_format0 True ''p'' (no_entry\<lparr>ce_outline := Some toc0\<rparr>) [] = (fst (saveEntry outline_format0 True ''p'' (no_entry\<lparr>ce_outline := Some toc0\<rparr>) []), True)"
    by (simp add: saveEntry_def entry_bytes_def serializeSections_def serializeOutline_def writeOutlineNodes_def list_header_def write_node_def writeBytes_def
        no_entry_def toc0_def toc_link0_def outline_format0_def section_bytes_def limits Let_def)
  then have s: "saveToc outline_format0 True ''p'' 3 toc0 [] = (fst (saveEntry outline_format0 True ''p'' (no_entry\<lparr>ce_outline := Some toc0\<rparr>) []), True)"
    by (simp add: saveToc_def saveOutlineAt_def updateEntry_def l v)
  show ?thesis using s toc_round_trip [OF z c _ _ s] l by (simp add: limits)
qed

end
