(* ===== verification/Generated_Outline_Laws.thy ===== *)
theory Generated_Outline_Laws
  imports Generated_Outline Outline_Cache
begin

text \<open>
  What the outline generator guarantees: the tree lists the headings in reading order, a number is only nested below its own prefixes,
  and every generated outline is one that the cache accepts.
\<close>

section \<open>Trees that grow at their right edge\<close>

fun preorder :: "OutlineNode list \<Rightarrow> (string \<times> ResolvedLink) list" where
  "preorder [] = []"
| "preorder (OutlineNode title opened link children # rest) = (title, link) # preorder children @ preorder rest"

fun height :: "OutlineNode list \<Rightarrow> nat" where
  "height [] = 0"
| "height (OutlineNode title opened link children # rest) = max (Suc (height children)) (height rest)"

text \<open>The path of a node that is the last of its siblings, on every level.\<close>

fun rightmost :: "nat list \<Rightarrow> OutlineNode list \<Rightarrow> bool" where
  "rightmost [] nodes = True"
| "rightmost (i # path) nodes = (nodes \<noteq> [] \<and> i = length nodes - 1 \<and> rightmost path (on_children (last nodes)))"

lemma preorder_append [simp]: "preorder (xs @ ys) = preorder xs @ preorder ys"
  by (induction xs rule: preorder.induct) auto

lemma height_append [simp]: "height (xs @ ys) = max (height xs) (height ys)"
  by (induction xs rule: height.induct) auto

lemma push_child_last:
  "push_child (length xs # path) node (xs @ [OutlineNode title opened link children]) = xs @ [OutlineNode title opened link (push_child path node children)]"
  by simp

text \<open>A node on the right edge is the last of a list.\<close>

lemma rightmost_ConsE:
  assumes "rightmost (i # path) nodes"
  obtains xs title opened link children where "nodes = xs @ [OutlineNode title opened link children]" "i = length xs" "rightmost path children"
proof -
  from assms have n: "nodes = butlast nodes @ [last nodes]" "i = length (butlast nodes)" "rightmost path (on_children (last nodes))" by simp_all
  show ?thesis
  proof (rule that [of "butlast nodes"])
    show "nodes = butlast nodes @ [OutlineNode (on_title (last nodes)) (on_open (last nodes)) (on_link (last nodes)) (on_children (last nodes))]"
      using n(1) by simp
  qed (use n in simp_all)
qed

lemma preorder_push_child:
  "rightmost path nodes \<Longrightarrow> preorder (push_child path (OutlineNode title opened link []) nodes) = preorder nodes @ [(title, link)]"
proof (induction path arbitrary: nodes)
  case (Cons i path)
  from Cons.prems obtain xs t opn l cs where "nodes = xs @ [OutlineNode t opn l cs]" "i = length xs" "rightmost path cs" by (rule rightmost_ConsE)
  then show ?case using Cons.IH [of cs] push_child_last [of xs path] by (simp del: push_child.simps)
qed simp

lemma height_push_child:
  "rightmost path nodes \<Longrightarrow> height (push_child path (OutlineNode title opened link []) nodes) = max (height nodes) (Suc (length path))"
proof (induction path arbitrary: nodes)
  case (Cons i path)
  from Cons.prems obtain xs t opn l cs where "nodes = xs @ [OutlineNode t opn l cs]" "i = length xs" "rightmost path cs" by (rule rightmost_ConsE)
  then show ?case using Cons.IH [of cs] push_child_last [of xs path] by (simp del: push_child.simps)
qed simp

lemma rightmost_push_child:
  "rightmost path nodes \<Longrightarrow> rightmost (path @ [vector_size path nodes]) (push_child path node nodes)"
proof (induction path arbitrary: nodes)
  case (Cons i path)
  from Cons.prems obtain xs t opn l cs where "nodes = xs @ [OutlineNode t opn l cs]" "i = length xs" "rightmost path cs" by (rule rightmost_ConsE)
  then show ?case using Cons.IH [of cs] push_child_last [of xs path] by (simp del: push_child.simps)
qed simp

lemma rightmost_prefix: "rightmost (path @ more_path) nodes \<Longrightarrow> rightmost path nodes"
  by (induction path arbitrary: nodes) auto
section \<open>The stack of parents\<close>

text \<open>Every parent is the parent node of the one above it; the lowest is a top-level node.\<close>

fun path_chain :: "Parent list \<Rightarrow> bool" where
  "path_chain [] = True"
| "path_chain [p] = (length (pa_node p) = 1)"
| "path_chain (p # q # ps) = (pa_node p \<noteq> [] \<and> butlast (pa_node p) = pa_node q \<and> path_chain (q # ps))"

fun level_chain :: "Parent list \<Rightarrow> bool" where
  "level_chain [] = True"
| "level_chain [p] = (0 \<le> pa_level p)"
| "level_chain (p # q # ps) = (pa_level q < pa_level p \<and> level_chain (q # ps))"

definition number_of :: "UnicodeTables \<Rightarrow> string \<Rightarrow> nat list" where
  "number_of U title = (case parseHeading U title of None \<Rightarrow> [] | Some h \<Rightarrow> hn_components h)"

text \<open>The number of the node at a path; \<open>n\<close> stands for the node above the list.\<close>

fun number_at :: "UnicodeTables \<Rightarrow> nat list \<Rightarrow> nat list \<Rightarrow> OutlineNode list \<Rightarrow> nat list" where
  "number_at U n [] nodes = n"
| "number_at U n (i # path) nodes = number_at U (number_of U (on_title (nodes ! i))) path (on_children (nodes ! i))"

text \<open>A numbered node below a numbered node extends its number.\<close>

fun nested :: "UnicodeTables \<Rightarrow> nat list \<Rightarrow> OutlineNode list \<Rightarrow> bool" where
  "nested U n [] = True"
| "nested U n (OutlineNode title opened link children # rest) =
     ((n = [] \<or> number_of U title = [] \<or> numeric_ancestor n (number_of U title)) \<and> nested U (number_of U title) children \<and> nested U n rest)"

lemma path_chain_Cons: "path_chain (p # ps) \<Longrightarrow> path_chain ps"
  by (cases ps) auto

lemma level_chain_Cons: "level_chain (p # ps) \<Longrightarrow> level_chain ps"
  by (cases ps) auto

lemma level_chain_length: "level_chain ps \<Longrightarrow> ps \<noteq> [] \<Longrightarrow> int (length ps) \<le> pa_level (hd ps) + 1"
  by (induction ps rule: level_chain.induct) auto

lemma path_chain_length: "path_chain ps \<Longrightarrow> ps \<noteq> [] \<Longrightarrow> length (pa_node (hd ps)) = length ps"
  by (induction ps rule: path_chain.induct) (auto, metis One_nat_def Suc_pred length_butlast length_greater_0_conv)

lemma path_chain_prefix: "path_chain (p # ps) \<Longrightarrow> q \<in> set ps \<Longrightarrow> \<exists>rest. pa_node p = pa_node q @ rest"
proof (induction ps arbitrary: p)
  case (Cons r ps)
  from Cons.prems have r: "pa_node p = pa_node r @ [last (pa_node p)]" "path_chain (r # ps)"
    using append_butlast_last_id [of "pa_node p"] by simp_all
  show ?case
  proof (cases "q = r")
    case False
    with Cons.IH [OF r(2)] Cons.prems(2) obtain rest where "pa_node r = pa_node q @ rest" by auto
    with r(1) have "pa_node p = pa_node q @ (rest @ [last (pa_node p)])" by simp
    then show ?thesis by blast
  qed (use r(1) in blast)
qed simp

lemma nested_append [simp]: "nested U n (xs @ ys) \<longleftrightarrow> nested U n xs \<and> nested U n ys"
  by (induction U n xs rule: nested.induct) auto

lemma nested_push_child:
  assumes "rightmost path nodes" "nested U n nodes"
    "number_at U n path nodes = [] \<or> number_of U title = [] \<or> numeric_ancestor (number_at U n path nodes) (number_of U title)"
  shows "nested U n (push_child path (OutlineNode title opened link []) nodes)"
  using assms
proof (induction path arbitrary: n nodes)
  case (Cons i path)
  from Cons.prems(1) obtain xs t opn l cs where n: "nodes = xs @ [OutlineNode t opn l cs]" "i = length xs" "rightmost path cs" by (rule rightmost_ConsE)
  with Cons.prems Cons.IH [of cs "number_of U t"] show ?case using push_child_last [of xs path] by (simp del: push_child.simps)
qed simp

lemma number_at_push_child:
  assumes "rightmost path nodes" "path = q @ rest"
  shows "number_at U n q (push_child path node nodes) = number_at U n q nodes"
  using assms
proof (induction q arbitrary: path n nodes)
  case (Cons i q)
  then obtain path' where path: "path = i # path'" "path' = q @ rest" by simp
  from Cons.prems(1) obtain xs t opn l cs where "nodes = xs @ [OutlineNode t opn l cs]" "i = length xs" "rightmost path' cs"
    unfolding path(1) by (rule rightmost_ConsE)
  then show ?case using Cons.IH [of path' cs] path push_child_last [of xs path'] by (simp del: push_child.simps)
qed simp

lemma number_at_new_child:
  assumes "rightmost path nodes"
  shows "number_at U n (path @ [vector_size path nodes]) (push_child path (OutlineNode title opened link children) nodes) = number_of U title"
  using assms
proof (induction path arbitrary: n nodes)
  case (Cons i path)
  from Cons.prems(1) obtain xs t opn l cs where "nodes = xs @ [OutlineNode t opn l cs]" "i = length xs" "rightmost path cs" by (rule rightmost_ConsE)
  then show ?case using Cons.IH [of cs] push_child_last [of xs path] by (simp del: push_child.simps)
qed simp

section \<open>The invariant of the assembly\<close>

definition asm_inv :: "UnicodeTables \<Rightarrow> Assembly \<Rightarrow> bool" where
  "asm_inv U s \<longleftrightarrow> (case s of (result, parents, emitted) \<Rightarrow>
     path_chain parents \<and> (\<forall>p\<in>set parents. rightmost (pa_node p) result \<and> number_at U [] (pa_node p) result = pa_number p) \<and> nested U [] result)"

definition siblings_of :: "Parent list \<Rightarrow> nat list" where
  "siblings_of parents = (case parents of [] \<Rightarrow> [] | p # _ \<Rightarrow> pa_node p)"

definition emission :: "UnicodeTables \<Rightarrow> Candidate \<Rightarrow> int \<times> string" where
  "emission U candidate = (ol_page (cd_line candidate), headingKey U (ol_text (cd_line candidate)))"

lemma assemble_step_eq:
  "assemble_step U rnd c (result, parents, emitted) =
    (if emission U c \<in> set emitted then (result, parents, emitted)
     else let parents1 = pop_parents (cd_level c) (parseHeading U (ol_text (cd_line c))) parents in
       (push_child (siblings_of parents1) (outline_node rnd (cd_line c)) result,
        \<lparr>pa_level = cd_level c, pa_node = siblings_of parents1 @ [vector_size (siblings_of parents1) result], pa_number = number_of U (ol_text (cd_line c))\<rparr> # parents1,
        emission U c # emitted))"
  by (simp add: assemble_step_def siblings_of_def emission_def number_of_def Let_def)

lemma pop_parents_suffix: "\<exists>popped. parents = popped @ pop_parents level number parents"
proof -
  have d: "\<exists>ys. xs = ys @ dropWhile f xs" for f :: "Parent \<Rightarrow> bool" and xs
    by (rule exI [of _ "takeWhile f xs"]) simp
  obtain ys where ys: "parents = ys @ dropWhile (\<lambda>p. pa_level p \<ge> level) parents" using d by blast
  show ?thesis
  proof (cases number)
    case None
    then show ?thesis using ys by (simp add: pop_parents_def) blast
  next
    case (Some h)
    let ?f = "\<lambda>p. pa_number p \<noteq> [] \<and> \<not> numeric_ancestor (pa_number p) (hn_components h)"
    obtain zs where "dropWhile (\<lambda>p. pa_level p \<ge> level) parents = zs @ dropWhile ?f (dropWhile (\<lambda>p. pa_level p \<ge> level) parents)" using d by blast
    with ys have "parents = (ys @ zs) @ dropWhile ?f (dropWhile (\<lambda>p. pa_level p \<ge> level) parents)" by simp
    then show ?thesis using Some unfolding pop_parents_def by (simp only: Let_def option.case) blast
  qed
qed

lemma path_chain_suffix: "path_chain (xs @ ys) \<Longrightarrow> path_chain ys"
  by (induction xs) (auto dest: path_chain_Cons)

lemma level_chain_suffix: "level_chain (xs @ ys) \<Longrightarrow> level_chain ys"
  by (induction xs) (auto dest: level_chain_Cons)

lemma pop_parents_top:
  "pop_parents level (Some h) parents = p # ps \<Longrightarrow> pa_number p = [] \<or> numeric_ancestor (pa_number p) (hn_components h)"
  unfolding pop_parents_def Let_def option.case dropWhile_eq_Cons_conv by blast

lemma pop_parents_levels:
  assumes "level_chain parents" "p \<in> set (pop_parents level number parents)"
  shows "pa_level p < level"
proof -
  have below: "level_chain qs \<Longrightarrow> q \<in> set (dropWhile (\<lambda>p. pa_level p \<ge> level) qs) \<Longrightarrow> pa_level q < level" for qs q
  proof (induction qs rule: level_chain.induct)
    case (3 p' q' ps)
    show ?case
    proof (cases "pa_level p' \<ge> level")
      case False
      have "level_chain (r # rs) \<Longrightarrow> s \<in> set (r # rs) \<Longrightarrow> pa_level s \<le> pa_level r" for r s rs
        by (induction rs arbitrary: r) force+
      then show ?thesis using "3.prems" False by fastforce
    qed (use 3 in auto)
  qed (auto split: if_splits)
  have "p \<in> set (dropWhile (\<lambda>p. pa_level p \<ge> level) parents)"
    using assms(2) by (auto simp: pop_parents_def Let_def split: option.splits dest: set_dropWhileD)
  then show ?thesis using below [OF assms(1)] by blast
qed

lemma asm_inv_step:
  assumes "asm_inv U s"
  shows "asm_inv U (assemble_step U rnd c s)"
proof -
  obtain result parents emitted where s: "s = (result, parents, emitted)" using prod_cases3 by blast
  define t where "t = ol_text (cd_line c)"
  define ps where "ps = pop_parents (cd_level c) (parseHeading U t) parents"
  obtain popped where suffix: "parents = popped @ ps" using pop_parents_suffix unfolding ps_def by blast
  from assms have inv: "path_chain parents" "nested U [] result"
    and all: "\<And>p. p \<in> set ps \<Longrightarrow> rightmost (pa_node p) result \<and> number_at U [] (pa_node p) result = pa_number p"
    by (auto simp: asm_inv_def s suffix)
  have c: "path_chain ps" using inv(1) path_chain_suffix unfolding suffix by blast
  have r: "rightmost (siblings_of ps) result" using all by (cases ps) (auto simp: siblings_of_def)
  have n: "number_at U [] (siblings_of ps) result = [] \<or> number_of U t = [] \<or> numeric_ancestor (number_at U [] (siblings_of ps) result) (number_of U t)"
  proof (cases ps)
    case (Cons p qs)
    then show ?thesis using all pop_parents_top [of "cd_level c" _ parents p qs] ps_def by (auto simp: siblings_of_def number_of_def split: option.splits)
  qed (simp add: siblings_of_def)
  obtain link where node: "outline_node rnd (cd_line c) = OutlineNode t False link []" by (simp add: outline_node_def t_def)
  let ?path = "siblings_of ps @ [vector_size (siblings_of ps) result]"
  let ?res = "push_child (siblings_of ps) (outline_node rnd (cd_line c)) result"
  have new: "rightmost ?path ?res" "number_at U [] ?path ?res = number_of U t"
    using rightmost_push_child [OF r] number_at_new_child [OF r] by (simp_all add: node)
  have old: "rightmost (pa_node p) ?res \<and> number_at U [] (pa_node p) ?res = pa_number p" if p: "p \<in> set ps" for p
  proof -
    obtain rest where rest: "siblings_of ps = pa_node p @ rest"
      using p c path_chain_prefix [of "hd ps" "tl ps" p] by (cases ps) (auto simp: siblings_of_def)
    have "rightmost (pa_node p) ?res" using new(1) rightmost_prefix [of "pa_node p" "rest @ [vector_size (siblings_of ps) result]"] rest by simp
    then show ?thesis using all [OF p] number_at_push_child [OF r rest] by simp
  qed
  have chain: "path_chain (\<lparr>pa_level = l, pa_node = ?path, pa_number = m\<rparr> # ps)" for l m
    using c by (cases ps) (auto simp: siblings_of_def)
  have e: "assemble_step U rnd c s = (if emission U c \<in> set emitted then s
     else (?res, \<lparr>pa_level = cd_level c, pa_node = ?path, pa_number = number_of U t\<rparr> # ps, emission U c # emitted))"
    by (simp add: s assemble_step_eq Let_def ps_def t_def)
  have "nested U [] ?res" using nested_push_child [OF r inv(2) n] by (simp add: node)
  then show ?thesis using assms chain new old unfolding e by (simp add: asm_inv_def)
qed
text \<open>The vector that receives a new node is at the right edge, and no deeper than the level of the heading.\<close>

lemma pushed_at_right_edge:
  assumes "asm_inv U (result, parents, emitted)"
  shows "rightmost (siblings_of (pop_parents level number parents)) result"
proof -
  obtain popped where suffix: "parents = popped @ pop_parents level number parents" using pop_parents_suffix by blast
  have "set (pop_parents level number parents) \<subseteq> set parents" by (subst (2) suffix) simp
  then show ?thesis using assms by (cases "pop_parents level number parents") (auto simp: asm_inv_def siblings_of_def)
qed

lemma pushed_depth:
  assumes "path_chain parents" "level_chain parents" "0 \<le> level"
  shows "int (length (siblings_of (pop_parents level number parents))) \<le> level"
    "level_chain (\<lparr>pa_level = level, pa_node = path, pa_number = n\<rparr> # pop_parents level number parents)"
proof -
  define ps where "ps = pop_parents level number parents"
  obtain popped where suffix: "parents = popped @ ps" using pop_parents_suffix unfolding ps_def by blast
  from assms have c: "path_chain ps" "level_chain ps" unfolding suffix by (blast intro: path_chain_suffix level_chain_suffix)+
  have l: "pa_level p < level" if "p \<in> set ps" for p using pop_parents_levels [OF assms(2)] that unfolding ps_def .
  show "level_chain (\<lparr>pa_level = level, pa_node = path, pa_number = n\<rparr> # pop_parents level number parents)"
    unfolding ps_def [symmetric] using c(2) l assms(3) by (cases ps) auto
  show "int (length (siblings_of (pop_parents level number parents))) \<le> level"
    unfolding ps_def [symmetric] using path_chain_length [OF c(1)] level_chain_length [OF c(2)] l [of "hd ps"] assms(3)
    by (cases ps) (auto simp: siblings_of_def)
qed

text \<open>The candidates that are not repetitions of a heading on the same page.\<close>

fun deduped :: "UnicodeTables \<Rightarrow> (int \<times> string) list \<Rightarrow> Candidate list \<Rightarrow> Candidate list" where
  "deduped U emitted [] = []"
| "deduped U emitted (c # cs) = (if emission U c \<in> set emitted then deduped U emitted cs else c # deduped U (emission U c # emitted) cs)"

definition heading_entry :: "rounding \<Rightarrow> Candidate \<Rightarrow> string \<times> ResolvedLink" where
  "heading_entry rnd c = (on_title (outline_node rnd (cd_line c)), on_link (outline_node rnd (cd_line c)))"

lemma outline_node_leaf: "outline_node rnd (cd_line c) = OutlineNode (fst (heading_entry rnd c)) False (snd (heading_entry rnd c)) []"
  by (simp add: heading_entry_def outline_node_def)

lemma assemble_fold_inv: "asm_inv U s \<Longrightarrow> asm_inv U (fold (assemble_step U rnd) cs s)"
  by (induction cs arbitrary: s) (simp_all only: fold_simps id_apply asm_inv_step)

lemma assemble_fold_preorder:
  assumes "asm_inv U (result, parents, emitted)" "fold (assemble_step U rnd) cs (result, parents, emitted) = (result', parents', emitted')"
  shows "preorder result' = preorder result @ map (heading_entry rnd) (deduped U emitted cs)"
  using assms
proof (induction cs arbitrary: result parents emitted)
  case (Cons c cs)
  obtain result1 parents1 emitted1 where s: "assemble_step U rnd c (result, parents, emitted) = (result1, parents1, emitted1)" using prod_cases3 by blast
  have "asm_inv U (result1, parents1, emitted1)" using asm_inv_step [OF Cons.prems(1)] s by metis
  from Cons.IH [OF this] Cons.prems(2) s have i: "preorder result' = preorder result1 @ map (heading_entry rnd) (deduped U emitted1 cs)" by simp
  show ?case
  proof (cases "emission U c \<in> set emitted")
    case True
    then show ?thesis using i s by (simp add: assemble_step_eq)
  next
    case False
    with s have r: "result1 = push_child (siblings_of (pop_parents (cd_level c) (parseHeading U (ol_text (cd_line c))) parents)) (outline_node rnd (cd_line c)) result"
      "emitted1 = emission U c # emitted" by (auto simp: assemble_step_eq Let_def)
    show ?thesis unfolding i r(1) outline_node_leaf preorder_push_child [OF pushed_at_right_edge [OF Cons.prems(1)]] using False r(2) by simp
  qed
qed simp

lemma assemble_fold_height:
  assumes "asm_inv U (result, parents, emitted)" "level_chain parents" "height result \<le> 8"
    and "\<And>c. c \<in> set cs \<Longrightarrow> 0 \<le> cd_level c \<and> cd_level c \<le> 7"
    and "fold (assemble_step U rnd) cs (result, parents, emitted) = (result', parents', emitted')"
  shows "height result' \<le> 8"
  using assms
proof (induction cs arbitrary: result parents emitted)
  case (Cons c cs)
  let ?ps = "pop_parents (cd_level c) (parseHeading U (ol_text (cd_line c))) parents"
  obtain result1 parents1 emitted1 where s: "assemble_step U rnd c (result, parents, emitted) = (result1, parents1, emitted1)" using prod_cases3 by blast
  have a: "asm_inv U (result1, parents1, emitted1)" using asm_inv_step [OF Cons.prems(1)] s by metis
  have chain: "path_chain parents" using Cons.prems(1) by (simp add: asm_inv_def)
  have lv: "0 \<le> cd_level c" "cd_level c \<le> 7" using Cons.prems(4) [of c] by simp_all
  note d = pushed_depth [OF chain Cons.prems(2) lv(1), where number = "parseHeading U (ol_text (cd_line c))"]
  have "height (push_child (siblings_of ?ps) (outline_node rnd (cd_line c)) result) \<le> 8"
    unfolding outline_node_leaf height_push_child [OF pushed_at_right_edge [OF Cons.prems(1)]] using Cons.prems(3) d(1) lv(2) by simp
  then have "level_chain parents1 \<and> height result1 \<le> 8"
    using s d(2) Cons.prems(2,3) by (auto simp: assemble_step_eq Let_def split: if_splits)
  then show ?case using Cons.IH [OF a] Cons.prems(4,5) s by simp
qed simp

lemma assembled:
  "preorder (assembleOutline U rnd cs) = map (heading_entry rnd) (deduped U [] cs)"
  "nested U [] (assembleOutline U rnd cs)"
  "(\<And>c. c \<in> set cs \<Longrightarrow> 0 \<le> cd_level c \<and> cd_level c \<le> 7) \<Longrightarrow> height (assembleOutline U rnd cs) \<le> 8"
proof -
  obtain result parents emitted where f: "fold (assemble_step U rnd) cs ([], [], []) = (result, parents, emitted)" using prod_cases3 by blast
  have a: "asm_inv U ([], [], [])" by (simp add: asm_inv_def)
  show "preorder (assembleOutline U rnd cs) = map (heading_entry rnd) (deduped U [] cs)"
    using assemble_fold_preorder [OF a f] f by (simp add: assembleOutline_def)
  show "nested U [] (assembleOutline U rnd cs)"
    using assemble_fold_inv [OF a, of rnd cs] f by (simp add: assembleOutline_def asm_inv_def)
  show "height (assembleOutline U rnd cs) \<le> 8" if "\<And>c. c \<in> set cs \<Longrightarrow> 0 \<le> cd_level c \<and> cd_level c \<le> 7"
    using assemble_fold_height [OF a _ _ that f] f by (simp add: assembleOutline_def)
qed

section \<open>What the cache checks\<close>

lemma outline_all_preorder: "outline_all P nodes \<longleftrightarrow> list_all (\<lambda>(title, link). P title link) (preorder nodes)"
  by (induction P nodes rule: outline_all.induct) auto

lemma preorder_length: "length nodes \<le> length (preorder nodes)"
  by (induction nodes rule: preorder.induct) auto

text \<open>The validator counts the nodes below the list it was called on.\<close>

lemma validate_loop_accepts:
  assumes "outline_all (toc_node_ok pages) nodes" "depth + height nodes \<le> 8" "count + length (preorder nodes) \<le> 5000 + length nodes"
  shows "validate_loop pages depth count nodes = Some (count + length (preorder nodes) - length nodes)"
  using assms
proof (induction pages depth count nodes rule: validate_loop.induct)
  case (2 pages depth count title opened link children rest)
  have l: "length children \<le> length (preorder children)" "length rest \<le> length (preorder rest)" by (rule preorder_length)+
  have c: "validate_loop pages (depth + 1) (count + length children) children = Some (count + length children + length (preorder children) - length children)"
    using "2.prems" l by (intro "2.IH"(1)) auto
  have "validate_loop pages depth (count + length (preorder children)) rest = Some (count + length (preorder children) + length (preorder rest) - length rest)"
    using "2.prems" l c by (intro "2.IH"(2)) auto
  then show ?case using "2.prems" l c by auto
qed simp

lemma validateNodes_accepts:
  assumes "outline_all (toc_node_ok pages) nodes" "height nodes \<le> 8" "length (preorder nodes) \<le> 5000"
  shows "validateNodes nodes pages"
  using validate_loop_accepts [of pages nodes 0 "length nodes"] assms preorder_length [of nodes] by (simp add: validateNodes_def)

section \<open>Lines and candidates\<close>

text \<open>What the text extraction gives: pages of the document, and a target on that page with normalised coordinates, or none.\<close>

definition collected_line :: "int \<Rightarrow> OutlineLine \<Rightarrow> bool" where
  "collected_line pages line \<longleftrightarrow> ol_page line < pages
     \<and> (let v = ol_viewport line in
        vp_page v < 0 \<or> vp_page v = ol_page line \<and> vp_coordinateMask v = 3 \<and> unit_interval (vp_normalizedX v) \<and> unit_interval (vp_normalizedY v))"

definition placed :: "int \<Rightarrow> OutlineLine \<Rightarrow> bool" where
  "placed pages line \<longleftrightarrow> collected_line pages line \<and> 0 \<le> ol_page line \<and> isfinite (ol_left line) \<and> isfinite (ol_top line)
     \<and> isfinite (ol_pageWidth line) \<and> fp_lt (Fin 0) (ol_pageWidth line) \<and> isfinite (ol_pageHeight line) \<and> fp_lt (Fin 0) (ol_pageHeight line)"

definition titled :: "OutlineLine \<Rightarrow> bool" where
  "titled line \<longleftrightarrow> ol_text line \<noteq> [] \<and> length (ol_text line) \<le> 160"

lemma placed_simps [simp]:
  "placed pages (line\<lparr>ol_text := t\<rparr>) = placed pages line" "placed pages (line\<lparr>ol_size := s\<rparr>) = placed pages line"
  by (simp_all add: placed_def collected_line_def)

lemma placed_append: "placed pages a \<Longrightarrow> placed pages b \<Longrightarrow> placed pages (appendLine a b)"
  by (cases "ol_left a"; cases "ol_left b") (auto simp: placed_def collected_line_def appendLine_def fp_min_def)

lemma page_append [simp]: "ol_page (appendLine a b) = ol_page a"
  by (simp add: appendLine_def)

lemma join_lines_placed:
  assumes "join_lines rnd h heading rest = (heading', rest')" "placed pages heading" "\<forall>l\<in>set rest. placed pages l"
  shows "placed pages heading' \<and> ol_page heading' = ol_page heading \<and> (\<exists>joined. rest = joined @ rest')"
  using assms
proof (induction rnd h heading rest rule: join_lines.induct)
  case (2 rnd h heading l rest)
  show ?case
  proof (cases "h l \<and> canJoinLines rnd heading l")
    case True
    with 2 have "placed pages heading' \<and> ol_page heading' = ol_page (appendLine heading l) \<and> (\<exists>joined. rest = joined @ rest')" by (simp add: placed_append)
    then show ?thesis by (auto intro: exI [of _ "l # _"])
  qed (use 2 in auto)
qed simp

lemma join_chapter_placed:
  assumes "join_chapter rnd h body heading rest = (heading', ch, rest')" "placed pages heading" "\<forall>l\<in>set rest. placed pages l"
  shows "placed pages heading' \<and> ol_page heading' = ol_page heading \<and> (\<exists>joined. rest = joined @ rest')"
  using assms by (cases rest) (auto simp: join_chapter_def placed_append split: if_splits)

lemma sorted_suffix: "sorted (xs @ p # (joined @ rest)) \<Longrightarrow> sorted (xs @ p # rest)"
  by (auto simp: sorted_append)

abbreviation candidate_pages :: "Candidate list \<Rightarrow> int list" where
  "candidate_pages cs \<equiv> map (\<lambda>c. ol_page (cd_line c)) cs"

definition candidates_ok :: "int \<Rightarrow> Candidate list \<Rightarrow> bool" where
  "candidates_ok pages cs \<longleftrightarrow> (\<forall>c\<in>set cs. placed pages (cd_line c) \<and> titled (cd_line c)) \<and> length cs \<le> MaxGeneratedOutlineNodes \<and> sorted (candidate_pages cs)"

lemma candidate_loop_ok:
  assumes "candidate_loop U rnd h body lines result = Inr result'" "\<forall>l\<in>set lines. placed pages l" "candidates_ok pages result"
    "sorted (candidate_pages result @ map ol_page lines)"
  shows "candidates_ok pages result'"
  using assms
proof (induction U rnd h body lines result rule: candidate_loop.induct)
  case (2 U rnd h body line rest result)
  let ?heading = "line\<lparr>ol_text := trimText (ol_text line)\<rparr>"
  show ?case
  proof (cases "h line")
    case False
    have "sorted (candidate_pages result @ map ol_page rest)" using "2.prems"(4) by (auto simp: sorted_append)
    then show ?thesis using 2 False by simp
  next
    case True
    obtain h1 ch r1 where c: "join_chapter rnd h body ?heading rest = (h1, ch, r1)" using prod_cases3 by blast
    obtain h2 r2 where j: "join_lines rnd h h1 r1 = (h2, r2)" by fastforce
    have c1: "placed pages h1" "ol_page h1 = ol_page line" "\<exists>joined. rest = joined @ r1" using join_chapter_placed [OF c] "2.prems"(2) by auto
    then have "\<forall>l\<in>set r1. placed pages l" using "2.prems"(2) by auto
    from join_lines_placed [OF j c1(1) this] c1 obtain joined where h2: "placed pages h2" "ol_page h2 = ol_page line" "rest = joined @ r2"
      by (metis append.assoc)
    have r2: "\<forall>l\<in>set r2. placed pages l" "sorted (candidate_pages result @ ol_page line # map ol_page r2)"
      using "2.prems"(2,4) sorted_suffix [of "candidate_pages result" "ol_page line" "map ol_page joined" "map ol_page r2"] by (auto simp: h2(3))
    then have skip: "sorted (candidate_pages result @ map ol_page r2)" by (auto simp: sorted_append)
    show ?thesis
    proof (cases "length (ol_text h2) > MaxGeneratedHeadingBytes \<or> normalizeTitle (ol_text h2) = [] \<or> \<not> hasTitleLetters U (ol_text h2)")
      case reject: True
      show ?thesis using "2.IH"(2) [OF _ c [symmetric] refl j [symmetric] reject] True "2.prems"(1,3) r2(1) skip reject by (simp add: c j)
    next
      case accept: False
      let ?result = "result @ [\<lparr>cd_line = h2, cd_chapter = ch, cd_level = 0\<rparr>]"
      have t: "titled h2" using accept by (auto simp: titled_def limits)
      have n: "\<not> length ?result > MaxGeneratedOutlineNodes" "candidate_loop U rnd h body r2 ?result = Inr result'"
        using "2.prems"(1) True accept by (auto simp: c j Let_def split: if_splits)
      have "candidates_ok pages ?result" using "2.prems"(3) r2(2) h2(1,2) t n(1) by (auto simp: candidates_ok_def sorted_append)
      moreover have "sorted (candidate_pages ?result @ map ol_page r2)" using r2(2) h2(2) by simp
      ultimately show ?thesis using "2.IH"(3) [OF _ c [symmetric] refl j [symmetric] accept refl n(1) n(2) r2(1)] True by simp
    qed
  qed
qed simp

section \<open>Preparation and levels\<close>

lemma set_insert_by [simp]: "set (insert_by lt x ys) = insert x (set ys)"
  by (induction lt x ys rule: insert_by.induct) auto

lemma set_stable_sort [simp]: "set (stable_sort lt xs) = set xs"
  by (induction xs) (simp_all add: stable_sort_def)

lemma insert_by_pages: "sorted (map ol_page ys) \<Longrightarrow> sorted (map ol_page (insert_by line_before x ys))"
proof (induction ys)
  case (Cons y ys)
  have "ol_page y \<le> ol_page x" if "line_before y x" using that by (auto simp: line_before_def split: if_splits)
  moreover have "ol_page x \<le> ol_page y" if "\<not> line_before y x" using that by (auto simp: line_before_def split: if_splits)
  ultimately show ?case using Cons by auto
qed simp

lemma stable_sort_pages: "sorted (map ol_page (stable_sort line_before xs))"
  by (induction xs) (simp_all add: stable_sort_def insert_by_pages)

lemma prepared_lines:
  assumes "\<forall>line\<in>set lines. collected_line pages line"
  shows "\<forall>line\<in>set (prepareOutlineLines rnd lines). placed pages line"
proof
  fix line
  assume "line \<in> set (prepareOutlineLines rnd lines)"
  then have l: "collected_line pages line" "\<not> malformed_line rnd line" using assms by (auto simp: prepareOutlineLines_def)
  have "isfinite x \<Longrightarrow> \<not> fp_le x (Fin 0) \<Longrightarrow> fp_lt (Fin 0) x" for x by (cases x) auto
  then show "placed pages line" using l by (auto simp: malformed_line_def placed_def)
qed

lemma findHeadingCandidates_ok:
  assumes "findHeadingCandidates U rnd (prepareOutlineLines rnd lines) contentsPages body repeatedMargins = Inr cs" "\<forall>line\<in>set lines. collected_line pages line"
  shows "candidates_ok pages cs"
proof (rule candidate_loop_ok [OF assms(1) [unfolded findHeadingCandidates_def]])
  show "\<forall>line\<in>set (prepareOutlineLines rnd lines). placed pages line" by (rule prepared_lines [OF assms(2)])
  show "candidates_ok pages []" by (simp add: candidates_ok_def)
  show "sorted (candidate_pages [] @ map ol_page (prepareOutlineLines rnd lines))" by (simp add: prepareOutlineLines_def stable_sort_pages)
qed

definition levelled :: "Candidate list \<Rightarrow> bool" where
  "levelled cs \<longleftrightarrow> (\<forall>c\<in>set cs. 0 \<le> cd_level c \<and> cd_level c \<le> 7)"

lemma rankSize_nonneg [simp]: "0 \<le> rankSize rnd s sizes"
proof -
  have "0 \<le> i \<Longrightarrow> 0 \<le> rank_loop rnd s i sizes" for i by (induction rnd s i sizes rule: rank_loop.induct) auto
  then show ?thesis by (simp add: rankSize_def)
qed

lemma parseHeading_components: "parseHeading U title = Some h \<Longrightarrow> hn_components h \<noteq> []"
  using heading_loop_sound [of "[]"] by (fastforce simp: parseHeading_def Let_def split: option.splits if_splits)

lemma typography_level_range: "0 \<le> typography_level U rnd s ch sizes c \<and> typography_level U rnd s ch sizes c \<le> 7"
proof -
  have "1 \<le> length (hn_components h)" if "parseHeading U (ol_text (cd_line c)) = Some h" for h
    using parseHeading_components [OF that] by (cases "hn_components h") auto
  then show ?thesis by (auto simp: typography_level_def Let_def limits min_def split: option.splits)
qed

lemma typography_ok: "candidates_ok pages cs \<Longrightarrow> candidates_ok pages (assignTypographyLevels U rnd cs) \<and> levelled (assignTypographyLevels U rnd cs)"
  by (simp add: candidates_ok_def levelled_def assignTypographyLevels_def Let_def comp_def typography_level_range)

definition index_below :: "nat \<Rightarrow> ByTitle \<Rightarrow> bool" where
  "index_below n m \<longleftrightarrow> (\<forall>p\<in>set m. \<forall>j\<in>set (snd p). j < n)"

lemma index_add_bound: "index_below n m \<Longrightarrow> i < n \<Longrightarrow> index_below n (index_add key i m)"
  by (induction key i m rule: index_add.induct) (auto simp: index_below_def)

lemma index_fold_bound:
  "index_below n m \<Longrightarrow> \<forall>x\<in>set xs. fst x < n \<Longrightarrow> index_below n (fold (\<lambda>(i, line). index_add (headingKey U (ol_text line)) i) xs m)"
  by (induction xs arbitrary: m) (auto simp: index_add_bound split: prod.splits)

lemma index_lines_bound:
  assumes "map_of (index_lines U lines) key = Some js" "j \<in> set js"
  shows "j < length lines"
proof -
  have "index_below (length lines) (index_lines U lines)"
    unfolding index_lines_def by (rule index_fold_bound) (auto simp: index_below_def in_set_enumerate_eq)
  then show ?thesis using map_of_SomeD [OF assms(1)] assms(2) by (fastforce simp: index_below_def)
qed

lemma closest_entry_in: "closest_entry c off es d found = Some e \<Longrightarrow> e \<in> set es \<or> found = Some e"
  by (induction c off es d found rule: closest_entry.induct) (auto simp: Let_def split: if_splits)

lemma contents_levels: "e \<in> set (assignContentsLevels rnd entries) \<Longrightarrow> 0 \<le> te_level e \<and> te_level e \<le> 7"
  by (auto simp: assignContentsLevels_def Let_def limits)

lemma match_loop_ok:
  assumes "\<And>e. e \<in> set entries \<Longrightarrow> 0 \<le> te_level e \<and> te_level e \<le> 7" "\<And>key is j. map_of index key = Some is \<Longrightarrow> j \<in> set is \<Longrightarrow> j < length entries"
  shows "cd_line ` set (match_loop U rnd entries index off sz cs back_matter) \<subseteq> cd_line ` set cs
    \<and> length (match_loop U rnd entries index off sz cs back_matter) \<le> length cs
    \<and> (sorted (candidate_pages cs) \<longrightarrow> sorted (candidate_pages (match_loop U rnd entries index off sz cs back_matter)))
    \<and> levelled (match_loop U rnd entries index off sz cs back_matter)"
  using assms
proof (induction U rnd entries index off sz cs back_matter rule: match_loop.induct)
  case (2 U rnd entries index off sz c cs back_matter)
  let ?key = "headingKey U (ol_text (cd_line c))"
  have drop: ?case if "match_loop U rnd entries index off sz (c # cs) back_matter = match_loop U rnd entries index off sz cs back_matter"
    "cd_line ` set (match_loop U rnd entries index off sz cs back_matter) \<subseteq> cd_line ` set cs
    \<and> length (match_loop U rnd entries index off sz cs back_matter) \<le> length cs
    \<and> (sorted (candidate_pages cs) \<longrightarrow> sorted (candidate_pages (match_loop U rnd entries index off sz cs back_matter)))
    \<and> levelled (match_loop U rnd entries index off sz cs back_matter)"
    using that by auto
  show ?case
  proof (cases "map_of index ?key")
    case None
    then show ?thesis using "2.IH"(1) [OF refl] "2.prems" by (intro drop) (simp_all add: Let_def)
  next
    case (Some js)
    let ?e = "closest_entry c off (map ((!) entries) js) (MaxContentsPageDistance + 1) None"
    show ?thesis
    proof (cases ?e)
      case None
      then show ?thesis using "2.IH"(2) [OF refl Some] "2.prems" Some by (intro drop) (simp_all add: Let_def)
    next
      case e: (Some e)
      from closest_entry_in [OF e] obtain j where "j \<in> set js" "e = entries ! j" by auto
      then have "e \<in> set entries" using "2.prems"(2) [OF Some] by auto
      then have l: "0 \<le> te_level e \<and> te_level e \<le> 7" by (rule "2.prems"(1))
      define bm where "bm = (if fp_lt (Fin 0) sz \<and> fp_le (fp_mul rnd sz (rnd MinMatchingFontSizeRatio)) (ol_size (cd_line c))
        \<and> ?key \<in> {''index'', ''bibliography'', ''references'', ''glossary''} then True else back_matter)"
      obtain lv where m: "match_loop U rnd entries index off sz (c # cs) back_matter = c\<lparr>cd_level := lv\<rparr> # match_loop U rnd entries index off sz cs bm" "0 \<le> lv" "lv \<le> 7"
        using l by (simp add: Some e Let_def bm_def split: if_splits)
      have "cd_line ` set (match_loop U rnd entries index off sz cs bm) \<subseteq> cd_line ` set cs \<and> length (match_loop U rnd entries index off sz cs bm) \<le> length cs
        \<and> (sorted (candidate_pages cs) \<longrightarrow> sorted (candidate_pages (match_loop U rnd entries index off sz cs bm))) \<and> levelled (match_loop U rnd entries index off sz cs bm)"
        unfolding bm_def using "2.IH"(3) [OF refl Some e refl refl refl] "2.prems" by simp
      then show ?thesis unfolding m(1) using m(2,3) by (fastforce simp: levelled_def)
    qed
  qed
qed (simp add: levelled_def)

section \<open>The generated outline\<close>

lemma matched_ok:
  assumes "candidates_ok pages cs"
  shows "candidates_ok pages (matchContentsHeadings U rnd cs (assignContentsLevels rnd entries) (indexContentsEntries U entries) off)
    \<and> levelled (matchContentsHeadings U rnd cs (assignContentsLevels rnd entries) (indexContentsEntries U entries) off)"
proof -
  have len: "length (assignContentsLevels rnd entries) = length entries" by (simp add: assignContentsLevels_def Let_def)
  have ix: "\<And>key js j. map_of (indexContentsEntries U entries) key = Some js \<Longrightarrow> j \<in> set js \<Longrightarrow> j < length (assignContentsLevels rnd entries)"
    using index_lines_bound by (fastforce simp: len indexContentsEntries_def)
  have lv: "\<And>e. e \<in> set (assignContentsLevels rnd entries) \<Longrightarrow> 0 \<le> te_level e \<and> te_level e \<le> 7" by (rule contents_levels)
  note m = match_loop_ok [where entries = "assignContentsLevels rnd entries" and index = "indexContentsEntries U entries", OF lv ix]
  define sel where "sel = matchContentsHeadings U rnd cs (assignContentsLevels rnd entries) (indexContentsEntries U entries) off"
  have sel: "cd_line ` set sel \<subseteq> cd_line ` set cs" "length sel \<le> length cs" "sorted (candidate_pages cs) \<Longrightarrow> sorted (candidate_pages sel)" "levelled sel"
    unfolding sel_def matchContentsHeadings_def Let_def using m by simp_all
  have "placed pages (cd_line c) \<and> titled (cd_line c)" if c: "c \<in> set sel" for c
  proof -
    from sel(1) c obtain d where "d \<in> set cs" "cd_line c = cd_line d" by blast
    then show ?thesis using assms by (simp add: candidates_ok_def)
  qed
  then show ?thesis unfolding sel_def [symmetric] using sel(2-4) assms by (simp add: candidates_ok_def)
qed

text \<open>Every outline the pipeline returns is assembled from acceptable candidates.\<close>

lemma generated_from_candidates:
  assumes "buildGeneratedOutline U rnd lines = Inr nodes" "\<forall>line\<in>set lines. collected_line pages line"
  shows "\<exists>cs. nodes = assembleOutline U rnd cs \<and> candidates_ok pages cs \<and> levelled cs"
proof -
  note ok = findHeadingCandidates_ok [OF _ assms(2)]
  from assms(1) show ?thesis
    unfolding buildGeneratedOutline_def Let_def typography_outline_def
    by (auto split: sum.splits if_splits dest!: ok dest: matched_ok typography_ok)
qed

lemma deduped_subset: "set (deduped U emitted cs) \<subseteq> set cs \<and> length (deduped U emitted cs) \<le> length cs"
  by (induction U emitted cs rule: deduped.induct) auto

lemma deduped_sorted: "sorted (candidate_pages cs) \<Longrightarrow> sorted (candidate_pages (deduped U emitted cs))"
proof (induction U emitted cs rule: deduped.induct)
  case (2 U emitted c cs)
  then show ?case using deduped_subset [of U "emission U c # emitted" cs] by auto
qed simp

lemma destination_unit:
  assumes "rounding_ok rnd" "unit_interval y" "isfinite h" "fp_lt (Fin 0) h"
  shows "unit_interval (normalizeDestinationY rnd y h)"
proof (cases "fp_lt (Fin DestinationTopMarginPoints) h")
  case True
  from assms(2,3) True obtain a b where a: "y = Fin a" "0 \<le> a" "a \<le> 1" and b: "h = Fin b" "12 < b"
    by (cases y; cases h) (auto simp: unit_interval_def DestinationTopMarginPoints_def)
  have rnd: "x \<le> 1 \<Longrightarrow> fp_le (rnd x) (Fin 1)" "0 \<le> x \<Longrightarrow> fp_le (Fin 0) (rnd x)" for x
    using assms(1) unfolding rounding_ok_def by metis+
  obtain c where c: "rnd (12 / b) = Fin c" "0 \<le> c"
    using rnd [of "12 / b"] b(2) by (cases "rnd (12 / b)") auto
  have "fp_le (rnd (a - c)) (Fin 1)" "rnd (a - c) \<noteq> NaN" using rnd(1) [of "a - c"] a(3) c(2) assms(1) by (auto simp: rounding_ok_def)
  then show ?thesis using a b c True assms(3)
    by (cases "rnd (a - c)") (auto simp: normalizeDestinationY_def fp_sub_def fp_max_def unit_interval_def DestinationTopMarginPoints_def)
qed (use assms in \<open>simp add: normalizeDestinationY_def\<close>)

lemma heading_entry_ok:
  assumes "rounding_ok rnd" "placed pages (cd_line c)" "titled (cd_line c)"
  shows "toc_node_ok pages (fst (heading_entry rnd c)) (snd (heading_entry rnd c)) \<and> vp_page (rl_viewport (snd (heading_entry rnd c))) = ol_page (cd_line c)"
proof -
  let ?l = "cd_line c"
  have f: "isfinite (ol_left ?l)" "isfinite (ol_top ?l)" "isfinite (ol_pageWidth ?l)" "fp_lt (Fin 0) (ol_pageWidth ?l)" "isfinite (ol_pageHeight ?l)"
    "fp_lt (Fin 0) (ol_pageHeight ?l)" using assms(2) by (simp_all add: placed_def)
  have x: "unit_interval (fp_clamp (fp_div rnd (ol_left ?l) (ol_pageWidth ?l)) (Fin 0) (Fin 1))"
    by (rule clamp_unit [OF div_not_NaN [OF assms(1) f(1,3,4)]])
  have y: "unit_interval (normalizeDestinationY rnd (fp_clamp (fp_div rnd (ol_top ?l) (ol_pageHeight ?l)) (Fin 0) (Fin 1)) (ol_pageHeight ?l))"
    by (rule destination_unit [OF assms(1) clamp_unit [OF div_not_NaN [OF assms(1) f(2,5,6)]] f(5,6)])
  show ?thesis using assms(2,3) x y
    by (auto simp: heading_entry_def outline_node_def toc_node_ok_def titled_def placed_def collected_line_def unit_interval_def Let_def)
qed

text \<open>An outline built from collected lines is one that the outline cache accepts.\<close>

lemma generated_outline_valid:
  assumes "rounding_ok rnd" "\<forall>line\<in>set lines. collected_line pageCount line" "buildGeneratedOutline U rnd lines = Inr nodes"
  shows "validateNodes nodes pageCount"
proof -
  from generated_from_candidates [OF assms(3,2)] obtain cs where cs: "nodes = assembleOutline U rnd cs" "candidates_ok pageCount cs" "levelled cs" by blast
  note d = deduped_subset [of U "[]" cs]
  have "outline_all (toc_node_ok pageCount) nodes"
    using d cs(2) heading_entry_ok [OF assms(1)] unfolding outline_all_preorder cs(1) assembled(1)
    by (auto simp: list_all_iff candidates_ok_def case_prod_beta)
  moreover have "height nodes \<le> 8" using assembled(3) cs(1,3) by (auto simp: levelled_def)
  moreover have "length (preorder nodes) \<le> 5000" using d cs(2) by (simp add: cs(1) assembled(1) candidates_ok_def limits)
  ultimately show ?thesis by (rule validateNodes_accepts)
qed

text \<open>
  C22. Read from top to bottom, a generated outline goes through the document: the target pages of all its entries, whatever their
  level, never decrease, although the lines may have been drawn in any order.
\<close>

theorem generated_outline_page_order:
  assumes "rounding_ok rnd" "\<forall>line\<in>set lines. collected_line pageCount line" "buildGeneratedOutline U rnd lines = Inr nodes"
  shows "sorted (map (\<lambda>(title, link). vp_page (rl_viewport link)) (preorder nodes))"
proof -
  from generated_from_candidates [OF assms(3,2)] obtain cs where cs: "nodes = assembleOutline U rnd cs" "candidates_ok pageCount cs" by blast
  have "map (\<lambda>(title, link). vp_page (rl_viewport link)) (preorder nodes) = candidate_pages (deduped U [] cs)"
    using heading_entry_ok [OF assms(1)] cs(2) deduped_subset [of U "[]" cs] unfolding cs(1) assembled(1)
    by (auto simp: candidates_ok_def case_prod_beta)
  then show ?thesis using deduped_sorted [of cs U "[]"] cs(2) by (simp add: candidates_ok_def)
qed

text \<open>
  C21. Numbers and nesting agree: in every generated outline, a numbered heading that is placed directly below a numbered heading extends
  the number of that heading by further components, so that 11.2 never appears below chapter 10.
\<close>

theorem generated_outline_numbering:
  assumes "buildGeneratedOutline U rnd lines = Inr nodes"
  shows "nested U [] nodes"
proof -
  have "\<exists>cs. nodes = assembleOutline U rnd cs"
    using assms unfolding buildGeneratedOutline_def typography_outline_def Let_def by (auto split: sum.splits if_splits)
  then show ?thesis using assembled(2) by blast
qed

text \<open>Two headings of a page, drawn in the wrong order, with body text.\<close>

definition ascii_tables :: UnicodeTables where
  "ascii_tables = \<lparr>ut_chartorunen = (\<lambda>s. (of_char (hd s), 1)), ut_letter = (\<lambda>c. 65 \<le> c \<and> c \<le> 90 \<or> 97 \<le> c \<and> c \<le> 122)\<rparr>"

definition line0 :: "string \<Rightarrow> real \<Rightarrow> real \<Rightarrow> OutlineLine" where
  "line0 str s y = \<lparr>ol_text = str, ol_fontFamily = ''B'', ol_size = Fin s, ol_boldFraction = Fin 0, ol_monospaced = False, ol_page = 0, ol_left = Fin 50, ol_top = Fin y,
     ol_right = Fin 400, ol_bottom = Fin (y + s), ol_pageWidth = Fin 600, ol_pageHeight = Fin 800,
     ol_viewport = \<lparr>vp_page = - 1, vp_normalizedX = Fin 0, vp_normalizedY = Fin 0, vp_coordinateMask = 0\<rparr>\<rparr>"

definition lines0 :: "OutlineLine list" where
  "lines0 = [line0 ''1.2 B'' 16 200, line0 ''plain text plain text plain'' 12 100, line0 ''1 A'' 18 150]"

lemma lines0_collected: "\<forall>line\<in>set lines0. collected_line 1 line"
  by (simp add: lines0_def line0_def collected_line_def)

lemma lines0_generated:
  "\<exists>nodes. buildGeneratedOutline ascii_tables Fin lines0 = Inr nodes \<and> map fst (preorder nodes) = [''1 A'', ''1.2 B''] \<and> length nodes = 1"
proof -
  have "map_sum id (\<lambda>nodes. (map fst (preorder nodes), length nodes)) (buildGeneratedOutline ascii_tables Fin lines0) = Inr ([''1 A'', ''1.2 B''], 1)"
    by code_simp
  then show ?thesis by (cases "buildGeneratedOutline ascii_tables Fin lines0") auto
qed

theorem generated_outline_page_order_witness:
  "\<exists>nodes. buildGeneratedOutline ascii_tables Fin lines0 = Inr nodes \<and> map fst (preorder nodes) = [''1 A'', ''1.2 B'']
     \<and> sorted (map (\<lambda>(title, link). vp_page (rl_viewport link)) (preorder nodes))"
proof -
  obtain nodes where nodes: "buildGeneratedOutline ascii_tables Fin lines0 = Inr nodes" "map fst (preorder nodes) = [''1 A'', ''1.2 B'']" "length nodes = 1"
    using lines0_generated by (elim exE conjE)
  show ?thesis by (intro exI [of _ nodes] conjI nodes generated_outline_page_order [OF rounding_exact lines0_collected nodes(1)])
qed

theorem generated_outline_numbering_witness:
  "\<exists>nodes. buildGeneratedOutline ascii_tables Fin lines0 = Inr nodes \<and> map fst (preorder nodes) = [''1 A'', ''1.2 B''] \<and> length nodes = 1 \<and> nested ascii_tables [] nodes"
proof -
  obtain nodes where nodes: "buildGeneratedOutline ascii_tables Fin lines0 = Inr nodes" "map fst (preorder nodes) = [''1 A'', ''1.2 B'']" "length nodes = 1"
    using lines0_generated by (elim exE conjE)
  show ?thesis by (intro exI [of _ nodes] conjI nodes generated_outline_numbering [OF nodes(1)])
qed

end
