(* ===== verification/Outline_Source.thy ===== *)
theory Outline_Source
  imports Generated_Outline_Laws
begin

text \<open>
  Where outlines come from (\<^verbatim>\<open>src/src/worker/engine/pdf/outline.cpp\<close>): the copy of a document's own outline, and the collection of
  text lines for a generated one. MuPDF's structured text and outline items are data; \<open>rnd\<close> rounds to \<open>double\<close> and \<open>rndf\<close> to
  \<open>float\<close>.
\<close>

section \<open>Structured text\<close>

record FontInfo =
  fi_name :: string
  fi_bold :: bool
  fi_monospaced :: bool

record StextChar =
  sc_c :: int
  sc_size :: fp
  sc_font :: "FontInfo option"

record FzRect =
  fr_x0 :: fp
  fr_y0 :: fp
  fr_x1 :: fp
  fr_y1 :: fp

record StextLine =
  sl_chars :: "StextChar list"
  sl_wmode :: int
  sl_bbox :: FzRect
  sl_dirX :: fp
  sl_dirY :: fp

text \<open>A page has its bounds and the lines of its text blocks.\<close>

record StextPage =
  sp_bounds :: FzRect
  sp_lines :: "StextLine list"

text \<open>The functions of MuPDF and of the mathematical library: encoding a code point, the arc tangent, and a rectangle turned by an angle.\<close>

record FitzTables = UnicodeTables +
  ft_runetochar :: "int \<Rightarrow> string"
  ft_atan2 :: "fp \<Rightarrow> fp \<Rightarrow> fp"
  ft_turn :: "fp \<Rightarrow> FzRect \<Rightarrow> FzRect"

definition generated_maxPages :: int where [limits]: "generated_maxPages = 5000"
definition generated_maxCharacters :: int where [limits]: "generated_maxCharacters = 32 * 1024 * 1024"
definition generated_maxLines :: int where [limits]: "generated_maxLines = 100000"
definition generated_maxLineBytes :: nat where [limits]: "generated_maxLineBytes = 4096"
definition UnicodeMaxCodePoint :: int where [limits]: "UnicodeMaxCodePoint = 0x10FFFF"
definition UnicodeSurrogateMin :: int where [limits]: "UnicodeSurrogateMin = 0xD800"
definition UnicodeSurrogateMax :: int where [limits]: "UnicodeSurrogateMax = 0xDFFF"

section \<open>The dominant style of a line\<close>

type_synonym GlyphStyle = "string \<times> int \<times> bool"

definition glyph_style_less :: "GlyphStyle \<Rightarrow> GlyphStyle \<Rightarrow> bool" where
  "glyph_style_less a b \<longleftrightarrow> (case (a, b) of ((f, s, m), (f', s', m')) \<Rightarrow> str_less f f' \<or> f = f' \<and> (s < s' \<or> s = s' \<and> \<not> m \<and> m'))"

fun contains_text :: "string \<Rightarrow> string \<Rightarrow> bool" where
  "contains_text pat [] = (pat = [])"
| "contains_text pat (c # cs) = (take (length pat) (c # cs) = pat \<or> contains_text pat cs)"

definition is_bold :: "FontInfo \<Rightarrow> bool" where
  "is_bold font \<longleftrightarrow> fi_bold font \<or> contains_text ''Bold'' (fi_name font) \<or> contains_text ''bold'' (fi_name font)"

definition font_family :: "string \<Rightarrow> string" where
  "font_family name =
     (let start = (if CHR ''+'' \<in> set name then tl (dropWhile (\<lambda>c. c \<noteq> CHR ''+'') name) else name) in takeWhile (\<lambda>c. c \<noteq> CHR ''-'') start)"

record GlyphCount =
  gc_text :: string
  gc_styles :: "(GlyphStyle \<times> nat) list"
  gc_glyphs :: nat
  gc_boldGlyphs :: nat

definition no_glyphs :: GlyphCount where
  "no_glyphs = \<lparr>gc_text = [], gc_styles = [], gc_glyphs = 0, gc_boldGlyphs = 0\<rparr>"

definition count_glyph :: "rounding \<Rightarrow> fp \<Rightarrow> FontInfo \<Rightarrow> GlyphCount \<Rightarrow> GlyphCount" where
  "count_glyph rndf glyphSize font g =
     g\<lparr>gc_styles := bump glyph_style_less (font_family (fi_name font), fp_round (fp_mul rndf glyphSize (Fin 2)), fi_monospaced font) 1 (gc_styles g),
       gc_glyphs := gc_glyphs g + 1, gc_boldGlyphs := gc_boldGlyphs g + (if is_bold font then 1 else 0)\<rparr>"

text \<open>The loop over the characters of a line; \<open>characters\<close> counts those of the whole document. \<open>None\<close> is the text limit.\<close>

fun char_loop :: "FitzTables \<Rightarrow> rounding \<Rightarrow> StextChar list \<Rightarrow> GlyphCount \<Rightarrow> int \<Rightarrow> (GlyphCount \<times> int) option" where
  "char_loop T rndf [] g characters = Some (g, characters)"
| "char_loop T rndf (ch # chs) g characters =
     (if characters + 1 > generated_maxCharacters then None
      else if sc_c ch < 32 \<or> sc_c ch > UnicodeMaxCodePoint \<or> (sc_c ch \<ge> UnicodeSurrogateMin \<and> sc_c ch \<le> UnicodeSurrogateMax)
      then char_loop T rndf chs g (characters + 1)
      else
        let g1 = g\<lparr>gc_text := gc_text g @ ft_runetochar T (sc_c ch)\<rparr> in
        if length (gc_text g1) > generated_maxLineBytes then Some (g1, characters + 1)
        else case sc_font ch of
          None \<Rightarrow> char_loop T rndf chs g1 (characters + 1)
        | Some font \<Rightarrow>
          if sc_c ch = 32 \<or> \<not> isfinite (sc_size ch) \<or> fp_le (sc_size ch) (Fin 0) \<or> fp_le (Fin 1000) (sc_size ch)
          then char_loop T rndf chs g1 (characters + 1)
          else char_loop T rndf chs (count_glyph rndf (sc_size ch) font g1) (characters + 1))"

section \<open>Collecting lines\<close>

definition line_viewport :: "rounding \<Rightarrow> rounding \<Rightarrow> int \<Rightarrow> FzRect \<Rightarrow> FzRect \<Rightarrow> Viewport" where
  "line_viewport rnd rndf pageIndex bounds bbox =
     (let width = fp_sub rndf (fr_x1 bounds) (fr_x0 bounds); height = fp_sub rndf (fr_y1 bounds) (fr_y0 bounds) in
      \<lparr>vp_page = pageIndex,
       vp_normalizedX = fp_clamp (fp_div rnd (fp_sub rndf (fr_x0 bbox) (fr_x0 bounds)) width) (Fin 0) (Fin 1),
       vp_normalizedY = normalizeDestinationY rnd (fp_clamp (fp_div rnd (fp_sub rndf (fr_y0 bbox) (fr_y0 bounds)) height) (Fin 0) (Fin 1)) height,
       vp_coordinateMask = 3\<rparr>)"

definition bad_geometry :: "rounding \<Rightarrow> FzRect \<Rightarrow> FzRect \<Rightarrow> bool" where
  "bad_geometry rndf bounds bbox \<longleftrightarrow>
     (let width = fp_sub rndf (fr_x1 bounds) (fr_x0 bounds); height = fp_sub rndf (fr_y1 bounds) (fr_y0 bounds) in
      \<not> isfinite width \<or> \<not> isfinite height \<or> fp_le width (Fin 0) \<or> fp_le height (Fin 0)
      \<or> \<not> isfinite (fr_x0 bbox) \<or> \<not> isfinite (fr_y0 bbox) \<or> \<not> isfinite (fr_x1 bbox) \<or> \<not> isfinite (fr_y1 bbox))"

definition slanted :: "rounding \<Rightarrow> StextLine \<Rightarrow> bool" where
  "slanted rndf line \<longleftrightarrow> \<not> isfinite (sl_dirX line) \<or> \<not> isfinite (sl_dirY line)
     \<or> fp_lt (fp_max (fp_abs (sl_dirX line)) (fp_abs (sl_dirY line))) (rndf (9 / 10))"

definition reading_angle :: "FitzTables \<Rightarrow> rounding \<Rightarrow> StextLine \<Rightarrow> fp" where
  "reading_angle T rndf line =
     (let degrees = fp_div rndf (fp_mul rndf (ft_atan2 T (sl_dirY line) (sl_dirX line)) (Fin 180)) (rndf (314159265 / 100000000)) in
      fp_mul rndf (Fin (of_int (fp_round (fp_div rndf degrees (Fin 90))))) (Fin 90))"

definition make_line :: "FitzTables \<Rightarrow> rounding \<Rightarrow> rounding \<Rightarrow> int \<Rightarrow> FzRect \<Rightarrow> StextLine \<Rightarrow> GlyphCount \<Rightarrow> OutlineLine" where
  "make_line T rnd rndf pageIndex bounds line g =
     (let turn = ft_turn T (fp_neg (reading_angle T rndf line)); readingBounds = turn bounds; rect = turn (sl_bbox line);
          dominant = fst (max_count (hd (gc_styles g)) (tl (gc_styles g))) in
      \<lparr>ol_text = gc_text g, ol_fontFamily = fst dominant, ol_size = fp_div rnd (Fin (of_int (fst (snd dominant)))) (Fin 2),
       ol_boldFraction = fp_div rnd (Fin (of_nat (gc_boldGlyphs g))) (Fin (of_nat (gc_glyphs g))), ol_monospaced = snd (snd dominant), ol_page = pageIndex,
       ol_left = fp_sub rndf (fr_x0 rect) (fr_x0 readingBounds), ol_top = fp_sub rndf (fr_y0 rect) (fr_y0 readingBounds),
       ol_right = fp_sub rndf (fr_x1 rect) (fr_x0 readingBounds), ol_bottom = fp_sub rndf (fr_y1 rect) (fr_y0 readingBounds),
       ol_pageWidth = fp_sub rndf (fr_x1 readingBounds) (fr_x0 readingBounds), ol_pageHeight = fp_sub rndf (fr_y1 readingBounds) (fr_y0 readingBounds),
       ol_viewport = line_viewport rnd rndf pageIndex bounds (sl_bbox line)\<rparr>)"

record Collection =
  co_lines :: "OutlineLine list"
  co_textBytes :: int
  co_characters :: int

fun line_loop :: "FitzTables \<Rightarrow> rounding \<Rightarrow> rounding \<Rightarrow> int \<Rightarrow> FzRect \<Rightarrow> StextLine list \<Rightarrow> Collection \<Rightarrow> string + Collection" where
  "line_loop T rnd rndf pageIndex bounds [] co = Inr co"
| "line_loop T rnd rndf pageIndex bounds (line # rest) co =
     (if sl_chars line = [] \<or> sl_wmode line \<noteq> 0 then line_loop T rnd rndf pageIndex bounds rest co
      else case char_loop T rndf (sl_chars line) no_glyphs (co_characters co) of
        None \<Rightarrow> Inl ''resource limit: generated outline text limit exceeded''
      | Some (g, characters) \<Rightarrow>
        let co1 = co\<lparr>co_characters := characters\<rparr> in
        if gc_text g = [] \<or> length (gc_text g) > generated_maxLineBytes \<or> gc_styles g = [] then line_loop T rnd rndf pageIndex bounds rest co1
        else
          let co2 = co1\<lparr>co_textBytes := co_textBytes co1 + int (length (gc_text g))\<rparr> in
          if co_textBytes co2 > generated_maxCharacters \<or> int (length (co_lines co2)) \<ge> generated_maxLines
          then Inl ''resource limit: generated outline line storage limit exceeded''
          else if bad_geometry rndf bounds (sl_bbox line) \<or> slanted rndf line then line_loop T rnd rndf pageIndex bounds rest co2
          else line_loop T rnd rndf pageIndex bounds rest (co2\<lparr>co_lines := co_lines co2 @ [make_line T rnd rndf pageIndex bounds line g]\<rparr>))"

text \<open>Loading a page can fail with a message; \<open>expired k\<close> is the answer of the \<open>k\<close>-th look at the clock.\<close>

fun page_loop :: "FitzTables \<Rightarrow> rounding \<Rightarrow> rounding \<Rightarrow> (int \<Rightarrow> string + StextPage) \<Rightarrow> (nat \<Rightarrow> bool) \<Rightarrow> nat \<Rightarrow> int \<Rightarrow> Collection \<Rightarrow> string + Collection" where
  "page_loop T rnd rndf loaded expired 0 pageIndex co = Inr co"
| "page_loop T rnd rndf loaded expired (Suc n) pageIndex co =
     (if expired (nat pageIndex) then Inl ''resource limit: generated outline time limit exceeded''
      else case loaded pageIndex of
        Inl message \<Rightarrow> Inl message
      | Inr page \<Rightarrow>
        (case line_loop T rnd rndf pageIndex (sp_bounds page) (sp_lines page) co of
           Inl message \<Rightarrow> Inl message
         | Inr co1 \<Rightarrow> page_loop T rnd rndf loaded expired n (pageIndex + 1) co1))"

fun outline_error_text :: "OutlineError \<Rightarrow> string" where
  "outline_error_text ContentsWorkLimitExceeded = ''generated outline contents work limit exceeded''"
| "outline_error_text NodeLimitExceeded = ''generated outline node limit exceeded''"

definition generateOutline :: "FitzTables \<Rightarrow> rounding \<Rightarrow> rounding \<Rightarrow> (int \<Rightarrow> string + StextPage) \<Rightarrow> (nat \<Rightarrow> bool) \<Rightarrow> bool \<Rightarrow> int \<Rightarrow> string + OutlineNode list" where
  "generateOutline T rnd rndf loaded expired available pageCount =
     (if \<not> available then Inl ''document is unavailable''
      else if pageCount > generated_maxPages then Inl ''resource limit: generated outline page limit exceeded''
      else case page_loop T rnd rndf loaded expired (nat pageCount) 0 \<lparr>co_lines = [], co_textBytes = 0, co_characters = 0\<rparr> of
        Inl message \<Rightarrow> Inl message
      | Inr co \<Rightarrow>
        if expired (nat pageCount) then Inl ''resource limit: generated outline time limit exceeded''
        else case buildGeneratedOutline (UnicodeTables.truncate T) rnd (co_lines co) of
          Inl e \<Rightarrow> Inl (''resource limit: '' @ outline_error_text e)
        | Inr result \<Rightarrow> if expired (nat pageCount + 1) then Inl ''resource limit: generated outline time limit exceeded'' else Inr result)"

section \<open>The document's own outline\<close>

definition copy_maxDepth :: nat where [limits]: "copy_maxDepth = 64"
definition copy_maxNodes :: nat where [limits]: "copy_maxNodes = 100000"

datatype FzOutline = FzOutline (fo_title: "string option") (fo_open: bool) (fo_uri: "string option") (fo_down: "FzOutline list")

text \<open>\<open>resolve\<close> is the document's link resolution, a link and an error message; the result carries the node counter.\<close>

definition default_link :: ResolvedLink where
  "default_link = \<lparr>rl_external = False, rl_uri = [],
     rl_viewport = \<lparr>vp_page = - 1, vp_normalizedX = Fin 0, vp_normalizedY = Fin 0, vp_coordinateMask = 0\<rparr>, rl_valid = False\<rparr>"

fun copy_loop :: "(string \<Rightarrow> string + ResolvedLink) \<Rightarrow> nat \<Rightarrow> nat \<Rightarrow> FzOutline list \<Rightarrow> string + (OutlineNode list \<times> nat)" where
  "copy_loop resolve depth count [] = Inr ([], count)"
| "copy_loop resolve depth count (FzOutline title opened uri down # items) =
     (if count + 1 > copy_maxNodes then Inl ''outline node limit exceeded''
      else case (case uri of None \<Rightarrow> Inr default_link | Some u \<Rightarrow> resolve u) of
        Inl message \<Rightarrow> Inl message
      | Inr link \<Rightarrow>
        if depth + 1 > copy_maxDepth then Inl ''outline nesting limit exceeded''
        else case copy_loop resolve (depth + 1) (count + 1) down of
          Inl message \<Rightarrow> Inl message
        | Inr (children, count1) \<Rightarrow>
          (case copy_loop resolve depth count1 items of
             Inl message \<Rightarrow> Inl message
           | Inr (rest, count2) \<Rightarrow> Inr (OutlineNode (case title of None \<Rightarrow> [] | Some t \<Rightarrow> t) opened link children # rest, count2)))"

definition pdf_outline :: "(string \<Rightarrow> string + ResolvedLink) \<Rightarrow> bool \<Rightarrow> string + FzOutline list \<Rightarrow> string + OutlineNode list" where
  "pdf_outline resolve available loaded =
     (if \<not> available then Inl ''document is unavailable''
      else case loaded of
        Inl message \<Rightarrow> Inl message
      | Inr items \<Rightarrow> (case copy_loop resolve 0 0 items of Inl message \<Rightarrow> Inl message | Inr (nodes, count) \<Rightarrow> Inr nodes))"

section \<open>Collected lines have targets on their page\<close>

lemma fp_sub_finite:
  assumes "rounding_ok rnd" "isfinite (fp_sub rnd a b)"
  shows "isfinite a \<and> isfinite b"
  using assms by (cases a; cases b) (auto simp: fp_sub_def)

lemma fp_sub_not_NaN: "rounding_ok rnd \<Longrightarrow> isfinite a \<Longrightarrow> isfinite b \<Longrightarrow> fp_sub rnd a b \<noteq> NaN"
  by (cases a; cases b) (auto simp: fp_sub_def rounding_ok_def)

lemma fp_div_positive_not_NaN: "rounding_ok rnd \<Longrightarrow> a \<noteq> NaN \<Longrightarrow> isfinite b \<Longrightarrow> \<not> fp_le b (Fin 0) \<Longrightarrow> fp_div rnd a b \<noteq> NaN"
  by (cases a; cases b) (auto simp: rounding_ok_def fp_inf_def)

lemma line_viewport_ok:
  assumes "rounding_ok rnd" "rounding_ok rndf" "\<not> bad_geometry rndf bounds bbox"
  shows "unit_interval (vp_normalizedX (line_viewport rnd rndf p bounds bbox)) \<and> unit_interval (vp_normalizedY (line_viewport rnd rndf p bounds bbox))"
proof -
  let ?w = "fp_sub rndf (fr_x1 bounds) (fr_x0 bounds)" and ?h = "fp_sub rndf (fr_y1 bounds) (fr_y0 bounds)"
  from assms(3) have g: "isfinite ?w" "isfinite ?h" "\<not> fp_le ?w (Fin 0)" "\<not> fp_le ?h (Fin 0)" "isfinite (fr_x0 bbox)" "isfinite (fr_y0 bbox)"
    by (auto simp: bad_geometry_def Let_def)
  have b: "isfinite (fr_x0 bounds)" "isfinite (fr_y0 bounds)" using fp_sub_finite [OF assms(2)] g(1,2) by blast+
  note n = fp_sub_not_NaN [OF assms(2) g(5) b(1)] fp_sub_not_NaN [OF assms(2) g(6) b(2)]
  have x: "unit_interval (fp_clamp (fp_div rnd (fp_sub rndf (fr_x0 bbox) (fr_x0 bounds)) ?w) (Fin 0) (Fin 1))"
    by (rule clamp_unit [OF fp_div_positive_not_NaN [OF assms(1) n(1) g(1,3)]])
  have y: "unit_interval (fp_clamp (fp_div rnd (fp_sub rndf (fr_y0 bbox) (fr_y0 bounds)) ?h) (Fin 0) (Fin 1))"
    by (rule clamp_unit [OF fp_div_positive_not_NaN [OF assms(1) n(2) g(2,4)]])
  have "fp_lt (Fin 0) ?h" using g(2,4) by (cases ?h) auto
  then show ?thesis using x destination_unit [OF assms(1) y g(2)] by (simp add: line_viewport_def Let_def)
qed

lemma line_loop_collected:
  assumes "rounding_ok rnd" "rounding_ok rndf" "0 \<le> pageIndex" "pageIndex < pageCount"
    "line_loop T rnd rndf pageIndex bounds lines co = Inr co'" "\<forall>line\<in>set (co_lines co). collected_line pageCount line"
  shows "\<forall>line\<in>set (co_lines co'). collected_line pageCount line"
  using assms(5,6)
proof (induction lines arbitrary: co)
  case (Cons line lines)
  have "collected_line pageCount (make_line T rnd rndf pageIndex bounds line g)" if "\<not> bad_geometry rndf bounds (sl_bbox line)" for g
    using line_viewport_ok [OF assms(1,2) that, of pageIndex] assms(3,4) by (simp add: collected_line_def make_line_def line_viewport_def Let_def)
  note new = this
  note frame [simp] = Cons.prems(2)
  show ?case
  proof (cases "sl_chars line = [] \<or> sl_wmode line \<noteq> 0")
    case False
    with Cons.prems(1) obtain g n where ch: "char_loop T rndf (sl_chars line) no_glyphs (co_characters co) = Some (g, n)"
      by (cases "char_loop T rndf (sl_chars line) no_glyphs (co_characters co)") auto
    consider (skip) "gc_text g = [] \<or> length (gc_text g) > generated_maxLineBytes \<or> gc_styles g = []"
      | (rejected) "bad_geometry rndf bounds (sl_bbox line) \<or> slanted rndf line" "\<not> (gc_text g = [] \<or> length (gc_text g) > generated_maxLineBytes \<or> gc_styles g = [])"
      | (kept) "\<not> (bad_geometry rndf bounds (sl_bbox line) \<or> slanted rndf line)" "\<not> (gc_text g = [] \<or> length (gc_text g) > generated_maxLineBytes \<or> gc_styles g = [])"
      by blast
    then show ?thesis
    proof cases
      case skip
      then show ?thesis using Cons.prems(1) False ch Cons.IH [of "co\<lparr>co_characters := n\<rparr>"] by (simp add: Let_def)
    next
      case rejected
      then show ?thesis using Cons.prems(1) False ch Cons.IH [of "co\<lparr>co_characters := n, co_textBytes := co_textBytes co + int (length (gc_text g))\<rparr>"]
        by (simp add: Let_def split: if_splits)
    next
      case kept
      then show ?thesis using Cons.prems(1) False ch new [of g] Cons.IH [of "co\<lparr>co_characters := n, co_textBytes := co_textBytes co + int (length (gc_text g)),
          co_lines := co_lines co @ [make_line T rnd rndf pageIndex bounds line g]\<rparr>"]
        by (simp add: Let_def split: if_splits)
    qed
  qed (use Cons in simp)
qed simp

lemma page_loop_collected:
  assumes "rounding_ok rnd" "rounding_ok rndf" "0 \<le> pageIndex" "pageIndex + int n \<le> pageCount"
    "page_loop T rnd rndf loaded expired n pageIndex co = Inr co'" "\<forall>line\<in>set (co_lines co). collected_line pageCount line"
  shows "\<forall>line\<in>set (co_lines co'). collected_line pageCount line"
  using assms(3-)
proof (induction n arbitrary: pageIndex co)
  case (Suc n)
  from Suc.prems(3) obtain page :: StextPage and co1 where l: "line_loop T rnd rndf pageIndex (sp_bounds page) (sp_lines page) co = Inr co1"
    "page_loop T rnd rndf loaded expired n (pageIndex + 1) co1 = Inr co'"
    by (simp split: if_splits sum.splits)
  have "pageIndex < pageCount" using Suc.prems(2) by simp
  from line_loop_collected [OF assms(1,2) Suc.prems(1) this l(1) Suc.prems(4)] show ?case using Suc.IH [OF _ _ l(2)] Suc.prems(1,2) by simp
qed simp

text \<open>
  C10. Whatever a document contains and however MuPDF lays out its text, an outline that the worker generates is one that the outline cache
  of the plugin accepts: at most 5000 nodes on at most eight levels, titles of 1 to 160 bytes, and every target on a page of the
  document with normalised coordinates.
\<close>

theorem generated_outline_cacheable:
  assumes "rounding_ok rnd" "rounding_ok rndf" "generateOutline T rnd rndf loaded expired available pageCount = Inr nodes" "0 \<le> pageCount"
  shows "validateNodes nodes pageCount"
proof -
  from assms(3) obtain co where c: "page_loop T rnd rndf loaded expired (nat pageCount) 0 \<lparr>co_lines = [], co_textBytes = 0, co_characters = 0\<rparr> = Inr co"
    "buildGeneratedOutline (UnicodeTables.truncate T) rnd (co_lines co) = Inr nodes"
    by (auto simp: generateOutline_def split: if_splits sum.splits)
  have "\<forall>line\<in>set (co_lines co). collected_line pageCount line"
    using page_loop_collected [OF assms(1,2) _ _ c(1), of pageCount] assms(4) by simp
  then show ?thesis by (rule generated_outline_valid [OF assms(1) _ c(2)])
qed

text \<open>A page with a heading above body text; rectangles are not turned.\<close>

definition fitz_tables :: FitzTables where
  "fitz_tables = UnicodeTables.extend ascii_tables \<lparr>ft_runetochar = (\<lambda>c. [char_of (nat c)]), ft_atan2 = (\<lambda>_ _. Fin 0), ft_turn = (\<lambda>_ r. r)\<rparr>"

definition stext_line0 :: "string \<Rightarrow> real \<Rightarrow> real \<Rightarrow> StextLine" where
  "stext_line0 str s y =
     \<lparr>sl_chars = map (\<lambda>c. \<lparr>sc_c = of_char c, sc_size = Fin s, sc_font = Some \<lparr>fi_name = ''B'', fi_bold = False, fi_monospaced = False\<rparr>\<rparr>) str, sl_wmode = 0,
      sl_bbox = \<lparr>fr_x0 = Fin 50, fr_y0 = Fin y, fr_x1 = Fin 400, fr_y1 = Fin (y + s)\<rparr>, sl_dirX = Fin 1, sl_dirY = Fin 0\<rparr>"

definition stext_page0 :: StextPage where
  "stext_page0 = \<lparr>sp_bounds = \<lparr>fr_x0 = Fin 0, fr_y0 = Fin 0, fr_x1 = Fin 600, fr_y1 = Fin 800\<rparr>,
     sp_lines = [stext_line0 ''1 A'' 18 150, stext_line0 ''plain text plain text plain'' 12 200]\<rparr>"

theorem generated_outline_cacheable_witness:
  "\<exists>nodes. generateOutline fitz_tables Fin Fin (\<lambda>_. Inr stext_page0) (\<lambda>_. False) True 1 = Inr nodes \<and> map fst (preorder nodes) = [''1 A'']
     \<and> validateNodes nodes 1"
proof -
  have "map_sum id (\<lambda>nodes. map fst (preorder nodes)) (generateOutline fitz_tables Fin Fin (\<lambda>_. Inr stext_page0) (\<lambda>_. False) True 1) = Inr [''1 A'']"
    by code_simp
  then obtain nodes where nodes: "generateOutline fitz_tables Fin Fin (\<lambda>_. Inr stext_page0) (\<lambda>_. False) True 1 = Inr nodes" "map fst (preorder nodes) = [''1 A'']"
    by (cases "generateOutline fitz_tables Fin Fin (\<lambda>_. Inr stext_page0) (\<lambda>_. False) True 1") auto
  show ?thesis by (intro exI [of _ nodes] conjI nodes generated_outline_cacheable [OF rounding_exact rounding_exact nodes(1)]) simp
qed

end
