(* ===== verification/Render_Cancel.thy ===== *)
theory Render_Cancel
  imports Mu_Prelude
begin

text \<open>
  Rendering that its caller can abandon (\<^verbatim>\<open>WorkerClient::render\<close> in \<^verbatim>\<open>src/src/plugin/worker_client.cpp\<close>): the calling thread polls its
  abort predicate while a job on the transport thread performs the exchange with the worker. The two threads share a state with a
  mutex and a cookie in shared memory; their critical sections are single steps, everything else interleaves.
\<close>

section \<open>The shared state\<close>

record ('i, 'l) RenderState =
  rs_cancelled :: bool
  rs_done :: bool
  rs_image :: "'i option"
  rs_links :: "'l option"
  rs_cancellationFd :: int
  rs_cookie :: "int option"

text \<open>The results of \<open>memfd_create\<close>, \<open>ftruncate\<close>, sealing and \<open>mmap\<close>.\<close>

record CookieCalls =
  kc_memfd :: int
  kc_truncated :: bool
  kc_sealed :: bool
  kc_mapped :: bool

definition make_cookie :: "CookieCalls \<Rightarrow> int \<times> int option" where
  "make_cookie k =
     (let cookie = (if kc_memfd k \<ge> 0 \<and> kc_truncated k \<and> kc_sealed k \<and> kc_mapped k then Some 0 else None) in
      if cookie = None then (- 1, None) else (kc_memfd k, cookie))"

definition RenderState_init :: "CookieCalls \<Rightarrow> ('i, 'l) RenderState" where
  "RenderState_init k =
     \<lparr>rs_cancelled = False, rs_done = False, rs_image = None, rs_links = None, rs_cancellationFd = fst (make_cookie k), rs_cookie = snd (make_cookie k)\<rparr>"

text \<open>
  Where the two threads are. The caller has polled its predicate or waits to do so; the job is queued, inside \<open>transport->render\<close>, or over.
  Both own the state, which is destroyed with the second owner. \<open>rw_calls\<close> counts the exchanges and \<open>rw_rendered\<close> is what the
  exchange returned.
\<close>

datatype CallerPhase = Polling | Polled bool | Returned

datatype JobPhase = Queued | Rendering | Over

record ('i, 'l) RenderWorld =
  rw_state :: "('i, 'l) RenderState"
  rw_caller :: CallerPhase
  rw_job :: JobPhase
  rw_result :: "'i option \<times> 'l option"
  rw_calls :: nat
  rw_rendered :: "('i \<times> 'l option) option"
  rw_destroyed :: bool

definition render_dispatch :: "CookieCalls \<Rightarrow> ('i, 'l) RenderWorld" where
  "render_dispatch k =
     \<lparr>rw_state = RenderState_init k, rw_caller = Polling, rw_job = Queued, rw_result = (None, None), rw_calls = 0, rw_rendered = None, rw_destroyed = False\<rparr>"

text \<open>The start of the call: nothing is dispatched when the caller has already given up, there is no transport, or the job cannot be queued.\<close>

definition render_begin :: "bool \<Rightarrow> bool \<Rightarrow> CookieCalls \<Rightarrow> bool \<Rightarrow> ('i, 'l) RenderWorld option" where
  "render_begin aborted hasTransport k queued =
     (if aborted \<or> \<not> hasTransport then None else if \<not> queued then None else Some (render_dispatch k))"

section \<open>The steps\<close>

text \<open>The end of an owner.\<close>

definition release_owner :: "('i, 'l) RenderWorld \<Rightarrow> ('i, 'l) RenderWorld" where
  "release_owner w = (if rw_caller w = Returned \<and> rw_job w = Over then w\<lparr>rw_destroyed := True\<rparr> else w)"

definition caller_poll :: "bool \<Rightarrow> ('i, 'l) RenderWorld \<Rightarrow> ('i, 'l) RenderWorld" where
  "caller_poll cancelled w = w\<lparr>rw_caller := Polled cancelled\<rparr>"

definition caller_check :: "bool \<Rightarrow> bool \<Rightarrow> ('i, 'l) RenderWorld \<Rightarrow> ('i, 'l) RenderWorld" where
  "caller_check wantsLinks cancelled w =
     (let s = rw_state w in
      if cancelled
      then release_owner (w\<lparr>rw_state := s\<lparr>rs_cancelled := True, rs_cookie := map_option (\<lambda>_. 1) (rs_cookie s)\<rparr>, rw_caller := Returned\<rparr>)
      else if rs_done s
      then release_owner (w\<lparr>rw_result := (rs_image s, if wantsLinks then rs_links s else None), rw_caller := Returned\<rparr>)
      else w\<lparr>rw_caller := Polling\<rparr>)"

definition job_start :: "('i, 'l) RenderWorld \<Rightarrow> ('i, 'l) RenderWorld" where
  "job_start w = (if rs_cancelled (rw_state w) then release_owner (w\<lparr>rw_job := Over\<rparr>) else w\<lparr>rw_job := Rendering, rw_calls := rw_calls w + 1\<rparr>)"

text \<open>The exchange returns an image and, when they were asked for, writes the links into the state.\<close>

definition job_finish :: "bool \<Rightarrow> 'i \<Rightarrow> 'l \<Rightarrow> ('i, 'l) RenderWorld \<Rightarrow> ('i, 'l) RenderWorld" where
  "job_finish wantsLinks picture links w =
     (let s = (rw_state w)\<lparr>rs_links := (if wantsLinks then Some links else None)\<rparr> in
      release_owner (w\<lparr>rw_state := (if rs_cancelled s then s else s\<lparr>rs_image := Some picture\<rparr>)\<lparr>rs_done := True\<rparr>, rw_job := Over,
        rw_rendered := Some (picture, if wantsLinks then Some links else None)\<rparr>))"

inductive render_run :: "CookieCalls \<Rightarrow> bool \<Rightarrow> ('i, 'l) RenderWorld \<Rightarrow> bool" for k wantsLinks where
  run_dispatch: "render_begin aborted hasTransport k queued = Some w \<Longrightarrow> render_run k wantsLinks w"
| run_poll: "render_run k wantsLinks w \<Longrightarrow> rw_caller w = Polling \<Longrightarrow> render_run k wantsLinks (caller_poll b w)"
| run_check: "render_run k wantsLinks w \<Longrightarrow> rw_caller w = Polled b \<Longrightarrow> render_run k wantsLinks (caller_check wantsLinks b w)"
| run_start: "render_run k wantsLinks w \<Longrightarrow> rw_job w = Queued \<Longrightarrow> render_run k wantsLinks (job_start w)"
| run_finish: "render_run k wantsLinks w \<Longrightarrow> rw_job w = Rendering \<Longrightarrow> render_run k wantsLinks (job_finish wantsLinks picture links w)"

section \<open>The invariant\<close>

text \<open>The exchange is still to come or under way; it is over and was not cancelled; the caller has cancelled.\<close>

definition pending :: "('i, 'l) RenderWorld \<Rightarrow> bool" where
  "pending w \<longleftrightarrow> \<not> rs_cancelled (rw_state w) \<and> rw_job w \<noteq> Over \<and> rw_caller w \<noteq> Returned \<and> \<not> rs_done (rw_state w) \<and> rw_result w = (None, None)
     \<and> rw_rendered w = None \<and> rw_calls w = (if rw_job w = Rendering then 1 else 0) \<and> \<not> rw_destroyed w"

definition completed :: "bool \<Rightarrow> ('i, 'l) RenderWorld \<Rightarrow> bool" where
  "completed wantsLinks w \<longleftrightarrow> \<not> rs_cancelled (rw_state w) \<and> rw_job w = Over \<and> rs_done (rw_state w) \<and> rw_calls w = 1 \<and> rs_image (rw_state w) \<noteq> None
     \<and> (wantsLinks \<or> rs_links (rw_state w) = None) \<and> rw_rendered w = Some (the (rs_image (rw_state w)), rs_links (rw_state w))
     \<and> rw_result w = (if rw_caller w = Returned then (rs_image (rw_state w), rs_links (rw_state w)) else (None, None)) \<and> (rw_destroyed w \<longleftrightarrow> rw_caller w = Returned)"

definition abandoned :: "('i, 'l) RenderWorld \<Rightarrow> bool" where
  "abandoned w \<longleftrightarrow> rs_cancelled (rw_state w) \<and> rw_caller w = Returned \<and> rw_result w = (None, None) \<and> rs_cookie (rw_state w) \<noteq> Some 0
     \<and> (rw_destroyed w \<longleftrightarrow> rw_job w = Over) \<and> rw_calls w = (if rw_job w = Rendering \<or> rw_rendered w \<noteq> None then 1 else 0)
     \<and> (rw_rendered w \<noteq> None \<longrightarrow> rw_job w = Over)"

lemmas render_modes = pending_def completed_def abandoned_def caller_poll_def caller_check_def job_start_def job_finish_def release_owner_def Let_def

lemma poll_mode: "pending w \<or> completed l w \<Longrightarrow> rw_caller w = Polling \<Longrightarrow> pending (caller_poll b w) \<or> completed l (caller_poll b w)"
  by (elim disjE) (simp_all add: render_modes)

lemma check_mode:
  assumes "pending w \<or> completed l w" "rw_caller w = Polled b"
  shows "pending (caller_check l b w) \<or> completed l (caller_check l b w) \<or> abandoned (caller_check l b w)"
  using assms(1)
proof
  assume "pending w"
  then show ?thesis using assms(2) by (cases b; cases "rs_cookie (rw_state w)") (simp_all add: render_modes)
next
  assume "completed l w"
  then show ?thesis using assms(2) by (cases b; cases "rs_cookie (rw_state w)"; cases l) (simp_all add: render_modes)
qed

lemma start_mode:
  assumes "rw_job w = Queued"
  shows "pending w \<Longrightarrow> pending (job_start w)" "abandoned w \<Longrightarrow> abandoned (job_start w)"
  using assms by (simp_all add: render_modes)

lemma finish_mode:
  assumes "rw_job w = Rendering"
  shows "pending w \<Longrightarrow> completed l (job_finish l picture links w)" "abandoned w \<Longrightarrow> abandoned (job_finish l picture links w)"
  using assms by (simp_all add: render_modes)

lemma render_run_mode: "render_run k wantsLinks w \<Longrightarrow> pending w \<or> completed wantsLinks w \<or> abandoned w"
proof (induction rule: render_run.induct)
  case (run_dispatch aborted hasTransport queued w)
  then have w: "w = render_dispatch k" by (simp add: render_begin_def split: if_splits)
  show ?case unfolding w by (simp add: pending_def render_dispatch_def RenderState_init_def)
next
  case (run_poll w b)
  then have "pending w \<or> completed wantsLinks w" by (auto simp: abandoned_def)
  from poll_mode [OF this] run_poll show ?case by blast
next
  case (run_check w b)
  then have "pending w \<or> completed wantsLinks w" by (auto simp: abandoned_def)
  from check_mode [OF this] run_check show ?case by blast
next
  case (run_start w)
  moreover from this have "\<not> completed wantsLinks w" by (simp add: completed_def)
  ultimately show ?case using start_mode by blast
next
  case (run_finish w picture links)
  moreover from this have "\<not> completed wantsLinks w" by (simp add: completed_def)
  ultimately show ?case using finish_mode [of w wantsLinks picture links] by blast
qed


text \<open>The wait ends: after a poll that says so, or once the exchange is over, the next turn of the caller's loop returns.\<close>

lemma caller_returns:
  "b \<or> rs_done (rw_state w) \<Longrightarrow> rw_caller (caller_check wantsLinks b (caller_poll b w)) = Returned"
  by (auto simp: caller_check_def caller_poll_def release_owner_def Let_def)

text \<open>A render that is cancelled while the exchange is under way.\<close>

definition cookie0 :: CookieCalls where
  "cookie0 = \<lparr>kc_memfd = 9, kc_truncated = True, kc_sealed = True, kc_mapped = True\<rparr>"

definition cancelled0 :: "(nat, nat) RenderWorld" where
  "cancelled0 = job_finish True 5 6 (caller_check True True (caller_poll True (job_start (render_dispatch cookie0))))"

lemma cancelled0_run: "render_run cookie0 True cancelled0"
  unfolding cancelled0_def
  by (intro render_run.intros(2-) run_dispatch [of False True _ True]) (simp_all add: render_begin_def caller_check_def caller_poll_def job_start_def render_dispatch_def RenderState_init_def release_owner_def Let_def)


end
