(* ===== verification/Page_Cache.thy ===== *)
theory Page_Cache
  imports Mu_Prelude
begin

text \<open>
  The cache of parsed pages (\<^verbatim>\<open>src/src/worker/engine/page_cache.hpp\<close>) and its clients, the \<^verbatim>\<open>loadPage\<close> functions of the PDF and XPS engines. A page handle of MuPDF is a
  number, \<open>0\<close> the null pointer; its reference count is part of the state.
\<close>

section \<open>The cache\<close>

record Entry =
  en_index :: int
  en_page :: nat

definition no_page :: Entry where
  "no_page = \<lparr>en_index = - 1, en_page = 0\<rparr>"

definition PageCacheSize :: nat where
  [limits]: "PageCacheSize = 3"

record PageCache =
  pc_entries :: "Entry list"
  pc_suspended :: bool

definition PageCache_default :: PageCache where
  "PageCache_default = \<lparr>pc_entries = replicate PageCacheSize no_page, pc_suspended = False\<rparr>"

type_synonym References = "nat \<Rightarrow> nat"

definition fz_keep_page :: "nat \<Rightarrow> References \<Rightarrow> References" where
  "fz_keep_page h refs = refs(h := refs h + 1)"

definition fz_drop_page :: "nat \<Rightarrow> References \<Rightarrow> References" where
  "fz_drop_page h refs = refs(h := refs h - 1)"

definition dropEntry :: "bool \<Rightarrow> Entry \<Rightarrow> References \<Rightarrow> Entry \<times> References" where
  "dropEntry context entry refs =
     (if en_page entry = 0 then (entry, refs) else (no_page, if context then fz_drop_page (en_page entry) refs else refs))"

definition is_hit :: "int \<Rightarrow> Entry \<Rightarrow> bool" where
  "is_hit page entry \<longleftrightarrow> en_page entry \<noteq> 0 \<and> en_index entry = page"

text \<open>The loop over the slots; \<open>seen\<close> are the slots before the one at hand. A hit moves them back by one and itself to the front.\<close>

fun acquire_loop :: "int \<Rightarrow> Entry list \<Rightarrow> Entry list \<Rightarrow> (Entry list \<times> Entry) option" where
  "acquire_loop page seen [] = None"
| "acquire_loop page seen (entry # rest) =
     (if is_hit page entry then Some (entry # seen @ rest, entry) else acquire_loop page (seen @ [entry]) rest)"

definition acquire :: "int \<Rightarrow> PageCache \<Rightarrow> References \<Rightarrow> PageCache \<times> References \<times> nat" where
  "acquire page c refs =
     (case acquire_loop page [] (pc_entries c) of
        None \<Rightarrow> (c, refs, 0)
      | Some (entries, hit) \<Rightarrow> (c\<lparr>pc_entries := entries\<rparr>, fz_keep_page (en_page hit) refs, en_page hit))"

definition store :: "bool \<Rightarrow> int \<Rightarrow> nat \<Rightarrow> PageCache \<Rightarrow> References \<Rightarrow> PageCache \<times> References" where
  "store context page loadedPage c refs =
     (if loadedPage = 0 \<or> pc_suspended c then (c, refs)
      else (c\<lparr>pc_entries := \<lparr>en_index = page, en_page = loadedPage\<rparr> # butlast (pc_entries c)\<rparr>,
            fz_keep_page loadedPage (snd (dropEntry context (last (pc_entries c)) refs))))"

definition setSuspended :: "bool \<Rightarrow> PageCache \<Rightarrow> PageCache" where
  "setSuspended suspended c = c\<lparr>pc_suspended := suspended\<rparr>"

fun clear_loop :: "bool \<Rightarrow> Entry list \<Rightarrow> References \<Rightarrow> Entry list \<times> References" where
  "clear_loop context [] refs = ([], refs)"
| "clear_loop context (entry # entries) refs =
     (case dropEntry context entry refs of (entry1, refs1) \<Rightarrow>
        case clear_loop context entries refs1 of (entries1, refs2) \<Rightarrow> (entry1 # entries1, refs2))"

definition clear :: "bool \<Rightarrow> PageCache \<Rightarrow> References \<Rightarrow> PageCache \<times> References" where
  "clear context c refs = (case clear_loop context (pc_entries c) refs of (entries, refs1) \<Rightarrow> (c\<lparr>pc_entries := entries\<rparr>, refs1))"

definition contains :: "int \<Rightarrow> PageCache \<Rightarrow> bool" where
  "contains page c \<longleftrightarrow> list_ex (is_hit page) (pc_entries c)"

text \<open>
  \<open>loaded\<close> is what \<open>fz_load_page\<close> gives: a handle with a reference for the caller, or an error. There is a context whenever there is a document.
\<close>

definition loadPage :: "bool \<Rightarrow> bool \<Rightarrow> int \<Rightarrow> nat option \<Rightarrow> int \<Rightarrow> PageCache \<Rightarrow> References \<Rightarrow> PageCache \<times> References \<times> nat" where
  "loadPage document locked pageCount loaded page c refs =
     (if \<not> document \<or> locked \<or> page < 0 \<or> page \<ge> pageCount then (c, refs, 0)
      else case acquire page c refs of
        (c1, refs1, cached) \<Rightarrow>
          if cached \<noteq> 0 then (c1, refs1, cached)
          else (case loaded of
                  None \<Rightarrow> (c1, refs1, 0)
                | Some h \<Rightarrow> (case store True page h c1 (fz_keep_page h refs1) of (c2, refs2) \<Rightarrow> (c2, refs2, h))))"

section \<open>A least-recently-used store\<close>

text \<open>
  What a client may rely on: looking a page up gives what was stored under it, and neither looking up nor storing invents entries.
\<close>

locale page_store =
  fixes inv :: "'s \<Rightarrow> bool"
    and lookup :: "'s \<Rightarrow> int \<Rightarrow> nat option"
    and acq :: "int \<Rightarrow> 's \<Rightarrow> 's \<times> nat option"
    and sto :: "int \<Rightarrow> nat \<Rightarrow> 's \<Rightarrow> 's"
  assumes acq_law: "inv s \<Longrightarrow> acq p s = (s', r) \<Longrightarrow> inv s' \<and> r = lookup s p \<and> lookup s' = lookup s"
    and sto_law: "inv s \<Longrightarrow> lookup s p = None \<Longrightarrow> h \<noteq> 0 \<Longrightarrow> inv (sto p h s) \<and> (\<forall>q g. lookup (sto p h s) q = Some g \<longrightarrow> q = p \<and> g = h \<or> lookup s q = Some g)"
begin

definition coherent :: "(int \<Rightarrow> nat \<Rightarrow> bool) \<Rightarrow> 's \<Rightarrow> bool" where
  "coherent page_of s \<longleftrightarrow> inv s \<and> (\<forall>p h. lookup s p = Some h \<longrightarrow> page_of p h)"

lemma acq_coherent: "coherent page_of s \<Longrightarrow> acq p s = (s', r) \<Longrightarrow> coherent page_of s' \<and> (\<forall>h. r = Some h \<longrightarrow> page_of p h)"
  using acq_law by (fastforce simp: coherent_def)

lemma sto_coherent: "coherent page_of s \<Longrightarrow> lookup s p = None \<Longrightarrow> h \<noteq> 0 \<Longrightarrow> page_of p h \<Longrightarrow> coherent page_of (sto p h s)"
  using sto_law [of s p h] by (auto simp: coherent_def)

end


section \<open>The cache is such a store\<close>

definition page_lookup :: "PageCache \<times> References \<Rightarrow> int \<Rightarrow> nat option" where
  "page_lookup s page = map_option en_page (find (is_hit page) (pc_entries (fst s)))"

definition filled :: "Entry list \<Rightarrow> Entry list" where
  "filled entries = filter (\<lambda>e. en_page e \<noteq> 0) entries"

definition cache_ok :: "PageCache \<Rightarrow> bool" where
  "cache_ok c \<longleftrightarrow> length (pc_entries c) = PageCacheSize \<and> distinct (map en_index (filled (pc_entries c)))"

definition acq_page :: "int \<Rightarrow> PageCache \<times> References \<Rightarrow> (PageCache \<times> References) \<times> nat option" where
  "acq_page page s = (case acquire page (fst s) (snd s) of (c, refs, h) \<Rightarrow> ((c, refs), if h = 0 then None else Some h))"

definition sto_page :: "int \<Rightarrow> nat \<Rightarrow> PageCache \<times> References \<Rightarrow> PageCache \<times> References" where
  "sto_page page h s = store True page h (fst s) (snd s)"

lemma acquire_loop_None: "acquire_loop page seen entries = None \<longleftrightarrow> (\<forall>e\<in>set entries. \<not> is_hit page e)"
  by (induction page seen entries rule: acquire_loop.induct) auto

lemma acquire_loop_Some:
  "acquire_loop page seen entries = Some (entries', e) \<Longrightarrow>
     \<exists>a b. entries = a @ e # b \<and> entries' = e # seen @ a @ b \<and> is_hit page e"
proof (induction page seen entries rule: acquire_loop.induct)
  case (2 page seen entry rest)
  show ?case
  proof (cases "is_hit page entry")
    case True
    with 2(2) show ?thesis by (intro exI [of _ "[]"] exI [of _ rest]) auto
  next
    case False
    with 2 obtain a b where "rest = a @ e # b" "entries' = e # (seen @ [entry]) @ a @ b" "is_hit page e" by auto
    then show ?thesis by (intro exI [of _ "entry # a"] exI [of _ b]) auto
  qed
qed simp

text \<open>With one slot per page, what is found does not depend on the order of the slots.\<close>

lemma find_hit:
  "distinct (map en_index (filled entries)) \<Longrightarrow>
     map_option en_page (find (is_hit page) entries) = Some h \<longleftrightarrow> h \<noteq> 0 \<and> \<lparr>en_index = page, en_page = h\<rparr> \<in> set entries"
proof (induction entries)
  case (Cons e es)
  show ?case
  proof (cases "is_hit page e")
    case True
    with Cons(2) have "\<forall>e'\<in>set es. en_page e' \<noteq> 0 \<longrightarrow> en_index e' \<noteq> page"
      by (force simp: is_hit_def filled_def)
    with True show ?thesis by (cases e) (auto simp: is_hit_def)
  next
    case False
    with Cons show ?thesis by (cases e) (auto simp: is_hit_def filled_def split: if_splits)
  qed
qed simp

lemma lookup_iff: "cache_ok c \<Longrightarrow> page_lookup (c, refs) p = Some h \<longleftrightarrow> h \<noteq> 0 \<and> \<lparr>en_index = p, en_page = h\<rparr> \<in> set (pc_entries c)"
  using find_hit [of "pc_entries c" p h] by (simp add: page_lookup_def cache_ok_def)

lemma filled_simps [simp]:
  "filled [] = []" "filled (a @ b) = filled a @ filled b" "filled (e # es) = (if en_page e = 0 then filled es else e # filled es)"
  by (simp_all add: filled_def)

lemma acquire_cases:
  obtains (miss) "acquire page c refs = (c, refs, 0)" "page_lookup (c, refs) page = None"
  | (hit) a e b where "pc_entries c = a @ e # b" "is_hit page e" "acquire page c refs = (c\<lparr>pc_entries := e # a @ b\<rparr>, fz_keep_page (en_page e) refs, en_page e)"
proof (cases "acquire_loop page [] (pc_entries c)")
  case None
  then have "find (is_hit page) (pc_entries c) = None" by (simp add: acquire_loop_None find_None_iff)
  with None show ?thesis using miss by (simp add: acquire_def page_lookup_def)
next
  case (Some r)
  then show ?thesis using hit acquire_loop_Some [of page "[]" "pc_entries c"] by (cases r) (fastforce simp: acquire_def)
qed

lemma acq_page_law:
  assumes "cache_ok (fst s)" "acq_page p s = (s', r)"
  shows "cache_ok (fst s') \<and> r = page_lookup s p \<and> page_lookup s' = page_lookup s"
proof (cases rule: acquire_cases [of p "fst s" "snd s"])
  case miss
  with assms show ?thesis by (auto simp: acq_page_def)
next
  case (hit a e b)
  have ok: "cache_ok ((fst s)\<lparr>pc_entries := e # a @ b\<rparr>)" using assms(1) hit(1) by (auto simp: cache_ok_def)
  have s': "s' = ((fst s)\<lparr>pc_entries := e # a @ b\<rparr>, fz_keep_page (en_page e) (snd s))" and r: "r = Some (en_page e)"
    using assms(2) hit by (auto simp: acq_page_def is_hit_def)
  have same: "page_lookup s' q = Some h \<longleftrightarrow> page_lookup s q = Some h" for q h
    using lookup_iff [OF ok] lookup_iff [OF assms(1), of "snd s"] hit(1) by (auto simp: s')
  have "page_lookup s p = Some (en_page e)" using lookup_iff [OF assms(1), of "snd s"] hit(1,2) by (cases e) (auto simp: is_hit_def)
  moreover have "page_lookup s' = page_lookup s"
    by (rule ext) (metis same not_None_eq)
  ultimately show ?thesis using ok r by (simp add: s')
qed

lemma store_entries:
  "pc_entries (fst (store context page h c refs)) =
     (if h = 0 \<or> pc_suspended c then pc_entries c else \<lparr>en_index = page, en_page = h\<rparr> # butlast (pc_entries c))"
  by (simp add: store_def)

lemma sto_page_law:
  assumes ok: "cache_ok (fst s)" and miss: "page_lookup s p = None" and h: "h \<noteq> 0"
  shows "cache_ok (fst (sto_page p h s)) \<and> (\<forall>q g. page_lookup (sto_page p h s) q = Some g \<longrightarrow> q = p \<and> g = h \<or> page_lookup s q = Some g)"
proof (cases "pc_suspended (fst s)")
  case False
  obtain es z where es: "pc_entries (fst s) = es @ [z]"
    using ok by (cases "pc_entries (fst s)" rule: rev_cases) (auto simp: cache_ok_def PageCacheSize_def)
  have new: "\<forall>e\<in>set (pc_entries (fst s)). \<not> is_hit p e" using miss by (simp add: page_lookup_def find_None_iff)
  have "p \<notin> en_index ` set (filled es)" using new by (auto simp: es filled_def is_hit_def)
  then have ok': "cache_ok (fst (sto_page p h s))"
    using ok False h by (auto simp: cache_ok_def sto_page_def store_entries es split: if_splits)
  show ?thesis
    using ok' lookup_iff [OF ok', of "snd (sto_page p h s)"] lookup_iff [OF ok, of "snd s"] False h
    by (auto simp: sto_page_def store_entries es)
qed (use ok in \<open>auto simp: sto_page_def store_def\<close>)

interpretation pages: page_store "\<lambda>s. cache_ok (fst s)" page_lookup acq_page sto_page
  by unfold_locales (use acq_page_law sto_page_law in blast)+

section \<open>Counting references\<close>

definition slots :: "nat \<Rightarrow> Entry list \<Rightarrow> nat" where
  "slots h entries = length (filter (\<lambda>e. en_page e = h) entries)"

lemma slots_simps [simp]:
  "slots h [] = 0" "slots h (a @ b) = slots h a + slots h b" "slots h (e # es) = (if en_page e = h then 1 else 0) + slots h es"
  by (simp_all add: slots_def)

definition balanced :: "Entry list \<Rightarrow> References \<Rightarrow> (nat \<Rightarrow> nat) \<Rightarrow> bool" where
  "balanced entries refs held \<longleftrightarrow> (\<forall>h. h \<noteq> 0 \<longrightarrow> refs h = slots h entries + held h)"

lemma balancedI: "(\<And>k. k \<noteq> 0 \<Longrightarrow> refs k = slots k entries + held k) \<Longrightarrow> balanced entries refs held"
  by (simp add: balanced_def)

lemma balancedD: "balanced entries refs held \<Longrightarrow> k \<noteq> 0 \<Longrightarrow> refs k = slots k entries + held k"
  by (simp add: balanced_def)

text \<open>Dropping an entry takes it out of the balance, keeping a handle adds one on either side.\<close>

lemma dropEntry_balanced:
  assumes "balanced (es1 @ e # es2) refs held" "dropEntry True e refs = (e', refs')"
  shows "balanced (es1 @ es2) refs' held" "en_page e' = 0"
proof -
  show "balanced (es1 @ es2) refs' held"
  proof (rule balancedI)
    fix k :: nat
    assume "k \<noteq> 0"
    from balancedD [OF assms(1) this] this assms(2) show "refs' k = slots k (es1 @ es2) + held k"
      by (auto simp: dropEntry_def fz_drop_page_def split: if_splits)
  qed
qed (use assms(2) in \<open>auto simp: dropEntry_def no_page_def split: if_splits\<close>)

lemma keep_balanced:
  assumes "balanced es refs held"
  shows "balanced (\<lparr>en_index = p, en_page = h\<rparr> # es) (fz_keep_page h refs) held"
    "balanced es (fz_keep_page h refs) (held(h := held h + 1))"
  using balancedD [OF assms] by (auto intro!: balancedI simp: fz_keep_page_def)

lemma clear_balanced:
  "balanced entries refs held \<Longrightarrow> clear_loop True entries refs = (entries', refs') \<Longrightarrow>
     balanced [] refs' held \<and> length entries' = length entries \<and> filled entries' = []"
proof (induction entries arbitrary: refs entries')
  case (Cons e es)
  obtain e1 refs1 where d: "dropEntry True e refs = (e1, refs1)" by fastforce
  obtain es1 where c: "clear_loop True es refs1 = (es1, refs')" "entries' = e1 # es1"
    using Cons(3) d by (auto split: prod.splits)
  have "balanced es refs1 held" "en_page e1 = 0" using dropEntry_balanced [of "[]", OF _ d] Cons(2) by simp_all
  with Cons(1) [OF _ c(1)] c(2) show ?case by simp
qed (simp add: balanced_def)

lemma acquire_balanced:
  assumes "balanced (pc_entries c) refs held" "acquire page c refs = (c', refs', h)"
  shows "balanced (pc_entries c') refs' (if h = 0 then held else held(h := held h + 1))"
proof (cases rule: acquire_cases [of page c refs])
  case miss
  with assms show ?thesis by simp
next
  case (hit a e b)
  have "balanced (e # a @ b) refs held" using assms(1) by (simp add: balanced_def hit(1))
  from keep_balanced(2) [OF this] assms(2) hit show ?thesis by (auto simp: is_hit_def)
qed

lemma store_balanced:
  assumes "balanced (pc_entries c) refs held" "store True page h c refs = (c', refs')" "pc_entries c \<noteq> []"
  shows "balanced (pc_entries c') refs' held"
proof -
  obtain es z where es: "pc_entries c = es @ [z]" using assms(3) by (cases "pc_entries c" rule: rev_cases) auto
  obtain e1 refs1 where d: "dropEntry True z refs = (e1, refs1)" by fastforce
  have "balanced es refs1 held" using dropEntry_balanced(1) [OF _ d, of es "[]"] assms(1) es by simp
  note kept = keep_balanced(1) [OF this]
  show ?thesis
  proof (cases "h = 0 \<or> pc_suspended c")
    case True
    with assms(1,2) show ?thesis by (auto simp: store_def)
  next
    case False
    with assms(2) kept d show ?thesis by (auto simp: store_def es)
  qed
qed

section \<open>The life of the handles\<close>

text \<open>
  The cache, the counts, the references the callers hold, and the page each live handle was loaded for. \<open>fz_load_page\<close> may give a
  handle that is not in use, possibly one whose page was freed before, or one that is still open for the same page.
\<close>

record PageWorld =
  pw_cache :: PageCache
  pw_refs :: References
  pw_held :: "nat \<Rightarrow> nat"
  pw_page :: "nat \<Rightarrow> int"

definition PageWorld_init :: PageWorld where
  "PageWorld_init = \<lparr>pw_cache = PageCache_default, pw_refs = (\<lambda>_. 0), pw_held = (\<lambda>_. 0), pw_page = (\<lambda>_. - 1)\<rparr>"

definition may_load :: "nat option \<Rightarrow> int \<Rightarrow> PageWorld \<Rightarrow> bool" where
  "may_load loaded page w = (case loaded of None \<Rightarrow> True | Some h \<Rightarrow> h \<noteq> 0 \<and> (pw_refs w h = 0 \<or> pw_page w h = page))"

definition load_step :: "bool \<Rightarrow> bool \<Rightarrow> int \<Rightarrow> nat option \<Rightarrow> int \<Rightarrow> PageWorld \<Rightarrow> PageWorld \<times> nat" where
  "load_step document locked pageCount loaded page w =
     (case loadPage document locked pageCount loaded page (pw_cache w) (pw_refs w) of
        (c, refs, h) \<Rightarrow>
          (w\<lparr>pw_cache := c, pw_refs := refs, pw_held := (if h = 0 then pw_held w else (pw_held w)(h := pw_held w h + 1)),
             pw_page := (if h = 0 then pw_page w else if pw_refs w h = 0 then (pw_page w)(h := page) else pw_page w)\<rparr>, h))"

inductive page_run :: "PageWorld \<Rightarrow> bool" where
  page_init: "page_run PageWorld_init"
| page_load: "page_run w \<Longrightarrow> may_load loaded page w \<Longrightarrow> page_run (fst (load_step document locked pageCount loaded page w))"
| page_drop: "page_run w \<Longrightarrow> pw_held w h > 0 \<Longrightarrow> page_run (w\<lparr>pw_refs := fz_drop_page h (pw_refs w), pw_held := (pw_held w)(h := pw_held w h - 1)\<rparr>)"
| page_suspend: "page_run w \<Longrightarrow> page_run (w\<lparr>pw_cache := setSuspended b (pw_cache w)\<rparr>)"
| page_clear: "page_run w \<Longrightarrow> clear True (pw_cache w) (pw_refs w) = (c, refs) \<Longrightarrow> page_run (w\<lparr>pw_cache := c, pw_refs := refs\<rparr>)"

definition world_ok :: "PageWorld \<Rightarrow> bool" where
  "world_ok w \<longleftrightarrow> pages.coherent (\<lambda>p h. pw_page w h = p) (pw_cache w, pw_refs w) \<and> balanced (pc_entries (pw_cache w)) (pw_refs w) (pw_held w)"

lemma coherent_refs: "pages.coherent P (c, refs) \<longleftrightarrow> pages.coherent P (c, refs')"
  by (simp add: pages.coherent_def page_lookup_def)

lemma coherent_iff:
  "pages.coherent P (c, refs) \<longleftrightarrow> cache_ok c \<and> (\<forall>e\<in>set (pc_entries c). en_page e \<noteq> 0 \<longrightarrow> P (en_index e) (en_page e))"
proof (cases "cache_ok c")
  case True
  have "(\<forall>p h. h \<noteq> 0 \<and> \<lparr>en_index = p, en_page = h\<rparr> \<in> set (pc_entries c) \<longrightarrow> P p h)
    \<longleftrightarrow> (\<forall>e\<in>set (pc_entries c). en_page e \<noteq> 0 \<longrightarrow> P (en_index e) (en_page e))"
  proof (intro iffI ballI allI impI)
    fix e
    assume "\<forall>p h. h \<noteq> 0 \<and> \<lparr>en_index = p, en_page = h\<rparr> \<in> set (pc_entries c) \<longrightarrow> P p h" "e \<in> set (pc_entries c)" "en_page e \<noteq> 0"
    then show "P (en_index e) (en_page e)" by (cases e) simp
  qed auto
  then show ?thesis using True lookup_iff [OF True, of refs] by (simp add: pages.coherent_def)
qed (simp add: pages.coherent_def)

lemma slots_pos: "slots h es > 0 \<longleftrightarrow> (\<exists>e\<in>set es. en_page e = h)"
  by (induction es) auto

lemma slots_unique:
  "distinct (map en_index (filled es)) \<Longrightarrow> \<forall>e\<in>set es. en_page e \<noteq> 0 \<longrightarrow> page_of (en_page e) = en_index e \<Longrightarrow> h \<noteq> 0 \<Longrightarrow> slots h es \<le> 1"
proof (induction es)
  case (Cons e es)
  show ?case
  proof (cases "en_page e = h")
    case True
    have "slots h es = 0"
    proof (rule ccontr)
      assume "slots h es \<noteq> 0"
      then obtain e' where "e' \<in> set es" "en_page e' = h" using slots_pos by blast
      with Cons(2-4) True show False by (force simp: filled_def)
    qed
    with True show ?thesis by simp
  next
    case False
    with Cons show ?thesis by (simp split: if_splits)
  qed
qed simp

text \<open>The three ways a load ends.\<close>

lemma loadPage_cases:
  obtains (none) c1 refs1 where "loadPage document locked pageCount loaded page c refs = (c1, refs1, 0)" "c1 = c" "refs1 = refs"
  | (hit) c1 refs1 h where "acquire page c refs = (c1, refs1, h)" "h \<noteq> 0" "loadPage document locked pageCount loaded page c refs = (c1, refs1, h)"
  | (fresh) h where "loaded = Some h" "page_lookup (c, refs) page = None"
      "loadPage document locked pageCount loaded page c refs = (fst (store True page h c (fz_keep_page h refs)), snd (store True page h c (fz_keep_page h refs)), h)"
proof (cases "\<not> document \<or> locked \<or> page < 0 \<or> page \<ge> pageCount")
  case True
  then show ?thesis using none by (simp add: loadPage_def)
next
  case False
  show ?thesis
  proof (cases rule: acquire_cases [of page c refs])
    case miss
    with False none fresh show ?thesis by (cases loaded) (auto simp: loadPage_def split: prod.splits)
  next
    case found: (hit a e b)
    with False hit show ?thesis by (auto simp: loadPage_def is_hit_def)
  qed
qed

lemma load_step_ok:
  assumes ok: "world_ok w" and may: "may_load loaded page w" and step: "load_step document locked pageCount loaded page w = (w', h)"
  shows "world_ok w' \<and> (h \<noteq> 0 \<longrightarrow> pw_page w' h = page)"
proof (cases rule: loadPage_cases [of document locked pageCount loaded page "pw_cache w" "pw_refs w"])
  case (none c1 refs1)
  with ok step show ?thesis by (auto simp: load_step_def world_ok_def)
next
  case (hit c1 refs1 h1)
  have acq: "acq_page page (pw_cache w, pw_refs w) = ((c1, refs1), Some h1)" using hit by (simp add: acq_page_def)
  have coh: "pages.coherent (\<lambda>p h. pw_page w h = p) (c1, refs1)" "pw_page w h1 = page"
    using pages.acq_coherent [OF _ acq] ok by (auto simp: world_ok_def)
  have "page_lookup (pw_cache w, pw_refs w) page = Some h1" using acq_page_law [OF _ acq] ok by (simp add: world_ok_def coherent_iff)
  with ok have "slots h1 (pc_entries (pw_cache w)) > 0" by (force simp: world_ok_def coherent_iff lookup_iff slots_pos)
  with ok hit(2) have "pw_refs w h1 \<noteq> 0" using balancedD by (fastforce simp: world_ok_def)
  with step hit coh acquire_balanced [OF _ hit(1)] ok show ?thesis by (auto simp: load_step_def world_ok_def)
next
  case (fresh h1)
  let ?P = "if pw_refs w h1 = 0 then (pw_page w)(h1 := page) else pw_page w"
  have h1: "h1 \<noteq> 0" "?P h1 = page" using may fresh(1) by (auto simp: may_load_def)
  have unused: "pw_refs w h1 = 0 \<Longrightarrow> slots h1 (pc_entries (pw_cache w)) = 0"
    using ok balancedD h1(1) by (fastforce simp: world_ok_def)
  have "pages.coherent (\<lambda>p h. ?P h = p) (pw_cache w, fz_keep_page h1 (pw_refs w))"
    using ok unused slots_pos [of h1 "pc_entries (pw_cache w)"] by (auto simp: world_ok_def coherent_iff)
  then have "pages.coherent (\<lambda>p h. ?P h = p) (sto_page page h1 (pw_cache w, fz_keep_page h1 (pw_refs w)))"
    using pages.sto_coherent fresh(2) h1 by (simp add: page_lookup_def)
  moreover have "cache_ok (pw_cache w)" using ok by (simp add: world_ok_def coherent_iff)
  then have "pc_entries (pw_cache w) \<noteq> []" by (auto simp: cache_ok_def PageCacheSize_def)
  moreover have "balanced (pc_entries (pw_cache w)) (pw_refs w) (pw_held w)" using ok by (simp add: world_ok_def)
  moreover obtain c2 refs2 where st: "store True page h1 (pw_cache w) (fz_keep_page h1 (pw_refs w)) = (c2, refs2)" by fastforce
  ultimately have "balanced (pc_entries c2) refs2 ((pw_held w)(h1 := pw_held w h1 + 1))" "pages.coherent (\<lambda>p h. ?P h = p) (c2, refs2)"
    using store_balanced [OF keep_balanced(2) st] by (simp_all add: sto_page_def)
  then show ?thesis using step fresh(3) h1 st by (auto simp: load_step_def world_ok_def)
qed

lemma page_run_ok: "page_run w \<Longrightarrow> world_ok w"
proof (induction rule: page_run.induct)
  case page_init
  have "cache_ok PageCache_default"
    by (simp add: PageCache_default_def cache_ok_def PageCacheSize_def no_page_def numeral_3_eq_3)
  moreover have "\<forall>e\<in>set (pc_entries PageCache_default). en_page e = 0" by (simp add: PageCache_default_def no_page_def)
  moreover from this have "slots k (pc_entries PageCache_default) = 0" if "k \<noteq> 0" for k
    using that by (auto simp: slots_def filter_empty_conv)
  ultimately show ?case by (simp add: world_ok_def coherent_iff PageWorld_init_def balanced_def)
next
  case (page_load w loaded page document locked pageCount)
  then show ?case using load_step_ok by (metis prod.collapse)
next
  case (page_drop w h)
  then show ?case by (auto simp: world_ok_def coherent_iff balanced_def fz_drop_page_def)
next
  case (page_suspend w b)
  have "cache_ok (setSuspended b (pw_cache w)) = cache_ok (pw_cache w)" "pc_entries (setSuspended b (pw_cache w)) = pc_entries (pw_cache w)"
    by (simp_all add: setSuspended_def cache_ok_def)
  with page_suspend show ?case by (simp add: world_ok_def coherent_iff)
next
  case (page_clear w c refs)
  obtain es refs' where cl: "clear_loop True (pc_entries (pw_cache w)) (pw_refs w) = (es, refs')" by fastforce
  have c: "c = (pw_cache w)\<lparr>pc_entries := es\<rparr>" "refs = refs'" using page_clear(2) cl by (simp_all add: clear_def)
  have "cache_ok (pw_cache w)" "balanced (pc_entries (pw_cache w)) (pw_refs w) (pw_held w)"
    using page_clear(3) by (simp_all add: world_ok_def coherent_iff)
  then have es: "balanced [] refs (pw_held w)" "length es = PageCacheSize" "filled es = []"
    using clear_balanced [OF _ cl] by (simp_all add: cache_ok_def c)
  have empty: "en_page e = 0" if "e \<in> set es" for e using es(3) that by (auto simp: filled_def filter_empty_conv)
  then have "slots k es = 0" if "k \<noteq> 0" for k using that by (auto simp: slots_def filter_empty_conv)
  moreover have "cache_ok c" using es by (simp add: c cache_ok_def)
  ultimately show ?case using es empty by (auto simp: world_ok_def coherent_iff c balanced_def)
qed

text \<open>
  C15. Whatever sequence of loads, failed loads, releases by callers, suspensions and clearings has taken place, and although MuPDF may
  reuse the address of a freed page: each page has at most one slot and the cache keeps its size; the references of every handle are
  exactly one for each slot that holds it and one for each caller that has not released it, so a handle that is cached or in use is never freed
  and no reference is left behind; and the next load of a page gives, from the cache or from MuPDF, a handle of that very page or none.
\<close>

theorem page_handles:
  assumes "page_run w" "h \<noteq> 0" "may_load loaded page w" "load_step document locked pageCount loaded page w = (w', g)"
  shows "pw_refs w h = slots h (pc_entries (pw_cache w)) + pw_held w h \<and> slots h (pc_entries (pw_cache w)) \<le> 1
    \<and> length (pc_entries (pw_cache w)) = PageCacheSize
    \<and> (g \<noteq> 0 \<longrightarrow> pw_page w' g = page \<and> pw_held w' g = pw_held w g + 1 \<and> 0 \<le> page \<and> page < pageCount \<and> \<not> locked)"
proof -
  have ok: "world_ok w" by (rule page_run_ok) (rule assms(1))
  then have cache: "cache_ok (pw_cache w)" "\<forall>e\<in>set (pc_entries (pw_cache w)). en_page e \<noteq> 0 \<longrightarrow> pw_page w (en_page e) = en_index e"
    by (auto simp: world_ok_def coherent_iff)
  have "slots h (pc_entries (pw_cache w)) \<le> 1"
    using slots_unique [OF _ cache(2) assms(2)] cache(1) by (simp add: cache_ok_def)
  moreover have "pw_refs w h = slots h (pc_entries (pw_cache w)) + pw_held w h" using ok assms(2) by (auto simp: world_ok_def intro: balancedD)
  moreover have "g \<noteq> 0 \<Longrightarrow> pw_held w' g = pw_held w g + 1 \<and> 0 \<le> page \<and> page < pageCount \<and> \<not> locked"
    using assms(4) by (auto simp: load_step_def loadPage_def split: if_splits prod.splits)
  ultimately show ?thesis using load_step_ok [OF ok assms(3,4)] cache(1) by (simp add: cache_ok_def)
qed

text \<open>Three loads of two pages: the first page is served from the cache the second time.\<close>

definition loaded0 :: PageWorld where
  "loaded0 = fst (load_step True False 5 (Some 8) 3 (fst (load_step True False 5 (Some 7) 2 PageWorld_init)))"

lemma loaded0_run: "page_run loaded0"
  unfolding loaded0_def by (intro page_load page_init) (simp_all add: may_load_def PageWorld_init_def load_step_def loadPage_def acquire_def
      PageCache_default_def PageCacheSize_def no_page_def is_hit_def store_def dropEntry_def fz_keep_page_def numeral_3_eq_3)

theorem page_handles_witness:
  "pw_refs loaded0 7 = slots 7 (pc_entries (pw_cache loaded0)) + pw_held loaded0 7
    \<and> snd (load_step True False 5 (Some 9) 2 loaded0) = 7 \<and> pw_page (fst (load_step True False 5 (Some 9) 2 loaded0)) 7 = 2"
proof -
  have hit: "snd (load_step True False 5 (Some 9) 2 loaded0) = 7" "pw_refs loaded0 9 = 0"
    by (simp_all add: loaded0_def PageWorld_init_def load_step_def loadPage_def acquire_def PageCache_default_def PageCacheSize_def no_page_def
        is_hit_def store_def dropEntry_def fz_keep_page_def numeral_3_eq_3)
  then have "load_step True False 5 (Some 9) 2 loaded0 = (fst (load_step True False 5 (Some 9) 2 loaded0), 7)" by (metis prod.collapse)
  from page_handles [OF loaded0_run _ _ this, of 7] hit show ?thesis by (simp add: may_load_def)
qed

end
