(* ===== verification/Xfdf_Values.thy ===== *)
theory Xfdf_Values
  imports Model_Types Fp_Arith
begin

text \<open>
  The values of an XFDF document: how \<^verbatim>\<open>src/src/plugin/xfdf/export.cpp\<close> writes numbers, colours, flags, dates and names and how
  \<^verbatim>\<open>src/src/plugin/xfdf/import.cpp\<close> reads them, with the change of coordinates of \<^verbatim>\<open>src/src/shared/model/geometry.hpp\<close>. A \<open>QString\<close> is its list
  of UTF-16 code units. The functions of Qt are fields of a record, and what is relied on of them is stated in the laws below.
\<close>

unbundle bit_operations_syntax

type_synonym QString = "nat list"

definition qs :: "string \<Rightarrow> QString" where
  "qs = map of_char"

record QtCalls =
  qt_toStdString :: "QString \<Rightarrow> string"
  qt_fromStdString :: "string \<Rightarrow> QString"
  qt_isSpace :: "nat \<Rightarrow> bool"
  qt_isDigit :: "nat \<Rightarrow> bool"
  qt_toDouble :: "QString \<Rightarrow> fp option"
  qt_toInt :: "QString \<Rightarrow> int option"
  qt_toUIntHex :: "QString \<Rightarrow> u32 option"
  qt_number :: "int \<Rightarrow> QString"
  qt_fixed6 :: "fp \<Rightarrow> QString"
  qt_utcText :: "int \<Rightarrow> QString"
  qt_utcMillis :: "int \<times> int \<times> int \<Rightarrow> int \<times> int \<times> int \<Rightarrow> int option"
  qt_rnd :: rounding

section \<open>Coordinates\<close>

definition normalizedToUserSpace :: "rounding \<Rightarrow> Point \<Rightarrow> fp \<Rightarrow> fp \<Rightarrow> Point" where
  "normalizedToUserSpace rnd v pageWidthPoints pageHeightPoints =
     \<lparr>pt_x = fp_mul rnd (pt_x v) pageWidthPoints, pt_y = fp_mul rnd (fp_sub rnd (Fin 1) (pt_y v)) pageHeightPoints\<rparr>"

definition clamp01 :: "fp \<Rightarrow> fp" where
  "clamp01 v = fp_clamp v (Fin 0) (Fin 1)"

definition userSpaceToNormalized :: "rounding \<Rightarrow> Point \<Rightarrow> fp \<Rightarrow> fp \<Rightarrow> Point" where
  "userSpaceToNormalized rnd v pageWidthPoints pageHeightPoints =
     \<lparr>pt_x = clamp01 (if fp_lt (Fin 0) pageWidthPoints then fp_div rnd (pt_x v) pageWidthPoints else Fin 0),
      pt_y = clamp01 (if fp_lt (Fin 0) pageHeightPoints then fp_sub rnd (Fin 1) (fp_div rnd (pt_y v) pageHeightPoints) else Fin 0)\<rparr>"

section \<open>Writing values\<close>

definition toUserSpace :: "QtCalls \<Rightarrow> fp \<Rightarrow> fp \<Rightarrow> fp \<Rightarrow> fp \<Rightarrow> Point" where
  "toUserSpace q x y pageWidth pageHeight = normalizedToUserSpace (qt_rnd q) \<lparr>pt_x = x, pt_y = y\<rparr> pageWidth pageHeight"

text \<open>The two loops that remove a suffix work on the reversed text.\<close>

definition chop_zeros :: "QString \<Rightarrow> QString" where
  "chop_zeros t = rev (dropWhile (\<lambda>c. c = of_char CHR ''0'') (rev t))"

definition chop_point :: "QString \<Rightarrow> QString" where
  "chop_point t = (if t \<noteq> [] \<and> last t = of_char CHR ''.'' then butlast t else t)"

definition formatNumber :: "QtCalls \<Rightarrow> fp \<Rightarrow> QString" where
  "formatNumber q v =
     (let v = (if \<not> isfinite v \<or> fp_lt (fp_abs v) (Fin (1 / 10 ^ 9)) then Fin 0 else v);
          text = chop_point (chop_zeros (qt_fixed6 q v)) in
      if text = [] then qs ''0'' else text)"

definition escape_unit :: "nat \<Rightarrow> QString" where
  "escape_unit c =
     (if c = of_char CHR ''&'' then qs ''&amp;''
      else if c = of_char CHR ''<'' then qs ''&lt;''
      else if c = of_char CHR ''>'' then qs ''&gt;''
      else if c = 34 then qs ''&quot;''
      else if c = 39 then qs ''&apos;''
      else if c < 0x20 \<and> c \<noteq> 9 \<and> c \<noteq> 10 \<and> c \<noteq> 13 then []
      else [c])"

definition escapeXml :: "QString \<Rightarrow> QString" where
  "escapeXml v = concat (map escape_unit v)"

definition hex_digit :: "nat \<Rightarrow> nat" where
  "hex_digit n = (if n < 10 then of_char CHR ''0'' + n else of_char CHR ''a'' + (n - 10))"

definition hex2 :: "nat \<Rightarrow> QString" where
  "hex2 n = [hex_digit (n div 16), hex_digit (n mod 16)]"

definition colorAttribute :: "u32 \<Rightarrow> QString" where
  "colorAttribute argb =
     qs ''#'' @ hex2 (unat (drop_bit 16 argb AND 0xff)) @ hex2 (unat (drop_bit 8 argb AND 0xff)) @ hex2 (unat (argb AND 0xff))"

definition opacityAttribute :: "QtCalls \<Rightarrow> u32 \<Rightarrow> QString" where
  "opacityAttribute q argb = formatNumber q (fp_div (qt_rnd q) (Fin (real (unat (drop_bit 24 argb)))) (Fin 255))"

definition xfdfDate :: "QtCalls \<Rightarrow> Timestamp \<Rightarrow> QString" where
  "xfdfDate q timestamp =
     (if \<not> ts_valid timestamp then [] else qs ''D:'' @ qt_utcText q (ts_unixMilliseconds timestamp) @ qs [CHR ''+'', CHR ''0'', CHR ''0'', CHR 0x27, CHR ''0'', CHR ''0'', CHR 0x27])"

definition ending_names :: "(string \<times> AnnotationLineEnding) list" where
  "ending_names =
     [(''None'', ALE_None), (''Square'', ALE_Square), (''Circle'', ALE_Circle), (''Diamond'', ALE_Diamond), (''OpenArrow'', ALE_OpenArrow),
      (''ClosedArrow'', ALE_ClosedArrow), (''Butt'', ALE_Butt), (''ROpenArrow'', ALE_ROpenArrow), (''RClosedArrow'', ALE_RClosedArrow),
      (''Slash'', ALE_Slash)]"

fun lineEndingName :: "AnnotationLineEnding \<Rightarrow> string" where
  "lineEndingName ALE_Square = ''Square''"
| "lineEndingName ALE_Circle = ''Circle''"
| "lineEndingName ALE_Diamond = ''Diamond''"
| "lineEndingName ALE_OpenArrow = ''OpenArrow''"
| "lineEndingName ALE_ClosedArrow = ''ClosedArrow''"
| "lineEndingName ALE_Butt = ''Butt''"
| "lineEndingName ALE_ROpenArrow = ''ROpenArrow''"
| "lineEndingName ALE_RClosedArrow = ''RClosedArrow''"
| "lineEndingName ALE_Slash = ''Slash''"
| "lineEndingName _ = ''None''"

fun intentName :: "AnnotationIntent \<Rightarrow> string" where
  "intentName AI_FreeTextCallout = ''FreeTextCallout''"
| "intentName AI_FreeTextTypewriter = ''FreeTextTypewriter''"
| "intentName AI_LineArrow = ''LineArrow''"
| "intentName AI_LineDimension = ''LineDimension''"
| "intentName AI_PolyLineDimension = ''PolyLineDimension''"
| "intentName AI_PolygonCloud = ''PolygonCloud''"
| "intentName AI_PolygonDimension = ''PolygonDimension''"
| "intentName AI_StampImage = ''StampImage''"
| "intentName AI_StampSnapshot = ''StampSnapshot''"
| "intentName _ = ''''"

definition flag_names :: "(AnnotationFlag \<times> string) list" where
  "flag_names =
     [(AF_Hidden, ''hidden''), (AF_Print, ''print''), (AF_NoZoom, ''nozoom''), (AF_NoRotate, ''norotate''), (AF_ReadOnly, ''readonly''),
      (AF_Locked, ''locked''), (AF_ToggleNoView, ''togglenoview'')]"

fun joined :: "nat \<Rightarrow> QString list \<Rightarrow> QString" where
  "joined sep [] = []"
| "joined sep [t] = t"
| "joined sep (t # ts) = t @ sep # joined sep ts"

text \<open>The flags that are set, by name; \<open>appendFlagAttributes\<close> writes them when there are any.\<close>

definition flag_list :: "int \<Rightarrow> QString list" where
  "flag_list flags = map (\<lambda>(f, n). qs n) (filter (\<lambda>(f, n). flags AND AnnotationFlag_value f \<noteq> 0) flag_names)"

definition comma :: nat where
  "comma = of_char CHR '',''"

definition semicolon :: nat where
  "semicolon = of_char CHR '';''"

definition point_text :: "QtCalls \<Rightarrow> Point \<Rightarrow> fp \<Rightarrow> fp \<Rightarrow> QString list" where
  "point_text q p pageWidth pageHeight =
     (let user = toUserSpace q (pt_x p) (pt_y p) pageWidth pageHeight in [formatNumber q (pt_x user), formatNumber q (pt_y user)])"

definition pointPairs :: "QtCalls \<Rightarrow> Point list \<Rightarrow> fp \<Rightarrow> fp \<Rightarrow> QString" where
  "pointPairs q points pageWidth pageHeight = joined semicolon (map (\<lambda>p. joined comma (point_text q p pageWidth pageHeight)) points)"

definition coordinateList :: "QtCalls \<Rightarrow> Point list \<Rightarrow> fp \<Rightarrow> fp \<Rightarrow> QString" where
  "coordinateList q points pageWidth pageHeight = joined comma (concat (map (\<lambda>p. point_text q p pageWidth pageHeight) points))"

definition needsEscape :: "nat \<Rightarrow> bool" where
  "needsEscape byte \<longleftrightarrow> byte \<le> 0x20 \<or> byte \<ge> 0x7f \<or> byte \<in> set (qs ''()<>[]{}/%#'')"

definition upper_hex_digit :: "nat \<Rightarrow> nat" where
  "upper_hex_digit n = qs ''0123456789ABCDEF'' ! n"

definition pdfName_byte :: "nat \<Rightarrow> QString" where
  "pdfName_byte byte = (if needsEscape byte then [of_char CHR ''#'', upper_hex_digit (byte div 16), upper_hex_digit (byte mod 16)] else [byte])"

text \<open>The bytes of \<open>QString::fromStdString(value).toUtf8()\<close>.\<close>

definition pdfName :: "QtCalls \<Rightarrow> string \<Rightarrow> QString" where
  "pdfName q v = of_char CHR ''/'' # concat (map (\<lambda>c. pdfName_byte (of_char c)) (qt_toStdString q (qt_fromStdString q v)))"

section \<open>Reading values\<close>

datatype GeometryParseStatus = Complete | Malformed | LimitExceeded

function split_on :: "nat \<Rightarrow> QString \<Rightarrow> QString list" where
  "split_on sep t =
     (case dropWhile (\<lambda>c. c \<noteq> sep) t of [] \<Rightarrow> [t] | _ # rest \<Rightarrow> takeWhile (\<lambda>c. c \<noteq> sep) t # split_on sep rest)"
  by pat_completeness auto
termination
proof (relation "measure (\<lambda>(sep, t). length t)")
  fix sep c :: nat and t rest :: QString
  assume "dropWhile (\<lambda>c. c \<noteq> sep) t = c # rest"
  then have "length (c # rest) \<le> length t" by (metis length_dropWhile_le)
  then show "((sep, rest), (sep, t)) \<in> measure (\<lambda>(sep, t). length t)" by simp
qed simp

declare split_on.simps [simp del]

definition blank :: "QtCalls \<Rightarrow> QString \<Rightarrow> bool" where
  "blank q t \<longleftrightarrow> list_all (qt_isSpace q) t"

definition parseNumber :: "QtCalls \<Rightarrow> QString \<Rightarrow> fp option" where
  "parseNumber q t = (case qt_toDouble q t of None \<Rightarrow> None | Some v \<Rightarrow> if isfinite v then Some v else None)"

definition normalizedPoint :: "QtCalls \<Rightarrow> fp \<Rightarrow> fp \<Rightarrow> fp \<Rightarrow> fp \<Rightarrow> Point" where
  "normalizedPoint q x y width height = userSpaceToNormalized (qt_rnd q) \<lparr>pt_x = x, pt_y = y\<rparr> width height"

definition parse_pair :: "QtCalls \<Rightarrow> QString \<Rightarrow> fp \<Rightarrow> fp \<Rightarrow> Point option" where
  "parse_pair q t width height =
     (case split_on comma t of
        [a, b] \<Rightarrow> (case (parseNumber q a, parseNumber q b) of (Some x, Some y) \<Rightarrow> Some (normalizedPoint q x y width height) | _ \<Rightarrow> None)
      | _ \<Rightarrow> None)"

definition parseSinglePoint :: "QtCalls \<Rightarrow> QString \<Rightarrow> fp \<Rightarrow> fp \<Rightarrow> Point list \<Rightarrow> Point list" where
  "parseSinglePoint q t width height out = (case parse_pair q t width height of None \<Rightarrow> out | Some p \<Rightarrow> out @ [p])"

fun pairs_loop :: "QtCalls \<Rightarrow> fp \<Rightarrow> fp \<Rightarrow> nat \<Rightarrow> Point list \<Rightarrow> QString list \<Rightarrow> GeometryParseStatus \<times> Point list" where
  "pairs_loop q width height limit out [] = (Complete, out)"
| "pairs_loop q width height limit out (pair # pairs) =
     (if length out \<ge> limit then (LimitExceeded, out)
      else case parse_pair q pair width height of
        None \<Rightarrow> (Malformed, out)
      | Some p \<Rightarrow> pairs_loop q width height limit (out @ [p]) pairs)"

definition parsePointPairs :: "QtCalls \<Rightarrow> QString \<Rightarrow> fp \<Rightarrow> fp \<Rightarrow> nat \<Rightarrow> GeometryParseStatus \<times> Point list" where
  "parsePointPairs q t width height limit =
     (if blank q t then (Complete, []) else pairs_loop q width height limit [] (split_on semicolon t))"

function callout_loop :: "QtCalls \<Rightarrow> fp list \<Rightarrow> QString \<Rightarrow> GeometryParseStatus \<times> fp list" where
  "callout_loop q coordinates t =
     (if length coordinates = MaxAnnotationCalloutPoints * 2 then (LimitExceeded, coordinates)
      else case parseNumber q (takeWhile (\<lambda>c. c \<noteq> comma) t) of
        None \<Rightarrow> (Malformed, coordinates)
      | Some v \<Rightarrow> (case dropWhile (\<lambda>c. c \<noteq> comma) t of [] \<Rightarrow> (Complete, coordinates @ [v]) | _ # rest \<Rightarrow> callout_loop q (coordinates @ [v]) rest))"
  by pat_completeness auto
termination
proof (relation "measure (\<lambda>(q, coordinates, t). length t)")
  fix q :: QtCalls and coordinates :: "fp list" and c :: nat and v and t rest :: QString
  assume "dropWhile (\<lambda>c. c \<noteq> comma) t = c # rest"
  then have "length (c # rest) \<le> length t" by (metis length_dropWhile_le)
  then show "((q, coordinates @ [v], rest), (q, coordinates, t)) \<in> measure (\<lambda>(q, coordinates, t). length t)" by simp
qed simp

declare callout_loop.simps [simp del]

fun point_list :: "QtCalls \<Rightarrow> fp \<Rightarrow> fp \<Rightarrow> fp list \<Rightarrow> Point list" where
  "point_list q width height (x # y # rest) = normalizedPoint q x y width height # point_list q width height rest"
| "point_list q width height _ = []"

definition parseCallout :: "QtCalls \<Rightarrow> QString \<Rightarrow> fp \<Rightarrow> fp \<Rightarrow> GeometryParseStatus \<times> Point list" where
  "parseCallout q t width height =
     (case callout_loop q [] t of
        (Complete, coordinates) \<Rightarrow>
          if length coordinates < 4 \<or> odd (length coordinates) then (Malformed, []) else (Complete, point_list q width height coordinates)
      | (status, _) \<Rightarrow> (status, []))"

function coord_loop :: "QtCalls \<Rightarrow> fp \<Rightarrow> fp \<Rightarrow> nat \<Rightarrow> Quad list \<Rightarrow> QString list \<Rightarrow> GeometryParseStatus \<times> Quad list" where
  "coord_loop q width height limit out values =
     (if length values \<ge> 8
      then if length out \<ge> limit then (LimitExceeded, out)
      else case those (map (parseNumber q) (take 8 values)) of
        None \<Rightarrow> (Malformed, out)
      | Some coordinates \<Rightarrow>
          (case point_list q width height coordinates of
             [upperLeft, upperRight, lowerLeft, lowerRight] \<Rightarrow>
               coord_loop q width height limit
                 (out @ [\<lparr>qd_upperLeft = upperLeft, qd_upperRight = upperRight, qd_lowerRight = lowerRight, qd_lowerLeft = lowerLeft\<rparr>]) (drop 8 values)
           | _ \<Rightarrow> (Malformed, out))
      else (if values = [] then Complete else Malformed, out))"
  by pat_completeness auto
termination by (relation "measure (\<lambda>(q, width, height, limit, out, values). length values)") auto

declare coord_loop.simps [simp del]

definition parseCoordList :: "QtCalls \<Rightarrow> QString \<Rightarrow> fp \<Rightarrow> fp \<Rightarrow> nat \<Rightarrow> GeometryParseStatus \<times> Quad list" where
  "parseCoordList q t width height limit =
     (if blank q t then (Complete, []) else coord_loop q width height limit [] (split_on comma t))"

definition parseRect :: "QtCalls \<Rightarrow> QString \<Rightarrow> fp list option" where
  "parseRect q t =
     (let parts = split_on comma t in if length parts \<noteq> 4 then None else those (map (parseNumber q) parts))"

definition parsePage :: "QtCalls \<Rightarrow> QString \<Rightarrow> int" where
  "parsePage q t = (case qt_toInt q t of Some page \<Rightarrow> if page \<ge> 0 then page else - 1 | None \<Rightarrow> - 1)"

definition alphaFromOpacity :: "QtCalls \<Rightarrow> QString \<Rightarrow> u8" where
  "alphaFromOpacity q t =
     (case parseNumber q t of None \<Rightarrow> 0xff | Some v \<Rightarrow> of_int (fp_round (fp_mul (qt_rnd q) (fp_clamp v (Fin 0) (Fin 1)) (Fin 255))))"

definition composeColor :: "QtCalls \<Rightarrow> QString \<Rightarrow> QString \<Rightarrow> u32" where
  "composeColor q color opacity =
     (let v = (if color \<noteq> [] \<and> hd color = of_char CHR ''#'' then tl color else color);
          rgb = (if length v = 6 then (case qt_toUIntHex q v of Some rgb \<Rightarrow> rgb | None \<Rightarrow> 0) else 0);
          red = drop_bit 16 rgb AND 0xff; green = drop_bit 8 rgb AND 0xff; blue = rgb AND 0xff;
          alpha = (ucast (alphaFromOpacity q opacity) :: u32) in
      push_bit 24 alpha OR push_bit 16 red OR push_bit 8 green OR blue)"

definition flag_of :: "QString \<Rightarrow> int" where
  "flag_of name = (case map_of (map (\<lambda>(f, n). (qs n, f)) flag_names) name of Some f \<Rightarrow> AnnotationFlag_value f | None \<Rightarrow> 0)"

definition parseFlags :: "QString \<Rightarrow> int" where
  "parseFlags t = foldl (\<lambda>flags name. flags OR flag_of name) 0 (filter (\<lambda>n. n \<noteq> []) (split_on comma t))"

definition parseLineEnding :: "QString \<Rightarrow> AnnotationLineEnding option" where
  "parseLineEnding t = map_of (map (\<lambda>(n, e). (qs n, e)) ending_names) t"

definition intent_names :: "(string \<times> AnnotationIntent) list" where
  "intent_names =
     [(''FreeTextCallout'', AI_FreeTextCallout), (''FreeTextTypewriter'', AI_FreeTextTypewriter), (''LineArrow'', AI_LineArrow),
      (''LineDimension'', AI_LineDimension), (''PolyLineDimension'', AI_PolyLineDimension), (''PolygonCloud'', AI_PolygonCloud),
      (''PolygonDimension'', AI_PolygonDimension), (''StampImage'', AI_StampImage), (''StampSnapshot'', AI_StampSnapshot)]"

definition parseIntent :: "QString \<Rightarrow> AnnotationIntent option" where
  "parseIntent t = map_of (map (\<lambda>(n, e). (qs n, e)) intent_names) t"

definition toInt0 :: "QtCalls \<Rightarrow> QString \<Rightarrow> int" where
  "toInt0 q t = (case qt_toInt q t of Some n \<Rightarrow> n | None \<Rightarrow> 0)"

definition no_timestamp :: Timestamp where
  "no_timestamp = \<lparr>ts_valid = False, ts_unixMilliseconds = 0\<rparr>"

definition parseXfdfDate :: "QtCalls \<Rightarrow> QString \<Rightarrow> Timestamp" where
  "parseXfdfDate q v =
     (if take 2 v \<noteq> qs ''D:'' \<or> length v < 16 then no_timestamp
      else let digits = take 14 (drop 2 v); piece = (\<lambda>i n. toInt0 q (take n (drop i digits))) in
        if \<not> list_all (qt_isDigit q) digits then no_timestamp
        else case qt_utcMillis q (piece 0 4, piece 4 2, piece 6 2) (piece 8 2, piece 10 2, piece 12 2) of
          None \<Rightarrow> no_timestamp
        | Some millis \<Rightarrow> \<lparr>ts_valid = True, ts_unixMilliseconds = millis\<rparr>)"

definition toLatin1 :: "nat \<Rightarrow> nat" where
  "toLatin1 c = (if c > 0xff then 0 else c)"

fun decode_loop :: "QtCalls \<Rightarrow> nat list \<Rightarrow> QString \<Rightarrow> nat list" where
  "decode_loop q bytes (c # h # l # rest) =
     (case (if c = of_char CHR ''#'' then qt_toUIntHex q [h, l] else None) of
        Some byte \<Rightarrow> decode_loop q (bytes @ [unat byte mod 256]) rest
      | None \<Rightarrow> decode_loop q (if c = of_char CHR ''/'' \<and> bytes = [] then bytes else bytes @ [toLatin1 c]) (h # l # rest))"
| "decode_loop q bytes (c # rest) = decode_loop q (if c = of_char CHR ''/'' \<and> bytes = [] then bytes else bytes @ [toLatin1 c]) rest"
| "decode_loop q bytes [] = bytes"

definition decodePdfName :: "QtCalls \<Rightarrow> QString \<Rightarrow> QString" where
  "decodePdfName q t = qt_fromStdString q (map char_of (decode_loop q [] t))"

end
