(* ===== verification/Xfdf_Export.thy ===== *)
theory Xfdf_Export
  imports Xfdf_Values
begin

text \<open>
  The XFDF writer (\<^verbatim>\<open>src/src/plugin/xfdf/export.cpp\<close>): bounds of an annotation, its element with attributes and children, the document.
\<close>

record XfdfPage =
  xp_widthPoints :: fp
  xp_heightPoints :: fp
  xp_annotations :: "Annotation list"

section \<open>Bounds\<close>

record NormalizedBounds =
  nb_x0 :: fp
  nb_y0 :: fp
  nb_x1 :: fp
  nb_y1 :: fp

definition extendBounds :: "NormalizedBounds \<times> bool \<Rightarrow> Point \<Rightarrow> NormalizedBounds \<times> bool" where
  "extendBounds s p =
     (case s of (bounds, valid) \<Rightarrow>
        if \<not> valid then (\<lparr>nb_x0 = pt_x p, nb_y0 = pt_y p, nb_x1 = pt_x p, nb_y1 = pt_y p\<rparr>, True)
        else (\<lparr>nb_x0 = fp_min (nb_x0 bounds) (pt_x p), nb_y0 = fp_min (nb_y0 bounds) (pt_y p),
               nb_x1 = fp_max (nb_x1 bounds) (pt_x p), nb_y1 = fp_max (nb_y1 bounds) (pt_y p)\<rparr>, True))"

definition quad_points :: "Quad \<Rightarrow> Point list" where
  "quad_points quad = [qd_upperLeft quad, qd_upperRight quad, qd_lowerRight quad, qd_lowerLeft quad]"

definition is_markup :: "AnnotationType \<Rightarrow> bool" where
  "is_markup t \<longleftrightarrow> t \<in> {AT_Highlight, AT_Underline, AT_Squiggly, AT_StrikeOut}"

definition is_path :: "AnnotationType \<Rightarrow> bool" where
  "is_path t \<longleftrightarrow> t \<in> {AT_Line, AT_Polygon, AT_PolyLine}"

definition normalizedBoundsOf :: "Annotation \<Rightarrow> NormalizedBounds" where
  "normalizedBoundsOf annotation =
     (let bounds = \<lparr>nb_x0 = an_x0 annotation, nb_y0 = an_y0 annotation, nb_x1 = an_x1 annotation, nb_y1 = an_y1 annotation\<rparr>;
          extras = an_extras annotation;
          points = (if is_markup (an_subtype annotation) then concat (map quad_points (ax_quads extras))
                    else if is_path (an_subtype annotation) then ax_points extras
                    else if an_subtype annotation = AT_Ink then concat (ax_inkPaths extras) else []) in
      fst (foldl extendBounds (bounds, False) points))"

definition normalizedRectToUserSpace :: "QtCalls \<Rightarrow> Annotation \<Rightarrow> fp \<Rightarrow> fp \<Rightarrow> Quad" where
  "normalizedRectToUserSpace q annotation pageWidth pageHeight =
     (let bounds = normalizedBoundsOf annotation;
          topLeft = toUserSpace q (nb_x0 bounds) (nb_y0 bounds) pageWidth pageHeight;
          bottomRight = toUserSpace q (nb_x1 bounds) (nb_y1 bounds) pageWidth pageHeight in
      \<lparr>qd_upperLeft = topLeft, qd_upperRight = \<lparr>pt_x = pt_x bottomRight, pt_y = pt_y topLeft\<rparr>, qd_lowerRight = bottomRight,
       qd_lowerLeft = \<lparr>pt_x = pt_x topLeft, pt_y = pt_y bottomRight\<rparr>\<rparr>)"

definition rectAttribute :: "QtCalls \<Rightarrow> Quad \<Rightarrow> QString" where
  "rectAttribute q rect =
     joined comma [formatNumber q (pt_x (qd_upperLeft rect)), formatNumber q (pt_y (qd_lowerLeft rect)),
       formatNumber q (pt_x (qd_lowerRight rect)), formatNumber q (pt_y (qd_upperRight rect))]"

section \<open>Elements\<close>

definition attribute :: "string \<Rightarrow> QString \<Rightarrow> QString" where
  "attribute name v = 32 # qs name @ [61, 34] @ v @ [34]"

definition open_tag :: "string \<Rightarrow> QString \<Rightarrow> QString" where
  "open_tag name attributes = 60 # qs name @ attributes @ [62]"

definition close_tag :: "string \<Rightarrow> QString" where
  "close_tag name = [60, 47] @ qs name @ [62]"

definition appendFlagAttributes :: "int \<Rightarrow> QString" where
  "appendFlagAttributes flags = (if flag_list flags = [] then [] else attribute ''flags'' (joined comma (flag_list flags)))"

definition commonAttributes :: "QtCalls \<Rightarrow> Annotation \<Rightarrow> nat \<Rightarrow> Quad \<Rightarrow> QString" where
  "commonAttributes q annotation pageIndex rect =
     (let creationDate = xfdfDate q (an_creationDate annotation);
          date = xfdfDate q (if ts_valid (an_modificationDate annotation) then an_modificationDate annotation else an_creationDate annotation) in
      attribute ''page'' (qt_number q (int pageIndex)) @ attribute ''rect'' (rectAttribute q rect)
      @ attribute ''color'' (colorAttribute (an_color annotation))
      @ attribute ''opacity'' (opacityAttribute q (an_color annotation))
      @ (if an_author annotation = [] then [] else attribute ''title'' (escapeXml (qt_fromStdString q (an_author annotation))))
      @ (if an_uuid annotation = [] then [] else attribute ''name'' (escapeXml (qt_fromStdString q (an_uuid annotation))))
      @ (if creationDate = [] then [] else attribute ''creationdate'' creationDate)
      @ (if date = [] then [] else attribute ''date'' date)
      @ appendFlagAttributes (an_flags annotation))"

definition contentsElement :: "QtCalls \<Rightarrow> Annotation \<Rightarrow> QString" where
  "contentsElement q annotation =
     (if an_contents annotation = [] then []
      else open_tag ''contents'' [] @ escapeXml (qt_fromStdString q (an_contents annotation)) @ close_tag ''contents'')"

definition xfdf_quad :: "Quad \<Rightarrow> Point list" where
  "xfdf_quad quad = [qd_upperLeft quad, qd_upperRight quad, qd_lowerLeft quad, qd_lowerRight quad]"

definition hasCallout :: "Annotation \<Rightarrow> bool" where
  "hasCallout annotation \<longleftrightarrow> an_subtype annotation = AT_FreeText \<and> ax_callout (an_extras annotation) \<noteq> []
     \<and> (case as_intent (ax_style (an_extras annotation)) of None \<Rightarrow> True | Some i \<Rightarrow> i = AI_Default \<or> i = AI_FreeTextCallout)"

definition icon_attribute :: "QtCalls \<Rightarrow> AnnotationStyle \<Rightarrow> QString" where
  "icon_attribute q style =
     (case as_appearance style of None \<Rightarrow> []
      | Some appearance \<Rightarrow> if aa_icon appearance = [] then [] else attribute ''icon'' (escapeXml (qt_fromStdString q (aa_icon appearance))))"

definition text_intent :: "Annotation \<Rightarrow> string" where
  "text_intent annotation =
     (case as_intent (ax_style (an_extras annotation)) of
        Some i \<Rightarrow> if i \<noteq> AI_Default then intentName i else if hasCallout annotation then ''FreeTextCallout'' else ''''
      | None \<Rightarrow> if hasCallout annotation then ''FreeTextCallout'' else '''')"

definition default_appearance :: "QtCalls \<Rightarrow> AnnotationStyle \<Rightarrow> QString" where
  "default_appearance q style =
     (case as_appearance style of None \<Rightarrow> []
      | Some appearance \<Rightarrow>
          if aa_fontName appearance = [] then []
          else open_tag ''defaultappearance'' [] @ qs ''0 0 0 rg '' @ escapeXml (pdfName q (aa_fontName appearance)) @ qs '' ''
                 @ formatNumber q (aa_fontSize appearance) @ qs '' Tf'' @ close_tag ''defaultappearance'')"

definition width_attribute :: "QtCalls \<Rightarrow> AnnotationStyle \<Rightarrow> QString" where
  "width_attribute q style = (case as_borderWidth style of None \<Rightarrow> [] | Some w \<Rightarrow> attribute ''width'' (formatNumber q w))"

definition intent_attribute :: "string \<Rightarrow> QString" where
  "intent_attribute intent = (if intent = [] then [] else attribute ''intent'' (qs intent))"

fun element_name :: "AnnotationType \<Rightarrow> string" where
  "element_name AT_Text = ''text''"
| "element_name AT_FreeText = ''freetext''"
| "element_name AT_Line = ''line''"
| "element_name AT_Polygon = ''polygon''"
| "element_name AT_PolyLine = ''polyline''"
| "element_name AT_Square = ''square''"
| "element_name AT_Circle = ''circle''"
| "element_name AT_Highlight = ''highlight''"
| "element_name AT_Underline = ''underline''"
| "element_name AT_Squiggly = ''squiggly''"
| "element_name AT_StrikeOut = ''strikeout''"
| "element_name AT_Ink = ''ink''"
| "element_name AT_Stamp = ''stamp''"
| "element_name AT_Caret = ''caret''"
| "element_name _ = ''''"

definition line_attributes :: "QtCalls \<Rightarrow> Annotation \<Rightarrow> XfdfPage \<Rightarrow> QString" where
  "line_attributes q annotation geometry =
     (let points = ax_points (an_extras annotation); style = ax_style (an_extras annotation) in
      attribute ''start'' (joined comma (point_text q (hd points) (xp_widthPoints geometry) (xp_heightPoints geometry)))
      @ attribute ''end'' (joined comma (point_text q (last points) (xp_widthPoints geometry) (xp_heightPoints geometry)))
      @ (case as_firstLineEnding style of None \<Rightarrow> [] | Some e \<Rightarrow> attribute ''tail'' (qs (lineEndingName e)))
      @ (case as_lastLineEnding style of None \<Rightarrow> [] | Some e \<Rightarrow> attribute ''head'' (qs (lineEndingName e))))"

definition ink_list :: "QtCalls \<Rightarrow> Annotation \<Rightarrow> XfdfPage \<Rightarrow> QString" where
  "ink_list q annotation geometry =
     (let paths = ax_inkPaths (an_extras annotation) in
      if paths = [] then []
      else open_tag ''inklist'' []
           @ concat (map (\<lambda>path. open_tag ''gesture'' [] @ pointPairs q path (xp_widthPoints geometry) (xp_heightPoints geometry) @ close_tag ''gesture'') paths)
           @ close_tag ''inklist'')"

definition annotationElement :: "QtCalls \<Rightarrow> Annotation \<Rightarrow> nat \<Rightarrow> XfdfPage \<Rightarrow> QString" where
  "annotationElement q annotation pageIndex geometry =
     (let rect = normalizedRectToUserSpace q annotation (xp_widthPoints geometry) (xp_heightPoints geometry);
          common = commonAttributes q annotation pageIndex rect;
          contents = contentsElement q annotation;
          extras = an_extras annotation;
          style = ax_style extras;
          coordinates = (\<lambda>points. coordinateList q points (xp_widthPoints geometry) (xp_heightPoints geometry));
          element = (\<lambda>attributes inner. open_tag (element_name (an_subtype annotation)) (common @ attributes) @ inner
                                          @ close_tag (element_name (an_subtype annotation)));
          path_style = width_attribute q style @ (case as_intent style of None \<Rightarrow> [] | Some i \<Rightarrow> intent_attribute (intentName i));
          text_element =
            element ((if hasCallout annotation then attribute ''callout'' (coordinates (ax_callout extras)) else [])
                     @ icon_attribute q style @ intent_attribute (text_intent annotation))
                    (contents @ default_appearance q style);
          polygon_element =
            element path_style
              (open_tag ''vertices'' [] @ pointPairs q (ax_points extras) (xp_widthPoints geometry) (xp_heightPoints geometry) @ close_tag ''vertices''
               @ contents);
          shape_element = element (width_attribute q style) contents;
          points = concat (map xfdf_quad (ax_quads extras));
          markup_element = element (if points = [] then [] else attribute ''coords'' (coordinates points)) contents in
      case an_subtype annotation of
        AT_Text \<Rightarrow> text_element
      | AT_FreeText \<Rightarrow> text_element
      | AT_Line \<Rightarrow> if length (ax_points extras) < 2 then [] else element (path_style @ line_attributes q annotation geometry) contents
      | AT_Polygon \<Rightarrow> polygon_element
      | AT_PolyLine \<Rightarrow> polygon_element
      | AT_Square \<Rightarrow> shape_element
      | AT_Circle \<Rightarrow> shape_element
      | AT_Highlight \<Rightarrow> markup_element
      | AT_Underline \<Rightarrow> markup_element
      | AT_Squiggly \<Rightarrow> markup_element
      | AT_StrikeOut \<Rightarrow> markup_element
      | AT_Ink \<Rightarrow> element (width_attribute q style) (ink_list q annotation geometry @ contents)
      | AT_Stamp \<Rightarrow> element (icon_attribute q style) contents
      | AT_Caret \<Rightarrow> element (if ax_caretSymbolP extras then attribute ''symbol'' (qs ''P'') else []) contents
      | _ \<Rightarrow> [])"

section \<open>The document\<close>

definition xml_head :: QString where
  "xml_head = qs ''<?xml version='' @ [34] @ qs ''1.0'' @ [34] @ qs '' encoding='' @ [34] @ qs ''UTF-8'' @ [34] @ qs ''?>'' @ [10]"

definition page_elements :: "QtCalls \<Rightarrow> nat \<Rightarrow> XfdfPage \<Rightarrow> QString" where
  "page_elements q pageIndex page =
     concat (map (\<lambda>annotation. let element = annotationElement q annotation pageIndex page in if element = [] then [] else element @ [10])
       (xp_annotations page))"

definition annotationsToXfdf :: "QtCalls \<Rightarrow> XfdfPage list \<Rightarrow> QString" where
  "annotationsToXfdf q pages =
     xml_head @ open_tag ''xfdf'' (attribute ''xmlns'' (qs ''http://ns.adobe.com/xfdf/'') @ attribute ''xml:space'' (qs ''preserve'')) @ [10]
     @ open_tag ''annots'' [] @ [10]
     @ concat (map (\<lambda>(i, page). page_elements q i page) (enumerate 0 pages))
     @ close_tag ''annots'' @ [10] @ close_tag ''xfdf'' @ [10]"

end
