(* ===== verification/Xfdf_Import.thy ===== *)
theory Xfdf_Import
  imports Xfdf_Export
begin

text \<open>
  The XFDF reader (\<^verbatim>\<open>src/src/plugin/xfdf/import.cpp\<close>). \<open>QXmlStreamReader\<close> is the list of tokens it reports: it is at its end when the list is
  empty, and an \<open>Invalid\<close> token, which carries the text of the error, is its last.
\<close>

section \<open>Annotations\<close>

definition no_appearance :: AnnotationAppearance where
  "no_appearance = \<lparr>aa_icon = [], aa_fontName = [], aa_fontSize = Fin 0, aa_textColor = 0, aa_borderWidth = Fin 0, aa_alignment = 0\<rparr>"

definition no_style :: AnnotationStyle where
  "no_style = \<lparr>as_appearance = None, as_borderWidth = None, as_interiorColor = None, as_intent = None, as_firstLineEnding = None, as_lastLineEnding = None,
     as_closed = None\<rparr>"

definition no_extras :: AnnotationExtras where
  "no_extras = \<lparr>ax_points = [], ax_quads = [], ax_inkPaths = [], ax_callout = [], ax_style = no_style, ax_caretSymbolP = False, ax_extension = [],
     ax_stampImage = None\<rparr>"

definition ensureAppearance :: "AnnotationStyle \<Rightarrow> AnnotationAppearance" where
  "ensureAppearance style = (case as_appearance style of None \<Rightarrow> no_appearance | Some appearance \<Rightarrow> appearance)"

definition applyDefaultAppearance :: "QtCalls \<Rightarrow> QString \<Rightarrow> AnnotationStyle \<Rightarrow> AnnotationStyle" where
  "applyDefaultAppearance q t style =
     (let tokens = filter (\<lambda>w. w \<noteq> []) (split_on 32 t) in
      if length tokens < 2 \<or> last tokens \<noteq> qs ''Tf'' then style
      else case parseNumber q (tokens ! (length tokens - 2)) of
        None \<Rightarrow> style
      | Some fontSize \<Rightarrow>
          let fontName = (if length tokens \<ge> 3 then decodePdfName q (tokens ! (length tokens - 3)) else []) in
          style\<lparr>as_appearance := Some ((ensureAppearance style)\<lparr>aa_fontName := qt_toStdString q fontName, aa_fontSize := fontSize\<rparr>)\<rparr>)"

definition element_types :: "AnnotationType list" where
  "element_types =
     [AT_Text, AT_FreeText, AT_Line, AT_Polygon, AT_PolyLine, AT_Square, AT_Circle, AT_Highlight, AT_Underline, AT_Squiggly, AT_StrikeOut,
      AT_Ink, AT_Stamp, AT_Caret]"

definition subtypeForElement :: "QString \<Rightarrow> AnnotationType option" where
  "subtypeForElement name = map_of (map (\<lambda>t. (qs (element_name t), t)) element_types) name"

definition tightenBounds :: "Annotation \<Rightarrow> Annotation" where
  "tightenBounds annotation =
     (let extras = an_extras annotation;
          points = ax_points extras @ concat (map quad_points (ax_quads extras)) @ concat (ax_inkPaths extras) in
      case foldl extendBounds (\<lparr>nb_x0 = Fin 0, nb_y0 = Fin 0, nb_x1 = Fin 0, nb_y1 = Fin 0\<rparr>, False) points of
        (bounds, valid) \<Rightarrow>
          if valid then annotation\<lparr>an_x0 := nb_x0 bounds, an_y0 := nb_y0 bounds, an_x1 := nb_x1 bounds, an_y1 := nb_y1 bounds\<rparr> else annotation)"

section \<open>The importer\<close>

record XEntry =
  xe_page :: int
  xe_rect :: QString
  xe_color :: QString
  xe_opacity :: QString
  xe_title :: QString
  xe_name :: QString
  xe_creationDate :: QString
  xe_date :: QString
  xe_flags :: QString
  xe_contents :: QString
  xe_defaultAppearance :: QString
  xe_vertices :: QString
  xe_coords :: QString
  xe_icon :: QString
  xe_intent :: QString
  xe_width :: QString
  xe_start :: QString
  xe_end :: QString
  xe_head :: QString
  xe_tail :: QString
  xe_symbol :: QString
  xe_callout :: QString
  xe_inkGestures :: "QString list"
  xe_inkPathLimitExceeded :: bool

record XfdfParseResult =
  xr_pages :: "XfdfPage list"
  xr_applied :: nat
  xr_skipped :: nat
  xr_warnings :: "QString list"

record XfdfParseLimits =
  xl_annotationsRemaining :: nat
  xl_annotationsPerPageRemaining :: "nat list"

record Importer =
  im_pageSizes :: "(fp \<times> fp) list"
  im_annotationsPerPageRemaining :: "nat list"
  im_annotationsRemaining :: nat
  im_limitsError :: QString
  im_result :: XfdfParseResult
  im_suppressed :: nat

definition MaxWarnings :: nat where
  [limits]: "MaxWarnings = 20"

definition MaxXfdfBytes :: nat where
  [limits]: "MaxXfdfBytes = 16 * 1024 * 1024"

definition Importer_init :: "(fp \<times> fp) list \<Rightarrow> XfdfParseLimits \<Rightarrow> Importer" where
  "Importer_init pageSizes limits =
     (let im = \<lparr>im_pageSizes = pageSizes, im_annotationsPerPageRemaining = [],
                im_annotationsRemaining = min (xl_annotationsRemaining limits) MaxAnnotationsPerDocument, im_limitsError = [],
                im_result = \<lparr>xr_pages = [], xr_applied = 0, xr_skipped = 0, xr_warnings = []\<rparr>, im_suppressed = 0\<rparr> in
      if xl_annotationsPerPageRemaining limits = [] then im\<lparr>im_annotationsPerPageRemaining := map (\<lambda>_. MaxAnnotationsPerPage) pageSizes\<rparr>
      else if length (xl_annotationsPerPageRemaining limits) = length pageSizes
      then im\<lparr>im_annotationsPerPageRemaining := map (\<lambda>remaining. min remaining MaxAnnotationsPerPage) (xl_annotationsPerPageRemaining limits)\<rparr>
      else im\<lparr>im_limitsError := qs ''per-page annotation limits do not match the page count''\<rparr>)"

definition warn :: "QString \<Rightarrow> Importer \<Rightarrow> Importer" where
  "warn message im =
     (if length (xr_warnings (im_result im)) < MaxWarnings
      then im\<lparr>im_result := (im_result im)\<lparr>xr_warnings := xr_warnings (im_result im) @ [message]\<rparr>\<rparr>
      else im\<lparr>im_suppressed := im_suppressed im + 1\<rparr>)"

definition skip :: "QString \<Rightarrow> Importer \<Rightarrow> Importer" where
  "skip message im = warn message (im\<lparr>im_result := (im_result im)\<lparr>xr_skipped := xr_skipped (im_result im) + 1\<rparr>\<rparr>)"

definition flushWarnings :: "QtCalls \<Rightarrow> Importer \<Rightarrow> Importer" where
  "flushWarnings q im =
     (if im_suppressed im > 0
      then im\<lparr>im_result := (im_result im)\<lparr>xr_warnings := xr_warnings (im_result im)
             @ [qs ''...and '' @ qt_number q (int (im_suppressed im)) @ qs '' more'']\<rparr>\<rparr>
      else im)"

definition xfdf_fail :: "QString \<Rightarrow> Importer \<Rightarrow> QString \<times> XfdfParseResult" where
  "xfdf_fail message im = (message, (im_result im)\<lparr>xr_pages := []\<rparr>)"

subsection \<open>Geometry of an entry\<close>

definition rejectGeometry :: "QtCalls \<Rightarrow> XEntry \<Rightarrow> GeometryParseStatus \<Rightarrow> string \<Rightarrow> QString" where
  "rejectGeometry q entry status label =
     (if status = LimitExceeded
      then qs label @ qs '' geometry exceeds its limit on page '' @ qt_number q (xe_page entry)
      else qs ''malformed '' @ qs label @ qs '' geometry on page '' @ qt_number q (xe_page entry))"

fun ink_loop :: "QtCalls \<Rightarrow> fp \<Rightarrow> fp \<Rightarrow> nat \<Rightarrow> QString list \<Rightarrow> GeometryParseStatus \<times> Point list list" where
  "ink_loop q width height remaining [] = (Complete, [])"
| "ink_loop q width height remaining (gesture # gestures) =
     (case parsePointPairs q gesture width height remaining of
        (Complete, path) \<Rightarrow>
          if path = [] then ink_loop q width height remaining gestures
          else map_prod id (\<lambda>paths. path # paths) (ink_loop q width height (remaining - length path) gestures)
      | (status, path) \<Rightarrow> (status, []))"

definition with_icon :: "QtCalls \<Rightarrow> XEntry \<Rightarrow> AnnotationStyle \<Rightarrow> AnnotationStyle" where
  "with_icon q entry style =
     (if xe_icon entry = [] then style else style\<lparr>as_appearance := Some ((ensureAppearance style)\<lparr>aa_icon := qt_toStdString q (xe_icon entry)\<rparr>)\<rparr>)"

definition entry_style :: "QtCalls \<Rightarrow> XEntry \<Rightarrow> AnnotationStyle" where
  "entry_style q entry =
     (let style = (case parseNumber q (xe_width entry) of
                     None \<Rightarrow> no_style
                   | Some border \<Rightarrow> if fp_le (Fin 0) border then no_style\<lparr>as_borderWidth := Some border\<rparr> else no_style) in
      case parseIntent (xe_intent entry) of None \<Rightarrow> style | Some intent \<Rightarrow> style\<lparr>as_intent := Some intent\<rparr>)"

definition text_geometry :: "QtCalls \<Rightarrow> XEntry \<Rightarrow> fp \<Rightarrow> fp \<Rightarrow> AnnotationExtras \<Rightarrow> QString + AnnotationExtras" where
  "text_geometry q entry width height extras =
     (let style1 = with_icon q entry (ax_style extras);
          style = (if xe_defaultAppearance entry = [] then style1 else applyDefaultAppearance q (xe_defaultAppearance entry) style1);
          extras1 = extras\<lparr>ax_style := style\<rparr> in
      if blank q (xe_callout entry) then Inr extras1
      else case parseCallout q (xe_callout entry) width height of
        (status, callout) \<Rightarrow>
          if status \<noteq> Complete then Inl (rejectGeometry q entry status ''callout'')
          else if \<not> blank q (xe_intent entry) \<and> as_intent style \<noteq> Some AI_FreeTextCallout then Inl (rejectGeometry q entry Malformed ''callout intent'')
          else Inr (extras1\<lparr>ax_callout := callout,
                 ax_style := (if as_intent style = None then style\<lparr>as_intent := Some AI_FreeTextCallout\<rparr> else style)\<rparr>))"

definition line_geometry :: "QtCalls \<Rightarrow> XEntry \<Rightarrow> fp \<Rightarrow> fp \<Rightarrow> AnnotationExtras \<Rightarrow> QString + AnnotationExtras" where
  "line_geometry q entry width height extras =
     (let points = parseSinglePoint q (xe_end entry) width height (parseSinglePoint q (xe_start entry) width height []); style = ax_style extras in
      if length points < 2 then Inl (qs ''line on page '' @ qt_number q (xe_page entry) @ qs '' has fewer than two endpoints'')
      else Inr (extras\<lparr>ax_points := points,
             ax_style := style\<lparr>as_firstLineEnding := (case parseLineEnding (xe_tail entry) of None \<Rightarrow> as_firstLineEnding style | Some e \<Rightarrow> Some e),
                              as_lastLineEnding := (case parseLineEnding (xe_head entry) of None \<Rightarrow> as_lastLineEnding style | Some e \<Rightarrow> Some e)\<rparr>\<rparr>))"

definition polygon_geometry :: "QtCalls \<Rightarrow> XEntry \<Rightarrow> fp \<Rightarrow> fp \<Rightarrow> AnnotationExtras \<Rightarrow> QString + AnnotationExtras" where
  "polygon_geometry q entry width height extras =
     (case parsePointPairs q (xe_vertices entry) width height MaxAnnotationPoints of
        (status, points) \<Rightarrow> if status \<noteq> Complete then Inl (rejectGeometry q entry status ''polygon'') else Inr (extras\<lparr>ax_points := points\<rparr>))"

definition markup_geometry :: "QtCalls \<Rightarrow> XEntry \<Rightarrow> fp \<Rightarrow> fp \<Rightarrow> AnnotationExtras \<Rightarrow> QString + AnnotationExtras" where
  "markup_geometry q entry width height extras =
     (case parseCoordList q (xe_coords entry) width height MaxAnnotationQuads of
        (status, quads) \<Rightarrow> if status \<noteq> Complete then Inl (rejectGeometry q entry status ''highlight'') else Inr (extras\<lparr>ax_quads := quads\<rparr>))"

definition ink_geometry :: "QtCalls \<Rightarrow> XEntry \<Rightarrow> fp \<Rightarrow> fp \<Rightarrow> AnnotationExtras \<Rightarrow> QString + AnnotationExtras" where
  "ink_geometry q entry width height extras =
     (if xe_inkPathLimitExceeded entry then Inl (rejectGeometry q entry LimitExceeded ''ink'')
      else case ink_loop q width height MaxAnnotationInkPoints (xe_inkGestures entry) of
        (status, paths) \<Rightarrow> if status \<noteq> Complete then Inl (rejectGeometry q entry status ''ink'') else Inr (extras\<lparr>ax_inkPaths := paths\<rparr>))"

definition geometry_of :: "QtCalls \<Rightarrow> XEntry \<Rightarrow> AnnotationType \<Rightarrow> fp \<Rightarrow> fp \<Rightarrow> QString + AnnotationExtras" where
  "geometry_of q entry subtype width height =
     (let extras = no_extras\<lparr>ax_style := entry_style q entry\<rparr> in
      case subtype of
        AT_Text \<Rightarrow> text_geometry q entry width height extras
      | AT_FreeText \<Rightarrow> text_geometry q entry width height extras
      | AT_Line \<Rightarrow> line_geometry q entry width height extras
      | AT_Polygon \<Rightarrow> polygon_geometry q entry width height extras
      | AT_PolyLine \<Rightarrow> polygon_geometry q entry width height extras
      | AT_Highlight \<Rightarrow> markup_geometry q entry width height extras
      | AT_Underline \<Rightarrow> markup_geometry q entry width height extras
      | AT_Squiggly \<Rightarrow> markup_geometry q entry width height extras
      | AT_StrikeOut \<Rightarrow> markup_geometry q entry width height extras
      | AT_Ink \<Rightarrow> ink_geometry q entry width height extras
      | AT_Stamp \<Rightarrow> Inr (extras\<lparr>ax_style := with_icon q entry (ax_style extras)\<rparr>)
      | AT_Caret \<Rightarrow> Inr (extras\<lparr>ax_caretSymbolP := (xe_symbol entry = qs ''P'')\<rparr>)
      | _ \<Rightarrow> Inr extras)"

definition applyGeometry :: "QtCalls \<Rightarrow> XEntry \<Rightarrow> AnnotationType \<Rightarrow> fp \<Rightarrow> fp \<Rightarrow> Annotation \<Rightarrow> QString + Annotation" where
  "applyGeometry q entry subtype width height annotation =
     (case geometry_of q entry subtype width height of
        Inl message \<Rightarrow> Inl message
      | Inr extras \<Rightarrow> Inr (tightenBounds (annotation\<lparr>an_extras := extras\<rparr>)))"

definition entry_annotation :: "QtCalls \<Rightarrow> XEntry \<Rightarrow> AnnotationType \<Rightarrow> fp list \<Rightarrow> fp \<Rightarrow> fp \<Rightarrow> Annotation" where
  "entry_annotation q entry subtype rect width height =
     (let topLeft = userSpaceToNormalized (qt_rnd q) \<lparr>pt_x = fp_min (rect ! 0) (rect ! 2), pt_y = fp_max (rect ! 1) (rect ! 3)\<rparr> width height;
          bottomRight = userSpaceToNormalized (qt_rnd q) \<lparr>pt_x = fp_max (rect ! 0) (rect ! 2), pt_y = fp_min (rect ! 1) (rect ! 3)\<rparr> width height in
      \<lparr>an_subtype = subtype, an_uuid = qt_toStdString q (xe_name entry), an_x0 = pt_x topLeft, an_y0 = pt_y topLeft, an_x1 = pt_x bottomRight,
       an_y1 = pt_y bottomRight, an_contents = qt_toStdString q (xe_contents entry), an_author = qt_toStdString q (xe_title entry),
       an_creationDate = parseXfdfDate q (xe_creationDate entry), an_modificationDate = parseXfdfDate q (xe_date entry),
       an_color = composeColor q (xe_color entry) (xe_opacity entry), an_flags = parseFlags (xe_flags entry), an_extras = no_extras,
       an_nativeIndex = - 1, an_pdfObjectNumber = - 1, an_handle = []\<rparr>)"

definition append_annotation :: "nat \<Rightarrow> Annotation \<Rightarrow> Importer \<Rightarrow> Importer" where
  "append_annotation page annotation im =
     (let pages = xr_pages (im_result im) in
      if xr_applied (im_result im) \<ge> im_annotationsRemaining im
         \<or> length (xp_annotations (pages ! page)) \<ge> im_annotationsPerPageRemaining im ! page
      then im\<lparr>im_limitsError := qs (''XFDF annotations exceed the target PDF'' @ [CHR 0x27] @ ''s remaining capacity'')\<rparr>
      else im\<lparr>im_result := (im_result im)\<lparr>xr_pages := pages[page := (pages ! page)\<lparr>xp_annotations := xp_annotations (pages ! page) @ [annotation]\<rparr>],
             xr_applied := xr_applied (im_result im) + 1\<rparr>\<rparr>)"

definition finalize :: "QtCalls \<Rightarrow> XEntry \<Rightarrow> AnnotationType \<Rightarrow> Importer \<Rightarrow> Importer" where
  "finalize q entry subtype im =
     (if xe_page entry < 0 \<or> xe_page entry \<ge> int (length (im_pageSizes im))
      then skip (qs ''annotation references out-of-range page '' @ qt_number q (xe_page entry)) im
      else case im_pageSizes im ! nat (xe_page entry) of
        (width, height) \<Rightarrow>
          if \<not> fp_lt (Fin 0) width \<or> \<not> fp_lt (Fin 0) height
          then skip (qs ''page '' @ qt_number q (xe_page entry) @ qs '' has invalid geometry'') im
          else case parseRect q (xe_rect entry) of
            None \<Rightarrow> skip (qs ''annotation on page '' @ qt_number q (xe_page entry) @ qs '' has an invalid rect'') im
          | Some rect \<Rightarrow>
              (case applyGeometry q entry subtype width height (entry_annotation q entry subtype rect width height) of
                 Inl message \<Rightarrow> skip message im
               | Inr annotation \<Rightarrow> append_annotation (nat (xe_page entry)) annotation im))"

section \<open>Reading the document\<close>

type_synonym attributes = "(QString \<times> QString) list"

datatype XmlToken =
  XT_Start QString attributes
  | XT_End QString
  | XT_Characters QString
  | XT_DTD
  | XT_Invalid QString
  | XT_Other

text \<open>
  \<open>readElementText\<close> with the text of child elements and \<open>skipCurrentElement\<close>; \<open>depth\<close> counts the open child elements. They return the error
  that ended the document in their element, if one did.
\<close>

definition premature_end :: QString where
  "premature_end = qs ''Premature end of document.''"

fun readElementText :: "nat \<Rightarrow> QString \<Rightarrow> XmlToken list \<Rightarrow> QString \<times> XmlToken list \<times> QString option" where
  "readElementText depth text [] = (text, [], Some premature_end)"
| "readElementText depth text (XT_Invalid message # tokens) = (text, [], Some message)"
| "readElementText depth text (XT_Characters t # tokens) = readElementText depth (text @ t) tokens"
| "readElementText depth text (XT_Start name attrs # tokens) = readElementText (Suc depth) text tokens"
| "readElementText 0 text (XT_End name # tokens) = (text, tokens, None)"
| "readElementText (Suc depth) text (XT_End name # tokens) = readElementText depth text tokens"
| "readElementText depth text (_ # tokens) = readElementText depth text tokens"

fun skipCurrentElement :: "nat \<Rightarrow> XmlToken list \<Rightarrow> XmlToken list \<times> QString option" where
  "skipCurrentElement depth [] = ([], Some premature_end)"
| "skipCurrentElement depth (XT_Invalid message # tokens) = ([], Some message)"
| "skipCurrentElement depth (XT_Start name attrs # tokens) = skipCurrentElement (Suc depth) tokens"
| "skipCurrentElement 0 (XT_End name # tokens) = (tokens, None)"
| "skipCurrentElement (Suc depth) (XT_End name # tokens) = skipCurrentElement depth tokens"
| "skipCurrentElement depth (_ # tokens) = skipCurrentElement depth tokens"

lemma readElementText_length: "readElementText depth t0 tokens = (t, tokens', e) \<Longrightarrow> length tokens' \<le> length tokens"
  by (induction depth t0 tokens rule: readElementText.induct) (auto simp: le_SucI)

lemma skipCurrentElement_length: "skipCurrentElement depth tokens = (tokens', e) \<Longrightarrow> length tokens' \<le> length tokens"
  by (induction depth tokens rule: skipCurrentElement.induct) (auto simp: le_SucI)

text \<open>The loops return the tokens that are left and the error, if the document broke off. A loop that is given no tokens is at the end.\<close>

lemmas element_length = readElementText_length [OF sym] skipCurrentElement_length [OF sym]

function parseInkList :: "XEntry \<Rightarrow> XmlToken list \<Rightarrow> XEntry \<times> XmlToken list \<times> QString option" where
  "parseInkList entry [] = (entry, [], None)"
| "parseInkList entry (XT_Invalid message # rest) = (entry, [], Some message)"
| "parseInkList entry (XT_End name # rest) = (if name = qs ''inklist'' then (entry, rest, None) else parseInkList entry rest)"
| "parseInkList entry (XT_Start name attrs # rest) =
     (if name = qs ''gesture'' \<and> length (xe_inkGestures entry) < MaxAnnotationInkPaths
      then (case readElementText 0 [] rest of
              (gesture, rest', e) \<Rightarrow>
                let entry1 = entry\<lparr>xe_inkGestures := xe_inkGestures entry @ [gesture]\<rparr> in
                if e = None then parseInkList entry1 rest' else (entry1, [], e))
      else (case skipCurrentElement 0 rest of
              (rest', e) \<Rightarrow>
                let entry1 = (if name = qs ''gesture'' then entry\<lparr>xe_inkPathLimitExceeded := True\<rparr> else entry) in
                if e = None then parseInkList entry1 rest' else (entry1, [], e)))"
| "parseInkList entry (XT_Characters t # rest) = parseInkList entry rest"
| "parseInkList entry (XT_DTD # rest) = parseInkList entry rest"
| "parseInkList entry (XT_Other # rest) = parseInkList entry rest"
  by pat_completeness auto
termination by (relation "measure (\<lambda>(entry, tokens). length tokens)") (auto dest: element_length)

lemma parseInkList_length: "parseInkList entry tokens = (entry', tokens', e) \<Longrightarrow> length tokens' \<le> length tokens"
proof (induction entry tokens rule: parseInkList.induct)
  case (4 entry name attrs rest)
  obtain g r1 e1 where re: "readElementText 0 [] rest = (g, r1, e1)" by (metis prod_cases3)
  obtain r2 e2 where sk: "skipCurrentElement 0 rest = (r2, e2)" by fastforce
  have len: "length r1 \<le> length rest" "length r2 \<le> length rest"
    using readElementText_length [OF re] skipCurrentElement_length [OF sk] by simp_all
  show ?case
  proof (cases "name = qs ''gesture'' \<and> length (xe_inkGestures entry) < MaxAnnotationInkPaths")
    case True
    with 4(1) [OF True, of g "(r1, e1)" r1 e1] 4(3) re len show ?thesis by (auto simp: Let_def split: if_splits)
  next
    case False
    with 4(2) [OF False, of r2 e2] 4(3) sk len show ?thesis by (auto simp: Let_def split: if_splits)
  qed
qed (auto split: if_splits)

definition child_entry :: "QString \<Rightarrow> QString \<Rightarrow> XEntry \<Rightarrow> XEntry option" where
  "child_entry child text entry =
     (if child = qs ''contents'' then Some (entry\<lparr>xe_contents := text\<rparr>)
      else if child = qs ''defaultappearance'' then Some (entry\<lparr>xe_defaultAppearance := text\<rparr>)
      else if child = qs ''vertices'' then Some (entry\<lparr>xe_vertices := text\<rparr>)
      else None)"

text \<open>One child element of an annotation.\<close>

definition read_child :: "QString \<Rightarrow> XEntry \<Rightarrow> XmlToken list \<Rightarrow> XEntry \<times> XmlToken list \<times> QString option" where
  "read_child child entry tokens =
     (case readElementText 0 [] tokens of
        (text, rest, e) \<Rightarrow>
          (case child_entry child text entry of
             Some entry1 \<Rightarrow> (entry1, rest, e)
           | None \<Rightarrow>
               if child = qs ''inklist'' then parseInkList entry tokens
               else (case skipCurrentElement 0 tokens of (rest, e) \<Rightarrow> (entry, rest, e))))"

lemma read_child_length: "read_child child entry tokens = (entry', tokens', e) \<Longrightarrow> length tokens' \<le> length tokens"
  by (auto simp: read_child_def split: prod.splits option.splits if_splits dest: readElementText_length skipCurrentElement_length parseInkList_length)

function entry_loop :: "XEntry \<Rightarrow> XmlToken list \<Rightarrow> XEntry \<times> XmlToken list \<times> QString option" where
  "entry_loop entry [] = (entry, [], None)"
| "entry_loop entry (XT_Invalid message # rest) = (entry, [], Some message)"
| "entry_loop entry (XT_End name # rest) = (entry, rest, None)"
| "entry_loop entry (XT_Start child attrs # rest) =
     (case read_child child entry rest of (entry1, rest', e) \<Rightarrow> if e = None then entry_loop entry1 rest' else (entry1, [], e))"
| "entry_loop entry (XT_Characters t # rest) = entry_loop entry rest"
| "entry_loop entry (XT_DTD # rest) = entry_loop entry rest"
| "entry_loop entry (XT_Other # rest) = entry_loop entry rest"
  by pat_completeness auto
termination by (relation "measure (\<lambda>(entry, tokens). length tokens)") (auto dest: read_child_length [OF sym])

lemma entry_loop_length: "entry_loop entry tokens = (entry', tokens', e) \<Longrightarrow> length tokens' \<le> length tokens"
proof (induction entry tokens rule: entry_loop.induct)
  case (4 entry child attrs rest)
  then show ?case by (fastforce split: prod.splits if_splits dest: read_child_length)
qed auto

definition attr :: "attributes \<Rightarrow> string \<Rightarrow> QString" where
  "attr attrs name = (case map_of attrs (qs name) of Some v \<Rightarrow> v | None \<Rightarrow> [])"

definition attribute_entry :: "QtCalls \<Rightarrow> attributes \<Rightarrow> XEntry" where
  "attribute_entry q attrs =
     \<lparr>xe_page = parsePage q (attr attrs ''page''), xe_rect = attr attrs ''rect'', xe_color = attr attrs ''color'',
      xe_opacity = attr attrs ''opacity'', xe_title = attr attrs ''title'', xe_name = attr attrs ''name'',
      xe_creationDate = attr attrs ''creationdate'', xe_date = attr attrs ''date'', xe_flags = attr attrs ''flags'', xe_contents = [],
      xe_defaultAppearance = [], xe_vertices = [], xe_coords = attr attrs ''coords'', xe_icon = attr attrs ''icon'',
      xe_intent = attr attrs ''intent'', xe_width = attr attrs ''width'', xe_start = attr attrs ''start'', xe_end = attr attrs ''end'',
      xe_head = attr attrs ''head'', xe_tail = attr attrs ''tail'', xe_symbol = attr attrs ''symbol'', xe_callout = attr attrs ''callout'',
      xe_inkGestures = [], xe_inkPathLimitExceeded = False\<rparr>"

definition parseAnnotation :: "QtCalls \<Rightarrow> AnnotationType \<Rightarrow> attributes \<Rightarrow> Importer \<Rightarrow> XmlToken list \<Rightarrow> Importer \<times> XmlToken list \<times> QString option" where
  "parseAnnotation q subtype attrs im tokens =
     (case entry_loop (attribute_entry q attrs) tokens of (entry, rest, e) \<Rightarrow> (finalize q entry subtype im, rest, e))"

lemma parseAnnotation_length: "parseAnnotation q subtype attrs im tokens = (im', tokens', e) \<Longrightarrow> length tokens' \<le> length tokens"
  by (auto simp: parseAnnotation_def split: prod.splits dest: entry_loop_length)

function parseAnnots :: "QtCalls \<Rightarrow> Importer \<Rightarrow> XmlToken list \<Rightarrow> Importer \<times> XmlToken list \<times> QString option" where
  "parseAnnots q im [] = (im, [], None)"
| "parseAnnots q im (XT_Invalid message # rest) = (im, [], Some message)"
| "parseAnnots q im (XT_End name # rest) = (if name = qs ''annots'' then (im, rest, None) else parseAnnots q im rest)"
| "parseAnnots q im (XT_Start name attrs # rest) =
     (case subtypeForElement name of
        None \<Rightarrow>
          (case skipCurrentElement 0 rest of
             (rest', e) \<Rightarrow>
               let im1 = skip (qs ''unknown element <'' @ name @ qs ''>'') im in
               if e = None then parseAnnots q im1 rest' else (im1, [], e))
      | Some subtype \<Rightarrow>
          (case parseAnnotation q subtype attrs im rest of
             (im1, rest', e) \<Rightarrow> if im_limitsError im1 \<noteq> [] \<or> e \<noteq> None then (im1, rest', e) else parseAnnots q im1 rest'))"
| "parseAnnots q im (XT_Characters t # rest) = parseAnnots q im rest"
| "parseAnnots q im (XT_DTD # rest) = parseAnnots q im rest"
| "parseAnnots q im (XT_Other # rest) = parseAnnots q im rest"
  by pat_completeness auto
termination
  by (relation "measure (\<lambda>(q, im, tokens). length tokens)") (auto dest: element_length parseAnnotation_length [OF sym])

lemma parseAnnots_length: "parseAnnots q im tokens = (im', tokens', e) \<Longrightarrow> length tokens' \<le> length tokens"
proof (induction q im tokens rule: parseAnnots.induct)
  case (4 q im name attrs rest)
  then show ?case
    by (cases "subtypeForElement name")
      (fastforce split: prod.splits if_splits simp: Let_def dest: skipCurrentElement_length parseAnnotation_length)+
qed (auto split: if_splits)

function run_loop :: "QtCalls \<Rightarrow> bool \<Rightarrow> Importer \<Rightarrow> XmlToken list \<Rightarrow> QString \<times> XfdfParseResult" where
  "run_loop q sawAnnots im [] =
     (if \<not> sawAnnots then xfdf_fail (qs ''missing <annots> element'') im else ([], im_result (flushWarnings q im)))"
| "run_loop q sawAnnots im (XT_Invalid message # rest) = xfdf_fail message im"
| "run_loop q sawAnnots im (XT_DTD # rest) = xfdf_fail (qs ''DOCTYPE is not allowed in XFDF'') im"
| "run_loop q sawAnnots im (XT_Start name attrs # rest) =
     (if name = qs ''annots''
      then (case parseAnnots q im rest of
              (im1, rest', e) \<Rightarrow>
                if im_limitsError im1 \<noteq> [] then xfdf_fail (im_limitsError im1) im1
                else (case e of Some message \<Rightarrow> xfdf_fail message im1 | None \<Rightarrow> run_loop q True im1 rest'))
      else run_loop q sawAnnots im rest)"
| "run_loop q sawAnnots im (XT_End name # rest) = run_loop q sawAnnots im rest"
| "run_loop q sawAnnots im (XT_Characters t # rest) = run_loop q sawAnnots im rest"
| "run_loop q sawAnnots im (XT_Other # rest) = run_loop q sawAnnots im rest"
  by pat_completeness auto
termination
  by (relation "measure (\<lambda>(q, sawAnnots, im, tokens). length tokens)") (auto dest: parseAnnots_length [OF sym])

text \<open>\<open>xmlSize\<close> is the size of the input in bytes, \<open>tokens\<close> what the XML reader makes of it. The first component is the error, empty for none.\<close>

definition importer_run :: "QtCalls \<Rightarrow> nat \<Rightarrow> XmlToken list \<Rightarrow> Importer \<Rightarrow> QString \<times> XfdfParseResult" where
  "importer_run q xmlSize tokens im0 =
     (let im = im0\<lparr>im_result := (im_result im0)\<lparr>xr_pages :=
                  map (\<lambda>(width, height). \<lparr>xp_widthPoints = width, xp_heightPoints = height, xp_annotations = []\<rparr>) (im_pageSizes im0)\<rparr>\<rparr> in
      if im_limitsError im \<noteq> [] then xfdf_fail (im_limitsError im) im
      else if xmlSize = 0 then xfdf_fail (qs ''empty XFDF input'') im
      else if xmlSize > MaxXfdfBytes then xfdf_fail (qs ''XFDF input exceeds the size limit'') im
      else run_loop q False im tokens)"

definition xfdfToAnnotations :: "QtCalls \<Rightarrow> nat \<Rightarrow> XmlToken list \<Rightarrow> (fp \<times> fp) list \<Rightarrow> XfdfParseLimits \<Rightarrow> QString \<times> XfdfParseResult" where
  "xfdfToAnnotations q xmlSize tokens pageSizes limits = importer_run q xmlSize tokens (Importer_init pageSizes limits)"

end
