(* ===== verification/Xfdf_Import_Laws.thy ===== *)
theory Xfdf_Import_Laws
  imports Xfdf_Import Validation_Laws
begin

text \<open>
  What an XFDF document can bring in. Nothing is assumed of the document beyond what an XML reader guarantees of text; the numbers, names
  and nesting are arbitrary.
\<close>

section \<open>Coordinates stay on the page\<close>

definition unit_point :: "Point \<Rightarrow> bool" where
  "unit_point p \<longleftrightarrow> unit_interval (pt_x p) \<and> unit_interval (pt_y p)"

definition unit_quad :: "Quad \<Rightarrow> bool" where
  "unit_quad quad \<longleftrightarrow> list_all unit_point (quad_points quad)"

lemma div_page: "rounding_ok rnd \<Longrightarrow> isfinite a \<Longrightarrow> fp_lt (Fin 0) w \<Longrightarrow> fp_div rnd a w \<noteq> NaN"
  by (cases a; cases w) (auto simp: rounding_ok_def)

lemma one_minus: "rounding_ok rnd \<Longrightarrow> v \<noteq> NaN \<Longrightarrow> fp_sub rnd (Fin 1) v \<noteq> NaN"
  by (cases v) (auto simp: rounding_ok_def fp_sub_def)

lemma userSpace_unit:
  assumes "rounding_ok rnd" "isfinite (pt_x p)" "isfinite (pt_y p)" "fp_lt (Fin 0) w" "fp_lt (Fin 0) h"
  shows "unit_point (userSpaceToNormalized rnd p w h)"
  using assms div_page one_minus by (simp add: unit_point_def userSpaceToNormalized_def clamp01_def clamp_unit)

lemma div_mono: "rounding_ok rnd \<Longrightarrow> fp_lt (Fin 0) w \<Longrightarrow> isfinite a \<Longrightarrow> isfinite b \<Longrightarrow> fp_le a b \<Longrightarrow> fp_le (fp_div rnd a w) (fp_div rnd b w)"
  by (cases a; cases b; cases w) (auto simp: rounding_ok_def divide_right_mono)

lemma fp_le_infinity: "x \<noteq> NaN \<Longrightarrow> fp_le x PosInf" "x \<noteq> NaN \<Longrightarrow> fp_le NegInf x"
  by (cases x; simp)+

lemma one_minus_mono: "rounding_ok rnd \<Longrightarrow> fp_le a b \<Longrightarrow> fp_le (fp_sub rnd (Fin 1) b) (fp_sub rnd (Fin 1) a)"
  by (cases a; cases b) (auto simp: rounding_ok_def fp_sub_def fp_le_infinity)

lemma clamp_mono: "fp_le a b \<Longrightarrow> fp_le (clamp01 a) (clamp01 b)"
  by (cases a; cases b) (auto simp: clamp01_def fp_clamp_def)

lemma min_max_finite:
  assumes "isfinite a" "isfinite b"
  shows "isfinite (fp_min a b)" "isfinite (fp_max a b)" "fp_le (fp_min a b) (fp_max a b)"
  using assms by (cases a; cases b; auto simp: fp_min_def fp_max_def)+

section \<open>Parsers\<close>

lemma parseNumber_finite: "parseNumber q t = Some v \<Longrightarrow> isfinite v"
  by (auto simp: parseNumber_def split: option.splits if_splits)

text \<open>A page on which coordinates can be read.\<close>

definition target_ok :: "QtCalls \<Rightarrow> fp \<Rightarrow> fp \<Rightarrow> bool" where
  "target_ok q w h \<longleftrightarrow> rounding_ok (qt_rnd q) \<and> fp_lt (Fin 0) w \<and> fp_lt (Fin 0) h"

lemma normalizedPoint_unit: "target_ok q w h \<Longrightarrow> isfinite x \<Longrightarrow> isfinite y \<Longrightarrow> unit_point (normalizedPoint q x y w h)"
  by (simp add: target_ok_def normalizedPoint_def userSpace_unit)

lemma parse_pair_unit: "target_ok q w h \<Longrightarrow> parse_pair q t w h = Some p \<Longrightarrow> unit_point p"
  by (auto simp: parse_pair_def split: list.splits option.splits dest!: parseNumber_finite intro!: normalizedPoint_unit)

lemma pairs_loop_bounded:
  "target_ok q w h \<Longrightarrow> length out \<le> limit \<Longrightarrow> list_all unit_point out \<Longrightarrow> pairs_loop q w h limit out pairs = (status, points) \<Longrightarrow>
     length points \<le> limit \<and> list_all unit_point points"
  by (induction q w h limit out pairs rule: pairs_loop.induct) (auto split: if_splits option.splits dest: parse_pair_unit)

lemma parsePointPairs_bounded:
  "target_ok q w h \<Longrightarrow> parsePointPairs q t w h limit = (status, points) \<Longrightarrow> length points \<le> limit \<and> list_all unit_point points"
  using pairs_loop_bounded [of q w h "[]"] by (auto simp: parsePointPairs_def split: if_splits)

lemma callout_loop_bounded:
  "length coordinates \<le> 2 * MaxAnnotationCalloutPoints \<Longrightarrow> list_all isfinite coordinates \<Longrightarrow> callout_loop q coordinates t = (status, out) \<Longrightarrow>
     length out \<le> 2 * MaxAnnotationCalloutPoints \<and> list_all isfinite out"
proof (induction q coordinates t rule: callout_loop.induct)
  case (1 q coordinates t)
  note turn = callout_loop.simps [of q coordinates t]
  consider (stop) "length coordinates = MaxAnnotationCalloutPoints * 2 \<or> parseNumber q (takeWhile (\<lambda>c. c \<noteq> comma) t) = None"
    | (go_on) v where "length coordinates \<noteq> MaxAnnotationCalloutPoints * 2" "parseNumber q (takeWhile (\<lambda>c. c \<noteq> comma) t) = Some v"
    by fastforce
  then show ?case
  proof cases
    case stop
    with 1(2-4) show ?thesis by (auto simp: turn split: if_splits)
  next
    case go_on
    have "length coordinates < 2 * MaxAnnotationCalloutPoints" "isfinite v" using go_on 1(2) parseNumber_finite by auto
    with 1(1) [OF go_on] 1(2-4) go_on show ?thesis by (cases "dropWhile (\<lambda>c. c \<noteq> comma) t") (auto simp: turn)
  qed
qed

lemma point_list_unit: "target_ok q w h \<Longrightarrow> list_all isfinite vs \<Longrightarrow> list_all unit_point (point_list q w h vs) \<and> length (point_list q w h vs) = length vs div 2"
  by (induction q w h vs rule: point_list.induct) (auto simp: normalizedPoint_unit)

lemma parseCallout_bounded:
  assumes "target_ok q w h" "parseCallout q t w h = (Complete, points)"
  shows "length points \<in> {2..MaxAnnotationCalloutPoints} \<and> list_all unit_point points"
proof -
  obtain status out where c: "callout_loop q [] t = (status, out)" by fastforce
  with assms(2) have "status = Complete" "4 \<le> length out" "points = point_list q w h out"
    by (auto simp: parseCallout_def split: GeometryParseStatus.splits if_splits)
  moreover have "length out \<le> 2 * MaxAnnotationCalloutPoints" "list_all isfinite out" using callout_loop_bounded [OF _ _ c] by auto
  moreover from calculation have "2 \<le> length out div 2" "length out div 2 \<le> MaxAnnotationCalloutPoints"
    using div_le_mono [of 4 "length out" 2] div_le_mono [of "length out" "2 * MaxAnnotationCalloutPoints" 2] by simp_all
  ultimately show ?thesis using point_list_unit [OF assms(1)] by simp
qed

lemma those_finite: "those (map (parseNumber q) ts) = Some vs \<Longrightarrow> list_all isfinite vs \<and> length vs = length ts"
  by (induction ts arbitrary: vs) (auto split: option.splits dest: parseNumber_finite)

lemma coord_loop_bounded:
  "target_ok q w h \<Longrightarrow> length out \<le> limit \<Longrightarrow> list_all unit_quad out \<Longrightarrow> coord_loop q w h limit out ts = (status, quads) \<Longrightarrow>
     length quads \<le> limit \<and> list_all unit_quad quads"
proof (induction q w h limit out ts rule: coord_loop.induct)
  case (1 q w h limit out ts)
  consider (stop) "length ts < 8 \<or> length out \<ge> limit \<or> those (map (parseNumber q) (take 8 ts)) = None"
    | (quad) vs where "length ts \<ge> 8" "length out < limit" "those (map (parseNumber q) (take 8 ts)) = Some vs"
    by fastforce
  then show ?case
  proof cases
    case stop
    with 1(3-5) show ?thesis by (subst (asm) coord_loop.simps) (auto split: if_splits option.splits)
  next
    case quad
    have "list_all unit_point (point_list q w h vs)" "length (point_list q w h vs) = 4"
      using point_list_unit [OF 1(2)] those_finite [OF quad(3)] quad(1) by auto
    then obtain a b c d where pl: "point_list q w h vs = [a, b, c, d]" "list_all unit_point [a, b, c, d]"
      by (auto simp: numeral_eq_Suc length_Suc_conv)
    show ?thesis using 1(5) pl quad 1(1) [OF quad(1) _ quad(3) pl(1)] 1(2-4)
      by (subst (asm) coord_loop.simps) (auto simp: unit_quad_def quad_points_def)
  qed
qed

lemma parseCoordList_bounded:
  "target_ok q w h \<Longrightarrow> parseCoordList q t w h limit = (status, quads) \<Longrightarrow> length quads \<le> limit \<and> list_all unit_quad quads"
  using coord_loop_bounded [of q w h "[]"] by (auto simp: parseCoordList_def split: if_splits)

lemma ink_loop_bounded:
  "target_ok q w h \<Longrightarrow> ink_loop q w h remaining gestures = (status, paths) \<Longrightarrow>
     sum_list (map length paths) \<le> remaining \<and> length paths \<le> length gestures \<and> list_all (\<lambda>path. path \<noteq> [] \<and> list_all unit_point path) paths"
proof (induction q w h remaining gestures arbitrary: status paths rule: ink_loop.induct)
  case (2 q w h remaining gesture gestures)
  obtain st path where p: "parsePointPairs q gesture w h remaining = (st, path)" by fastforce
  obtain st' paths' where l: "ink_loop q w h (remaining - length path) gestures = (st', paths')" by fastforce
  have path: "length path \<le> remaining" "list_all unit_point path" using parsePointPairs_bounded [OF 2(3) p] by auto
  show ?case
  proof (cases "st = Complete \<and> path \<noteq> []")
    case True
    with 2(2) [OF p [symmetric], of st' paths'] 2(3,4) p l path show ?thesis by auto
  next
    case False
    with 2(1) [OF p [symmetric]] 2(3,4) p show ?thesis by (fastforce split: GeometryParseStatus.splits)
  qed
qed simp

section \<open>An entry\<close>

definition extras_ok :: "AnnotationExtras \<Rightarrow> bool" where
  "extras_ok x \<longleftrightarrow> list_all unit_point (ax_points x) \<and> length (ax_points x) \<le> MaxAnnotationPoints
     \<and> list_all unit_quad (ax_quads x) \<and> length (ax_quads x) \<le> MaxAnnotationQuads
     \<and> list_all (\<lambda>path. path \<noteq> [] \<and> list_all unit_point path) (ax_inkPaths x) \<and> length (ax_inkPaths x) \<le> MaxAnnotationInkPaths
     \<and> sum_list (map length (ax_inkPaths x)) \<le> MaxAnnotationInkPoints
     \<and> list_all unit_point (ax_callout x) \<and> length (ax_callout x) \<in> {0} \<union> {2..MaxAnnotationCalloutPoints}
     \<and> ax_extension x = [] \<and> ax_stampImage x = None"

lemma no_extras_ok [simp]: "extras_ok (no_extras\<lparr>ax_style := style\<rparr>)"
  by (simp add: extras_ok_def no_extras_def)

lemma text_geometry_ok: "target_ok q w h \<Longrightarrow> extras_ok x \<Longrightarrow> text_geometry q entry w h x = Inr x' \<Longrightarrow> extras_ok x'"
  using parseCallout_bounded [of q w h "xe_callout entry"]
  by (auto simp: text_geometry_def Let_def extras_ok_def split: if_splits prod.splits)

lemma line_geometry_ok:
  assumes "target_ok q w h" "extras_ok x" "line_geometry q entry w h x = Inr x'"
  shows "extras_ok x'"
proof -
  let ?points = "parseSinglePoint q (xe_end entry) w h (parseSinglePoint q (xe_start entry) w h [])"
  have "list_all unit_point ?points" "length ?points \<le> MaxAnnotationPoints"
    using assms(1) by (auto simp: parseSinglePoint_def limits split: option.splits dest: parse_pair_unit)
  then show ?thesis using assms(2,3) by (auto simp: line_geometry_def Let_def extras_ok_def split: if_splits)
qed

lemma polygon_geometry_ok: "target_ok q w h \<Longrightarrow> extras_ok x \<Longrightarrow> polygon_geometry q entry w h x = Inr x' \<Longrightarrow> extras_ok x'"
  using parsePointPairs_bounded [of q w h "xe_vertices entry" MaxAnnotationPoints]
  by (auto simp: polygon_geometry_def extras_ok_def split: if_splits prod.splits)

lemma markup_geometry_ok: "target_ok q w h \<Longrightarrow> extras_ok x \<Longrightarrow> markup_geometry q entry w h x = Inr x' \<Longrightarrow> extras_ok x'"
  using parseCoordList_bounded [of q w h "xe_coords entry" MaxAnnotationQuads]
  by (auto simp: markup_geometry_def extras_ok_def split: if_splits prod.splits)

lemma ink_geometry_ok:
  assumes "target_ok q w h" "extras_ok x" "length (xe_inkGestures entry) \<le> MaxAnnotationInkPaths" "ink_geometry q entry w h x = Inr x'"
  shows "extras_ok x'"
proof -
  obtain status paths where ink: "ink_loop q w h MaxAnnotationInkPoints (xe_inkGestures entry) = (status, paths)" by fastforce
  from ink_loop_bounded [OF assms(1) ink] assms(2-4) ink show ?thesis
    by (auto simp: ink_geometry_def extras_ok_def split: if_splits)
qed

lemma geometry_of_cases:
  assumes "geometry_of q entry subtype w h = Inr x"
  shows "text_geometry q entry w h (no_extras\<lparr>ax_style := entry_style q entry\<rparr>) = Inr x
    \<or> line_geometry q entry w h (no_extras\<lparr>ax_style := entry_style q entry\<rparr>) = Inr x
    \<or> polygon_geometry q entry w h (no_extras\<lparr>ax_style := entry_style q entry\<rparr>) = Inr x
    \<or> markup_geometry q entry w h (no_extras\<lparr>ax_style := entry_style q entry\<rparr>) = Inr x
    \<or> ink_geometry q entry w h (no_extras\<lparr>ax_style := entry_style q entry\<rparr>) = Inr x
    \<or> (\<exists>style. x = no_extras\<lparr>ax_style := entry_style q entry, ax_style := style\<rparr>)
    \<or> (\<exists>b. x = no_extras\<lparr>ax_style := entry_style q entry, ax_caretSymbolP := b\<rparr>)
    \<or> x = no_extras\<lparr>ax_style := entry_style q entry\<rparr>"
  using assms unfolding geometry_of_def Let_def by (cases subtype; simp only: AnnotationType.case sum.inject; blast)

lemma geometry_of_ok:
  assumes "target_ok q w h" "length (xe_inkGestures entry) \<le> MaxAnnotationInkPaths" "geometry_of q entry subtype w h = Inr x"
  shows "extras_ok x"
proof -
  let ?x = "no_extras\<lparr>ax_style := entry_style q entry\<rparr>"
  have "extras_ok ?x" "extras_ok (?x\<lparr>ax_caretSymbolP := b\<rparr>)" "extras_ok (?x\<lparr>ax_style := style\<rparr>)" for b style
    by (simp_all add: extras_ok_def no_extras_def)
  note start = this
  from geometry_of_cases [OF assms(3)] show ?thesis
  proof (elim disjE)
    assume "text_geometry q entry w h ?x = Inr x"
    then show ?thesis by (rule text_geometry_ok [OF assms(1) start(1)])
  next
    assume "line_geometry q entry w h ?x = Inr x"
    then show ?thesis by (rule line_geometry_ok [OF assms(1) start(1)])
  next
    assume "polygon_geometry q entry w h ?x = Inr x"
    then show ?thesis by (rule polygon_geometry_ok [OF assms(1) start(1)])
  next
    assume "markup_geometry q entry w h ?x = Inr x"
    then show ?thesis by (rule markup_geometry_ok [OF assms(1) start(1)])
  next
    assume "ink_geometry q entry w h ?x = Inr x"
    then show ?thesis by (rule ink_geometry_ok [OF assms(1) start(1) assms(2)])
  qed (use start in \<open>blast+\<close>)
qed

section \<open>Bounds\<close>

definition box_ok :: "fp \<Rightarrow> fp \<Rightarrow> fp \<Rightarrow> fp \<Rightarrow> bool" where
  "box_ok x0 y0 x1 y1 \<longleftrightarrow> unit_interval x0 \<and> unit_interval y0 \<and> unit_interval x1 \<and> unit_interval y1 \<and> fp_le x0 x1 \<and> fp_le y0 y1"

lemma unit_Fin: "unit_interval x \<longleftrightarrow> (\<exists>r. x = Fin r \<and> 0 \<le> r \<and> r \<le> 1)"
  by (cases x) (auto simp: unit_interval_def)

lemma extendBounds_box:
  assumes "unit_point p" "extendBounds s p = (b', v')" "snd s \<Longrightarrow> box_ok (nb_x0 (fst s)) (nb_y0 (fst s)) (nb_x1 (fst s)) (nb_y1 (fst s))"
  shows "v' \<and> box_ok (nb_x0 b') (nb_y0 b') (nb_x1 b') (nb_y1 b')"
  using assms by (auto simp: extendBounds_def box_ok_def unit_point_def unit_Fin fp_min_def fp_max_def split: prod.splits if_splits)

lemma fold_box:
  "list_all unit_point ps \<Longrightarrow> (snd s \<Longrightarrow> box_ok (nb_x0 (fst s)) (nb_y0 (fst s)) (nb_x1 (fst s)) (nb_y1 (fst s))) \<Longrightarrow>
     foldl extendBounds s ps = (b', v') \<Longrightarrow> v' \<Longrightarrow> box_ok (nb_x0 b') (nb_y0 b') (nb_x1 b') (nb_y1 b')"
proof (induction ps arbitrary: s)
  case (Cons p ps)
  obtain b1 v1 where e: "extendBounds s p = (b1, v1)" by fastforce
  have "v1 \<and> box_ok (nb_x0 b1) (nb_y0 b1) (nb_x1 b1) (nb_y1 b1)" using extendBounds_box [OF _ e] Cons(2,3) by simp
  then show ?case using Cons(1) [of "(b1, v1)"] Cons(2,4,5) e by simp
qed auto

lemma tightenBounds_box:
  assumes "extras_ok (an_extras a)" "box_ok (an_x0 a) (an_y0 a) (an_x1 a) (an_y1 a)"
  shows "box_ok (an_x0 (tightenBounds a)) (an_y0 (tightenBounds a)) (an_x1 (tightenBounds a)) (an_y1 (tightenBounds a))"
proof -
  let ?x = "an_extras a"
  let ?ps = "ax_points ?x @ concat (map quad_points (ax_quads ?x)) @ concat (ax_inkPaths ?x)"
  have units: "list_all unit_point ?ps"
    using assms(1) by (auto simp: extras_ok_def list_all_iff unit_quad_def)
  obtain b v where f: "foldl extendBounds (\<lparr>nb_x0 = Fin 0, nb_y0 = Fin 0, nb_x1 = Fin 0, nb_y1 = Fin 0\<rparr>, False) ?ps = (b, v)" by fastforce
  show ?thesis using fold_box [OF units _ f] assms(2) f by (auto simp: tightenBounds_def Let_def)
qed

lemma tightenBounds_same [simp]:
  "an_extras (tightenBounds a) = an_extras a" "an_contents (tightenBounds a) = an_contents a" "an_author (tightenBounds a) = an_author a"
  "an_uuid (tightenBounds a) = an_uuid a" "an_handle (tightenBounds a) = an_handle a" "an_subtype (tightenBounds a) = an_subtype a"
  by (simp_all add: tightenBounds_def Let_def split: prod.splits)

lemma entry_annotation_box:
  assumes "target_ok q w h" "list_all isfinite rect" "length rect = 4" "a = entry_annotation q entry subtype rect w h"
  shows "box_ok (an_x0 a) (an_y0 a) (an_x1 a) (an_y1 a)"
proof -
  have fin: "isfinite (rect ! 0)" "isfinite (rect ! 1)" "isfinite (rect ! 2)" "isfinite (rect ! 3)"
    using assms(2,3) by (auto simp: list_all_length)
  note mm = min_max_finite [OF fin(1,3)] min_max_finite [OF fin(2,4)]
  have ok: "rounding_ok (qt_rnd q)" "fp_lt (Fin 0) w" "fp_lt (Fin 0) h" using assms(1) by (simp_all add: target_ok_def)
  let ?tl = "userSpaceToNormalized (qt_rnd q) \<lparr>pt_x = fp_min (rect ! 0) (rect ! 2), pt_y = fp_max (rect ! 1) (rect ! 3)\<rparr> w h"
  let ?br = "userSpaceToNormalized (qt_rnd q) \<lparr>pt_x = fp_max (rect ! 0) (rect ! 2), pt_y = fp_min (rect ! 1) (rect ! 3)\<rparr> w h"
  have "unit_point ?tl" "unit_point ?br" using ok mm by (auto intro!: userSpace_unit)
  moreover have "fp_le (pt_x ?tl) (pt_x ?br)" using ok mm by (simp add: userSpaceToNormalized_def clamp_mono div_mono)
  moreover have "fp_le (pt_y ?tl) (pt_y ?br)" using ok mm by (simp add: userSpaceToNormalized_def clamp_mono one_minus_mono div_mono)
  ultimately show ?thesis by (simp add: assms(4) entry_annotation_def Let_def box_ok_def unit_point_def)
qed

section \<open>Text\<close>

text \<open>What XML guarantees of the text it reports: no NUL, and surrogates in pairs. \<open>toStdString\<close> turns such text into UTF-8 without NUL.\<close>

fun xml_text :: "QString \<Rightarrow> bool" where
  "xml_text [] \<longleftrightarrow> True"
| "xml_text (c # r) \<longleftrightarrow> c \<noteq> 0 \<and>
     (if c \<in> {0xD800..<0xDC00} then (case r of [] \<Rightarrow> False | d # r' \<Rightarrow> d \<in> {0xDC00..<0xE000} \<and> xml_text r')
      else c \<notin> {0xDC00..<0xE000} \<and> xml_text r)"

lemma xml_text_append: "xml_text a \<Longrightarrow> xml_text b \<Longrightarrow> xml_text (a @ b)"
proof (induction a rule: xml_text.induct)
  case (2 c r)
  then show ?case by (cases r) (auto split: if_splits)
qed simp

definition utf8_law :: "QtCalls \<Rightarrow> bool" where
  "utf8_law q \<longleftrightarrow> (\<forall>t. xml_text t \<longrightarrow> isValidUtf8 (qt_toStdString q t) \<and> hasNoEmbeddedNul (qt_toStdString q t))"

fun token_text :: "XmlToken \<Rightarrow> bool" where
  "token_text (XT_Start name attrs) \<longleftrightarrow> list_all (\<lambda>(n, v). xml_text v) attrs"
| "token_text (XT_Characters t) \<longleftrightarrow> xml_text t"
| "token_text _ \<longleftrightarrow> True"

lemma attr_text: "token_text (XT_Start name attrs) \<Longrightarrow> xml_text (attr attrs n)"
  by (auto simp: attr_def list_all_iff split: option.splits dest: map_of_SomeD)

lemma readElementText_text:
  "readElementText depth t0 tokens = (t, rest, e) \<Longrightarrow> xml_text t0 \<Longrightarrow> list_all token_text tokens \<Longrightarrow> xml_text t \<and> list_all token_text rest"
  by (induction depth t0 tokens rule: readElementText.induct) (auto simp: xml_text_append)

lemma skipCurrentElement_text: "skipCurrentElement depth tokens = (rest, e) \<Longrightarrow> list_all token_text tokens \<Longrightarrow> list_all token_text rest"
  by (induction depth tokens rule: skipCurrentElement.induct) auto

definition entry_ok :: "XEntry \<Rightarrow> bool" where
  "entry_ok entry \<longleftrightarrow> xml_text (xe_name entry) \<and> xml_text (xe_title entry) \<and> xml_text (xe_contents entry)
     \<and> length (xe_inkGestures entry) \<le> MaxAnnotationInkPaths"

lemma parseInkList_ok:
  "parseInkList entry tokens = (entry', rest, e) \<Longrightarrow> entry_ok entry \<Longrightarrow> list_all token_text tokens \<Longrightarrow> entry_ok entry' \<and> list_all token_text rest"
proof (induction entry tokens rule: parseInkList.induct)
  case (4 entry name attrs tokens)
  obtain g r1 e1 where re: "readElementText 0 [] tokens = (g, r1, e1)" by (metis prod_cases3)
  obtain r2 e2 where sk: "skipCurrentElement 0 tokens = (r2, e2)" by fastforce
  have texts: "list_all token_text r1" "list_all token_text r2"
    using readElementText_text [OF re] skipCurrentElement_text [OF sk] 4(5) by simp_all
  show ?case
  proof (cases "name = qs ''gesture'' \<and> length (xe_inkGestures entry) < MaxAnnotationInkPaths")
    case True
    with 4(4) have "entry_ok (entry\<lparr>xe_inkGestures := xe_inkGestures entry @ [g]\<rparr>)" by (simp add: entry_ok_def)
    with True 4(1) [OF True, of g "(r1, e1)" r1 e1] 4(3) re texts show ?thesis by (auto simp: Let_def split: if_splits)
  next
    case False
    let ?entry = "if name = qs ''gesture'' then entry\<lparr>xe_inkPathLimitExceeded := True\<rparr> else entry"
    have "entry_ok ?entry" using 4(4) by (simp add: entry_ok_def)
    with False 4(2) [OF False, of r2 e2] 4(3) sk texts show ?thesis by (auto simp: Let_def split: if_splits)
  qed
qed (auto split: if_splits)

lemma read_child_ok:
  assumes "read_child child entry tokens = (entry', rest, e)" "entry_ok entry" "list_all token_text tokens"
  shows "entry_ok entry' \<and> list_all token_text rest"
proof -
  obtain t r1 e1 where re: "readElementText 0 [] tokens = (t, r1, e1)" by (metis prod_cases3)
  obtain r2 e2 where sk: "skipCurrentElement 0 tokens = (r2, e2)" by fastforce
  have texts: "xml_text t" "list_all token_text r1" "list_all token_text r2"
    using readElementText_text [OF re] skipCurrentElement_text [OF sk] assms(3) by simp_all
  have child: "child_entry child t entry = Some entry1 \<Longrightarrow> entry_ok entry1" for entry1
    using assms(2) texts(1) by (auto simp: child_entry_def entry_ok_def split: if_splits)
  show ?thesis
    using assms(1,2) re sk texts child parseInkList_ok [OF _ assms(2,3)]
    by (auto simp: read_child_def split: option.splits if_splits)
qed

lemma entry_loop_ok:
  "entry_loop entry tokens = (entry', rest, e) \<Longrightarrow> entry_ok entry \<Longrightarrow> list_all token_text tokens \<Longrightarrow> entry_ok entry' \<and> list_all token_text rest"
proof (induction entry tokens rule: entry_loop.induct)
  case (4 entry child attrs tokens)
  obtain en r1 e1 where rc: "read_child child entry tokens = (en, r1, e1)" by (metis prod_cases3)
  have ok: "entry_ok en" "list_all token_text r1" using read_child_ok [OF rc] 4(3,4) by simp_all
  show ?case using 4(1) [OF rc [symmetric] refl] 4(2) rc ok by (auto split: if_splits)
qed auto

section \<open>The importer\<close>

definition annotation_ok :: "Annotation \<Rightarrow> bool" where
  "annotation_ok a \<longleftrightarrow> isValidAnnotation a = Valid \<and> extras_ok (an_extras a) \<and> box_ok (an_x0 a) (an_y0 a) (an_x1 a) (an_y1 a)"

lemma extras_ok_valid:
  assumes "extras_ok (an_extras a)" "isValidUtf8 (an_contents a)" "isValidUtf8 (an_author a)" "isValidUtf8 (an_uuid a)" "hasNoEmbeddedNul (an_contents a)"
    "hasNoEmbeddedNul (an_author a)" "hasNoEmbeddedNul (an_uuid a)" "an_handle a = []"
  shows "isValidAnnotation a = Valid"
proof -
  have "hasNoEmbeddedNul []" by (simp add: hasNoEmbeddedNul_def)
  moreover have "isValidAnnotationExtension []" by (simp add: isValidAnnotationExtension_def)
  moreover have "length (ax_callout (an_extras a)) \<le> MaxAnnotationCalloutPoints" using assms(1) by (auto simp: extras_ok_def)
  moreover have "ink_points_loop 0 (ax_inkPaths (an_extras a)) \<noteq> None" using assms(1) by (simp add: ink_points_loop_iff extras_ok_def)
  ultimately show ?thesis using assms by (simp add: isValidAnnotation_def verdict_simps extras_ok_def)
qed

lemma applyGeometry_ok:
  assumes q: "utf8_law q" "target_ok q w h" and entry: "entry_ok entry" and rect: "parseRect q (xe_rect entry) = Some rect"
    and geo: "applyGeometry q entry subtype w h (entry_annotation q entry subtype rect w h) = Inr a"
  shows "annotation_ok a"
proof -
  let ?a = "entry_annotation q entry subtype rect w h"
  obtain x where x: "geometry_of q entry subtype w h = Inr x" "a = tightenBounds (?a\<lparr>an_extras := x\<rparr>)"
    using geo by (auto simp: applyGeometry_def split: sum.splits)
  have "extras_ok x" using geometry_of_ok [OF q(2) _ x(1)] entry by (simp add: entry_ok_def)
  moreover have "list_all isfinite rect \<and> length rect = 4"
    using rect by (auto simp: parseRect_def Let_def split: if_splits dest: those_finite)
  then have "box_ok (an_x0 ?a) (an_y0 ?a) (an_x1 ?a) (an_y1 ?a)" using entry_annotation_box [OF q(2) _ _ refl] by blast
  ultimately have "extras_ok (an_extras a)" "box_ok (an_x0 a) (an_y0 a) (an_x1 a) (an_y1 a)"
    using tightenBounds_box [of "?a\<lparr>an_extras := x\<rparr>"] by (simp_all add: x(2))
  moreover have "isValidAnnotation a = Valid"
    by (rule extras_ok_valid) (use q(1) entry calculation(1) in \<open>simp_all add: x(2) entry_annotation_def Let_def utf8_law_def entry_ok_def\<close>)
  ultimately show ?thesis by (simp add: annotation_ok_def)
qed

text \<open>What holds of the importer between two annotations; the page sizes and the limits never change.\<close>

definition importer_ok :: "(fp \<times> fp) list \<Rightarrow> nat list \<Rightarrow> nat \<Rightarrow> Importer \<Rightarrow> bool" where
  "importer_ok sizes perPage remaining im \<longleftrightarrow>
     im_pageSizes im = sizes \<and> im_annotationsPerPageRemaining im = perPage \<and> im_annotationsRemaining im = remaining
     \<and> length perPage = length sizes
     \<and> map (\<lambda>p. (xp_widthPoints p, xp_heightPoints p)) (xr_pages (im_result im)) = sizes
     \<and> list_all2 (\<lambda>p n. length (xp_annotations p) \<le> n \<and> list_all annotation_ok (xp_annotations p)) (xr_pages (im_result im)) perPage
     \<and> xr_applied (im_result im) = sum_list (map (\<lambda>p. length (xp_annotations p)) (xr_pages (im_result im)))
     \<and> xr_applied (im_result im) \<le> remaining
     \<and> length (xr_warnings (im_result im)) \<le> MaxWarnings
     \<and> xr_skipped (im_result im) = length (xr_warnings (im_result im)) + im_suppressed im"

lemma skip_ok: "importer_ok sizes perPage remaining im \<Longrightarrow> importer_ok sizes perPage remaining (skip message im)"
  by (auto simp: importer_ok_def skip_def warn_def)

lemma append_annotation_ok:
  assumes ok: "importer_ok sizes perPage remaining im" and a: "annotation_ok a" and page: "page < length sizes"
  shows "importer_ok sizes perPage remaining (append_annotation page a im)"
proof -
  let ?pages = "xr_pages (im_result im)"
  have dims: "map (\<lambda>p. (xp_widthPoints p, xp_heightPoints p)) ?pages = sizes" using ok by (simp add: importer_ok_def)
  have len: "length ?pages = length sizes" using arg_cong [OF dims, of length] by simp
  let ?p = "(?pages ! page)\<lparr>xp_annotations := xp_annotations (?pages ! page) @ [a]\<rparr>"
  have map_same: "map (\<lambda>p. (xp_widthPoints p, xp_heightPoints p)) (?pages[page := ?p]) = map (\<lambda>p. (xp_widthPoints p, xp_heightPoints p)) ?pages"
    using page len by (simp add: map_update list_update_same_conv)
  have sum: "sum_list (map (\<lambda>p. length (xp_annotations p)) (?pages[page := ?p])) = sum_list (map (\<lambda>p. length (xp_annotations p)) ?pages) + 1"
    using page len by (simp add: map_update sum_list_update)
  have all2: "list_all2 (\<lambda>p n. length (xp_annotations p) \<le> n \<and> list_all annotation_ok (xp_annotations p)) (?pages[page := ?p]) perPage"
    if room: "length (xp_annotations (?pages ! page)) < perPage ! page"
  proof -
    let ?P = "\<lambda>p n. length (xp_annotations p) \<le> n \<and> list_all annotation_ok (xp_annotations p)"
    have old: "list_all2 ?P ?pages perPage" using ok by (simp add: importer_ok_def)
    then have "?P (?pages ! page) (perPage ! page)" using page len by (simp add: list_all2_conv_all_nth)
    then have "?P ?p (perPage ! page)" using room a by simp
    from list_all2_update_cong [OF old this, of page] show ?thesis by simp
  qed
  show ?thesis using ok map_same sum all2 by (auto simp: importer_ok_def append_annotation_def Let_def)
qed

lemma finalize_ok:
  assumes "utf8_law q" "rounding_ok (qt_rnd q)" "importer_ok sizes perPage remaining im" "entry_ok entry"
  shows "importer_ok sizes perPage remaining (finalize q entry subtype im)"
proof -
  have sizes: "im_pageSizes im = sizes" using assms(3) by (simp add: importer_ok_def)
  show ?thesis
  proof (cases "xe_page entry < 0 \<or> xe_page entry \<ge> int (length sizes)")
    case True
    then show ?thesis using skip_ok [OF assms(3)] by (simp add: finalize_def sizes)
  next
    case False
    obtain w h where wh: "sizes ! nat (xe_page entry) = (w, h)" by fastforce
    show ?thesis
    proof (cases "fp_lt (Fin 0) w \<and> fp_lt (Fin 0) h")
      case True
      then have page: "target_ok q w h" using assms(2) by (simp add: target_ok_def)
      show ?thesis
        using False True wh skip_ok [OF assms(3)] append_annotation_ok [OF assms(3) applyGeometry_ok [OF assms(1) page assms(4)]]
        by (auto simp: finalize_def sizes split: option.splits sum.splits)
    next
      case inv: False
      then show ?thesis using False wh skip_ok [OF assms(3)] by (auto simp: finalize_def sizes)
    qed
  qed
qed

lemma parseAnnots_ok:
  assumes "utf8_law q" "rounding_ok (qt_rnd q)"
  shows "parseAnnots q im tokens = (im', rest, e) \<Longrightarrow> importer_ok sizes perPage remaining im \<Longrightarrow> list_all token_text tokens \<Longrightarrow>
     importer_ok sizes perPage remaining im' \<and> list_all token_text rest"
  using assms
proof (induction q im tokens rule: parseAnnots.induct)
  case (4 q im name attrs tokens)
  obtain r1 e1 where sk: "skipCurrentElement 0 tokens = (r1, e1)" by fastforce
  have r1: "list_all token_text r1" using skipCurrentElement_text [OF sk] 4(5) by simp
  show ?case
  proof (cases "subtypeForElement name")
    case None
    then show ?thesis using 4(1) [OF None sk [symmetric]] 4(3-7) sk r1 skip_ok [OF 4(4)] by (auto simp: Let_def split: if_splits)
  next
    case (Some subtype)
    obtain en r2 e2 where el: "entry_loop (attribute_entry q attrs) tokens = (en, r2, e2)" by (metis prod_cases3)
    have "entry_ok (attribute_entry q attrs)" using attr_text [of name attrs] 4(5) by (simp add: entry_ok_def attribute_entry_def)
    then have en: "entry_ok en" "list_all token_text r2" using entry_loop_ok [OF el] 4(5) by simp_all
    have im: "importer_ok sizes perPage remaining (finalize q en subtype im)" using finalize_ok [OF 4(6,7,4) en(1)] .
    have "parseAnnotation q subtype attrs im tokens = (finalize q en subtype im, r2, e2)" by (simp add: parseAnnotation_def el)
    with Some 4(2) [OF Some this [symmetric] refl] 4(3-7) im en(2) show ?thesis by (auto split: if_splits)
  qed
qed (auto split: if_splits)

definition outcome_ok :: "(fp \<times> fp) list \<Rightarrow> nat list \<Rightarrow> nat \<Rightarrow> QString \<times> XfdfParseResult \<Rightarrow> bool" where
  "outcome_ok sizes perPage remaining r \<longleftrightarrow> xr_pages (snd r) = []
     \<or> fst r = [] \<and> (\<exists>im. importer_ok sizes perPage remaining im \<and> xr_pages (snd r) = xr_pages (im_result im)
          \<and> xr_applied (snd r) = xr_applied (im_result im) \<and> xr_skipped (snd r) = xr_skipped (im_result im)
          \<and> length (xr_warnings (snd r)) \<le> length (xr_warnings (im_result im)) + 1)"

lemma run_loop_ok:
  assumes "utf8_law q" "rounding_ok (qt_rnd q)"
  shows "importer_ok sizes perPage remaining im \<Longrightarrow> list_all token_text tokens \<Longrightarrow> outcome_ok sizes perPage remaining (run_loop q saw im tokens)"
  using assms
proof (induction q saw im tokens rule: run_loop.induct)
  case (1 q saw im)
  then show ?case by (auto simp: outcome_ok_def xfdf_fail_def flushWarnings_def intro!: exI [of _ im])
next
  case (4 q saw im name attrs tokens)
  obtain im1 r1 e1 where pa: "parseAnnots q im tokens = (im1, r1, e1)" by (metis prod_cases3)
  have ok: "importer_ok sizes perPage remaining im1" "list_all token_text r1"
    using parseAnnots_ok [OF 4(5,6) pa 4(3)] 4(4) by simp_all
  show ?case
  proof (cases "name = qs ''annots''")
    case True
    show ?thesis using 4(1) [OF True pa [symmetric] refl] 4(3-6) True pa ok by (auto simp: outcome_ok_def xfdf_fail_def split: option.splits)
  next
    case False
    then show ?thesis using 4(2) [OF False] 4(3-6) by simp
  qed
qed (auto simp: outcome_ok_def xfdf_fail_def)

lemma importer_run_ok:
  assumes "utf8_law q" "rounding_ok (qt_rnd q)" "list_all token_text tokens" "im = Importer_init sizes limits"
  shows "outcome_ok sizes (im_annotationsPerPageRemaining im) (im_annotationsRemaining im) (importer_run q n tokens im)"
proof (cases "im_limitsError im = [] \<and> n \<noteq> 0 \<and> n \<le> MaxXfdfBytes")
  case True
  let ?im = "im\<lparr>im_result := (im_result im)\<lparr>xr_pages :=
    map (\<lambda>(width, height). \<lparr>xp_widthPoints = width, xp_heightPoints = height, xp_annotations = []\<rparr>) (im_pageSizes im)\<rparr>\<rparr>"
  have sizes: "im_pageSizes im = sizes" "length (im_annotationsPerPageRemaining im) = length sizes" "xr_applied (im_result im) = 0"
    "xr_skipped (im_result im) = 0" "xr_warnings (im_result im) = []" "im_suppressed im = 0"
    using True assms(4) by (auto simp: Importer_init_def Let_def qs_def split: if_splits)
  have "importer_ok sizes (im_annotationsPerPageRemaining im) (im_annotationsRemaining im) ?im"
    by (auto simp: importer_ok_def sizes comp_def case_prod_beta list_all2_conv_all_nth sum_list_eq_0_iff)
  from run_loop_ok [OF assms(1,2) this assms(3)] True show ?thesis by (simp add: importer_run_def)
next
  case False
  then show ?thesis by (auto simp: importer_run_def Let_def outcome_ok_def xfdf_fail_def)
qed

definition page_limits :: "(fp \<times> fp) list \<Rightarrow> XfdfParseLimits \<Rightarrow> nat list" where
  "page_limits sizes limits =
     (if xl_annotationsPerPageRemaining limits = [] then replicate (length sizes) MaxAnnotationsPerPage
      else map (min MaxAnnotationsPerPage) (xl_annotationsPerPageRemaining limits))"

lemma Importer_init_limits:
  "im_annotationsRemaining (Importer_init sizes limits) = min (xl_annotationsRemaining limits) MaxAnnotationsPerDocument"
  "im_annotationsPerPageRemaining (Importer_init sizes limits) =
     (if xl_annotationsPerPageRemaining limits = [] \<or> length (xl_annotationsPerPageRemaining limits) = length sizes then page_limits sizes limits else [])"
  by (auto simp: Importer_init_def Let_def page_limits_def map_replicate_const min.commute)

end
