(* ===== verification/Xfdf_Text.thy ===== *)
theory Xfdf_Text
  imports Xfdf_Import_Laws
begin

text \<open>
  Values of an XFDF document that are written and read back: decimals, colours and opacity, flags, names of line endings and intents,
  dates, PDF names and escaped text. The laws of Qt that this needs are stated first.
\<close>

section \<open>Decimal text\<close>

definition is_digits :: "QString \<Rightarrow> bool" where
  "is_digits t \<longleftrightarrow> list_all (\<lambda>c. 48 \<le> c \<and> c \<le> 57) t"

definition digits_value :: "QString \<Rightarrow> nat" where
  "digits_value t = foldl (\<lambda>n c. n * 10 + (c - 48)) 0 t"

definition point_value :: "QString \<Rightarrow> QString \<Rightarrow> real" where
  "point_value ip fr = real (digits_value ip) + real (digits_value fr) / 10 ^ length fr"

text \<open>The number that a plain decimal denotes: an optional sign, digits, and possibly a point with digits after it.\<close>

definition written_value :: "QString \<Rightarrow> real option" where
  "written_value t =
     (let neg = (t \<noteq> [] \<and> hd t = 45); u = (if neg then tl t else t);
          ip = takeWhile (\<lambda>c. c \<noteq> 46) u; rest = dropWhile (\<lambda>c. c \<noteq> 46) u;
          v = point_value ip (tl rest) in
      if ip \<noteq> [] \<and> is_digits ip \<and> is_digits (tl rest) \<and> (rest = [] \<or> tl rest \<noteq> []) then Some (if neg then - v else v) else None)"

definition with_sign :: "bool \<Rightarrow> QString \<Rightarrow> QString" where
  "with_sign neg t = (if neg then 45 # t else t)"

lemma foldl_digits: "foldl (\<lambda>n c. n * 10 + (c - 48)) n t = n * 10 ^ length t + digits_value t"
proof (induction t arbitrary: n)
  case (Cons c t)
  show ?case using Cons [of "n * 10 + (c - 48)"] Cons [of "c - 48"] by (simp add: digits_value_def algebra_simps)
qed (simp add: digits_value_def)

lemma digits_value_append: "digits_value (a @ b) = digits_value a * 10 ^ length b + digits_value b"
  unfolding digits_value_def foldl_append by (simp add: foldl_digits)

lemma is_digits_simps [simp]:
  "is_digits []" "is_digits (a @ b) \<longleftrightarrow> is_digits a \<and> is_digits b" "is_digits (c # t) \<longleftrightarrow> 48 \<le> c \<and> c \<le> 57 \<and> is_digits t"
  by (simp_all add: is_digits_def)

lemma is_digits_memD: "is_digits t \<Longrightarrow> c \<in> set t \<Longrightarrow> 48 \<le> c \<and> c \<le> 57"
  by (auto simp: is_digits_def list_all_iff)

lemma is_digits_notin: "is_digits t \<Longrightarrow> c < 48 \<Longrightarrow> c \<notin> set t" "is_digits t \<Longrightarrow> t \<noteq> [] \<Longrightarrow> c < 48 \<Longrightarrow> hd t \<noteq> c"
  using is_digits_memD [of t c] is_digits_memD [of t "hd t"] by auto

lemma written_value_point:
  assumes "ip \<noteq> []" "is_digits ip" "is_digits fr" "fr \<noteq> []"
  shows "written_value (with_sign neg (ip @ 46 # fr)) = Some ((if neg then - 1 else 1) * point_value ip fr)"
proof -
  have no_point: "46 \<notin> set ip" and hd: "hd (ip @ 46 # fr) \<noteq> 45"
    using assms(1,2) is_digits_notin [of ip 46] is_digits_notin [of ip 45] by auto
  then have tw: "takeWhile (\<lambda>c. c \<noteq> 46) (ip @ 46 # fr) = ip" "dropWhile (\<lambda>c. c \<noteq> 46) (ip @ 46 # fr) = 46 # fr"
    by (auto simp: takeWhile_append dropWhile_append)
  show ?thesis using assms hd by (simp add: written_value_def with_sign_def Let_def tw)
qed

lemma written_value_whole:
  assumes "ip \<noteq> []" "is_digits ip"
  shows "written_value (with_sign neg ip) = Some ((if neg then - 1 else 1) * real (digits_value ip))"
proof -
  have no_point: "46 \<notin> set ip" and hd: "hd ip \<noteq> 45"
    using assms is_digits_notin [of ip 46] is_digits_notin [of ip 45] by auto
  then have tw: "takeWhile (\<lambda>c. c \<noteq> 46) ip = ip" "dropWhile (\<lambda>c. c \<noteq> 46) ip = []"
    by (auto simp: takeWhile_eq_all_conv)
  show ?thesis using assms hd no_point by (simp add: written_value_def with_sign_def Let_def tw point_value_def digits_value_def)
qed

section \<open>What is used of Qt\<close>

text \<open>Rounding to nearest has a small relative error.\<close>

definition rounding_near :: "rounding \<Rightarrow> bool" where
  "rounding_near rnd \<longleftrightarrow> rounding_ok rnd \<and> (\<forall>a. \<bar>a\<bar> \<le> 10 ^ 12 \<longrightarrow> (\<exists>b. rnd a = Fin b \<and> \<bar>b - a\<bar> \<le> \<bar>a\<bar> / 2 ^ 50 + 1 / 2 ^ 50))"

definition fixed6_law :: "QtCalls \<Rightarrow> bool" where
  "fixed6_law q \<longleftrightarrow> (\<forall>v. \<bar>v\<bar> \<le> 10 ^ 12 \<longrightarrow> (\<exists>ip fr. qt_fixed6 q (Fin v) = with_sign (v < 0) (ip @ 46 # fr) \<and> ip \<noteq> [] \<and> is_digits ip \<and> is_digits fr
     \<and> length fr = 6 \<and> \<bar>point_value ip fr - \<bar>v\<bar>\<bar> \<le> 1 / (2 * 10 ^ 6)))"

definition toDouble_law :: "QtCalls \<Rightarrow> bool" where
  "toDouble_law q \<longleftrightarrow> (\<forall>t v. written_value t = Some v \<longrightarrow> \<bar>v\<bar> \<le> 10 ^ 12 + 1 \<longrightarrow> qt_toDouble q t = Some (qt_rnd q v)) \<and> qt_toDouble q [] = None"

definition hex_value :: "QString \<Rightarrow> nat" where
  "hex_value t = foldl (\<lambda>n c. n * 16 + (if c \<le> 57 then c - 48 else if c \<le> 70 then c - 55 else c - 87)) 0 t"

definition is_hex :: "nat \<Rightarrow> bool" where
  "is_hex c \<longleftrightarrow> 48 \<le> c \<and> c \<le> 57 \<or> 65 \<le> c \<and> c \<le> 70 \<or> 97 \<le> c \<and> c \<le> 102"

definition integer_laws :: "QtCalls \<Rightarrow> bool" where
  "integer_laws q \<longleftrightarrow> (\<forall>n. 0 \<le> n \<and> n \<le> INT_MAX \<longrightarrow> qt_number q n \<noteq> [] \<and> is_digits (qt_number q n) \<and> qt_toInt q (qt_number q n) = Some n)
     \<and> (\<forall>t. t \<noteq> [] \<and> length t \<le> 9 \<and> is_digits t \<longrightarrow> qt_toInt q t = Some (int (digits_value t)))
     \<and> (\<forall>t. t \<noteq> [] \<and> length t \<le> 6 \<and> list_all is_hex t \<longrightarrow> qt_toUIntHex q t = Some (of_nat (hex_value t)))"

definition char_laws :: "QtCalls \<Rightarrow> bool" where
  "char_laws q \<longleftrightarrow> (\<forall>c. 33 \<le> c \<and> c \<le> 126 \<longrightarrow> \<not> qt_isSpace q c) \<and> (\<forall>c. 48 \<le> c \<and> c \<le> 57 \<longrightarrow> qt_isDigit q c) \<and> qt_toStdString q [] = []"

definition qt_laws :: "QtCalls \<Rightarrow> bool" where
  "qt_laws q \<longleftrightarrow> rounding_near (qt_rnd q) \<and> fixed6_law q \<and> toDouble_law q \<and> integer_laws q \<and> char_laws q"

section \<open>Numbers\<close>

lemma point_value_zeros: "point_value ip (fr @ replicate k 48) = point_value ip fr"
proof -
  have "digits_value (replicate k 48) = 0" by (induction k) (auto simp: digits_value_def)
  then show ?thesis by (simp add: point_value_def digits_value_append power_add)
qed

lemma chop_zeros_split: "\<exists>k fr'. fr = fr' @ replicate k 48 \<and> chop_zeros (a @ 46 # fr) = a @ 46 # fr'"
proof (induction fr rule: rev_induct)
  case Nil
  show ?case by (intro exI [of _ 0] exI [of _ "[]"]) (simp add: chop_zeros_def)
next
  case (snoc c fr)
  show ?case
  proof (cases "c = 48")
    case True
    from snoc obtain k fr' where ih: "fr = fr' @ replicate k 48" "chop_zeros (a @ 46 # fr) = a @ 46 # fr'" by blast
    have "chop_zeros (a @ 46 # fr @ [c]) = chop_zeros (a @ 46 # fr)" using True by (simp add: chop_zeros_def)
    with ih True show ?thesis by (intro exI [of _ "Suc k"] exI [of _ fr']) (simp add: replicate_append_same)
  next
    case False
    then show ?thesis by (intro exI [of _ 0] exI [of _ "fr @ [c]"]) (simp add: chop_zeros_def)
  qed
qed

lemma chop_decimal:
  assumes "ip \<noteq> []" "is_digits ip" "is_digits fr"
  shows "\<exists>fr'. chop_point (chop_zeros (with_sign neg (ip @ 46 # fr))) = with_sign neg (if fr' = [] then ip else ip @ 46 # fr') \<and> is_digits fr'
     \<and> point_value ip fr' = point_value ip fr"
proof -
  obtain k fr' where k: "fr = fr' @ replicate k 48" "chop_zeros (with_sign neg ip @ 46 # fr) = with_sign neg ip @ 46 # fr'"
    using chop_zeros_split by blast
  have sgn: "with_sign neg (ip @ t) = with_sign neg ip @ t" for t by (simp add: with_sign_def)
  have "is_digits fr'" using assms(3) k(1) by simp
  then have "fr' \<noteq> [] \<Longrightarrow> last fr' \<noteq> 46" using is_digits_memD [of fr' "last fr'"] by auto
  then have "chop_point (with_sign neg ip @ 46 # fr') = with_sign neg (if fr' = [] then ip else ip @ 46 # fr')"
    by (auto simp: chop_point_def sgn butlast_append)
  with k \<open>is_digits fr'\<close> show ?thesis by (auto simp: sgn point_value_zeros)
qed

text \<open>The double that is read where \<open>v\<close> was written.\<close>

definition through :: "QtCalls \<Rightarrow> fp \<Rightarrow> fp" where
  "through q v = (case parseNumber q (formatNumber q v) of Some w \<Rightarrow> w | None \<Rightarrow> v)"

definition decimal_text :: "QString \<Rightarrow> bool" where
  "decimal_text t \<longleftrightarrow> t \<noteq> [] \<and> list_all (\<lambda>c. 48 \<le> c \<and> c \<le> 57 \<or> c = 45 \<or> c = 46) t"

lemma formatNumber_value:
  assumes laws: "fixed6_law q" and v: "\<bar>v\<bar> \<le> 10 ^ 12"
  shows "\<exists>d. written_value (formatNumber q (Fin v)) = Some d \<and> decimal_text (formatNumber q (Fin v)) \<and> \<bar>d - v\<bar> \<le> 1 / 10 ^ 6 \<and> (v \<ge> 0 \<longrightarrow> d \<ge> 0)"
proof -
  define u where "u = (if \<bar>v\<bar> < 1 / 10 ^ 9 then 0 else v)"
  have u: "\<bar>u\<bar> \<le> 10 ^ 12" "\<bar>u - v\<bar> \<le> 1 / 10 ^ 9" "v \<ge> 0 \<Longrightarrow> \<not> u < 0" using v by (auto simp: u_def)
  obtain ip fr where f: "qt_fixed6 q (Fin u) = with_sign (u < 0) (ip @ 46 # fr)" "ip \<noteq> []" "is_digits ip" "is_digits fr" "length fr = 6"
      "\<bar>point_value ip fr - \<bar>u\<bar>\<bar> \<le> 1 / (2 * 10 ^ 6)"
    using laws u(1) unfolding fixed6_law_def by blast
  obtain fr' where c: "chop_point (chop_zeros (with_sign (u < 0) (ip @ 46 # fr))) = with_sign (u < 0) (if fr' = [] then ip else ip @ 46 # fr')" "is_digits fr'"
      "point_value ip fr' = point_value ip fr"
    using chop_decimal [OF f(2,3,4)] by blast
  let ?t = "with_sign (u < 0) (if fr' = [] then ip else ip @ 46 # fr')"
  have "?t \<noteq> []" using f(2) by (simp add: with_sign_def)
  moreover have "formatNumber q (Fin v) = (let t = chop_point (chop_zeros (qt_fixed6 q (Fin u))) in if t = [] then qs ''0'' else t)"
    by (simp add: formatNumber_def u_def)
  ultimately have t: "formatNumber q (Fin v) = ?t" by (simp only: f(1) c(1) Let_def if_False)
  have val: "written_value ?t = Some ((if u < 0 then - 1 else 1) * point_value ip fr)"
    using written_value_point [OF f(2,3) c(2)] written_value_whole [OF f(2,3)] c(3) by (auto simp: point_value_def digits_value_def)
  have pos: "point_value ip fr \<ge> 0" by (simp add: point_value_def)
  have "\<bar>(if u < 0 then - 1 else 1) * point_value ip fr - u\<bar> \<le> 1 / (2 * 10 ^ 6)"
  proof (cases "u < 0")
    case True
    have "\<bar>- point_value ip fr - u\<bar> = \<bar>point_value ip fr + u\<bar>" by linarith
    with True show ?thesis using f(6) by simp
  next
    case False
    then show ?thesis using f(6) by simp
  qed
  moreover have "1 / (2 * 10 ^ 6) + 1 / 10 ^ 9 \<le> (1 / 10 ^ 6 :: real)" by simp
  ultimately have "\<bar>(if u < 0 then - 1 else 1) * point_value ip fr - v\<bar> \<le> 1 / 10 ^ 6" using u(2) by linarith
  moreover have "decimal_text ?t"
    using f(2,3) c(2) is_digits_memD by (fastforce simp: decimal_text_def with_sign_def list_all_iff)
  ultimately show ?thesis using val pos u(3) by (auto simp: t)
qed

lemma formatNumber_text: "fixed6_law q \<Longrightarrow> \<bar>v\<bar> \<le> 10 ^ 12 \<Longrightarrow> decimal_text (formatNumber q (Fin v))"
  using formatNumber_value by blast

lemma through_value:
  assumes laws: "qt_laws q" and v: "\<bar>v\<bar> \<le> 10 ^ 11"
  shows "\<exists>w. parseNumber q (formatNumber q (Fin v)) = Some (Fin w) \<and> through q (Fin v) = Fin w \<and> \<bar>w - v\<bar> \<le> 1 / 10 ^ 6 + (\<bar>v\<bar> + 2) / 2 ^ 50 \<and> (v \<ge> 0 \<longrightarrow> w \<ge> 0)"
proof -
  have l: "fixed6_law q" "toDouble_law q" "rounding_near (qt_rnd q)" using laws by (simp_all add: qt_laws_def)
  obtain d where d: "written_value (formatNumber q (Fin v)) = Some d" "\<bar>d - v\<bar> \<le> 1 / 10 ^ 6" "v \<ge> 0 \<longrightarrow> d \<ge> 0"
    using formatNumber_value [OF l(1), of v] v by auto
  have small: "\<bar>d\<bar> \<le> \<bar>v\<bar> + 1 / 10 ^ 6" "\<bar>d\<bar> \<le> 10 ^ 12"
  proof -
    show le: "\<bar>d\<bar> \<le> \<bar>v\<bar> + 1 / 10 ^ 6" using d(2) by linarith
    have "(10 :: real) ^ 11 + 1 / 10 ^ 6 \<le> 10 ^ 12" by simp
    with le v show "\<bar>d\<bar> \<le> 10 ^ 12" by linarith
  qed
  then obtain w where w: "qt_rnd q d = Fin w" "\<bar>w - d\<bar> \<le> \<bar>d\<bar> / 2 ^ 50 + 1 / 2 ^ 50" using l(3) by (auto simp: rounding_near_def)
  have "qt_toDouble q (formatNumber q (Fin v)) = Some (Fin w)" using l(2) d(1) small(2) w(1) by (fastforce simp: toDouble_law_def)
  moreover have "v \<ge> 0 \<longrightarrow> w \<ge> 0"
  proof
    assume "v \<ge> 0"
    then have "fp_le (qt_rnd q 0) (qt_rnd q d)" using d(3) l(3) unfolding rounding_near_def rounding_ok_def by blast
    then show "w \<ge> 0" using l(3) w(1) by (simp add: rounding_near_def rounding_ok_def)
  qed
  moreover have "\<bar>d\<bar> / 2 ^ 50 + 1 / 2 ^ 50 \<le> (\<bar>v\<bar> + 2) / 2 ^ 50" using small(1) by (simp add: field_simps)
  then have "\<bar>w - v\<bar> \<le> 1 / 10 ^ 6 + (\<bar>v\<bar> + 2) / 2 ^ 50" using w(2) d(2) by linarith
  ultimately show ?thesis by (simp add: parseNumber_def through_def)
qed

definition number_ok :: "fp \<Rightarrow> bool" where
  "number_ok v \<longleftrightarrow> (\<exists>r. v = Fin r \<and> \<bar>r\<bar> \<le> 10 ^ 11)"

lemma number_round:
  assumes "qt_laws q" "number_ok v"
  shows "parseNumber q (formatNumber q v) = Some (through q v)" "decimal_text (formatNumber q v)"
proof -
  obtain r where r: "v = Fin r" "\<bar>r\<bar> \<le> 10 ^ 11" using assms(2) by (auto simp: number_ok_def)
  show "parseNumber q (formatNumber q v) = Some (through q v)" using through_value [OF assms(1) r(2)] r(1) by auto
  have "\<bar>r\<bar> \<le> 10 ^ 12" using r(2) power_increasing [of 11 12 "10 :: real"] by linarith
  then show "decimal_text (formatNumber q v)" using formatNumber_text assms(1) r(1) by (simp add: qt_laws_def)
qed

lemma decimal_text_notin: "decimal_text t \<Longrightarrow> c \<notin> {45, 46} \<union> {48..57} \<Longrightarrow> c \<notin> set t"
  by (auto simp: decimal_text_def list_all_iff)

lemma decimal_text_ne: "decimal_text t \<Longrightarrow> t \<noteq> []"
  by (simp add: decimal_text_def)

lemma mark_values [simp]: "comma = 44" "semicolon = 59"
  by (simp_all add: comma_def semicolon_def)

lemma decimal_not_blank: "char_laws q \<Longrightarrow> decimal_text t \<Longrightarrow> \<not> blank q (t @ rest)"
proof -
  assume laws: "char_laws q" and t: "decimal_text t"
  obtain c t' where c: "t = c # t'" using decimal_text_ne [OF t] by (cases t) auto
  with t have "33 \<le> c \<and> c \<le> 126" by (auto simp: decimal_text_def)
  with laws show ?thesis by (simp add: blank_def c char_laws_def)
qed

section \<open>Lists of numbers\<close>

lemma joined_Cons: "joined sep (t # ts) = t @ (if ts = [] then [] else sep # joined sep ts)"
  by (cases ts) auto

lemma takeWhile_sep:
  assumes "sep \<notin> set t"
  shows "takeWhile (\<lambda>c. c \<noteq> sep) (t @ sep # r) = t" "dropWhile (\<lambda>c. c \<noteq> sep) (t @ sep # r) = sep # r"
    "takeWhile (\<lambda>c. c \<noteq> sep) t = t" "dropWhile (\<lambda>c. c \<noteq> sep) t = []"
  using assms by (auto simp: takeWhile_append dropWhile_append takeWhile_eq_all_conv)

lemma split_joined: "ts \<noteq> [] \<Longrightarrow> list_all (\<lambda>t. sep \<notin> set t) ts \<Longrightarrow> split_on sep (joined sep ts) = ts"
proof (induction ts)
  case (Cons t ts)
  then have t: "sep \<notin> set t" by simp
  show ?case
  proof (cases "ts = []")
    case True
    then show ?thesis by (subst split_on.simps) (simp add: takeWhile_sep(4) [OF t])
  next
    case False
    then show ?thesis using Cons takeWhile_sep(1,2) [OF t, of "joined sep ts"] by (subst split_on.simps) (simp add: joined_Cons)
  qed
qed simp

lemma joined_memD: "c \<in> set (joined sep ts) \<Longrightarrow> c = sep \<or> (\<exists>t\<in>set ts. c \<in> set t)"
  by (induction sep ts rule: joined.induct) auto

section \<open>Points\<close>

definition page_size_ok :: "fp \<Rightarrow> fp \<Rightarrow> bool" where
  "page_size_ok w h \<longleftrightarrow> (\<exists>W H. w = Fin W \<and> h = Fin H \<and> 0 < W \<and> W \<le> 10 ^ 6 \<and> 0 < H \<and> H \<le> 10 ^ 6)"

text \<open>The point that is read where \<open>p\<close> was written.\<close>

definition reread :: "QtCalls \<Rightarrow> fp \<Rightarrow> fp \<Rightarrow> Point \<Rightarrow> Point" where
  "reread q w h p =
     (let user = toUserSpace q (pt_x p) (pt_y p) w h in normalizedPoint q (through q (pt_x user)) (through q (pt_y user)) w h)"

definition reread_quad :: "QtCalls \<Rightarrow> fp \<Rightarrow> fp \<Rightarrow> Quad \<Rightarrow> Quad" where
  "reread_quad q w h quad =
     \<lparr>qd_upperLeft = reread q w h (qd_upperLeft quad), qd_upperRight = reread q w h (qd_upperRight quad),
      qd_lowerRight = reread q w h (qd_lowerRight quad), qd_lowerLeft = reread q w h (qd_lowerLeft quad)\<rparr>"

lemma rnd_near: "rounding_near rnd \<Longrightarrow> \<bar>a\<bar> \<le> 10 ^ 12 \<Longrightarrow> \<exists>b. rnd a = Fin b \<and> \<bar>b - a\<bar> \<le> (\<bar>a\<bar> + 1) / 2 ^ 50"
  by (auto simp: rounding_near_def add_divide_distrib)

lemma scaled_number:
  assumes "rounding_near rnd" "unit_interval x" "0 < W" "W \<le> 10 ^ 6"
  shows "\<exists>r u. x = Fin r \<and> 0 \<le> r \<and> r \<le> 1 \<and> fp_mul rnd x (Fin W) = Fin u \<and> \<bar>u - r * W\<bar> \<le> (W + 1) / 2 ^ 50 \<and> \<bar>u\<bar> \<le> 10 ^ 7"
proof -
  obtain r where r: "x = Fin r" "0 \<le> r" "r \<le> 1" using assms(2) by (auto simp: unit_Fin)
  have rW: "0 \<le> r * W" "r * W \<le> W" using r assms(3) by (simp_all add: mult_left_le_one_le)
  then have "\<bar>r * W\<bar> \<le> 10 ^ 12" using assms(4) by simp
  from rnd_near [OF assms(1) this] obtain u where u: "rnd (r * W) = Fin u" "\<bar>u - r * W\<bar> \<le> (\<bar>r * W\<bar> + 1) / 2 ^ 50" by blast
  have "(\<bar>r * W\<bar> + 1) / 2 ^ 50 \<le> (W + 1) / 2 ^ 50" using rW by (simp add: divide_right_mono)
  with u(2) have near: "\<bar>u - r * W\<bar> \<le> (W + 1) / 2 ^ 50" by linarith
  moreover have "(W + 1) / 2 ^ 50 \<le> 1" using assms(4) by simp
  moreover have "(10 :: real) ^ 6 + 1 \<le> 10 ^ 7" by simp
  ultimately have "\<bar>u\<bar> \<le> 10 ^ 7" using rW assms(4) by linarith
  with r u(1) near show ?thesis by auto
qed

lemma rounding_mono: "rounding_ok rnd \<Longrightarrow> a \<le> b \<Longrightarrow> fp_le (rnd a) (rnd b)"
  by (simp add: rounding_ok_def)

lemma flipped_unit: "rounding_near rnd \<Longrightarrow> unit_interval y \<Longrightarrow> unit_interval (fp_sub rnd (Fin 1) y)"
proof -
  assume rnd: "rounding_near rnd" and y: "unit_interval y"
  obtain r where r: "y = Fin r" "0 \<le> r" "r \<le> 1" using y by (auto simp: unit_Fin)
  have mono: "fp_le (rnd 0) (rnd (1 - r))" "fp_le (rnd (1 - r)) (rnd 1)" 
    using rounding_mono [of rnd 0 "1 - r"] rounding_mono [of rnd "1 - r" 1] rnd r by (simp_all add: rounding_near_def)
  moreover have "rnd 0 = Fin 0" "rnd 1 = Fin 1" "rnd (1 - r) \<noteq> NaN" using rnd by (auto simp: rounding_near_def rounding_ok_def)
  ultimately show ?thesis by (cases "rnd (1 - r)") (auto simp: fp_sub_def r unit_Fin)
qed

lemma user_numbers:
  assumes "qt_laws q" "page_size_ok w h" "unit_interval x" "unit_interval y"
  shows "number_ok (pt_x (toUserSpace q x y w h))" "number_ok (pt_y (toUserSpace q x y w h))"
proof -
  obtain W H where wh: "w = Fin W" "h = Fin H" "0 < W" "W \<le> 10 ^ 6" "0 < H" "H \<le> 10 ^ 6" using assms(2) by (auto simp: page_size_ok_def)
  have rnd: "rounding_near (qt_rnd q)" using assms(1) by (simp add: qt_laws_def)
  have big: "(10 :: real) ^ 7 \<le> 10 ^ 11" by simp
  show "number_ok (pt_x (toUserSpace q x y w h))"
    using scaled_number [OF rnd assms(3) wh(3,4)] big by (auto simp: number_ok_def toUserSpace_def normalizedToUserSpace_def wh)
  show "number_ok (pt_y (toUserSpace q x y w h))"
    using scaled_number [OF rnd flipped_unit [OF rnd assms(4)] wh(5,6)] big by (auto simp: number_ok_def toUserSpace_def normalizedToUserSpace_def wh)
qed

text \<open>The two numbers of a point.\<close>

lemma point_text_round:
  assumes "qt_laws q" "page_size_ok w h" "unit_point p"
  shows "\<exists>a b x y. point_text q p w h = [a, b] \<and> decimal_text a \<and> decimal_text b \<and> parseNumber q a = Some x \<and> parseNumber q b = Some y
     \<and> normalizedPoint q x y w h = reread q w h p"
proof -
  let ?u = "toUserSpace q (pt_x p) (pt_y p) w h"
  have ok: "number_ok (pt_x ?u)" "number_ok (pt_y ?u)" using user_numbers [OF assms(1,2)] assms(3) by (simp_all add: unit_point_def)
  show ?thesis
    using number_round [OF assms(1) ok(1)] number_round [OF assms(1) ok(2)] by (simp add: point_text_def reread_def Let_def)
qed

lemma parse_pair_round:
  assumes "qt_laws q" "page_size_ok w h" "unit_point p"
  shows "parse_pair q (joined comma (point_text q p w h)) w h = Some (reread q w h p)"
    "semicolon \<notin> set (joined comma (point_text q p w h))" "\<exists>a r. decimal_text a \<and> joined comma (point_text q p w h) = a @ r"
proof -
  obtain a b x y where p: "point_text q p w h = [a, b]" "decimal_text a" "decimal_text b" "parseNumber q a = Some x" "parseNumber q b = Some y"
      "normalizedPoint q x y w h = reread q w h p"
    using point_text_round [OF assms] by blast
  have "split_on comma (joined comma [a, b]) = [a, b]"
    using p(2,3) decimal_text_notin [of a comma] decimal_text_notin [of b comma] by (intro split_joined) auto
  with p show "parse_pair q (joined comma (point_text q p w h)) w h = Some (reread q w h p)" by (simp add: parse_pair_def del: mark_values)
  show "semicolon \<notin> set (joined comma (point_text q p w h))"
    using p(1-3) decimal_text_notin [of a 59] decimal_text_notin [of b 59] by auto
  show "\<exists>a r. decimal_text a \<and> joined comma (point_text q p w h) = a @ r" using p(1,2) by (auto simp: joined_Cons)
qed

lemma pairs_loop_round:
  assumes "qt_laws q" "page_size_ok w h"
  shows "list_all unit_point ps \<Longrightarrow> length out + length ps \<le> limit \<Longrightarrow>
    pairs_loop q w h limit out (map (\<lambda>p. joined comma (point_text q p w h)) ps) = (Complete, out @ map (reread q w h) ps)"
  by (induction ps arbitrary: out) (simp_all add: parse_pair_round(1) [OF assms] del: mark_values)

lemma pointPairs_round:
  assumes "qt_laws q" "page_size_ok w h" "list_all unit_point ps" "length ps \<le> limit"
  shows "parsePointPairs q (pointPairs q ps w h) w h limit = (Complete, map (reread q w h) ps)"
proof (cases ps)
  case Nil
  then show ?thesis by (simp add: parsePointPairs_def pointPairs_def blank_def)
next
  case (Cons p ps')
  obtain a r where a: "decimal_text a" "joined comma (point_text q p w h) = a @ r"
    using parse_pair_round(3) [OF assms(1,2), of p] assms(3) Cons by auto
  have chars: "char_laws q" using assms(1) by (simp add: qt_laws_def)
  obtain r' where "pointPairs q ps w h = a @ r'" by (simp add: pointPairs_def Cons joined_Cons a(2) del: mark_values)
  then have "\<not> blank q (pointPairs q ps w h)" using decimal_not_blank [OF chars a(1)] by simp
  moreover have "split_on semicolon (pointPairs q ps w h) = map (\<lambda>p. joined comma (point_text q p w h)) ps"
    unfolding pointPairs_def
    by (rule split_joined) (use Cons assms(3) parse_pair_round(2) [OF assms(1,2)] in \<open>auto simp: list_all_iff\<close>)
  ultimately show ?thesis using pairs_loop_round [OF assms(1-3), of "[]" limit] assms(4) by (simp add: parsePointPairs_def del: mark_values)
qed

text \<open>Flat coordinate lists.\<close>

definition coord_texts :: "QtCalls \<Rightarrow> fp \<Rightarrow> fp \<Rightarrow> Point list \<Rightarrow> QString list" where
  "coord_texts q w h ps = concat (map (\<lambda>p. point_text q p w h) ps)"

lemma coord_texts_simps [simp]:
  "coord_texts q w h [] = []" "coord_texts q w h (p # ps) = point_text q p w h @ coord_texts q w h ps"
  "coord_texts q w h (a @ b) = coord_texts q w h a @ coord_texts q w h b"
  by (simp_all add: coord_texts_def)

lemma coord_texts_round:
  assumes "qt_laws q" "page_size_ok w h" "list_all unit_point ps"
  shows "\<exists>vs. those (map (parseNumber q) (coord_texts q w h ps)) = Some vs \<and> point_list q w h vs = map (reread q w h) ps
     \<and> length vs = 2 * length ps \<and> length (coord_texts q w h ps) = 2 * length ps \<and> list_all decimal_text (coord_texts q w h ps)"
  using assms(3)
proof (induction ps)
  case (Cons p ps)
  obtain a b x y where p: "point_text q p w h = [a, b]" "decimal_text a" "decimal_text b" "parseNumber q a = Some x" "parseNumber q b = Some y"
      "normalizedPoint q x y w h = reread q w h p"
    using point_text_round [OF assms(1,2)] Cons(2) by fastforce
  with Cons show ?case by auto
qed simp

lemma coordinateList_texts: "coordinateList q ps w h = joined comma (coord_texts q w h ps)"
  by (simp add: coordinateList_def coord_texts_def)

lemma decimal_texts_split: "list_all decimal_text ts \<Longrightarrow> ts \<noteq> [] \<Longrightarrow> split_on comma (joined comma ts) = ts"
  using decimal_text_notin [of _ comma] by (intro split_joined) (auto simp: list_all_iff)

lemma decimal_texts_not_blank: "char_laws q \<Longrightarrow> list_all decimal_text ts \<Longrightarrow> ts \<noteq> [] \<Longrightarrow> \<not> blank q (joined comma ts)"
  using decimal_not_blank by (cases ts) (auto simp: joined_Cons simp del: mark_values)

lemma coord_loop_round:
  assumes "qt_laws q" "page_size_ok w h"
  shows "list_all unit_quad quads \<Longrightarrow> length out + length quads \<le> limit \<Longrightarrow>
    coord_loop q w h limit out (coord_texts q w h (concat (map xfdf_quad quads))) = (Complete, out @ map (reread_quad q w h) quads)"
proof (induction quads arbitrary: out)
  case Nil
  then show ?case by (subst coord_loop.simps) simp
next
  case (Cons quad quads)
  let ?ts = "coord_texts q w h (xfdf_quad quad)"
  have "list_all unit_point (xfdf_quad quad)" using Cons(2) by (simp add: unit_quad_def quad_points_def xfdf_quad_def)
  from coord_texts_round [OF assms this] obtain vs where vs: "those (map (parseNumber q) ?ts) = Some vs"
      "point_list q w h vs = map (reread q w h) (xfdf_quad quad)" "length ?ts = 8"
    by (auto simp: xfdf_quad_def)
  let ?rest = "coord_texts q w h (concat (map xfdf_quad quads))"
  have eight: "length (?ts @ ?rest) \<ge> 8" "take 8 (?ts @ ?rest) = ?ts" "drop 8 (?ts @ ?rest) = ?rest" using vs(3) by simp_all
  have room: "\<not> limit \<le> length out" using Cons(3) by simp
  have "coord_loop q w h limit out (?ts @ ?rest) = coord_loop q w h limit (out @ [reread_quad q w h quad]) ?rest"
    using room by (subst coord_loop.simps) (simp only: eight vs(1,2) if_True if_False option.case, simp add: xfdf_quad_def reread_quad_def)
  then show ?case using Cons(1) [of "out @ [reread_quad q w h quad]"] Cons(2,3) by simp
qed

lemma coords_round:
  assumes "qt_laws q" "page_size_ok w h" "list_all unit_quad quads" "length quads \<le> limit"
  shows "parseCoordList q (coordinateList q (concat (map xfdf_quad quads)) w h) w h limit = (Complete, map (reread_quad q w h) quads)"
proof (cases "quads = []")
  case True
  then show ?thesis by (simp add: parseCoordList_def coordinateList_def blank_def)
next
  case False
  let ?ps = "concat (map xfdf_quad quads)"
  have "list_all unit_point ?ps" using assms(3) by (auto simp: list_all_iff unit_quad_def quad_points_def xfdf_quad_def)
  from coord_texts_round [OF assms(1,2) this] have ts: "list_all decimal_text (coord_texts q w h ?ps)" "length (coord_texts q w h ?ps) = 2 * length ?ps"
    by blast+
  moreover have "?ps \<noteq> []" using False by (cases quads) (simp_all add: xfdf_quad_def)
  ultimately have ts: "list_all decimal_text (coord_texts q w h ?ps)" "coord_texts q w h ?ps \<noteq> []" by auto
  have "char_laws q" using assms(1) by (simp add: qt_laws_def)
  with ts have "\<not> blank q (coordinateList q ?ps w h)" "split_on comma (coordinateList q ?ps w h) = coord_texts q w h ?ps"
    by (simp_all add: coordinateList_texts decimal_texts_not_blank decimal_texts_split del: mark_values)
  then show ?thesis using coord_loop_round [OF assms(1-3), of "[]" limit] assms(4) by (simp add: parseCoordList_def del: mark_values)
qed

lemma callout_loop_round:
  "list_all decimal_text ts \<Longrightarrow> ts \<noteq> [] \<Longrightarrow> those (map (parseNumber q) ts) = Some vs \<Longrightarrow> length out + length ts \<le> MaxAnnotationCalloutPoints * 2 \<Longrightarrow>
     callout_loop q out (joined comma ts) = (Complete, out @ vs)"
proof (induction ts arbitrary: out vs)
  case (Cons t ts)
  have t: "comma \<notin> set t" using Cons(2) decimal_text_notin [of t comma] by simp
  obtain v vs' where v: "parseNumber q t = Some v" "those (map (parseNumber q) ts) = Some vs'" "vs = v # vs'"
    using Cons(4) by (auto split: option.splits)
  have room: "length out \<noteq> MaxAnnotationCalloutPoints * 2" using Cons(5) by simp
  show ?case
  proof (cases "ts = []")
    case True
    then show ?thesis using v room by (subst callout_loop.simps) (simp add: takeWhile_sep(3,4) [OF t] del: mark_values)
  next
    case False
    then show ?thesis using v room Cons(1) [OF _ False v(2), of "out @ [v]"] Cons(2,5)
      by (subst callout_loop.simps) (simp add: joined_Cons takeWhile_sep(1,2) [OF t] del: mark_values)
  qed
qed simp

lemma callout_round:
  assumes "qt_laws q" "page_size_ok w h" "list_all unit_point ps" "length ps \<in> {2..MaxAnnotationCalloutPoints}"
  shows "parseCallout q (coordinateList q ps w h) w h = (Complete, map (reread q w h) ps)" "\<not> blank q (coordinateList q ps w h)"
proof -
  obtain vs where vs: "those (map (parseNumber q) (coord_texts q w h ps)) = Some vs" "point_list q w h vs = map (reread q w h) ps"
      "length vs = 2 * length ps" "length (coord_texts q w h ps) = 2 * length ps" "list_all decimal_text (coord_texts q w h ps)"
    using coord_texts_round [OF assms(1-3)] by blast
  have ne: "coord_texts q w h ps \<noteq> []" using vs(4) assms(4) by auto
  have "callout_loop q [] (coordinateList q ps w h) = (Complete, vs)"
    unfolding coordinateList_texts using callout_loop_round [OF vs(5) ne vs(1), of "[]"] vs(4) assms(4) by simp
  then show "parseCallout q (coordinateList q ps w h) w h = (Complete, map (reread q w h) ps)"
    using vs(2,3) assms(4) by (auto simp: parseCallout_def)
  show "\<not> blank q (coordinateList q ps w h)"
    using decimal_texts_not_blank [OF _ vs(5) ne] assms(1) by (simp add: coordinateList_texts qt_laws_def)
qed

lemma rect_round:
  assumes "qt_laws q" "number_ok a" "number_ok b" "number_ok c" "number_ok d"
  shows "parseRect q (joined comma [formatNumber q a, formatNumber q b, formatNumber q c, formatNumber q d])
    = Some [through q a, through q b, through q c, through q d]"
  using decimal_texts_split [of "[formatNumber q a, formatNumber q b, formatNumber q c, formatNumber q d]"] number_round [OF assms(1)] assms(2-5)
  by (simp add: parseRect_def Let_def del: mark_values joined.simps)

section \<open>Names and flags\<close>

lemma qs_inject [simp]: "qs a = qs b \<longleftrightarrow> a = b"
  by (simp add: qs_def inj_map_eq_map inj_def)

lemma qs_simps [simp]: "qs [] = []" "qs (a @ b) = qs a @ qs b" "qs s = [] \<longleftrightarrow> s = []" "[] = qs s \<longleftrightarrow> s = []"
  by (simp_all add: qs_def)

lemma lineEnding_round: "parseLineEnding (qs (lineEndingName e)) = Some e"
  by (cases e) (simp_all add: parseLineEnding_def ending_names_def)

lemma intent_round: "parseIntent (qs (intentName i)) = (if intentName i = [] then None else Some i)"
  by (cases i) (simp_all add: parseIntent_def intent_names_def)

lemma single_bit: "(f :: int) AND 2 ^ k = (if f AND 2 ^ k \<noteq> 0 then 2 ^ k else 0)"
  by (rule bit_eqI) (auto simp: bit_simps and_exp_eq_0_iff_not_bit)

definition named_flags :: int where
  "named_flags = 2 OR 4 OR 8 OR 16 OR 64 OR 128 OR 256"

lemma flag_names_text: "n \<in> set (flag_list flags) \<Longrightarrow> n \<noteq> [] \<and> comma \<notin> set n"
proof -
  have "list_all (\<lambda>(f, m). m \<noteq> [] \<and> comma \<notin> set (qs m)) flag_names" by (simp add: flag_names_def qs_def)
  then show "n \<in> set (flag_list flags) \<Longrightarrow> n \<noteq> [] \<and> comma \<notin> set n" by (auto simp: flag_list_def list_all_iff)
qed

lemma parseFlags_list: "parseFlags (joined comma (flag_list flags)) = foldl (\<lambda>f n. f OR flag_of n) 0 (flag_list flags)"
proof (cases "flag_list flags = []")
  case True
  then show ?thesis by (simp add: parseFlags_def) (subst split_on.simps, simp)
next
  case False
  have "split_on comma (joined comma (flag_list flags)) = flag_list flags"
    by (rule split_joined) (use False flag_names_text in \<open>auto simp: list_all_iff simp del: mark_values\<close>)
  moreover have "filter (\<lambda>n. n \<noteq> []) (flag_list flags) = flag_list flags" using flag_names_text by (auto simp: filter_id_conv)
  ultimately show ?thesis by (simp add: parseFlags_def del: mark_values)
qed

lemma flags_round: "parseFlags (joined comma (flag_list flags)) = flags AND named_flags"
proof -
  have "foldl (\<lambda>f n. f OR flag_of n) 0 (flag_list flags) = foldl (\<lambda>f v. f OR (flags AND v)) 0 [2, 4, 8, 16, 64, 128, 256]"
    using single_bit [of flags 1] single_bit [of flags 2] single_bit [of flags 3] single_bit [of flags 4] single_bit [of flags 6]
      single_bit [of flags 7] single_bit [of flags 8]
    by (simp add: flag_list_def flag_names_def flag_of_def split: if_splits)
  also have "\<dots> = flags AND named_flags" by (simp only: foldl.simps named_flags_def bit.conj_disj_distrib or.assoc or.left_neutral)
  finally show ?thesis by (simp only: parseFlags_list)
qed

section \<open>Colours\<close>

lemma hex_digit_value: "n < 16 \<Longrightarrow> is_hex (hex_digit n) \<and>
    (if hex_digit n \<le> 57 then hex_digit n - 48 else if hex_digit n \<le> 70 then hex_digit n - 55 else hex_digit n - 87) = n"
  by (auto simp: hex_digit_def is_hex_def)

lemma hex_value_append: "hex_value (t @ [c]) = hex_value t * 16 + (if c \<le> 57 then c - 48 else if c \<le> 70 then c - 55 else c - 87)"
  by (simp add: hex_value_def)

lemma hex2_value: "n < 256 \<Longrightarrow> hex_value (t @ hex2 n) = hex_value t * 256 + n \<and> list_all is_hex (hex2 n)"
proof -
  assume n: "n < 256"
  then have "n div 16 < 16" "n mod 16 < 16" by auto
  note d = hex_digit_value [OF this(1)] hex_digit_value [OF this(2)]
  have "hex_value (t @ hex2 n) = (hex_value t * 16 + n div 16) * 16 + n mod 16"
    using hex_value_append [of "t @ [hex_digit (n div 16)]" "hex_digit (n mod 16)"] hex_value_append [of t "hex_digit (n div 16)"] d
    by (simp add: hex2_def)
  then show ?thesis using d by (simp add: hex2_def algebra_simps)
qed

lemma hex6_value:
  assumes "r < 256" "g < 256" "b < 256"
  shows "hex_value (hex2 r @ hex2 g @ hex2 b) = r * 65536 + g * 256 + b" "list_all is_hex (hex2 r @ hex2 g @ hex2 b)"
proof -
  have "hex_value ((hex2 r @ hex2 g) @ hex2 b) = hex_value (hex2 r @ hex2 g) * 256 + b" "hex_value (hex2 r @ hex2 g) = hex_value (hex2 r) * 256 + g"
      "hex_value (hex2 r) = r"
    using hex2_value [OF assms(3), of "hex2 r @ hex2 g"] hex2_value [OF assms(2), of "hex2 r"] hex2_value [OF assms(1), of "[]"]
    by (simp_all add: hex_value_def)
  then show "hex_value (hex2 r @ hex2 g @ hex2 b) = r * 65536 + g * 256 + b" by simp
  show "list_all is_hex (hex2 r @ hex2 g @ hex2 b)" using hex2_value assms by simp
qed

text \<open>An opacity is written with six places, enough to tell 256 levels apart.\<close>

lemma near_level:
  assumes rnd: "rounding_near rnd" and w: "\<bar>w - real a / 255\<bar> \<le> 1 / 10 ^ 5" and a: "a \<le> 255"
  shows "fp_round (fp_mul rnd (fp_clamp (Fin w) (Fin 0) (Fin 1)) (Fin 255)) = int a"
proof -
  have unit: "0 \<le> real a / 255" "real a / 255 \<le> 1" using a by auto
  define c where "c = (if w < 0 then 0 else if 1 < w then 1 else w)"
  have c: "fp_clamp (Fin w) (Fin 0) (Fin 1) = Fin c" "0 \<le> c" "c \<le> 1" "\<bar>c - real a / 255\<bar> \<le> 1 / 10 ^ 5"
    using w unit by (auto simp: c_def fp_clamp_def)
  have "\<bar>c * 255\<bar> \<le> 10 ^ 12" using c(2,3) by simp
  from rnd_near [OF rnd this] obtain z where z: "rnd (c * 255) = Fin z" "\<bar>z - c * 255\<bar> \<le> (\<bar>c * 255\<bar> + 1) / 2 ^ 50" by blast
  have "fp_le (rnd 0) (rnd (c * 255))" using rounding_mono [of rnd 0 "c * 255"] rnd c(2) by (simp add: rounding_near_def)
  then have "0 \<le> z" using rnd z(1) by (simp add: rounding_near_def rounding_ok_def)
  moreover have "\<bar>c * 255 - real a\<bar> \<le> 255 / 10 ^ 5" using c(4) by (simp add: abs_le_iff field_simps)
  moreover have "(\<bar>c * 255\<bar> + 1) / 2 ^ 50 \<le> 1 / 10" using c(2,3) by simp
  moreover have "1 / 10 + 255 / 10 ^ 5 < (1 / 2 :: real)" by simp
  ultimately have near: "\<bar>z - real a\<bar> < 1 / 2" and "0 \<le> z" using z(2) by linarith+
  have "\<lfloor>z + 1 / 2\<rfloor> = int a"
  proof (rule floor_unique)
    have "real a \<le> z + 1 / 2" "z + 1 / 2 < real a + 1" using near by linarith+
    then show "real_of_int (int a) \<le> z + 1 / 2" "z + 1 / 2 < real_of_int (int a) + 1" by simp_all
  qed
  with \<open>0 \<le> z\<close> show ?thesis by (simp add: c(1) z(1))
qed

lemma unat_word32_lt: "unat (w :: u32) < 2 ^ 32"
proof -
  have "unat w < 2 ^ LENGTH(32)" by (rule unsigned_less)
  then show ?thesis by simp
qed

lemma unat_drop_bit: "unat (drop_bit n (w :: u32)) = unat w div 2 ^ n"
proof -
  have "take_bit LENGTH(32) (unat w) = unat w" using unat_word32_lt [of w] by (simp add: take_bit_nat_eq_self)
  moreover have "unat (drop_bit n w) = drop_bit n (take_bit LENGTH(32) (unat w))" by (rule unsigned_drop_bit_eq)
  ultimately have "unat (drop_bit n w) = drop_bit n (unat w)" by (simp only:)
  also have "\<dots> = unat w div 2 ^ n" by (rule drop_bit_eq_div)
  finally show ?thesis .
qed

lemma unat_take_bit: "unat (take_bit n (w :: u32)) = unat w mod 2 ^ n"
proof -
  have "unat (take_bit n w) = take_bit n (unat w)" by (rule unsigned_take_bit_eq)
  also have "\<dots> = unat w mod 2 ^ n" by (rule take_bit_eq_mod)
  finally show ?thesis .
qed

lemma unat_and_ff: "unat (w AND 0xff) = unat (w :: u32) mod 256"
proof -
  have "w AND 0xff = take_bit 8 w" by (simp add: take_bit_eq_mask mask_eq_exp_minus_1)
  then have "unat (w AND 0xff) = unat w mod 2 ^ 8" by (simp only: unat_take_bit)
  then show ?thesis by simp
qed

lemma opacity_round:
  assumes laws: "qt_laws q"
  shows "alphaFromOpacity q (opacityAttribute q argb) = ucast (drop_bit 24 argb)"
proof -
  define n where "n = unat (drop_bit 24 argb)"
  have "unat argb < 256 * 2 ^ 24" using unat_word32_lt [of argb] by simp
  then have a: "n \<le> 255" using less_mult_imp_div_less [of "unat argb" 256 "2 ^ 24"] by (simp add: n_def unat_drop_bit)
  have rnd: "rounding_near (qt_rnd q)" using laws by (simp add: qt_laws_def)
  have unit: "0 \<le> real n / 255" "real n / 255 \<le> 1" using a by auto
  then have "\<bar>real n / 255\<bar> \<le> 10 ^ 12" by simp
  from rnd_near [OF rnd this] obtain u where u: "qt_rnd q (real n / 255) = Fin u" "\<bar>u - real n / 255\<bar> \<le> (\<bar>real n / 255\<bar> + 1) / 2 ^ 50" by blast
  have small: "(\<bar>real n / 255\<bar> + 1) / 2 ^ 50 \<le> 1 / 10 ^ 6" using unit by simp
  moreover have "1 / 10 ^ 6 \<le> (1 :: real)" by simp
  ultimately have u1: "\<bar>u\<bar> \<le> 2" using u(2) unit by linarith
  then have "\<bar>u\<bar> \<le> 10 ^ 11" by simp
  from through_value [OF laws this] obtain w where w: "parseNumber q (formatNumber q (Fin u)) = Some (Fin w)" "\<bar>w - u\<bar> \<le> 1 / 10 ^ 6 + (\<bar>u\<bar> + 2) / 2 ^ 50" by blast
  have "(\<bar>u\<bar> + 2) / 2 ^ 50 \<le> 1 / 10 ^ 6" using u1 by simp
  moreover have "1 / 10 ^ 6 + 1 / 10 ^ 6 + 1 / 10 ^ 6 \<le> (1 / 10 ^ 5 :: real)" by simp
  ultimately have "\<bar>w - real n / 255\<bar> \<le> 1 / 10 ^ 5" using w(2) u(2) small by linarith
  from near_level [OF rnd this a] show ?thesis 
    using u(1) w(1) by (simp add: alphaFromOpacity_def opacityAttribute_def n_def)
qed

lemma color_bits:
  "push_bit 24 (ucast (ucast (drop_bit 24 argb) :: u8)) OR push_bit 16 (drop_bit 16 (take_bit 24 argb) AND 0xff)
     OR push_bit 8 (drop_bit 8 (take_bit 24 argb) AND 0xff) OR (take_bit 24 argb AND 0xff) = (argb :: u32)"
proof -
  have ff: "(0xff :: u32) = mask 8" by (simp add: mask_eq_exp_minus_1)
  show ?thesis unfolding ff
  proof (rule bit_word_eqI)
    fix n
    assume n: "n < LENGTH(32)"
    consider "n < 8" | "8 \<le> n" "n < 16" | "16 \<le> n" "n < 24" | "24 \<le> n" by linarith
    then show "bit (push_bit 24 (ucast (ucast (drop_bit 24 argb) :: u8)) OR push_bit 16 (drop_bit 16 (take_bit 24 argb) AND mask 8)
        OR push_bit 8 (drop_bit 8 (take_bit 24 argb) AND mask 8) OR (take_bit 24 argb AND mask 8)) n = bit argb n"
      using n by cases (auto simp: bit_simps)
  qed
qed

lemma color_round:
  assumes "qt_laws q"
  shows "composeColor q (colorAttribute argb) (opacityAttribute q argb) = argb"
proof -
  let ?r = "drop_bit 16 argb AND 0xff" and ?g = "drop_bit 8 argb AND 0xff" and ?b = "argb AND 0xff"
  have lt: "unat (w AND 0xff) < 256" for w :: u32 by (simp add: unat_and_ff)
  let ?t = "hex2 (unat ?r) @ hex2 (unat ?g) @ hex2 (unat ?b)"
  have len: "length ?t = 6" by (simp add: hex2_def)
  have hexes: "hex_value ?t = unat ?r * 65536 + unat ?g * 256 + unat ?b" "list_all is_hex ?t" using hex6_value [OF lt lt lt] by simp_all
  have "unat ?r * 65536 + unat ?g * 256 + unat ?b = unat argb mod (256 * (256 * 256))"
    unfolding unat_and_ff unat_drop_bit mod_mult2_eq by (simp add: div_mult2_eq [symmetric])
  then have "of_nat (hex_value ?t) = (of_nat (unat argb mod 2 ^ 24) :: u32)" by (simp only: hexes(1)) simp
  also have "\<dots> = of_nat (unat (take_bit 24 argb))" by (simp only: unat_take_bit)
  also have "\<dots> = take_bit 24 argb" by simp
  finally have val: "of_nat (hex_value ?t) = take_bit 24 argb" .
  have law: "t \<noteq> [] \<Longrightarrow> length t \<le> 6 \<Longrightarrow> list_all is_hex t \<Longrightarrow> qt_toUIntHex q t = Some (of_nat (hex_value t))" for t
    using assms by (simp add: qt_laws_def integer_laws_def)
  have hex: "qt_toUIntHex q ?t = Some (take_bit 24 argb)" using law [of ?t] hexes(2) len val by (simp only:) (auto simp: hex2_def)
  have "colorAttribute argb = of_char CHR ''#'' # ?t" by (simp add: colorAttribute_def qs_def)
  then have "composeColor q (colorAttribute argb) (opacityAttribute q argb) =
      push_bit 24 (ucast (ucast (drop_bit 24 argb) :: u8)) OR push_bit 16 (drop_bit 16 (take_bit 24 argb) AND 0xff)
      OR push_bit 8 (drop_bit 8 (take_bit 24 argb) AND 0xff) OR (take_bit 24 argb AND 0xff)"
    unfolding composeColor_def Let_def opacity_round [OF assms] by (simp only: list.distinct list.sel len hex option.case simp_thms if_True)
  then show ?thesis by (simp only: color_bits)
qed

section \<open>Dates\<close>

definition padded :: "nat \<Rightarrow> nat \<Rightarrow> QString" where
  "padded k n = map (\<lambda>i. 48 + n div 10 ^ i mod 10) (rev [0..<k])"

lemma padded_text [simp]: "length (padded k n) = k" "is_digits (padded k n)"
  by (auto simp: padded_def is_digits_def list_all_iff)

lemma padded_value: "digits_value (padded k n) = n mod 10 ^ k"
proof (induction k)
  case 0
  show ?case by (simp add: padded_def digits_value_def)
next
  case (Suc k)
  have "padded (Suc k) n = (48 + n div 10 ^ k mod 10) # padded k n" by (simp add: padded_def)
  then have "digits_value (padded (Suc k) n) = n div 10 ^ k mod 10 * 10 ^ k + digits_value (padded k n)"
    using digits_value_append [of "[48 + n div 10 ^ k mod 10]" "padded k n"] by (simp add: digits_value_def)
  also have "\<dots> = n mod 10 ^ Suc k" using Suc mod_mult2_eq [of n "10 ^ k" 10] by (simp add: mult.commute)
  finally show ?case .
qed

text \<open>Formatting a time and reading its six numbers gives the time without its milliseconds; years have four digits.\<close>

definition date_law :: "QtCalls \<Rightarrow> int \<Rightarrow> bool" where
  "date_law q ms \<longleftrightarrow> (\<exists>y mo d h mi s. qt_utcText q ms = padded 4 y @ padded 2 mo @ padded 2 d @ padded 2 h @ padded 2 mi @ padded 2 s
     \<and> y < 10000 \<and> mo < 100 \<and> d < 100 \<and> h < 100 \<and> mi < 100 \<and> s < 100
     \<and> qt_utcMillis q (int y, int mo, int d) (int h, int mi, int s) = Some (ms - ms mod 1000))"

definition whole_seconds :: "Timestamp \<Rightarrow> Timestamp" where
  "whole_seconds t = (if ts_valid t then t\<lparr>ts_unixMilliseconds := ts_unixMilliseconds t - ts_unixMilliseconds t mod 1000\<rparr> else no_timestamp)"

lemma toInt0_padded: "integer_laws q \<Longrightarrow> 0 < k \<Longrightarrow> k \<le> 9 \<Longrightarrow> n < 10 ^ k \<Longrightarrow> toInt0 q (padded k n) = int n"
proof -
  assume q: "integer_laws q" and k: "0 < k" "k \<le> 9" "n < 10 ^ k"
  have "padded k n \<noteq> []" using k(1) by (metis less_irrefl length_0_conv padded_text(1))
  then have "qt_toInt q (padded k n) = Some (int (digits_value (padded k n)))" using q k(2) unfolding integer_laws_def by simp
  then show ?thesis using k(3) by (simp add: toInt0_def padded_value)
qed

lemma date_round:
  assumes "qt_laws q" "ts_valid t \<Longrightarrow> date_law q (ts_unixMilliseconds t)"
  shows "parseXfdfDate q (xfdfDate q t) = whole_seconds t"
proof (cases "ts_valid t")
  case False
  then show ?thesis by (simp add: xfdfDate_def parseXfdfDate_def whole_seconds_def)
next
  case True
  obtain y mo d h mi s where u: "qt_utcText q (ts_unixMilliseconds t) = padded 4 y @ padded 2 mo @ padded 2 d @ padded 2 h @ padded 2 mi @ padded 2 s"
      and lt: "y < 10000" "mo < 100" "d < 100" "h < 100" "mi < 100" "s < 100"
      and ms: "qt_utcMillis q (int y, int mo, int d) (int h, int mi, int s) = Some (ts_unixMilliseconds t - ts_unixMilliseconds t mod 1000)"
    using assms(2) [OF True] unfolding date_law_def by blast
  let ?u = "qt_utcText q (ts_unixMilliseconds t)"
  have ints: "integer_laws q" "char_laws q" using assms(1) by (simp_all add: qt_laws_def)
  have len: "length ?u = 14" "is_digits ?u" by (simp_all add: u)
  have digits: "list_all (qt_isDigit q) ?u" using len(2) ints(2) by (auto simp: is_digits_def list_all_iff char_laws_def)
  have pieces: "take 4 ?u = padded 4 y" "take 2 (drop 4 ?u) = padded 2 mo" "take 2 (drop 6 ?u) = padded 2 d" "take 2 (drop 8 ?u) = padded 2 h"
      "take 2 (drop 10 ?u) = padded 2 mi" "take 2 (drop 12 ?u) = padded 2 s"
    by (simp_all add: u)
  have nums: "toInt0 q (padded 4 y) = int y" "toInt0 q (padded 2 mo) = int mo" "toInt0 q (padded 2 d) = int d" "toInt0 q (padded 2 h) = int h"
      "toInt0 q (padded 2 mi) = int mi" "toInt0 q (padded 2 s) = int s"
    using toInt0_padded [OF ints(1)] lt by simp_all
  define tz where "tz = qs [CHR ''+'', CHR ''0'', CHR ''0'', CHR 0x27, CHR ''0'', CHR ''0'', CHR 0x27]"
  have v: "xfdfDate q t = qs ''D:'' @ ?u @ tz" using True by (simp add: xfdfDate_def tz_def)
  have two: "length (qs ''D:'') = 2" by (simp add: qs_def)
  have body: "take 2 (xfdfDate q t) = qs ''D:''" "\<not> length (xfdfDate q t) < 16" "take 14 (drop 2 (xfdfDate q t)) = ?u"
    using len(1) two by (simp_all add: v)
  show ?thesis unfolding parseXfdfDate_def Let_def body drop_0
    using digits body(2) by (simp add: pieces nums ms True whole_seconds_def)
qed

section \<open>PDF names\<close>

lemma upper_hex_digit_value: "n < 16 \<Longrightarrow> is_hex (upper_hex_digit n) \<and>
    (if upper_hex_digit n \<le> 57 then upper_hex_digit n - 48 else if upper_hex_digit n \<le> 70 then upper_hex_digit n - 55 else upper_hex_digit n - 87) = n"
proof -
  have "\<forall>n\<in>set [0..<16]. is_hex (upper_hex_digit n) \<and>
      (if upper_hex_digit n \<le> 57 then upper_hex_digit n - 48 else if upper_hex_digit n \<le> 70 then upper_hex_digit n - 55 else upper_hex_digit n - 87) = n"
    by (simp add: upt_rec upper_hex_digit_def qs_def is_hex_def)
  then show "n < 16 \<Longrightarrow> ?thesis" by simp
qed

lemma decode_plain:
  "c \<noteq> of_char CHR ''#'' \<Longrightarrow> decode_loop q bytes (c # rest) = decode_loop q (if c = of_char CHR ''/'' \<and> bytes = [] then bytes else bytes @ [toLatin1 c]) rest"
  by (cases rest; cases "tl rest") auto

lemma decode_byte:
  assumes "integer_laws q" "b < 256"
  shows "decode_loop q bytes (pdfName_byte b @ rest) = decode_loop q (bytes @ [b]) rest"
proof (cases "needsEscape b")
  case True
  have "b div 16 < 16" "b mod 16 < 16" using assms(2) by auto
  note d = upper_hex_digit_value [OF this(1)] upper_hex_digit_value [OF this(2)]
  have "hex_value [upper_hex_digit (b div 16), upper_hex_digit (b mod 16)] = b" using d by (simp add: hex_value_def)
  then have "qt_toUIntHex q [upper_hex_digit (b div 16), upper_hex_digit (b mod 16)] = Some (of_nat b)"
    using assms(1) d by (simp add: integer_laws_def)
  moreover have "unat (of_nat b :: u32) mod 256 = b" using assms(2) by (simp add: unat_of_nat)
  ultimately show ?thesis using True by (simp add: pdfName_byte_def)
next
  case False
  then have "b \<noteq> of_char CHR ''#''" "b \<noteq> of_char CHR ''/''" "b \<le> 0xff" by (auto simp: needsEscape_def qs_def)
  then show ?thesis using False decode_plain [of b q bytes rest] by (simp add: pdfName_byte_def toLatin1_def)
qed

lemma decode_bytes: "integer_laws q \<Longrightarrow> decode_loop q bytes (concat (map (\<lambda>c. pdfName_byte (of_char c)) s)) = bytes @ map of_char s"
  by (induction s arbitrary: bytes) (simp_all add: decode_byte)

lemma pdfName_round: "qt_laws q \<Longrightarrow> qt_toStdString q (qt_fromStdString q v) = v \<Longrightarrow> decodePdfName q (pdfName q v) = qt_fromStdString q v"
proof -
  assume q: "qt_laws q" and v: "qt_toStdString q (qt_fromStdString q v) = v"
  have "map char_of (map of_char v :: nat list) = v" by (simp add: comp_def)
  then show ?thesis
    using decode_plain [of "of_char CHR ''/''" q "[]" "concat (map (\<lambda>c. pdfName_byte (of_char c)) v)"] decode_bytes [of q "[]" v] q v
    by (simp add: decodePdfName_def pdfName_def qt_laws_def)
qed

section \<open>Escaped text\<close>

text \<open>What XML makes of the text of an attribute or element: the five predefined entities stand for their characters.\<close>

definition entities :: "(QString \<times> nat) list" where
  "entities = [(qs ''amp;'', 38), (qs ''lt;'', 60), (qs ''gt;'', 62), (qs ''quot;'', 34), (qs ''apos;'', 39)]"

function xml_value :: "QString \<Rightarrow> QString" where
  "xml_value [] = []"
| "xml_value (c # r) =
     (case (if c = 38 then find (\<lambda>(n, u). take (length n) r = n) entities else None) of
        Some (n, u) \<Rightarrow> u # xml_value (drop (length n) r)
      | None \<Rightarrow> c # xml_value r)"
  by pat_completeness auto
termination by (relation "measure length") auto

text \<open>
  Text that survives: in an element tabs and line feeds do, a carriage return does not; in an attribute XML turns each of them into a space.
\<close>

definition body_text :: "QString \<Rightarrow> bool" where
  "body_text t \<longleftrightarrow> list_all (\<lambda>c. 32 \<le> c \<or> c = 9 \<or> c = 10) t"

definition clean_text :: "QString \<Rightarrow> bool" where
  "clean_text t \<longleftrightarrow> list_all (\<lambda>c. 32 \<le> c) t"

lemma clean_body: "clean_text t \<Longrightarrow> body_text t"
  by (auto simp: clean_text_def body_text_def list_all_iff)

lemma xml_value_plain: "38 \<notin> set a \<Longrightarrow> xml_value (a @ r) = a @ xml_value r"
  by (induction a) auto

lemma xml_value_id: "38 \<notin> set a \<Longrightarrow> xml_value a = a"
  using xml_value_plain [of a "[]"] by simp

lemma xml_value_unit: "32 \<le> c \<or> c = 9 \<or> c = 10 \<Longrightarrow> xml_value (escape_unit c @ r) = c # xml_value r"
  by (auto simp: escape_unit_def qs_def entities_def)

lemma xml_value_escape: "body_text v \<Longrightarrow> xml_value (escapeXml v @ r) = v @ xml_value r"
proof (induction v)
  case (Cons c v)
  then show ?case using xml_value_unit [of c] by (simp add: body_text_def escapeXml_def)
qed (simp add: escapeXml_def)

lemma xml_value_escaped: "body_text v \<Longrightarrow> xml_value (escapeXml v) = v"
  using xml_value_escape [of v "[]"] by simp

lemma escape_unit_marks: "c \<in> set (escape_unit u) \<Longrightarrow> c \<noteq> 60 \<and> c \<noteq> 34 \<and> (32 \<le> c \<or> c = u)"
proof -
  have "escape_unit u = (if u = 38 then [38, 97, 109, 112, 59] else if u = 60 then [38, 108, 116, 59] else if u = 62 then [38, 103, 116, 59]
      else if u = 34 then [38, 113, 117, 111, 116, 59] else if u = 39 then [38, 97, 112, 111, 115, 59]
      else if u < 32 \<and> u \<noteq> 9 \<and> u \<noteq> 10 \<and> u \<noteq> 13 then [] else [u])"
    by (simp add: escape_unit_def qs_def)
  then show "c \<in> set (escape_unit u) \<Longrightarrow> ?thesis" by (simp split: if_splits) auto
qed

lemma escape_marks: "c \<in> set (escapeXml v) \<Longrightarrow> c \<noteq> 60 \<and> c \<noteq> 34 \<and> (32 \<le> c \<or> c \<in> set v)"
  using escape_unit_marks by (fastforce simp: escapeXml_def)

lemma escape_empty: "body_text v \<Longrightarrow> escapeXml v = [] \<longleftrightarrow> v = []"
  by (cases v) (auto simp: body_text_def escapeXml_def escape_unit_def)

end
