(* ===== verification/Xfdf_Markup.thy ===== *)
theory Xfdf_Markup
  imports Xfdf_Text
begin

text \<open>
  Writing annotations as XFDF and reading them back. The written document is a sequence of markup, and its tokens are what XML prescribes
  for that markup.
\<close>

section \<open>Markup\<close>

datatype Markup = MK_Start string "(string \<times> QString) list" | MK_End string | MK_Text QString

fun markup_text :: "Markup \<Rightarrow> QString" where
  "markup_text (MK_Start name attrs) = open_tag name (concat (map (\<lambda>(n, v). attribute n v) attrs))"
| "markup_text (MK_End name) = close_tag name"
| "markup_text (MK_Text t) = t"

fun markup_token :: "Markup \<Rightarrow> XmlToken" where
  "markup_token (MK_Start name attrs) = XT_Start (qs name) (map (\<lambda>(n, v). (qs n, xml_value v)) attrs)"
| "markup_token (MK_End name) = XT_End (qs name)"
| "markup_token (MK_Text t) = XT_Characters (xml_value t)"

text \<open>Markup whose text an XML reader splits again at the same places and without changing it.\<close>

fun markup_ok :: "Markup \<Rightarrow> bool" where
  "markup_ok (MK_Start name attrs) \<longleftrightarrow> list_all (\<lambda>(n, v). clean_text v \<and> 60 \<notin> set v \<and> 34 \<notin> set v) attrs"
| "markup_ok (MK_End name) \<longleftrightarrow> True"
| "markup_ok (MK_Text t) \<longleftrightarrow> t \<noteq> [] \<and> body_text t \<and> 60 \<notin> set t"

abbreviation texts :: "Markup list \<Rightarrow> QString" where
  "texts ms \<equiv> concat (map markup_text ms)"

abbreviation tokens_of :: "Markup list \<Rightarrow> XmlToken list" where
  "tokens_of ms \<equiv> map markup_token ms"

section \<open>The markup of an annotation\<close>

definition text_field :: "QtCalls \<Rightarrow> string \<Rightarrow> QString" where
  "text_field q s = (if s = [] then [] else escapeXml (qt_fromStdString q s))"

definition is_text :: "AnnotationType \<Rightarrow> bool" where
  "is_text t \<longleftrightarrow> t = AT_Text \<or> t = AT_FreeText"

definition is_polygon :: "AnnotationType \<Rightarrow> bool" where
  "is_polygon t \<longleftrightarrow> t = AT_Polygon \<or> t = AT_PolyLine"

definition has_width :: "AnnotationType \<Rightarrow> bool" where
  "has_width t \<longleftrightarrow> is_path t \<or> t = AT_Square \<or> t = AT_Circle \<or> t = AT_Ink"

definition rect_texts :: "QtCalls \<Rightarrow> Annotation \<Rightarrow> XfdfPage \<Rightarrow> QString" where
  "rect_texts q a page = rectAttribute q (normalizedRectToUserSpace q a (xp_widthPoints page) (xp_heightPoints page))"

definition last_change :: "Annotation \<Rightarrow> Timestamp" where
  "last_change a = (if ts_valid (an_modificationDate a) then an_modificationDate a else an_creationDate a)"

definition intent_field :: "Annotation \<Rightarrow> string" where
  "intent_field a =
     (if is_text (an_subtype a) then text_intent a
      else if is_path (an_subtype a) then (case as_intent (ax_style (an_extras a)) of None \<Rightarrow> [] | Some i \<Rightarrow> intentName i) else [])"

definition icon_field :: "Annotation \<Rightarrow> string" where
  "icon_field a = (case as_appearance (ax_style (an_extras a)) of None \<Rightarrow> []
     | Some ap \<Rightarrow> if is_text (an_subtype a) \<or> an_subtype a = AT_Stamp then aa_icon ap else [])"

definition width_field :: "QtCalls \<Rightarrow> Annotation \<Rightarrow> QString" where
  "width_field q a = (case as_borderWidth (ax_style (an_extras a)) of None \<Rightarrow> [] | Some w \<Rightarrow> if has_width (an_subtype a) then formatNumber q w else [])"

definition ending_field :: "Annotation \<Rightarrow> AnnotationLineEnding option \<Rightarrow> QString" where
  "ending_field a e = (case e of None \<Rightarrow> [] | Some e \<Rightarrow> if an_subtype a = AT_Line then qs (lineEndingName e) else [])"

definition point_field :: "QtCalls \<Rightarrow> Annotation \<Rightarrow> XfdfPage \<Rightarrow> Point \<Rightarrow> QString" where
  "point_field q a page p = (if an_subtype a = AT_Line then joined comma (point_text q p (xp_widthPoints page) (xp_heightPoints page)) else [])"

definition annotation_fields :: "QtCalls \<Rightarrow> Annotation \<Rightarrow> nat \<Rightarrow> XfdfPage \<Rightarrow> (string \<times> QString) list" where
  "annotation_fields q a i page =
     (let extras = an_extras a; style = ax_style extras; w = xp_widthPoints page; h = xp_heightPoints page in
      [(''page'', qt_number q (int i)), (''rect'', rect_texts q a page), (''color'', colorAttribute (an_color a)),
       (''opacity'', opacityAttribute q (an_color a)), (''title'', text_field q (an_author a)), (''name'', text_field q (an_uuid a)),
       (''creationdate'', xfdfDate q (an_creationDate a)), (''date'', xfdfDate q (last_change a)),
       (''flags'', joined comma (flag_list (an_flags a))),
       (''callout'', if hasCallout a then coordinateList q (ax_callout extras) w h else []),
       (''icon'', text_field q (icon_field a)), (''width'', width_field q a), (''intent'', qs (intent_field a)),
       (''start'', point_field q a page (hd (ax_points extras))), (''end'', point_field q a page (last (ax_points extras))),
       (''tail'', ending_field a (as_firstLineEnding style)), (''head'', ending_field a (as_lastLineEnding style)),
       (''coords'', if is_markup (an_subtype a) then coordinateList q (concat (map xfdf_quad (ax_quads extras))) w h else []),
       (''symbol'', if an_subtype a = AT_Caret \<and> ax_caretSymbolP extras then qs ''P'' else [])])"

definition present :: "(string \<times> QString) list \<Rightarrow> (string \<times> QString) list" where
  "present fs = filter (\<lambda>(n, v). v \<noteq> []) fs"

definition child :: "string \<Rightarrow> QString \<Rightarrow> Markup list" where
  "child name raw = MK_Start name [] # (if raw = [] then [] else [MK_Text raw]) @ [MK_End name]"

definition contents_markup :: "QtCalls \<Rightarrow> Annotation \<Rightarrow> Markup list" where
  "contents_markup q a = (if an_contents a = [] then [] else child ''contents'' (escapeXml (qt_fromStdString q (an_contents a))))"

definition font_text :: "QtCalls \<Rightarrow> AnnotationAppearance \<Rightarrow> QString" where
  "font_text q ap = qs ''0 0 0 rg '' @ escapeXml (pdfName q (aa_fontName ap)) @ qs '' '' @ formatNumber q (aa_fontSize ap) @ qs '' Tf''"

definition font_markup :: "QtCalls \<Rightarrow> Annotation \<Rightarrow> Markup list" where
  "font_markup q a =
     (case as_appearance (ax_style (an_extras a)) of None \<Rightarrow> []
      | Some ap \<Rightarrow> if aa_fontName ap = [] then [] else child ''defaultappearance'' (font_text q ap))"

definition ink_markup :: "QtCalls \<Rightarrow> Annotation \<Rightarrow> XfdfPage \<Rightarrow> Markup list" where
  "ink_markup q a page =
     (if ax_inkPaths (an_extras a) = [] then []
      else MK_Start ''inklist'' [] # concat (map (\<lambda>path. child ''gesture'' (pointPairs q path (xp_widthPoints page) (xp_heightPoints page))) (ax_inkPaths (an_extras a)))
           @ [MK_End ''inklist''])"

definition children_markup :: "QtCalls \<Rightarrow> Annotation \<Rightarrow> XfdfPage \<Rightarrow> Markup list" where
  "children_markup q a page =
     (if is_text (an_subtype a) then contents_markup q a @ font_markup q a
      else if is_polygon (an_subtype a)
      then child ''vertices'' (pointPairs q (ax_points (an_extras a)) (xp_widthPoints page) (xp_heightPoints page)) @ contents_markup q a
      else if an_subtype a = AT_Ink then ink_markup q a page @ contents_markup q a
      else contents_markup q a)"

definition annotation_markup :: "QtCalls \<Rightarrow> nat \<Rightarrow> XfdfPage \<Rightarrow> Annotation \<Rightarrow> Markup list" where
  "annotation_markup q i page a =
     MK_Start (element_name (an_subtype a)) (present (annotation_fields q a i page)) # children_markup q a page @ [MK_End (element_name (an_subtype a))]"

definition exported :: "Annotation \<Rightarrow> bool" where
  "exported a \<longleftrightarrow> an_subtype a \<in> set element_types \<and> (an_subtype a = AT_Line \<longrightarrow> length (ax_points (an_extras a)) \<ge> 2)"

definition page_markup :: "QtCalls \<Rightarrow> nat \<Rightarrow> XfdfPage \<Rightarrow> Markup list" where
  "page_markup q i page = concat (map (\<lambda>a. annotation_markup q i page a @ [MK_Text [10]]) (filter exported (xp_annotations page)))"

definition document_markup :: "QtCalls \<Rightarrow> XfdfPage list \<Rightarrow> Markup list" where
  "document_markup q pages =
     [MK_Start ''xfdf'' [(''xmlns'', qs ''http://ns.adobe.com/xfdf/''), (''xml:space'', qs ''preserve'')], MK_Text [10], MK_Start ''annots'' [], MK_Text [10]]
     @ concat (map (\<lambda>(i, page). page_markup q i page) (enumerate 0 pages))
     @ [MK_End ''annots'', MK_Text [10], MK_End ''xfdf'', MK_Text [10]]"

section \<open>What can be written\<close>

definition text_ok :: "QtCalls \<Rightarrow> string \<Rightarrow> bool" where
  "text_ok q s \<longleftrightarrow> s = [] \<or> qt_toStdString q (qt_fromStdString q s) = s \<and> clean_text (qt_fromStdString q s)"

definition contents_ok :: "QtCalls \<Rightarrow> string \<Rightarrow> bool" where
  "contents_ok q s \<longleftrightarrow> s = [] \<or> qt_toStdString q (qt_fromStdString q s) = s \<and> body_text (qt_fromStdString q s)"

definition time_ok :: "QtCalls \<Rightarrow> Timestamp \<Rightarrow> bool" where
  "time_ok q t \<longleftrightarrow> ts_valid t \<longrightarrow> date_law q (ts_unixMilliseconds t)"

definition style_ok :: "QtCalls \<Rightarrow> AnnotationStyle \<Rightarrow> bool" where
  "style_ok q style \<longleftrightarrow>
     (case as_borderWidth style of None \<Rightarrow> True | Some w \<Rightarrow> number_ok w \<and> fp_le (Fin 0) w)
     \<and> (case as_appearance style of None \<Rightarrow> True | Some ap \<Rightarrow> text_ok q (aa_icon ap) \<and> text_ok q (aa_fontName ap) \<and> number_ok (aa_fontSize ap))"

definition geometry_ok :: "Annotation \<Rightarrow> bool" where
  "geometry_ok a \<longleftrightarrow> unit_interval (an_x0 a) \<and> unit_interval (an_y0 a) \<and> unit_interval (an_x1 a) \<and> unit_interval (an_y1 a)
     \<and> list_all unit_point (ax_points (an_extras a)) \<and> length (ax_points (an_extras a)) \<le> MaxAnnotationPoints
     \<and> list_all unit_quad (ax_quads (an_extras a)) \<and> length (ax_quads (an_extras a)) \<le> MaxAnnotationQuads
     \<and> list_all (list_all unit_point) (ax_inkPaths (an_extras a)) \<and> length (ax_inkPaths (an_extras a)) \<le> MaxAnnotationInkPaths
     \<and> sum_list (map length (ax_inkPaths (an_extras a))) \<le> MaxAnnotationInkPoints
     \<and> list_all unit_point (ax_callout (an_extras a))
     \<and> (hasCallout a \<longrightarrow> length (ax_callout (an_extras a)) \<in> {2..MaxAnnotationCalloutPoints})"

definition annotation_writable :: "QtCalls \<Rightarrow> Annotation \<Rightarrow> bool" where
  "annotation_writable q a \<longleftrightarrow> text_ok q (an_author a) \<and> text_ok q (an_uuid a) \<and> contents_ok q (an_contents a) \<and> time_ok q (an_creationDate a)
     \<and> time_ok q (an_modificationDate a) \<and> style_ok q (ax_style (an_extras a)) \<and> geometry_ok a"

definition page_writable :: "QtCalls \<Rightarrow> XfdfPage \<Rightarrow> bool" where
  "page_writable q page \<longleftrightarrow> page_size_ok (xp_widthPoints page) (xp_heightPoints page) \<and> list_all (annotation_writable q) (xp_annotations page)
     \<and> length (xp_annotations page) \<le> MaxAnnotationsPerPage"

definition document_writable :: "QtCalls \<Rightarrow> XfdfPage list \<Rightarrow> bool" where
  "document_writable q pages \<longleftrightarrow> list_all (page_writable q) pages \<and> sum_list (map (\<lambda>p. length (xp_annotations p)) pages) \<le> MaxAnnotationsPerDocument
     \<and> int (length pages) \<le> INT_MAX"

section \<open>What comes back\<close>

definition carried_appearance :: "QtCalls \<Rightarrow> Annotation \<Rightarrow> AnnotationAppearance option" where
  "carried_appearance q a =
     (case as_appearance (ax_style (an_extras a)) of None \<Rightarrow> None
      | Some ap \<Rightarrow>
          if is_text (an_subtype a) \<and> aa_fontName ap \<noteq> []
          then Some (no_appearance\<lparr>aa_icon := aa_icon ap, aa_fontName := aa_fontName ap, aa_fontSize := through q (aa_fontSize ap)\<rparr>)
          else if (is_text (an_subtype a) \<or> an_subtype a = AT_Stamp) \<and> aa_icon ap \<noteq> [] then Some (no_appearance\<lparr>aa_icon := aa_icon ap\<rparr>)
          else None)"

definition carried_intent :: "Annotation \<Rightarrow> AnnotationIntent option" where
  "carried_intent a =
     (if hasCallout a then Some AI_FreeTextCallout
      else case as_intent (ax_style (an_extras a)) of None \<Rightarrow> None
        | Some i \<Rightarrow> if intentName i \<noteq> [] \<and> (is_text (an_subtype a) \<or> is_path (an_subtype a)) then Some i else None)"

definition carried_style :: "QtCalls \<Rightarrow> Annotation \<Rightarrow> AnnotationStyle" where
  "carried_style q a =
     (let style = ax_style (an_extras a); line = (an_subtype a = AT_Line) in
      no_style\<lparr>as_appearance := carried_appearance q a,
        as_borderWidth := (if has_width (an_subtype a) then map_option (through q) (as_borderWidth style) else None),
        as_intent := carried_intent a, as_firstLineEnding := (if line then as_firstLineEnding style else None),
        as_lastLineEnding := (if line then as_lastLineEnding style else None)\<rparr>)"

definition carried_extras :: "QtCalls \<Rightarrow> XfdfPage \<Rightarrow> Annotation \<Rightarrow> AnnotationExtras" where
  "carried_extras q page a =
     (let extras = an_extras a; point = reread q (xp_widthPoints page) (xp_heightPoints page) in
      no_extras\<lparr>
        ax_points := (if an_subtype a = AT_Line then [point (hd (ax_points extras)), point (last (ax_points extras))]
                      else if is_polygon (an_subtype a) then map point (ax_points extras) else []),
        ax_quads := (if is_markup (an_subtype a) then map (reread_quad q (xp_widthPoints page) (xp_heightPoints page)) (ax_quads extras) else []),
        ax_inkPaths := (if an_subtype a = AT_Ink then filter (\<lambda>path. path \<noteq> []) (map (map point) (ax_inkPaths extras)) else []),
        ax_callout := (if hasCallout a then map point (ax_callout extras) else []),
        ax_style := carried_style q a, ax_caretSymbolP := (an_subtype a = AT_Caret \<and> ax_caretSymbolP extras)\<rparr>)"

definition carried :: "QtCalls \<Rightarrow> XfdfPage \<Rightarrow> Annotation \<Rightarrow> Annotation" where
  "carried q page a =
     (let w = xp_widthPoints page; h = xp_heightPoints page;
          rect = normalizedRectToUserSpace q a w h;
          l = through q (pt_x (qd_upperLeft rect)); b = through q (pt_y (qd_lowerLeft rect));
          r = through q (pt_x (qd_lowerRight rect)); t = through q (pt_y (qd_upperRight rect));
          topLeft = normalizedPoint q (fp_min l r) (fp_max b t) w h; bottomRight = normalizedPoint q (fp_max l r) (fp_min b t) w h in
      tightenBounds
        \<lparr>an_subtype = an_subtype a, an_uuid = an_uuid a, an_x0 = pt_x topLeft, an_y0 = pt_y topLeft, an_x1 = pt_x bottomRight, an_y1 = pt_y bottomRight,
         an_contents = an_contents a, an_author = an_author a, an_creationDate = whole_seconds (an_creationDate a),
         an_modificationDate = whole_seconds (last_change a), an_color = an_color a, an_flags = an_flags a AND named_flags,
         an_extras = carried_extras q page a, an_nativeIndex = - 1, an_pdfObjectNumber = - 1, an_handle = []\<rparr>)"

section \<open>The document is its markup\<close>

definition field_text :: "string \<Rightarrow> QString \<Rightarrow> QString" where
  "field_text n v = (if v = [] then [] else attribute n v)"

lemma present_text: "concat (map (\<lambda>(n, v). attribute n v) (present fs)) = concat (map (\<lambda>(n, v). field_text n v) fs)"
  by (induction fs) (auto simp: present_def field_text_def)

lemma from_nonempty: "qt_laws q \<Longrightarrow> qt_toStdString q (qt_fromStdString q s) = s \<Longrightarrow> s \<noteq> [] \<Longrightarrow> qt_fromStdString q s \<noteq> []"
  by (auto simp: qt_laws_def char_laws_def)

lemma text_field_nonempty: "qt_laws q \<Longrightarrow> text_ok q s \<Longrightarrow> text_field q s = [] \<longleftrightarrow> s = []"
  using from_nonempty escape_empty clean_body by (auto simp: text_field_def text_ok_def)

lemma text_field_attribute:
  "qt_laws q \<Longrightarrow> text_ok q s \<Longrightarrow> field_text n (text_field q s) = (if s = [] then [] else attribute n (escapeXml (qt_fromStdString q s)))"
  using text_field_nonempty [of q s] by (simp add: field_text_def) (simp add: text_field_def)

lemma joined_nonempty: "ts \<noteq> [] \<Longrightarrow> hd ts \<noteq> [] \<Longrightarrow> joined sep ts \<noteq> []"
  by (cases ts) (simp_all add: joined_Cons)

lemma decimal_joined_nonempty: "list_all decimal_text ts \<Longrightarrow> ts \<noteq> [] \<Longrightarrow> joined sep ts \<noteq> []"
  by (rule joined_nonempty) (auto simp: neq_Nil_conv decimal_text_def)

lemma flags_attribute: "field_text ''flags'' (joined comma (flag_list flags)) = appendFlagAttributes flags"
proof (cases "flag_list flags = []")
  case False
  then have "hd (flag_list flags) \<noteq> []" using flag_names_text [of "hd (flag_list flags)" flags] by simp
  with False show ?thesis using joined_nonempty [OF False, of comma] by (simp add: field_text_def appendFlagAttributes_def)
qed (simp add: field_text_def appendFlagAttributes_def)

lemma formatNumber_nonempty [simp]: "formatNumber q v \<noteq> []"
  by (simp add: formatNumber_def Let_def)

lemma date_attribute: "field_text n (xfdfDate q t) = (if xfdfDate q t = [] then [] else attribute n (xfdfDate q t))"
  by (simp add: field_text_def)

lemma common_fields_text:
  assumes "qt_laws q" "annotation_writable q a" "int i \<le> INT_MAX"
  shows "concat (map (\<lambda>(n, v). field_text n v) (take 9 (annotation_fields q a i page)))
    = commonAttributes q a i (normalizedRectToUserSpace q a (xp_widthPoints page) (xp_heightPoints page))"
proof -
  have "qt_number q (int i) \<noteq> []" using assms(1,3) by (simp add: qt_laws_def integer_laws_def)
  moreover have "rect_texts q a page \<noteq> []" by (simp add: rect_texts_def rectAttribute_def)
  moreover have "colorAttribute c \<noteq> []" "opacityAttribute q c \<noteq> []" for c by (simp_all add: colorAttribute_def opacityAttribute_def)
  moreover have "text_ok q (an_author a)" "text_ok q (an_uuid a)" using assms(2) by (simp_all add: annotation_writable_def)
  ultimately show ?thesis
    unfolding annotation_fields_def Let_def commonAttributes_def rect_texts_def [symmetric] last_change_def [symmetric]
    by (simp add: text_field_attribute [OF assms(1)] flags_attribute [unfolded mark_values] date_attribute) (simp add: field_text_def)
qed

lemma child_text: "texts (child name raw) = open_tag name [] @ raw @ close_tag name"
  by (simp add: child_def)

lemma contents_text: "texts (contents_markup q a) = contentsElement q a"
  by (simp add: contents_markup_def contentsElement_def child_text)

lemma font_markup_text: "texts (font_markup q a) = default_appearance q (ax_style (an_extras a))"
  by (simp add: font_markup_def default_appearance_def child_text font_text_def split: option.splits)

lemma texts_concat: "texts (concat (map f xs)) = concat (map (\<lambda>x. texts (f x)) xs)"
  by (induction xs) simp_all

lemma ink_markup_text: "texts (ink_markup q a page) = ink_list q a page"
  by (simp add: ink_markup_def ink_list_def Let_def texts_concat child_text del: map_concat)

lemma width_attribute_text: "field_text ''width'' (width_field q a) = (if has_width (an_subtype a) then width_attribute q (ax_style (an_extras a)) else [])"
  by (simp add: field_text_def width_field_def width_attribute_def split: option.splits)

lemma intent_attribute_text: "field_text ''intent'' (qs i) = intent_attribute i"
  by (simp add: field_text_def intent_attribute_def)

lemma lineEndingName_nonempty [simp]: "lineEndingName e \<noteq> []"
  by (cases e) simp_all

lemma ending_attribute_text:
  "field_text n (ending_field a e) = (case e of None \<Rightarrow> [] | Some e \<Rightarrow> if an_subtype a = AT_Line then attribute n (qs (lineEndingName e)) else [])"
  by (simp add: field_text_def ending_field_def split: option.splits)

lemma icon_attribute_text:
  assumes "qt_laws q" "style_ok q (ax_style (an_extras a))"
  shows "field_text ''icon'' (text_field q (icon_field a))
    = (if is_text (an_subtype a) \<or> an_subtype a = AT_Stamp then icon_attribute q (ax_style (an_extras a)) else [])"
proof -
  have "text_ok q (icon_field a)" using assms(2) by (auto simp: style_ok_def icon_field_def text_ok_def split: option.splits)
  then show ?thesis by (simp add: text_field_attribute [OF assms(1)]) (auto simp: icon_field_def icon_attribute_def split: option.splits)
qed

lemma coords_attribute_text:
  assumes "qt_laws q" "page_size_ok w h" "list_all unit_point ps"
  shows "field_text n (coordinateList q ps w h) = (if ps = [] then [] else attribute n (coordinateList q ps w h))"
proof (cases "ps = []")
  case True
  then show ?thesis by (simp add: field_text_def coordinateList_def)
next
  case False
  have "length (coord_texts q w h ps) = 2 * length ps" "list_all decimal_text (coord_texts q w h ps)" using coord_texts_round [OF assms] by blast+
  moreover from this(1) False have "coord_texts q w h ps \<noteq> []" by auto
  ultimately have "coordinateList q ps w h \<noteq> []" using decimal_joined_nonempty by (simp only: coordinateList_texts)
  with False show ?thesis by (simp add: field_text_def)
qed

lemma point_attribute_text:
  "field_text n (point_field q a page p) = (if an_subtype a = AT_Line then attribute n (joined comma (point_text q p (xp_widthPoints page) (xp_heightPoints page))) else [])"
  by (simp add: field_text_def point_field_def point_text_def Let_def)

lemma callout_nonempty: "hasCallout a \<Longrightarrow> ax_callout (an_extras a) \<noteq> [] \<and> an_subtype a = AT_FreeText"
  by (simp add: hasCallout_def)

lemmas field_attributes = width_attribute_text intent_attribute_text ending_attribute_text point_attribute_text

text \<open>The attributes after the common ones.\<close>

definition own_attributes :: "QtCalls \<Rightarrow> Annotation \<Rightarrow> XfdfPage \<Rightarrow> QString" where
  "own_attributes q a page =
     (let extras = an_extras a; style = ax_style extras; w = xp_widthPoints page; h = xp_heightPoints page; t = an_subtype a in
      (if hasCallout a then attribute ''callout'' (coordinateList q (ax_callout extras) w h) else [])
      @ (if is_text t \<or> t = AT_Stamp then icon_attribute q style else [])
      @ (if has_width t then width_attribute q style else []) @ intent_attribute (intent_field a)
      @ (if t = AT_Line then line_attributes q a page else [])
      @ (if is_markup t \<and> ax_quads extras \<noteq> [] then attribute ''coords'' (coordinateList q (concat (map xfdf_quad (ax_quads extras))) w h) else [])
      @ (if t = AT_Caret \<and> ax_caretSymbolP extras then attribute ''symbol'' (qs ''P'') else []))"

lemma own_fields_text:
  assumes q: "qt_laws q" and page: "page_size_ok (xp_widthPoints page) (xp_heightPoints page)" and a: "annotation_writable q a"
  shows "concat (map (\<lambda>(n, v). field_text n v) (drop 9 (annotation_fields q a i page))) = own_attributes q a page"
proof -
  have ok: "style_ok q (ax_style (an_extras a))" "list_all unit_point (ax_callout (an_extras a))" "list_all unit_quad (ax_quads (an_extras a))"
    using a by (simp_all add: annotation_writable_def geometry_ok_def)
  have "list_all unit_point (concat (map xfdf_quad (ax_quads (an_extras a))))"
    using ok(3) by (auto simp: list_all_iff unit_quad_def quad_points_def xfdf_quad_def)
  note coords = coords_attribute_text [OF q page this]
  have empty: "field_text n [] = []" for n by (simp add: field_text_def)
  have quads: "concat (map xfdf_quad (ax_quads (an_extras a))) = [] \<longleftrightarrow> ax_quads (an_extras a) = []"
    by (cases "ax_quads (an_extras a)") (simp_all add: xfdf_quad_def)
  have callout: "field_text ''callout'' (if hasCallout a then coordinateList q (ax_callout (an_extras a)) (xp_widthPoints page) (xp_heightPoints page) else [])
      = (if hasCallout a then attribute ''callout'' (coordinateList q (ax_callout (an_extras a)) (xp_widthPoints page) (xp_heightPoints page)) else [])"
    using coords_attribute_text [OF q page ok(2)] callout_nonempty [of a] empty by simp
  have markup: "field_text ''coords'' (if is_markup (an_subtype a) then coordinateList q (concat (map xfdf_quad (ax_quads (an_extras a)))) (xp_widthPoints page) (xp_heightPoints page) else [])
      = (if is_markup (an_subtype a) \<and> ax_quads (an_extras a) \<noteq> [] then attribute ''coords'' (coordinateList q (concat (map xfdf_quad (ax_quads (an_extras a)))) (xp_widthPoints page) (xp_heightPoints page)) else [])"
    using coords empty by (simp only: quads split: if_splits) simp
  have symbol: "field_text ''symbol'' (if an_subtype a = AT_Caret \<and> ax_caretSymbolP (an_extras a) then qs ''P'' else [])
      = (if an_subtype a = AT_Caret \<and> ax_caretSymbolP (an_extras a) then attribute ''symbol'' (qs ''P'') else [])"
    by (simp add: field_text_def)
  have line: "field_text ''start'' (point_field q a page (hd (ax_points (an_extras a)))) @ field_text ''end'' (point_field q a page (last (ax_points (an_extras a))))
      @ field_text ''tail'' (ending_field a (as_firstLineEnding (ax_style (an_extras a)))) @ field_text ''head'' (ending_field a (as_lastLineEnding (ax_style (an_extras a))))
      = (if an_subtype a = AT_Line then line_attributes q a page else [])"
    by (simp add: field_attributes line_attributes_def Let_def split: option.splits)
  have "drop 9 (annotation_fields q a i page) = tl (tl (tl (tl (tl (tl (tl (tl (tl (annotation_fields q a i page)))))))))"
    by (simp add: annotation_fields_def Let_def)
  then show ?thesis
    unfolding own_attributes_def Let_def line [symmetric] annotation_fields_def
    by (simp only: list.sel list.map concat.simps case_prod_conv callout markup symbol icon_attribute_text [OF q ok(1)] width_attribute_text intent_attribute_text
        append_assoc append_Nil2)
qed

lemma annotation_markup_text:
  assumes q: "qt_laws q" and page: "page_size_ok (xp_widthPoints page) (xp_heightPoints page)" and a: "annotation_writable q a" and i: "int i \<le> INT_MAX"
    and ex: "exported a"
  shows "texts (annotation_markup q i page a) = annotationElement q a i page"
proof -
  let ?common = "commonAttributes q a i (normalizedRectToUserSpace q a (xp_widthPoints page) (xp_heightPoints page))"
  have "concat (map (\<lambda>(n, v). field_text n v) (annotation_fields q a i page)) = ?common @ own_attributes q a page"
    using common_fields_text [OF q a i, of page] own_fields_text [OF q page a, of i]
    by (metis append_take_drop_id concat_append map_append)
  then have "texts (annotation_markup q i page a) =
      open_tag (element_name (an_subtype a)) (?common @ own_attributes q a page) @ texts (children_markup q a page) @ close_tag (element_name (an_subtype a))"
    by (simp add: annotation_markup_def present_text)
  moreover have "texts (children_markup q a page) =
      (if is_text (an_subtype a) then contentsElement q a @ default_appearance q (ax_style (an_extras a))
       else if is_polygon (an_subtype a)
       then open_tag ''vertices'' [] @ pointPairs q (ax_points (an_extras a)) (xp_widthPoints page) (xp_heightPoints page) @ close_tag ''vertices'' @ contentsElement q a
       else if an_subtype a = AT_Ink then ink_list q a page @ contentsElement q a else contentsElement q a)"
    by (simp add: children_markup_def contents_text font_markup_text ink_markup_text child_text)
  moreover have quads: "concat (map xfdf_quad (ax_quads (an_extras a))) = [] \<longleftrightarrow> ax_quads (an_extras a) = []"
    by (cases "ax_quads (an_extras a)") (simp_all add: xfdf_quad_def)
  moreover have "\<not> hasCallout a" if "an_subtype a \<noteq> AT_FreeText" using that by (simp add: hasCallout_def)
  ultimately show ?thesis
    using ex
    by (cases "an_subtype a")
      (simp_all add: annotationElement_def own_attributes_def Let_def is_text_def is_polygon_def is_path_def is_markup_def has_width_def exported_def element_types_def
        intent_field_def intent_attribute_def quads split: option.splits)
qed

lemma annotation_not_exported: "\<not> exported a \<Longrightarrow> annotationElement q a i page = []"
  by (cases "an_subtype a") (simp_all add: annotationElement_def Let_def exported_def element_types_def)

lemma annotation_element_nonempty: "exported a \<Longrightarrow> annotationElement q a i page \<noteq> []"
  by (cases "an_subtype a") (simp_all add: annotationElement_def Let_def exported_def element_types_def open_tag_def)

lemma page_markup_text:
  assumes "qt_laws q" "page_writable q page" "int i \<le> INT_MAX"
  shows "texts (page_markup q i page) = page_elements q i page"
proof -
  have page: "page_size_ok (xp_widthPoints page) (xp_heightPoints page)" using assms(2) by (simp add: page_writable_def)
  have "list_all (annotation_writable q) as \<Longrightarrow> texts (concat (map (\<lambda>a. annotation_markup q i page a @ [MK_Text [10]]) (filter exported as)))
      = concat (map (\<lambda>a. let element = annotationElement q a i page in if element = [] then [] else element @ [10]) as)" for as
    by (induction as)
      (simp_all add: annotation_markup_text [OF assms(1) page _ assms(3)] annotation_not_exported annotation_element_nonempty Let_def)
  then show ?thesis using assms(2) by (simp add: page_markup_def page_elements_def page_writable_def)
qed

lemma document_markup_text:
  assumes "qt_laws q" "document_writable q pages"
  shows "annotationsToXfdf q pages = xml_head @ texts (document_markup q pages)"
proof -
  have pages: "list_all (page_writable q) pages" "int (length pages) \<le> INT_MAX" using assms(2) by (simp_all add: document_writable_def)
  have "texts (page_markup q i page) = page_elements q i page" if "(i, page) \<in> set (enumerate 0 pages)" for i page
  proof (rule page_markup_text [OF assms(1)])
    have "i < length pages" "page \<in> set pages" using that by (auto simp: in_set_enumerate_eq)
    then show "page_writable q page" "int i \<le> INT_MAX" using pages by (auto simp: list_all_iff)
  qed
  then have "texts (concat (map (\<lambda>(i, page). page_markup q i page) (enumerate 0 pages))) = concat (map (\<lambda>(i, page). page_elements q i page) (enumerate 0 pages))"
    unfolding texts_concat by (intro arg_cong [of _ _ concat] map_cong) auto
  then show ?thesis unfolding annotationsToXfdf_def document_markup_def by simp
qed

section \<open>Plain attribute values\<close>

definition plain_text :: "QString \<Rightarrow> bool" where
  "plain_text t \<longleftrightarrow> list_all (\<lambda>c. 32 \<le> c \<and> c \<noteq> 34 \<and> c \<noteq> 38 \<and> c \<noteq> 60) t"

lemma plain_simps [simp]:
  "plain_text []" "plain_text (a @ b) \<longleftrightarrow> plain_text a \<and> plain_text b"
  "plain_text (c # t) \<longleftrightarrow> 32 \<le> c \<and> c \<noteq> 34 \<and> c \<noteq> 38 \<and> c \<noteq> 60 \<and> plain_text t"
  by (simp_all add: plain_text_def)

lemma plain_value: "plain_text t \<Longrightarrow> xml_value t = t"
  by (rule xml_value_id) (auto simp: plain_text_def list_all_iff)

lemma plain_clean: "plain_text t \<Longrightarrow> clean_text t \<and> 60 \<notin> set t \<and> 34 \<notin> set t"
  by (auto simp: plain_text_def clean_text_def list_all_iff)

lemma plain_decimal: "decimal_text t \<Longrightarrow> plain_text t"
  by (auto simp: plain_text_def decimal_text_def list_all_iff)

lemma plain_digits: "is_digits t \<Longrightarrow> plain_text t"
  by (auto simp: plain_text_def is_digits_def list_all_iff)

lemma plain_joined: "list_all plain_text ts \<Longrightarrow> plain_text [sep] \<Longrightarrow> plain_text (joined sep ts)"
  by (induction sep ts rule: joined.induct) simp_all

lemma plain_points:
  assumes "qt_laws q" "page_size_ok w h"
  shows "unit_point p \<Longrightarrow> list_all plain_text (point_text q p w h)" "list_all unit_point ps \<Longrightarrow> plain_text (coordinateList q ps w h)"
    "list_all unit_point ps \<Longrightarrow> plain_text (pointPairs q ps w h)"
proof -
  show one: "unit_point p \<Longrightarrow> list_all plain_text (point_text q p w h)" for p
    using point_text_round [OF assms, of p] plain_decimal by fastforce
  show "list_all unit_point ps \<Longrightarrow> plain_text (coordinateList q ps w h)"
    unfolding coordinateList_def by (rule plain_joined) (use one in \<open>auto simp: list_all_iff\<close>)
  show "list_all unit_point ps \<Longrightarrow> plain_text (pointPairs q ps w h)"
    unfolding pointPairs_def by (rule plain_joined) (use one in \<open>auto simp: list_all_iff intro!: plain_joined\<close>)
qed

lemma bounds_unit:
  assumes "geometry_ok a"
  shows "unit_interval (nb_x0 (normalizedBoundsOf a)) \<and> unit_interval (nb_y0 (normalizedBoundsOf a))
    \<and> unit_interval (nb_x1 (normalizedBoundsOf a)) \<and> unit_interval (nb_y1 (normalizedBoundsOf a))"
proof -
  let ?x = "an_extras a"
  let ?b = "\<lparr>nb_x0 = an_x0 a, nb_y0 = an_y0 a, nb_x1 = an_x1 a, nb_y1 = an_y1 a\<rparr>"
  define ps where "ps = (if is_markup (an_subtype a) then concat (map quad_points (ax_quads ?x)) else if is_path (an_subtype a) then ax_points ?x
    else if an_subtype a = AT_Ink then concat (ax_inkPaths ?x) else [])"
  have units: "list_all unit_point ps" using assms by (auto simp: ps_def geometry_ok_def list_all_iff unit_quad_def)
  obtain b v where f: "foldl extendBounds (?b, False) ps = (b, v)" by fastforce
  have nb: "normalizedBoundsOf a = b" using f by (simp add: normalizedBoundsOf_def Let_def ps_def)
  show ?thesis
  proof (cases "ps = []")
    case True
    with f have "b = ?b" by simp
    with assms show ?thesis by (simp add: nb geometry_ok_def)
  next
    case False
    have "v"
    proof -
      have "snd (extendBounds s p)" for s p by (simp add: extendBounds_def split: prod.splits)
      then have "snd (foldl extendBounds s (p # ps'))" for s p ps' by (induction ps' arbitrary: s p) simp_all
      then show ?thesis using f False by (cases ps) (metis snd_conv)+
    qed
    then have "box_ok (nb_x0 b) (nb_y0 b) (nb_x1 b) (nb_y1 b)" using fold_box [OF units _ f] by simp
    then show ?thesis by (simp add: nb box_ok_def)
  qed
qed

lemma rect_numbers:
  assumes "qt_laws q" "page_size_ok w h" "geometry_ok a" "rect = normalizedRectToUserSpace q a w h"
  shows "number_ok (pt_x (qd_upperLeft rect))" "number_ok (pt_y (qd_lowerLeft rect))" "number_ok (pt_x (qd_lowerRight rect))" "number_ok (pt_y (qd_upperRight rect))"
  using user_numbers [OF assms(1,2)] bounds_unit [OF assms(3)] by (auto simp: assms(4) normalizedRectToUserSpace_def Let_def)

lemma opacity_decimal: "qt_laws q \<Longrightarrow> decimal_text (opacityAttribute q argb)"
proof -
  assume q: "qt_laws q"
  define n where "n = unat (drop_bit 24 argb)"
  have "unat argb < 256 * 2 ^ 24" using unat_word32_lt [of argb] by simp
  then have "n \<le> 255" using less_mult_imp_div_less [of "unat argb" 256 "2 ^ 24"] by (simp add: n_def unat_drop_bit)
  then have unit: "0 \<le> real n / 255" "real n / 255 \<le> 1" by auto
  then have big: "\<bar>real n / 255\<bar> \<le> 10 ^ 12" by simp
  have rnd: "rounding_near (qt_rnd q)" using q by (simp add: qt_laws_def)
  from rnd_near [OF rnd big] obtain u where u: "qt_rnd q (real n / 255) = Fin u" "\<bar>u - real n / 255\<bar> \<le> (\<bar>real n / 255\<bar> + 1) / 2 ^ 50" by blast
  have "(\<bar>real n / 255\<bar> + 1) / 2 ^ 50 \<le> 1" using unit by simp
  then have "\<bar>u\<bar> \<le> 2" using u(2) unit by linarith
  then have "number_ok (Fin u)" by (simp add: number_ok_def)
  then show ?thesis using number_round(2) [OF q] u(1) by (simp add: opacityAttribute_def n_def)
qed

lemma color_plain: "plain_text (colorAttribute argb)"
proof -
  have hex: "n < 256 \<Longrightarrow> plain_text (hex2 n)" for n by (auto simp: hex2_def hex_digit_def)
  have "unat (w AND 0xff) < 256" for w :: u32 by (simp add: unat_and_ff)
  then show ?thesis using hex by (simp add: colorAttribute_def qs_def)
qed

lemma flags_plain: "plain_text (joined comma (flag_list flags))"
proof (rule plain_joined)
  have "list_all (\<lambda>(f, n). plain_text (qs n)) flag_names" by (simp add: flag_names_def qs_def)
  then show "list_all plain_text (flag_list flags)" by (auto simp: flag_list_def list_all_iff)
qed simp

lemma date_plain: "time_ok q t \<Longrightarrow> plain_text (xfdfDate q t)"
  by (auto simp: xfdfDate_def time_ok_def date_law_def qs_def intro!: plain_digits)

lemma names_plain: "plain_text (qs (intentName i))" "plain_text (qs (lineEndingName e))"
  by (cases i; simp add: qs_def) (cases e; simp add: qs_def)

lemma intent_plain: "plain_text (qs (intent_field a))"
  using names_plain by (auto simp: intent_field_def text_intent_def qs_def split: option.splits)

lemma width_plain: "qt_laws q \<Longrightarrow> style_ok q (ax_style (an_extras a)) \<Longrightarrow> plain_text (width_field q a)"
  by (auto simp: width_field_def style_ok_def split: option.splits intro!: plain_decimal number_round)

lemma text_field_value:
  assumes "text_ok q s"
  shows "clean_text (text_field q s) \<and> 60 \<notin> set (text_field q s) \<and> 34 \<notin> set (text_field q s)"
    "xml_value (text_field q s) = (if s = [] then [] else qt_fromStdString q s)"
proof -
  show "xml_value (text_field q s) = (if s = [] then [] else qt_fromStdString q s)"
    using assms xml_value_escaped clean_body by (auto simp: text_ok_def text_field_def)
  have "32 \<le> c" if "c \<in> set (text_field q s)" for c
    using assms escape_marks [of c "qt_fromStdString q s"] that by (auto simp: text_ok_def text_field_def clean_text_def list_all_iff split: if_splits)
  then show "clean_text (text_field q s) \<and> 60 \<notin> set (text_field q s) \<and> 34 \<notin> set (text_field q s)"
    using escape_marks [of 60 "qt_fromStdString q s"] escape_marks [of 34 "qt_fromStdString q s"]
    by (auto simp: text_field_def clean_text_def list_all_iff split: if_splits)
qed

text \<open>All of them at once: every field but the three texts is plain.\<close>

lemma fields_plain:
  assumes q: "qt_laws q" and page: "page_size_ok (xp_widthPoints page) (xp_heightPoints page)" and a: "annotation_writable q a" and i: "int i \<le> INT_MAX"
    and line: "an_subtype a = AT_Line \<Longrightarrow> ax_points (an_extras a) \<noteq> []"
  shows "list_all (\<lambda>(n, v). n \<in> {''title'', ''name'', ''icon''} \<or> plain_text v) (annotation_fields q a i page)"
proof -
  have ok: "style_ok q (ax_style (an_extras a))" "geometry_ok a" "time_ok q (an_creationDate a)" "time_ok q (last_change a)"
    using a by (simp_all add: annotation_writable_def last_change_def)
  have num: "plain_text (qt_number q (int i))" using q i by (auto simp: qt_laws_def integer_laws_def intro!: plain_digits)
  have rect: "plain_text (rect_texts q a page)"
    unfolding rect_texts_def rectAttribute_def
    by (rule plain_joined) (use number_round(2) [OF q] rect_numbers [OF q page ok(2) refl] plain_decimal in auto)
  have coords: "plain_text (coordinateList q (ax_callout (an_extras a)) (xp_widthPoints page) (xp_heightPoints page))"
      "plain_text (coordinateList q (concat (map xfdf_quad (ax_quads (an_extras a)))) (xp_widthPoints page) (xp_heightPoints page))"
    by (rule plain_points(2) [OF q page], use ok(2) in \<open>auto simp: geometry_ok_def list_all_iff unit_quad_def quad_points_def xfdf_quad_def\<close>)+
  have point: "plain_text (point_field q a page p)" if "p \<in> set (ax_points (an_extras a))" for p
    using plain_points(1) [OF q page, of p] that ok(2) by (auto simp: point_field_def geometry_ok_def list_all_iff intro!: plain_joined)
  have ends: "plain_text (point_field q a page (hd (ax_points (an_extras a))))" "plain_text (point_field q a page (last (ax_points (an_extras a))))"
    using point [of "hd (ax_points (an_extras a))"] point [of "last (ax_points (an_extras a))"] line by (cases "an_subtype a = AT_Line"; simp add: point_field_def)+
  have endings: "plain_text (ending_field a e)" for e using names_plain(2) by (auto simp: ending_field_def split: option.splits)
  have opacity: "plain_text (opacityAttribute q c)" for c using opacity_decimal [OF q] plain_decimal by blast
  have symbol: "plain_text (qs ''P'')" by (simp add: qs_def)
  show ?thesis
    unfolding annotation_fields_def Let_def
    using num rect color_plain opacity date_plain [OF ok(3)] date_plain [OF ok(4)] flags_plain coords width_plain [OF q ok(1)] intent_plain ends endings symbol
    by (simp del: mark_values)
qed

section \<open>Reading an annotation\<close>

lemma attr_present:
  "distinct (map fst fs) \<Longrightarrow> attr (map (\<lambda>(n, v). (qs n, xml_value v)) (present fs)) m = (case map_of fs m of Some v \<Rightarrow> xml_value v | None \<Rightarrow> [])"
proof (induction fs)
  case (Cons f fs)
  obtain n v where f: "f = (n, v)" by fastforce
  have "map_of fs n = None" using Cons(2) by (auto simp: f map_of_eq_None_iff)
  then show ?case using Cons f by (auto simp: present_def attr_def)
qed (simp add: present_def attr_def)

definition from_text :: "QtCalls \<Rightarrow> string \<Rightarrow> QString" where
  "from_text q s = (if s = [] then [] else qt_fromStdString q s)"

definition font_value :: "QtCalls \<Rightarrow> Annotation \<Rightarrow> QString" where
  "font_value q a =
     (case as_appearance (ax_style (an_extras a)) of None \<Rightarrow> []
      | Some ap \<Rightarrow> if is_text (an_subtype a) \<and> aa_fontName ap \<noteq> []
          then qs ''0 0 0 rg '' @ pdfName q (aa_fontName ap) @ qs '' '' @ formatNumber q (aa_fontSize ap) @ qs '' Tf'' else [])"

text \<open>What the reader collects for an annotation, first from its attributes and then from its children.\<close>

definition attribute_part :: "QtCalls \<Rightarrow> Annotation \<Rightarrow> nat \<Rightarrow> XfdfPage \<Rightarrow> XEntry" where
  "attribute_part q a i page =
     (let v = (\<lambda>n. the (map_of (annotation_fields q a i page) n)) in
      \<lparr>xe_page = int i, xe_rect = v ''rect'', xe_color = v ''color'', xe_opacity = v ''opacity'', xe_title = from_text q (an_author a),
       xe_name = from_text q (an_uuid a), xe_creationDate = v ''creationdate'', xe_date = v ''date'', xe_flags = v ''flags'', xe_contents = [],
       xe_defaultAppearance = [], xe_vertices = [], xe_coords = v ''coords'', xe_icon = from_text q (icon_field a), xe_intent = v ''intent'',
       xe_width = v ''width'', xe_start = v ''start'', xe_end = v ''end'', xe_head = v ''head'', xe_tail = v ''tail'', xe_symbol = v ''symbol'',
       xe_callout = v ''callout'', xe_inkGestures = [], xe_inkPathLimitExceeded = False\<rparr>)"

definition entry_of :: "QtCalls \<Rightarrow> Annotation \<Rightarrow> nat \<Rightarrow> XfdfPage \<Rightarrow> XEntry" where
  "entry_of q a i page =
     (let w = xp_widthPoints page; h = xp_heightPoints page in
      (attribute_part q a i page)\<lparr>xe_contents := from_text q (an_contents a), xe_defaultAppearance := font_value q a,
        xe_vertices := (if is_polygon (an_subtype a) then pointPairs q (ax_points (an_extras a)) w h else []),
        xe_inkGestures := (if an_subtype a = AT_Ink then map (\<lambda>path. pointPairs q path w h) (ax_inkPaths (an_extras a)) else [])\<rparr>)"

lemma attribute_entry_present:
  assumes q: "qt_laws q" and page: "page_size_ok (xp_widthPoints page) (xp_heightPoints page)" and a: "annotation_writable q a" and i: "int i \<le> INT_MAX"
    and line: "an_subtype a = AT_Line \<Longrightarrow> ax_points (an_extras a) \<noteq> []"
  shows "attribute_entry q (map (\<lambda>(n, v). (qs n, xml_value v)) (present (annotation_fields q a i page))) = attribute_part q a i page"
proof -
  let ?fs = "annotation_fields q a i page"
  let ?v = "\<lambda>n. the (map_of ?fs n)"
  have names: "map fst ?fs = [''page'', ''rect'', ''color'', ''opacity'', ''title'', ''name'', ''creationdate'', ''date'', ''flags'', ''callout'',
      ''icon'', ''width'', ''intent'', ''start'', ''end'', ''tail'', ''head'', ''coords'', ''symbol'']"
    by (simp add: annotation_fields_def Let_def)
  have dist: "distinct (map fst ?fs)" by (simp only: names) simp
  have here: "n \<in> set (map fst ?fs) \<Longrightarrow> attr (map (\<lambda>(n, v). (qs n, xml_value v)) (present ?fs)) n = xml_value (?v n)" for n
    unfolding attr_present [OF dist] by (cases "map_of ?fs n") (auto simp: map_of_eq_None_iff)
  have plain: "n \<in> set (map fst ?fs) - {''title'', ''name'', ''icon''} \<Longrightarrow> xml_value (?v n) = ?v n" for n
  proof -
    assume n: "n \<in> set (map fst ?fs) - {''title'', ''name'', ''icon''}"
    then obtain v where v: "map_of ?fs n = Some v" by (cases "map_of ?fs n") (auto simp: map_of_eq_None_iff)
    then have "(n, v) \<in> set ?fs" by (rule map_of_SomeD)
    then show ?thesis using fields_plain [OF q page a i line] n v plain_value by (auto simp: list_all_iff)
  qed
  have icon: "text_ok q (icon_field a)"
    using a by (auto simp: annotation_writable_def style_ok_def icon_field_def text_ok_def split: option.splits)
  have texts: "text_ok q (an_author a)" "text_ok q (an_uuid a)" using a by (simp_all add: annotation_writable_def)
  have special: "?v ''page'' = qt_number q (int i)" "?v ''title'' = text_field q (an_author a)" "?v ''name'' = text_field q (an_uuid a)" "?v ''icon'' = text_field q (icon_field a)"
    by (simp_all add: annotation_fields_def Let_def)
  have num: "parsePage q (qt_number q (int i)) = int i" using q i by (simp add: qt_laws_def integer_laws_def parsePage_def)
  have "xml_value (qt_number q (int i)) = qt_number q (int i)" using plain [of "''page''"] special(1) by (simp add: names)
  then show ?thesis
    unfolding attribute_entry_def attribute_part_def Let_def
    using here plain special num text_field_value(2) [OF texts(1)] text_field_value(2) [OF texts(2)] text_field_value(2) [OF icon]
    by (simp add: names from_text_def)
qed

lemma readElementText_child: "readElementText 0 [] (tokens_of ((if raw = [] then [] else [MK_Text raw]) @ [MK_End name]) @ ts) = (xml_value raw, ts, None)"
  by simp

lemma entry_loop_child:
  "child_entry (qs name) (xml_value raw) entry = Some entry' \<Longrightarrow> entry_loop entry (tokens_of (child name raw) @ ts) = entry_loop entry' ts"
  using readElementText_child [of raw name ts] by (simp add: child_def read_child_def)

lemma gesture_loop:
  "length (xe_inkGestures entry) + length raws \<le> MaxAnnotationInkPaths \<Longrightarrow>
     parseInkList entry (tokens_of (concat (map (child ''gesture'') raws)) @ XT_End (qs ''inklist'') # ts)
       = (entry\<lparr>xe_inkGestures := xe_inkGestures entry @ map xml_value raws\<rparr>, ts, None)"
proof (induction raws arbitrary: entry)
  case (Cons raw raws)
  have "parseInkList entry (tokens_of (child ''gesture'' raw) @ us) = parseInkList (entry\<lparr>xe_inkGestures := xe_inkGestures entry @ [xml_value raw]\<rparr>) us" for us
    using Cons(2) readElementText_child [of raw "''gesture''" us] by (simp add: child_def Let_def)
  then show ?case using Cons(1) [of "entry\<lparr>xe_inkGestures := xe_inkGestures entry @ [xml_value raw]\<rparr>"] Cons(2) by simp
qed simp

lemma pdfName_text: "body_text (pdfName q v) \<and> 32 \<notin> set (pdfName q v) \<and> pdfName q v \<noteq> []"
proof -
  have "list_all (\<lambda>c. 33 \<le> c \<and> c \<le> 126) (pdfName_byte b)" if b: "b < 256" for b
  proof (cases "needsEscape b")
    case True
    have "b div 16 < 16" "b mod 16 < 16" using b by auto
    then show ?thesis using True upper_hex_digit_value [of "b div 16"] upper_hex_digit_value [of "b mod 16"]
      by (auto simp: pdfName_byte_def is_hex_def)
  next
    case False
    then show ?thesis by (auto simp: pdfName_byte_def needsEscape_def)
  qed
  then have byte: "33 \<le> c" if "c \<in> set (pdfName_byte b)" "b < 256" for b c using that by (auto simp: list_all_iff)
  have small: "(of_char ch :: nat) < 256" for ch by simp
  have "33 \<le> c" if c: "c \<in> set (pdfName q v)" for c
  proof -
    have "c = 47 \<or> (\<exists>ch. c \<in> set (pdfName_byte (of_char ch)))" using c unfolding pdfName_def by (auto simp del: of_char_def)
    then show ?thesis using byte small by auto
  qed
  then show ?thesis by (fastforce simp: body_text_def list_all_iff pdfName_def)
qed

lemma font_text_value:
  assumes "qt_laws q" "number_ok (aa_fontSize ap)"
  shows "xml_value (font_text q ap) = qs ''0 0 0 rg '' @ pdfName q (aa_fontName ap) @ qs '' '' @ formatNumber q (aa_fontSize ap) @ qs '' Tf''"
proof -
  have "plain_text (formatNumber q (aa_fontSize ap))" using number_round(2) [OF assms] by (rule plain_decimal)
  then have "plain_text (qs '' '' @ formatNumber q (aa_fontSize ap) @ qs '' Tf'')" by (simp add: qs_def)
  then have "xml_value (qs '' '' @ formatNumber q (aa_fontSize ap) @ qs '' Tf'') = qs '' '' @ formatNumber q (aa_fontSize ap) @ qs '' Tf''" by (rule plain_value)
  moreover have "38 \<notin> set (qs ''0 0 0 rg '')" by (simp add: qs_def)
  ultimately show ?thesis using pdfName_text [of q "aa_fontName ap"] by (simp add: font_text_def xml_value_plain xml_value_escape)
qed

lemma entry_same:
  "xe_contents e = [] \<Longrightarrow> e\<lparr>xe_contents := []\<rparr> = e" "xe_defaultAppearance e = [] \<Longrightarrow> e\<lparr>xe_defaultAppearance := []\<rparr> = e"
  "xe_vertices e = [] \<Longrightarrow> e\<lparr>xe_vertices := []\<rparr> = e" "xe_inkGestures e = [] \<Longrightarrow> e\<lparr>xe_inkGestures := []\<rparr> = (e :: XEntry)"
  by (cases e; simp)+

lemma contents_loop:
  assumes "contents_ok q (an_contents a)" "xe_contents entry = []"
  shows "entry_loop entry (tokens_of (contents_markup q a) @ ts) = entry_loop (entry\<lparr>xe_contents := from_text q (an_contents a)\<rparr>) ts"
proof (cases "an_contents a = []")
  case True
  then show ?thesis using assms(2) by (simp add: contents_markup_def from_text_def entry_same)
next
  case False
  then have "xml_value (escapeXml (qt_fromStdString q (an_contents a))) = qt_fromStdString q (an_contents a)"
    using assms(1) xml_value_escaped by (simp add: contents_ok_def)
  then show ?thesis using False entry_loop_child [of "''contents''" "escapeXml (qt_fromStdString q (an_contents a))" entry] 
    by (simp add: contents_markup_def from_text_def child_entry_def)
qed

lemma font_loop:
  assumes "qt_laws q" "style_ok q (ax_style (an_extras a))" "is_text (an_subtype a)" "xe_defaultAppearance entry = []"
  shows "entry_loop entry (tokens_of (font_markup q a) @ ts) = entry_loop (entry\<lparr>xe_defaultAppearance := font_value q a\<rparr>) ts"
proof (cases "as_appearance (ax_style (an_extras a))")
  case None
  then show ?thesis using assms(4) by (simp add: font_markup_def font_value_def entry_same)
next
  case (Some ap)
  then have "number_ok (aa_fontSize ap)" using assms(2) by (simp add: style_ok_def)
  then show ?thesis
    using Some assms(3,4) font_text_value [OF assms(1), of ap] entry_loop_child [of "''defaultappearance''" "font_text q ap" entry]
    by (simp add: font_markup_def font_value_def child_entry_def entry_same)
qed

lemma ink_loop_markup:
  assumes "qt_laws q" "page_size_ok (xp_widthPoints page) (xp_heightPoints page)" "geometry_ok a" "xe_inkGestures entry = []"
  shows "entry_loop entry (tokens_of (ink_markup q a page) @ ts) =
    entry_loop (entry\<lparr>xe_inkGestures := map (\<lambda>path. pointPairs q path (xp_widthPoints page) (xp_heightPoints page)) (ax_inkPaths (an_extras a))\<rparr>) ts"
proof (cases "ax_inkPaths (an_extras a) = []")
  case True
  then show ?thesis using assms(4) by (simp add: ink_markup_def entry_same)
next
  case False
  let ?raws = "map (\<lambda>path. pointPairs q path (xp_widthPoints page) (xp_heightPoints page)) (ax_inkPaths (an_extras a))"
  have "list_all plain_text ?raws" using assms(3) plain_points(3) [OF assms(1,2)] by (auto simp: list_all_iff geometry_ok_def)
  then have "map xml_value ?raws = ?raws" by (auto simp: list_all_iff plain_value intro!: map_idI)
  moreover have "length (xe_inkGestures entry) + length ?raws \<le> MaxAnnotationInkPaths" using assms(3,4) by (simp add: geometry_ok_def)
  ultimately have "parseInkList entry (tokens_of (concat (map (child ''gesture'') ?raws)) @ XT_End (qs ''inklist'') # ts) = (entry\<lparr>xe_inkGestures := ?raws\<rparr>, ts, None)"
    using gesture_loop [of entry ?raws ts] assms(4) by simp
  moreover obtain text0 rest0 e0 where "readElementText 0 [] (tokens_of (concat (map (child ''gesture'') ?raws)) @ XT_End (qs ''inklist'') # ts) = (text0, rest0, e0)"
    by (metis prod_cases3)
  ultimately show ?thesis using False by (simp add: ink_markup_def read_child_def child_entry_def comp_def)
qed

lemma children_loop:
  assumes q: "qt_laws q" and page: "page_size_ok (xp_widthPoints page) (xp_heightPoints page)" and a: "annotation_writable q a"
  shows "entry_loop (attribute_part q a i page) (tokens_of (children_markup q a page) @ XT_End name # ts) = (entry_of q a i page, ts, None)"
proof -
  have ok: "contents_ok q (an_contents a)" "style_ok q (ax_style (an_extras a))" "geometry_ok a" using a by (simp_all add: annotation_writable_def)
  have empty: "xe_contents (attribute_part q a i page) = []" "xe_defaultAppearance (attribute_part q a i page) = []" "xe_vertices (attribute_part q a i page) = []"
      "xe_inkGestures (attribute_part q a i page) = []"
    by (simp_all add: attribute_part_def Let_def)
  have vertices: "plain_text (pointPairs q (ax_points (an_extras a)) (xp_widthPoints page) (xp_heightPoints page))"
    using plain_points(3) [OF q page] ok(3) by (simp add: geometry_ok_def)
  have vloop: "entry_loop e (tokens_of (child ''vertices'' (pointPairs q (ax_points (an_extras a)) (xp_widthPoints page) (xp_heightPoints page))) @ us) =
      entry_loop (e\<lparr>xe_vertices := pointPairs q (ax_points (an_extras a)) (xp_widthPoints page) (xp_heightPoints page)\<rparr>) us" for e us
    by (rule entry_loop_child) (simp add: child_entry_def plain_value [OF vertices])
  have font: "\<not> is_text (an_subtype a) \<Longrightarrow> font_value q a = []" by (simp add: font_value_def split: option.splits)
  have excl: "is_text t \<Longrightarrow> \<not> is_polygon t \<and> t \<noteq> AT_Ink" "is_polygon t \<Longrightarrow> t \<noteq> AT_Ink" for t by (auto simp: is_text_def is_polygon_def)
  consider "is_text (an_subtype a)" | "is_polygon (an_subtype a)" "\<not> is_text (an_subtype a)" | "an_subtype a = AT_Ink" "\<not> is_text (an_subtype a)" "\<not> is_polygon (an_subtype a)"
    | "\<not> is_text (an_subtype a)" "\<not> is_polygon (an_subtype a)" "an_subtype a \<noteq> AT_Ink"
    by blast
  then show ?thesis
  proof cases
    case 1
    with excl(1) [OF 1] show ?thesis
      by (simp add: children_markup_def contents_loop [OF ok(1)] font_loop [OF q ok(2)] empty entry_of_def Let_def entry_same)
  next
    case 2
    with excl(2) [OF 2(1)] show ?thesis by (simp add: children_markup_def contents_loop [OF ok(1)] vloop empty entry_of_def Let_def font entry_same)
  next
    case 3
    then show ?thesis by (simp add: children_markup_def contents_loop [OF ok(1)] ink_loop_markup [OF q page ok(3)] empty entry_of_def Let_def font entry_same)
  next
    case 4
    then show ?thesis by (simp add: children_markup_def contents_loop [OF ok(1)] empty entry_of_def Let_def font entry_same)
  qed
qed

end
