(* ===== verification/Xfdf_Round_Trip.thy ===== *)
theory Xfdf_Round_Trip
  imports Xfdf_Markup
begin

text \<open>
  The document that \<open>annotationsToXfdf\<close> writes, read by \<open>xfdfToAnnotations\<close>: each annotation is finalized as \<open>carried\<close> says, page by page and in
  order, with no warning and nothing skipped.
\<close>

section \<open>The fields of a collected entry\<close>

lemma entry_of_fields [simp]:
  "xe_page (entry_of q a i page) = int i" "xe_title (entry_of q a i page) = from_text q (an_author a)"
  "xe_name (entry_of q a i page) = from_text q (an_uuid a)" "xe_contents (entry_of q a i page) = from_text q (an_contents a)"
  "xe_rect (entry_of q a i page) = rect_texts q a page" "xe_color (entry_of q a i page) = colorAttribute (an_color a)"
  "xe_opacity (entry_of q a i page) = opacityAttribute q (an_color a)" "xe_creationDate (entry_of q a i page) = xfdfDate q (an_creationDate a)"
  "xe_date (entry_of q a i page) = xfdfDate q (last_change a)" "xe_flags (entry_of q a i page) = joined comma (flag_list (an_flags a))"
  "xe_icon (entry_of q a i page) = from_text q (icon_field a)" "xe_width (entry_of q a i page) = width_field q a"
  "xe_intent (entry_of q a i page) = qs (intent_field a)"
  "xe_start (entry_of q a i page) = point_field q a page (hd (ax_points (an_extras a)))"
  "xe_end (entry_of q a i page) = point_field q a page (last (ax_points (an_extras a)))"
  "xe_tail (entry_of q a i page) = ending_field a (as_firstLineEnding (ax_style (an_extras a)))"
  "xe_head (entry_of q a i page) = ending_field a (as_lastLineEnding (ax_style (an_extras a)))"
  "xe_defaultAppearance (entry_of q a i page) = font_value q a" "\<not> xe_inkPathLimitExceeded (entry_of q a i page)"
  by (simp_all add: entry_of_def attribute_part_def annotation_fields_def Let_def)

lemma entry_of_geometry:
  "xe_callout (entry_of q a i page) = (if hasCallout a then coordinateList q (ax_callout (an_extras a)) (xp_widthPoints page) (xp_heightPoints page) else [])"
  "xe_coords (entry_of q a i page) =
    (if is_markup (an_subtype a) then coordinateList q (concat (map xfdf_quad (ax_quads (an_extras a)))) (xp_widthPoints page) (xp_heightPoints page) else [])"
  "xe_symbol (entry_of q a i page) = (if an_subtype a = AT_Caret \<and> ax_caretSymbolP (an_extras a) then qs ''P'' else [])"
  "xe_vertices (entry_of q a i page) =
    (if is_polygon (an_subtype a) then pointPairs q (ax_points (an_extras a)) (xp_widthPoints page) (xp_heightPoints page) else [])"
  "xe_inkGestures (entry_of q a i page) =
    (if an_subtype a = AT_Ink then map (\<lambda>path. pointPairs q path (xp_widthPoints page) (xp_heightPoints page)) (ax_inkPaths (an_extras a)) else [])"
  by (simp_all add: entry_of_def attribute_part_def annotation_fields_def Let_def)

lemma from_text_back: "qt_laws q \<Longrightarrow> s = [] \<or> qt_toStdString q (qt_fromStdString q s) = s \<Longrightarrow> qt_toStdString q (from_text q s) = s"
  by (auto simp: from_text_def qt_laws_def char_laws_def)

lemma from_text_empty: "qt_laws q \<Longrightarrow> text_ok q s \<Longrightarrow> from_text q s = [] \<longleftrightarrow> s = []"
  using from_nonempty by (auto simp: from_text_def text_ok_def)

section \<open>Styles\<close>

lemma width_read:
  assumes q: "qt_laws q" and style: "style_ok q (ax_style (an_extras a))"
  shows "(case parseNumber q (width_field q a) of None \<Rightarrow> no_style
      | Some border \<Rightarrow> if fp_le (Fin 0) border then no_style\<lparr>as_borderWidth := Some border\<rparr> else no_style)
    = no_style\<lparr>as_borderWidth := (if has_width (an_subtype a) then map_option (through q) (as_borderWidth (ax_style (an_extras a))) else None)\<rparr>"
proof (cases "has_width (an_subtype a) \<and> as_borderWidth (ax_style (an_extras a)) \<noteq> None")
  case True
  then obtain w where w: "as_borderWidth (ax_style (an_extras a)) = Some w" "has_width (an_subtype a)" by auto
  then have ok: "number_ok w" "fp_le (Fin 0) w" using style by (simp_all add: style_ok_def)
  then obtain r where r: "w = Fin r" "\<bar>r\<bar> \<le> 10 ^ 11" "0 \<le> r" by (auto simp: number_ok_def)
  then have "fp_le (Fin 0) (through q w)" using through_value [OF q r(2)] by auto
  then show ?thesis using w number_round(1) [OF q ok(1)] by (simp add: width_field_def)
next
  case False
  have "parseNumber q [] = None" using q by (simp add: parseNumber_def qt_laws_def toDouble_law_def)
  then show ?thesis using False by (auto simp: width_field_def no_style_def split: option.splits)
qed

lemma entry_style_read:
  assumes "qt_laws q" "style_ok q (ax_style (an_extras a))"
  shows "entry_style q (entry_of q a i page) =
    no_style\<lparr>as_borderWidth := (if has_width (an_subtype a) then map_option (through q) (as_borderWidth (ax_style (an_extras a))) else None),
      as_intent := parseIntent (qs (intent_field a))\<rparr>"
  using width_read [OF assms] by (simp add: entry_style_def Let_def no_style_def split: option.splits)

lemma intent_read: "parseIntent (qs (intent_field a)) = carried_intent a"
proof -
  have none: "parseIntent [] = None" using intent_round [of AI_Default] by simp
  have callout: "parseIntent (qs ''FreeTextCallout'') = Some AI_FreeTextCallout" using intent_round [of AI_FreeTextCallout] by simp
  have has: "hasCallout a \<Longrightarrow> is_text (an_subtype a)" by (simp add: hasCallout_def is_text_def)
  show ?thesis
    using none callout has intent_round
    by (auto simp: intent_field_def carried_intent_def text_intent_def hasCallout_def is_text_def is_path_def split: option.splits)
qed

lemma font_words:
  assumes q: "qt_laws q" and sz: "number_ok (aa_fontSize ap)" and tx: "is_text (an_subtype a)"
    and ap: "as_appearance (ax_style (an_extras a)) = Some ap" "aa_fontName ap \<noteq> []"
  shows "filter (\<lambda>w. w \<noteq> []) (split_on 32 (font_value q a)) =
    [qs ''0'', qs ''0'', qs ''0'', qs ''rg'', pdfName q (aa_fontName ap), formatNumber q (aa_fontSize ap), qs ''Tf'']"
proof -
  let ?ws = "[qs ''0'', qs ''0'', qs ''0'', qs ''rg'', pdfName q (aa_fontName ap), formatNumber q (aa_fontSize ap), qs ''Tf'']"
  have num: "32 \<notin> set (formatNumber q (aa_fontSize ap))" using decimal_text_notin [OF number_round(2) [OF q sz]] by simp
  have name: "32 \<notin> set (pdfName q (aa_fontName ap))" "pdfName q (aa_fontName ap) \<noteq> []" using pdfName_text by blast+
  have "font_value q a = joined 32 ?ws" using tx ap by (simp add: font_value_def qs_def)
  moreover have "list_all (\<lambda>t. 32 \<notin> set t) ?ws" using num name by (simp add: qs_def)
  ultimately have "split_on 32 (font_value q a) = ?ws" using split_joined [of ?ws 32] by simp
  then show ?thesis using name by simp
qed

lemma font_read:
  assumes q: "qt_laws q" and style: "style_ok q (ax_style (an_extras a))" and tx: "is_text (an_subtype a)"
    and ap: "as_appearance (ax_style (an_extras a)) = Some ap" "aa_fontName ap \<noteq> []"
  shows "applyDefaultAppearance q (font_value q a) st =
    st\<lparr>as_appearance := Some ((ensureAppearance st)\<lparr>aa_fontName := aa_fontName ap, aa_fontSize := through q (aa_fontSize ap)\<rparr>)\<rparr>"
proof -
  have ok: "number_ok (aa_fontSize ap)" "text_ok q (aa_fontName ap)" using style ap(1) by (simp_all add: style_ok_def)
  have again: "qt_toStdString q (qt_fromStdString q (aa_fontName ap)) = aa_fontName ap" using ok(2) ap(2) by (simp add: text_ok_def)
  show ?thesis
    unfolding applyDefaultAppearance_def font_words [OF q ok(1) tx ap] Let_def
    using number_round(1) [OF q ok(1)] pdfName_round [OF q again] again by simp
qed

lemma appearance_read:
  assumes q: "qt_laws q" and style: "style_ok q (ax_style (an_extras a))" and st: "as_appearance st = None"
  shows "is_text (an_subtype a) \<Longrightarrow> (let st1 = with_icon q (entry_of q a i page) st in
        if font_value q a = [] then st1 else applyDefaultAppearance q (font_value q a) st1) = st\<lparr>as_appearance := carried_appearance q a\<rparr>"
    "an_subtype a = AT_Stamp \<Longrightarrow> with_icon q (entry_of q a i page) st = st\<lparr>as_appearance := carried_appearance q a\<rparr>"
    "\<not> is_text (an_subtype a) \<Longrightarrow> an_subtype a \<noteq> AT_Stamp \<Longrightarrow> carried_appearance q a = None"
proof -
  have same: "st\<lparr>as_appearance := None\<rparr> = st" using st by (cases st) simp
  have icon: "text_ok q (icon_field a)" using style by (auto simp: style_ok_def icon_field_def text_ok_def split: option.splits)
  then have again: "qt_toStdString q (from_text q (icon_field a)) = icon_field a" using from_text_back [OF q] by (auto simp: text_ok_def)
  have icon_step: "with_icon q (entry_of q a i page) st =
      (if icon_field a = [] then st else st\<lparr>as_appearance := Some (no_appearance\<lparr>aa_icon := icon_field a\<rparr>)\<rparr>)"
    using from_text_empty [OF q icon] again st by (simp add: with_icon_def ensureAppearance_def)
  have "qs s = [] \<longleftrightarrow> s = []" for s by simp
  have font: "font_value q a \<noteq> []" if "as_appearance (ax_style (an_extras a)) = Some ap" "is_text (an_subtype a)" "aa_fontName ap \<noteq> []" for ap
    using that by (simp add: font_value_def)
  have empty_icon: "no_appearance\<lparr>aa_icon := []\<rparr> = no_appearance" by (simp add: no_appearance_def)
  show "(let st1 = with_icon q (entry_of q a i page) st in
        if font_value q a = [] then st1 else applyDefaultAppearance q (font_value q a) st1) = st\<lparr>as_appearance := carried_appearance q a\<rparr>"
    if tx: "is_text (an_subtype a)"
  proof (cases "as_appearance (ax_style (an_extras a))")
    case None
    then show ?thesis using icon_step same by (simp add: icon_field_def font_value_def carried_appearance_def)
  next
    case (Some ap)
    show ?thesis
    proof (cases "aa_fontName ap = []")
      case True
      then show ?thesis using Some tx icon_step same by (simp add: icon_field_def font_value_def carried_appearance_def)
    next
      case False
      then show ?thesis using Some tx icon_step st font [OF Some tx False] font_read [OF q style tx Some False] empty_icon
        by (simp add: icon_field_def carried_appearance_def ensureAppearance_def)
    qed
  qed
  show "with_icon q (entry_of q a i page) st = st\<lparr>as_appearance := carried_appearance q a\<rparr>" if stamp: "an_subtype a = AT_Stamp"
    using stamp icon_step same by (simp add: icon_field_def carried_appearance_def is_text_def split: option.splits)
  show "carried_appearance q a = None" if "\<not> is_text (an_subtype a)" "an_subtype a \<noteq> AT_Stamp"
    using that by (simp add: carried_appearance_def split: option.splits)
qed

section \<open>Geometry\<close>

lemma ink_loop_round:
  assumes "qt_laws q" "page_size_ok w h"
  shows "list_all (list_all unit_point) paths \<Longrightarrow> sum_list (map length paths) \<le> remaining \<Longrightarrow>
    ink_loop q w h remaining (map (\<lambda>path. pointPairs q path w h) paths) = (Complete, filter (\<lambda>path. path \<noteq> []) (map (map (reread q w h)) paths))"
proof (induction paths arbitrary: remaining)
  case (Cons path paths)
  then have "parsePointPairs q (pointPairs q path w h) w h remaining = (Complete, map (reread q w h) path)"
    by (intro pointPairs_round [OF assms]) simp_all
  then show ?case using Cons(1) [of "remaining - length path"] Cons(2,3) by (cases "path = []") simp_all
qed simp

lemma text_geometry_read:
  assumes q: "qt_laws q" and page: "page_size_ok (xp_widthPoints page) (xp_heightPoints page)" and a: "annotation_writable q a" and tx: "is_text (an_subtype a)"
  shows "text_geometry q (entry_of q a i page) (xp_widthPoints page) (xp_heightPoints page) (no_extras\<lparr>ax_style := entry_style q (entry_of q a i page)\<rparr>)
    = Inr (carried_extras q page a)"
proof -
  have style: "style_ok q (ax_style (an_extras a))" using a by (simp add: annotation_writable_def)
  have ap: "(let st1 = with_icon q (entry_of q a i page) (entry_style q (entry_of q a i page)) in
        if font_value q a = [] then st1 else applyDefaultAppearance q (font_value q a) st1) = (entry_style q (entry_of q a i page))\<lparr>as_appearance := carried_appearance q a\<rparr>"
    by (rule appearance_read(1) [OF q style _ tx]) (simp add: entry_style_read [OF q style] no_style_def)
  have shape: "\<not> has_width (an_subtype a)" "an_subtype a \<noteq> AT_Line" "\<not> is_polygon (an_subtype a)" "\<not> is_markup (an_subtype a)" "an_subtype a \<noteq> AT_Ink" "an_subtype a \<noteq> AT_Caret"
    using tx by (auto simp: is_text_def has_width_def is_path_def is_polygon_def is_markup_def)
  have st: "(entry_style q (entry_of q a i page))\<lparr>as_appearance := carried_appearance q a\<rparr> = carried_style q a"
    using shape by (simp add: entry_style_read [OF q style] carried_style_def intent_read no_style_def)
  have bl: "blank q []" by (simp add: blank_def)
  show ?thesis
  proof (cases "hasCallout a")
    case False
    then show ?thesis using ap st bl shape
      by (simp add: text_geometry_def Let_def entry_of_geometry carried_extras_def no_extras_def split: if_splits)
  next
    case True
    then have "list_all unit_point (ax_callout (an_extras a))" "length (ax_callout (an_extras a)) \<in> {2..MaxAnnotationCalloutPoints}"
      using a by (simp_all add: annotation_writable_def geometry_ok_def)
    note co = callout_round [OF q page this]
    have "as_intent (carried_style q a) = Some AI_FreeTextCallout" using True by (simp add: carried_style_def carried_intent_def Let_def)
    then show ?thesis using True ap st shape co
      by (simp add: text_geometry_def Let_def entry_of_geometry carried_extras_def no_extras_def split: if_splits)
  qed
qed

lemma line_geometry_read:
  assumes q: "qt_laws q" and page: "page_size_ok (xp_widthPoints page) (xp_heightPoints page)" and a: "annotation_writable q a"
    and line: "an_subtype a = AT_Line" "ax_points (an_extras a) \<noteq> []"
  shows "line_geometry q (entry_of q a i page) (xp_widthPoints page) (xp_heightPoints page) (no_extras\<lparr>ax_style := entry_style q (entry_of q a i page)\<rparr>)
    = Inr (carried_extras q page a)"
proof -
  let ?w = "xp_widthPoints page" and ?h = "xp_heightPoints page"
  have style: "style_ok q (ax_style (an_extras a))" using a by (simp add: annotation_writable_def)
  have "list_all unit_point (ax_points (an_extras a))" using a by (simp add: annotation_writable_def geometry_ok_def)
  then have "unit_point (hd (ax_points (an_extras a)))" "unit_point (last (ax_points (an_extras a)))" using line(2) by (simp_all add: list_all_iff)
  note ends = parse_pair_round(1) [OF q page this(1)] parse_pair_round(1) [OF q page this(2)]
  have none: "parseLineEnding [] = None" by (simp add: parseLineEnding_def ending_names_def)
  have shape: "has_width (an_subtype a)" "\<not> is_text (an_subtype a)" "\<not> is_polygon (an_subtype a)" "\<not> is_markup (an_subtype a)" "\<not> hasCallout a"
    using line(1) by (simp_all add: is_text_def has_width_def is_path_def is_polygon_def is_markup_def hasCallout_def)
  have ending: "parseLineEnding (ending_field a e) = e" for e
    using line(1) none by (auto simp: ending_field_def lineEnding_round split: option.splits)
  then show ?thesis
    using line(1) ends shape appearance_read(3) [OF q style, of no_style]
    by (simp add: line_geometry_def Let_def parseSinglePoint_def point_field_def entry_style_read [OF q style] intent_read carried_extras_def carried_style_def
        no_style_def no_extras_def split: option.splits)
qed

lemma other_style:
  assumes "qt_laws q" "style_ok q (ax_style (an_extras a))" "\<not> is_text (an_subtype a)" "an_subtype a \<noteq> AT_Stamp" "an_subtype a \<noteq> AT_Line"
  shows "entry_style q (entry_of q a i page) = carried_style q a"
  using assms(3-) appearance_read(3) [OF assms(1,2), of no_style]
  by (simp add: entry_style_read [OF assms(1,2)] carried_style_def intent_read no_style_def)

lemma geometry_read:
  assumes q: "qt_laws q" and page: "page_size_ok (xp_widthPoints page) (xp_heightPoints page)" and a: "annotation_writable q a" and ex: "exported a"
  shows "geometry_of q (entry_of q a i page) (an_subtype a) (xp_widthPoints page) (xp_heightPoints page) = Inr (carried_extras q page a)"
proof -
  let ?w = "xp_widthPoints page" and ?h = "xp_heightPoints page"
  have style: "style_ok q (ax_style (an_extras a))" and geo: "geometry_ok a" using a by (simp_all add: annotation_writable_def)
  have poly: "parsePointPairs q (pointPairs q (ax_points (an_extras a)) ?w ?h) ?w ?h MaxAnnotationPoints = (Complete, map (reread q ?w ?h) (ax_points (an_extras a)))"
    using geo by (intro pointPairs_round [OF q page]) (simp_all add: geometry_ok_def)
  have quads: "parseCoordList q (coordinateList q (concat (map xfdf_quad (ax_quads (an_extras a)))) ?w ?h) ?w ?h MaxAnnotationQuads
      = (Complete, map (reread_quad q ?w ?h) (ax_quads (an_extras a)))"
    using geo by (intro coords_round [OF q page]) (simp_all add: geometry_ok_def)
  have ink: "ink_loop q ?w ?h MaxAnnotationInkPoints (map (\<lambda>path. pointPairs q path ?w ?h) (ax_inkPaths (an_extras a)))
      = (Complete, filter (\<lambda>path. path \<noteq> []) (map (map (reread q ?w ?h)) (ax_inkPaths (an_extras a))))"
    using geo by (intro ink_loop_round [OF q page]) (simp_all add: geometry_ok_def)
  have points: "an_subtype a = AT_Line \<Longrightarrow> ax_points (an_extras a) \<noteq> []" using ex by (auto simp: exported_def)
  have co: "\<not> hasCallout a" if "an_subtype a \<noteq> AT_FreeText" using that by (simp add: hasCallout_def)
  have stamp: "an_subtype a = AT_Stamp \<Longrightarrow> with_icon q (entry_of q a i page) (entry_style q (entry_of q a i page)) = carried_style q a"
    using appearance_read(2) [OF q style, of "entry_style q (entry_of q a i page)" i page]
    by (simp add: entry_style_read [OF q style] carried_style_def intent_read no_style_def)
  note kinds = is_text_def is_polygon_def is_markup_def is_path_def
  have mem: "an_subtype a \<in> set element_types" using ex by (simp add: exported_def)
  then consider "is_text (an_subtype a)" | "an_subtype a = AT_Line" | "an_subtype a = AT_Stamp"
    | "\<not> is_text (an_subtype a)" "an_subtype a \<noteq> AT_Stamp" "an_subtype a \<noteq> AT_Line" by blast
  then show ?thesis
  proof cases
    case 1
    then show ?thesis using text_geometry_read [OF q page a 1] by (auto simp: geometry_of_def Let_def is_text_def)
  next
    case 2
    then show ?thesis using line_geometry_read [OF q page a 2 points [OF 2]] by (simp add: geometry_of_def Let_def)
  next
    case 3
    then show ?thesis using stamp co by (simp add: geometry_of_def Let_def carried_extras_def no_extras_def kinds)
  next
    case 4
    note st = other_style [OF q style 4]
    show ?thesis using 4 mem co st poly quads ink
      by (cases "an_subtype a")
        (simp_all add: geometry_of_def Let_def carried_extras_def no_extras_def kinds entry_of_geometry polygon_geometry_def markup_geometry_def ink_geometry_def
          element_types_def)
  qed
qed

section \<open>One annotation\<close>

lemma finalize_read:
  assumes q: "qt_laws q" and page: "page_size_ok (xp_widthPoints page) (xp_heightPoints page)" and a: "annotation_writable q a" and ex: "exported a"
    and i: "i < length (im_pageSizes im)" "im_pageSizes im ! i = (xp_widthPoints page, xp_heightPoints page)"
  shows "finalize q (entry_of q a i page) (an_subtype a) im = append_annotation i (carried q page a) im"
proof -
  let ?w = "xp_widthPoints page" and ?h = "xp_heightPoints page"
  define rect where "rect = normalizedRectToUserSpace q a ?w ?h"
  have sizes: "fp_lt (Fin 0) ?w" "fp_lt (Fin 0) ?h" using page by (auto simp: page_size_ok_def)
  have ok: "geometry_ok a" "text_ok q (an_author a)" "text_ok q (an_uuid a)" "contents_ok q (an_contents a)" "time_ok q (an_creationDate a)" "time_ok q (an_modificationDate a)"
    using a by (simp_all add: annotation_writable_def)
  have parsed: "parseRect q (rect_texts q a page) =
      Some [through q (pt_x (qd_upperLeft rect)), through q (pt_y (qd_lowerLeft rect)), through q (pt_x (qd_lowerRight rect)), through q (pt_y (qd_upperRight rect))]"
    unfolding rect_texts_def rectAttribute_def rect_def [symmetric] by (rule rect_round [OF q rect_numbers [OF q page ok(1) rect_def]])
  have texts: "qt_toStdString q (from_text q (an_author a)) = an_author a" "qt_toStdString q (from_text q (an_uuid a)) = an_uuid a"
      "qt_toStdString q (from_text q (an_contents a)) = an_contents a"
    using ok(2-4) by (auto simp: text_ok_def contents_ok_def intro!: from_text_back [OF q])
  have dates: "parseXfdfDate q (xfdfDate q (an_creationDate a)) = whole_seconds (an_creationDate a)"
      "parseXfdfDate q (xfdfDate q (last_change a)) = whole_seconds (last_change a)"
    using ok(5,6) by (auto simp: time_ok_def last_change_def intro!: date_round [OF q])
  show ?thesis
    using i sizes parsed geometry_read [OF q page a ex, of i]
    by (simp add: finalize_def applyGeometry_def entry_annotation_def Let_def texts dates color_round [OF q] flags_round [unfolded mark_values] carried_def
        rect_def [symmetric] normalizedPoint_def)
qed

lemma subtype_known: "t \<in> set element_types \<Longrightarrow> subtypeForElement (qs (element_name t)) = Some t"
  by (auto simp: subtypeForElement_def element_types_def)

lemma annotation_read:
  assumes q: "qt_laws q" and page: "page_size_ok (xp_widthPoints page) (xp_heightPoints page)" and a: "annotation_writable q a" and ex: "exported a"
    and i: "i < length (im_pageSizes im)" "im_pageSizes im ! i = (xp_widthPoints page, xp_heightPoints page)" "int i \<le> INT_MAX"
    and limits: "im_limitsError (append_annotation i (carried q page a) im) = []"
  shows "parseAnnots q im (tokens_of (annotation_markup q i page a) @ ts) = parseAnnots q (append_annotation i (carried q page a) im) ts"
proof -
  have line: "an_subtype a = AT_Line \<Longrightarrow> ax_points (an_extras a) \<noteq> []" using ex by (auto simp: exported_def)
  have known: "subtypeForElement (qs (element_name (an_subtype a))) = Some (an_subtype a)" using ex subtype_known by (simp add: exported_def)
  have start: "attribute_entry q (map (\<lambda>(n, v). (qs n, xml_value v)) (present (annotation_fields q a i page))) = attribute_part q a i page"
    by (rule attribute_entry_present [OF q page a i(3)]) (rule line)
  have "parseAnnotation q (an_subtype a) (map (\<lambda>(n, v). (qs n, xml_value v)) (present (annotation_fields q a i page))) im
      (tokens_of (children_markup q a page) @ XT_End (qs (element_name (an_subtype a))) # ts) = (append_annotation i (carried q page a) im, ts, None)"
    unfolding parseAnnotation_def start children_loop [OF q page a]
    using finalize_read [OF q page a ex i(1,2)] by simp
  then show ?thesis using known limits by (simp add: annotation_markup_def)
qed

section \<open>Pages\<close>

definition append_all :: "nat \<Rightarrow> Annotation list \<Rightarrow> Importer \<Rightarrow> Importer" where
  "append_all i as im =
     im\<lparr>im_result := (im_result im)\<lparr>xr_pages := (xr_pages (im_result im))[i := (xr_pages (im_result im) ! i)\<lparr>xp_annotations := xp_annotations (xr_pages (im_result im) ! i) @ as\<rparr>],
        xr_applied := xr_applied (im_result im) + length as\<rparr>\<rparr>"

lemma append_all_nil: "i < length (xr_pages (im_result im)) \<Longrightarrow> append_all i [] im = im"
  by (simp add: append_all_def)

lemma append_one:
  assumes "xr_applied (im_result im) < im_annotationsRemaining im" "length (xp_annotations (xr_pages (im_result im) ! i)) < im_annotationsPerPageRemaining im ! i"
  shows "append_annotation i a im = append_all i [a] im"
  using assms by (simp add: append_annotation_def append_all_def Let_def)

lemma append_all_Cons:
  "i < length (xr_pages (im_result im)) \<Longrightarrow> append_all i as (append_all i [a] im) = append_all i (a # as) im"
  by (simp add: append_all_def)

lemma annotations_read:
  assumes q: "qt_laws q" and page: "page_size_ok (xp_widthPoints page) (xp_heightPoints page)" and i: "int i \<le> INT_MAX"
  shows "list_all (annotation_writable q) as \<Longrightarrow> list_all exported as \<Longrightarrow> i < length (im_pageSizes im) \<Longrightarrow> i < length (xr_pages (im_result im)) \<Longrightarrow>
    im_pageSizes im ! i = (xp_widthPoints page, xp_heightPoints page) \<Longrightarrow> im_limitsError im = [] \<Longrightarrow>
    xr_applied (im_result im) + length as \<le> im_annotationsRemaining im \<Longrightarrow>
    length (xp_annotations (xr_pages (im_result im) ! i)) + length as \<le> im_annotationsPerPageRemaining im ! i \<Longrightarrow>
    parseAnnots q im (tokens_of (concat (map (\<lambda>a. annotation_markup q i page a @ [MK_Text [10]]) as)) @ ts) = parseAnnots q (append_all i (map (carried q page) as) im) ts"
proof (induction as arbitrary: im)
  case Nil
  then show ?case by (simp add: append_all_nil)
next
  case (Cons a as)
  let ?im = "append_all i [carried q page a] im"
  have one: "append_annotation i (carried q page a) im = ?im" using Cons(8,9) by (intro append_one) simp_all
  have "im_limitsError ?im = []" using Cons(7) by (simp add: append_all_def)
  then have "parseAnnots q im (tokens_of (annotation_markup q i page a) @ us) = parseAnnots q ?im us" for us
    using Cons(2,3) annotation_read [OF q page _ _ Cons(4,6) i, of a us] one by simp
  moreover have "parseAnnots q ?im (tokens_of (concat (map (\<lambda>a. annotation_markup q i page a @ [MK_Text [10]]) as)) @ ts)
      = parseAnnots q (append_all i (map (carried q page) as) ?im) ts"
    using Cons(2-) by (intro Cons(1)) (simp_all add: append_all_def)
  ultimately show ?case using append_all_Cons [OF Cons(5)] by simp
qed

text \<open>The importer when it has read the pages \<open>before\<close> and not yet the pages \<open>rest\<close>.\<close>

definition exported_count :: "XfdfPage \<Rightarrow> nat" where
  "exported_count page = length (filter exported (xp_annotations page))"

definition carried_page :: "QtCalls \<Rightarrow> XfdfPage \<Rightarrow> XfdfPage" where
  "carried_page q page = page\<lparr>xp_annotations := map (carried q page) (filter exported (xp_annotations page))\<rparr>"

definition importer_at :: "QtCalls \<Rightarrow> nat \<Rightarrow> nat list \<Rightarrow> XfdfPage list \<Rightarrow> XfdfPage list \<Rightarrow> Importer" where
  "importer_at q remaining perPage before rest =
     \<lparr>im_pageSizes = map (\<lambda>p. (xp_widthPoints p, xp_heightPoints p)) (before @ rest), im_annotationsPerPageRemaining = perPage,
      im_annotationsRemaining = remaining, im_limitsError = [],
      im_result = \<lparr>xr_pages = map (carried_page q) before @ map (\<lambda>p. p\<lparr>xp_annotations := []\<rparr>) rest, xr_applied = sum_list (map exported_count before),
        xr_skipped = 0, xr_warnings = []\<rparr>, im_suppressed = 0\<rparr>"

lemma append_page:
  "append_all (length before) (map (carried q page) (filter exported (xp_annotations page))) (importer_at q remaining perPage before (page # rest))
     = importer_at q remaining perPage (before @ [page]) rest"
  by (simp add: append_all_def importer_at_def carried_page_def exported_count_def nth_append list_update_append)

lemma pages_read:
  assumes q: "qt_laws q"
  shows "list_all (page_writable q) rest \<Longrightarrow> int (length (before @ rest)) \<le> INT_MAX \<Longrightarrow> sum_list (map exported_count (before @ rest)) \<le> remaining \<Longrightarrow>
    list_all2 (\<lambda>p n. exported_count p \<le> n) (before @ rest) perPage \<Longrightarrow>
    parseAnnots q (importer_at q remaining perPage before rest) (tokens_of (concat (map (\<lambda>(i, page). page_markup q i page) (enumerate (length before) rest))) @ ts)
      = parseAnnots q (importer_at q remaining perPage (before @ rest) []) ts"
proof (induction rest arbitrary: before)
  case (Cons page rest)
  let ?as = "filter exported (xp_annotations page)" and ?im = "importer_at q remaining perPage before (page # rest)"
  have page: "page_size_ok (xp_widthPoints page) (xp_heightPoints page)" "list_all (annotation_writable q) (xp_annotations page)"
    using Cons(2) by (simp_all add: page_writable_def)
  have "exported_count ((before @ page # rest) ! length before) \<le> perPage ! length before" using Cons(5) by (rule list_all2_nthD) simp
  then have per: "exported_count page \<le> perPage ! length before" by (simp add: nth_append)
  have "parseAnnots q ?im (tokens_of (page_markup q (length before) page) @ us)
      = parseAnnots q (append_all (length before) (map (carried q page) ?as) ?im) us" for us
    unfolding page_markup_def
    by (rule annotations_read [OF q page(1)])
      (use Cons(3,4) page(2) per in \<open>auto simp: importer_at_def nth_append exported_count_def [symmetric] list_all_iff\<close>)
  then have "parseAnnots q ?im (tokens_of (page_markup q (length before) page) @ us) = parseAnnots q (importer_at q remaining perPage (before @ [page]) rest) us" for us
    by (simp only: append_page)
  moreover have "parseAnnots q (importer_at q remaining perPage (before @ [page]) rest)
      (tokens_of (concat (map (\<lambda>(i, page). page_markup q i page) (enumerate (length (before @ [page])) rest))) @ ts)
      = parseAnnots q (importer_at q remaining perPage ((before @ [page]) @ rest) []) ts"
    using Cons(2-) by (intro Cons(1)) simp_all
  ultimately show ?case by simp
qed simp

section \<open>The document\<close>

definition limits_fit :: "XfdfPage list \<Rightarrow> XfdfParseLimits \<Rightarrow> bool" where
  "limits_fit pages limits \<longleftrightarrow> sum_list (map exported_count pages) \<le> xl_annotationsRemaining limits
     \<and> (xl_annotationsPerPageRemaining limits = [] \<or> list_all2 (\<lambda>p n. exported_count p \<le> n) pages (xl_annotationsPerPageRemaining limits))"

lemma exported_total: "sum_list (map exported_count pages) \<le> sum_list (map (\<lambda>p. length (xp_annotations p)) pages)"
  by (rule sum_list_mono) (simp add: exported_count_def)

lemma importer_start:
  assumes w: "document_writable q pages" and fit: "limits_fit pages limits"
  shows "\<exists>remaining perPage. (Importer_init (map (\<lambda>p. (xp_widthPoints p, xp_heightPoints p)) pages) limits)\<lparr>im_result := \<lparr>xr_pages = map (\<lambda>p. p\<lparr>xp_annotations := []\<rparr>) pages,
       xr_applied = 0, xr_skipped = 0, xr_warnings = []\<rparr>\<rparr> = importer_at q remaining perPage [] pages
     \<and> im_result (Importer_init (map (\<lambda>p. (xp_widthPoints p, xp_heightPoints p)) pages) limits) = \<lparr>xr_pages = [], xr_applied = 0, xr_skipped = 0, xr_warnings = []\<rparr>
     \<and> im_pageSizes (Importer_init (map (\<lambda>p. (xp_widthPoints p, xp_heightPoints p)) pages) limits) = map (\<lambda>p. (xp_widthPoints p, xp_heightPoints p)) pages
     \<and> sum_list (map exported_count pages) \<le> remaining \<and> list_all2 (\<lambda>p n. exported_count p \<le> n) pages perPage"
proof -
  let ?per = "xl_annotationsPerPageRemaining limits"
  let ?perPage = "if ?per = [] then map (\<lambda>_. MaxAnnotationsPerPage) pages else map (\<lambda>remaining. min remaining MaxAnnotationsPerPage) ?per"
  have total: "sum_list (map exported_count pages) \<le> MaxAnnotationsPerDocument"
    using exported_total [of pages] w by (simp add: document_writable_def)
  have each: "exported_count p \<le> MaxAnnotationsPerPage" if "p \<in> set pages" for p
  proof -
    have "exported_count p \<le> length (xp_annotations p)" by (simp add: exported_count_def)
    also have "\<dots> \<le> MaxAnnotationsPerPage" using w that by (auto simp: document_writable_def page_writable_def list_all_iff)
    finally show ?thesis .
  qed
  have fits: "?per = [] \<or> list_all2 (\<lambda>p n. exported_count p \<le> n) pages ?per" using fit by (simp add: limits_fit_def)
  then have len: "?per \<noteq> [] \<Longrightarrow> length ?per = length pages" by (auto dest: list_all2_lengthD)
  have "list_all2 (\<lambda>p n. exported_count p \<le> n) pages ?perPage"
    using fits each by (auto simp: list_all2_conv_all_nth)
  then show ?thesis
    using len total fit
    by (intro exI [of _ "min (xl_annotationsRemaining limits) MaxAnnotationsPerDocument"] exI [of _ ?perPage])
      (auto simp: Importer_init_def importer_at_def Let_def limits_fit_def)
qed

lemma document_read:
  assumes q: "qt_laws q" and w: "document_writable q pages" and fit: "limits_fit pages limits" and n: "0 < n" "n \<le> MaxXfdfBytes"
  shows "xfdfToAnnotations q n (tokens_of (document_markup q pages)) (map (\<lambda>p. (xp_widthPoints p, xp_heightPoints p)) pages) limits
    = ([], \<lparr>xr_pages = map (carried_page q) pages, xr_applied = sum_list (map exported_count pages), xr_skipped = 0, xr_warnings = []\<rparr>)"
proof -
  let ?sizes = "map (\<lambda>p. (xp_widthPoints p, xp_heightPoints p)) pages"
  define im0 where "im0 = Importer_init ?sizes limits"
  obtain remaining perPage where im: "im0\<lparr>im_result := \<lparr>xr_pages = map (\<lambda>p. p\<lparr>xp_annotations := []\<rparr>) pages, xr_applied = 0, xr_skipped = 0, xr_warnings = []\<rparr>\<rparr>
        = importer_at q remaining perPage [] pages"
      and result: "im_result im0 = \<lparr>xr_pages = [], xr_applied = 0, xr_skipped = 0, xr_warnings = []\<rparr>" and sizes: "im_pageSizes im0 = ?sizes"
      and room: "sum_list (map exported_count pages) \<le> remaining" "list_all2 (\<lambda>p n. exported_count p \<le> n) pages perPage"
    using importer_start [OF w fit] unfolding im0_def by blast
  have writable: "list_all (page_writable q) pages" "int (length pages) \<le> INT_MAX" using w by (simp_all add: document_writable_def)
  have blank: "(\<lambda>(width, height). \<lparr>xp_widthPoints = width, xp_heightPoints = height, xp_annotations = []\<rparr>) \<circ> (\<lambda>p. (xp_widthPoints p, xp_heightPoints p))
      = (\<lambda>p. p\<lparr>xp_annotations := []\<rparr>)"
    by (rule ext) (simp add: comp_def)
  let ?im = "importer_at q remaining perPage [] pages" and ?fin = "importer_at q remaining perPage pages []"
  have started: "im0\<lparr>im_result := (im_result im0)\<lparr>xr_pages := map (\<lambda>(width, height). \<lparr>xp_widthPoints = width, xp_heightPoints = height, xp_annotations = []\<rparr>) (im_pageSizes im0)\<rparr>\<rparr> = ?im"
    using im result by (simp add: sizes blank)
  have "parseAnnots q ?im (XT_Characters [10] # tokens_of (concat (map (\<lambda>(i, page). page_markup q i page) (enumerate 0 pages))) @ XT_End (qs ''annots'') # us) = (?fin, us, None)" for us
    using pages_read [OF q, of pages "[]" remaining perPage "XT_End (qs ''annots'') # us"] writable room by simp
  moreover have "im_limitsError ?im = []" "im_limitsError ?fin = []" by (simp_all add: importer_at_def)
  moreover have "xml_value [10] = [10]" by (rule xml_value_id) simp
  ultimately have "run_loop q False ?im (tokens_of (document_markup q pages)) = ([], im_result (flushWarnings q ?fin))"
    by (simp add: document_markup_def)
  moreover have "im_result (flushWarnings q ?fin) =
      \<lparr>xr_pages = map (carried_page q) pages, xr_applied = sum_list (map exported_count pages), xr_skipped = 0, xr_warnings = []\<rparr>"
    by (simp add: flushWarnings_def importer_at_def)
  moreover have "im_limitsError ?im = []" by (simp add: importer_at_def)
  ultimately show ?thesis
    using n unfolding xfdfToAnnotations_def importer_run_def im0_def [symmetric] started Let_def by simp
qed

section \<open>The text of the document splits into its markup\<close>

lemma clean_escaped: "clean_text v \<Longrightarrow> clean_text (escapeXml v) \<and> 60 \<notin> set (escapeXml v) \<and> 34 \<notin> set (escapeXml v)"
  using escape_marks [of _ v] by (auto simp: clean_text_def list_all_iff)

lemma fields_ok:
  assumes q: "qt_laws q" and page: "page_size_ok (xp_widthPoints page) (xp_heightPoints page)" and a: "annotation_writable q a" and i: "int i \<le> INT_MAX" and ex: "exported a"
  shows "markup_ok (MK_Start name (present (annotation_fields q a i page)))"
proof -
  have line: "an_subtype a = AT_Line \<Longrightarrow> ax_points (an_extras a) \<noteq> []" using ex by (auto simp: exported_def)
  have icon: "text_ok q (icon_field a)"
    using a by (auto simp: annotation_writable_def style_ok_def icon_field_def text_ok_def split: option.splits)
  have texts: "text_ok q (an_author a)" "text_ok q (an_uuid a)" using a by (simp_all add: annotation_writable_def)
  have field: "clean_text (text_field q s) \<and> 60 \<notin> set (text_field q s) \<and> 34 \<notin> set (text_field q s)" if "text_ok q s" for s
    using that clean_escaped [of "qt_fromStdString q s"] by (auto simp: text_field_def text_ok_def clean_text_def)
  have special: "map_of (annotation_fields q a i page) ''title'' = Some (text_field q (an_author a))"
      "map_of (annotation_fields q a i page) ''name'' = Some (text_field q (an_uuid a))" "map_of (annotation_fields q a i page) ''icon'' = Some (text_field q (icon_field a))"
    by (simp_all add: annotation_fields_def Let_def)
  have "clean_text v \<and> 60 \<notin> set v \<and> 34 \<notin> set v" if nv: "(n, v) \<in> set (annotation_fields q a i page)" for n v
  proof (cases "n \<in> {''title'', ''name'', ''icon''}")
    case False
    then show ?thesis using fields_plain [OF q page a i line] nv plain_clean by (auto simp: list_all_iff)
  next
    case True
    have "distinct (map fst (annotation_fields q a i page))" by (simp add: annotation_fields_def Let_def)
    then have "map_of (annotation_fields q a i page) n = Some v" using nv by (simp add: map_of_eq_Some_iff)
    then show ?thesis using True special field [OF texts(1)] field [OF texts(2)] field [OF icon] by auto
  qed
  then show ?thesis by (auto simp: present_def list_all_iff)
qed

lemma body_escaped: "body_text v \<Longrightarrow> body_text (escapeXml v) \<and> 60 \<notin> set (escapeXml v)"
  using escape_marks [of _ v] by (fastforce simp: body_text_def list_all_iff)

lemma plain_body: "plain_text t \<Longrightarrow> body_text t \<and> 60 \<notin> set t"
  using plain_clean clean_body by blast

lemma child_ok: "body_text raw \<Longrightarrow> 60 \<notin> set raw \<Longrightarrow> list_all markup_ok (child name raw)"
  by (simp add: child_def)

lemma contents_markup_ok: "contents_ok q (an_contents a) \<Longrightarrow> list_all markup_ok (contents_markup q a)"
  using body_escaped by (auto simp: contents_markup_def contents_ok_def intro!: child_ok)

lemma font_markup_ok:
  assumes q: "qt_laws q" and style: "style_ok q (ax_style (an_extras a))"
  shows "list_all markup_ok (font_markup q a)"
proof -
  have "body_text (font_text q ap) \<and> 60 \<notin> set (font_text q ap)" if "as_appearance (ax_style (an_extras a)) = Some ap" for ap
  proof -
    have "number_ok (aa_fontSize ap)" using style that by (simp add: style_ok_def)
    then have "plain_text (formatNumber q (aa_fontSize ap))" using number_round(2) [OF q] plain_decimal by blast
    then have "body_text (formatNumber q (aa_fontSize ap)) \<and> 60 \<notin> set (formatNumber q (aa_fontSize ap))" by (rule plain_body)
    then show ?thesis using body_escaped pdfName_text [of q "aa_fontName ap"] by (auto simp: font_text_def body_text_def qs_def)
  qed
  then show ?thesis by (auto simp: font_markup_def intro!: child_ok split: option.splits)
qed

lemma children_ok:
  assumes q: "qt_laws q" and page: "page_size_ok (xp_widthPoints page) (xp_heightPoints page)" and a: "annotation_writable q a"
  shows "list_all markup_ok (children_markup q a page)"
proof -
  have ok: "contents_ok q (an_contents a)" "style_ok q (ax_style (an_extras a))" "geometry_ok a" using a by (simp_all add: annotation_writable_def)
  have pairs: "list_all unit_point ps \<Longrightarrow> list_all markup_ok (child n (pointPairs q ps (xp_widthPoints page) (xp_heightPoints page)))" for n ps
    using plain_points(3) [OF q page] plain_body by (auto intro!: child_ok)
  have "list_all markup_ok (ink_markup q a page)"
    using ok(3) pairs by (auto simp: ink_markup_def geometry_ok_def list_all_iff)
  then show ?thesis
    using contents_markup_ok [OF ok(1)] font_markup_ok [OF q ok(2)] pairs ok(3) by (simp add: children_markup_def geometry_ok_def)
qed

lemma document_markup_ok:
  assumes q: "qt_laws q" and w: "document_writable q pages"
  shows "list_all markup_ok (document_markup q pages)"
proof -
  have "list_all markup_ok (page_markup q i page)" if m: "(i, page) \<in> set (enumerate 0 pages)" for i page
  proof -
    have "i < length pages" "page \<in> set pages" using m by (auto simp: in_set_enumerate_eq)
    then have i: "int i \<le> INT_MAX" and page: "page_size_ok (xp_widthPoints page) (xp_heightPoints page)" "list_all (annotation_writable q) (xp_annotations page)"
      using w by (auto simp: document_writable_def page_writable_def list_all_iff)
    have "list_all markup_ok (annotation_markup q i page a)" if "a \<in> set (xp_annotations page)" "exported a" for a
    proof -
      have a: "annotation_writable q a" using that(1) page(2) by (simp add: list_all_iff)
      show ?thesis using fields_ok [OF q page(1) a i that(2)] children_ok [OF q page(1) a] by (simp add: annotation_markup_def)
    qed
    then show ?thesis by (auto simp: page_markup_def list_all_iff body_text_def)
  qed
  then have "list_all markup_ok (concat (map (\<lambda>(i, page). page_markup q i page) (enumerate 0 pages)))" by (auto simp: list_all_iff)
  moreover have "list_all markup_ok [MK_Start ''xfdf'' [(''xmlns'', qs ''http://ns.adobe.com/xfdf/''), (''xml:space'', qs ''preserve'')], MK_Text [10]]"
    by (simp add: clean_text_def body_text_def qs_def)
  ultimately show ?thesis by (simp add: document_markup_def body_text_def clean_text_def)
qed

end
