(* ===== verification/Xfdf_Precision.thy ===== *)
theory Xfdf_Precision
  imports Xfdf_Text
begin

text \<open>How far a point moves when it is written with six decimals in page units and read back.\<close>

lemma scaled_round:
  assumes q: "qt_laws q" and x: "unit_interval x" and W: "1 \<le> W" "W \<le> 10 ^ 6"
  shows "\<exists>r d. x = Fin r \<and> fp_div (qt_rnd q) (through q (fp_mul (qt_rnd q) x (Fin W))) (Fin W) = Fin d \<and> \<bar>d - r\<bar> \<le> 15 / 10 ^ 7"
proof -
  have rnd: "rounding_near (qt_rnd q)" using q by (simp add: qt_laws_def)
  have "0 < W" using W(1) by simp
  from scaled_number [OF rnd x this W(2)] obtain r u where r: "x = Fin r" "0 \<le> r" "r \<le> 1" and u: "fp_mul (qt_rnd q) x (Fin W) = Fin u"
      "\<bar>u - r * W\<bar> \<le> (W + 1) / 2 ^ 50" "\<bar>u\<bar> \<le> 10 ^ 7"
    by blast
  have "\<bar>u\<bar> \<le> 10 ^ 11" using u(3) by simp
  from through_value [OF q this] obtain v where v: "through q (Fin u) = Fin v" "\<bar>v - u\<bar> \<le> 1 / 10 ^ 6 + (\<bar>u\<bar> + 2) / 2 ^ 50" by blast
  have small: "(\<bar>u\<bar> + 2) / 2 ^ 50 \<le> 1 / 10 ^ 7" "(W + 1) / 2 ^ 50 \<le> 1 / 10 ^ 7" using u(3) W(2) by simp_all
  have vW: "\<bar>v - r * W\<bar> \<le> 12 / 10 ^ 7"
  proof -
    have "\<bar>u - r * W\<bar> \<le> 1 / 10 ^ 7" using u(2) small(2) by (rule order_trans)
    moreover have "\<bar>v - u\<bar> \<le> 1 / 10 ^ 6 + 1 / 10 ^ 7" using v(2) small(1) by (rule order_trans [OF _ add_left_mono])
    moreover have "\<bar>v - r * W\<bar> \<le> \<bar>v - u\<bar> + \<bar>u - r * W\<bar>" by linarith
    moreover have "1 / 10 ^ 6 + 1 / 10 ^ 7 + 1 / 10 ^ 7 = (12 / 10 ^ 7 :: real)" by simp
    ultimately show ?thesis by linarith
  qed
  have quot: "v / W - r = (v - r * W) / W" using W(1) by (simp add: field_simps)
  have "\<bar>v - r * W\<bar> / W \<le> \<bar>v - r * W\<bar> / 1" using W(1) by (intro divide_left_mono) simp_all
  then have "\<bar>v / W - r\<bar> \<le> \<bar>v - r * W\<bar>" using W(1) by (simp add: quot abs_divide)
  then have near: "\<bar>v / W - r\<bar> \<le> 12 / 10 ^ 7" using vW by (rule order_trans)
  moreover have "12 / 10 ^ 7 \<le> (1 :: real)" by simp
  ultimately have size: "\<bar>v / W\<bar> \<le> 2" using r(2,3) by linarith
  then have "\<bar>v / W\<bar> \<le> 10 ^ 12" by simp
  from rnd_near [OF rnd this] obtain d where d: "qt_rnd q (v / W) = Fin d" "\<bar>d - v / W\<bar> \<le> (\<bar>v / W\<bar> + 1) / 2 ^ 50" by blast
  have "(\<bar>v / W\<bar> + 1) / 2 ^ 50 \<le> 3 / 2 ^ 50" by (rule divide_right_mono) (use size in linarith, simp)
  also have "3 / 2 ^ 50 \<le> (3 / 10 ^ 7 :: real)" by simp
  finally have "\<bar>d - v / W\<bar> \<le> 3 / 10 ^ 7" using d(2) by linarith
  moreover have "12 / 10 ^ 7 + 3 / 10 ^ 7 = (15 / 10 ^ 7 :: real)" by simp
  ultimately have "\<bar>d - r\<bar> \<le> 15 / 10 ^ 7" using near by linarith
  then show ?thesis using r(1) u(1) v(1) d(1) W(1) by simp
qed

lemma clamp_near:
  assumes "0 \<le> r" "r \<le> 1"
  shows "\<exists>c. clamp01 (Fin d) = Fin c \<and> \<bar>c - r\<bar> \<le> \<bar>d - r\<bar>"
  using assms by (auto simp: clamp01_def fp_clamp_def)

lemma reread_near:
  assumes q: "qt_laws q" and page: "page_size_ok (Fin W) (Fin H)" "1 \<le> W" "1 \<le> H" and p: "unit_point p"
  shows "\<exists>x y x' y'. p = \<lparr>pt_x = Fin x, pt_y = Fin y\<rparr> \<and> reread q (Fin W) (Fin H) p = \<lparr>pt_x = Fin x', pt_y = Fin y'\<rparr>
    \<and> \<bar>x' - x\<bar> \<le> 2 / 10 ^ 6 \<and> \<bar>y' - y\<bar> \<le> 2 / 10 ^ 6"
proof -
  have rnd: "rounding_near (qt_rnd q)" using q by (simp add: qt_laws_def)
  have sizes: "W \<le> 10 ^ 6" "H \<le> 10 ^ 6" using page(1) by (auto simp: page_size_ok_def)
  obtain x y where p_def: "p = \<lparr>pt_x = Fin x, pt_y = Fin y\<rparr>" and xy: "0 \<le> x" "x \<le> 1" "0 \<le> y" "y \<le> 1"
    using p by (cases p) (auto simp: unit_point_def unit_Fin)
  have units: "unit_interval (Fin x)" "unit_interval (Fin y)" using xy by (simp_all add: unit_Fin)
  obtain d where d: "fp_div (qt_rnd q) (through q (fp_mul (qt_rnd q) (Fin x) (Fin W))) (Fin W) = Fin d" "\<bar>d - x\<bar> \<le> 15 / 10 ^ 7"
    using scaled_round [OF q units(1) page(2) sizes(1)] by auto
  have up: "fp_sub (qt_rnd q) (Fin 1) (Fin b) = qt_rnd q (1 - b)" for b by (simp add: fp_sub_def)
  have flip: "\<exists>s. qt_rnd q (1 - b) = Fin s \<and> \<bar>s - (1 - b)\<bar> \<le> 1 / 10 ^ 7" if "\<bar>b\<bar> \<le> 2" for b
  proof -
    have "\<bar>1 - b\<bar> \<le> 3" using that by simp
    then have "\<bar>1 - b\<bar> \<le> 10 ^ 12" "(\<bar>1 - b\<bar> + 1) / 2 ^ 50 \<le> 1 / 10 ^ 7" by simp_all
    then show ?thesis using rnd_near [OF rnd, of "1 - b"] by fastforce
  qed
  obtain s where s: "qt_rnd q (1 - y) = Fin s" "\<bar>s - (1 - y)\<bar> \<le> 1 / 10 ^ 7" using flip [of y] xy by auto
  have "unit_interval (Fin s)" using flipped_unit [OF rnd units(2)] s(1) by (simp add: up)
  from scaled_round [OF q this page(3) sizes(2)]
  obtain e where e: "fp_div (qt_rnd q) (through q (fp_mul (qt_rnd q) (Fin s) (Fin H))) (Fin H) = Fin e" "\<bar>e - s\<bar> \<le> 15 / 10 ^ 7" by auto
  have "\<bar>e - s\<bar> \<le> 1 / 2" "\<bar>s - (1 - y)\<bar> \<le> 1 / 2"
    by (rule order_trans [OF e(2)], simp, rule order_trans [OF s(2)], simp)
  then have "\<bar>e\<bar> \<le> 2" using xy by linarith
  from flip [OF this] obtain t where t: "qt_rnd q (1 - e) = Fin t" "\<bar>t - (1 - e)\<bar> \<le> 1 / 10 ^ 7" by blast
  have "15 / 10 ^ 7 + 1 / 10 ^ 7 + 1 / 10 ^ 7 \<le> (2 / 10 ^ 6 :: real)" "15 / 10 ^ 7 \<le> (2 / 10 ^ 6 :: real)" by simp_all
  then have ty: "\<bar>t - y\<bar> \<le> 2 / 10 ^ 6" and dx: "\<bar>d - x\<bar> \<le> 2 / 10 ^ 6" using d(2) e(2) s(2) t(2) by linarith+
  obtain x' where x': "clamp01 (Fin d) = Fin x'" "\<bar>x' - x\<bar> \<le> \<bar>d - x\<bar>" using clamp_near [OF xy(1,2)] by blast
  obtain y' where y': "clamp01 (Fin t) = Fin y'" "\<bar>y' - y\<bar> \<le> \<bar>t - y\<bar>" using clamp_near [OF xy(3,4)] by blast
  have "reread q (Fin W) (Fin H) p = \<lparr>pt_x = Fin x', pt_y = Fin y'\<rparr>"
    using page(2,3) d(1) s(1) e(1) t(1) x'(1) y'(1)
    by (simp add: reread_def Let_def p_def toUserSpace_def normalizedToUserSpace_def normalizedPoint_def userSpaceToNormalized_def up del: fp_mul.simps fp_div.simps)
  moreover have "\<bar>x' - x\<bar> \<le> 2 / 10 ^ 6" "\<bar>y' - y\<bar> \<le> 2 / 10 ^ 6" using dx x'(2) y'(2) ty by linarith+
  ultimately show ?thesis using p_def by blast
qed

end
