(* ===== verification/Xfdf_Instance.thy ===== *)
theory Xfdf_Instance
  imports Xfdf_Precision
begin

text \<open>
  Functions for which the laws of Qt hold, for evaluating the reader and the writer on concrete documents: numbers are exact, text is ASCII, and the
  calendar has one day.
\<close>

fun number_digits :: "nat \<Rightarrow> QString" where
  "number_digits n = (if n < 10 then [48 + n] else number_digits (n div 10) @ [48 + n mod 10])"

declare number_digits.simps [simp del]

definition ascii_text :: "QString \<Rightarrow> string" where
  "ascii_text t = map char_of (filter (\<lambda>c. 1 \<le> c \<and> c \<le> 0x7F) t)"

fun exact_fixed6 :: "fp \<Rightarrow> QString" where
  "exact_fixed6 (Fin v) = (let n = nat (round (\<bar>v\<bar> * 10 ^ 6)) in with_sign (v < 0) (number_digits (n div 10 ^ 6) @ 46 # padded 6 n))"
| "exact_fixed6 _ = []"

definition one_day :: "int \<times> int \<times> int \<Rightarrow> int \<times> int \<times> int \<Rightarrow> int option" where
  "one_day d t = (case t of (h, mi, s) \<Rightarrow> if d = (1970, 1, 1) then Some ((h * 3600 + mi * 60 + s) * 1000) else None)"

definition day_text :: "int \<Rightarrow> QString" where
  "day_text ms = (let s = nat (ms div 1000) in qs ''19700101'' @ padded 2 (s div 3600) @ padded 2 (s div 60 mod 60) @ padded 2 (s mod 60))"

definition exact_qt :: QtCalls where
  "exact_qt =
     \<lparr>qt_toStdString = ascii_text, qt_fromStdString = qs, qt_isSpace = (\<lambda>c. c = 32 \<or> c \<in> {9..13}), qt_isDigit = (\<lambda>c. c \<in> {48..57}),
      qt_toDouble = (\<lambda>t. map_option Fin (written_value t)),
      qt_toInt = (\<lambda>t. if t \<noteq> [] \<and> is_digits t \<and> int (digits_value t) \<le> INT_MAX then Some (int (digits_value t)) else None),
      qt_toUIntHex = (\<lambda>t. if t \<noteq> [] \<and> length t \<le> 8 \<and> list_all is_hex t then Some (of_nat (hex_value t)) else None),
      qt_number = (\<lambda>n. number_digits (nat n)), qt_fixed6 = exact_fixed6, qt_utcText = day_text, qt_utcMillis = one_day, qt_rnd = Fin\<rparr>"

lemma number_digits_value: "number_digits n \<noteq> [] \<and> is_digits (number_digits n) \<and> digits_value (number_digits n) = n"
proof (induction n rule: number_digits.induct)
  case (1 n)
  show ?case
  proof (cases "n < 10")
    case True
    then show ?thesis by (subst (1 2 3) number_digits.simps) (simp add: digits_value_def)
  next
    case False
    then have "number_digits n = number_digits (n div 10) @ [48 + n mod 10]" by (subst number_digits.simps) simp
    moreover have "n mod 10 \<le> 9" by auto
    moreover have "digits_value [48 + n mod 10] = n mod 10" by (simp add: digits_value_def)
    ultimately show ?thesis using 1 [OF False] by (simp add: digits_value_append)
  qed
qed

lemma digits_value_bound: "is_digits t \<Longrightarrow> digits_value t < 10 ^ length t"
proof (induction t rule: rev_induct)
  case (snoc c t)
  have "digits_value [c] \<le> 9" using snoc(2) by (auto simp: digits_value_def)
  then show ?case using snoc by (simp add: digits_value_append)
qed (simp add: digits_value_def)

lemma exact_fixed6_law: "fixed6_law exact_qt"
  unfolding fixed6_law_def
proof (intro allI impI)
  fix v :: real
  define n where "n = nat (round (\<bar>v\<bar> * 10 ^ 6))"
  have "0 \<le> round (\<bar>v\<bar> * 10 ^ 6)" by (intro round_mono [of 0, simplified]) simp
  then have n: "real n = of_int (round (\<bar>v\<bar> * 10 ^ 6))" by (simp add: n_def)
  have "\<bar>real n - \<bar>v\<bar> * 10 ^ 6\<bar> \<le> 1 / 2" unfolding n by (rule of_int_round_abs_le)
  then have near: "\<bar>real n / 10 ^ 6 - \<bar>v\<bar>\<bar> \<le> 1 / (2 * 10 ^ 6)" by (simp add: field_simps abs_if split: if_splits)
  have "real (n div 10 ^ 6) + real (n mod 10 ^ 6) / 10 ^ 6 = real n / 10 ^ 6"
  proof -
    have "real n = real (n div 10 ^ 6 * 10 ^ 6 + n mod 10 ^ 6)" by simp
    then show ?thesis by (simp only: of_nat_add of_nat_mult) (simp add: field_simps)
  qed
  then have "point_value (number_digits (n div 10 ^ 6)) (padded 6 n) = real n / 10 ^ 6"
    by (simp add: point_value_def number_digits_value padded_value)
  then have "\<bar>point_value (number_digits (n div 10 ^ 6)) (padded 6 n) - \<bar>v\<bar>\<bar> \<le> 1 / (2 * 10 ^ 6)" using near by (simp only:)
  moreover have "qt_fixed6 exact_qt (Fin v) = with_sign (v < 0) (number_digits (n div 10 ^ 6) @ 46 # padded 6 n)" by (simp add: exact_qt_def n_def Let_def)
  moreover have "number_digits (n div 10 ^ 6) \<noteq> []" "is_digits (number_digits (n div 10 ^ 6))" using number_digits_value by blast+
  moreover have "is_digits (padded 6 n)" "length (padded 6 n) = 6" by simp_all
  ultimately show "\<exists>ip fr. qt_fixed6 exact_qt (Fin v) = with_sign (v < 0) (ip @ 46 # fr) \<and> ip \<noteq> [] \<and> is_digits ip \<and> is_digits fr
     \<and> length fr = 6 \<and> \<bar>point_value ip fr - \<bar>v\<bar>\<bar> \<le> 1 / (2 * 10 ^ 6)"
    by blast
qed

lemma exact_laws: "qt_laws exact_qt"
proof -
  have "rounding_near (qt_rnd exact_qt)" by (auto simp: exact_qt_def rounding_near_def rounding_exact)
  moreover have "toDouble_law exact_qt" by (auto simp: exact_qt_def toDouble_law_def written_value_def Let_def)
  moreover have "integer_laws exact_qt"
  proof -
    have small: "int (digits_value t) \<le> INT_MAX" if "is_digits t" "length t \<le> 9" for t
    proof -
      have "digits_value t < 10 ^ length t" using that(1) by (rule digits_value_bound)
      also have "\<dots> \<le> 10 ^ 9" using that(2) by (intro power_increasing) simp_all
      finally show ?thesis by (simp add: INT_MAX_def)
    qed
    show ?thesis using small number_digits_value by (auto simp: integer_laws_def exact_qt_def)
  qed
  moreover have "char_laws exact_qt" by (auto simp: char_laws_def exact_qt_def ascii_text_def)
  ultimately show ?thesis using exact_fixed6_law by (simp add: qt_laws_def)
qed

lemma ascii_round: "list_all (\<lambda>c. 1 \<le> c \<and> c \<le> 0x7F) (qs s) \<Longrightarrow> qt_toStdString exact_qt (qt_fromStdString exact_qt s) = s"
proof -
  assume "list_all (\<lambda>c. 1 \<le> c \<and> c \<le> 0x7F) (qs s)"
  then have "filter (\<lambda>c. 1 \<le> c \<and> c \<le> 0x7F) (qs s) = qs s" by (simp add: list_all_iff filter_id_conv)
  then show ?thesis by (simp add: exact_qt_def ascii_text_def) (simp add: qs_def comp_def)
qed

lemma ascii_utf8: "list_all (\<lambda>b. b \<le> 0x7F) s \<Longrightarrow> utf8_loop s i"
  by (induction s i rule: utf8_loop.induct) (subst utf8_loop.simps, auto simp: list_all_length)

lemma exact_utf8_law: "utf8_law exact_qt"
  unfolding utf8_law_def
proof (intro allI impI)
  fix t
  have byte: "byte_of (char_of c) \<le> 0x7F" if "1 \<le> c" "c \<le> 0x7F" for c :: nat
  proof -
    have "byte_of (char_of c) = of_nat (of_char (char_of c))" unfolding byte_of_def by (rule of_nat_of_char [symmetric])
    also have "\<dots> = of_nat c" using that by simp
    finally have "byte_of (char_of c) = of_nat c" .
    then show ?thesis using that by (simp add: word_le_nat_alt unat_of_nat)
  qed
  have nul: "char_of c \<noteq> CHR 0x00" if "1 \<le> c" "c \<le> 0x7F" for c :: nat
    using that char_of_eq_iff [of c "CHR 0x00"] by (simp add: take_bit_nat_eq_self)
  have "list_all (\<lambda>b. b \<le> 0x7F) (map byte_of (ascii_text t))" using byte by (auto simp: ascii_text_def list_all_iff)
  moreover have "CHR 0x00 \<notin> set (ascii_text t)"
  proof
    assume "CHR 0x00 \<in> set (ascii_text t)"
    then obtain c :: nat where "1 \<le> c" "c \<le> 0x7F" "char_of c = CHR 0x00" by (auto simp: ascii_text_def)
    then show False using nul by blast
  qed
  ultimately show "isValidUtf8 (qt_toStdString exact_qt t) \<and> hasNoEmbeddedNul (qt_toStdString exact_qt t)"
    by (simp add: exact_qt_def isValidUtf8_def hasNoEmbeddedNul_def ascii_utf8)
qed

end
