(* ===== verification/Xfdf_Laws.thy ===== *)
theory Xfdf_Laws
  imports Xfdf_Round_Trip Xfdf_Instance
begin

text \<open>What holds of the XFDF reader for every document, and of the reader together with the writer.\<close>

definition sample_square :: "XmlToken list" where
  "sample_square =
     [XT_Start (qs ''xfdf'') [], XT_Start (qs ''annots'') [],
      XT_Start (qs ''square'') [(qs ''page'', qs ''0''), (qs ''rect'', qs ''10,20,30,40''), (qs ''width'', qs ''2'')], XT_End (qs ''square''),
      XT_Start (qs ''polygon'') [(qs ''page'', qs ''0''), (qs ''rect'', qs ''10,20,30'')], XT_End (qs ''polygon''),
      XT_End (qs ''annots''), XT_End (qs ''xfdf'')]"

lemmas exact_simps = exact_qt_def qs_def split_on.simps parseNumber_def written_value_def point_value_def is_digits_def digits_value_def Let_def

lemma sample_rects:
  "parseRect exact_qt (qs ''10,20,30,40'') = Some [Fin 10, Fin 20, Fin 30, Fin 40]" "parseRect exact_qt (qs ''10,20,30'') = None"
  by (simp_all add: parseRect_def exact_simps)

lemma sample_page: "parsePage exact_qt (qs ''0'') = 0"
  by (simp add: parsePage_def exact_simps INT_MAX_def)

definition sample_limits :: XfdfParseLimits where
  "sample_limits = \<lparr>xl_annotationsRemaining = 8, xl_annotationsPerPageRemaining = [3]\<rparr>"

definition sample_entry :: "string \<Rightarrow> string \<Rightarrow> XEntry" where
  "sample_entry rect width =
     \<lparr>xe_page = 0, xe_rect = qs rect, xe_color = [], xe_opacity = [], xe_title = [], xe_name = [], xe_creationDate = [], xe_date = [], xe_flags = [],
      xe_contents = [], xe_defaultAppearance = [], xe_vertices = [], xe_coords = [], xe_icon = [], xe_intent = [], xe_width = qs width, xe_start = [],
      xe_end = [], xe_head = [], xe_tail = [], xe_symbol = [], xe_callout = [], xe_inkGestures = [], xe_inkPathLimitExceeded = False\<rparr>"

lemma sample_entries:
  "attribute_entry exact_qt [(qs ''page'', qs ''0''), (qs ''rect'', qs ''10,20,30,40''), (qs ''width'', qs ''2'')] = sample_entry ''10,20,30,40'' ''2''"
  "attribute_entry exact_qt [(qs ''page'', qs ''0''), (qs ''rect'', qs ''10,20,30'')] = sample_entry ''10,20,30'' []"
  by (simp_all add: attribute_entry_def attr_def sample_page sample_entry_def)

lemma sample_geometry: "applyGeometry exact_qt (sample_entry ''10,20,30,40'' ''2'') AT_Square (Fin 100) (Fin 200) a
    = Inr (a\<lparr>an_extras := no_extras\<lparr>ax_style := no_style\<lparr>as_borderWidth := Some (Fin 2)\<rparr>\<rparr>\<rparr>)"
proof -
  have "entry_style exact_qt (sample_entry ''10,20,30,40'' ''2'') = no_style\<lparr>as_borderWidth := Some (Fin 2)\<rparr>"
    by (simp add: entry_style_def sample_entry_def parseIntent_def intent_names_def exact_simps)
  then show ?thesis by (simp add: applyGeometry_def geometry_of_def tightenBounds_def no_extras_def)
qed

lemma sample_run:
  "xfdfToAnnotations exact_qt 500 sample_square [(Fin 100, Fin 200)] sample_limits =
     ([], \<lparr>xr_pages = [\<lparr>xp_widthPoints = Fin 100, xp_heightPoints = Fin 200,
             xp_annotations = [(entry_annotation exact_qt (sample_entry ''10,20,30,40'' ''2'') AT_Square [Fin 10, Fin 20, Fin 30, Fin 40] (Fin 100) (Fin 200))
               \<lparr>an_extras := no_extras\<lparr>ax_style := no_style\<lparr>as_borderWidth := Some (Fin 2)\<rparr>\<rparr>\<rparr>]\<rparr>],
           xr_applied = 1, xr_skipped = 1, xr_warnings = [qs ''annotation on page 0 has an invalid rect'']\<rparr>)"
proof -
  have page: "xe_page (sample_entry r w) = 0" "xe_rect (sample_entry r w) = qs r" for r w by (simp_all add: sample_entry_def)
  have num: "qt_number exact_qt 0 = qs ''0''" by (simp add: exact_qt_def qs_def number_digits.simps)
  have names: "subtypeForElement (qs ''square'') = Some AT_Square" "subtypeForElement (qs ''polygon'') = Some AT_Polygon"
    by (simp_all add: subtypeForElement_def element_types_def)
  have first: "finalize exact_qt (sample_entry ''10,20,30,40'' ''2'') AT_Square im =
      append_annotation 0 ((entry_annotation exact_qt (sample_entry ''10,20,30,40'' ''2'') AT_Square [Fin 10, Fin 20, Fin 30, Fin 40] (Fin 100) (Fin 200))
         \<lparr>an_extras := no_extras\<lparr>ax_style := no_style\<lparr>as_borderWidth := Some (Fin 2)\<rparr>\<rparr>\<rparr>) im" if "im_pageSizes im = [(Fin 100, Fin 200)]" for im
    using that by (simp add: finalize_def page sample_rects sample_geometry)
  have second: "finalize exact_qt (sample_entry ''10,20,30'' []) AT_Polygon im = skip (qs ''annotation on page 0 has an invalid rect'') im"
    if "im_pageSizes im = [(Fin 100, Fin 200)]" for im
    using that by (simp add: finalize_def page sample_rects num flip: qs_simps)
  show ?thesis
    by (simp add: xfdfToAnnotations_def importer_run_def Importer_init_def Let_def sample_limits_def limits sample_square_def parseAnnotation_def names sample_entries first second
        append_annotation_def skip_def warn_def flushWarnings_def xfdf_fail_def)
qed

text \<open>
  C13. Whatever the document, an import is refused with no pages at all, or it gives one page for each page of the target with the page's
  size, and then: no page gets more annotations than it has room for and the document no more than it has room for; the count of applied
  annotations is exact; every annotation lies on its page, its rectangle is in order and its geometry within the limits; every annotation passes the
  validation of the worker; and there are at most twenty-one warnings however many entries are skipped.
\<close>

theorem xfdf_import_bounded:
  assumes "utf8_law q" "rounding_ok (qt_rnd q)" "list_all token_text tokens" "xfdfToAnnotations q n tokens sizes limits = (err, r)" "xr_pages r \<noteq> []"
  shows "err = [] \<and> n \<le> MaxXfdfBytes \<and> map (\<lambda>p. (xp_widthPoints p, xp_heightPoints p)) (xr_pages r) = sizes
    \<and> list_all2 (\<lambda>p k. length (xp_annotations p) \<le> k) (xr_pages r) (page_limits sizes limits)
    \<and> xr_applied r = sum_list (map (\<lambda>p. length (xp_annotations p)) (xr_pages r))
    \<and> xr_applied r \<le> min (xl_annotationsRemaining limits) MaxAnnotationsPerDocument
    \<and> list_all (\<lambda>p. list_all (\<lambda>a. isValidAnnotation a = Valid \<and> extras_ok (an_extras a) \<and> box_ok (an_x0 a) (an_y0 a) (an_x1 a) (an_y1 a))
         (xp_annotations p)) (xr_pages r)
    \<and> length (xr_warnings r) \<le> min (xr_skipped r) MaxWarnings + 1"
proof -
  let ?im = "Importer_init sizes limits"
  have run: "importer_run q n tokens ?im = (err, r)" using assms(4) by (simp add: xfdfToAnnotations_def)
  have n: "n \<le> MaxXfdfBytes" "im_limitsError ?im = []"
    using run assms(5) by (auto simp: importer_run_def Let_def xfdf_fail_def split: if_splits)
  obtain im where im: "importer_ok sizes (im_annotationsPerPageRemaining ?im) (im_annotationsRemaining ?im) im" "xr_pages r = xr_pages (im_result im)"
      "xr_applied r = xr_applied (im_result im)" "xr_skipped r = xr_skipped (im_result im)"
      "length (xr_warnings r) \<le> length (xr_warnings (im_result im)) + 1" "err = []"
    using importer_run_ok [OF assms(1-3) refl, of sizes limits n] assms(5) by (auto simp: run outcome_ok_def)
  have "im_annotationsPerPageRemaining ?im = page_limits sizes limits"
    using n(2) by (auto simp: Importer_init_limits) (auto simp: Importer_init_def Let_def qs_def split: if_splits)
  then have all2: "list_all2 (\<lambda>p k. length (xp_annotations p) \<le> k \<and> list_all annotation_ok (xp_annotations p)) (xr_pages r) (page_limits sizes limits)"
    using im(1,2) by (simp add: importer_ok_def)
  then have "list_all (\<lambda>p. list_all annotation_ok (xp_annotations p)) (xr_pages r)"
    by (auto simp: list_all2_conv_all_nth list_all_length)
  then show ?thesis
    using im n all2 unfolding annotation_ok_def importer_ok_def Importer_init_limits by (auto elim: list_all2_mono)
qed

theorem xfdf_import_bounded_witness:
  "xr_applied (snd (xfdfToAnnotations exact_qt 500 sample_square [(Fin 100, Fin 200)] sample_limits)) = 1 \<and>
   list_all (\<lambda>p. list_all (\<lambda>a. isValidAnnotation a = Valid \<and> extras_ok (an_extras a) \<and> box_ok (an_x0 a) (an_y0 a) (an_x1 a) (an_y1 a)) (xp_annotations p))
     (xr_pages (snd (xfdfToAnnotations exact_qt 500 sample_square [(Fin 100, Fin 200)] sample_limits))) \<and>
   length (xr_warnings (snd (xfdfToAnnotations exact_qt 500 sample_square [(Fin 100, Fin 200)] sample_limits))) \<le> 2"
proof -
  have rnd: "rounding_ok (qt_rnd exact_qt)" by (simp add: exact_qt_def rounding_exact)
  have toks: "list_all token_text sample_square" by (simp add: sample_square_def qs_def)
  show ?thesis using xfdf_import_bounded [OF exact_utf8_law rnd toks sample_run] by (simp add: sample_run)
qed


definition sample_annotation :: "AnnotationType \<Rightarrow> AnnotationExtras \<Rightarrow> Annotation" where
  "sample_annotation t extras =
     \<lparr>an_subtype = t, an_uuid = ''id'', an_x0 = Fin 0, an_y0 = Fin 0, an_x1 = Fin 1, an_y1 = Fin 1, an_contents = ''a < b'', an_author = ''me'',
      an_creationDate = \<lparr>ts_valid = True, ts_unixMilliseconds = 5500\<rparr>, an_modificationDate = no_timestamp, an_color = 0xff112233, an_flags = 4,
      an_extras = extras, an_nativeIndex = - 1, an_pdfObjectNumber = - 1, an_handle = []\<rparr>"

definition sample_document :: "XfdfPage list" where
  "sample_document =
     [\<lparr>xp_widthPoints = Fin 100, xp_heightPoints = Fin 200,
       xp_annotations =
         [sample_annotation AT_Line (no_extras\<lparr>ax_points := [\<lparr>pt_x = Fin 0, pt_y = Fin (1 / 4)\<rparr>, \<lparr>pt_x = Fin 1, pt_y = Fin (1 / 2)\<rparr>]\<rparr>),
          sample_annotation AT_Popup no_extras]\<rparr>]"

lemma sample_writable: "document_writable exact_qt sample_document"
proof -
  have "text_ok exact_qt ''id''" "text_ok exact_qt ''me''" "contents_ok exact_qt ''a < b''"
    using ascii_round [of "''id''"] ascii_round [of "''me''"] ascii_round [of "''a < b''"]
    by (simp_all add: text_ok_def contents_ok_def qs_def) (simp_all add: exact_qt_def clean_text_def body_text_def qs_def)
  moreover have "date_law exact_qt 5500"
    unfolding date_law_def
    by (rule exI [of _ 1970], rule exI [of _ 1], rule exI [of _ 1], rule exI [of _ 0], rule exI [of _ 0], rule exI [of _ 5])
      (simp add: exact_qt_def day_text_def one_day_def padded_def qs_def Let_def upt_rec)
  ultimately show ?thesis
    by (simp add: document_writable_def sample_document_def page_writable_def page_size_ok_def annotation_writable_def sample_annotation_def time_ok_def no_timestamp_def
        style_ok_def no_extras_def no_style_def geometry_ok_def unit_interval_def unit_point_def hasCallout_def limits)
qed


text \<open>
  C16. A point that is written in page units with six decimals and read again comes back within two millionths of the page's width and height, on pages
  between one and a million points in each direction, whatever rounding the arithmetic makes within its precision.
\<close>

theorem xfdf_point_precision:
  assumes "qt_laws q" "page_size_ok (Fin W) (Fin H)" "1 \<le> W" "1 \<le> H" "unit_interval (Fin x)" "unit_interval (Fin y)"
  shows "\<exists>x' y'. parse_pair q (joined comma (point_text q \<lparr>pt_x = Fin x, pt_y = Fin y\<rparr> (Fin W) (Fin H))) (Fin W) (Fin H)
      = Some \<lparr>pt_x = Fin x', pt_y = Fin y'\<rparr> \<and> \<bar>x' - x\<bar> \<le> 2 / 10 ^ 6 \<and> \<bar>y' - y\<bar> \<le> 2 / 10 ^ 6"
proof -
  have p: "unit_point \<lparr>pt_x = Fin x, pt_y = Fin y\<rparr>" using assms(5,6) by (simp add: unit_point_def)
  show ?thesis using reread_near [OF assms(1-4) p] parse_pair_round(1) [OF assms(1,2) p] by auto
qed

theorem xfdf_point_precision_witness:
  "\<exists>x' y'. parse_pair exact_qt (joined comma (point_text exact_qt \<lparr>pt_x = Fin (1 / 3), pt_y = Fin (2 / 3)\<rparr> (Fin 595) (Fin 842))) (Fin 595) (Fin 842)
      = Some \<lparr>pt_x = Fin x', pt_y = Fin y'\<rparr> \<and> \<bar>x' - 1 / 3\<bar> \<le> 2 / 10 ^ 6 \<and> \<bar>y' - 2 / 3\<bar> \<le> 2 / 10 ^ 6"
  by (rule xfdf_point_precision) (simp_all add: exact_laws page_size_ok_def unit_interval_def)

end
