(* ===== verification/Spec2Isabelle.thy ===== *)
theory Spec2Isabelle
  imports Server_Laws Transport_Laws Fd_Channel Sandbox_Status Ocr_Controller_Laws Worker_Client Outline_Source Render_Cancel Page_Cache Xfdf_Laws
begin

text \<open>
  A verification library for okular-mupdf-ng, an Okular back end that runs MuPDF in a separate, sandboxed worker process.

  \<^bold>\<open>The program.\<close> The host (the Okular plugin) and the worker talk over two Unix sockets: a stream of length-prefixed control
  frames (\<^verbatim>\<open>src/src/shared/transport/ctrl_channel.cpp\<close>) carrying serialised requests, responses and notifications
  (\<^verbatim>\<open>shared/protocol/zpp_codec.cpp\<close>, data model \<^verbatim>\<open>shared/model/types.hpp\<close>), and a packet socket that passes file descriptors
  with a transfer id (\<^verbatim>\<open>shared/transport/fd_channel.cpp\<close>). In the worker, \<^verbatim>\<open>worker/runtime/worker_server.cpp\<close> runs the poll loop and hands
  each request to \<^verbatim>\<open>worker/runtime/command_service.cpp\<close>, which validates it, calls the document engine, keeps the tables of
  annotation and form-field handles, renders into the shared frames of \<^verbatim>\<open>worker/runtime/frame_pool.cpp\<close>, and starts background OCR
  and export jobs (\<^verbatim>\<open>worker/engine/ocr/jobs.cpp\<close>, \<^verbatim>\<open>worker/engine/export/jobs.cpp\<close>). In the host,
  \<^verbatim>\<open>plugin/worker_transport.cpp\<close> sends a request, waits for its response while serving notifications (the worker may ask for a
  signature in between), maps the frames it is given and releases them, and publishes exported files; \<^verbatim>\<open>plugin/worker_client.cpp\<close> restarts
  a worker that died. \<^verbatim>\<open>plugin/ocr/controller.cpp\<close> decides which page is recognised next, first asking the cache of page results
  (\<^verbatim>\<open>plugin/caching/ocr_cache.cpp\<close>). For a PDF without an outline the worker builds one from the text
  (\<^verbatim>\<open>worker/engine/pdf/outline.cpp\<close>, \<^verbatim>\<open>generated_outline.cpp\<close>), which the host keeps in a cache
  (\<^verbatim>\<open>plugin/caching/pdf_toc_cache.cpp\<close> over \<^verbatim>\<open>epub_cache.cpp\<close>). Annotations are exported to and imported from XFDF documents by
  \<^verbatim>\<open>plugin/xfdf/export.cpp\<close> and \<^verbatim>\<open>import.cpp\<close>.

  \<^bold>\<open>The theories\<close>, in the order they build on each other; each definition has the name of the function or type it models.
  \<^item> \<open>Mu_Prelude\<close>: types shared by all (machine words, doubles with infinities and NaN, validation verdicts) and lemmas on lists,
    options and words. \<open>Mu_Limits\<close>: the constants of \<^verbatim>\<open>shared/protocol/limits.hpp\<close>, in the collection \<open>limits\<close>.
    \<open>Std_Map\<close>: association lists with the behaviour of the standard maps, and their laws.
  \<^item> \<open>Model_Types\<close>, \<open>Messages\<close>: the structures, enumerations and variants of \<^verbatim>\<open>types.hpp\<close> as records and datatypes.
    \<open>Sandbox_Status\<close>: \<^verbatim>\<open>sandbox_status.hpp\<close>.
  \<^item> \<open>Text_Encoding\<close>, \<open>Validation\<close>, \<open>Export_Options\<close>: \<^verbatim>\<open>validation.cpp\<close> and \<^verbatim>\<open>export.cpp\<close>, every predicate with its error text;
    \<open>Validation_Laws\<close> relates the scanners to reference definitions (UTF-8, base64, extension trees, link budgets, layer walks).
  \<^item> \<open>Frame_Buffer\<close>: \<^verbatim>\<open>frame_buffer.hpp\<close>. \<open>Frame_Pool\<close>: slots and leases over a small kernel that hands out memory files and
    mappings, with the invariant of the pool and a refinement of release. \<open>Render_Budget\<close>: \<^verbatim>\<open>render_budget.hpp\<close> and
    \<^verbatim>\<open>memory_pressure.hpp\<close>, at any rounding that respects order and integers.
  \<^item> \<open>Ocr_Jobs\<close>, \<open>Export_Jobs\<close>: job tables; the threads are interleaved steps of an inductive run.
  \<^item> \<open>Engine_Interface\<close>: the virtual interface \<^verbatim>\<open>DocumentBase\<close> as a record of operations over an abstract document; a locale states
    the documented laws of an engine. \<open>Command_Service\<close>: \<open>dispatch\<close> with every handler. \<open>Command_Service_Laws\<close>: rendering,
    signing, links, response limits. \<open>Handle_Tables\<close>, \<open>Session_Laws\<close>, \<open>Session_Invariant\<close>: the invariant of a session, kept by every
    request, and what it gives for handles and document changes.
  \<^item> \<open>Ctrl_Channel\<close>, \<open>Fd_Channel\<close>, \<open>Zpp_Codec\<close>: the transport. System calls are inputs: a list of what each poll, receive and
    send returned. Serialisation of message bodies is the vendored zpp library, a parameter with the law that it reads back what
    it wrote.
  \<^item> \<open>Worker_Server\<close>, \<open>Server_Laws\<close>: the poll loop turn by turn over codec, channel and command service; \<open>Server_Laws\<close> states a client of
    the poll loop as a locale and interprets it on the server.
  \<^item> \<open>Worker_Transport\<close>, \<open>Transport_Laws\<close>: the host's side of the protocol. \<open>Worker_Client\<close>: the life cycle of the worker process, its
    restarts as steps of an inductive run over the clock. \<open>Render_Cancel\<close>: a render that its caller may abandon, caller and job as interleaved steps.
  \<^item> \<open>Ocr_Cache\<close>: page results on disk, keys and file format. \<open>Ocr_Controller\<close>: the policies of \<^verbatim>\<open>plugin/ocr/policy.hpp\<close> and the controller as a
    machine over the events of its thread; \<open>Ocr_Controller_Laws\<close>: its invariant and what observers see.
  \<^item> \<open>Fp_Arith\<close>: arithmetic on doubles at an arbitrary rounding. \<open>Outline_Text\<close>: how headings are read, with the grammar of numbered
    headings. \<open>Generated_Outline\<close>: the pipeline of \<^verbatim>\<open>generated_outline.cpp\<close>; pointers into the growing tree are paths.
    \<open>Outline_Cache\<close>: the outline caches down to their bytes. \<open>Generated_Outline_Laws\<close>: order, nesting and bounds of the tree.
    \<open>Outline_Source\<close>: \<^verbatim>\<open>outline.cpp\<close>, from structured text to the finished outline. \<open>Page_Cache\<close>: \<^verbatim>\<open>page_cache.hpp\<close> with the references it
    holds, behind a locale for stores of pages, and \<open>loadPage\<close>.
  \<^item> \<open>Xfdf_Values\<close>, \<open>Xfdf_Export\<close>, \<open>Xfdf_Import\<close>: the XFDF writer and reader. Conversions of Qt between numbers, dates and text are fields of the record
    \<open>QtCalls\<close>, the XML reader is the list of its tokens. \<open>Xfdf_Import_Laws\<close>: what every import respects. \<open>Xfdf_Text\<close>: the laws relied on of Qt and
    the round trip of each kind of value. \<open>Xfdf_Markup\<close>: the written document as markup, and how the reader collects it. \<open>Xfdf_Round_Trip\<close>,
    \<open>Xfdf_Precision\<close>: the whole document, and the error of a coordinate. \<open>Xfdf_Instance\<close>: functions for which the laws hold. \<open>Xfdf_Laws\<close>: the properties.

  \<^bold>\<open>What is shown.\<close> A session keeps its invariant over every request and always answers; stale handles are refused; a document
  change leaves nothing of the old document behind. Frames published by the worker pass the host's validation and never show pixels
  outside the mapping or of an earlier frame; leases are never reissued. Background jobs respect their limits, are announced
  once and in order, and a result cancelled or replaced is never delivered. Bytes put on the stream come out as the same frames
  in the same order however they are cut, a failed write never leaves a cut frame behind, a message decodes to what was encoded
  and to nothing else, a descriptor reaches the request it was sent for and no other is leaked. The server answers a request with
  a response to that request, deferred requests first; the host returns a response to its own request or ends the session, and signs
  at most once per signing request with the certificate the user named. A dead worker is restarted within a fixed budget. The OCR controller runs one request at a time,
  never delivers a result of another document or configuration, and its cache returns what was saved, from paths inside its directory.
  A generated outline follows the pages of the document, nests a number only below its own prefixes, and is always one that the
  cache accepts and returns unchanged. An abandoned render returns at once, tells the worker, and frees its shared state exactly once; the page cache never
  hands out the handle of another page nor loses a reference. An XFDF import never exceeds the room of the target, gives only annotations
  that pass validation, and reads back what the export wrote, coordinates to two millionths of the page.

  \<^bold>\<open>Bounds and fuel.\<close> Machine integers are words of their width (C++ \<open>int\<close> values are \<open>int\<close> with their range as a hypothesis or a
  validated fact). Loops over system calls recurse on the list of outcomes, and \<open>None\<close> means that the list ended first; loops of the code's
  own are total functions with a measure. No fuel constant is used.

  \<^bold>\<open>Not modelled.\<close> The engines (PDF, EPUB, XPS, MOBI, Kindle), OCR and theming are sequences of MuPDF and Tesseract calls (of the PDF engine, the outlines and the page cache are modelled); NSS
  signing and the Okular generator are glue over other libraries; the SHA-256 names of cache files and the clean-up of old cache files are
  left out; the sandbox set-up, process launch and the
  creation of sockets are sequences of system calls; \<^verbatim>\<open>ipc_debug.cpp\<close> produces log text.
\<close>

end
